(* ===== verification/Prelude.thy ===== *)
theory Prelude
  imports Main "HOL-Library.Char_ord"
begin

text \<open>
  Shared vocabulary of the development: results with errors as values, folds that stop at the
  first error, the hash and hexadecimal shapes that several packages check, and the decimal
  digits that amounts and heights are printed with and parsed from.
\<close>

section \<open>Results: errors as values\<close>

text \<open>
  A Go function that returns \<^verbatim>\<open>(T, error)\<close> is a function into \<open>'e + 't\<close>: \<open>Inl\<close> is a
  non-nil error. \<open>rbind\<close> is the \<open>if err != nil { return err }\<close> that follows a call, \<open>guard\<close> the
  check that returns an error when a condition fails.
\<close>

named_theorems result_simps \<open>equations that run a result-valued computation\<close>

definition rbind :: "'e + 'a \<Rightarrow> ('a \<Rightarrow> 'e + 'b) \<Rightarrow> 'e + 'b" where
  "rbind m f = (case m of Inl e \<Rightarrow> Inl e | Inr x \<Rightarrow> f x)"

definition guard :: "bool \<Rightarrow> 'e \<Rightarrow> 'e + unit" where
  "guard c e = (if c then Inr () else Inl e)"

definition of_option :: "'e \<Rightarrow> 'a option \<Rightarrow> 'e + 'a" where
  "of_option e m = (case m of None \<Rightarrow> Inl e | Some x \<Rightarrow> Inr x)"

definition map_err :: "('e \<Rightarrow> 'f) \<Rightarrow> 'e + 'a \<Rightarrow> 'f + 'a" where
  "map_err g m = (case m of Inl e \<Rightarrow> Inl (g e) | Inr x \<Rightarrow> Inr x)"

lemma rbind_simps [simp]: "rbind (Inl e) f = Inl e" "rbind (Inr x) f = f x"
  by (simp_all add: rbind_def)

lemma guard_True [simp]: "guard True e = Inr ()" and guard_False [simp]: "guard False e = Inl e"
  by (simp_all add: guard_def)

lemma map_err_simps [simp]: "map_err g (Inl e) = Inl (g e)" "map_err g (Inr x) = Inr x"
  by (simp_all add: map_err_def)

lemma of_option_simps [simp]: "of_option e None = Inl e" "of_option e (Some x) = Inr x"
  by (simp_all add: of_option_def)

lemma rbind_eq_Inr_iff [result_simps]:
  "rbind m f = Inr y \<longleftrightarrow> (\<exists>x. m = Inr x \<and> f x = Inr y)"
  by (cases m) auto

lemma rbind_eq_Inl_iff:
  "rbind m f = Inl e \<longleftrightarrow> m = Inl e \<or> (\<exists>x. m = Inr x \<and> f x = Inl e)"
  by (cases m) auto

lemma guard_eq_Inr_iff [result_simps]: "guard c e = Inr u \<longleftrightarrow> c"
  by (cases c) auto

lemma guard_eq_Inl_iff: "guard c e = Inl e' \<longleftrightarrow> \<not> c \<and> e' = e"
  by (cases c) auto

lemma of_option_eq_Inr_iff [result_simps]: "of_option e m = Inr x \<longleftrightarrow> m = Some x"
  by (cases m) auto

lemma map_err_eq_Inr_iff [result_simps]: "map_err g m = Inr x \<longleftrightarrow> m = Inr x"
  by (cases m) auto

lemma rbind_assoc: "rbind (rbind m f) g = rbind m (\<lambda>x. rbind (f x) g)"
  by (cases m) auto

lemma rbind_cong [fundef_cong]:
  "m = m' \<Longrightarrow> (\<And>x. m' = Inr x \<Longrightarrow> f x = f' x) \<Longrightarrow> rbind m f = rbind m' f'"
  by (cases m') auto

section \<open>Loops that stop at the first error\<close>

primrec fold_res :: "('a \<Rightarrow> 's \<Rightarrow> 'e + 's) \<Rightarrow> 'a list \<Rightarrow> 's \<Rightarrow> 'e + 's" where
  "fold_res f [] s = Inr s"
| "fold_res f (x # xs) s = rbind (f x s) (fold_res f xs)"

primrec map_res :: "('a \<Rightarrow> 'e + 'b) \<Rightarrow> 'a list \<Rightarrow> 'e + 'b list" where
  "map_res f [] = Inr []"
| "map_res f (x # xs) = rbind (f x) (\<lambda>y. rbind (map_res f xs) (\<lambda>ys. Inr (y # ys)))"

lemma fold_res_append:
  "fold_res f (xs @ ys) s = rbind (fold_res f xs s) (fold_res f ys)"
proof (induction xs arbitrary: s)
  case (Cons x xs)
  then have "fold_res f (xs @ ys) = (\<lambda>u. rbind (fold_res f xs u) (fold_res f ys))"
    by (simp add: fun_eq_iff)
  then show ?case by (simp add: rbind_assoc)
qed simp

text \<open>The invariant rule of a loop: what every iteration keeps holds of the result.\<close>

lemma fold_res_invariant:
  assumes "fold_res f xs s = Inr t" "P s"
    and "\<And>x s t. x \<in> set xs \<Longrightarrow> P s \<Longrightarrow> f x s = Inr t \<Longrightarrow> P t"
  shows "P t"
  using assms
proof (induction xs arbitrary: s)
  case Nil
  then show ?case by simp
next
  case (Cons x xs)
  from Cons.prems(1) obtain u where u: "f x s = Inr u" "fold_res f xs u = Inr t"
    by (auto simp: rbind_eq_Inr_iff)
  have "P u" using Cons.prems(3) [OF _ Cons.prems(2) u(1)] by simp
  with u(2) show ?case by (rule Cons.IH) (use Cons.prems(3) in auto)
qed

text \<open>A loop whose iterations keep a relation that composes.\<close>

lemma fold_res_relation:
  assumes "fold_res f xs s = Inr t" "\<And>s. R s s" "\<And>s t u. R s t \<Longrightarrow> R t u \<Longrightarrow> R s u"
    and "\<And>x s t. x \<in> set xs \<Longrightarrow> f x s = Inr t \<Longrightarrow> R s t"
  shows "R s t"
proof -
  have "R s t" if "fold_res f xs s' = Inr t" "R s s'" for s'
    using that(1,2)
    by (rule fold_res_invariant [where P = "R s"]) (use assms(3,4) in blast)
  with assms(1,2) show ?thesis by blast
qed

lemma map_res_length: "map_res f xs = Inr ys \<Longrightarrow> length ys = length xs"
  by (induction xs arbitrary: ys) (auto simp: rbind_eq_Inr_iff)

lemma map_res_nth: "map_res f xs = Inr ys \<Longrightarrow> i < length xs \<Longrightarrow> f (xs ! i) = Inr (ys ! i)"
  by (induction xs arbitrary: ys i) (auto simp: rbind_eq_Inr_iff nth_Cons split: nat.split)

lemma map_res_list_all2: "map_res f xs = Inr ys \<longleftrightarrow> list_all2 (\<lambda>x y. f x = Inr y) xs ys"
  by (induction xs arbitrary: ys) (auto simp: rbind_eq_Inr_iff list_all2_Cons1)

lemma map_res_set: "map_res f xs = Inr ys \<Longrightarrow> y \<in> set ys \<Longrightarrow> \<exists>x \<in> set xs. f x = Inr y"
  by (induction xs arbitrary: ys) (auto simp: rbind_eq_Inr_iff)

lemma map_res_map: "map_res f (map g xs) = map_res (f \<circ> g) xs"
  by (induction xs) auto

lemma map_res_Inr: "(\<And>x. x \<in> set xs \<Longrightarrow> f x = Inr (g x)) \<Longrightarrow> map_res f xs = Inr (map g xs)"
  by (induction xs) auto

section \<open>Lists\<close>

text \<open>Go's slice expression \<^verbatim>\<open>s[i:j]\<close>, used only where the code has checked the bounds.\<close>

definition go_slice :: "nat \<Rightarrow> nat \<Rightarrow> 'a list \<Rightarrow> 'a list" where
  "go_slice i j s = take (j - i) (drop i s)"

lemma length_go_slice [simp]: "j \<le> length s \<Longrightarrow> length (go_slice i j s) = j - i"
  by (simp add: go_slice_def)

lemma sum_list_filter_split:
  "sum_list (map f (filter P xs)) + sum_list (map f (filter (\<lambda>x. \<not> P x) xs))
    = sum_list (map (f :: 'a \<Rightarrow> int) xs)"
  by (induction xs) auto

lemma sum_list_map_cong_int:
  "(\<And>x. x \<in> set xs \<Longrightarrow> f x = g x) \<Longrightarrow> sum_list (map f xs) = sum_list (map (g :: 'a \<Rightarrow> int) xs)"
  by (induction xs) auto

section \<open>Hexadecimal shapes\<close>

text \<open>
  \<^verbatim>\<open>(c >= '0' && c <= '9') || (c >= 'a' && c <= 'f')\<close>: the lowercase digits that
  \<^verbatim>\<open>validateHash\<close>, \<^verbatim>\<open>validateBits\<close> and the schema's patterns accept.
\<close>

definition is_lower_hex :: "char \<Rightarrow> bool" where
  "is_lower_hex c \<longleftrightarrow> CHR ''0'' \<le> c \<and> c \<le> CHR ''9'' \<or> CHR ''a'' \<le> c \<and> c \<le> CHR ''f''"

definition is_digit :: "char \<Rightarrow> bool" where
  "is_digit c \<longleftrightarrow> CHR ''0'' \<le> c \<and> c \<le> CHR ''9''"

text \<open>The schema's pattern \<^verbatim>\<open>^[0-9a-f]{64}$\<close>.\<close>

definition is_hash64 :: "string \<Rightarrow> bool" where
  "is_hash64 s \<longleftrightarrow> length s = 64 \<and> list_all is_lower_hex s"

lemma is_hash64_replicate [simp]: "is_hash64 (replicate 64 c) \<longleftrightarrow> is_lower_hex c"
  by (auto simp: is_hash64_def list_all_iff)

section \<open>Decimal digits\<close>

definition digit_val :: "char \<Rightarrow> nat" where
  "digit_val c = of_char c - 48"

definition digit_char :: "nat \<Rightarrow> char" where
  "digit_char d = char_of (48 + d)"

text \<open>\<^verbatim>\<open>%d\<close> of a non-negative integer.\<close>

fun show_nat :: "nat \<Rightarrow> string" where
  "show_nat n = (if n < 10 then [digit_char n] else show_nat (n div 10) @ [digit_char (n mod 10)])"

declare show_nat.simps [simp del]

definition read_nat :: "string \<Rightarrow> nat" where
  "read_nat s = foldl (\<lambda>n c. 10 * n + digit_val c) 0 s"

lemma digit_val_char [simp]: "d < 10 \<Longrightarrow> digit_val (digit_char d) = d"
  by (simp add: digit_val_def digit_char_def)

lemma is_digit_char [simp]: "d < 10 \<Longrightarrow> is_digit (digit_char d)"
proof -
  assume "d < 10"
  then have "d \<in> {0, 1, 2, 3, 4, 5, 6, 7, 8, 9}" by auto
  then show ?thesis by (auto simp: is_digit_def digit_char_def less_eq_char_def)
qed

lemma read_nat_Nil [simp]: "read_nat [] = 0"
  by (simp add: read_nat_def)

lemma read_nat_snoc [simp]: "read_nat (s @ [c]) = 10 * read_nat s + digit_val c"
  by (simp add: read_nat_def)

lemma show_nat_digits: "list_all is_digit (show_nat n)"
proof (induction n rule: show_nat.induct)
  case (1 n)
  then show ?case by (cases "n < 10") (simp_all add: show_nat.simps [of n])
qed

lemma show_nat_nonempty [simp]: "show_nat n \<noteq> []"
  by (subst show_nat.simps) simp

lemma read_show_nat [simp]: "read_nat (show_nat n) = n"
proof (induction n rule: show_nat.induct)
  case (1 n)
  show ?case
  proof (cases "n < 10")
    case True
    then show ?thesis using read_nat_snoc [of "[]"] by (simp add: show_nat.simps [of n])
  next
    case False
    with 1 show ?thesis by (simp add: show_nat.simps [of n])
  qed
qed

lemma read_nat_append: "read_nat (s @ t) = read_nat s * 10 ^ length t + read_nat t"
  by (induction t rule: rev_induct) (simp_all add: append_assoc [symmetric] algebra_simps del: append_assoc)

lemma read_nat_zeros [simp]: "read_nat (replicate k CHR ''0'') = 0"
proof (induction k)
  case (Suc k)
  have "read_nat (replicate (Suc k) CHR ''0'') = read_nat (replicate k CHR ''0'' @ [CHR ''0''])"
    by (simp add: replicate_append_same)
  with Suc show ?case by (simp add: digit_val_def)
qed simp

lemma length_show_nat: "n < 10 ^ k \<Longrightarrow> 0 < k \<Longrightarrow> length (show_nat n) \<le> k"
proof (induction n arbitrary: k rule: show_nat.induct)
  case (1 n)
  show ?case
  proof (cases "n < 10")
    case True
    with 1 show ?thesis by (simp add: show_nat.simps [of n])
  next
    case False
    with "1.prems" obtain j where k: "k = Suc j" and j: "0 < j"
      by (cases k; cases "k - 1") auto
    with "1.prems" have "n div 10 < 10 ^ j" by (simp add: div_less_iff_less_mult mult.commute)
    with False j k "1.IH" show ?thesis by (simp add: show_nat.simps [of n])
  qed
qed

section \<open>Calls that also change a state\<close>

text \<open>
  A method that can fail and that updates the state behind its receiver is a function
  \<open>'s \<Rightarrow> ('e + 'a) \<times> 's\<close>: the state comes back also when the call fails.
\<close>

type_synonym ('s, 'e, 'a) call = "'s \<Rightarrow> ('e + 'a) \<times> 's"

definition sret :: "'e + 'a \<Rightarrow> ('s, 'e, 'a) call" where
  "sret r = (\<lambda>s. (r, s))"

definition sbind :: "('s, 'e, 'a) call \<Rightarrow> ('a \<Rightarrow> ('s, 'e, 'b) call) \<Rightarrow> ('s, 'e, 'b) call" where
  "sbind m f = (\<lambda>s. case m s of (Inl e, t) \<Rightarrow> (Inl e, t) | (Inr x, t) \<Rightarrow> f x t)"

primrec smap :: "('a \<Rightarrow> ('s, 'e, 'b) call) \<Rightarrow> 'a list \<Rightarrow> ('s, 'e, 'b list) call" where
  "smap f [] = sret (Inr [])"
| "smap f (x # xs) = sbind (f x) (\<lambda>y. sbind (smap f xs) (\<lambda>ys. sret (Inr (y # ys))))"

lemma sret_eq [result_simps]: "sret r s = (r, s)"
  by (simp add: sret_def)

lemma sbind_eq_Inr_iff [result_simps]:
  "sbind m f s = (Inr y, t) \<longleftrightarrow> (\<exists>x u. m s = (Inr x, u) \<and> f x u = (Inr y, t))"
  by (auto simp: sbind_def split: prod.splits sum.splits)

lemma smap_Inr_iff [result_simps]:
  "smap f [] s = (Inr ys, t) \<longleftrightarrow> ys = [] \<and> t = s"
  "smap f (x # xs) s = (Inr ys, t) \<longleftrightarrow>
    (\<exists>z u zs. f x s = (Inr z, u) \<and> smap f xs u = (Inr zs, t) \<and> ys = z # zs)"
  by (auto simp: result_simps)

lemma smap_list_all2:
  assumes "smap f xs s = (Inr ys, t)" "\<And>x y s t. x \<in> set xs \<Longrightarrow> f x s = (Inr y, t) \<Longrightarrow> P x y"
  shows "list_all2 P xs ys"
  using assms
proof (induction xs arbitrary: s ys)
  case (Cons x xs)
  from Cons.prems(1) obtain z u zs where
    "f x s = (Inr z, u)" "smap f xs u = (Inr zs, t)" "ys = z # zs"
    by (auto simp: result_simps)
  with Cons.IH [of u zs] Cons.prems(2) show ?case by auto
qed (simp add: sret_def)
end
