(* ===== verification/Int64.thy ===== *)
theory Int64
  imports Prelude "HOL-Library.Signed_Division"
begin

text \<open>
  Go's \<^verbatim>\<open>int64\<close> as integers with the wrap-around written out, and the checked
  additions, subtractions and multiplications that \<^verbatim>\<open>internal/store\<close> and
  \<^verbatim>\<open>internal/accounting\<close> build every satoshi sum from. Each check reads the wrapped
  result, as the code does; the lemmas show when that is the same as asking for overflow.
\<close>

section \<open>Wrapping arithmetic\<close>

definition min_i64 :: int where "min_i64 = - 9223372036854775808"
definition max_i64 :: int where "max_i64 = 9223372036854775807"

definition in_i64 :: "int \<Rightarrow> bool" where
  "in_i64 x \<longleftrightarrow> min_i64 \<le> x \<and> x \<le> max_i64"

definition wrap64 :: "int \<Rightarrow> int" where
  "wrap64 x = (x + 9223372036854775808) mod 18446744073709551616 - 9223372036854775808"

definition add64 :: "int \<Rightarrow> int \<Rightarrow> int" where "add64 a b = wrap64 (a + b)"
definition sub64 :: "int \<Rightarrow> int \<Rightarrow> int" where "sub64 a b = wrap64 (a - b)"
definition mul64 :: "int \<Rightarrow> int \<Rightarrow> int" where "mul64 a b = wrap64 (a * b)"

text \<open>Division truncates towards zero; the one quotient that does not fit wraps.\<close>

definition quot64 :: "int \<Rightarrow> int \<Rightarrow> int" where "quot64 a b = wrap64 (a sdiv b)"

lemmas i64_defs = in_i64_def min_i64_def max_i64_def

lemma wrap64_range [simp]: "in_i64 (wrap64 x)"
proof -
  have "0 \<le> (x + 9223372036854775808) mod 18446744073709551616"
    and "(x + 9223372036854775808) mod 18446744073709551616 < 18446744073709551616" by simp_all
  then show ?thesis unfolding i64_defs wrap64_def by linarith
qed

lemma wrap64_id: "in_i64 x \<Longrightarrow> wrap64 x = x"
  by (simp add: i64_defs wrap64_def)

text \<open>A value less than one period out of range comes back shifted by one period.\<close>

lemma wrap64_above: "max_i64 < x \<Longrightarrow> x \<le> max_i64 + 18446744073709551616 \<Longrightarrow>
  wrap64 x = x - 18446744073709551616"
proof -
  assume a: "max_i64 < x" "x \<le> max_i64 + 18446744073709551616"
  have "(x + 9223372036854775808) mod 18446744073709551616
      = (x + 9223372036854775808 - 18446744073709551616) mod 18446744073709551616"
    by (simp only: mod_diff_right_eq [symmetric, where b = 18446744073709551616]) simp
  with a show ?thesis by (simp add: i64_defs wrap64_def)
qed

lemma wrap64_below: "x < min_i64 \<Longrightarrow> min_i64 - 18446744073709551616 \<le> x \<Longrightarrow>
  wrap64 x = x + 18446744073709551616"
proof -
  assume a: "x < min_i64" "min_i64 - 18446744073709551616 \<le> x"
  have "(x + 9223372036854775808) mod 18446744073709551616
      = (x + 9223372036854775808 + 18446744073709551616) mod 18446744073709551616"
    by (simp only: mod_add_self2)
  with a show ?thesis by (simp add: i64_defs wrap64_def)
qed

section \<open>store.addChecked, store.subChecked, accounting.checkedAdd, accounting.checkedMul\<close>

definition addChecked :: "int \<Rightarrow> int \<Rightarrow> int option" where
  "addChecked a b =
    (let sum = add64 a b
     in if (0 < b \<and> sum < a) \<or> (b < 0 \<and> a < sum) then None else Some sum)"

definition subChecked :: "int \<Rightarrow> int \<Rightarrow> int option" where
  "subChecked a b =
    (let diff = sub64 a b
     in if (b < 0 \<and> diff < a) \<or> (0 < b \<and> a < diff) then None else Some diff)"

definition checkedAdd :: "int \<Rightarrow> int \<Rightarrow> int option" where
  "checkedAdd a b =
    (let sum = add64 a b
     in if (0 < b \<and> sum < a) \<or> (b < 0 \<and> a < sum) then None else Some sum)"

definition checkedMul :: "int \<Rightarrow> int \<Rightarrow> int option" where
  "checkedMul a b =
    (if a = 0 \<or> b = 0 then Some 0
     else let product = mul64 a b
          in if quot64 product b \<noteq> a then None else Some product)"

lemma addChecked_exact:
  assumes "in_i64 a" "in_i64 b"
  shows "addChecked a b = (if in_i64 (a + b) then Some (a + b) else None)"
proof (cases "in_i64 (a + b)")
  case True
  then show ?thesis by (auto simp: addChecked_def add64_def wrap64_id Let_def)
next
  case False
  then consider "max_i64 < a + b" | "a + b < min_i64" by (auto simp: in_i64_def)
  then show ?thesis
  proof cases
    case 1
    then have "wrap64 (a + b) = a + b - 18446744073709551616"
      by (rule wrap64_above) (use assms in \<open>simp add: i64_defs\<close>)
    with 1 False assms show ?thesis by (simp add: addChecked_def add64_def Let_def i64_defs)
  next
    case 2
    then have "wrap64 (a + b) = a + b + 18446744073709551616"
      by (rule wrap64_below) (use assms in \<open>simp add: i64_defs\<close>)
    with 2 False assms show ?thesis by (simp add: addChecked_def add64_def Let_def i64_defs)
  qed
qed

lemma checkedAdd_eq: "checkedAdd = addChecked"
  by (simp add: fun_eq_iff checkedAdd_def addChecked_def)

lemma subChecked_exact:
  assumes "in_i64 a" "in_i64 b"
  shows "subChecked a b = (if in_i64 (a - b) then Some (a - b) else None)"
proof (cases "in_i64 (a - b)")
  case True
  then show ?thesis by (auto simp: subChecked_def sub64_def wrap64_id Let_def)
next
  case False
  then consider "max_i64 < a - b" | "a - b < min_i64" by (auto simp: in_i64_def)
  then show ?thesis
  proof cases
    case 1
    then have "wrap64 (a - b) = a - b - 18446744073709551616"
      by (rule wrap64_above) (use assms in \<open>simp add: i64_defs\<close>)
    with 1 False assms show ?thesis by (simp add: subChecked_def sub64_def Let_def i64_defs)
  next
    case 2
    then have "wrap64 (a - b) = a - b + 18446744073709551616"
      by (rule wrap64_below) (use assms in \<open>simp add: i64_defs\<close>)
    with 2 False assms show ?thesis by (simp add: subChecked_def sub64_def Let_def i64_defs)
  qed
qed

lemma addChecked_SomeD:
  assumes "addChecked a b = Some c" "in_i64 a" "in_i64 b"
  shows "c = a + b" "in_i64 c"
  using assms by (auto simp: addChecked_exact split: if_splits)

lemma subChecked_SomeD:
  assumes "subChecked a b = Some c" "in_i64 a" "in_i64 b"
  shows "c = a - b" "in_i64 c"
  using assms by (auto simp: subChecked_exact split: if_splits)

lemma addChecked_range: "addChecked a b = Some c \<Longrightarrow> in_i64 c"
proof -
  assume "addChecked a b = Some c"
  then have "c = wrap64 (a + b)"
    by (auto simp: addChecked_def add64_def Let_def split: if_splits)
  then show ?thesis by simp
qed

text \<open>
  The multiplication check divides the wrapped product back. It is exact for every pair of
  in-range operands but one: \<^verbatim>\<open>math.MinInt64 * -1\<close>, where the product and the quotient wrap
  to the same value and the overflow goes unnoticed (\<^verbatim>\<open>accounting\<close> only ever multiplies
  non-negative numbers).
\<close>

lemma wrap64_period: "\<exists>k. wrap64 x = x + k * 18446744073709551616"
proof
  show "wrap64 x = x + (- ((x + 9223372036854775808) div 18446744073709551616)) * 18446744073709551616"
    unfolding wrap64_def
    using div_mult_mod_eq [of "x + 9223372036854775808" 18446744073709551616] by linarith
qed

lemma quot64_inverse_imp_exact:
  assumes "in_i64 a" "in_i64 b" "b \<noteq> 0" "\<not> (a = min_i64 \<and> b = - 1)" "quot64 (wrap64 (a * b)) b = a"
  shows "wrap64 (a * b) = a * b"
proof -
  let ?p = "wrap64 (a * b)"
  have p: "in_i64 ?p" by simp
  have quot: "?p sdiv b = a"
  proof (cases "b = - 1")
    case True
    show ?thesis
    proof (cases "?p = min_i64")
      case True
      with assms(4,5) \<open>b = - 1\<close> show ?thesis
        by (simp add: quot64_def wrap64_def min_i64_def)
    next
      case False
      with p \<open>b = - 1\<close> have "in_i64 (?p sdiv b)" by (simp add: i64_defs)
      with assms(5) show ?thesis by (simp add: quot64_def wrap64_id)
    qed
  next
    case False
    have "in_i64 (?p sdiv b)"
    proof (cases "b = 1")
      case True
      with p show ?thesis by simp
    next
      case False
      have "\<bar>?p sdiv b\<bar> = \<bar>?p\<bar> div \<bar>b\<bar>"
        by (auto simp: signed_divide_int_def abs_mult abs_sgn_eq pos_imp_zdiv_nonneg_iff)
      also have "\<dots> \<le> \<bar>?p\<bar> div 2"
        by (rule zdiv_mono2) (use False \<open>b \<noteq> - 1\<close> assms(3) in auto)
      finally show ?thesis using p unfolding i64_defs by linarith
    qed
    with assms(5) show ?thesis by (simp add: quot64_def wrap64_id)
  qed
  obtain k where k: "?p = a * b + k * 18446744073709551616" using wrap64_period by blast
  have "?p smod b = k * 18446744073709551616"
    using minus_sdiv_mult_eq_smod [of ?p b] quot k by simp
  moreover have "\<bar>?p smod b\<bar> < 18446744073709551616"
    using smod_int_range [of b ?p] assms(2,3) by (auto simp: i64_defs)
  ultimately have "k = 0" by linarith
  with k show ?thesis by simp
qed

lemma checkedMul_exact:
  assumes "in_i64 a" "in_i64 b" "\<not> (a = min_i64 \<and> b = - 1)"
  shows "checkedMul a b = (if in_i64 (a * b) then Some (a * b) else None)"
proof (cases "a = 0 \<or> b = 0")
  case True
  then show ?thesis by (auto simp: checkedMul_def i64_defs)
next
  case nz: False
  show ?thesis
  proof (cases "in_i64 (a * b)")
    case True
    then have "quot64 (a * b) b = a" using nz assms(1)
      by (simp add: quot64_def wrap64_id signed_divide_int_eq_divide_int)
    with True nz show ?thesis by (simp add: checkedMul_def mul64_def wrap64_id)
  next
    case False
    then have "wrap64 (a * b) \<noteq> a * b" using wrap64_range [of "a * b"] by metis
    with quot64_inverse_imp_exact [OF assms(1,2) _ assms(3)] nz False
    show ?thesis by (auto simp: checkedMul_def mul64_def Let_def)
  qed
qed

end
