(* ===== verification/Chain.thy ===== *)
theory Chain
  imports Int64 "HOL-Library.Word"
begin

text \<open>
  \<^verbatim>\<open>internal/chain\<close>: amounts, out-points and the genesis hashes. An
  \<^verbatim>\<open>Amount\<close> is a Go \<^verbatim>\<open>int64\<close>, here a 64-bit word read with \<open>sint\<close>; its
  rendering works on the unsigned magnitude, as the code's does.
\<close>

section \<open>Amount\<close>

type_synonym amount = "64 word"

definition SatoshisPerQOGE :: amount where "SatoshisPerQOGE = 100000000"

definition Satoshis :: "amount \<Rightarrow> int" where "Satoshis a = sint a"

definition WholeQOGE :: "amount \<Rightarrow> int" where
  "WholeQOGE a = sint a sdiv sint SatoshisPerQOGE"

text \<open>\<^verbatim>\<open>%0kd\<close> of a non-negative integer.\<close>

definition show_padded :: "nat \<Rightarrow> nat \<Rightarrow> string" where
  "show_padded k n = replicate (k - length (show_nat n)) CHR ''0'' @ show_nat n"

text \<open>
  \<^verbatim>\<open>Amount.String\<close>: \<^verbatim>\<open>uint64(-(a + 1)) + 1\<close> is the magnitude of a negative
  amount, also of \<^verbatim>\<open>math.MinInt64\<close>, whose negation does not fit.
\<close>

definition amount_mag :: "amount \<Rightarrow> 64 word" where
  "amount_mag a = (if sint a < 0 then - (a + 1) + 1 else a)"

definition amount_String :: "amount \<Rightarrow> string" where
  "amount_String a =
    (let sign = (if sint a < 0 then ''-'' else '''');
         mag = amount_mag a;
         whole = mag div SatoshisPerQOGE;
         frac = mag mod SatoshisPerQOGE
     in sign @ show_nat (unat whole) @ ''.'' @ show_padded 8 (unat frac))"

lemma Satoshis_range [simp]: "in_i64 (Satoshis a)"
  using sint_range_size [of a]
  by (simp add: Satoshis_def i64_defs word_size)

lemma amount_mag_abs: "unat (amount_mag a) = nat \<bar>sint a\<bar>"
proof -
  have r: "- (2 ^ 63) \<le> sint a" "sint a < 2 ^ 63"
    using sint_range_size [of a] by (simp_all add: word_size)
  have u: "uint a = sint a mod 2 ^ 64" by (simp add: uint_sint take_bit_eq_mod)
  show ?thesis
  proof (cases "sint a < 0")
    case True
    have "uint (- a) = (- uint a) mod 2 ^ 64" by (simp add: uint_word_ariths)
    also have "\<dots> = (- sint a) mod 2 ^ 64" unfolding u by (simp only: mod_minus_eq)
    also have "\<dots> = - sint a" by (rule mod_pos_pos_trivial) (use True r in simp_all)
    finally show ?thesis using True by (simp add: amount_mag_def unat_eq_nat_uint)
  next
    case False
    have "uint a = sint a" unfolding u by (rule mod_pos_pos_trivial) (use False r in simp_all)
    with False show ?thesis by (simp add: amount_mag_def unat_eq_nat_uint)
  qed
qed

text \<open>
  The rendering denotes the amount exactly: its digits, read back as one number, are the
  magnitude in satoshis, for every 64-bit value including the most negative one.
\<close>

lemma length_show_padded: "n < 10 ^ k \<Longrightarrow> 0 < k \<Longrightarrow> length (show_padded k n) = k"
  using length_show_nat [of n k] by (simp add: show_padded_def)

lemma read_show_padded [simp]: "read_nat (show_padded k n) = n"
  by (simp add: show_padded_def read_nat_append)

lemma show_padded_digits: "list_all is_digit (show_padded k n)"
  using show_nat_digits [of n] by (auto simp: show_padded_def list_all_iff is_digit_def)

lemma amount_String_shape:
  "\<exists>w f. amount_String a = (if sint a < 0 then ''-'' else []) @ w @ ''.'' @ f
    \<and> w \<noteq> [] \<and> list_all is_digit w \<and> list_all is_digit f \<and> length f = 8
    \<and> read_nat (w @ f) = nat \<bar>sint a\<bar>"
proof -
  let ?m = "nat \<bar>sint a\<bar>"
  let ?w = "show_nat (?m div 100000000)" and ?f = "show_padded 8 (?m mod 100000000)"
  have "unat (amount_mag a div SatoshisPerQOGE) = ?m div 100000000"
    "unat (amount_mag a mod SatoshisPerQOGE) = ?m mod 100000000"
    by (simp_all add: unat_div unat_mod amount_mag_abs SatoshisPerQOGE_def)
  then have "amount_String a = (if sint a < 0 then ''-'' else []) @ ?w @ ''.'' @ ?f"
    by (simp add: amount_String_def Let_def)
  moreover have l: "length ?f = 8" by (rule length_show_padded) simp_all
  moreover have "read_nat (?w @ ?f) = ?m"
    using l by (simp add: read_nat_append)
  ultimately show ?thesis using show_nat_digits show_padded_digits show_nat_nonempty by blast
qed

section \<open>OutPoint and WitnessStack\<close>

type_synonym bytes = "8 word list"

type_synonym outpoint = "string \<times> nat"

definition OutPoint_String :: "outpoint \<Rightarrow> string" where
  "OutPoint_String o' = fst o' @ '':'' @ show_nat (snd o')"

definition WitnessStack_IsEmpty :: "bytes list \<Rightarrow> bool" where
  "WitnessStack_IsEmpty w \<longleftrightarrow> length w = 0"

lemma OutPoint_String_inject:
  assumes "CHR '':'' \<notin> set (fst p)" "CHR '':'' \<notin> set (fst q)"
  shows "OutPoint_String p = OutPoint_String q \<longleftrightarrow> p = q"
proof
  assume eq: "OutPoint_String p = OutPoint_String q"
  have "takeWhile (\<lambda>c. c \<noteq> CHR '':'') (OutPoint_String p) = fst p"
    "takeWhile (\<lambda>c. c \<noteq> CHR '':'') (OutPoint_String q) = fst q"
    using assms by (auto simp: OutPoint_String_def takeWhile_append2 takeWhile_tail)
  with eq have "fst p = fst q" by simp
  with eq have "show_nat (snd p) = show_nat (snd q)" by (simp add: OutPoint_String_def)
  then have "read_nat (show_nat (snd p)) = read_nat (show_nat (snd q))" by (rule arg_cong)
  then have "snd p = snd q" by simp
  with \<open>fst p = fst q\<close> show "p = q" by (simp add: prod_eq_iff)
qed simp

section \<open>ExpectedGenesisHash\<close>

datatype genesis_error = ErrUnknownNetwork | ErrGenesisUnsupportedForNetwork

definition mainGenesisHash :: string where
  "mainGenesisHash = ''78cf9e38dad7e61400f3a3e4e987efa7c90c09f69d9be7ce95e504bfa447aadc''"
definition testGenesisHash :: string where
  "testGenesisHash = ''8e7f8c6096865a08773b52fd776a0e283d9037ff2b50b20a04f6a0feb01c68d9''"
definition regtestGenesisHash :: string where
  "regtestGenesisHash = ''7a69b7bb0c8f5ced03c9e64b770c30b52582d072cbe506339b8d5331b014d727''"

definition ExpectedGenesisHash :: "string \<Rightarrow> genesis_error + string" where
  "ExpectedGenesisHash network =
    (if network = ''main'' then Inr mainGenesisHash
     else if network = ''test'' then Inr testGenesisHash
     else if network = ''regtest'' then Inr regtestGenesisHash
     else if network = ''signet'' then Inl ErrGenesisUnsupportedForNetwork
     else Inl ErrUnknownNetwork)"

lemma genesis_hashes_wellformed:
  "is_hash64 mainGenesisHash" "is_hash64 testGenesisHash" "is_hash64 regtestGenesisHash"
  by (simp_all add: is_hash64_def mainGenesisHash_def testGenesisHash_def regtestGenesisHash_def
      is_lower_hex_def)

lemma ExpectedGenesisHash_hash64: "ExpectedGenesisHash n = Inr h \<Longrightarrow> is_hash64 h"
  by (auto simp: ExpectedGenesisHash_def genesis_hashes_wellformed split: if_splits)

text \<open>No two networks share a genesis hash, so the hash identifies the network.\<close>

lemma ExpectedGenesisHash_inject:
  "ExpectedGenesisHash n = Inr h \<Longrightarrow> ExpectedGenesisHash m = Inr h \<Longrightarrow> n = m"
  by (auto simp: ExpectedGenesisHash_def mainGenesisHash_def testGenesisHash_def
      regtestGenesisHash_def split: if_splits)

end
