(* ===== verification/Script.thy ===== *)
theory Script
  imports Chain
begin

text \<open>
  \<^verbatim>\<open>internal/script\<close>: the structural classification of raw output scripts. Indices into a
  script are natural numbers; every read stands behind the bounds check the code makes before it.
  Go's \<^verbatim>\<open>int\<close> has 64 bits, so a four-byte length never makes a sum overflow.
\<close>

unbundle bit_operations_syntax

section \<open>types.go\<close>

datatype script_type =
    TypeP2PK | TypeP2PKH | TypeP2SH | TypeP2WPKH | TypeP2WSH | TypeP2TR | TypeP2QPK
  | TypeNullData | TypeMultisig | TypeUnknownWitness | TypeUnknown

record classified =
  Type :: script_type
  WitnessVersion :: "nat option"
  WitnessProgram :: "bytes option"
  PubKeys :: "bytes list"
  MultisigM :: nat
  MultisigN :: nat

definition plain_result :: "script_type \<Rightarrow> classified" where
  "plain_result t = \<lparr>Type = t, WitnessVersion = None, WitnessProgram = None, PubKeys = [],
     MultisigM = 0, MultisigN = 0\<rparr>"

abbreviation (input) "p2wshProgramLength \<equiv> (32::nat)"
abbreviation (input) "p2trWitnessVersion \<equiv> (1::nat)"
abbreviation (input) "p2trProgramLength \<equiv> (32::nat)"
abbreviation (input) "P2QPKWitnessVersion \<equiv> (2::nat)"
abbreviation (input) "P2QPKProgramLength \<equiv> (32::nat)"

section \<open>witness\_program.go\<close>

abbreviation (input) "opFalse \<equiv> (0x00 :: 8 word)"
abbreviation (input) "op1 \<equiv> (0x51 :: 8 word)"
abbreviation (input) "op16 \<equiv> (0x60 :: 8 word)"
abbreviation (input) "minWitnessProgramLen \<equiv> (2::nat)"
abbreviation (input) "maxWitnessProgramLen \<equiv> (40::nat)"

record witness_program =
  Version :: nat
  Program :: bytes

definition witness_version_of :: "8 word \<Rightarrow> nat option" where
  "witness_version_of verByte =
    (if verByte = opFalse then Some 0
     else if op1 \<le> verByte \<and> verByte \<le> op16 then Some (unat (verByte - op1) + 1)
     else None)"

definition ParseWitnessProgram :: "bytes \<Rightarrow> witness_program option" where
  "ParseWitnessProgram pkScript =
    (if length pkScript < 2 + minWitnessProgramLen then None
     else if 2 + maxWitnessProgramLen < length pkScript then None
     else case witness_version_of (pkScript ! 0) of
       None \<Rightarrow> None
     | Some version \<Rightarrow>
         (let pushLen = unat (pkScript ! 1)
          in if pushLen < minWitnessProgramLen \<or> maxWitnessProgramLen < pushLen then None
             else if length pkScript \<noteq> 2 + pushLen then None
             else Some \<lparr>Version = version, Program = take pushLen (drop 2 pkScript)\<rparr>))"

section \<open>unspendable.go\<close>

abbreviation (input) "opReturn \<equiv> (0x6a :: 8 word)"
abbreviation (input) "MaxScriptSize \<equiv> (10000::nat)"

definition IsUnspendable :: "bytes \<Rightarrow> bool" where
  "IsUnspendable pkScript =
    (if 0 < length pkScript \<and> pkScript ! 0 = opReturn then True
     else MaxScriptSize < length pkScript)"

section \<open>legacy.go\<close>

abbreviation (input) "opDup \<equiv> (0x76 :: 8 word)"
abbreviation (input) "opEqual \<equiv> (0x87 :: 8 word)"
abbreviation (input) "opEqualVerify \<equiv> (0x88 :: 8 word)"
abbreviation (input) "opHash160 \<equiv> (0xa9 :: 8 word)"
abbreviation (input) "opCheckSig \<equiv> (0xac :: 8 word)"
abbreviation (input) "opCheckMultisig \<equiv> (0xae :: 8 word)"
abbreviation (input) "opPushData1 \<equiv> (0x4c :: 8 word)"
abbreviation (input) "opPushData2 \<equiv> (0x4d :: 8 word)"
abbreviation (input) "opPushData4 \<equiv> (0x4e :: 8 word)"
abbreviation (input) "op1Negate \<equiv> (0x4f :: 8 word)"
abbreviation (input) "hash160Len \<equiv> (20::nat)"
abbreviation (input) "compressedPKLen \<equiv> (33::nat)"
abbreviation (input) "uncompressedPKLen \<equiv> (65::nat)"
abbreviation (input) "maxPubKeysPerMultisig \<equiv> (20::nat)"

definition matchP2PKH :: "bytes \<Rightarrow> bytes option" where
  "matchP2PKH s =
    (if length s \<noteq> 25 then None
     else if s ! 0 \<noteq> opDup \<or> s ! 1 \<noteq> opHash160 \<or> s ! 2 \<noteq> of_nat hash160Len
       \<or> s ! 23 \<noteq> opEqualVerify \<or> s ! 24 \<noteq> opCheckSig then None
     else Some (go_slice 3 23 s))"

definition matchP2SH :: "bytes \<Rightarrow> bytes option" where
  "matchP2SH s =
    (if length s \<noteq> 23 then None
     else if s ! 0 \<noteq> opHash160 \<or> s ! 1 \<noteq> of_nat hash160Len \<or> s ! 22 \<noteq> opEqual then None
     else Some (go_slice 2 22 s))"

definition isPubKeyPush :: "bytes \<Rightarrow> bool" where
  "isPubKeyPush data =
    (if length data = 0 then False
     else if data ! 0 = 0x02 \<or> data ! 0 = 0x03 then length data = compressedPKLen
     else if data ! 0 = 0x04 \<or> data ! 0 = 0x06 \<or> data ! 0 = 0x07 then length data = uncompressedPKLen
     else False)"

definition matchP2PK :: "bytes \<Rightarrow> bytes option" where
  "matchP2PK s =
    (if length s = 1 + compressedPKLen + 1 \<and> s ! 0 = of_nat compressedPKLen
        \<and> s ! (length s - 1) = opCheckSig
     then (let key = go_slice 1 (1 + compressedPKLen) s
           in if \<not> isPubKeyPush key then None else Some key)
     else if length s = 1 + uncompressedPKLen + 1 \<and> s ! 0 = of_nat uncompressedPKLen
        \<and> s ! (length s - 1) = opCheckSig
     then (let key = go_slice 1 (1 + uncompressedPKLen) s
           in if \<not> isPubKeyPush key then None else Some key)
     else None)"

text \<open>The little-endian lengths of the three \<^verbatim>\<open>OP_PUSHDATA\<close> forms.\<close>

definition le16 :: "8 word \<Rightarrow> 8 word \<Rightarrow> nat" where
  "le16 a b = unat a OR push_bit 8 (unat b)"

definition le32 :: "8 word \<Rightarrow> 8 word \<Rightarrow> 8 word \<Rightarrow> 8 word \<Rightarrow> nat" where
  "le32 a b c d = unat a OR push_bit 8 (unat b) OR push_bit 16 (unat c) OR push_bit 24 (unat d)"

record script_token =
  opcode :: "8 word"
  tdata :: bytes

definition nextToken :: "bytes \<Rightarrow> nat \<Rightarrow> (script_token \<times> nat) option" where
  "nextToken s i =
    (if length s \<le> i then None
     else let op = s ! i in
     if op = opFalse then Some (\<lparr>opcode = op, tdata = []\<rparr>, i + 1)
     else if 0x01 \<le> op \<and> op \<le> 0x4b then
       (let n = unat op
        in if length s < i + 1 + n then None
           else Some (\<lparr>opcode = op, tdata = go_slice (i + 1) (i + 1 + n) s\<rparr>, i + 1 + n))
     else if op = opPushData1 then
       (if length s < i + 2 then None
        else let n = unat (s ! (i + 1))
        in if length s < i + 2 + n then None
           else Some (\<lparr>opcode = op, tdata = go_slice (i + 2) (i + 2 + n) s\<rparr>, i + 2 + n))
     else if op = opPushData2 then
       (if length s < i + 3 then None
        else let n = le16 (s ! (i + 1)) (s ! (i + 2))
        in if length s < i + 3 + n then None
           else Some (\<lparr>opcode = op, tdata = go_slice (i + 3) (i + 3 + n) s\<rparr>, i + 3 + n))
     else if op = opPushData4 then
       (if length s < i + 5 then None
        else let n = le32 (s ! (i + 1)) (s ! (i + 2)) (s ! (i + 3)) (s ! (i + 4))
        in if length s < i + 5 + n then None
           else Some (\<lparr>opcode = op, tdata = go_slice (i + 5) (i + 5 + n) s\<rparr>, i + 5 + n))
     else Some (\<lparr>opcode = op, tdata = []\<rparr>, i + 1))"

lemma nextToken_progress: "nextToken s i = Some (t, j) \<Longrightarrow> i < j \<and> j \<le> length s"
  by (auto simp: nextToken_def Let_def split: if_splits)

definition multisigScriptNumber :: "script_token \<Rightarrow> nat \<Rightarrow> nat \<Rightarrow> nat option" where
  "multisigScriptNumber tok lo hi =
    (if op1 \<le> opcode tok \<and> opcode tok \<le> op16 then
       (let v = unat (opcode tok - op1) + 1 in if v < lo \<or> hi < v then None else Some v)
     else if opcode tok = 0x01 \<and> length (tdata tok) = 1 then
       (let v = unat (tdata tok ! 0)
        in if v < 17 \<or> maxPubKeysPerMultisig < v then None
           else if v < lo \<or> hi < v then None
           else Some v)
     else None)"

text \<open>The \<^verbatim>\<open>for\<close> loop of \<^verbatim>\<open>matchMultisig\<close>: it collects key pushes up to the first
  token that is none, which is kept as \<^verbatim>\<open>nTok\<close>.\<close>

function multisigKeys :: "bytes \<Rightarrow> nat \<Rightarrow> bytes list \<Rightarrow> (bytes list \<times> script_token \<times> nat) option" where
  "multisigKeys s i keys =
    (case nextToken s i of
       None \<Rightarrow> None
     | Some (tok, next) \<Rightarrow>
         if \<not> isPubKeyPush (tdata tok) then Some (keys, tok, next)
         else multisigKeys s next (keys @ [tdata tok]))"
  by pat_completeness auto
termination
  by (relation "measure (\<lambda>(s, i, keys). length s - i)") (auto dest!: nextToken_progress)

declare multisigKeys.simps [simp del]

definition matchMultisig :: "bytes \<Rightarrow> (bytes list \<times> nat \<times> nat) option" where
  "matchMultisig s =
    (if length s < 3 \<or> s ! (length s - 1) \<noteq> opCheckMultisig then None
     else case nextToken s 0 of
       None \<Rightarrow> None
     | Some (mTok, i) \<Rightarrow>
       (case multisigScriptNumber mTok 1 maxPubKeysPerMultisig of
          None \<Rightarrow> None
        | Some m \<Rightarrow>
          (case multisigKeys s i [] of
             None \<Rightarrow> None
           | Some (keys, nTok, i') \<Rightarrow>
             (case multisigScriptNumber nTok m maxPubKeysPerMultisig of
                None \<Rightarrow> None
              | Some n \<Rightarrow>
                  if length keys \<noteq> n then None
                  else if i' \<noteq> length s - 1 then None
                  else Some (keys, m, n)))))"

text \<open>The loop of \<^verbatim>\<open>isPushOnly\<close>, from index \<open>i\<close>.\<close>

function isPushOnly_from :: "bytes \<Rightarrow> nat \<Rightarrow> bool" where
  "isPushOnly_from s i =
    (if length s \<le> i then True
     else let op = s ! i in
     if op = opFalse then isPushOnly_from s (i + 1)
     else if 0x01 \<le> op \<and> op \<le> 0x4b then
       (if length s < i + 1 + unat op then False else isPushOnly_from s (i + (1 + unat op)))
     else if op = opPushData1 then
       (if length s < i + 2 then False
        else let n = unat (s ! (i + 1))
        in if length s < i + 2 + n then False else isPushOnly_from s (i + (2 + n)))
     else if op = opPushData2 then
       (if length s < i + 3 then False
        else let n = le16 (s ! (i + 1)) (s ! (i + 2))
        in if length s < i + 3 + n then False else isPushOnly_from s (i + (3 + n)))
     else if op = opPushData4 then
       (if length s < i + 5 then False
        else let n = le32 (s ! (i + 1)) (s ! (i + 2)) (s ! (i + 3)) (s ! (i + 4))
        in if length s < i + 5 + n then False else isPushOnly_from s (i + (5 + n)))
     else if op = op1Negate then isPushOnly_from s (i + 1)
     else if op1 \<le> op \<and> op \<le> op16 then isPushOnly_from s (i + 1)
     else False)"
  by pat_completeness auto
termination
  by (relation "measure (\<lambda>(s, i). length s - i)") auto

declare isPushOnly_from.simps [simp del]

definition isPushOnly :: "bytes \<Rightarrow> bool" where "isPushOnly s = isPushOnly_from s 0"

definition matchNullData :: "bytes \<Rightarrow> bool" where
  "matchNullData s =
    (if length s = 0 \<or> s ! 0 \<noteq> opReturn then False else isPushOnly (drop 1 s))"

section \<open>classify.go\<close>

definition classify_witness :: "witness_program \<Rightarrow> script_type" where
  "classify_witness wp =
    (if Version wp = 0 \<and> length (Program wp) = hash160Len then TypeP2WPKH
     else if Version wp = 0 \<and> length (Program wp) = p2wshProgramLength then TypeP2WSH
     else if Version wp = p2trWitnessVersion \<and> length (Program wp) = p2trProgramLength then TypeP2TR
     else if Version wp = P2QPKWitnessVersion \<and> length (Program wp) = P2QPKProgramLength then TypeP2QPK
     else if Version wp = 0 then TypeUnknown
     else TypeUnknownWitness)"

definition Classify :: "bytes \<Rightarrow> classified" where
  "Classify pkScript =
    (case ParseWitnessProgram pkScript of
       Some wp \<Rightarrow> (plain_result (classify_witness wp))
                   \<lparr>WitnessVersion := Some (Version wp), WitnessProgram := Some (Program wp)\<rparr>
     | None \<Rightarrow>
       (if matchP2PKH pkScript \<noteq> None then plain_result TypeP2PKH
        else if matchP2SH pkScript \<noteq> None then plain_result TypeP2SH
        else case matchP2PK pkScript of
          Some pubKey \<Rightarrow> (plain_result TypeP2PK)\<lparr>PubKeys := [pubKey]\<rparr>
        | None \<Rightarrow>
          (if matchNullData pkScript then plain_result TypeNullData
           else case matchMultisig pkScript of
             Some (keys, m, n) \<Rightarrow>
               (plain_result TypeMultisig)\<lparr>PubKeys := keys, MultisigM := m, MultisigN := n\<rparr>
           | None \<Rightarrow> plain_result TypeUnknown)))"

section \<open>Witness programs: the parser inverts the encoding\<close>

text \<open>The script of a witness program: its version opcode, the push length and the program.\<close>

definition witness_version_byte :: "nat \<Rightarrow> 8 word" where
  "witness_version_byte v = (if v = 0 then opFalse else op1 + of_nat (v - 1))"

definition witness_script :: "witness_program \<Rightarrow> bytes" where
  "witness_script wp = witness_version_byte (Version wp) # of_nat (length (Program wp)) # Program wp"

lemma witness_version_of_byte:
  assumes "v \<le> 16" shows "witness_version_of (witness_version_byte v) = Some v"
proof -
  have "\<forall>v \<in> {..16}. witness_version_of (witness_version_byte v) = Some v"
    by (simp add: atMost_nat_numeral atMost_Suc witness_version_of_def witness_version_byte_def
        word_le_nat_alt)
  with assms show ?thesis by simp
qed

lemma witness_version_of_SomeD:
  assumes "witness_version_of b = Some v"
  shows "v \<le> 16 \<and> b = witness_version_byte v"
proof (cases "b = opFalse")
  case True
  with assms show ?thesis by (simp add: witness_version_of_def witness_version_byte_def)
next
  case False
  with assms have r: "op1 \<le> b" "b \<le> op16" and v: "v = unat (b - op1) + 1"
    by (auto simp: witness_version_of_def split: if_splits)
  then have "unat b \<le> 96" "81 \<le> unat b" by (simp_all add: word_le_nat_alt)
  moreover have "unat (b - op1) = unat b - 81" using r by (simp add: unat_sub)
  moreover have "op1 + of_nat (unat (b - op1)) = b" by simp
  ultimately show ?thesis using v by (simp add: witness_version_byte_def)
qed

lemma unat_of_nat_small [simp]: "n < 256 \<Longrightarrow> unat (of_nat n :: 8 word) = n"
  by (simp add: unat_of_nat take_bit_eq_mod)

lemma ParseWitnessProgram_script:
  assumes "Version wp \<le> 16" "2 \<le> length (Program wp)" "length (Program wp) \<le> 40"
  shows "ParseWitnessProgram (witness_script wp) = Some wp"
  using assms by (simp add: ParseWitnessProgram_def witness_script_def witness_version_of_byte)

lemma ParseWitnessProgram_SomeD:
  assumes "ParseWitnessProgram s = Some wp"
  shows "Version wp \<le> 16" "2 \<le> length (Program wp)" "length (Program wp) \<le> 40"
    "s = witness_script wp"
proof -
  from assms obtain a b p where s: "s = a # b # p"
    by (cases s rule: remdups_adj.cases) (auto simp: ParseWitnessProgram_def)
  with assms have v: "witness_version_of a = Some (Version wp)" and p: "Program wp = p"
    and l: "length p = unat b" "2 \<le> unat b" "unat b \<le> 40"
    by (auto simp: ParseWitnessProgram_def Let_def split: option.splits if_splits)
  show "Version wp \<le> 16" using witness_version_of_SomeD [OF v] by simp
  show "2 \<le> length (Program wp)" "length (Program wp) \<le> 40" using p l by simp_all
  show "s = witness_script wp"
    using witness_version_of_SomeD [OF v] p l s by (simp add: witness_script_def)
qed

lemma ParseWitnessProgram_iff:
  "ParseWitnessProgram s = Some wp \<longleftrightarrow>
    Version wp \<le> 16 \<and> 2 \<le> length (Program wp) \<and> length (Program wp) \<le> 40 \<and> s = witness_script wp"
  using ParseWitnessProgram_SomeD [of s wp] ParseWitnessProgram_script [of wp] by blast

text \<open>No legacy template is a witness program: its first byte is no version opcode.\<close>

lemma ParseWitnessProgram_head:
  "s \<noteq> [] \<Longrightarrow> witness_version_of (hd s) = None \<Longrightarrow> ParseWitnessProgram s = None"
  by (cases s) (auto simp: ParseWitnessProgram_def)

section \<open>Legacy templates: exactly the scripts of each form\<close>

definition p2pkh_script :: "bytes \<Rightarrow> bytes" where
  "p2pkh_script h = [opDup, opHash160, 0x14] @ h @ [opEqualVerify, opCheckSig]"
definition p2sh_script :: "bytes \<Rightarrow> bytes" where
  "p2sh_script h = [opHash160, 0x14] @ h @ [opEqual]"
definition push_key :: "bytes \<Rightarrow> bytes" where
  "push_key k = of_nat (length k) # k"
definition p2pk_script :: "bytes \<Rightarrow> bytes" where
  "p2pk_script k = push_key k @ [opCheckSig]"

lemma split_frame:
  assumes "length s = a + n + b"
  shows "s = take a s @ go_slice a (a + n) s @ drop (a + n) s"
    "length (go_slice a (a + n) s) = n"
proof -
  have "drop a s = take n (drop a s) @ drop n (drop a s)" by (rule append_take_drop_id [symmetric])
  then have "s = take a s @ take n (drop a s) @ drop (a + n) s"
    by (metis append_take_drop_id drop_drop add.commute)
  then show "s = take a s @ go_slice a (a + n) s @ drop (a + n) s" by (simp add: go_slice_def)
  show "length (go_slice a (a + n) s) = n" using assms by simp
qed

lemma take_2: "2 \<le> length s \<Longrightarrow> take 2 s = [s ! 0, s ! 1]"
  and take_3: "3 \<le> length s \<Longrightarrow> take 3 s = [s ! 0, s ! 1, s ! 2]"
  by (auto simp: numeral_eq_Suc Suc_le_length_iff)
lemma drop_1: "Suc n = length s \<Longrightarrow> drop n s = [s ! n]"
  and drop_2: "Suc (Suc n) = length s \<Longrightarrow> drop n s = [s ! n, s ! Suc n]"
  by (simp_all add: Cons_nth_drop_Suc [symmetric])

lemma matchP2PKH_iff: "matchP2PKH s = Some h \<longleftrightarrow> length h = 20 \<and> s = p2pkh_script h"
proof
  assume m: "matchP2PKH s = Some h"
  then have l: "length s = 25" and h: "h = go_slice 3 23 s" by (auto simp: matchP2PKH_def split: if_splits)
  have "take 3 s = [s ! 0, s ! 1, s ! 2]" "drop 23 s = [s ! 23, s ! 24]"
    using take_3 [of s] drop_2 [of 23 s] l by simp_all
  with m l split_frame [of s 3 20 2] show "length h = 20 \<and> s = p2pkh_script h"
    by (auto simp: matchP2PKH_def p2pkh_script_def split: if_splits)
next
  assume "length h = 20 \<and> s = p2pkh_script h"
  then show "matchP2PKH s = Some h"
    by (simp add: matchP2PKH_def p2pkh_script_def go_slice_def nth_append)
qed

lemma matchP2SH_iff: "matchP2SH s = Some h \<longleftrightarrow> length h = 20 \<and> s = p2sh_script h"
proof
  assume m: "matchP2SH s = Some h"
  then have l: "length s = 23" and h: "h = go_slice 2 22 s" by (auto simp: matchP2SH_def split: if_splits)
  have "take 2 s = [s ! 0, s ! 1]" "drop 22 s = [s ! 22]"
    using take_2 [of s] drop_1 [of 22 s] l by simp_all
  with m l split_frame [of s 2 20 1] show "length h = 20 \<and> s = p2sh_script h"
    by (auto simp: matchP2SH_def p2sh_script_def split: if_splits)
next
  assume "length h = 20 \<and> s = p2sh_script h"
  then show "matchP2SH s = Some h"
    by (simp add: matchP2SH_def p2sh_script_def go_slice_def nth_append)
qed

lemma isPubKeyPush_length: "isPubKeyPush k \<Longrightarrow> length k = 33 \<or> length k = 65"
  by (auto simp: isPubKeyPush_def split: if_splits)

lemma matchP2PK_iff: "matchP2PK s = Some k \<longleftrightarrow> isPubKeyPush k \<and> s = p2pk_script k"
proof
  assume m: "matchP2PK s = Some k"
  then have l: "length s = 35 \<and> k = go_slice 1 34 s \<and> s ! 0 = 0x21
      \<or> length s = 67 \<and> k = go_slice 1 66 s \<and> s ! 0 = 0x41"
    and last: "s ! (length s - 1) = opCheckSig" and k: "isPubKeyPush k"
    by (auto simp: matchP2PK_def Let_def split: if_splits)
  have t: "take 1 s = [s ! 0]" using l by (cases s) auto
  from l have "s = p2pk_script k"
  proof
    assume a: "length s = 35 \<and> k = go_slice 1 34 s \<and> s ! 0 = 0x21"
    with last drop_1 [of 34 s] have "drop 34 s = [opCheckSig]" by simp
    with a t split_frame [of s 1 33 1] show ?thesis by (simp add: p2pk_script_def push_key_def)
  next
    assume a: "length s = 67 \<and> k = go_slice 1 66 s \<and> s ! 0 = 0x41"
    with last drop_1 [of 66 s] have "drop 66 s = [opCheckSig]" by simp
    with a t split_frame [of s 1 65 1] show ?thesis by (simp add: p2pk_script_def push_key_def)
  qed
  with k show "isPubKeyPush k \<and> s = p2pk_script k" by simp
next
  assume a: "isPubKeyPush k \<and> s = p2pk_script k"
  then show "matchP2PK s = Some k"
    using isPubKeyPush_length [of k]
    by (auto simp: matchP2PK_def p2pk_script_def push_key_def go_slice_def nth_append)
qed

section \<open>Push-only payloads\<close>

text \<open>
  The reference: split the payload into tokens with the same decoder that the multisig matcher
  uses, and ask that every opcode pushes. \<open>0x50\<close> is \<open>OP_RESERVED\<close>, which
  pushes nothing.
\<close>

function script_tokens :: "bytes \<Rightarrow> nat \<Rightarrow> script_token list option" where
  "script_tokens s i =
    (if length s \<le> i then Some []
     else case nextToken s i of
       None \<Rightarrow> None
     | Some (t, j) \<Rightarrow> map_option ((#) t) (script_tokens s j))"
  by pat_completeness auto
termination
  by (relation "measure (\<lambda>(s, i). length s - i)") (auto dest!: nextToken_progress)

declare script_tokens.simps [simp del]

definition is_push_token :: "script_token \<Rightarrow> bool" where
  "is_push_token t \<longleftrightarrow> opcode t \<le> op16 \<and> opcode t \<noteq> 0x50"

lemma isPushOnly_from_step:
  "isPushOnly_from s i \<longleftrightarrow>
    length s \<le> i \<or>
    (\<exists>t j. nextToken s i = Some (t, j) \<and> is_push_token t \<and> isPushOnly_from s j)"
  by (subst isPushOnly_from.simps)
    (auto simp: nextToken_def Let_def is_push_token_def add.assoc word_le_nat_alt word_unat_eq_iff
      not_le)

lemma isPushOnly_from_tokens:
  "isPushOnly_from s i \<longleftrightarrow> (\<exists>ts. script_tokens s i = Some ts \<and> list_all is_push_token ts)"
proof (induction s i rule: script_tokens.induct)
  case (1 s i)
  show ?case
  proof (cases "nextToken s i")
    case None
    then show ?thesis
      by (simp add: isPushOnly_from_step [of s i] script_tokens.simps [of s i])
  next
    case (Some p)
    then show ?thesis using "1.IH"
      by (cases p) (auto simp: isPushOnly_from_step [of s i] script_tokens.simps [of s i]
          nextToken_progress)
  qed
qed

lemma isPushOnly_tokens:
  "isPushOnly s \<longleftrightarrow> (\<exists>ts. script_tokens s 0 = Some ts \<and> list_all is_push_token ts)"
  by (simp add: isPushOnly_def isPushOnly_from_tokens)

section \<open>Bare multisig: soundness and the canonical script\<close>

definition push_number :: "nat \<Rightarrow> bytes" where
  "push_number v = (if v \<le> 16 then [op1 + of_nat (v - 1)] else [0x01, of_nat v])"

definition multisig_script :: "nat \<Rightarrow> bytes list \<Rightarrow> bytes" where
  "multisig_script m keys =
    push_number m @ concat (map push_key keys) @ push_number (length keys) @ [opCheckMultisig]"

definition number_token :: "nat \<Rightarrow> script_token" where
  "number_token v =
    (if v \<le> 16 then \<lparr>opcode = op1 + of_nat (v - 1), tdata = []\<rparr>
     else \<lparr>opcode = 0x01, tdata = [of_nat v]\<rparr>)"

lemma multisigScriptNumber_SomeD:
  "multisigScriptNumber t lo hi = Some v \<Longrightarrow> lo \<le> v \<and> v \<le> hi \<and> 1 \<le> v"
  by (auto simp: multisigScriptNumber_def Let_def split: if_splits)

lemma small_op_bounds:
  assumes "1 \<le> v" "v \<le> 16"
  shows "op1 \<le> op1 + (of_nat (v - 1) :: 8 word)" "op1 + (of_nat (v - 1) :: 8 word) \<le> op16"
    "unat (op1 + (of_nat (v - 1) :: 8 word)) = 80 + v"
proof -
  obtain d where v: "v = Suc d" using assms(1) by (cases v) auto
  have "op1 + (of_nat (v - 1) :: 8 word) = of_nat (80 + v)" by (simp add: v)
  then show u: "unat (op1 + (of_nat (v - 1) :: 8 word)) = 80 + v"
    using assms(2) unat_of_nat_small [of "80 + v"] by (simp del: of_nat_add)
  show "op1 \<le> op1 + (of_nat (v - 1) :: 8 word)" "op1 + (of_nat (v - 1) :: 8 word) \<le> op16"
    unfolding word_le_nat_alt u using assms by simp_all
qed

lemma multisigScriptNumber_number_token:
  assumes "1 \<le> v" "lo \<le> v" "v \<le> hi" "v \<le> 20"
  shows "multisigScriptNumber (number_token v) lo hi = Some v"
proof (cases "v \<le> 16")
  case True
  obtain b :: "8 word" where b: "b = op1 + of_nat (v - 1)" by simp
  with small_op_bounds [OF assms(1) True] True
  have u: "unat b = 80 + v" and t: "number_token v = \<lparr>opcode = b, tdata = []\<rparr>"
    and r: "op1 \<le> b" "b \<le> op16"
    by (simp_all add: number_token_def)
  from u r(1) have "unat (b - op1) = v - 1" by (simp add: unat_sub)
  with assms t r show ?thesis by (simp add: multisigScriptNumber_def)
next
  case False
  with assms show ?thesis
    by (simp add: multisigScriptNumber_def number_token_def word_le_nat_alt)
qed

lemma nextToken_push_number:
  assumes "1 \<le> v" "v \<le> 20"
  shows "nextToken (pre @ push_number v @ post) (length pre)
    = Some (number_token v, length pre + length (push_number v))"
proof (cases "v \<le> 16")
  case True
  obtain b :: "8 word" where b: "b = op1 + of_nat (v - 1)" by simp
  with small_op_bounds [OF assms(1) True] True
  have "unat b = 80 + v" "push_number v = [b]" "number_token v = \<lparr>opcode = b, tdata = []\<rparr>"
    by (simp_all add: push_number_def number_token_def)
  moreover have "b \<noteq> 0" "\<not> (1 \<le> b \<and> b \<le> 0x4b)" "b \<noteq> opPushData1" "b \<noteq> opPushData2" "b \<noteq> opPushData4"
    using assms \<open>unat b = 80 + v\<close> by (auto simp: word_le_nat_alt)
  ultimately show ?thesis by (simp add: nextToken_def nth_append Let_def)
next
  case False
  then show ?thesis
    by (simp add: nextToken_def push_number_def number_token_def nth_append Let_def go_slice_def)
qed

lemma nextToken_push_key:
  assumes "isPubKeyPush k"
  shows "nextToken (pre @ push_key k @ post) (length pre)
    = Some (\<lparr>opcode = of_nat (length k), tdata = k\<rparr>, length pre + length (push_key k))"
proof -
  obtain b :: "8 word" where b: "b = of_nat (length k)" by simp
  have u: "unat b = length k" using isPubKeyPush_length [OF assms] by (auto simp: b)
  then have "b \<noteq> 0" "1 \<le> b \<and> b \<le> 0x4b"
    using isPubKeyPush_length [OF assms] by (auto simp: word_le_nat_alt)
  then show ?thesis
    by (simp add: nextToken_def push_key_def nth_append Let_def go_slice_def u b [symmetric])
qed

lemma number_token_no_key [simp]: "\<not> isPubKeyPush (tdata (number_token v))"
  by (auto simp: number_token_def isPubKeyPush_def)

lemma multisigKeys_sound:
  "multisigKeys s i acc = Some (keys, t, j) \<Longrightarrow> list_all isPubKeyPush acc \<Longrightarrow>
    list_all isPubKeyPush keys \<and> \<not> isPubKeyPush (tdata t)"
proof (induction s i acc rule: multisigKeys.induct)
  case (1 s i acc)
  from "1.prems"(1) obtain tok nx where n: "nextToken s i = Some (tok, nx)"
    by (cases "nextToken s i") (auto simp: multisigKeys.simps [of s i acc])
  show ?case
  proof (cases "isPubKeyPush (tdata tok)")
    case True
    with n "1.prems" show ?thesis
      by (intro "1.IH" [OF n refl]) (auto simp: multisigKeys.simps [of s i acc])
  next
    case False
    with n "1.prems" show ?thesis by (auto simp: multisigKeys.simps [of s i acc])
  qed
qed

lemma matchMultisig_sound:
  assumes "matchMultisig s = Some (keys, m, n)"
  shows "1 \<le> m \<and> m \<le> n \<and> n \<le> 20 \<and> length keys = n \<and> list_all isPubKeyPush keys"
proof -
  from assms obtain mt i nt j where
    "multisigScriptNumber mt 1 20 = Some m" "multisigKeys s i [] = Some (keys, nt, j)"
    "multisigScriptNumber nt m 20 = Some n" "length keys = n"
    by (auto simp: matchMultisig_def split: option.splits if_splits)
  then show ?thesis
    using multisigKeys_sound [of s i "[]"] by (auto dest!: multisigScriptNumber_SomeD)
qed

text \<open>A push of a key: its length stands in one of the four forms a push opcode has.\<close>

definition key_pushes :: "bytes \<Rightarrow> bytes list" where
  "key_pushes k =
    [push_key k, [opPushData1, of_nat (length k)] @ k, [opPushData2, of_nat (length k), 0] @ k,
     [opPushData4, of_nat (length k), 0, 0, 0] @ k]"

definition multisig_form :: "nat \<Rightarrow> bytes list \<Rightarrow> bytes \<Rightarrow> bool" where
  "multisig_form m keys s \<longleftrightarrow>
    1 \<le> m \<and> m \<le> length keys \<and> length keys \<le> 20 \<and> list_all isPubKeyPush keys
    \<and> (\<exists>ps. list_all2 (\<lambda>p k. p \<in> set (key_pushes k)) ps keys
        \<and> s = push_number m @ concat ps @ push_number (length keys) @ [opCheckMultisig])"

lemma or_push_bit: "a < 2 ^ n \<Longrightarrow> a OR push_bit n b = a + 2 ^ n * b" for a b :: nat
proof -
  assume a: "a < 2 ^ n"
  have "int (a OR push_bit n b) = concat_bit n (int a) (int b)"
    using a by (simp add: concat_bit_def of_nat_or_eq of_nat_push_bit take_bit_int_eq_self)
  also have "\<dots> = int (a + 2 ^ n * b)"
    using a by (simp add: concat_bit_eq push_bit_eq_mult take_bit_int_eq_self)
  finally show ?thesis by presburger
qed

lemma unat_byte: "unat x < 256" for x :: "8 word"
  by (rule order_less_le_trans [OF unsigned_less]) simp

lemma le16_add: "le16 a b = unat a + 256 * unat b"
  using or_push_bit [of "unat a" 8 "unat b"] unat_byte [of a] by (simp add: le16_def)

lemma le32_add: "le32 a b c d = unat a + 256 * unat b + 65536 * unat c + 16777216 * unat d"
proof -
  note l = unat_byte
  have "unat a OR push_bit 8 (unat b) = unat a + 256 * unat b"
    using or_push_bit [of "unat a" 8 "unat b"] l [of a] by simp
  then have "le32 a b c d = ((unat a + 256 * unat b) + 65536 * unat c) OR push_bit 24 (unat d)"
    using or_push_bit [of "unat a + 256 * unat b" 16 "unat c"] l [of a] l [of b] by (simp add: le32_def or.assoc [symmetric])
  then show ?thesis
    using or_push_bit [of "unat a + 256 * unat b + 65536 * unat c" 24 "unat d"] l [of a] l [of b] l [of c] by simp
qed

lemma nextToken_key_push:
  assumes "isPubKeyPush k" "p \<in> set (key_pushes k)"
  shows "\<exists>op. nextToken (pre @ p @ post) (length pre) = Some (\<lparr>opcode = op, tdata = k\<rparr>, length pre + length p)"
proof -
  have l: "unat (of_nat (length k) :: 8 word) = length k" using isPubKeyPush_length [OF assms(1)] by auto
  have z: "unat (0 :: 8 word) = 0" by simp
  from assms(2) consider "p = push_key k" | "p = [opPushData1, of_nat (length k)] @ k"
    | "p = [opPushData2, of_nat (length k), 0] @ k" | "p = [opPushData4, of_nat (length k), 0, 0, 0] @ k"
    by (auto simp: key_pushes_def)
  then show ?thesis
  proof cases
    case 1
    then show ?thesis using nextToken_push_key [OF assms(1)] by blast
  qed (simp_all add: nextToken_def nth_append Let_def go_slice_def le16_add le32_add l)
qed

lemma multisigKeys_form:
  assumes "1 \<le> n" "n \<le> 20" "list_all2 (\<lambda>p k. p \<in> set (key_pushes k)) ps keys" "list_all isPubKeyPush keys"
  shows "multisigKeys (pre @ concat ps @ push_number n @ post) (length pre) acc
    = Some (acc @ keys, number_token n, length pre + length (concat ps) + length (push_number n))"
  using assms(3,4)
proof (induction arbitrary: pre acc rule: list_all2_induct)
  case Nil
  then show ?case
    using assms(1,2) by (subst multisigKeys.simps) (simp add: nextToken_push_number)
next
  case (Cons p ps k keys)
  let ?rest = "concat ps @ push_number n @ post"
  obtain op where "nextToken (pre @ p @ ?rest) (length pre) = Some (\<lparr>opcode = op, tdata = k\<rparr>, length (pre @ p))"
    using nextToken_key_push [of k p pre ?rest] Cons by auto
  moreover have "multisigKeys ((pre @ p) @ ?rest) (length (pre @ p)) (acc @ [k])
    = Some ((acc @ [k]) @ keys, number_token n, length (pre @ p) + length (concat ps) + length (push_number n))"
    by (rule Cons.IH) (use Cons.prems in simp)
  ultimately show ?case using Cons.prems
    by (subst multisigKeys.simps) (simp add: add.assoc)
qed

lemma matchMultisig_form:
  assumes "multisig_form m keys s"
  shows "matchMultisig s = Some (keys, m, length keys)"
proof -
  obtain ps where ps: "list_all2 (\<lambda>p k. p \<in> set (key_pushes k)) ps keys"
    and s: "s = push_number m @ concat ps @ push_number (length keys) @ [opCheckMultisig]"
    and b: "1 \<le> m" "m \<le> length keys" "length keys \<le> 20" "list_all isPubKeyPush keys"
    using assms unfolding multisig_form_def by blast
  have t: "nextToken s 0 = Some (number_token m, length (push_number m))"
    using nextToken_push_number [of m "[]" "concat ps @ push_number (length keys) @ [opCheckMultisig]"] b
    by (simp add: s)
  have k: "multisigKeys s (length (push_number m)) [] = Some (keys, number_token (length keys), length s - 1)"
    using multisigKeys_form [of "length keys" ps keys "push_number m" "[opCheckMultisig]" "[]"] ps b by (simp add: s)
  have "1 \<le> length (push_number v)" for v by (simp add: push_number_def)
  from this [of m] this [of "length keys"] have l: "3 \<le> length s" by (simp add: s del: One_nat_def)
  have "s ! (length s - 1) = opCheckMultisig" by (simp add: s nth_append)
  with t k l b show ?thesis
    by (simp add: matchMultisig_def multisigScriptNumber_number_token not_less)
qed

text \<open>What a token was read from.\<close>

lemma framed:
  assumes "i + a + n \<le> length s"
  shows "drop i s = map (\<lambda>k. s ! (i + k)) [0..<a] @ go_slice (i + a) (i + a + n) s @ drop (i + a + n) s"
    "length (go_slice (i + a) (i + a + n) s) = n"
proof -
  have "take a (drop i s) = map (\<lambda>k. s ! (i + k)) [0..<a]"
    using assms by (intro nth_equalityI) simp_all
  then have "drop i s = map (\<lambda>k. s ! (i + k)) [0..<a] @ drop (i + a) s"
    by (metis append_take_drop_id drop_drop add.commute)
  moreover have "drop (i + a) s = go_slice (i + a) (i + a + n) s @ drop (i + a + n) s"
    by (simp add: go_slice_def) (metis append_take_drop_id drop_drop add.commute)
  ultimately show "drop i s = map (\<lambda>k. s ! (i + k)) [0..<a] @ go_slice (i + a) (i + a + n) s @ drop (i + a + n) s"
    by simp
  show "length (go_slice (i + a) (i + a + n) s) = n" using assms by simp
qed

lemma nextToken_number_bytes:
  assumes "nextToken s i = Some (t, j)" "multisigScriptNumber t lo hi = Some v"
  shows "drop i s = push_number v @ drop j s"
proof -
  have i: "i < length s" using assms(1) by (simp add: nextToken_def split: if_splits)
  consider "op1 \<le> opcode t" "opcode t \<le> op16" "v = unat (opcode t - op1) + 1"
    | "opcode t = 0x01" "length (tdata t) = 1" "v = unat (tdata t ! 0)" "17 \<le> v" "v \<le> 20"
    using assms(2) by (auto simp: multisigScriptNumber_def Let_def split: if_splits)
  then show ?thesis
  proof cases
    case 1
    then have u: "unat (opcode t) = 80 + v" "1 \<le> v" "v \<le> 16"
      by (auto simp: unat_sub word_le_nat_alt)
    then have op: "opcode t = op1 + of_nat (v - 1)"
      using small_op_bounds(3) [of v] by (simp add: word_unat_eq_iff)
    have "t = \<lparr>opcode = s ! i, tdata = []\<rparr> \<and> j = i + 1"
      using assms(1) u by (auto simp: nextToken_def Let_def word_le_nat_alt split: if_splits)
    then show ?thesis using op u(3) Cons_nth_drop_Suc [OF i] by (simp add: push_number_def)
  next
    case 2
    have t: "s ! i = 1" "j = i + 1 + 1" "tdata t = go_slice (i + 1) (i + 1 + 1) s" "i + 1 + 1 \<le> length s"
      using assms(1) 2(1) by (auto simp: nextToken_def Let_def split: if_splits)
    obtain b where b: "tdata t = [b]" using 2(2) by (cases "tdata t") auto
    have "of_nat v = b" using 2(3) b by simp
    then show ?thesis using framed(1) [OF t(4)] t b 2(4) by (simp add: push_number_def)
  qed
qed

lemma nextToken_key_bytes:
  assumes "nextToken s i = Some (t, j)" "isPubKeyPush (tdata t)"
  obtains p where "p \<in> set (key_pushes (tdata t))" "drop i s = p @ drop j s"
proof -
  note len = isPubKeyPush_length [OF assms(2)]
  let ?k = "tdata t"
  have ne: "?k \<noteq> []" using len by auto
  have low: "unat a = length ?k \<and> b = 0" if "le16 a b = length ?k" for a b
  proof -
    have "256 * unat b \<le> 65" using that len unfolding le16_add by linarith
    then have "unat b = 0" by arith
    with that show ?thesis by (simp add: le16_add word_unat_eq_iff)
  qed
  have low4: "unat a = length ?k \<and> b = 0 \<and> c = 0 \<and> d = 0" if "le32 a b c d = length ?k" for a b c d
  proof -
    have "256 * unat b \<le> 65" "65536 * unat c \<le> 65" "16777216 * unat d \<le> 65"
      using that len unfolding le32_add by linarith+
    then have "unat b = 0" "unat c = 0" "unat d = 0" by arith+
    with that show ?thesis by (simp add: le32_add word_unat_eq_iff)
  qed
  have w: "a = of_nat (length ?k)" if "unat a = length ?k" for a :: "8 word"
    unfolding that [symmetric] by simp
  from assms(1) ne consider
      n where "j = i + 1 + n" "j \<le> length s" "?k = go_slice (i + 1) (i + 1 + n) s" "n = unat (s ! i)"
    | n where "s ! i = opPushData1" "j = i + 2 + n" "j \<le> length s" "?k = go_slice (i + 2) (i + 2 + n) s"
        "n = unat (s ! (i + 1))"
    | n where "s ! i = opPushData2" "j = i + 3 + n" "j \<le> length s" "?k = go_slice (i + 3) (i + 3 + n) s"
        "n = le16 (s ! (i + 1)) (s ! (i + 2))"
    | n where "s ! i = opPushData4" "j = i + 5 + n" "j \<le> length s" "?k = go_slice (i + 5) (i + 5 + n) s"
        "n = le32 (s ! (i + 1)) (s ! (i + 2)) (s ! (i + 3)) (s ! (i + 4))"
    unfolding nextToken_def Let_def by (auto simp: not_less split: if_splits)
  then show thesis
  proof cases
    case (1 n)
    have f: "drop i s = map (\<lambda>k. s ! (i + k)) [0..<1] @ ?k @ drop j s" and n: "length ?k = n"
      using framed [OF 1(2) [unfolded 1(1)]] unfolding 1(3) 1(1) by blast+
    have "s ! i = of_nat (length ?k)"
      using w 1(4) unfolding n [symmetric] by metis+
    with f show thesis
      by (intro that [of "push_key ?k"]) (simp_all add: key_pushes_def push_key_def upt_rec)
  next
    case (2 n)
    have f: "drop i s = map (\<lambda>k. s ! (i + k)) [0..<2] @ ?k @ drop j s" and n: "length ?k = n"
      using framed [OF 2(3) [unfolded 2(2)]] unfolding 2(4) 2(2) by blast+
    have "s ! (i + 1) = of_nat (length ?k)"
      using w 2(5) unfolding n [symmetric] by metis+
    with f 2(1) show thesis
      by (intro that [of "[opPushData1, of_nat (length ?k)] @ ?k"]) (simp_all add: key_pushes_def push_key_def upt_rec)
  next
    case (3 n)
    have f: "drop i s = map (\<lambda>k. s ! (i + k)) [0..<3] @ ?k @ drop j s" and n: "length ?k = n"
      using framed [OF 3(3) [unfolded 3(2)]] unfolding 3(4) 3(2) by blast+
    have "s ! (i + 1) = of_nat (length ?k)" "s ! (i + 2) = 0"
      using w low 3(5) unfolding n [symmetric] by metis+
    with f 3(1) show thesis
      by (intro that [of "[opPushData2, of_nat (length ?k), 0] @ ?k"]) (simp_all add: key_pushes_def push_key_def upt_rec)
  next
    case (4 n)
    have f: "drop i s = map (\<lambda>k. s ! (i + k)) [0..<5] @ ?k @ drop j s" and n: "length ?k = n"
      using framed [OF 4(3) [unfolded 4(2)]] unfolding 4(4) 4(2) by blast+
    have "s ! (i + 1) = of_nat (length ?k)" "s ! (i + 2) = 0" "s ! (i + 3) = 0" "s ! (i + 4) = 0"
      using w low4 4(5) unfolding n [symmetric] by metis+
    with f 4(1) show thesis
      by (intro that [of "[opPushData4, of_nat (length ?k), 0, 0, 0] @ ?k"]) (simp_all add: key_pushes_def push_key_def upt_rec numeral_eq_Suc)
  qed
qed

lemma multisigKeys_bytes:
  "multisigKeys s i acc = Some (keys, t, j) \<Longrightarrow> multisigScriptNumber t lo hi = Some n \<Longrightarrow>
    \<exists>ps ks. keys = acc @ ks \<and> list_all isPubKeyPush ks \<and> list_all2 (\<lambda>p k. p \<in> set (key_pushes k)) ps ks
      \<and> drop i s = concat ps @ push_number n @ drop j s"
proof (induction s i acc rule: multisigKeys.induct)
  case (1 s i acc)
  from "1.prems"(1) obtain tok nx where n: "nextToken s i = Some (tok, nx)"
    by (cases "nextToken s i") (auto simp: multisigKeys.simps [of s i acc])
  show ?case
  proof (cases "isPubKeyPush (tdata tok)")
    case True
    then obtain p where p: "p \<in> set (key_pushes (tdata tok))" "drop i s = p @ drop nx s"
      using nextToken_key_bytes [OF n] by blast
    obtain ps ks where "keys = (acc @ [tdata tok]) @ ks" "list_all isPubKeyPush ks"
      "list_all2 (\<lambda>p k. p \<in> set (key_pushes k)) ps ks" "drop nx s = concat ps @ push_number n @ drop j s"
      using "1.IH" [OF n refl] "1.prems" True n by (auto simp: multisigKeys.simps [of s i acc])
    with p True show ?thesis
      by (intro exI [of _ "p # ps"] exI [of _ "tdata tok # ks"]) simp
  next
    case False
    with n "1.prems"(1) have "keys = acc" "t = tok" "j = nx" by (simp_all add: multisigKeys.simps [of s i acc])
    with nextToken_number_bytes [OF n] "1.prems"(2) show ?thesis
      by (intro exI [of _ "[]"]) simp
  qed
qed

lemma matchMultisig_iff: "matchMultisig s = Some (keys, m, n) \<longleftrightarrow> n = length keys \<and> multisig_form m keys s"
proof
  assume a: "matchMultisig s = Some (keys, m, n)"
  then obtain mt i nt j where s: "nextToken s 0 = Some (mt, i)" "multisigScriptNumber mt 1 20 = Some m"
    "multisigKeys s i [] = Some (keys, nt, j)" "multisigScriptNumber nt m 20 = Some n"
    and j: "j = length s - 1" "3 \<le> length s" "s ! (length s - 1) = opCheckMultisig"
    by (auto simp: matchMultisig_def split: option.splits if_splits)
  obtain ps where ps: "list_all2 (\<lambda>p k. p \<in> set (key_pushes k)) ps keys"
      "drop i s = concat ps @ push_number n @ drop j s"
    using multisigKeys_bytes [OF s(3,4)] by auto
  have "drop j s = [opCheckMultisig]" using j by (simp add: drop_1)
  with ps nextToken_number_bytes [OF s(1,2)] have "s = push_number m @ concat ps @ push_number n @ [opCheckMultisig]"
    by simp
  with ps matchMultisig_sound [OF a] show "n = length keys \<and> multisig_form m keys s"
    unfolding multisig_form_def by blast
qed (simp add: matchMultisig_form)

lemma matchMultisig_canonical:
  assumes "1 \<le> m" "m \<le> length keys" "length keys \<le> 20" "list_all isPubKeyPush keys"
  shows "matchMultisig (multisig_script m keys) = Some (keys, m, length keys)"
proof (rule matchMultisig_form)
  have "list_all2 (\<lambda>p k. p \<in> set (key_pushes k)) (map push_key keys) keys"
    by (simp add: list_all2_map1 list_all2_same key_pushes_def)
  with assms show "multisig_form m keys (multisig_script m keys)"
    unfolding multisig_form_def multisig_script_def by blast
qed

section \<open>Classification is exact\<close>

text \<open>
  The forms by their bytes alone, with no order between them. \<open>Classify\<close> tries
  them one after another; the theorem below shows that the order loses nothing.
\<close>

definition is_witness_of :: "nat \<Rightarrow> (nat \<Rightarrow> bool) \<Rightarrow> bytes \<Rightarrow> bool" where
  "is_witness_of v ok s \<longleftrightarrow>
    2 \<le> length s \<and> s ! 0 = witness_version_byte v \<and> unat (s ! 1) = length s - 2
    \<and> 2 \<le> length s - 2 \<and> length s - 2 \<le> 40 \<and> ok (length s - 2)"

definition script_form :: "script_type \<Rightarrow> bytes \<Rightarrow> bool" where
  "script_form t s =
    (case t of
       TypeP2WPKH \<Rightarrow> is_witness_of 0 (\<lambda>n. n = 20) s
     | TypeP2WSH \<Rightarrow> is_witness_of 0 (\<lambda>n. n = 32) s
     | TypeP2TR \<Rightarrow> is_witness_of 1 (\<lambda>n. n = 32) s
     | TypeP2QPK \<Rightarrow> is_witness_of 2 (\<lambda>n. n = 32) s
     | TypeUnknownWitness \<Rightarrow>
         (\<exists>v \<in> set [1..<17]. is_witness_of v (\<lambda>n. \<not> (v \<in> {1, 2} \<and> n = 32)) s)
     | TypeP2PKH \<Rightarrow> length (go_slice 3 23 s) = 20 \<and> s = p2pkh_script (go_slice 3 23 s)
     | TypeP2SH \<Rightarrow> length (go_slice 2 22 s) = 20 \<and> s = p2sh_script (go_slice 2 22 s)
     | TypeP2PK \<Rightarrow> isPubKeyPush (go_slice 1 (length s - 1) s)
                    \<and> s = p2pk_script (go_slice 1 (length s - 1) s)
     | TypeNullData \<Rightarrow> s \<noteq> [] \<and> hd s = opReturn
         \<and> (\<exists>ts. script_tokens (tl s) 0 = Some ts \<and> list_all is_push_token ts)
     | TypeMultisig \<Rightarrow> \<exists>m keys. multisig_form m keys s
     | TypeUnknown \<Rightarrow> False)"

lemma witness_version_byte_inject:
  "v \<le> 16 \<Longrightarrow> w \<le> 16 \<Longrightarrow> witness_version_byte v = witness_version_byte w \<longleftrightarrow> v = w"
  by (metis witness_version_of_byte option.inject)
lemma is_witness_of_iff:
  assumes "v \<le> 16"
  shows "is_witness_of v ok s \<longleftrightarrow>
    (\<exists>wp. ParseWitnessProgram s = Some wp \<and> Version wp = v \<and> ok (length (Program wp)))"
proof
  assume a: "is_witness_of v ok s"
  then obtain b p where s: "s = witness_version_byte v # b # p"
    by (cases s rule: remdups_adj.cases) (auto simp: is_witness_of_def)
  let ?wp = "\<lparr>Version = v, Program = p\<rparr>"
  have "of_nat (length p) = b" using a s by (auto simp: is_witness_of_def word_unat_eq_iff)
  then have w: "s = witness_script ?wp" using s by (simp add: witness_script_def)
  have "2 \<le> length p" "length p \<le> 40" using a s by (simp_all add: is_witness_of_def)
  with w have "ParseWitnessProgram s = Some ?wp"
    using assms by (simp add: ParseWitnessProgram_iff)
  then show "\<exists>wp. ParseWitnessProgram s = Some wp \<and> Version wp = v \<and> ok (length (Program wp))"
    using a s by (auto simp: is_witness_of_def)
next
  assume "\<exists>wp. ParseWitnessProgram s = Some wp \<and> Version wp = v \<and> ok (length (Program wp))"
  then show "is_witness_of v ok s"
    by (auto simp: ParseWitnessProgram_iff is_witness_of_def witness_script_def)
qed

lemma witness_none_templates:
  assumes "ParseWitnessProgram s = Some wp"
  shows "matchP2PKH s = None" "matchP2SH s = None" "matchP2PK s = None" "matchNullData s = False"
    "matchMultisig s = None"
proof -
  have h: "s = witness_version_byte (Version wp) # of_nat (length (Program wp)) # Program wp"
    and v: "Version wp \<le> 16" and l: "2 \<le> length (Program wp)" "length (Program wp) \<le> 40"
    using assms by (simp_all add: ParseWitnessProgram_iff witness_script_def)
  have b: "witness_version_byte (Version wp) \<notin> {opDup, opHash160, 0x21, 0x41, opReturn}"
    using witness_version_of_byte [OF v] by (auto simp: witness_version_of_def)

  show "matchP2PKH s = None" "matchP2SH s = None"
    using b by (auto simp: matchP2PKH_def matchP2SH_def h)
  show "matchP2PK s = None" using b by (auto simp: matchP2PK_def h)
  show "matchNullData s = False" using b by (auto simp: matchNullData_def h)
  show "matchMultisig s = None"
  proof (cases "Version wp = 0")
    case True
    then have "nextToken s 0 = Some (\<lparr>opcode = 0, tdata = []\<rparr>, 1)"
      by (simp add: h nextToken_def witness_version_byte_def)
    then show ?thesis by (simp add: matchMultisig_def multisigScriptNumber_def)
  next
    case False
    let ?n = "length (Program wp)"
    obtain b :: "8 word" where nb: "b = of_nat ?n" by simp
    have u: "unat b = ?n" using l by (simp add: nb)
    have vb: "witness_version_byte (Version wp) = op1 + of_nat (Version wp - 1)"
      using False by (simp add: witness_version_byte_def)
    have v0: "push_number (Version wp) = [op1 + of_nat (Version wp - 1)]"
      using v by (simp add: push_number_def)
    have t0: "nextToken s 0 = Some (number_token (Version wp), 1)"
      using nextToken_push_number [of "Version wp" "[]" "b # Program wp"] False v
      by (simp add: h vb v0 nb)
    have "b \<noteq> 0" "1 \<le> b \<and> b \<le> 0x4b" using u l by (auto simp: word_le_nat_alt)
    then have t1: "nextToken s 1 = Some (\<lparr>opcode = b, tdata = Program wp\<rparr>, length s)"
      by (simp add: h nextToken_def go_slice_def u nb [symmetric])
    have "nextToken s (length s) = None" by (simp add: nextToken_def)
    then have "multisigKeys s 1 [] = None \<or> multisigKeys s 1 [] = Some ([], \<lparr>opcode = b, tdata = Program wp\<rparr>, length s)"
      using t1 by (simp add: multisigKeys.simps [of s "Suc 0"] multisigKeys.simps [of s "length s"])
    moreover have "multisigScriptNumber \<lparr>opcode = b, tdata = Program wp\<rparr> lo hi = None" for lo hi
      using u l by (auto simp: multisigScriptNumber_def word_le_nat_alt)
    ultimately show ?thesis by (auto simp: matchMultisig_def t0 split: option.splits)
  qed
qed

lemma matchMultisig_head:
  "matchMultisig s \<noteq> None \<Longrightarrow> s \<noteq> [] \<and> (op1 \<le> hd s \<and> hd s \<le> op16 \<or> hd s = 0x01)"
  by (cases s)
    (auto simp: matchMultisig_def multisigScriptNumber_def nextToken_def Let_def
      split: option.splits if_splits)

lemma template_heads:
  "matchP2PKH s \<noteq> None \<Longrightarrow> s \<noteq> [] \<and> hd s = opDup"
  "matchP2SH s \<noteq> None \<Longrightarrow> s \<noteq> [] \<and> hd s = opHash160"
  "matchP2PK s \<noteq> None \<Longrightarrow> s \<noteq> [] \<and> (hd s = 0x21 \<or> hd s = 0x41)"
  "matchNullData s \<Longrightarrow> s \<noteq> [] \<and> hd s = opReturn"
  by (cases s; simp add: matchP2PKH_def matchP2SH_def matchP2PK_def matchNullData_def Let_def
      split: if_splits)+

lemma Classify_Type_None:
  assumes "ParseWitnessProgram s = None"
  shows "Type (Classify s) = t \<longleftrightarrow>
    (case t of TypeP2PKH \<Rightarrow> matchP2PKH s \<noteq> None | TypeP2SH \<Rightarrow> matchP2SH s \<noteq> None
     | TypeP2PK \<Rightarrow> matchP2PK s \<noteq> None | TypeNullData \<Rightarrow> matchNullData s
     | TypeMultisig \<Rightarrow> matchMultisig s \<noteq> None
     | TypeUnknown \<Rightarrow> matchP2PKH s = None \<and> matchP2SH s = None \<and> matchP2PK s = None
         \<and> \<not> matchNullData s \<and> matchMultisig s = None
     | _ \<Rightarrow> False)"
  using template_heads [of s] matchMultisig_head [of s] assms
  by (cases "matchP2PKH s"; cases "matchP2SH s"; cases "matchP2PK s"; cases "matchNullData s";
      cases "matchMultisig s")
    (auto simp: Classify_def plain_result_def split: prod.splits script_type.split)

lemma template_forms:
  "matchP2PKH s \<noteq> None \<longleftrightarrow> length (go_slice 3 23 s) = 20 \<and> s = p2pkh_script (go_slice 3 23 s)"
  "matchP2SH s \<noteq> None \<longleftrightarrow> length (go_slice 2 22 s) = 20 \<and> s = p2sh_script (go_slice 2 22 s)"
  "matchP2PK s \<noteq> None \<longleftrightarrow> isPubKeyPush (go_slice 1 (length s - 1) s)
      \<and> s = p2pk_script (go_slice 1 (length s - 1) s)"
  "matchNullData s \<longleftrightarrow> s \<noteq> [] \<and> hd s = opReturn
      \<and> (\<exists>ts. script_tokens (tl s) 0 = Some ts \<and> list_all is_push_token ts)"
  "matchMultisig s \<noteq> None \<longleftrightarrow> (\<exists>m keys. multisig_form m keys s)"
proof -
  have "matchP2PKH s \<noteq> None \<longleftrightarrow> matchP2PKH s = Some (go_slice 3 23 s)"
    by (simp add: matchP2PKH_def)
  then show "matchP2PKH s \<noteq> None \<longleftrightarrow>
      length (go_slice 3 23 s) = 20 \<and> s = p2pkh_script (go_slice 3 23 s)"
    by (simp add: matchP2PKH_iff)
  have "matchP2SH s \<noteq> None \<longleftrightarrow> matchP2SH s = Some (go_slice 2 22 s)"
    by (simp add: matchP2SH_def)
  then show "matchP2SH s \<noteq> None \<longleftrightarrow>
      length (go_slice 2 22 s) = 20 \<and> s = p2sh_script (go_slice 2 22 s)"
    by (simp add: matchP2SH_iff)
  have "matchP2PK s \<noteq> None \<longleftrightarrow> matchP2PK s = Some (go_slice 1 (length s - 1) s)"
    by (auto simp: matchP2PK_def Let_def)
  then show "matchP2PK s \<noteq> None \<longleftrightarrow> isPubKeyPush (go_slice 1 (length s - 1) s)
      \<and> s = p2pk_script (go_slice 1 (length s - 1) s)"
    by (simp add: matchP2PK_iff)
  show "matchNullData s \<longleftrightarrow> s \<noteq> [] \<and> hd s = opReturn
      \<and> (\<exists>ts. script_tokens (tl s) 0 = Some ts \<and> list_all is_push_token ts)"
    by (cases s) (auto simp: matchNullData_def isPushOnly_tokens)
  show "matchMultisig s \<noteq> None \<longleftrightarrow> (\<exists>m keys. multisig_form m keys s)"
  proof
    assume "matchMultisig s \<noteq> None"
    then obtain keys m n where "matchMultisig s = Some (keys, m, n)" by auto
    then show "\<exists>m keys. multisig_form m keys s" unfolding matchMultisig_iff by blast
  qed (auto dest: matchMultisig_form)
qed

text \<open>
  A script has a type other than \<open>TypeUnknown\<close> exactly when it has that form: no
  earlier form hides a later one, and the classifier accepts nothing else.
\<close>

lemma Classify_form:
  assumes "t \<noteq> TypeUnknown"
  shows "Type (Classify s) = t \<longleftrightarrow> script_form t s"
proof (cases "ParseWitnessProgram s")
  case None
  then have w: "\<not> is_witness_of v ok s" if "v \<le> 16" for v ok
    using that by (simp add: is_witness_of_iff)
  show ?thesis
    using assms w template_forms [of s]
    by (cases t) (auto simp: Classify_Type_None [OF None] script_form_def)
next
  case (Some wp)
  note n = witness_none_templates [OF Some]
  have v: "Version wp \<le> 16" using Some by (simp add: ParseWitnessProgram_iff)
  have w: "is_witness_of v ok s \<longleftrightarrow> Version wp = v \<and> ok (length (Program wp))" if "v \<le> 16" for v ok
    using that Some by (auto simp: is_witness_of_iff)
  have c: "Type (Classify s) = classify_witness wp"
    by (simp add: Classify_def Some plain_result_def)
  show ?thesis
    using assms v n w template_forms [of s] unfolding c
    by (cases t) (auto simp: classify_witness_def script_form_def)
qed

section \<open>Properties\<close>

lemma Classify_multisig:
  assumes "matchMultisig s = Some (keys, m, n)"
  shows "Classify s = (plain_result TypeMultisig)\<lparr>PubKeys := keys, MultisigM := m, MultisigN := n\<rparr>"
proof -
  have "ParseWitnessProgram s = None"
    using witness_none_templates(5) [of s] assms by (cases "ParseWitnessProgram s") auto
  moreover have "s \<noteq> []" "op1 \<le> hd s \<and> hd s \<le> op16 \<or> hd s = 0x01"
    using matchMultisig_head [of s] assms by auto
  then have "matchP2PKH s = None" "matchP2SH s = None" "matchP2PK s = None" "\<not> matchNullData s"
    using template_heads [of s] by force+
  ultimately show ?thesis using assms by (simp add: Classify_def)
qed

text \<open>
  C36 Witness programs: a script parses as the program \<open>wp\<close> exactly when it is its
  canonical encoding and version and length are in the ranges of BIP 141.
\<close>

theorem witness_program_exact:
  "ParseWitnessProgram s = Some wp \<longleftrightarrow>
    Version wp \<le> 16 \<and> 2 \<le> length (Program wp) \<and> length (Program wp) \<le> 40 \<and> s = witness_script wp"
  by (rule ParseWitnessProgram_iff)

text \<open>
  C35 Classification does not depend on the order in which the forms are tried: a script gets a type
  other than \<open>TypeUnknown\<close> exactly when its bytes have that type's form. The forms are written as
  encodings, not as matchers; a bare multisig is a threshold, as many key pushes as the second number
  says, each with one of the four push opcodes, and \<open>OP_CHECKMULTISIG\<close>.
\<close>

theorem Classify_exact:
  assumes "t \<noteq> TypeUnknown"
  shows "Type (Classify s) = t \<longleftrightarrow> script_form t s"
  by (rule Classify_form [OF assms])

theorem Classify_exact_witness:
  "Type (Classify (p2pkh_script (replicate 20 7))) = TypeP2PKH"
  using Classify_exact [of TypeP2PKH "p2pkh_script (replicate 20 7)"]
  by (simp add: script_form_def p2pkh_script_def go_slice_def)

text \<open>
  C37 Bare multisig: the canonical script of a threshold and keys with a compressed or uncompressed
  length is classified as multisig, and its keys and both numbers are read back.
\<close>

theorem multisig_roundtrip:
  assumes "1 \<le> m" "m \<le> length keys" "length keys \<le> 20" "list_all isPubKeyPush keys"
  shows "Classify (multisig_script m keys)
    = (plain_result TypeMultisig)\<lparr>PubKeys := keys, MultisigM := m, MultisigN := length keys\<rparr>"
  by (rule Classify_multisig [OF matchMultisig_canonical [OF assms]])

theorem multisig_roundtrip_witness:
  "PubKeys (Classify (multisig_script 1 [2 # replicate 32 5, 3 # replicate 32 9]))
    = [2 # replicate 32 5, 3 # replicate 32 9]"
  using multisig_roundtrip [of 1 "[2 # replicate 32 5, 3 # replicate 32 9]"]
  by (simp add: isPubKeyPush_def)

text \<open>
  Whatever is classified as multisig has a threshold between one and its number of keys, at most
  twenty keys, as many as it announces, and every key is one that a push can hold.
\<close>

theorem multisig_sound:
  assumes "Type (Classify s) = TypeMultisig"
  shows "1 \<le> MultisigM (Classify s) \<and> MultisigM (Classify s) \<le> MultisigN (Classify s)
    \<and> MultisigN (Classify s) \<le> 20 \<and> length (PubKeys (Classify s)) = MultisigN (Classify s)
    \<and> list_all isPubKeyPush (PubKeys (Classify s))"
proof -
  have "\<exists>m keys. multisig_form m keys s" using Classify_form [of TypeMultisig s] assms
    by (simp add: script_form_def)
  then have "matchMultisig s \<noteq> None" by (simp only: template_forms(5))
  then obtain keys m n where k: "matchMultisig s = Some (keys, m, n)" by auto
  show ?thesis using matchMultisig_sound [OF k] by (simp add: Classify_multisig [OF k])
qed

theorem multisig_sound_witness:
  "MultisigM (Classify (multisig_script 1 [2 # replicate 32 5])) \<le> 20"
proof -
  let ?s = "multisig_script 1 [2 # replicate 32 5]"
  have "Classify ?s = (plain_result TypeMultisig)\<lparr>PubKeys := [2 # replicate 32 5], MultisigM := 1,
      MultisigN := 1\<rparr>"
    using Classify_multisig [OF matchMultisig_canonical [of 1 "[2 # replicate 32 5]"]]
    by (simp add: isPubKeyPush_def)
  then have "Type (Classify ?s) = TypeMultisig" by (simp add: plain_result_def)
  from multisig_sound [OF this] show ?thesis by simp
qed

end
