(* ===== verification/Accounting.thy ===== *)
theory Accounting
  imports Int64
begin

text \<open>
  \<open>internal/accounting\<close>: the subsidy schedules of the four networks, the subsidy of a
  height, the scheduled total through a height, and a block's monetary facts. Go's
  \<open>int64\<close> values are integers here; where the code adds or multiplies, the wrapping
  operations of theory \<open>Int64\<close> do.
\<close>

section \<open>model.go and the types of subsidy.go\<close>

datatype acc_error =
    ErrUnknownSchedule | ErrNegativeHeight | ErrNegativeAmount | ErrAmountOverflow
  | ErrCoinbaseOverclaim

record schedule =
  InitialSubsidySatoshis :: int
  HalvingInterval :: int
  MaxHalvings :: int

record block_facts =
  BlockHash :: string
  SubsidySatoshis :: int
  FeeSatoshis :: int
  CoinbaseOutputSatoshis :: int
  UnclaimedRewardSatoshis :: int

abbreviation (input) "initialSubsidySatoshis \<equiv> 100 * 100000000 :: int"
abbreviation (input) "maxHalvings \<equiv> 64 :: int"

definition MainnetSchedule :: schedule where
  "MainnetSchedule = \<lparr>InitialSubsidySatoshis = initialSubsidySatoshis, HalvingInterval = 500000,
     MaxHalvings = maxHalvings\<rparr>"
definition TestnetSchedule :: schedule where
  "TestnetSchedule = \<lparr>InitialSubsidySatoshis = initialSubsidySatoshis, HalvingInterval = 500000,
     MaxHalvings = maxHalvings\<rparr>"
definition SignetSchedule :: schedule where
  "SignetSchedule = \<lparr>InitialSubsidySatoshis = initialSubsidySatoshis, HalvingInterval = 500000,
     MaxHalvings = maxHalvings\<rparr>"
definition RegtestSchedule :: schedule where
  "RegtestSchedule = \<lparr>InitialSubsidySatoshis = initialSubsidySatoshis, HalvingInterval = 150,
     MaxHalvings = maxHalvings\<rparr>"

definition ScheduleForNetwork :: "string \<Rightarrow> acc_error + schedule" where
  "ScheduleForNetwork network =
    (if network = ''main'' then Inr MainnetSchedule
     else if network = ''test'' then Inr TestnetSchedule
     else if network = ''signet'' then Inr SignetSchedule
     else if network = ''regtest'' then Inr RegtestSchedule
     else Inl ErrUnknownSchedule)"

lemmas schedule_defs = MainnetSchedule_def TestnetSchedule_def SignetSchedule_def RegtestSchedule_def

section \<open>subsidy.go\<close>

text \<open>\<open>x >> uint(n)\<close> on a signed value: the arithmetic shift.\<close>

definition sar :: "int \<Rightarrow> int \<Rightarrow> int" where "sar x n = drop_bit (nat n) x"

definition BlockSubsidy :: "schedule \<Rightarrow> int \<Rightarrow> acc_error + int" where
  "BlockSubsidy sch height =
    (if height < 0 then Inl ErrNegativeHeight
     else let halvings = quot64 height (HalvingInterval sch)
          in if MaxHalvings sch \<le> halvings then Inr 0
             else Inr (sar (InitialSubsidySatoshis sch) halvings))"

text \<open>The loop of \<open>ScheduledSubsidyThroughHeight\<close>, from a given era and running total.\<close>

function scheduled_from :: "schedule \<Rightarrow> int \<Rightarrow> int \<Rightarrow> int \<Rightarrow> acc_error + int" where
  "scheduled_from sch height era tot =
    (if \<not> era < MaxHalvings sch then Inr tot
     else let eraStart = mul64 era (HalvingInterval sch)
     in if height < eraStart then Inr tot
     else let eraEndExclusive = add64 eraStart (HalvingInterval sch);
              blocksInEra = (if height < sub64 eraEndExclusive 1
                             then add64 (sub64 height eraStart) 1 else HalvingInterval sch);
              subsidy = sar (InitialSubsidySatoshis sch) era
     in if subsidy = 0 then Inr tot
     else case checkedMul subsidy blocksInEra of
       None \<Rightarrow> Inl ErrAmountOverflow
     | Some contribution \<Rightarrow>
         (case checkedAdd tot contribution of
            None \<Rightarrow> Inl ErrAmountOverflow
          | Some s \<Rightarrow> scheduled_from sch height (era + 1) s))"
  by pat_completeness auto
termination
  by (relation "measure (\<lambda>(sch, height, era, tot). nat (MaxHalvings sch - era))") auto

declare scheduled_from.simps [simp del]

definition ScheduledSubsidyThroughHeight :: "schedule \<Rightarrow> int \<Rightarrow> acc_error + int" where
  "ScheduledSubsidyThroughHeight sch height =
    (if height < 0 then Inl ErrNegativeHeight else scheduled_from sch height 0 0)"

definition ComputeBlockFacts :: "schedule \<Rightarrow> string \<Rightarrow> int \<Rightarrow> int \<Rightarrow> int \<Rightarrow> acc_error + block_facts" where
  "ComputeBlockFacts sch blockHash height feeSatoshis coinbaseOutputSatoshis =
    (if feeSatoshis < 0 then Inl ErrNegativeAmount
     else if coinbaseOutputSatoshis < 0 then Inl ErrNegativeAmount
     else rbind (BlockSubsidy sch height) (\<lambda>subsidy.
       case checkedAdd subsidy feeSatoshis of
         None \<Rightarrow> Inl ErrAmountOverflow
       | Some maxReward \<Rightarrow>
           if maxReward < coinbaseOutputSatoshis then Inl ErrCoinbaseOverclaim
           else let unclaimed = sub64 maxReward coinbaseOutputSatoshis
                in Inr \<lparr>BlockHash = blockHash, SubsidySatoshis = subsidy, FeeSatoshis = feeSatoshis,
                         CoinbaseOutputSatoshis = coinbaseOutputSatoshis,
                         UnclaimedRewardSatoshis = unclaimed\<rparr>))"

section \<open>The schedules the program uses\<close>

definition network_schedule :: "schedule \<Rightarrow> bool" where
  "network_schedule sch \<longleftrightarrow> InitialSubsidySatoshis sch = 10000000000 \<and> MaxHalvings sch = 64
     \<and> 0 < HalvingInterval sch \<and> HalvingInterval sch \<le> 500000"

lemma ScheduleForNetwork_schedule: "ScheduleForNetwork n = Inr sch \<Longrightarrow> network_schedule sch"
  by (auto simp: ScheduleForNetwork_def network_schedule_def schedule_defs split: if_splits)

text \<open>The subsidy of an era as a mathematical halving, with no guard.\<close>

definition era_subsidy :: "nat \<Rightarrow> int" where "era_subsidy e = 10000000000 div 2 ^ e"

definition subsidy_at :: "schedule \<Rightarrow> nat \<Rightarrow> int" where
  "subsidy_at sch h = era_subsidy (h div nat (HalvingInterval sch))"

lemma era_subsidy_nonneg [simp]: "0 \<le> era_subsidy e"
  by (simp add: era_subsidy_def pos_imp_zdiv_nonneg_iff)

lemma era_subsidy_le: "era_subsidy e \<le> 10000000000"
  using zdiv_mono2 [of 10000000000 1 "2 ^ e"] by (simp add: era_subsidy_def)
lemma era_subsidy_antimono: "d \<le> e \<Longrightarrow> era_subsidy e \<le> era_subsidy d"
  unfolding era_subsidy_def by (intro zdiv_mono2) (simp_all add: power_increasing)

lemma era_subsidy_zero: "34 \<le> e \<Longrightarrow> era_subsidy e = 0"
proof -
  assume "34 \<le> e"
  then have "era_subsidy e \<le> era_subsidy 34" by (rule era_subsidy_antimono)
  also have "era_subsidy 34 = 0" by (simp add: era_subsidy_def)
  finally show ?thesis using era_subsidy_nonneg [of e] by linarith
qed

lemma era_subsidy_positive: "e \<le> 33 \<Longrightarrow> 0 < era_subsidy e"
proof -
  assume "e \<le> 33"
  then have "era_subsidy 33 \<le> era_subsidy e" by (rule era_subsidy_antimono)
  moreover have "era_subsidy 33 = 1" by (simp add: era_subsidy_def)
  ultimately show ?thesis by simp
qed

lemma sar_era: "sar 10000000000 (int e) = era_subsidy e"
  by (simp add: sar_def era_subsidy_def drop_bit_eq_div)

lemma quot64_div: "0 \<le> a \<Longrightarrow> in_i64 a \<Longrightarrow> 0 < b \<Longrightarrow> quot64 a b = a div b"
proof -
  assume a: "0 \<le> a" "in_i64 a" "0 < b"
  then have "a sdiv b = a div b" by (simp add: signed_divide_int_def sgn_if)
  moreover have "in_i64 (a div b)"
  proof -
    have "a div b \<le> a" using zdiv_mono2 [of a 1 b] a by simp
    moreover have "0 \<le> a div b" using a by (simp add: pos_imp_zdiv_nonneg_iff)
    ultimately show ?thesis using a(2) by (simp add: i64_defs)
  qed
  ultimately show ?thesis by (simp add: quot64_def wrap64_id)
qed

lemma BlockSubsidy_eq:
  assumes "network_schedule sch" "int h \<le> max_i64"
  shows "BlockSubsidy sch (int h) = Inr (subsidy_at sch h)"
proof -
  let ?I = "HalvingInterval sch"
  have I: "0 < ?I" "MaxHalvings sch = 64" "InitialSubsidySatoshis sch = 10000000000"
    using assms(1) by (simp_all add: network_schedule_def)
  have "quot64 (int h) ?I = int (h div nat ?I)"
    using I assms(2) by (simp add: quot64_div i64_defs zdiv_int)
  then show ?thesis
    using I by (auto simp: BlockSubsidy_def Let_def subsidy_at_def sar_era era_subsidy_zero)
qed

section \<open>The scheduled total\<close>

definition scheduled_sum :: "schedule \<Rightarrow> nat \<Rightarrow> int" where
  "scheduled_sum sch n = (\<Sum>k<n. subsidy_at sch k)"

lemma scheduled_sum_mono: "m \<le> n \<Longrightarrow> scheduled_sum sch m \<le> scheduled_sum sch n"
  unfolding scheduled_sum_def by (rule sum_mono2) (auto simp: subsidy_at_def)

text \<open>Part of one era contributes its block count times the era's subsidy.\<close>

lemma scheduled_sum_era:
  assumes "0 < HalvingInterval sch" "r \<le> nat (HalvingInterval sch)"
  shows "scheduled_sum sch (e * nat (HalvingInterval sch) + r)
    = scheduled_sum sch (e * nat (HalvingInterval sch)) + era_subsidy e * int r"
  using assms(2)
proof (induction r)
  case (Suc r)
  have "(e * nat (HalvingInterval sch) + r) div nat (HalvingInterval sch) = e"
    using Suc.prems assms(1) by simp
  with Suc show ?case
    by (simp add: scheduled_sum_def subsidy_at_def algebra_simps)
qed simp

lemma scheduled_sum_exhausted:
  assumes "0 < HalvingInterval sch" "era_subsidy e = 0" "e * nat (HalvingInterval sch) \<le> n"
  shows "scheduled_sum sch n = scheduled_sum sch (e * nat (HalvingInterval sch))"
proof -
  have z: "subsidy_at sch k = 0" if "e * nat (HalvingInterval sch) \<le> k" for k
  proof -
    have "e \<le> k div nat (HalvingInterval sch)"
      using that assms(1) by (simp add: less_eq_div_iff_mult_less_eq)
    then show ?thesis
      using era_subsidy_antimono [of e] era_subsidy_nonneg assms(2)
      by (simp add: subsidy_at_def antisym)
  qed
  show ?thesis unfolding scheduled_sum_def
    using assms(3) z by (intro sum.mono_neutral_right) (auto simp: not_less)
qed

lemma scheduled_sum_eras_le:
  assumes "0 < HalvingInterval sch"
  shows "scheduled_sum sch (e * nat (HalvingInterval sch))
    \<le> int e * (10000000000 * HalvingInterval sch)"
proof (induction e)
  case (Suc e)
  have "era_subsidy e * HalvingInterval sch \<le> 10000000000 * HalvingInterval sch"
    using assms era_subsidy_le [of e] by (intro mult_right_mono) simp_all
  with Suc scheduled_sum_era [OF assms order_refl, of e] assms
  have "scheduled_sum sch (e * nat (HalvingInterval sch) + nat (HalvingInterval sch))
    \<le> int e * (10000000000 * HalvingInterval sch) + 10000000000 * HalvingInterval sch"
    by (simp only: int_nat_eq less_imp_le if_True)
  then show ?case by (simp add: algebra_simps)
qed (simp add: scheduled_sum_def)

lemma scheduled_sum_bound:
  assumes "network_schedule sch"
  shows "scheduled_sum sch n \<le> 34 * (10000000000 * 500000)"
proof -
  let ?I = "nat (HalvingInterval sch)"
  have I: "0 < HalvingInterval sch" "HalvingInterval sch \<le> 500000"
    using assms by (simp_all add: network_schedule_def)
  have "scheduled_sum sch (max n (34 * ?I)) = scheduled_sum sch (34 * ?I)"
    by (rule scheduled_sum_exhausted [OF I(1)]) (simp_all add: era_subsidy_zero)
  then have "scheduled_sum sch n \<le> scheduled_sum sch (34 * ?I)"
    using scheduled_sum_mono [of n "max n (34 * ?I)" sch] by simp
  also have "\<dots> \<le> 34 * (10000000000 * HalvingInterval sch)"
    using scheduled_sum_eras_le [OF I(1), of 34] by simp
  also have "\<dots> \<le> 34 * (10000000000 * 500000)" using I(2) by simp
  finally show ?thesis .
qed

lemma scheduled_sum_in_i64: "network_schedule sch \<Longrightarrow> in_i64 (scheduled_sum sch n)"
proof -
  assume "network_schedule sch"
  moreover have "0 \<le> scheduled_sum sch n" unfolding scheduled_sum_def subsidy_at_def
    by (rule sum_nonneg) simp
  ultimately show ?thesis using scheduled_sum_bound [of sch n] by (simp add: i64_defs)
qed

lemma era_start_exact:
  assumes "network_schedule sch" "e < 64"
  shows "mul64 (int e) (HalvingInterval sch) = int (e * nat (HalvingInterval sch))"
    "int (e * nat (HalvingInterval sch)) \<le> 64 * 500000"
proof -
  have I: "0 < HalvingInterval sch" "HalvingInterval sch \<le> 500000"
    using assms(1) by (simp_all add: network_schedule_def)
  have "0 \<le> int e * HalvingInterval sch" using I(1) by simp
  moreover have "int e * HalvingInterval sch \<le> 64 * 500000"
    using assms(2) I by (intro mult_mono) simp_all
  ultimately have "in_i64 (int e * HalvingInterval sch)" "int e * HalvingInterval sch \<le> 64 * 500000"
    unfolding i64_defs by linarith+
  then show "mul64 (int e) (HalvingInterval sch) = int (e * nat (HalvingInterval sch))"
    "int (e * nat (HalvingInterval sch)) \<le> 64 * 500000"
    using I by (simp_all add: mul64_def wrap64_id i64_defs)
qed

lemma blocks_in_era:
  assumes "0 < I" "I \<le> 500000" "int h \<le> max_i64" "s \<le> h" "int s \<le> 64 * 500000"
  shows "(if int h < sub64 (add64 (int s) I) 1 then add64 (sub64 (int h) (int s)) 1 else I)
    = int (min (Suc h - s) (nat I))"
proof -
  have "in_i64 (int s + I)" "in_i64 (int s + I - 1)" "in_i64 (int h - int s)"
    using assms by (simp_all add: i64_defs)
  then have a: "add64 (int s) I = int s + I" "sub64 (int s + I) 1 = int s + I - 1"
    "sub64 (int h) (int s) = int h - int s"
    by (simp_all add: add64_def sub64_def wrap64_id)
  have "add64 (int h - int s) 1 = int h - int s + 1" if "int h < int s + I - 1"
  proof -
    have "in_i64 (int h - int s + 1)" using that assms by (simp add: i64_defs)
    then show ?thesis by (simp add: add64_def wrap64_id)
  qed
  then show ?thesis unfolding a using assms by auto
qed

text \<open>One iteration adds exactly the era's part of the sum, without overflow.\<close>

lemma era_contribution:
  assumes "network_schedule sch" "n \<le> nat (HalvingInterval sch)"
    and S_def: "S = e * nat (HalvingInterval sch)"
  shows "checkedMul (era_subsidy e) (int n) = Some (era_subsidy e * int n)"
    "checkedAdd (scheduled_sum sch S) (era_subsidy e * int n) = Some (scheduled_sum sch (S + n))"
proof -
  have I: "0 < HalvingInterval sch" "HalvingInterval sch \<le> 500000"
    using assms(1) by (simp_all add: network_schedule_def)
  have s: "0 \<le> era_subsidy e" "era_subsidy e \<le> 10000000000" using era_subsidy_le by simp_all
  have "era_subsidy e * int n \<le> 10000000000 * 500000"
    using s assms(2) I(2) by (intro mult_mono) simp_all
  then have p: "in_i64 (era_subsidy e * int n)"
    using mult_nonneg_nonneg [OF s(1), of "int n"] unfolding i64_defs by linarith
  show "checkedMul (era_subsidy e) (int n) = Some (era_subsidy e * int n)"
    using p s assms(2) I(2) by (subst checkedMul_exact) (auto simp: i64_defs intro: order.trans [of _ 0])
  have "scheduled_sum sch (S + n) = scheduled_sum sch S + era_subsidy e * int n"
    unfolding S_def by (rule scheduled_sum_era [OF I(1) assms(2)])
  then show "checkedAdd (scheduled_sum sch S) (era_subsidy e * int n) = Some (scheduled_sum sch (S + n))"
    using p scheduled_sum_in_i64 [OF assms(1)] by (metis checkedAdd_eq addChecked_exact)
qed

lemma scheduled_from_sum:
  assumes "network_schedule sch" "int h \<le> max_i64" "e \<le> 64"
  shows "scheduled_from sch (int h) (int e)
      (scheduled_sum sch (min (e * nat (HalvingInterval sch)) (Suc h)))
    = Inr (scheduled_sum sch (Suc h))"
  using assms(3)
proof (induction "64 - e" arbitrary: e)
  case 0
  then have "e = 64" by simp
  then show ?case
    using assms(1) scheduled_sum_exhausted [of sch 64 "Suc h"]
    by (cases "64 * nat (HalvingInterval sch) \<le> Suc h")
      (simp_all add: scheduled_from.simps [of sch "int h"] network_schedule_def era_subsidy_zero)
next
  case (Suc d)
  let ?I = "nat (HalvingInterval sch)"
  have I: "0 < HalvingInterval sch" "HalvingInterval sch \<le> 500000" "MaxHalvings sch = 64"
    "InitialSubsidySatoshis sch = 10000000000"
    using assms(1) by (simp_all add: network_schedule_def)
  have e: "e < 64" "d = 64 - Suc e" "Suc e \<le> 64" using Suc.hyps(2) by simp_all
  note S = era_start_exact [OF assms(1) e(1)]
  consider "h < e * ?I" | "e * ?I \<le> h" "era_subsidy e = 0" | "e * ?I \<le> h" "era_subsidy e \<noteq> 0"
    by linarith
  then show ?case
  proof cases
    case 1
    then show ?thesis using e(1) I(3)
      by (subst scheduled_from.simps) (simp add: S(1) Let_def del: of_nat_mult)
  next
    case 2
    with scheduled_sum_exhausted [OF I(1), of e "Suc h"] show ?thesis using e(1) I(3,4)
      by (subst scheduled_from.simps) (simp add: S(1) Let_def sar_era del: of_nat_mult)
  next
    case 3
    let ?n = "min (Suc h - e * ?I) ?I"
    have "a + min (Suc h - a) I = min (I + a) (Suc h)" if "a \<le> h" for a I
      using that by (auto simp: min_def)
    with 3(1) have n: "?n \<le> ?I" "e * ?I + ?n = min (Suc e * ?I) (Suc h)" by simp_all
    have "scheduled_from sch (int h) (int e) (scheduled_sum sch (e * ?I))
      = scheduled_from sch (int h) (int (Suc e)) (scheduled_sum sch (e * ?I + ?n))"
      using 3 e(1) I(3,4) blocks_in_era [OF I(1,2) assms(2) 3(1) S(2)]
      by (subst scheduled_from.simps)
        (simp add: S(1) Let_def sar_era era_contribution [OF assms(1) n(1) refl] add.commute
          del: of_nat_mult of_nat_min)
    also have "\<dots> = Inr (scheduled_sum sch (Suc h))"
      unfolding n(2) by (rule Suc.hyps(1) [OF e(2,3)])
    finally show ?thesis using 3(1) by (simp add: min_def)
  qed
qed

section \<open>Properties\<close>

text \<open>
  C39 The scheduled total through a height is the sum of the subsidies of all heights up to it, on
  every network and for every height an \<open>int64\<close> can hold, and is computed without
  reporting an overflow; the era-by-era loop with its early exits is exact.
\<close>

theorem scheduled_subsidy_is_sum:
  assumes "ScheduleForNetwork network = Inr sch" "int h \<le> max_i64"
  shows "(\<forall>k \<le> h. BlockSubsidy sch (int k) = Inr (subsidy_at sch k))
    \<and> ScheduledSubsidyThroughHeight sch (int h) = Inr (\<Sum>k \<le> h. subsidy_at sch k)"
proof -
  have sch: "network_schedule sch" using assms(1) by (rule ScheduleForNetwork_schedule)
  have "ScheduledSubsidyThroughHeight sch (int h) = Inr (scheduled_sum sch (Suc h))"
    using scheduled_from_sum [OF sch assms(2), of 0]
    by (simp add: ScheduledSubsidyThroughHeight_def scheduled_sum_def)
  moreover have "BlockSubsidy sch (int k) = Inr (subsidy_at sch k)" if "k \<le> h" for k
    using that assms(2) by (intro BlockSubsidy_eq [OF sch]) simp
  ultimately show ?thesis by (simp add: scheduled_sum_def lessThan_Suc_atMost)
qed

theorem scheduled_subsidy_is_sum_witness:
  "ScheduledSubsidyThroughHeight RegtestSchedule 300 = Inr (\<Sum>k \<le> 300. subsidy_at RegtestSchedule k)"
  using scheduled_subsidy_is_sum [of "''regtest''" RegtestSchedule 300]
  by (simp add: ScheduleForNetwork_def i64_defs)

text \<open>
  Monetary exhaustion: a height pays a positive subsidy exactly while fewer than 34 halvings
  have passed, so from era 34 on every block's subsidy is zero; the guard of 64 halvings is never
  the reason.
\<close>

theorem subsidy_exhausted_at_era_34:
  assumes "ScheduleForNetwork network = Inr sch" "0 \<le> h" "h \<le> max_i64"
  shows "\<exists>s. BlockSubsidy sch h = Inr s \<and> 0 \<le> s \<and> s \<le> 10000000000
    \<and> (0 < s \<longleftrightarrow> h < 34 * HalvingInterval sch)"
proof -
  have sch: "network_schedule sch" using assms(1) by (rule ScheduleForNetwork_schedule)
  then have I: "0 < HalvingInterval sch" by (simp add: network_schedule_def)
  obtain n where n: "h = int n" using assms(2) zero_le_imp_eq_int by blast
  let ?e = "n div nat (HalvingInterval sch)"
  have "0 < era_subsidy ?e \<longleftrightarrow> ?e < 34"
    using era_subsidy_positive [of ?e] era_subsidy_zero [of ?e] by (cases "?e < 34") auto
  also have "\<dots> \<longleftrightarrow> n < 34 * nat (HalvingInterval sch)"
    using I by (simp add: div_less_iff_less_mult)
  also have "\<dots> \<longleftrightarrow> h < 34 * HalvingInterval sch" using I n by auto
  finally show ?thesis
    using BlockSubsidy_eq [OF sch, of n] assms(3) n era_subsidy_le by (simp add: subsidy_at_def)
qed

theorem subsidy_exhausted_at_era_34_witness:
  "\<exists>s. BlockSubsidy MainnetSchedule 16999999 = Inr s \<and> 0 \<le> s \<and> s \<le> 10000000000
    \<and> (0 < s \<longleftrightarrow> (16999999::int) < 34 * HalvingInterval MainnetSchedule)"
  by (rule subsidy_exhausted_at_era_34 [of "''main''"])
    (simp_all add: ScheduleForNetwork_def i64_defs)

text \<open>
  C40 A block's facts are accepted exactly when the height, the fees and the coinbase total are
  non-negative, subsidy and fees add without overflow and the coinbase does not overclaim; the
  accepted facts satisfy subsidy + fees = coinbase + unclaimed with a non-negative unclaimed
  reward, and every rejected input gets the error of the first check it fails.
\<close>

theorem ComputeBlockFacts_exact:
  assumes "ScheduleForNetwork network = Inr sch"
    and "in_i64 height" "in_i64 fees" "in_i64 coinbase"
  shows "ComputeBlockFacts sch hash height fees coinbase =
    (if fees < 0 \<or> coinbase < 0 then Inl ErrNegativeAmount
     else if height < 0 then Inl ErrNegativeHeight
     else let s = subsidy_at sch (nat height) in
       if max_i64 < s + fees then Inl ErrAmountOverflow
       else if s + fees < coinbase then Inl ErrCoinbaseOverclaim
       else Inr \<lparr>BlockHash = hash, SubsidySatoshis = s, FeeSatoshis = fees,
                 CoinbaseOutputSatoshis = coinbase, UnclaimedRewardSatoshis = s + fees - coinbase\<rparr>)"
proof -
  have sch: "network_schedule sch" using assms(1) by (rule ScheduleForNetwork_schedule)
  show ?thesis
  proof (cases "height < 0 \<or> fees < 0 \<or> coinbase < 0")
    case True
    then show ?thesis by (auto simp: ComputeBlockFacts_def BlockSubsidy_def)
  next
    case False
    let ?s = "subsidy_at sch (nat height)"
    have b: "BlockSubsidy sch height = Inr ?s"
      using BlockSubsidy_eq [OF sch, of "nat height"] False assms(2) by (simp add: i64_defs)
    have s: "0 \<le> ?s" "?s \<le> 10000000000" by (simp_all add: subsidy_at_def era_subsidy_le)
    then have "in_i64 ?s" by (simp add: i64_defs)
    then have c: "checkedAdd ?s fees = (if max_i64 < ?s + fees then None else Some (?s + fees))"
      using False s assms(3) by (simp add: checkedAdd_eq addChecked_exact) (auto simp: i64_defs)
    have "sub64 (?s + fees) coinbase = ?s + fees - coinbase"
      if "coinbase \<le> ?s + fees" "\<not> max_i64 < ?s + fees"
    proof -
      have "in_i64 (?s + fees - coinbase)" using that False unfolding i64_defs by linarith
      then show ?thesis by (simp add: sub64_def wrap64_id)
    qed
    with False b c show ?thesis by (auto simp: ComputeBlockFacts_def Let_def)
  qed
qed

theorem ComputeBlockFacts_exact_witness:
  "ComputeBlockFacts MainnetSchedule ''b'' 7 100 10000000050 =
    Inr \<lparr>BlockHash = ''b'', SubsidySatoshis = 10000000000, FeeSatoshis = 100,
         CoinbaseOutputSatoshis = 10000000050, UnclaimedRewardSatoshis = 50\<rparr>"
  by (subst ComputeBlockFacts_exact [of "''main''"])
    (simp_all add: ScheduleForNetwork_def i64_defs subsidy_at_def era_subsidy_def
      MainnetSchedule_def Let_def)

end
