(* ===== verification/ChainModel.thy ===== *)
theory ChainModel
  imports Script
begin

text \<open>
  \<open>internal/chain\<close>'s block, transaction, input and output types. Unsigned 32-bit
  fields are naturals, \<open>int\<close> and \<open>int64\<close> fields are integers, amounts are
  64-bit words; the difficulty, a display-only float, is carried as its 64 bits. A byte slice
  whose nil-ness the code looks at is an option.
\<close>

record tx_input =
  in_Index :: nat
  in_PreviousOut :: "outpoint option"
  in_Coinbase :: "bytes option"
  in_ScriptSig :: "bytes option"
  in_Sequence :: nat
  in_Witness :: "bytes list"

definition in_IsCoinbase :: "tx_input \<Rightarrow> bool" where
  "in_IsCoinbase i \<longleftrightarrow> in_PreviousOut i = None"

record tx_output =
  out_Index :: nat
  out_Value :: amount
  out_ScriptPubKey :: bytes
  out_ScriptType :: script_type
  out_WitnessVersion :: "nat option"
  out_WitnessProgram :: "bytes option"
  out_PubKeys :: "bytes list"
  out_Address :: string
  out_ParticipantAddresses :: "string list"

record transaction =
  tx_TxID :: string
  tx_WTxID :: string
  tx_Version :: nat
  tx_LockTime :: nat
  tx_Size :: int
  tx_VSize :: int
  tx_Weight :: int
  tx_IsCoinbase :: bool
  tx_Inputs :: "tx_input list"
  tx_Outputs :: "tx_output list"

record block =
  blk_Hash :: string
  blk_Height :: int
  blk_PreviousHash :: string
  blk_MerkleRoot :: string
  blk_Time :: int
  blk_Bits :: string
  blk_Difficulty :: "64 word"
  blk_Nonce :: nat
  blk_Size :: int
  blk_Weight :: int
  blk_TxCount :: int
  blk_Transactions :: "transaction list"

text \<open>\<open>uint32(i)\<close> of a slice position.\<close>

definition uint32_of :: "nat \<Rightarrow> nat" where "uint32_of i = i mod 4294967296"

section \<open>Hexadecimal text\<close>

text \<open>Go's \<open>hex.DecodeString\<close> accepts digits of both cases and rejects odd lengths.\<close>

definition hex_digit :: "char \<Rightarrow> nat option" where
  "hex_digit c =
    (if CHR ''0'' \<le> c \<and> c \<le> CHR ''9'' then Some (of_char c - 48)
     else if CHR ''a'' \<le> c \<and> c \<le> CHR ''f'' then Some (of_char c - 87)
     else if CHR ''A'' \<le> c \<and> c \<le> CHR ''F'' then Some (of_char c - 55)
     else None)"

definition hex_char :: "nat \<Rightarrow> char" where
  "hex_char n = char_of (if n < 10 then 48 + n else 87 + n)"

fun hex_DecodeString :: "string \<Rightarrow> bytes option" where
  "hex_DecodeString [] = Some []"
| "hex_DecodeString [c] = None"
| "hex_DecodeString (c # d # s) =
    (case (hex_digit c, hex_digit d) of
       (Some x, Some y) \<Rightarrow> map_option ((#) (of_nat (16 * x + y))) (hex_DecodeString s)
     | _ \<Rightarrow> None)"

definition hex_EncodeToString :: "bytes \<Rightarrow> string" where
  "hex_EncodeToString b = concat (map (\<lambda>w. [hex_char (unat w div 16), hex_char (unat w mod 16)]) b)"

definition ScriptPubKeyHex :: "tx_output \<Rightarrow> string" where
  "ScriptPubKeyHex o' = hex_EncodeToString (out_ScriptPubKey o')"

lemma hex_digit_char: "n < 16 \<Longrightarrow> hex_digit (hex_char n) = Some n"
proof -
  have "\<forall>n \<in> {..<16}. hex_digit (hex_char n) = Some n"
    by (simp add: lessThan_nat_numeral lessThan_Suc hex_digit_def hex_char_def less_eq_char_def)
  then show "n < 16 \<Longrightarrow> ?thesis" by simp
qed

lemma hex_Decode_Encode: "hex_DecodeString (hex_EncodeToString b) = Some b"
proof (induction b)
  case (Cons w b)
  have u: "unat w < 256" using unsigned_less [of w] by simp
  then have "hex_digit (hex_char (unat w div 16)) = Some (unat w div 16)"
    "hex_digit (hex_char (unat w mod 16)) = Some (unat w mod 16)"
    by (simp_all add: hex_digit_char div_less_iff_less_mult)
  moreover have "(of_nat (16 * (unat w div 16) + unat w mod 16) :: 8 word) = w"
    by simp
  ultimately show ?case using Cons
    by (simp add: hex_EncodeToString_def del: of_nat_add of_nat_mult)
qed (simp add: hex_EncodeToString_def)

lemma hex_EncodeToString_inject: "hex_EncodeToString a = hex_EncodeToString b \<longleftrightarrow> a = b"
  by (metis hex_Decode_Encode option.inject)

end
