(* ===== verification/Decode.thy ===== *)
theory Decode
  imports ChainModel
begin

text \<open>
  \<open>internal/decode\<close>: from the raw RPC records, whose pointers may be nil, to the chain
  model. \<open>AddressResolver\<close> is an interface with a mutable implementation, so decoding
  threads the resolver's state. The JSON that fills the raw records is not under src.
\<close>

section \<open>The raw records of internal/rpc/block.go\<close>

record raw_vin =
  rv_Coinbase :: "string option"
  rv_TxID :: "string option"
  rv_Vout :: "nat option"
  rv_ScriptSig :: "string option option"
  rv_Sequence :: "nat option"
  rv_TxInWitness :: "string list"

record raw_script_pubkey =
  rs_Hex :: "string option"
  rs_Address :: "string option"

record raw_vout =
  ro_Value :: string
  ro_N :: "nat option"
  ro_ScriptPubKey :: "raw_script_pubkey option"

record raw_tx =
  rt_TxID :: "string option"
  rt_Hash :: "string option"
  rt_Version :: "nat option"
  rt_Size :: "int option"
  rt_VSize :: "int option"
  rt_Weight :: "int option"
  rt_LockTime :: "nat option"
  rt_BlockHash :: "string option"
  rt_Vin :: "raw_vin list"
  rt_Vout :: "raw_vout list"

record raw_block =
  rb_Hash :: "string option"
  rb_Height :: "int option"
  rb_PreviousBlockHash :: "string option"
  rb_MerkleRoot :: "string option"
  rb_Time :: "int option"
  rb_Bits :: "string option"
  rb_Difficulty :: "64 word option"
  rb_Nonce :: "nat option"
  rb_Size :: "int option"
  rb_Weight :: "int option"
  rb_NTx :: "int option"
  rb_Tx :: "raw_tx list option"

section \<open>Errors and small checks\<close>

datatype decode_error =
    MissingField string
  | InvalidHash string
  | InvalidBits string
  | InvalidHex string
  | NegativeField string
  | GenesisRelation
  | TxCountMismatch
  | NoInputs | NoOutputs
  | CoinbaseShape
  | ContradictoryInput
  | EmptyCoinbase
  | OutputPosition
  | AmountEmpty | AmountMalformed | AmountNegative | AmountPrecision | AmountOverflow
  | UnexpectedAddress | MissingAddress
  | PubKeyCount
  | NilResolver | ResolverError string | EmptyResolvedAddress

definition require :: "'a option \<Rightarrow> string \<Rightarrow> decode_error + 'a" where
  "require p field = of_option (MissingField field) p"

definition validateHash :: "string \<Rightarrow> string \<Rightarrow> decode_error + unit" where
  "validateHash field s =
    (if length s \<noteq> 64 then Inl (InvalidHash field)
     else if list_all is_lower_hex s then Inr () else Inl (InvalidHash field))"

definition validateBits :: "string \<Rightarrow> decode_error + unit" where
  "validateBits s =
    (if length s \<noteq> 8 then Inl (InvalidBits s)
     else if list_all is_lower_hex s then Inr () else Inl (InvalidBits s))"

lemma validateHash_iff [result_simps]: "validateHash f s = Inr u \<longleftrightarrow> is_hash64 s"
  by (auto simp: validateHash_def is_hash64_def)

section \<open>amount.go\<close>

text \<open>The character loop: digits before and after the single dot.\<close>

fun amount_scan :: "string \<Rightarrow> bool \<Rightarrow> string \<Rightarrow> string \<Rightarrow> (string \<times> string) option" where
  "amount_scan [] seenDot intPart fracPart = Some (intPart, fracPart)"
| "amount_scan (c # s) seenDot intPart fracPart =
    (if is_digit c then
       (if seenDot then amount_scan s seenDot intPart (fracPart @ [c])
        else amount_scan s seenDot (intPart @ [c]) fracPart)
     else if c = CHR ''.'' \<and> \<not> seenDot then amount_scan s True intPart fracPart
     else None)"

text \<open>\<open>strconv.ParseInt(s, 10, 64)\<close> on a string of decimal digits.\<close>

definition ParseInt64 :: "string \<Rightarrow> int option" where
  "ParseInt64 s = (if int (read_nat s) \<le> max_i64 then Some (int (read_nat s)) else None)"

definition DecodeAmount :: "string \<Rightarrow> decode_error + amount" where
  "DecodeAmount s =
    (if s = [] then Inl AmountEmpty
     else let negative = (hd s = CHR ''-'');
              rest = (if negative then tl s else s)
     in if hd s = CHR ''+'' then Inl AmountMalformed
     else if rest = [] then Inl AmountMalformed
     else case amount_scan rest False [] [] of
       None \<Rightarrow> Inl AmountMalformed
     | Some (intPart, fracPart) \<Rightarrow>
       (if intPart = [] \<and> fracPart = [] then Inl AmountMalformed
        else if negative then Inl AmountNegative
        else if 8 < length fracPart then Inl AmountPrecision
        else let ip = (if intPart = [] then ''0'' else intPart);
                 fp = fracPart @ replicate (8 - length fracPart) CHR ''0''
        in (case ParseInt64 (ip @ fp) of
              None \<Rightarrow> Inl AmountOverflow
            | Some satoshis \<Rightarrow> Inr (of_int satoshis))))"

section \<open>Inputs and witnesses\<close>

definition decode_hex :: "string \<Rightarrow> string \<Rightarrow> decode_error + bytes" where
  "decode_hex field s = of_option (InvalidHex field) (hex_DecodeString s)"

definition decodeWitness :: "string list \<Rightarrow> decode_error + bytes list" where
  "decodeWitness hexItems =
    (if length hexItems = 0 then Inr []
     else map_res (decode_hex ''txinwitness'') hexItems)"

definition decodeInput :: "nat \<Rightarrow> raw_vin \<Rightarrow> decode_error + tx_input" where
  "decodeInput index raw =
    rbind (decodeWitness (rv_TxInWitness raw)) (\<lambda>witness.
    case rv_Coinbase raw of
      Some coinbaseHex \<Rightarrow>
        rbind (guard (rv_TxID raw = None) ContradictoryInput) (\<lambda>_.
        rbind (guard (rv_Vout raw = None) ContradictoryInput) (\<lambda>_.
        rbind (guard (rv_ScriptSig raw = None) ContradictoryInput) (\<lambda>_.
        rbind (require (rv_Sequence raw) ''sequence'') (\<lambda>sequence.
        rbind (decode_hex ''coinbase'' coinbaseHex) (\<lambda>coinbaseBytes.
        rbind (guard (length coinbaseBytes \<noteq> 0) EmptyCoinbase) (\<lambda>_.
        Inr \<lparr>in_Index = index, in_PreviousOut = None, in_Coinbase = Some coinbaseBytes,
             in_ScriptSig = None, in_Sequence = sequence, in_Witness = witness\<rparr>))))))
    | None \<Rightarrow>
        rbind (require (rv_TxID raw) ''txid'') (\<lambda>txid.
        rbind (validateHash ''txid'' txid) (\<lambda>_.
        rbind (require (rv_Vout raw) ''vout'') (\<lambda>prevVout.
        rbind (require (rv_ScriptSig raw) ''scriptSig'') (\<lambda>scriptSigObj.
        rbind (require scriptSigObj ''scriptSig.hex'') (\<lambda>scriptSigHex.
        rbind (decode_hex ''scriptSig'' scriptSigHex) (\<lambda>scriptSig.
        rbind (require (rv_Sequence raw) ''sequence'') (\<lambda>sequence.
        Inr \<lparr>in_Index = index, in_PreviousOut = Some (txid, prevVout), in_Coinbase = None,
             in_ScriptSig = Some scriptSig, in_Sequence = sequence, in_Witness = witness\<rparr>))))))))"

section \<open>Outputs\<close>

text \<open>An \<open>AddressResolver\<close>: nil, or a method on a state \<open>'r\<close>.\<close>

type_synonym 'r resolver = "(string \<Rightarrow> ('r, string, string) call) option"

definition resolvePubKey :: "'r resolver \<Rightarrow> bytes \<Rightarrow> ('r, decode_error, string) call" where
  "resolvePubKey resolver pubKey =
    (case resolver of
       None \<Rightarrow> sret (Inl NilResolver)
     | Some resolve \<Rightarrow>
         (\<lambda>r. case resolve (hex_EncodeToString pubKey) r of
            (Inl e, r') \<Rightarrow> (Inl (ResolverError e), r')
          | (Inr addr, r') \<Rightarrow> (if addr = [] then Inl EmptyResolvedAddress else Inr addr, r')))"

definition decodeOutput :: "'r resolver \<Rightarrow> nat \<Rightarrow> raw_vout \<Rightarrow> ('r, decode_error, tx_output) call" where
  "decodeOutput resolver index raw =
    sbind (sret (require (ro_N raw) ''n'')) (\<lambda>n.
    sbind (sret (guard (n = index) OutputPosition)) (\<lambda>_.
    sbind (sret (DecodeAmount (ro_Value raw))) (\<lambda>value.
    sbind (sret (require (ro_ScriptPubKey raw) ''scriptPubKey'')) (\<lambda>spk.
    sbind (sret (require (rs_Hex spk) ''scriptPubKey.hex'')) (\<lambda>scriptHex.
    sbind (sret (decode_hex ''scriptPubKey'' scriptHex)) (\<lambda>rawScript.
    let classified = Classify rawScript;
        addr = rs_Address spk;
        out = \<lparr>out_Index = index, out_Value = value, out_ScriptPubKey = rawScript,
               out_ScriptType = Type classified, out_WitnessVersion = WitnessVersion classified,
               out_WitnessProgram = WitnessProgram classified, out_PubKeys = PubKeys classified,
               out_Address = [], out_ParticipantAddresses = []\<rparr>
    in if Type classified = TypeMultisig then
         sbind (sret (guard (addr = None) UnexpectedAddress)) (\<lambda>_.
         sbind (sret (guard (length (PubKeys classified) \<noteq> 0) PubKeyCount)) (\<lambda>_.
         sbind (smap (resolvePubKey resolver) (PubKeys classified)) (\<lambda>participants.
         sret (Inr (out\<lparr>out_ParticipantAddresses := participants\<rparr>)))))
       else if Type classified = TypeP2PK then
         sbind (sret (guard (addr = None) UnexpectedAddress)) (\<lambda>_.
         sbind (sret (guard (length (PubKeys classified) = 1) PubKeyCount)) (\<lambda>_.
         sbind (resolvePubKey resolver (PubKeys classified ! 0)) (\<lambda>resolved.
         sret (Inr (out\<lparr>out_Address := resolved\<rparr>)))))
       else if Type classified = TypeNullData \<or> Type classified = TypeUnknown then
         sbind (sret (guard (addr = None \<or> addr = Some []) UnexpectedAddress)) (\<lambda>_.
         sret (Inr out))
       else
         sbind (sret (guard (addr \<noteq> None \<and> addr \<noteq> Some []) MissingAddress)) (\<lambda>_.
         sret (Inr (out\<lparr>out_Address := the addr\<rparr>)))))))))"

section \<open>Transactions and blocks\<close>

definition nonneg_field :: "int option \<Rightarrow> string \<Rightarrow> decode_error + int" where
  "nonneg_field p field =
    rbind (require p field) (\<lambda>x. rbind (guard (0 \<le> x) (NegativeField field)) (\<lambda>_. Inr x))"

definition DecodeTransaction :: "'r resolver \<Rightarrow> raw_tx \<Rightarrow> ('r, decode_error, transaction) call" where
  "DecodeTransaction resolver raw =
    sbind (sret (
      rbind (require (rt_TxID raw) ''txid'') (\<lambda>txid.
      rbind (validateHash ''txid'' txid) (\<lambda>_.
      rbind (require (rt_Hash raw) ''hash'') (\<lambda>wtxid.
      rbind (validateHash ''hash'' wtxid) (\<lambda>_.
      rbind (require (rt_Version raw) ''version'') (\<lambda>version.
      rbind (nonneg_field (rt_Size raw) ''size'') (\<lambda>size.
      rbind (nonneg_field (rt_VSize raw) ''vsize'') (\<lambda>vsize.
      rbind (nonneg_field (rt_Weight raw) ''weight'') (\<lambda>weight.
      rbind (require (rt_LockTime raw) ''locktime'') (\<lambda>lockTime.
      rbind (guard (length (rt_Vin raw) \<noteq> 0) NoInputs) (\<lambda>_.
      rbind (guard (length (rt_Vout raw) \<noteq> 0) NoOutputs) (\<lambda>_.
      rbind (map_res (\<lambda>(i, v). decodeInput (uint32_of i) v) (enumerate 0 (rt_Vin raw))) (\<lambda>inputs.
      let coinbaseCount = length (filter (\<lambda>i. in_PreviousOut i = None) inputs);
          isCoinbase = (coinbaseCount = 1)
      in rbind (guard (\<not> 1 < coinbaseCount) CoinbaseShape) (\<lambda>_.
      rbind (guard (\<not> (isCoinbase \<and> length inputs \<noteq> 1)) CoinbaseShape) (\<lambda>_.
      Inr \<lparr>tx_TxID = txid, tx_WTxID = wtxid, tx_Version = version, tx_LockTime = lockTime,
           tx_Size = size, tx_VSize = vsize, tx_Weight = weight, tx_IsCoinbase = isCoinbase,
           tx_Inputs = inputs, tx_Outputs = []\<rparr>)))))))))))))))) (\<lambda>txn.
    sbind (smap (\<lambda>(i, v). decodeOutput resolver (uint32_of i) v) (enumerate 0 (rt_Vout raw)))
      (\<lambda>outputs. sret (Inr (txn\<lparr>tx_Outputs := outputs\<rparr>))))"

definition decodeGenesisRelation :: "int \<Rightarrow> string option \<Rightarrow> decode_error + string" where
  "decodeGenesisRelation height prevHashField =
    (if height = 0 then
       (if prevHashField \<noteq> None then Inl GenesisRelation else Inr [])
     else case prevHashField of
       None \<Rightarrow> Inl GenesisRelation
     | Some p \<Rightarrow> rbind (validateHash ''previousblockhash'' p) (\<lambda>_. Inr p))"

definition DecodeBlock :: "'r resolver \<Rightarrow> raw_block \<Rightarrow> ('r, decode_error, block) call" where
  "DecodeBlock resolver raw =
    sbind (sret (
      rbind (require (rb_Hash raw) ''hash'') (\<lambda>hashStr.
      rbind (validateHash ''hash'' hashStr) (\<lambda>_.
      rbind (nonneg_field (rb_Height raw) ''height'') (\<lambda>height.
      rbind (require (rb_MerkleRoot raw) ''merkleroot'') (\<lambda>merkleRoot.
      rbind (validateHash ''merkleroot'' merkleRoot) (\<lambda>_.
      rbind (decodeGenesisRelation height (rb_PreviousBlockHash raw)) (\<lambda>prevHash.
      rbind (require (rb_Time raw) ''time'') (\<lambda>timeVal.
      rbind (require (rb_Bits raw) ''bits'') (\<lambda>bits.
      rbind (validateBits bits) (\<lambda>_.
      rbind (require (rb_Difficulty raw) ''difficulty'') (\<lambda>difficulty.
      rbind (require (rb_Nonce raw) ''nonce'') (\<lambda>nonce.
      rbind (nonneg_field (rb_Size raw) ''size'') (\<lambda>size.
      rbind (nonneg_field (rb_Weight raw) ''weight'') (\<lambda>weight.
      rbind (require (rb_NTx raw) ''nTx'') (\<lambda>nTx.
      rbind (require (rb_Tx raw) ''tx'') (\<lambda>txs.
      rbind (guard (nTx = int (length txs)) TxCountMismatch) (\<lambda>_.
      Inr (\<lparr>blk_Hash = hashStr, blk_Height = height, blk_PreviousHash = prevHash,
            blk_MerkleRoot = merkleRoot, blk_Time = timeVal, blk_Bits = bits,
            blk_Difficulty = difficulty, blk_Nonce = nonce, blk_Size = size, blk_Weight = weight,
            blk_TxCount = nTx, blk_Transactions = []\<rparr>, txs)))))))))))))))))))
      (\<lambda>(blk, txs).
    sbind (smap (DecodeTransaction resolver) txs) (\<lambda>transactions.
    sret (Inr (blk\<lparr>blk_Transactions := transactions\<rparr>))))"

section \<open>resolver.go: the caching resolver\<close>

text \<open>
  The two RPC methods are parameters that may depend on, and change, a state \<open>'w\<close> of the
  node; \<open>None\<close> is a nil client. The resolver's own state is its cache.
\<close>

record 'w core_rpc =
  GetDescriptorInfo :: "string \<Rightarrow> ('w, string, string) call"
  DeriveAddresses :: "string \<Rightarrow> ('w, string, string list) call"

type_synonym 'w resolver_state = "(string \<rightharpoonup> string) \<times> 'w"

definition pkh_descriptor :: "string \<Rightarrow> string" where
  "pkh_descriptor pubKeyHex = ''pkh('' @ pubKeyHex @ '')''"

definition ResolvePubKeyAddress ::
  "'w core_rpc option \<Rightarrow> string \<Rightarrow> ('w resolver_state, string, string) call" where
  "ResolvePubKeyAddress client pubKeyHex = (\<lambda>(cache, w).
    case client of
      None \<Rightarrow> (Inl ''no RPC client'', (cache, w))
    | Some c \<Rightarrow>
      (case cache pubKeyHex of
         Some addr \<Rightarrow> (Inr addr, (cache, w))
       | None \<Rightarrow>
         (case GetDescriptorInfo c (pkh_descriptor pubKeyHex) w of
            (Inl e, w') \<Rightarrow> (Inl e, (cache, w'))
          | (Inr descriptor, w') \<Rightarrow>
            (if descriptor = [] then (Inl ''empty canonical descriptor'', (cache, w'))
             else case DeriveAddresses c descriptor w' of
               (Inl e, w'') \<Rightarrow> (Inl e, (cache, w''))
             | (Inr addrs, w'') \<Rightarrow>
               (if length addrs \<noteq> 1 then (Inl ''want exactly 1 address'', (cache, w''))
                else let addr = addrs ! 0
                in if addr = [] then (Inl ''empty address'', (cache, w''))
                   else (Inr addr, (cache(pubKeyHex \<mapsto> addr), w'')))))))"

lemma Resolve_cached:
  "cache k = Some a \<Longrightarrow>
    ResolvePubKeyAddress (Some c) k (cache, w) = (Inr a, (cache, w))"
  by (simp add: ResolvePubKeyAddress_def)

lemma Resolve_step:
  assumes "ResolvePubKeyAddress client k (cache, w) = (r, (cache', w'))"
  shows "cache \<subseteq>\<^sub>m cache'"
    "r = Inr a \<Longrightarrow> client \<noteq> None \<and> cache' k = Some a"
    "(\<forall>x \<in> ran cache. x \<noteq> []) \<Longrightarrow> (\<forall>x \<in> ran cache'. x \<noteq> [])"
    "cache' = cache \<or> (\<exists>a. r = Inr a \<and> a \<noteq> [] \<and> cache k = None \<and> cache' = cache(k \<mapsto> a))"
proof -
  show *: "cache' = cache \<or> (\<exists>a. r = Inr a \<and> a \<noteq> [] \<and> cache k = None \<and> cache' = cache(k \<mapsto> a))"
    using assms
    by (auto simp: ResolvePubKeyAddress_def Let_def split: option.splits sum.splits if_splits prod.splits)
  then show "cache \<subseteq>\<^sub>m cache'" by (auto simp: map_le_def)
  show "r = Inr a \<Longrightarrow> client \<noteq> None \<and> cache' k = Some a"
    using assms
    by (auto simp: ResolvePubKeyAddress_def Let_def split: option.splits sum.splits if_splits prod.splits)
  show "(\<forall>x \<in> ran cache. x \<noteq> []) \<Longrightarrow> (\<forall>x \<in> ran cache'. x \<noteq> [])"
    using * by (auto simp: ran_def split: if_splits) blast
qed

section \<open>Amounts: what the decoder accepts\<close>

lemma not_digit_dot [simp]: "\<not> is_digit CHR ''.''"
  and not_digit_minus [simp]: "\<not> is_digit CHR ''-''"
  and not_digit_plus [simp]: "\<not> is_digit CHR ''+''"
  by (simp_all add: is_digit_def less_eq_char_def)

lemma amount_scan_frac:
  "amount_scan s True ip fp = Some (i, f) \<longleftrightarrow> list_all is_digit s \<and> i = ip \<and> f = fp @ s"
  by (induction s arbitrary: fp) auto

lemma amount_scan_iff:
  "amount_scan s False ip fp = Some (i, f) \<longleftrightarrow>
    (\<exists>w. list_all is_digit w \<and> i = ip @ w
      \<and> (s = w \<and> f = fp \<or> (\<exists>t. s = w @ ''.'' @ t \<and> list_all is_digit t \<and> f = fp @ t)))"
proof (induction s arbitrary: ip)
  case (Cons c s)
  show ?case
  proof (cases "is_digit c")
    case True
    then have c: "c \<noteq> CHR ''.''" by auto
    have "(\<exists>w. list_all is_digit w \<and> i = ip @ w \<and> (c # s = w \<and> f = fp
          \<or> (\<exists>t. c # s = w @ ''.'' @ t \<and> list_all is_digit t \<and> f = fp @ t)))
      \<longleftrightarrow> (\<exists>w. list_all is_digit w \<and> i = (ip @ [c]) @ w \<and> (s = w \<and> f = fp
          \<or> (\<exists>t. s = w @ ''.'' @ t \<and> list_all is_digit t \<and> f = fp @ t)))" (is "?L \<longleftrightarrow> ?R")
    proof
      assume ?L
      then obtain w where w: "list_all is_digit w" "i = ip @ w" and
        s: "c # s = w \<and> f = fp \<or> (\<exists>t. c # s = w @ ''.'' @ t \<and> list_all is_digit t \<and> f = fp @ t)"
        by blast
      from s c obtain v where "w = c # v" by (cases w) auto
      with w s show ?R by (intro exI [of _ v]) auto
    next
      assume ?R
      then obtain w where "list_all is_digit w" "i = (ip @ [c]) @ w" "s = w \<and> f = fp
          \<or> (\<exists>t. s = w @ ''.'' @ t \<and> list_all is_digit t \<and> f = fp @ t)"
        by blast
      with True show ?L by (intro exI [of _ "c # w"]) auto
    qed
    with True Cons.IH show ?thesis by simp
  next
    case False
    have "list_all is_digit w \<Longrightarrow> c # s = w @ u \<Longrightarrow> w = [] \<and> u = c # s" for w u
      using False by (cases w) auto
    note d = this
    show ?thesis
    proof (cases "c = CHR ''.''")
      case True
      have "(\<exists>w. list_all is_digit w \<and> i = ip @ w \<and> (c # s = w \<and> f = fp
          \<or> (\<exists>t. c # s = w @ ''.'' @ t \<and> list_all is_digit t \<and> f = fp @ t)))
        \<longleftrightarrow> list_all is_digit s \<and> i = ip \<and> f = fp @ s"
        using True d [of _ "[]"] d by fastforce
      with True show ?thesis by (simp add: amount_scan_frac)
    next
      case dot: False
      have "\<not> (\<exists>w. list_all is_digit w \<and> i = ip @ w \<and> (c # s = w \<and> f = fp
          \<or> (\<exists>t. c # s = w @ ''.'' @ t \<and> list_all is_digit t \<and> f = fp @ t)))"
        using dot d [of _ "[]"] d by fastforce
      with False dot show ?thesis by simp
    qed
  qed
qed auto

text \<open>A decimal text: digits, and optionally a dot and more digits, not all of them missing.\<close>

definition amount_text :: "string \<Rightarrow> string \<Rightarrow> string \<Rightarrow> bool" where
  "amount_text s ip fp \<longleftrightarrow> list_all is_digit ip \<and> list_all is_digit fp \<and> ip @ fp \<noteq> []
    \<and> (s = ip \<and> fp = [] \<or> s = ip @ ''.'' @ fp)"

lemma amount_text_scan:
  assumes "amount_text s ip fp"
  shows "s \<noteq> []" "hd s \<noteq> CHR ''-''" "hd s \<noteq> CHR ''+''" "amount_scan s False [] [] = Some (ip, fp)"
proof -
  show "s \<noteq> []" "hd s \<noteq> CHR ''-''" "hd s \<noteq> CHR ''+''"
    using assms by (cases ip; auto simp: amount_text_def)+
  show "amount_scan s False [] [] = Some (ip, fp)"
    using assms by (auto simp: amount_text_def amount_scan_iff)
qed

lemma read_nat_padded:
  "read_nat ((if ip = [] then ''0'' else ip) @ fp @ replicate k CHR ''0'')
    = read_nat (ip @ fp) * 10 ^ k"
  by (simp add: read_nat_append algebra_simps power_add) (simp add: read_nat_def digit_val_def)
lemma DecodeAmount_text:
  assumes "amount_text s ip fp"
  shows "DecodeAmount s =
    (if 8 < length fp then Inl AmountPrecision
     else if max_i64 < int (read_nat (ip @ fp) * 10 ^ (8 - length fp)) then Inl AmountOverflow
     else Inr (of_nat (read_nat (ip @ fp) * 10 ^ (8 - length fp))))"
  using amount_text_scan [OF assms] assms
  by (auto simp: DecodeAmount_def Let_def ParseInt64_def read_nat_padded amount_text_def
      simp del: append_assoc of_nat_mult of_nat_power)

lemma DecodeAmount_InrD:
  assumes "DecodeAmount s = Inr a"
  shows "\<exists>ip fp. amount_text s ip fp"
proof -
  from assms have h: "s \<noteq> []" "hd s \<noteq> CHR ''+''" "hd s \<noteq> CHR ''-''"
    by (auto simp: DecodeAmount_def Let_def split: if_splits option.splits)
  with assms obtain ip fp where "amount_scan s False [] [] = Some (ip, fp)" "\<not> (ip = [] \<and> fp = [])"
    by (auto simp: DecodeAmount_def Let_def split: if_splits option.splits)
  then show ?thesis
    by (auto simp: amount_scan_iff amount_text_def)
qed

lemma sint_of_nat_small: "int n \<le> max_i64 \<Longrightarrow> sint (of_nat n :: 64 word) = int n"
  using int_word_sint [where 'a = 64, of "int n"] by (simp add: i64_defs)
text \<open>
  C32 Decoding is exact: a text yields amount \<open>a\<close> just when it is a decimal number with at most
  eight fractional digits and \<open>a\<close> is its value in satoshis. Signs, exponents, precision
  beyond a satoshi and values beyond an \<open>int64\<close> never yield an amount. One side of the dot may be
  empty: the code accepts \<open>5.\<close> and \<open>.5\<close>, although its comment asks for an integer part and, after a
  dot, for at least one digit.
\<close>

theorem DecodeAmount_exact:
  "DecodeAmount s = Inr a \<longleftrightarrow>
    (\<exists>ip fp. amount_text s ip fp \<and> length fp \<le> 8
      \<and> sint a = int (read_nat (ip @ fp) * 10 ^ (8 - length fp)))" (is "?L \<longleftrightarrow> ?R")
proof
  assume L: ?L
  then obtain ip fp where t: "amount_text s ip fp" using DecodeAmount_InrD by blast
  with L have "length fp \<le> 8" "int (read_nat (ip @ fp) * 10 ^ (8 - length fp)) \<le> max_i64"
    "a = of_nat (read_nat (ip @ fp) * 10 ^ (8 - length fp))"
    by (simp_all add: DecodeAmount_text not_less split: if_splits)
  with t show ?R using sint_of_nat_small by blast
next
  assume ?R
  then obtain ip fp where t: "amount_text s ip fp" and l: "length fp \<le> 8"
    and v: "sint a = int (read_nat (ip @ fp) * 10 ^ (8 - length fp))" (is "_ = int ?n")
    by blast
  have "int ?n \<le> max_i64" using Satoshis_range [of a] v by (simp add: Satoshis_def i64_defs)
  then have "DecodeAmount s = Inr (of_nat ?n)" using l by (simp add: DecodeAmount_text [OF t])
  moreover have "of_nat ?n = a"
    using arg_cong [OF v, of "of_int :: int \<Rightarrow> amount"] by (simp del: of_nat_mult of_nat_power)
  ultimately show ?L by simp
qed

text \<open>
  C33 Printing and decoding are inverse: every non-negative amount is decoded from its own text,
  and the text of a negative amount is rejected as negative.
\<close>

theorem DecodeAmount_String:
  "DecodeAmount (amount_String a) = (if sint a < 0 then Inl AmountNegative else Inr a)"
proof -
  obtain w f where s: "amount_String a = (if sint a < 0 then ''-'' else []) @ w @ ''.'' @ f"
    and w: "w \<noteq> []" "list_all is_digit w" and f: "list_all is_digit f" "length f = 8"
    and v: "read_nat (w @ f) = nat \<bar>sint a\<bar>"
    using amount_String_shape [of a] by blast
  have t: "amount_text (w @ ''.'' @ f) w f" using w f by (simp add: amount_text_def)
  show ?thesis
  proof (cases "sint a < 0")
    case True
    then show ?thesis using s w amount_text_scan [OF t]
      by (simp add: DecodeAmount_def Let_def)
  next
    case False
    then have "sint a = int (read_nat (w @ f) * 10 ^ (8 - length f))" using v f by simp
    then have "DecodeAmount (w @ ''.'' @ f) = Inr a" using DecodeAmount_exact t f by fastforce
    with False s show ?thesis by simp
  qed
qed

section \<open>Blocks: what a decoded block satisfies\<close>

definition input_ok :: "tx_input \<Rightarrow> bool" where
  "input_ok i \<longleftrightarrow>
    (case in_PreviousOut i of
       None \<Rightarrow> in_Coinbase i \<noteq> None \<and> in_Coinbase i \<noteq> Some [] \<and> in_ScriptSig i = None
     | Some p \<Rightarrow> is_hash64 (fst p) \<and> in_Coinbase i = None \<and> in_ScriptSig i \<noteq> None)"

definition output_class_ok :: "tx_output \<Rightarrow> bool" where
  "output_class_ok o' \<longleftrightarrow>
    (let c = Classify (out_ScriptPubKey o')
     in out_ScriptType o' = Type c \<and> out_WitnessVersion o' = WitnessVersion c
      \<and> out_WitnessProgram o' = WitnessProgram c \<and> out_PubKeys o' = PubKeys c)"

definition output_address_ok :: "tx_output \<Rightarrow> bool" where
  "output_address_ok o' \<longleftrightarrow>
    (if out_ScriptType o' = TypeMultisig then
       out_Address o' = [] \<and> out_PubKeys o' \<noteq> []
       \<and> length (out_ParticipantAddresses o') = length (out_PubKeys o')
       \<and> list_all (\<lambda>p. p \<noteq> []) (out_ParticipantAddresses o')
     else out_ParticipantAddresses o' = []
       \<and> (out_Address o' = [] \<longleftrightarrow> out_ScriptType o' \<in> {TypeNullData, TypeUnknown}))"

definition output_ok :: "tx_output \<Rightarrow> bool" where
  "output_ok o' \<longleftrightarrow> 0 \<le> sint (out_Value o') \<and> output_class_ok o' \<and> output_address_ok o'"

definition tx_ok :: "transaction \<Rightarrow> bool" where
  "tx_ok t \<longleftrightarrow> is_hash64 (tx_TxID t) \<and> is_hash64 (tx_WTxID t)
    \<and> 0 \<le> tx_Size t \<and> 0 \<le> tx_VSize t \<and> 0 \<le> tx_Weight t
    \<and> tx_Inputs t \<noteq> [] \<and> tx_Outputs t \<noteq> []
    \<and> list_all input_ok (tx_Inputs t) \<and> list_all output_ok (tx_Outputs t)
    \<and> map in_Index (tx_Inputs t) = map uint32_of [0..<length (tx_Inputs t)]
    \<and> map out_Index (tx_Outputs t) = map uint32_of [0..<length (tx_Outputs t)]
    \<and> (if tx_IsCoinbase t then length (tx_Inputs t) = 1 \<and> in_IsCoinbase (hd (tx_Inputs t))
       else list_all (\<lambda>i. \<not> in_IsCoinbase i) (tx_Inputs t))"

definition block_ok :: "block \<Rightarrow> bool" where
  "block_ok b \<longleftrightarrow> is_hash64 (blk_Hash b) \<and> is_hash64 (blk_MerkleRoot b) \<and> 0 \<le> blk_Height b
    \<and> (if blk_Height b = 0 then blk_PreviousHash b = [] else is_hash64 (blk_PreviousHash b))
    \<and> 0 \<le> blk_Size b \<and> 0 \<le> blk_Weight b
    \<and> blk_TxCount b = int (length (blk_Transactions b))
    \<and> list_all tx_ok (blk_Transactions b)"

lemma DecodeAmount_nonneg: "DecodeAmount s = Inr a \<Longrightarrow> 0 \<le> sint a"
proof -
  assume L: "DecodeAmount s = Inr a"
  then obtain ip fp where t: "amount_text s ip fp" using DecodeAmount_InrD by blast
  with L have "int (read_nat (ip @ fp) * 10 ^ (8 - length fp)) \<le> max_i64"
    "a = of_nat (read_nat (ip @ fp) * 10 ^ (8 - length fp))"
    by (simp_all add: DecodeAmount_text not_less split: if_splits)
  then show ?thesis by (metis sint_of_nat_small of_nat_0_le_iff)
qed

lemma decodeInput_ok:
  "decodeInput i raw = Inr inp \<Longrightarrow> input_ok inp \<and> in_Index inp = i"
  by (auto simp: decodeInput_def result_simps input_ok_def require_def split: option.splits)

lemma resolvePubKey_nonempty: "resolvePubKey rs k r = (Inr a, r') \<Longrightarrow> a \<noteq> []"
  by (auto simp: resolvePubKey_def sret_def split: option.splits prod.splits sum.splits if_splits)

lemma resolve_all_nonempty:
  assumes "smap (resolvePubKey rs) ks r = (Inr addrs, r')"
  shows "length addrs = length ks \<and> list_all (\<lambda>p. p \<noteq> []) addrs"
proof -
  have "list_all2 (\<lambda>_ a. a \<noteq> []) ks addrs"
    using assms by (rule smap_list_all2) (rule resolvePubKey_nonempty)
  then show ?thesis by (auto simp: list_all2_conv_all_nth list_all_length)
qed

lemma decodeOutput_ok:
  assumes "decodeOutput rs i raw r = (Inr out, r')"
  shows "output_ok out \<and> out_Index out = i"
proof -
  from assms obtain val where
    v: "DecodeAmount (ro_Value raw) = Inr val"
    and c: "out_Index out = i" "out_Value out = val" "output_class_ok out"
    and a: "output_address_ok out"
    by (auto simp: decodeOutput_def result_simps Let_def require_def output_class_ok_def
        output_address_ok_def dest: resolvePubKey_nonempty
        resolve_all_nonempty split: if_splits)
  then show ?thesis by (simp add: output_ok_def DecodeAmount_nonneg)
qed

lemma enumerate_results:
  assumes "list_all2 (\<lambda>(i, x) y. P y \<and> f y = g i) (enumerate 0 xs) ys"
  shows "list_all P ys" "map f ys = map g [0..<length ys]" "length ys = length xs"
proof -
  show l: "length ys = length xs" using list_all2_lengthD [OF assms] by simp
  have n: "P (ys ! i) \<and> f (ys ! i) = g i" if "i < length xs" for i
    using list_all2_nthD [OF assms, of i] that by (simp add: nth_enumerate_eq)
  then show "list_all P ys" by (simp add: list_all_length l)
  show "map f ys = map g [0..<length ys]"
    by (rule nth_equalityI) (simp_all add: l n)
qed
lemma map_res_enumerate:
  assumes "map_res (\<lambda>(i, v). decodeInput (uint32_of i) v) (enumerate 0 vs) = Inr inputs"
  shows "list_all input_ok inputs" "map in_Index inputs = map uint32_of [0..<length inputs]"
    "length inputs = length vs"
proof -
  have "list_all2 (\<lambda>(i, v) inp. input_ok inp \<and> in_Index inp = uint32_of i) (enumerate 0 vs) inputs"
    using assms unfolding map_res_list_all2
    by (rule list_all2_mono) (auto simp: decodeInput_ok)
  then show "list_all input_ok inputs" "map in_Index inputs = map uint32_of [0..<length inputs]"
    "length inputs = length vs" by (rule enumerate_results)+
qed

lemma smap_enumerate:
  assumes "smap (\<lambda>(i, v). decodeOutput rs (uint32_of i) v) (enumerate 0 vs) r = (Inr outs, r')"
  shows "list_all output_ok outs" "map out_Index outs = map uint32_of [0..<length outs]"
    "length outs = length vs"
proof -
  have "list_all2 (\<lambda>(i, v) out. output_ok out \<and> out_Index out = uint32_of i) (enumerate 0 vs) outs"
    using assms by (rule smap_list_all2) (auto dest!: decodeOutput_ok)
  then show "list_all output_ok outs" "map out_Index outs = map uint32_of [0..<length outs]"
    "length outs = length vs" by (rule enumerate_results)+
qed

lemma coinbase_count:
  assumes "\<not> 1 < length (filter P xs)" "length (filter P xs) = 1 \<Longrightarrow> length xs = 1"
  shows "if length (filter P xs) = 1 then length xs = 1 \<and> P (hd xs) else list_all (\<lambda>x. \<not> P x) xs"
proof (cases "length (filter P xs) = 1")
  case True
  then obtain x where "xs = [x]" using assms(2) by (cases xs) auto
  with True show ?thesis by (auto split: if_splits)
next
  case False
  with assms(1) have "filter P xs = []" by (cases "filter P xs") auto
  with False show ?thesis by (auto simp: filter_empty_conv list_all_iff)
qed

lemma DecodeTransaction_ok:
  assumes "DecodeTransaction rs raw r = (Inr t, r')"
  shows "tx_ok t"
proof -
  from assms obtain inputs outs base r1 where
    i: "map_res (\<lambda>(i, v). decodeInput (uint32_of i) v) (enumerate 0 (rt_Vin raw)) = Inr inputs"
    and o: "smap (\<lambda>(i, v). decodeOutput rs (uint32_of i) v) (enumerate 0 (rt_Vout raw)) r1
      = (Inr outs, r')"
    and l: "length (rt_Vin raw) \<noteq> 0" "length (rt_Vout raw) \<noteq> 0"
    and c: "\<not> 1 < length (filter (\<lambda>i. in_PreviousOut i = None) inputs)"
      "length (filter (\<lambda>i. in_PreviousOut i = None) inputs) = 1 \<Longrightarrow> length inputs = 1"
    and h: "is_hash64 (tx_TxID t)" "is_hash64 (tx_WTxID t)"
      "0 \<le> tx_Size t" "0 \<le> tx_VSize t" "0 \<le> tx_Weight t"
      "tx_IsCoinbase t = (length (filter (\<lambda>i. in_PreviousOut i = None) inputs) = 1)"
      "tx_Inputs t = inputs" "tx_Outputs t = outs"
    by (auto simp: DecodeTransaction_def result_simps Let_def require_def nonneg_field_def)
  show ?thesis
    using h l coinbase_count [OF c] map_res_enumerate [OF i] smap_enumerate [OF o]
    by (auto simp: tx_ok_def in_IsCoinbase_def split: if_splits)
qed

text \<open>Every block that \<open>DecodeBlock\<close> returns is well formed, field by field.\<close>

lemma DecodeBlock_ok:
  assumes "DecodeBlock rs raw r = (Inr b, r')"
  shows "block_ok b"
proof -
  from assms obtain txs base txns r1 where
    s: "smap (DecodeTransaction rs) txs r1 = (Inr txns, r')"
    and h: "is_hash64 (blk_Hash b)" "is_hash64 (blk_MerkleRoot b)" "0 \<le> blk_Height b"
      "decodeGenesisRelation (blk_Height b) (rb_PreviousBlockHash raw) = Inr (blk_PreviousHash b)"
      "0 \<le> blk_Size b" "0 \<le> blk_Weight b" "blk_TxCount b = int (length txs)"
      "blk_Transactions b = txns"
    by (auto simp: DecodeBlock_def result_simps Let_def require_def nonneg_field_def)
  have "list_all2 (\<lambda>_ t. tx_ok t) txs txns"
    using s by (rule smap_list_all2) (rule DecodeTransaction_ok)
  then have "list_all tx_ok txns" "length txns = length txs"
    by (auto simp: list_all2_conv_all_nth list_all_length)
  with h show ?thesis
    by (auto simp: block_ok_def decodeGenesisRelation_def result_simps split: if_splits option.splits)
qed

text \<open>A genesis block with one coinbase paying a P2QPK output of 100 QOGE.\<close>

definition example_raw_block :: raw_block where
  "example_raw_block =
    \<lparr>rb_Hash = Some (replicate 64 CHR ''a''), rb_Height = Some 0, rb_PreviousBlockHash = None,
     rb_MerkleRoot = Some (replicate 64 CHR ''b''), rb_Time = Some 1, rb_Bits = Some ''1e0fffff'',
     rb_Difficulty = Some 0, rb_Nonce = Some 7, rb_Size = Some 200, rb_Weight = Some 800,
     rb_NTx = Some 1, rb_Tx = Some [
       \<lparr>rt_TxID = Some (replicate 64 CHR ''c''), rt_Hash = Some (replicate 64 CHR ''c''),
        rt_Version = Some 1, rt_Size = Some 100, rt_VSize = Some 100, rt_Weight = Some 400,
        rt_LockTime = Some 0, rt_BlockHash = None,
        rt_Vin = [\<lparr>rv_Coinbase = Some ''04ff'', rv_TxID = None, rv_Vout = None,
                   rv_ScriptSig = None, rv_Sequence = Some 4294967295, rv_TxInWitness = []\<rparr>],
        rt_Vout = [\<lparr>ro_Value = ''100.00000000'', ro_N = Some 0,
                    ro_ScriptPubKey = Some \<lparr>rs_Hex = Some (hex_EncodeToString (0x52 # 0x20 # replicate 32 0x11)),
                      rs_Address = Some ''addr''\<rparr>\<rparr>]\<rparr>]\<rparr>"

lemma map_res_Inr_simps [simp]:
  "smap f [] = sret (Inr [])" "sbind (sret (Inr x)) k = k x"
  by (simp_all add: sbind_def sret_def fun_eq_iff)

lemma example_decodes:
  "\<exists>b. DecodeBlock None example_raw_block () = (Inr b, ()) \<and> map tx_IsCoinbase (blk_Transactions b) = [True]
    \<and> map out_ScriptType (tx_Outputs (blk_Transactions b ! 0)) = [TypeP2QPK]"
proof -
  have list_all_replicate: "list_all is_lower_hex (replicate 64 CHR ''a'')"
    "list_all is_lower_hex (replicate 64 CHR ''b'')" "list_all is_lower_hex (replicate 64 CHR ''c'')"
    by (simp_all add: list_all_iff is_lower_hex_def less_eq_char_def)
  have c: "Type (Classify (0x52 # 0x20 # replicate 32 0x11)) = TypeP2QPK"
    by (subst Classify_form)
      (simp_all add: script_form_def is_witness_of_def witness_version_byte_def)
  have amt: "DecodeAmount ''100.00000000'' = Inr 10000000000"
    by (subst DecodeAmount_text [of _ "''100''" "''00000000''"])
      (simp_all add: amount_text_def is_digit_def less_eq_char_def read_nat_def digit_val_def max_i64_def)
  define res where "res = DecodeBlock (None :: unit resolver) example_raw_block ()"
  have "case res of (Inr b, u) \<Rightarrow>
      u = () \<and> map tx_IsCoinbase (blk_Transactions b) = [True] \<and> map out_ScriptType (tx_Outputs (blk_Transactions b ! 0)) = [TypeP2QPK]
    | (Inl e, u) \<Rightarrow> False"
    unfolding res_def example_raw_block_def using c list_all_replicate
    by (simp add: amt DecodeBlock_def DecodeTransaction_def decodeInput_def decodeOutput_def
        require_def validateHash_def validateBits_def nonneg_field_def decodeGenesisRelation_def
        decodeWitness_def decode_hex_def hex_Decode_Encode Let_def uint32_of_def
        guard_def of_option_def is_lower_hex_def less_eq_char_def hex_digit_def sbind_def sret_def)
  then obtain b where b: "DecodeBlock None example_raw_block () = (Inr b, ())"
    and t: "map tx_IsCoinbase (blk_Transactions b) = [True]"
      "map out_ScriptType (tx_Outputs (blk_Transactions b ! 0)) = [TypeP2QPK]"
    unfolding res_def [symmetric] by (cases res; cases "fst res") simp_all
  show ?thesis by (rule exI [of _ b], intro conjI) (rule b, rule t(1), rule t(2))
qed

lemma smap_state_invariant:
  assumes "smap f xs s = (r, t)" "P s" "\<And>x s r t. f x s = (r, t) \<Longrightarrow> P s \<Longrightarrow> P t"
  shows "P t"
  using assms(1,2)
proof (induction xs arbitrary: s r)
  case (Cons x xs)
  obtain z u where f: "f x s = (z, u)" by (cases "f x s")
  then have "P u" using assms(3) Cons.prems(2) by blast
  with f Cons show ?case
    by (auto simp: sbind_def sret_def split: sum.splits prod.splits)
qed (simp add: sret_def)

text \<open>
  C34 The resolver's cache: after a key was resolved once, every later call for it gives the same
  address and leaves the node untouched, whatever was resolved in between and whether or not
  those calls failed; so a key costs at most one successful descriptor round trip.
\<close>

theorem resolver_memoizes:
  assumes "ResolvePubKeyAddress client k (cache, w) = (Inr a, s)"
    and "smap (ResolvePubKeyAddress client) ks s = (r, (cache', w'))"
  shows "ResolvePubKeyAddress client k (cache', w') = (Inr a, (cache', w'))"
proof -
  obtain c1 w1 where s: "s = (c1, w1)" by (cases s)
  have c: "client \<noteq> None" "c1 k = Some a"
    using Resolve_step(2) [OF assms(1) [unfolded s] refl] by simp_all
  have "fst (cache', w') k = Some a"
    using assms(2)
  proof (rule smap_state_invariant [where P = "\<lambda>s. fst s k = Some a"])
    show "fst s k = Some a" using c s by simp
    show "fst v k = Some a" if "ResolvePubKeyAddress client x u = (z, v)" "fst u k = Some a"
      for x u z v
    proof -
      have "fst u \<subseteq>\<^sub>m fst v"
        using Resolve_step(1) [of client x "fst u" "snd u" z "fst v" "snd v"] that(1) by simp
      then have "fst u k = fst v k" if "k \<in> dom (fst u)" using that by (simp add: map_le_def)
      with that(2) show ?thesis by (simp add: domI)
    qed
  qed
  with c(1) show ?thesis by (auto simp: Resolve_cached)
qed

definition example_rpc :: "nat core_rpc" where
  "example_rpc = \<lparr>GetDescriptorInfo = (\<lambda>d n. (Inr (d @ ''#x''), Suc n)),
     DeriveAddresses = (\<lambda>d n. (Inr [''Q'' @ d], Suc n))\<rparr>"

theorem resolver_memoizes_witness:
  "ResolvePubKeyAddress (Some example_rpc) ''02''
      (snd (smap (ResolvePubKeyAddress (Some example_rpc)) [''03'', ''02'']
        (snd (ResolvePubKeyAddress (Some example_rpc) ''02'' (Map.empty, 0)))))
    = (Inr ''Qpkh(02)#x'',
       snd (smap (ResolvePubKeyAddress (Some example_rpc)) [''03'', ''02'']
        (snd (ResolvePubKeyAddress (Some example_rpc) ''02'' (Map.empty, 0)))))"
proof -
  let ?s1 = "ResolvePubKeyAddress (Some example_rpc) ''02'' (Map.empty, 0)"
  let ?s2 = "smap (ResolvePubKeyAddress (Some example_rpc)) [''03'', ''02''] (snd ?s1)"
  have "fst ?s1 = Inr ''Qpkh(02)#x''"
    by (simp add: ResolvePubKeyAddress_def example_rpc_def pkh_descriptor_def Let_def)
  then have 1: "?s1 = (Inr ''Qpkh(02)#x'', snd ?s1)" by (simp add: prod_eq_iff)
  have 2: "?s2 = (fst ?s2, (fst (snd ?s2), snd (snd ?s2)))" by simp
  from resolver_memoizes [OF 1 2] show ?thesis by simp
qed

end
