(* ===== verification/Table.thy ===== *)
theory Table
  imports Prelude
begin

text \<open>
  Keyed tables as the SQL statements use them: lookup by primary key, insertion of a fresh key,
  \<open>UPDATE .. WHERE\<close>, \<open>DELETE .. WHERE\<close>, and sums over rows. A table is a list of
  rows in insertion order, so that \<open>SUM\<close> and \<open>COUNT\<close> compute. The locale
  \<open>keyed_table\<close> states what the clients rely on; the list operations interpret it.
\<close>

type_synonym ('k, 'v) table = "('k \<times> 'v) list"

definition tget :: "('k, 'v) table \<Rightarrow> 'k \<Rightarrow> 'v option" where
  "tget t k = map_of t k"

definition tinsert :: "'k \<Rightarrow> 'v \<Rightarrow> ('k, 'v) table \<Rightarrow> ('k, 'v) table" where
  "tinsert k v t = t @ [(k, v)]"

definition tupdate :: "('k \<Rightarrow> 'v \<Rightarrow> bool) \<Rightarrow> ('v \<Rightarrow> 'v) \<Rightarrow> ('k, 'v) table \<Rightarrow> ('k, 'v) table" where
  "tupdate P f t = map (\<lambda>(k, v). (k, if P k v then f v else v)) t"

definition tdelete :: "('k \<Rightarrow> 'v \<Rightarrow> bool) \<Rightarrow> ('k, 'v) table \<Rightarrow> ('k, 'v) table" where
  "tdelete P t = filter (\<lambda>(k, v). \<not> P k v) t"

definition tupsert :: "'k \<Rightarrow> 'v \<Rightarrow> ('k, 'v) table \<Rightarrow> ('k, 'v) table" where
  "tupsert k v t =
    (if tget t k = None then tinsert k v t else tupdate (\<lambda>k' _. k' = k) (\<lambda>_. v) t)"

definition tcount :: "('k \<Rightarrow> 'v \<Rightarrow> bool) \<Rightarrow> ('k, 'v) table \<Rightarrow> int" where
  "tcount P t = int (length (filter (\<lambda>(k, v). P k v) t))"

definition tsum :: "('k \<Rightarrow> 'v \<Rightarrow> int) \<Rightarrow> ('k, 'v) table \<Rightarrow> int" where
  "tsum f t = sum_list (map (\<lambda>(k, v). f k v) t)"

definition twf :: "('k, 'v) table \<Rightarrow> bool" where
  "twf t \<longleftrightarrow> distinct (map fst t)"

section \<open>What a table promises\<close>

locale keyed_table =
  fixes get :: "'t \<Rightarrow> 'k \<Rightarrow> 'v option"
    and ins :: "'k \<Rightarrow> 'v \<Rightarrow> 't \<Rightarrow> 't"
    and upd :: "('k \<Rightarrow> 'v \<Rightarrow> bool) \<Rightarrow> ('v \<Rightarrow> 'v) \<Rightarrow> 't \<Rightarrow> 't"
    and del :: "('k \<Rightarrow> 'v \<Rightarrow> bool) \<Rightarrow> 't \<Rightarrow> 't"
    and total :: "('k \<Rightarrow> 'v \<Rightarrow> int) \<Rightarrow> 't \<Rightarrow> int"
    and wf :: "'t \<Rightarrow> bool"
  assumes get_ins: "wf t \<Longrightarrow> get t k = None \<Longrightarrow> get (ins k v t) k' = (if k' = k then Some v else get t k')"
    and wf_ins: "wf t \<Longrightarrow> get t k = None \<Longrightarrow> wf (ins k v t)"
    and get_upd: "get (upd P f t) k = map_option (\<lambda>v. if P k v then f v else v) (get t k)"
    and wf_upd: "wf t \<Longrightarrow> wf (upd P f t)"
    and get_del: "wf t \<Longrightarrow> get (del P t) k
      = (case get t k of None \<Rightarrow> None | Some v \<Rightarrow> if P k v then None else Some v)"
    and wf_del: "wf t \<Longrightarrow> wf (del P t)"
    and finite_dom: "finite (dom (get t))"
    and total_dom: "wf t \<Longrightarrow> total g t = (\<Sum>k \<in> dom (get t). g k (the (get t k)))"
begin

lemma total_cong:
  assumes "wf t" "\<And>k v. get t k = Some v \<Longrightarrow> g k v = h k v"
  shows "total g t = total h t"
  unfolding total_dom [OF assms(1)] by (rule sum.cong) (auto simp: assms(2))

lemma total_ext:
  assumes "wf t" "wf t'" "\<And>k. get t k = get t' k"
  shows "total g t = total g t'"
proof -
  have "get t = get t'" using assms(3) by (rule ext)
  then show ?thesis by (simp add: total_dom assms(1,2))
qed

lemma total_add: "wf t \<Longrightarrow> total (\<lambda>k v. g k v + h k v) t = total g t + total h t"
  by (simp add: total_dom sum.distrib)

lemma total_nonneg:
  assumes "wf t" "\<And>k v. get t k = Some v \<Longrightarrow> 0 \<le> g k v"
  shows "0 \<le> total g t"
  unfolding total_dom [OF assms(1)] by (rule sum_nonneg) (use assms(2) in fastforce)

lemma total_mono:
  assumes "wf t" "\<And>k v. get t k = Some v \<Longrightarrow> g k v \<le> h k v"
  shows "total g t \<le> total h t"
  unfolding total_dom [OF assms(1)] by (rule sum_mono) (use assms(2) in fastforce)

lemma total_zero: "wf t \<Longrightarrow> (\<And>k v. get t k = Some v \<Longrightarrow> g k v = 0) \<Longrightarrow> total g t = 0"
  by (simp add: total_dom) (rule sum.neutral, fastforce)

lemma dom_ins: "wf t \<Longrightarrow> get t k = None \<Longrightarrow> dom (get (ins k v t)) = insert k (dom (get t))"
  by (auto simp: dom_def get_ins)

lemma total_ins:
  assumes "wf t" "get t k = None"
  shows "total g (ins k v t) = total g t + g k v"
proof -
  have k: "k \<notin> dom (get t)" using assms(2) by auto
  have "total g (ins k v t) = g k v + (\<Sum>k' \<in> dom (get t). g k' (the (get (ins k v t) k')))"
    using k by (simp add: total_dom wf_ins assms dom_ins finite_dom get_ins)
  also have "(\<Sum>k' \<in> dom (get t). g k' (the (get (ins k v t) k'))) = total g t"
    unfolding total_dom [OF assms(1)] by (rule sum.cong) (use k in \<open>auto simp: get_ins assms\<close>)
  finally show ?thesis by simp
qed

lemma total_upd:
  assumes "wf t"
  shows "total g (upd P f t) = total (\<lambda>k v. g k (if P k v then f v else v)) t"
proof -
  have "dom (get (upd P f t)) = dom (get t)" by (auto simp: dom_def get_upd)
  then show ?thesis
    by (simp add: total_dom wf_upd assms) (rule sum.cong, auto simp: get_upd)
qed

lemma total_del:
  assumes "wf t"
  shows "total g (del P t) = total (\<lambda>k v. if P k v then 0 else g k v) t"
proof -
  have "total (\<lambda>k v. if P k v then 0 else g k v) t
    = (\<Sum>k \<in> dom (get (del P t)). if P k (the (get t k)) then 0 else g k (the (get t k)))"
    unfolding total_dom [OF assms]
    by (rule sum.mono_neutral_right)
      (auto simp: finite_dom get_del assms split: option.splits if_splits)
  also have "\<dots> = total g (del P t)"
    unfolding total_dom [OF wf_del [OF assms]]
    by (rule sum.cong) (auto simp: get_del assms split: option.splits if_splits)
  finally show ?thesis by simp
qed

text \<open>The row of one key contributes its own term.\<close>

lemma total_at:
  assumes "wf t" "get t k = Some v"
  shows "total (\<lambda>k' v'. if k' = k then g v' else 0) t = g v"
proof -
  have "total (\<lambda>k' v'. if k' = k then g v' else 0) t
    = (\<Sum>k' \<in> {k}. if k' = k then g (the (get t k')) else 0)"
    unfolding total_dom [OF assms(1)]
    by (rule sum.mono_neutral_right) (auto simp: finite_dom assms(2))
  with assms(2) show ?thesis by simp
qed

lemma total_upd_one:
  assumes "wf t" "get t k = Some v" "P k v" "\<And>k' v'. P k' v' \<Longrightarrow> k' = k"
  shows "total g (upd P f t) = total g t - g k v + g k (f v)"
proof -
  have "total g (upd P f t)
    = total (\<lambda>k' v'. g k' v' + (if k' = k then g k (f v') - g k v' else 0)) t"
    unfolding total_upd [OF assms(1)]
  proof (rule total_cong [OF assms(1)])
    fix k' v' assume "get t k' = Some v'"
    with assms(2,3) show "g k' (if P k' v' then f v' else v')
      = g k' v' + (if k' = k then g k (f v') - g k v' else 0)"
      using assms(4) [of k' v'] by (cases "k' = k") auto
  qed
  then show ?thesis by (simp add: total_add assms(1) total_at [OF assms(1,2)])
qed

end

section \<open>Lists of rows keep the promise\<close>

lemma tget_tinsert:
  "tget t k = None \<Longrightarrow> tget (tinsert k v t) k' = (if k' = k then Some v else tget t k')"
  by (auto simp: tget_def tinsert_def map_add_def split: option.splits)

lemma tget_tupdate: "tget (tupdate P f t) k = map_option (\<lambda>v. if P k v then f v else v) (tget t k)"
  by (induction t) (auto simp: tget_def tupdate_def)

lemma tget_tdelete:
  "twf t \<Longrightarrow> tget (tdelete P t) k
    = (case tget t k of None \<Rightarrow> None | Some v \<Rightarrow> if P k v then None else Some v)"
proof (induction t)
  case (Cons r t)
  obtain k' v where r: "r = (k', v)" by force
  with Cons.prems have "tget t k' = None"
    by (auto simp: twf_def tget_def map_of_eq_None_iff)
  with Cons r show ?case
    by (auto simp: tget_def tdelete_def twf_def split: option.splits)
qed (simp add: tget_def tdelete_def)

lemma twf_simps:
  "twf t \<Longrightarrow> tget t k = None \<Longrightarrow> twf (tinsert k v t)"
  "twf t \<Longrightarrow> twf (tupdate P f t)"
  "twf t \<Longrightarrow> twf (tdelete P t)"
  "twf []"
proof -
  have "map fst (tupdate P f t) = map fst t"
    by (induction t) (auto simp: tupdate_def)
  then show "twf t \<Longrightarrow> twf (tupdate P f t)" by (simp add: twf_def)
  show "twf t \<Longrightarrow> twf (tdelete P t)"
    by (simp add: twf_def tdelete_def distinct_map_filter)
  show "twf t \<Longrightarrow> tget t k = None \<Longrightarrow> twf (tinsert k v t)"
    by (auto simp: twf_def tinsert_def tget_def map_of_eq_None_iff)
  show "twf []" by (simp add: twf_def)
qed

lemma tsum_dom: "twf t \<Longrightarrow> tsum g t = (\<Sum>k \<in> dom (tget t). g k (the (tget t k)))"
proof (induction t)
  case (Cons r t)
  obtain k v where r: "r = (k, v)" by force
  with Cons.prems have n: "tget t k = None" and w: "twf t"
    by (auto simp: twf_def tget_def map_of_eq_None_iff)
  have g: "tget (r # t) = (tget t)(k \<mapsto> v)" by (simp add: tget_def r fun_eq_iff)
  have "(\<Sum>x \<in> dom (tget t). g x (the (((tget t)(k \<mapsto> v)) x))) = tsum g t"
    unfolding Cons.IH [OF w] by (rule sum.cong) (use n in auto)
  have f: "finite (dom (tget t))" by (simp add: tget_def [abs_def] finite_dom_map_of)
  have "tsum g (r # t) = g k v + tsum g t" by (simp add: tsum_def r)
  also have "\<dots> = (\<Sum>x \<in> insert k (dom (tget t)). g x (the (((tget t)(k \<mapsto> v)) x)))"
    using n f by (subst sum.insert) (auto simp flip: \<open>_ = tsum g t\<close>)
  finally show ?case unfolding g by (simp only: dom_fun_upd option.distinct if_False)
qed (simp add: tsum_def tget_def dom_def)

interpretation tab: keyed_table tget tinsert tupdate tdelete tsum twf
proof unfold_locales
  show "finite (dom (tget t))" for t :: "('a, 'b) table"
    by (simp add: tget_def [abs_def] finite_dom_map_of)
qed (rule tget_tinsert tget_tupdate tget_tdelete twf_simps tsum_dom; assumption)+

text \<open>Facts about the list form that the interface does not mention.\<close>

lemma tget_tupsert:
  "tget (tupsert k v t) k' = (if k' = k then Some v else tget t k')"
  by (auto simp: tupsert_def tget_tinsert tget_tupdate option.map_id split: option.splits
      intro!: option.map_ident_strong)

lemma twf_tupsert: "twf t \<Longrightarrow> twf (tupsert k v t)"
  by (simp add: tupsert_def twf_simps)

lemma tcount_tsum: "tcount P t = tsum (\<lambda>k v. if P k v then 1 else 0) t"
  by (induction t) (auto simp: tcount_def tsum_def)

lemma tdelete_tinsert: "tdelete P (tinsert k v t) = (if P k v then tdelete P t else tinsert k v (tdelete P t))"
  by (simp add: tdelete_def tinsert_def)

lemma tdelete_none: "(\<And>k v. (k, v) \<in> set t \<Longrightarrow> \<not> P k v) \<Longrightarrow> tdelete P t = t"
  by (auto simp: tdelete_def filter_id_conv)

lemma tget_in_set: "tget t k = Some v \<Longrightarrow> (k, v) \<in> set t"
  by (simp add: tget_def map_of_SomeD)

lemma in_set_tget: "twf t \<Longrightarrow> (k, v) \<in> set t \<longleftrightarrow> tget t k = Some v"
  by (simp add: twf_def tget_def)

end
