(* ===== verification/StoreSchema.thy ===== *)
theory StoreSchema
  imports Table Accounting ChainModel
begin

text \<open>
  The database that \<open>internal/store\<close> writes (\<open>migrations/*.up.sql\<close>): the rows of
  each table with their \<open>CHECK\<close> constraints, foreign keys and triggers, and the two
  statement patterns of \<open>store.go\<close>, insert-or-verify and exact counts. Timestamps are not
  modelled. A constraint violation is \<open>ErrDatabase\<close>; it aborts the surrounding transaction.
\<close>

section \<open>Errors\<close>

datatype store_error =
    ErrImmutableConflict | ErrMissingPrevout | ErrDoubleSpend | ErrNegativeFee
  | ErrAncestorNotFound | ErrWitnessIdentityMismatch | ErrNonSequentialBlock
  | ErrIncompleteBlock | ErrStoreAmountOverflow | ErrInvalidTransactionShape
  | ErrDistributionInvariant | ErrRollupParentMissing | ErrRollupInvariant
  | ErrNoPreviousOut
  | ErrBlockAccounting acc_error
  | ErrDatabase

section \<open>Rows\<close>

record block_row =
  b_height :: int
  b_prev :: "string option"
  b_merkle :: string
  b_time :: int
  b_bits :: string
  b_difficulty :: "64 word"
  b_nonce :: int
  b_size :: int
  b_weight :: int
  b_tx_count :: int
  b_canonical :: bool

record tx_row =
  t_version :: int
  t_locktime :: int
  t_is_coinbase :: bool
  t_fee :: "int option"

record variant_row =
  v_txid :: string
  v_size :: int
  v_vsize :: int
  v_weight :: int

record bt_row =
  bt_txid :: string
  bt_wtxid :: string

record in_row =
  i_prev :: "outpoint option"
  i_coinbase :: "bytes option"
  i_script_sig :: "bytes option"
  i_sequence :: int

record wit_row =
  w_txid :: string
  w_data :: bytes

record out_row =
  o_value :: int
  o_script :: bytes
  o_type :: script_type
  o_wver :: "nat option"
  o_wprog :: "bytes option"

text \<open>
  The spending columns of \<open>utxo_state\<close> are all set or all null together with
  \<open>spent\<close> (\<open>utxo_state_spent_consistency\<close>), so they are one optional record.
\<close>

record spend =
  s_txid :: string
  s_vin :: nat
  s_block :: string
  s_height :: int

record utxo_row =
  u_block :: string
  u_height :: int
  u_spend :: "spend option"

record addr_row =
  a_received :: int
  a_sent :: int
  a_balance :: int
  a_tx_count :: int
  a_first_seen :: "int option"
  a_last_seen :: "int option"

record acc_row =
  c_subsidy :: int
  c_fee :: int
  c_coinbase :: int
  c_unclaimed :: int

record rollup_row =
  r_excluded :: int
  r_cum_subsidy :: int
  r_cum_fee :: int
  r_cum_coinbase :: int
  r_cum_unclaimed :: int
  r_cum_excluded :: int
  r_cum_utxo :: int

type_synonym checkpoint = "int \<times> string option"

record db =
  sync_state :: checkpoint
  blocks :: "(string, block_row) table"
  transactions :: "(string, tx_row) table"
  transaction_variants :: "(string, variant_row) table"
  block_transactions :: "(string \<times> nat, bt_row) table"
  transaction_inputs :: "(string \<times> nat, in_row) table"
  transaction_input_witness :: "(string \<times> nat \<times> nat, wit_row) table"
  transaction_outputs :: "(outpoint, out_row) table"
  output_addresses :: "(outpoint, string) table"
  output_participants :: "(outpoint \<times> string, bytes) table"
  utxo_state :: "(outpoint, utxo_row) table"
  addresses :: "(string, addr_row) table"
  block_accounting :: "(string, acc_row) table"
  block_supply_rollup :: "(string, rollup_row) table"
  distribution :: "(string, int \<times> int) table"
  distribution_state :: checkpoint

section \<open>Constraints\<close>

definition in_i32 :: "int \<Rightarrow> bool" where
  "in_i32 x \<longleftrightarrow> - 2147483648 \<le> x \<and> x \<le> 2147483647"

abbreviation "fits_int4 n \<equiv> in_i32 (int n)"

definition in_u32 :: "int \<Rightarrow> bool" where
  "in_u32 x \<longleftrightarrow> 0 \<le> x \<and> x \<le> 4294967295"

text \<open>Equality of double precision columns on their bits: zeros are equal, and so are NaNs.\<close>

definition float8_eq :: "64 word \<Rightarrow> 64 word \<Rightarrow> bool" where
  "float8_eq a b \<longleftrightarrow>
    (let mag = (\<lambda>w. w AND 0x7fffffffffffffff); nan = (\<lambda>w. 0x7ff0000000000000 < mag w)
     in a = b \<or> (mag a = 0 \<and> mag b = 0) \<or> (nan a \<and> nan b))"

lemma float8_eq_refl [simp]: "float8_eq a a"
  by (simp add: float8_eq_def Let_def)

definition block_checks :: "string \<Rightarrow> block_row \<Rightarrow> bool" where
  "block_checks hash r \<longleftrightarrow> is_hash64 hash \<and> (b_prev r = None \<or> is_hash64 (the (b_prev r)))
    \<and> is_hash64 (b_merkle r) \<and> 0 \<le> b_height r \<and> in_i64 (b_height r) \<and> 0 \<le> b_size r \<and> 0 \<le> b_weight r \<and> 0 \<le> b_tx_count r
    \<and> in_i32 (b_size r) \<and> in_i32 (b_weight r) \<and> in_i32 (b_tx_count r)
    \<and> in_u32 (b_nonce r)"

definition tx_checks :: "string \<Rightarrow> tx_row \<Rightarrow> bool" where
  "tx_checks txid r \<longleftrightarrow> is_hash64 txid \<and> in_u32 (t_version r) \<and> in_u32 (t_locktime r)
    \<and> (t_fee r = None \<or> 0 \<le> the (t_fee r)) \<and> (t_is_coinbase r \<longrightarrow> t_fee r = None)"

definition variant_checks :: "string \<Rightarrow> variant_row \<Rightarrow> bool" where
  "variant_checks wtxid r \<longleftrightarrow> is_hash64 wtxid \<and> 0 \<le> v_size r \<and> 0 \<le> v_vsize r \<and> 0 \<le> v_weight r
    \<and> in_i32 (v_size r) \<and> in_i32 (v_vsize r) \<and> in_i32 (v_weight r)"

definition input_checks :: "nat \<Rightarrow> in_row \<Rightarrow> bool" where
  "input_checks vin r \<longleftrightarrow> fits_int4 vin \<and> in_u32 (i_sequence r)
    \<and> (case i_prev r of
         None \<Rightarrow> i_coinbase r \<noteq> None
       | Some p \<Rightarrow> i_coinbase r = None \<and> is_hash64 (fst p) \<and> fits_int4 (snd p))"

text \<open>\<open>transaction_outputs_witness_metadata_consistency\<close>.\<close>

definition witness_metadata_ok :: "script_type \<Rightarrow> nat option \<Rightarrow> bytes option \<Rightarrow> bool" where
  "witness_metadata_ok st ver prog =
    (let exact = (\<lambda>v n. ver = Some v \<and> map_option length prog = Some n)
     in case st of
       TypeP2WPKH \<Rightarrow> exact 0 20
     | TypeP2WSH \<Rightarrow> exact 0 32
     | TypeP2TR \<Rightarrow> exact 1 32
     | TypeP2QPK \<Rightarrow> exact 2 32
     | TypeUnknownWitness \<Rightarrow>
         (case (ver, prog) of
            (Some v, Some p) \<Rightarrow> 0 < v \<and> 2 \<le> length p \<and> length p \<le> 40
              \<and> \<not> (v = 1 \<and> length p = 32) \<and> \<not> (v = 2 \<and> length p = 32)
          | _ \<Rightarrow> False)
     | TypeUnknown \<Rightarrow>
         (case (ver, prog) of
            (None, None) \<Rightarrow> True
          | (Some v, Some p) \<Rightarrow> v = 0 \<and> 2 \<le> length p \<and> length p \<le> 40 \<and> length p \<notin> {20, 32}
          | _ \<Rightarrow> False)
     | _ \<Rightarrow> ver = None \<and> prog = None)"

definition output_checks :: "nat \<Rightarrow> out_row \<Rightarrow> bool" where
  "output_checks vout r \<longleftrightarrow> fits_int4 vout \<and> 0 \<le> o_value r
    \<and> (o_wver r = None \<or> the (o_wver r) \<le> 16)
    \<and> witness_metadata_ok (o_type r) (o_wver r) (o_wprog r)"

definition acc_checks :: "acc_row \<Rightarrow> bool" where
  "acc_checks r \<longleftrightarrow> 0 \<le> c_subsidy r \<and> 0 \<le> c_fee r \<and> 0 \<le> c_coinbase r \<and> 0 \<le> c_unclaimed r
    \<and> in_i64 (c_coinbase r + c_unclaimed r) \<and> in_i64 (c_subsidy r + c_fee r)
    \<and> c_coinbase r + c_unclaimed r = c_subsidy r + c_fee r"

definition rollup_checks :: "rollup_row \<Rightarrow> bool" where
  "rollup_checks r \<longleftrightarrow> 0 \<le> r_excluded r \<and> 0 \<le> r_cum_subsidy r \<and> 0 \<le> r_cum_fee r
    \<and> 0 \<le> r_cum_coinbase r \<and> 0 \<le> r_cum_unclaimed r \<and> 0 \<le> r_cum_excluded r \<and> 0 \<le> r_cum_utxo r
    \<and> in_i64 (r_cum_coinbase r + r_cum_unclaimed r) \<and> in_i64 (r_cum_subsidy r + r_cum_fee r)
    \<and> r_cum_coinbase r + r_cum_unclaimed r = r_cum_subsidy r + r_cum_fee r
    \<and> in_i64 (r_cum_utxo r + r_cum_fee r)
    \<and> in_i64 (r_cum_utxo r + r_cum_fee r + r_cum_excluded r)
    \<and> r_cum_utxo r + r_cum_fee r + r_cum_excluded r = r_cum_coinbase r"

text \<open>A row of \<open>block_transactions\<close> with the unique key \<open>(block_hash, txid)\<close>.\<close>

definition has_block_tx :: "db \<Rightarrow> string \<Rightarrow> string \<Rightarrow> bool" where
  "has_block_tx d bh txid \<longleftrightarrow>
    list_ex (\<lambda>(k, r). fst k = bh \<and> bt_txid r = txid) (block_transactions d)"

text \<open>The unique index on the height of canonical blocks.\<close>

definition canonical_at :: "db \<Rightarrow> int \<Rightarrow> bool" where
  "canonical_at d h \<longleftrightarrow> list_ex (\<lambda>(_, r). b_canonical r \<and> b_height r = h) (blocks d)"

text \<open>
  The trigger on the two checkpoint rows: a hash must name a canonical block, whose height
  replaces whatever height the statement gave.
\<close>

definition checkpoint_of :: "db \<Rightarrow> string \<Rightarrow> store_error + checkpoint" where
  "checkpoint_of d hash =
    (case tget (blocks d) hash of
       None \<Rightarrow> Inl ErrDatabase
     | Some r \<Rightarrow> if b_canonical r then Inr (b_height r, Some hash) else Inl ErrDatabase)"

definition set_sync_state :: "string \<Rightarrow> db \<Rightarrow> store_error + db" where
  "set_sync_state hash d = rbind (checkpoint_of d hash) (\<lambda>cp. Inr (d\<lparr>sync_state := cp\<rparr>))"

section \<open>store.go\<close>

definition insertOrVerifyIdempotent ::
  "bool \<Rightarrow> bool \<Rightarrow> 'k \<Rightarrow> 'v \<Rightarrow> ('v \<Rightarrow> bool) \<Rightarrow> ('k, 'v) table \<Rightarrow> store_error + bool \<times> ('k, 'v) table" where
  "insertOrVerifyIdempotent checks refs k v matches t =
    (if \<not> checks then Inl ErrDatabase
     else case tget t k of
       None \<Rightarrow> if refs then Inr (True, tinsert k v t) else Inl ErrDatabase
     | Some old \<Rightarrow> if matches old then Inr (False, t) else Inl ErrImmutableConflict)"

definition verifyExactCount :: "int \<Rightarrow> nat \<Rightarrow> store_error + unit" where
  "verifyExactCount existingCount wantCount =
    guard (existingCount = int wantCount) ErrImmutableConflict"

definition Tip :: "db \<Rightarrow> checkpoint" where "Tip d = sync_state d"

definition CanonicalBlockHash :: "db \<Rightarrow> int \<Rightarrow> string option" where
  "CanonicalBlockHash d height =
    map_option fst (List.find (\<lambda>(_, r). b_height r = height \<and> b_canonical r) (blocks d))"

definition GetUTXO :: "db \<Rightarrow> string \<Rightarrow> nat \<Rightarrow> utxo_row option" where
  "GetUTXO d txid vout = tget (utxo_state d) (txid, vout)"

text \<open>What one insert-or-verify does to its table.\<close>

lemma insertOrVerify_Inr:
  assumes "insertOrVerifyIdempotent c f k v m t = Inr (fresh, t')"
  obtains (fresh) "fresh" "c" "f" "tget t k = None" "t' = tinsert k v t"
    | (existing) old where "\<not> fresh" "c" "tget t k = Some old" "m old" "t' = t"
  using assms by (auto simp: insertOrVerifyIdempotent_def split: option.splits if_splits)

lemma insertOrVerify_le:
  "insertOrVerifyIdempotent c f k v m t = Inr (fresh, t') \<Longrightarrow> twf t \<Longrightarrow>
    twf t' \<and> tget t \<subseteq>\<^sub>m tget t' \<and> tget t' k \<noteq> None"
  by (erule insertOrVerify_Inr)
    (auto simp: map_le_def tget_tinsert twf_simps)

text \<open>Every result of the classifier passes the schema's witness metadata constraint.\<close>

lemma classified_version: "WitnessVersion (Classify s) = Some v \<Longrightarrow> v \<le> 16"
  by (auto simp: Classify_def plain_result_def ParseWitnessProgram_iff split: option.splits if_splits prod.splits)

lemma Classify_metadata_ok:
  "witness_metadata_ok (Type (Classify s)) (WitnessVersion (Classify s)) (WitnessProgram (Classify s))"
proof (cases "ParseWitnessProgram s")
  case (Some wp)
  then have "2 \<le> length (Program wp)" "length (Program wp) \<le> 40" by (simp_all add: ParseWitnessProgram_iff)
  with Some show ?thesis
    by (auto simp: Classify_def plain_result_def witness_metadata_ok_def classify_witness_def Let_def)
next
  case None
  then show ?thesis
    by (auto simp: Classify_def plain_result_def witness_metadata_ok_def Let_def
        split: option.splits prod.splits)
qed

end
