(* ===== verification/StoreApply.thy ===== *)
theory StoreApply
  imports StoreSchema
begin

text \<open>
  \<open>internal/store/apply.go\<close>: \<open>ApplyBlock\<close> without the address, distribution
  and accounting steps that theory \<open>StoreBlock\<close> adds. A transaction that fails leaves the
  database as it was: every step returns the new database or an error.
\<close>

section \<open>validateBlockShape and checkCanonicalContinuity\<close>

definition blen :: "bytes option \<Rightarrow> nat" where
  "blen b = (case b of None \<Rightarrow> 0 | Some x \<Rightarrow> length x)"

definition for_each :: "('a \<Rightarrow> 'e + unit) \<Rightarrow> 'a list \<Rightarrow> 'e + unit" where
  "for_each f xs = fold_res (\<lambda>x _. f x) xs ()"

definition check_input_shape :: "nat \<times> tx_input \<Rightarrow> store_error + unit" where
  "check_input_shape = (\<lambda>(i, inp).
    rbind (guard (in_Index inp = uint32_of i) ErrImmutableConflict) (\<lambda>_.
    if in_PreviousOut inp = None then
      rbind (guard (blen (in_Coinbase inp) \<noteq> 0) ErrInvalidTransactionShape) (\<lambda>_.
      guard (blen (in_ScriptSig inp) = 0) ErrInvalidTransactionShape)
    else guard (blen (in_Coinbase inp) = 0) ErrInvalidTransactionShape))"

definition check_tx_shape :: "nat \<times> transaction \<Rightarrow> store_error + unit" where
  "check_tx_shape = (\<lambda>(idx, txn).
    rbind (guard (length (tx_Inputs txn) \<noteq> 0) ErrInvalidTransactionShape) (\<lambda>_.
    rbind (guard (length (tx_Outputs txn) \<noteq> 0) ErrInvalidTransactionShape) (\<lambda>_.
    rbind (for_each check_input_shape (enumerate 0 (tx_Inputs txn))) (\<lambda>_.
    rbind (for_each (\<lambda>(i, out). guard (out_Index out = uint32_of i) ErrImmutableConflict)
            (enumerate 0 (tx_Outputs txn))) (\<lambda>_.
    let structurallyCoinbase =
          (length (tx_Inputs txn) = 1 \<and> in_PreviousOut (tx_Inputs txn ! 0) = None)
    in rbind (guard (tx_IsCoinbase txn = structurallyCoinbase) ErrInvalidTransactionShape) (\<lambda>_.
    rbind (guard (\<not> (idx = 0 \<and> \<not> tx_IsCoinbase txn)) ErrInvalidTransactionShape) (\<lambda>_.
    guard (\<not> (0 < idx \<and> tx_IsCoinbase txn)) ErrInvalidTransactionShape)))))))"

definition validateBlockShape :: "block \<Rightarrow> store_error + unit" where
  "validateBlockShape block =
    rbind (guard (int (length (blk_Transactions block)) = blk_TxCount block) ErrIncompleteBlock) (\<lambda>_.
    rbind (guard (length (blk_Transactions block) \<noteq> 0) ErrInvalidTransactionShape) (\<lambda>_.
    for_each check_tx_shape (enumerate 0 (blk_Transactions block))))"

definition checkCanonicalContinuity :: "block \<Rightarrow> checkpoint \<Rightarrow> store_error + unit" where
  "checkCanonicalContinuity block checkpoint =
    (case snd checkpoint of
       None \<Rightarrow> Inr ()
     | Some hash \<Rightarrow>
         if blk_Hash block = hash \<and> blk_Height block = fst checkpoint then Inr ()
         else if blk_Height block = add64 (fst checkpoint) 1 \<and> blk_PreviousHash block = hash then Inr ()
         else Inl ErrNonSequentialBlock)"

section \<open>applyBlockHeader\<close>

definition block_row_of :: "block \<Rightarrow> block_row" where
  "block_row_of block =
    \<lparr>b_height = blk_Height block,
     b_prev = (if blk_PreviousHash block \<noteq> [] then Some (blk_PreviousHash block) else None),
     b_merkle = blk_MerkleRoot block, b_time = blk_Time block, b_bits = blk_Bits block,
     b_difficulty = blk_Difficulty block, b_nonce = int (blk_Nonce block),
     b_size = blk_Size block, b_weight = blk_Weight block, b_tx_count = blk_TxCount block,
     b_canonical = True\<rparr>"

definition same_block :: "block_row \<Rightarrow> block_row \<Rightarrow> bool" where
  "same_block r old \<longleftrightarrow> b_height old = b_height r \<and> b_prev old = b_prev r \<and> b_merkle old = b_merkle r
    \<and> b_time old = b_time r \<and> b_bits old = b_bits r \<and> float8_eq (b_difficulty old) (b_difficulty r)
    \<and> b_nonce old = b_nonce r \<and> b_size old = b_size r \<and> b_weight old = b_weight r
    \<and> b_tx_count old = b_tx_count r"

definition applyBlockHeader :: "block \<Rightarrow> db \<Rightarrow> store_error + bool \<times> db" where
  "applyBlockHeader block d =
    (let hash = blk_Hash block; r = block_row_of block in
     rbind (insertOrVerifyIdempotent
        (block_checks hash r)
        ((case b_prev r of None \<Rightarrow> True | Some p \<Rightarrow> p = hash \<or> tget (blocks d) p \<noteq> None)
          \<and> \<not> canonical_at d (b_height r))
        hash r (same_block r) (blocks d)) (\<lambda>(fresh, t).
     if fresh then Inr (True, d\<lparr>blocks := t\<rparr>)
     else case tget t hash of
       None \<Rightarrow> Inl ErrDatabase
     | Some old \<Rightarrow>
         if b_canonical old then Inr (False, d\<lparr>blocks := t\<rparr>)
         else if canonical_at d (b_height old) then Inl ErrDatabase
         else Inr (False, d\<lparr>blocks := tupdate (\<lambda>k _. k = hash) (\<lambda>o'. o'\<lparr>b_canonical := True\<rparr>) t\<rparr>)))"

section \<open>checkPrevout and markSpent\<close>

definition checkPrevout :: "db \<Rightarrow> outpoint \<Rightarrow> string \<Rightarrow> nat \<Rightarrow> store_error + int" where
  "checkPrevout d prev spenderTxid spenderVin =
    rbind (guard (fits_int4 (snd prev)) ErrDatabase) (\<lambda>_.
    case (tget (transaction_outputs d) prev, tget (utxo_state d) prev) of
      (Some o', Some u) \<Rightarrow>
        (case u_spend u of
           None \<Rightarrow> Inr (o_value o')
         | Some s \<Rightarrow> if s_txid s = spenderTxid \<and> s_vin s = spenderVin then Inr (o_value o')
                     else Inl ErrDoubleSpend)
    | _ \<Rightarrow> Inl ErrMissingPrevout)"

text \<open>
  The foreign keys and the trigger that the \<open>UPDATE\<close> of \<open>markSpent\<close> fires: the
  spending input must exist and name this output, the spending transaction must be in the block.
\<close>

definition spend_of :: "db \<Rightarrow> outpoint \<Rightarrow> string \<Rightarrow> nat \<Rightarrow> string \<Rightarrow> spend option" where
  "spend_of d prev txid vin bh =
    (case (tget (transaction_inputs d) (txid, vin), tget (blocks d) bh) of
       (Some i, Some b) \<Rightarrow>
         if i_prev i = Some prev \<and> has_block_tx d bh txid
         then Some \<lparr>s_txid = txid, s_vin = vin, s_block = bh, s_height = b_height b\<rparr> else None
     | _ \<Rightarrow> None)"

definition markSpent :: "outpoint \<Rightarrow> string \<Rightarrow> nat \<Rightarrow> string \<Rightarrow> db \<Rightarrow> store_error + string \<times> db" where
  "markSpent prev spenderTxid spenderVin bh d =
    rbind (guard (fits_int4 (snd prev)) ErrDatabase) (\<lambda>_.
    rbind
      (case tget (utxo_state d) prev of
         None \<Rightarrow> Inl ErrDatabase
       | Some u \<Rightarrow>
         (case u_spend u of
            None \<Rightarrow>
              (case spend_of d prev spenderTxid spenderVin bh of
                 None \<Rightarrow> Inl ErrDatabase
               | Some s \<Rightarrow>
                   Inr (d\<lparr>utxo_state := tupdate (\<lambda>k _. k = prev) (\<lambda>r. r\<lparr>u_spend := Some s\<rparr>)
                                          (utxo_state d)\<rparr>))
          | Some s \<Rightarrow> if s_txid s = spenderTxid \<and> s_vin s = spenderVin then Inr d
                      else Inl ErrDoubleSpend)) (\<lambda>d'.
    Inr ((case tget (output_addresses d') prev of None \<Rightarrow> [] | Some a \<Rightarrow> a), d')))"

section \<open>applyInput\<close>

definition in_row_of :: "tx_input \<Rightarrow> in_row" where
  "in_row_of inp =
    \<lparr>i_prev = in_PreviousOut inp,
     i_coinbase = (if in_PreviousOut inp \<noteq> None then None else in_Coinbase inp),
     i_script_sig = in_ScriptSig inp, i_sequence = int (in_Sequence inp)\<rparr>"

definition apply_witness_item ::
  "string \<Rightarrow> string \<Rightarrow> nat \<Rightarrow> nat \<times> bytes \<Rightarrow> db \<Rightarrow> store_error + db" where
  "apply_witness_item txid wtxid vin = (\<lambda>(itemIndex, item) d.
    rbind (insertOrVerifyIdempotent
      (is_hash64 wtxid \<and> fits_int4 vin \<and> fits_int4 itemIndex)
      ((case tget (transaction_variants d) wtxid of None \<Rightarrow> False | Some v \<Rightarrow> v_txid v = txid)
        \<and> tget (transaction_inputs d) (txid, vin) \<noteq> None)
      (wtxid, vin, itemIndex) \<lparr>w_txid = txid, w_data = item\<rparr>
      (\<lambda>old. w_txid old = txid \<and> w_data old = item)
      (transaction_input_witness d)) (\<lambda>(_, t).
    Inr (d\<lparr>transaction_input_witness := t\<rparr>)))"

definition insert_input :: "string \<Rightarrow> tx_input \<Rightarrow> db \<Rightarrow> store_error + db" where
  "insert_input txid inp d =
    (let r = in_row_of inp in
     rbind (insertOrVerifyIdempotent
       (input_checks (in_Index inp) r) (tget (transactions d) txid \<noteq> None)
       (txid, in_Index inp) r (\<lambda>old. old = r) (transaction_inputs d)) (\<lambda>(_, t).
     Inr (d\<lparr>transaction_inputs := t\<rparr>)))"

definition applyInput :: "string \<Rightarrow> string \<Rightarrow> bool \<Rightarrow> tx_input \<Rightarrow> db \<Rightarrow> store_error + db" where
  "applyInput txid wtxid variantFresh inp d =
    rbind (insert_input txid inp d) (\<lambda>d1.
    rbind (if variantFresh then Inr ()
           else verifyExactCount
             (tcount (\<lambda>k _. fst k = wtxid \<and> fst (snd k) = in_Index inp) (transaction_input_witness d1))
             (length (in_Witness inp))) (\<lambda>_.
    fold_res (apply_witness_item txid wtxid (in_Index inp)) (enumerate 0 (in_Witness inp)) d1))"

section \<open>applyOutput\<close>

definition out_row_of :: "tx_output \<Rightarrow> out_row" where
  "out_row_of out =
    \<lparr>o_value = sint (out_Value out), o_script = out_ScriptPubKey out, o_type = out_ScriptType out,
     o_wver = out_WitnessVersion out, o_wprog = out_WitnessProgram out\<rparr>"

text \<open>The deduplicating loop over \<open>ParticipantAddresses\<close>, with the map as a table.\<close>

fun participants_of ::
  "(string \<times> bytes) list \<Rightarrow> (string, bytes) table \<Rightarrow> store_error + (string, bytes) table" where
  "participants_of [] acc = Inr acc"
| "participants_of ((addr, pubkey) # ps) acc =
    (if addr = [] then Inl ErrImmutableConflict
     else case tget acc addr of
       Some existing \<Rightarrow> if existing \<noteq> pubkey then Inl ErrImmutableConflict else participants_of ps acc
     | None \<Rightarrow> participants_of ps (tinsert addr pubkey acc))"

definition output_type :: "db \<Rightarrow> outpoint \<Rightarrow> script_type option" where
  "output_type d op = map_option o_type (tget (transaction_outputs d) op)"

definition apply_address :: "outpoint \<Rightarrow> bool \<Rightarrow> string \<Rightarrow> db \<Rightarrow> store_error + db" where
  "apply_address op outputFresh addr d =
    (if addr \<noteq> [] then
       rbind (insertOrVerifyIdempotent
         (output_type d op \<noteq> Some TypeMultisig) (tget (transaction_outputs d) op \<noteq> None)
         op addr (\<lambda>old. old = addr) (output_addresses d)) (\<lambda>(_, t).
       Inr (d\<lparr>output_addresses := t\<rparr>))
     else if \<not> outputFresh \<and> tget (output_addresses d) op \<noteq> None then Inl ErrImmutableConflict
     else Inr d)"

definition apply_participant :: "outpoint \<Rightarrow> string \<times> bytes \<Rightarrow> db \<Rightarrow> store_error + db" where
  "apply_participant op = (\<lambda>(addr, pubkey) d.
    rbind (insertOrVerifyIdempotent
      (output_type d op = Some TypeMultisig) (tget (transaction_outputs d) op \<noteq> None)
      (op, addr) pubkey (\<lambda>old. old = pubkey) (output_participants d)) (\<lambda>(_, t).
    Inr (d\<lparr>output_participants := t\<rparr>)))"

definition apply_participants :: "outpoint \<Rightarrow> bool \<Rightarrow> tx_output \<Rightarrow> db \<Rightarrow> store_error + db" where
  "apply_participants op outputFresh out d =
    (if out_ScriptType out \<noteq> TypeMultisig then Inr d
     else rbind (guard (length (out_ParticipantAddresses out) = length (out_PubKeys out))
            ErrImmutableConflict) (\<lambda>_.
     rbind (participants_of (zip (out_ParticipantAddresses out) (out_PubKeys out)) []) (\<lambda>ps.
     rbind (if outputFresh then Inr ()
            else verifyExactCount (tcount (\<lambda>k _. fst k = op) (output_participants d)) (length ps)) (\<lambda>_.
     fold_res (apply_participant op) ps d))))"

definition create_utxo :: "string \<Rightarrow> outpoint \<Rightarrow> db \<Rightarrow> store_error + db" where
  "create_utxo bh op d =
    (case tget (blocks d) bh of
       None \<Rightarrow> Inl ErrDatabase
     | Some b \<Rightarrow>
       rbind (insertOrVerifyIdempotent
         (is_hash64 bh) (tget (transaction_outputs d) op \<noteq> None \<and> has_block_tx d bh (fst op))
         op \<lparr>u_block = bh, u_height = b_height b, u_spend = None\<rparr> (\<lambda>old. u_block old = bh)
         (utxo_state d)) (\<lambda>(_, t).
       Inr (d\<lparr>utxo_state := t\<rparr>)))"

definition insert_output :: "string \<Rightarrow> tx_output \<Rightarrow> db \<Rightarrow> store_error + bool \<times> db" where
  "insert_output txid out d =
    (let r = out_row_of out in
     rbind (insertOrVerifyIdempotent
       (output_checks (out_Index out) r) (tget (transactions d) txid \<noteq> None)
       (txid, out_Index out) r (\<lambda>old. old = r) (transaction_outputs d)) (\<lambda>(outputFresh, t).
     Inr (outputFresh, d\<lparr>transaction_outputs := t\<rparr>)))"

definition applyOutput :: "string \<Rightarrow> string \<Rightarrow> bool \<Rightarrow> tx_output \<Rightarrow> db \<Rightarrow> store_error + string \<times> db" where
  "applyOutput bh txid isGenesis out d =
    (let op = (txid, out_Index out) in
     rbind (insert_output txid out d) (\<lambda>(outputFresh, d0).
     rbind (apply_address op outputFresh (out_Address out) d0) (\<lambda>d1.
     rbind (apply_participants op outputFresh out d1) (\<lambda>d2.
     rbind (if \<not> isGenesis \<and> \<not> IsUnspendable (out_ScriptPubKey out) then create_utxo bh op d2
            else Inr d2) (\<lambda>d3.
     Inr (out_Address out, d3))))))"

section \<open>applyTransaction\<close>

text \<open>Adding a key to the Go map \<open>touched\<close>; the empty address is never added.\<close>

definition touch :: "string \<Rightarrow> string list \<Rightarrow> string list" where
  "touch addr touched = (if addr = [] \<or> addr \<in> set touched then touched else touched @ [addr])"

definition sum_checked :: "store_error \<Rightarrow> int list \<Rightarrow> store_error + int" where
  "sum_checked e vs = fold_res (\<lambda>v s. of_option e (addChecked s v)) vs 0"

definition transaction_fee :: "transaction \<Rightarrow> db \<Rightarrow> store_error + int option" where
  "transaction_fee txn d =
    (if tx_IsCoinbase txn then Inr None
     else
       rbind (fold_res (\<lambda>inp inputSum.
           case in_PreviousOut inp of
             None \<Rightarrow> Inl ErrNoPreviousOut
           | Some p \<Rightarrow>
             rbind (checkPrevout d p (tx_TxID txn) (in_Index inp)) (\<lambda>val.
             of_option ErrStoreAmountOverflow (addChecked inputSum val)))
         (tx_Inputs txn) 0) (\<lambda>inputSum.
       rbind (sum_checked ErrStoreAmountOverflow
           (map (\<lambda>out. Satoshis (out_Value out)) (tx_Outputs txn))) (\<lambda>outputSum.
       let f = sub64 inputSum outputSum in
       if f < 0 then Inl ErrNegativeFee else Inr (Some f))))"

definition insert_transaction :: "transaction \<Rightarrow> int option \<Rightarrow> db \<Rightarrow> store_error + bool \<times> db" where
  "insert_transaction txn fee d =
    (let r = \<lparr>t_version = int (tx_Version txn), t_locktime = int (tx_LockTime txn),
              t_is_coinbase = tx_IsCoinbase txn, t_fee = fee\<rparr> in
     rbind (insertOrVerifyIdempotent (tx_checks (tx_TxID txn) r) True (tx_TxID txn) r
              (\<lambda>old. old = r) (transactions d)) (\<lambda>(fresh, t).
     Inr (fresh, d\<lparr>transactions := t\<rparr>)))"

definition insert_variant :: "transaction \<Rightarrow> db \<Rightarrow> store_error + bool \<times> db" where
  "insert_variant txn d =
    (let r = \<lparr>v_txid = tx_TxID txn, v_size = tx_Size txn, v_vsize = tx_VSize txn,
              v_weight = tx_Weight txn\<rparr> in
     rbind (insertOrVerifyIdempotent (variant_checks (tx_WTxID txn) r)
              (tget (transactions d) (tx_TxID txn) \<noteq> None) (tx_WTxID txn) r
              (\<lambda>old. old = r) (transaction_variants d)) (\<lambda>(fresh, t).
     Inr (fresh, d\<lparr>transaction_variants := t\<rparr>)))"

definition insert_block_transaction :: "string \<Rightarrow> nat \<Rightarrow> transaction \<Rightarrow> db \<Rightarrow> store_error + db" where
  "insert_block_transaction bh txIndex txn d =
    (let r = \<lparr>bt_txid = tx_TxID txn, bt_wtxid = tx_WTxID txn\<rparr> in
     rbind (insertOrVerifyIdempotent
       (is_hash64 (tx_WTxID txn) \<and> fits_int4 txIndex \<and> tget (blocks d) bh \<noteq> None)
       (tget (transactions d) (tx_TxID txn) \<noteq> None \<and> \<not> has_block_tx d bh (tx_TxID txn)
         \<and> (case tget (transaction_variants d) (tx_WTxID txn) of
              None \<Rightarrow> False | Some v \<Rightarrow> v_txid v = tx_TxID txn))
       (bh, txIndex) r (\<lambda>old. old = r) (block_transactions d)) (\<lambda>(_, t).
     Inr (d\<lparr>block_transactions := t\<rparr>)))"

definition verify_children :: "transaction \<Rightarrow> db \<Rightarrow> store_error + unit" where
  "verify_children txn d =
    rbind (verifyExactCount (tcount (\<lambda>k _. fst k = tx_TxID txn) (transaction_inputs d))
      (length (tx_Inputs txn))) (\<lambda>_.
    verifyExactCount (tcount (\<lambda>k _. fst k = tx_TxID txn) (transaction_outputs d))
      (length (tx_Outputs txn)))"

text \<open>The three loops of \<open>applyTransaction\<close> over inputs, outputs and spends.\<close>

definition apply_outputs ::
  "string \<Rightarrow> string \<Rightarrow> bool \<Rightarrow> tx_output list \<Rightarrow> db \<times> string list \<Rightarrow> store_error + db \<times> string list" where
  "apply_outputs bh txid isGenesis outs =
    fold_res (\<lambda>out (d, touched).
      rbind (applyOutput bh txid isGenesis out d) (\<lambda>(addr, d').
      Inr (d', touch addr touched))) outs"

definition mark_inputs ::
  "string \<Rightarrow> string \<Rightarrow> tx_input list \<Rightarrow> db \<times> string list \<Rightarrow> store_error + db \<times> string list" where
  "mark_inputs bh txid inps =
    fold_res (\<lambda>inp (d, touched).
      case in_PreviousOut inp of
        None \<Rightarrow> Inl ErrNoPreviousOut
      | Some p \<Rightarrow>
        rbind (markSpent p txid (in_Index inp) bh d) (\<lambda>(addr, d').
        Inr (d', touch addr touched))) inps"

definition has_witness :: "transaction \<Rightarrow> bool" where
  "has_witness txn \<longleftrightarrow> list_ex (\<lambda>inp. \<not> WitnessStack_IsEmpty (in_Witness inp)) (tx_Inputs txn)"

definition applyTransaction ::
  "string \<Rightarrow> bool \<Rightarrow> nat \<Rightarrow> transaction \<Rightarrow> db \<times> string list \<Rightarrow>
    store_error + int option \<times> db \<times> string list" where
  "applyTransaction bh isGenesis txIndex txn = (\<lambda>(d, touched).
    rbind (guard ((tx_WTxID txn = tx_TxID txn) \<noteq> has_witness txn) ErrWitnessIdentityMismatch) (\<lambda>_.
    rbind (transaction_fee txn d) (\<lambda>fee.
    rbind (insert_transaction txn fee d) (\<lambda>(transactionFresh, d1).
    rbind (insert_variant txn d1) (\<lambda>(variantFresh, d2).
    rbind (insert_block_transaction bh txIndex txn d2) (\<lambda>d3.
    rbind (if transactionFresh then Inr () else verify_children txn d3) (\<lambda>_.
    rbind (fold_res (applyInput (tx_TxID txn) (tx_WTxID txn) variantFresh) (tx_Inputs txn) d3) (\<lambda>d4.
    rbind (apply_outputs bh (tx_TxID txn) isGenesis (tx_Outputs txn) (d4, touched)) (\<lambda>(d5, touched5).
    rbind (if tx_IsCoinbase txn then Inr (d5, touched5)
           else mark_inputs bh (tx_TxID txn) (tx_Inputs txn) (d5, touched5)) (\<lambda>(d6, touched6).
    Inr (fee, d6, touched6)))))))))))"

definition apply_transactions ::
  "string \<Rightarrow> bool \<Rightarrow> transaction list \<Rightarrow> db \<Rightarrow> store_error + int \<times> db \<times> string list" where
  "apply_transactions bh isGenesis txs d =
    fold_res (\<lambda>(i, txn) (feeTotal, d, touched).
      rbind (applyTransaction bh isGenesis i txn (d, touched)) (\<lambda>(fee, d', touched').
      case fee of
        None \<Rightarrow> Inr (feeTotal, d', touched')
      | Some f \<Rightarrow>
        rbind (of_option ErrStoreAmountOverflow (addChecked feeTotal f)) (\<lambda>s.
        Inr (s, d', touched'))))
      (enumerate 0 txs) (0, d, [])"

end
