(* ===== verification/DecodeShape.thy ===== *)
theory DecodeShape
  imports Decode StoreApply
begin

text \<open>
  From the decoder to the store: how the blocks that \<open>DecodeBlock\<close> returns fare in
  \<open>validateBlockShape\<close>, the first check of \<open>ApplyBlock\<close>. Everything the check asks of a single
  transaction holds of a decoded one; the decoder does not ask where the coinbase stands.
\<close>

lemma for_each_guard:
  "for_each (\<lambda>x. guard (P x) e) xs = guard (\<forall>x \<in> set xs. P x) e"
  unfolding for_each_def by (induction xs) (auto simp: guard_def)

lemma for_each_cong: "(\<And>x. x \<in> set xs \<Longrightarrow> f x = g x) \<Longrightarrow> for_each f xs = for_each g xs"
  unfolding for_each_def by (induction xs) (auto split: sum.split simp: rbind_def)

lemma decoded_input_shape:
  assumes "tx_ok t" "(i, inp) \<in> set (enumerate 0 (tx_Inputs t))"
  shows "check_input_shape (i, inp) = Inr ()"
proof -
  from assms(2) have i: "i < length (tx_Inputs t)" "tx_Inputs t ! i = inp" by (auto simp: in_set_enumerate_eq)
  have "map in_Index (tx_Inputs t) ! i = map uint32_of [0..<length (tx_Inputs t)] ! i"
    using assms(1) by (simp only: tx_ok_def)
  moreover have "input_ok inp" using assms(1) i by (auto simp: tx_ok_def list_all_length)
  ultimately show ?thesis
    using i by (auto simp: check_input_shape_def input_ok_def blen_def split: option.splits)
qed

lemma decoded_output_shape:
  assumes "tx_ok t" "(i, out) \<in> set (enumerate 0 (tx_Outputs t))"
  shows "out_Index out = uint32_of i"
proof -
  from assms(2) have i: "i < length (tx_Outputs t)" "tx_Outputs t ! i = out" by (auto simp: in_set_enumerate_eq)
  have "map out_Index (tx_Outputs t) ! i = map uint32_of [0..<length (tx_Outputs t)] ! i"
    using assms(1) by (simp only: tx_ok_def)
  with i show ?thesis by simp
qed

lemma decoded_tx_shape:
  assumes "tx_ok t"
  shows "check_tx_shape (i, t) = guard (tx_IsCoinbase t \<longleftrightarrow> i = 0) ErrInvalidTransactionShape"
proof -
  have ins: "for_each check_input_shape (enumerate 0 (tx_Inputs t)) = Inr ()"
    using for_each_guard [of "\<lambda>_. True" ErrImmutableConflict "enumerate 0 (tx_Inputs t)"]
      for_each_cong [of "enumerate 0 (tx_Inputs t)" check_input_shape "\<lambda>_. Inr ()"] decoded_input_shape [OF assms]
    by auto
  have outs: "for_each (\<lambda>(i, out). guard (out_Index out = uint32_of i) ErrImmutableConflict) (enumerate 0 (tx_Outputs t)) = Inr ()"
    using for_each_guard [of "\<lambda>(i, out). out_Index out = uint32_of i" ErrImmutableConflict "enumerate 0 (tx_Outputs t)"]
      decoded_output_shape [OF assms] by (auto simp: case_prod_unfold)
  have cb: "tx_IsCoinbase t \<longleftrightarrow> length (tx_Inputs t) = 1 \<and> in_PreviousOut (tx_Inputs t ! 0) = None"
    using assms by (cases "tx_Inputs t") (auto simp: tx_ok_def in_IsCoinbase_def split: if_splits)
  have ne: "tx_Inputs t \<noteq> []" "tx_Outputs t \<noteq> []" using assms by (simp_all add: tx_ok_def)
  show ?thesis
    unfolding check_tx_shape_def prod.case ins outs Let_def cb [symmetric]
    using ne by (simp add: guard_def)
qed

text \<open>
  C31 A decoded block is well formed, and the store takes its shape but for the place of the
  coinbase. Well formed: hashes of 64 lowercase digits, non-negative heights and sizes, genesis and
  only genesis without a previous hash, as many transactions as announced, each with inputs and
  outputs at their positions, a coinbase input standing alone, every output classified from its
  own bytes and carrying an address exactly when its type has one. \<open>validateBlockShape\<close> accepts the
  block exactly when it has a transaction and the first one, and no other, is a coinbase, which the
  decoder does not check; all its other checks have passed already.
\<close>

theorem decoded_block_storable:
  assumes "DecodeBlock rs raw r = (Inr b, r')"
  shows "block_ok b \<and> validateBlockShape b =
    (if blk_Transactions b \<noteq> [] \<and> (\<forall>i < length (blk_Transactions b). tx_IsCoinbase (blk_Transactions b ! i) \<longleftrightarrow> i = 0)
     then Inr () else Inl ErrInvalidTransactionShape)"
proof
  show ok: "block_ok b" by (rule DecodeBlock_ok [OF assms])
  have txs: "tx_ok t" if "t \<in> set (blk_Transactions b)" for t
    using ok that by (simp add: block_ok_def list_all_iff)
  have "for_each check_tx_shape (enumerate 0 (blk_Transactions b)) =
      guard (\<forall>(i, t) \<in> set (enumerate 0 (blk_Transactions b)). tx_IsCoinbase t \<longleftrightarrow> i = 0) ErrInvalidTransactionShape"
    unfolding for_each_guard [symmetric]
    by (rule for_each_cong) (auto simp: decoded_tx_shape txs in_set_enumerate_eq)
  moreover have "(\<forall>(i, t) \<in> set (enumerate 0 (blk_Transactions b)). tx_IsCoinbase t \<longleftrightarrow> i = 0) \<longleftrightarrow>
      (\<forall>i < length (blk_Transactions b). tx_IsCoinbase (blk_Transactions b ! i) \<longleftrightarrow> i = 0)"
    by (auto simp: in_set_enumerate_eq)
  moreover have "int (length (blk_Transactions b)) = blk_TxCount b" using ok by (simp add: block_ok_def)
  ultimately show "validateBlockShape b =
    (if blk_Transactions b \<noteq> [] \<and> (\<forall>i < length (blk_Transactions b). tx_IsCoinbase (blk_Transactions b ! i) \<longleftrightarrow> i = 0)
     then Inr () else Inl ErrInvalidTransactionShape)"
    by (simp add: validateBlockShape_def guard_def)
qed

theorem decoded_block_storable_witness:
  "\<exists>b. DecodeBlock None example_raw_block () = (Inr b, ()) \<and> validateBlockShape b = Inr ()"
proof -
  obtain b where b: "DecodeBlock None example_raw_block () = (Inr b, ())"
    and cb: "map tx_IsCoinbase (blk_Transactions b) = [True]"
    by (rule exE [OF example_decodes]) (elim conjE, rule that)
  from cb have one: "blk_Transactions b \<noteq> [] \<and> (\<forall>i < length (blk_Transactions b). tx_IsCoinbase (blk_Transactions b ! i) \<longleftrightarrow> i = 0)"
    by (cases "blk_Transactions b") auto
  have "validateBlockShape b = Inr ()"
    by (rule conjunct2 [OF decoded_block_storable [OF b], unfolded if_P [OF one]])
  then show ?thesis by (intro exI [of _ b] conjI b)
qed

end
