(* ===== verification/Distribution.thy ===== *)
theory Distribution
  imports StoreSchema
begin

text \<open>
  \<open>internal/store/distribution.go\<close> and \<open>recomputeAddress\<close> of
  \<open>apply.go\<close>: an address's cached totals from the UTXO table, the eight balance buckets,
  and the per-block deltas that keep them.
\<close>

section \<open>recomputeAddress\<close>

text \<open>The join of the statement's \<open>addr_utxos\<close>: value and spend state of each coin.\<close>

definition addr_utxos :: "db \<Rightarrow> string \<Rightarrow> (outpoint \<times> int \<times> utxo_row) list" where
  "addr_utxos d address =
    concat (map (\<lambda>(op, a).
      if a \<noteq> address then []
      else case (tget (transaction_outputs d) op, tget (utxo_state d) op) of
        (Some o', Some u) \<Rightarrow> [(op, o_value o', u)]
      | _ \<Rightarrow> []) (output_addresses d))"

definition spent_ids :: "utxo_row \<Rightarrow> string list" where
  "spent_ids u = (case u_spend u of None \<Rightarrow> [] | Some s \<Rightarrow> [s_txid s])"

definition activity_height :: "utxo_row \<Rightarrow> int" where
  "activity_height u =
    max (u_height u) (case u_spend u of None \<Rightarrow> u_height u | Some s \<Rightarrow> s_height s)"

definition min_option :: "int list \<Rightarrow> int option" where
  "min_option xs = (if xs = [] then None else Some (foldl min (hd xs) (tl xs)))"

definition max_option :: "int list \<Rightarrow> int option" where
  "max_option xs = (if xs = [] then None else Some (foldl max (hd xs) (tl xs)))"

definition address_totals :: "db \<Rightarrow> string \<Rightarrow> addr_row" where
  "address_totals d address =
    (let us = addr_utxos d address;
         val = (\<lambda>(op, v, u). v); row = (\<lambda>(op, v, u). u);
         spent = (\<lambda>x. u_spend (row x) \<noteq> None)
     in \<lparr>a_received = sum_list (map val us),
         a_sent = sum_list (map val (filter spent us)),
         a_balance = sum_list (map val (filter (\<lambda>x. \<not> spent x) us)),
         a_tx_count = int (length (remdups
            (concat (map (\<lambda>(op, v, u). fst op # spent_ids u) us)))),
         a_first_seen = min_option (map (u_height \<circ> row) us),
         a_last_seen = max_option (map (activity_height \<circ> row) us)\<rparr>)"

text \<open>
  The sums are exact in SQL and are scanned into \<open>int64\<close>; the count goes to a
  four-byte column.
\<close>

definition recomputeAddress :: "string \<Rightarrow> db \<Rightarrow> store_error + int \<times> db" where
  "recomputeAddress address d =
    (let r = address_totals d address in
     rbind (guard (in_i64 (a_received r) \<and> in_i64 (a_sent r) \<and> in_i64 (a_balance r)) ErrDatabase) (\<lambda>_.
     if a_tx_count r = 0 then
       Inr (0, d\<lparr>addresses := tdelete (\<lambda>k _. k = address) (addresses d)\<rparr>)
     else
       rbind (guard (0 \<le> a_received r \<and> 0 \<le> a_sent r \<and> in_i32 (a_tx_count r)) ErrDatabase) (\<lambda>_.
       Inr (a_balance r, d\<lparr>addresses := tupsert address r (addresses d)\<rparr>))))"

section \<open>Buckets\<close>

record bucket =
  bk_id :: string
  bk_min :: int
  bk_max :: "int option"

abbreviation (input) "SatoshisPerQOGE_int \<equiv> 100000000 :: int"

definition boundedBucket :: "string \<Rightarrow> int \<Rightarrow> int \<Rightarrow> bucket" where
  "boundedBucket i lo hi = \<lparr>bk_id = i, bk_min = lo, bk_max = Some hi\<rparr>"

definition distributionBuckets :: "bucket list" where
  "distributionBuckets = [
    boundedBucket ''lt_1'' 1 (1 * SatoshisPerQOGE_int - 1),
    boundedBucket ''1_10'' (1 * SatoshisPerQOGE_int) (10 * SatoshisPerQOGE_int - 1),
    boundedBucket ''10_100'' (10 * SatoshisPerQOGE_int) (100 * SatoshisPerQOGE_int - 1),
    boundedBucket ''100_1k'' (100 * SatoshisPerQOGE_int) (1000 * SatoshisPerQOGE_int - 1),
    boundedBucket ''1k_10k'' (1000 * SatoshisPerQOGE_int) (10000 * SatoshisPerQOGE_int - 1),
    boundedBucket ''10k_100k'' (10000 * SatoshisPerQOGE_int) (100000 * SatoshisPerQOGE_int - 1),
    boundedBucket ''100k_1m'' (100000 * SatoshisPerQOGE_int) (1000000 * SatoshisPerQOGE_int - 1),
    \<lparr>bk_id = ''gte_1m'', bk_min = 1000000 * SatoshisPerQOGE_int, bk_max = None\<rparr>]"

definition DistributionBucketIDs :: "string list" where
  "DistributionBucketIDs = map bk_id distributionBuckets"

fun bucket_search :: "bucket list \<Rightarrow> int \<Rightarrow> string option" where
  "bucket_search [] balance = None"
| "bucket_search (b # bs) balance =
    (if balance < bk_min b then None
     else case bk_max b of
       None \<Rightarrow> Some (bk_id b)
     | Some m \<Rightarrow> if balance \<le> m then Some (bk_id b) else bucket_search bs balance)"

definition bucketForBalance :: "int \<Rightarrow> string option" where
  "bucketForBalance balanceSatoshis =
    (if balanceSatoshis \<le> 0 then None else bucket_search distributionBuckets balanceSatoshis)"

section \<open>Deltas\<close>

text \<open>The two Go maps of a \<open>distributionDelta\<close>; a missing key reads as zero.\<close>

record distribution_delta =
  dl_count :: "string \<Rightarrow> int"
  dl_balance :: "string \<Rightarrow> int"

definition newDistributionDelta :: distribution_delta where
  "newDistributionDelta = \<lparr>dl_count = (\<lambda>_. 0), dl_balance = (\<lambda>_. 0)\<rparr>"

definition delta_add :: "string \<Rightarrow> int \<Rightarrow> int \<Rightarrow> distribution_delta \<Rightarrow> distribution_delta" where
  "delta_add b dc db' \<delta> =
    \<delta>\<lparr>dl_count := (dl_count \<delta>)(b := add64 (dl_count \<delta> b) dc),
      dl_balance := (dl_balance \<delta>)(b := add64 (dl_balance \<delta> b) db')\<rparr>"

definition observe :: "int \<Rightarrow> int \<Rightarrow> distribution_delta \<Rightarrow> distribution_delta" where
  "observe oldBalance newBalance \<delta> =
    (let \<delta>1 = (case bucketForBalance oldBalance of
                 None \<Rightarrow> \<delta> | Some b \<Rightarrow> delta_add b (- 1) (- oldBalance) \<delta>)
     in case bucketForBalance newBalance of
          None \<Rightarrow> \<delta>1 | Some b \<Rightarrow> delta_add b 1 newBalance \<delta>1)"

definition bucketsTouched :: "distribution_delta \<Rightarrow> string list" where
  "bucketsTouched \<delta> =
    filter (\<lambda>b. dl_count \<delta> b \<noteq> 0 \<or> dl_balance \<delta> b \<noteq> 0) DistributionBucketIDs"

definition currentAddressBalance :: "db \<Rightarrow> string \<Rightarrow> int" where
  "currentAddressBalance d address =
    (case tget (addresses d) address of None \<Rightarrow> 0 | Some r \<Rightarrow> a_balance r)"

definition recomputeAddressTracked ::
  "string \<Rightarrow> db \<times> distribution_delta \<Rightarrow> store_error + db \<times> distribution_delta" where
  "recomputeAddressTracked address = (\<lambda>(d, \<delta>).
    let oldBalance = currentAddressBalance d address in
    rbind (recomputeAddress address d) (\<lambda>(newBalance, d').
    Inr (d', observe oldBalance newBalance \<delta>)))"

definition apply_bucket_delta :: "distribution_delta \<Rightarrow> string \<Rightarrow> db \<Rightarrow> store_error + db" where
  "apply_bucket_delta \<delta> bucketID d =
    (case tget (distribution d) bucketID of
       None \<Rightarrow> Inl ErrDatabase
     | Some (curCount, curBalance) \<Rightarrow>
       let newCount = add64 curCount (dl_count \<delta> bucketID);
           newBalance = add64 curBalance (dl_balance \<delta> bucketID)
       in if newCount < 0 \<or> newBalance < 0 then Inl ErrDistributionInvariant
          else Inr (d\<lparr>distribution :=
                 tupdate (\<lambda>k _. k = bucketID) (\<lambda>_. (newCount, newBalance)) (distribution d)\<rparr>))"

definition applyDistributionDeltas :: "distribution_delta \<Rightarrow> db \<Rightarrow> store_error + db" where
  "applyDistributionDeltas \<delta> d = fold_res (apply_bucket_delta \<delta>) (bucketsTouched \<delta>) d"

definition setDistributionAnchor :: "string \<Rightarrow> db \<Rightarrow> store_error + db" where
  "setDistributionAnchor hash d =
    rbind (checkpoint_of d hash) (\<lambda>cp. Inr (d\<lparr>distribution_state := cp\<rparr>))"

end
