(* ===== verification/StoreBlock.thy ===== *)
theory StoreBlock
  imports StoreApply Distribution
begin

text \<open>
  \<open>ApplyBlock\<close> as a whole, with \<open>accounting.go\<close> and \<open>supply_rollup.go\<close>,
  and \<open>RollbackTo\<close> of \<open>reorg.go\<close>.
\<close>

section \<open>The store\<close>

text \<open>
  A \<open>Store\<close> is bound to a subsidy schedule. Go ranges over the map of touched addresses
  in an order of its own choosing; \<open>mapOrder\<close> is that choice.
\<close>

record store =
  accountingSchedule :: schedule
  mapOrder :: "string list \<Rightarrow> string list"

definition New :: "(string list \<Rightarrow> string list) \<Rightarrow> store" where
  "New ord = \<lparr>accountingSchedule = MainnetSchedule, mapOrder = ord\<rparr>"

definition NewForNetwork :: "(string list \<Rightarrow> string list) \<Rightarrow> string \<Rightarrow> acc_error + store" where
  "NewForNetwork ord network =
    rbind (ScheduleForNetwork network) (\<lambda>sch. Inr \<lparr>accountingSchedule = sch, mapOrder = ord\<rparr>)"

section \<open>accounting.go\<close>

definition sumOutputValues :: "tx_output list \<Rightarrow> int option" where
  "sumOutputValues outputs =
    (case sum_checked ErrStoreAmountOverflow (map (\<lambda>o'. Satoshis (out_Value o')) outputs) of
       Inl _ \<Rightarrow> None | Inr s \<Rightarrow> Some s)"

definition acc_row_of :: "block_facts \<Rightarrow> acc_row" where
  "acc_row_of f = \<lparr>c_subsidy = SubsidySatoshis f, c_fee = FeeSatoshis f,
     c_coinbase = CoinbaseOutputSatoshis f, c_unclaimed = UnclaimedRewardSatoshis f\<rparr>"

definition insert_accounting :: "block_facts \<Rightarrow> db \<Rightarrow> store_error + db" where
  "insert_accounting f d =
    rbind (insertOrVerifyIdempotent (acc_checks (acc_row_of f)) (tget (blocks d) (BlockHash f) \<noteq> None)
      (BlockHash f) (acc_row_of f) (\<lambda>old. old = acc_row_of f) (block_accounting d)) (\<lambda>(_, t).
    Inr (d\<lparr>block_accounting := t\<rparr>))"

definition applyBlockAccounting :: "schedule \<Rightarrow> block \<Rightarrow> int \<Rightarrow> db \<Rightarrow> store_error + block_facts \<times> db" where
  "applyBlockAccounting sch block blockFeeTotal d =
    rbind (of_option ErrStoreAmountOverflow (sumOutputValues (tx_Outputs (blk_Transactions block ! 0))))
      (\<lambda>coinbaseOutputTotal.
    rbind (map_err ErrBlockAccounting
        (ComputeBlockFacts sch (blk_Hash block) (blk_Height block) blockFeeTotal coinbaseOutputTotal))
      (\<lambda>facts.
    rbind (insert_accounting facts d) (\<lambda>d'.
    Inr (facts, d'))))"

section \<open>supply\_rollup.go\<close>

definition output_excluded :: "bool \<Rightarrow> tx_output \<Rightarrow> bool" where
  "output_excluded isGenesis out \<longleftrightarrow> isGenesis \<or> IsUnspendable (out_ScriptPubKey out)"

definition localExcludedOutputValue :: "block \<Rightarrow> store_error + int" where
  "localExcludedOutputValue block =
    fold_res (\<lambda>txn tot.
      fold_res (\<lambda>out tot.
        if \<not> output_excluded (blk_Height block = 0) out then Inr tot
        else of_option ErrStoreAmountOverflow (addChecked tot (Satoshis (out_Value out))))
        (tx_Outputs txn) tot)
      (blk_Transactions block) 0"

definition zero_rollup :: rollup_row where
  "zero_rollup = \<lparr>r_excluded = 0, r_cum_subsidy = 0, r_cum_fee = 0, r_cum_coinbase = 0,
     r_cum_unclaimed = 0, r_cum_excluded = 0, r_cum_utxo = 0\<rparr>"

definition genesisRollupExists :: "db \<Rightarrow> bool" where
  "genesisRollupExists d \<longleftrightarrow>
    list_ex (\<lambda>(h, _). case tget (blocks d) h of
        None \<Rightarrow> False | Some b \<Rightarrow> b_height b = 0 \<and> b_canonical b) (block_supply_rollup d)"

text \<open>The checked arithmetic on the parent's row.\<close>

definition next_rollup :: "rollup_row \<Rightarrow> block_facts \<Rightarrow> int \<Rightarrow> store_error + rollup_row" where
  "next_rollup parent facts excluded =
    (let add = (\<lambda>a b. of_option ErrStoreAmountOverflow (addChecked a b));
         sub = (\<lambda>a b. of_option ErrStoreAmountOverflow (subChecked a b)) in
     rbind (add (r_cum_subsidy parent) (SubsidySatoshis facts)) (\<lambda>cumSubsidy.
     rbind (add (r_cum_fee parent) (FeeSatoshis facts)) (\<lambda>cumFee.
     rbind (add (r_cum_coinbase parent) (CoinbaseOutputSatoshis facts)) (\<lambda>cumCoinbase.
     rbind (add (r_cum_unclaimed parent) (UnclaimedRewardSatoshis facts)) (\<lambda>cumUnclaimed.
     rbind (add (r_cum_excluded parent) excluded) (\<lambda>cumExcluded.
     rbind (sub cumCoinbase cumFee) (\<lambda>x.
     rbind (sub x cumExcluded) (\<lambda>cumUTXO.
     if cumUTXO < 0 then Inl ErrRollupInvariant
     else Inr \<lparr>r_excluded = excluded, r_cum_subsidy = cumSubsidy, r_cum_fee = cumFee,
               r_cum_coinbase = cumCoinbase, r_cum_unclaimed = cumUnclaimed,
               r_cum_excluded = cumExcluded, r_cum_utxo = cumUTXO\<rparr>))))))))"

text \<open>The parent's row, or \<open>None\<close> when this chain keeps no rollup.\<close>

definition rollup_parent :: "block \<Rightarrow> checkpoint \<Rightarrow> db \<Rightarrow> store_error + rollup_row option" where
  "rollup_parent block checkpointBefore d =
    (if blk_Height block = 0 then Inr (Some zero_rollup)
     else case tget (block_supply_rollup d) (blk_PreviousHash block) of
       Some p \<Rightarrow> Inr (Some p)
     | None \<Rightarrow>
         if snd checkpointBefore = None then Inr None
         else if \<not> genesisRollupExists d then Inr None
         else Inl ErrRollupParentMissing)"

definition applySupplyRollup :: "block \<Rightarrow> checkpoint \<Rightarrow> block_facts \<Rightarrow> db \<Rightarrow> store_error + db" where
  "applySupplyRollup block checkpointBefore facts d =
    rbind (rollup_parent block checkpointBefore d) (\<lambda>parent.
    case parent of
      None \<Rightarrow> Inr d
    | Some p \<Rightarrow>
      rbind (localExcludedOutputValue block) (\<lambda>excluded.
      rbind (next_rollup p facts excluded) (\<lambda>r.
      rbind (insertOrVerifyIdempotent (rollup_checks r) (tget (blocks d) (blk_Hash block) \<noteq> None)
        (blk_Hash block) r (\<lambda>old. old = r) (block_supply_rollup d)) (\<lambda>(_, t).
      Inr (d\<lparr>block_supply_rollup := t\<rparr>)))))"

section \<open>ApplyBlock\<close>

definition update_touched :: "store \<Rightarrow> string list \<Rightarrow> string \<Rightarrow> db \<Rightarrow> store_error + db" where
  "update_touched s touched anchor d =
    rbind (fold_res recomputeAddressTracked (mapOrder s touched) (d, newDistributionDelta)) (\<lambda>(d1, \<delta>).
    rbind (applyDistributionDeltas \<delta> d1) (\<lambda>d2.
    setDistributionAnchor anchor d2))"

definition ApplyBlock :: "store \<Rightarrow> block \<Rightarrow> db \<Rightarrow> store_error + db" where
  "ApplyBlock s block d =
    (let checkpoint = sync_state d; hash = blk_Hash block in
     rbind (validateBlockShape block) (\<lambda>_.
     rbind (checkCanonicalContinuity block checkpoint) (\<lambda>_.
     rbind (applyBlockHeader block d) (\<lambda>(blockFresh, d1).
     rbind (if blockFresh then Inr ()
            else verifyExactCount (tcount (\<lambda>k _. fst k = hash) (block_transactions d1))
                   (length (blk_Transactions block))) (\<lambda>_.
     rbind (apply_transactions hash (blk_Height block = 0) (blk_Transactions block) d1)
       (\<lambda>(blockFeeTotal, d2, touched).
     rbind (update_touched s touched hash d2) (\<lambda>d3.
     rbind (applyBlockAccounting (accountingSchedule s) block blockFeeTotal d3) (\<lambda>(facts, d4).
     rbind (applySupplyRollup block checkpoint facts d4) (\<lambda>d5.
     set_sync_state hash d5)))))))))"

section \<open>RollbackTo\<close>

definition touch_all :: "outpoint list \<Rightarrow> db \<Rightarrow> string list \<Rightarrow> string list" where
  "touch_all ops d touched =
    fold (\<lambda>op t. case tget (output_addresses d) op of None \<Rightarrow> t | Some a \<Rightarrow> touch a t) ops touched"

definition orphan_hashes :: "db \<Rightarrow> int \<Rightarrow> string list" where
  "orphan_hashes d ancestorHeight =
    map fst (filter (\<lambda>(_, r). ancestorHeight < b_height r \<and> b_canonical r) (blocks d))"

text \<open>The three statements of the rollback; the \<open>RETURNING\<close> keys name the touched addresses.\<close>

definition spent_in :: "string list \<Rightarrow> utxo_row \<Rightarrow> bool" where
  "spent_in hs u \<longleftrightarrow> (case u_spend u of None \<Rightarrow> False | Some s \<Rightarrow> s_block s \<in> set hs)"

definition rollback_utxos :: "string list \<Rightarrow> db \<Rightarrow> db \<times> string list" where
  "rollback_utxos hs d =
    (let removed = map fst (filter (\<lambda>(_, u). u_block u \<in> set hs) (utxo_state d));
         d1 = d\<lparr>utxo_state := tdelete (\<lambda>_ u. u_block u \<in> set hs) (utxo_state d)\<rparr>;
         t1 = touch_all removed d [];
         restored = map fst (filter (\<lambda>(_, u). spent_in hs u) (utxo_state d1));
         d2 = d1\<lparr>utxo_state := tupdate (\<lambda>_ u. spent_in hs u) (\<lambda>u. u\<lparr>u_spend := None\<rparr>) (utxo_state d1)\<rparr>;
         t2 = touch_all restored d1 t1;
         d3 = d2\<lparr>blocks := tupdate (\<lambda>k _. k \<in> set hs) (\<lambda>r. r\<lparr>b_canonical := False\<rparr>) (blocks d2)\<rparr>
     in (d3, t2))"

definition RollbackTo :: "store \<Rightarrow> string \<Rightarrow> db \<Rightarrow> store_error + db" where
  "RollbackTo s ancestorHash d =
    (case tget (blocks d) ancestorHash of
       None \<Rightarrow> Inl ErrAncestorNotFound
     | Some a \<Rightarrow>
       if \<not> b_canonical a then Inl ErrAncestorNotFound
       else let orphans = orphan_hashes d (b_height a);
                (d1, touched) = (if 0 < length orphans then rollback_utxos orphans d else (d, []))
       in rbind (update_touched s touched ancestorHash d1) (\<lambda>d2.
          set_sync_state ancestorHash d2))"

section \<open>The database after the migrations, and runs of operations\<close>

definition init_db :: db where
  "init_db =
    \<lparr>sync_state = (- 1, None), blocks = [], transactions = [], transaction_variants = [],
     block_transactions = [], transaction_inputs = [], transaction_input_witness = [],
     transaction_outputs = [], output_addresses = [], output_participants = [], utxo_state = [],
     addresses = [], block_accounting = [], block_supply_rollup = [],
     distribution = map (\<lambda>b. (b, (0, 0))) DistributionBucketIDs, distribution_state = (- 1, None)\<rparr>"

datatype operation = Apply block | Rollback string

text \<open>A failed operation aborts its transaction and leaves the database unchanged.\<close>

definition attempt :: "store \<Rightarrow> operation \<Rightarrow> db \<Rightarrow> store_error + db" where
  "attempt s op d = (case op of Apply b \<Rightarrow> ApplyBlock s b d | Rollback h \<Rightarrow> RollbackTo s h d)"

definition run_step :: "store \<Rightarrow> operation \<Rightarrow> db \<Rightarrow> db" where
  "run_step s op d = (case attempt s op d of Inl _ \<Rightarrow> d | Inr d' \<Rightarrow> d')"

primrec run :: "store \<Rightarrow> operation list \<Rightarrow> db \<Rightarrow> db" where
  "run s [] d = d"
| "run s (op # ops) d = run s ops (run_step s op d)"

end
