(* ===== verification/StoreSteps.thy ===== *)
theory StoreSteps
  imports StoreBlock
begin

text \<open>
  What one statement keeps, every operation keeps: the locales take a reflexive and transitive
  relation between databases that each elementary write satisfies, and conclude that the loops,
  \<open>ApplyBlock\<close> and \<open>RollbackTo\<close> satisfy it. Each invariant of the later
  theories is an interpretation.
\<close>

section \<open>The parts of a successful operation\<close>

lemma applyOutputE:
  assumes "applyOutput bh txid g out d = Inr (addr, e)"
  obtains fresh d0 d1 d2 where "insert_output txid out d = Inr (fresh, d0)"
    "apply_address (txid, out_Index out) fresh (out_Address out) d0 = Inr d1"
    "apply_participants (txid, out_Index out) fresh out d1 = Inr d2"
    "(if \<not> g \<and> \<not> IsUnspendable (out_ScriptPubKey out) then create_utxo bh (txid, out_Index out) d2
      else Inr d2) = Inr e"
    "addr = out_Address out"
  using assms unfolding applyOutput_def Let_def
  by (clarsimp simp: result_simps split del: if_split)

lemma applyTransactionE:
  assumes "applyTransaction bh g i txn (d, T) = Inr (fee, e, T')"
  obtains f1 d1 f2 d2 d3 d4 d5 T5 where
    "(tx_WTxID txn = tx_TxID txn) \<noteq> has_witness txn"
    "transaction_fee txn d = Inr fee"
    "insert_transaction txn fee d = Inr (f1, d1)"
    "insert_variant txn d1 = Inr (f2, d2)"
    "insert_block_transaction bh i txn d2 = Inr d3"
    "(if f1 then Inr () else verify_children txn d3) = Inr ()"
    "fold_res (applyInput (tx_TxID txn) (tx_WTxID txn) f2) (tx_Inputs txn) d3 = Inr d4"
    "apply_outputs bh (tx_TxID txn) g (tx_Outputs txn) (d4, T) = Inr (d5, T5)"
    "(if tx_IsCoinbase txn then Inr (d5, T5)
      else mark_inputs bh (tx_TxID txn) (tx_Inputs txn) (d5, T5)) = Inr (e, T')"
  using assms unfolding applyTransaction_def prod.case
  by (clarsimp simp: result_simps split del: if_split)

lemma ApplyBlockE:
  assumes "ApplyBlock s b d = Inr e"
  obtains f1 d1 fees d2 T d3 facts d4 d5 where
    "validateBlockShape b = Inr ()" "checkCanonicalContinuity b (sync_state d) = Inr ()"
    "applyBlockHeader b d = Inr (f1, d1)"
    "(if f1 then Inr () else verifyExactCount (tcount (\<lambda>k _. fst k = blk_Hash b)
      (block_transactions d1)) (length (blk_Transactions b))) = Inr ()"
    "apply_transactions (blk_Hash b) (blk_Height b = 0) (blk_Transactions b) d1 = Inr (fees, d2, T)"
    "update_touched s T (blk_Hash b) d2 = Inr d3"
    "applyBlockAccounting (accountingSchedule s) b fees d3 = Inr (facts, d4)"
    "applySupplyRollup b (sync_state d) facts d4 = Inr d5"
    "set_sync_state (blk_Hash b) d5 = Inr e"
  using assms unfolding ApplyBlock_def Let_def
  by (clarsimp simp: result_simps split del: if_split)

lemma RollbackToE:
  assumes "RollbackTo s h d = Inr e"
  obtains a d1 T d2 where "tget (blocks d) h = Some a" "b_canonical a"
    "(if 0 < length (orphan_hashes d (b_height a)) then rollback_utxos (orphan_hashes d (b_height a)) d
      else (d, [])) = (d1, T)"
    "update_touched s T h d1 = Inr d2" "set_sync_state h d2 = Inr e"
  using assms unfolding RollbackTo_def Let_def
  by (clarsimp simp: result_simps split: option.splits if_splits prod.splits)

lemma update_touchedE:
  assumes "update_touched s T h d = Inr e"
  obtains d1 \<delta> d2 where
    "fold_res recomputeAddressTracked (mapOrder s T) (d, newDistributionDelta) = Inr (d1, \<delta>)"
    "applyDistributionDeltas \<delta> d1 = Inr d2" "setDistributionAnchor h d2 = Inr e"
  using assms unfolding update_touched_def
  by (clarsimp simp: result_simps)

section \<open>The writes of one transaction of a block\<close>

locale tx_steps =
  fixes bh :: string and R :: "db \<Rightarrow> db \<Rightarrow> bool"
  assumes refl: "R d d"
    and trans: "R d e \<Longrightarrow> R e f \<Longrightarrow> R d f"
    and transaction: "insert_transaction txn fee d = Inr (fresh, e) \<Longrightarrow> R d e"
    and variant: "insert_variant txn d = Inr (fresh, e) \<Longrightarrow> R d e"
    and block_tx: "insert_block_transaction bh i txn d = Inr e \<Longrightarrow> R d e"
    and inrow: "insert_input txid inp d = Inr e \<Longrightarrow> R d e"
    and witness: "apply_witness_item txid wtxid vin item d = Inr e \<Longrightarrow> R d e"
    and outrow: "insert_output txid out d = Inr (fresh, e) \<Longrightarrow> R d e"
    and address: "apply_address op fresh addr d = Inr e \<Longrightarrow> R d e"
    and participant: "apply_participant op p d = Inr e \<Longrightarrow> R d e"
    and utxo: "create_utxo bh op d = Inr e \<Longrightarrow> R d e"
    and spent: "markSpent prev txid vin bh d = Inr (addr, e) \<Longrightarrow> R d e"
begin

lemma loop: "fold_res f xs d = Inr e \<Longrightarrow> (\<And>x d e. f x d = Inr e \<Longrightarrow> R d e) \<Longrightarrow> R d e"
  by (rule fold_res_relation [of f xs]) (auto intro: refl trans)

lemma applyInput: "applyInput txid wtxid vf inp d = Inr e \<Longrightarrow> R d e"
  unfolding applyInput_def rbind_eq_Inr_iff
  by (elim exE conjE, rule trans, erule inrow, erule loop, erule witness)

lemma participants: "apply_participants op fresh out d = Inr e \<Longrightarrow> R d e"
  by (auto simp: apply_participants_def result_simps refl split: if_splits
      intro: loop [where f = "apply_participant op"] participant)

lemma applyOutput: "applyOutput bh txid g out d = Inr (addr, e) \<Longrightarrow> R d e"
  by (erule applyOutputE)
    (auto split: if_splits dest!: outrow address participants utxo intro: trans)

lemma apply_outputs: "apply_outputs bh txid g outs (d, T) = Inr (e, T') \<Longrightarrow> R d e"
proof -
  assume "apply_outputs bh txid g outs (d, T) = Inr (e, T')"
  then have "R (fst (d, T)) (fst (e, T'))"
    unfolding apply_outputs_def
    by (rule fold_res_relation [where R = "\<lambda>x y. R (fst x) (fst y)"])
      (use refl trans in \<open>auto simp: result_simps dest: applyOutput\<close>)
  then show ?thesis by simp
qed

lemma mark_inputs: "mark_inputs bh txid inps (d, T) = Inr (e, T') \<Longrightarrow> R d e"
proof -
  assume "mark_inputs bh txid inps (d, T) = Inr (e, T')"
  then have "R (fst (d, T)) (fst (e, T'))"
    unfolding mark_inputs_def
    by (rule fold_res_relation [where R = "\<lambda>x y. R (fst x) (fst y)"])
      (use refl trans in \<open>auto simp: result_simps dest: spent split: option.splits\<close>)
  then show ?thesis by simp
qed

lemma applyTransaction:
  assumes "applyTransaction bh g i txn (d, T) = Inr (fee, e, T')"
  shows "R d e"
  using assms
proof (rule applyTransactionE)
  fix f1 d1 f2 d2 d3 d4 d5 T5
  assume "insert_transaction txn fee d = Inr (f1, d1)" "insert_variant txn d1 = Inr (f2, d2)"
    "insert_block_transaction bh i txn d2 = Inr d3"
    and l: "fold_res (applyInput (tx_TxID txn) (tx_WTxID txn) f2) (tx_Inputs txn) d3 = Inr d4"
    and o: "apply_outputs bh (tx_TxID txn) g (tx_Outputs txn) (d4, T) = Inr (d5, T5)"
    and m: "(if tx_IsCoinbase txn then Inr (d5, T5)
      else mark_inputs bh (tx_TxID txn) (tx_Inputs txn) (d5, T5)) = Inr (e, T')"
  then have "R d d1" "R d1 d2" "R d2 d3" using transaction variant block_tx by blast+
  moreover have "R d3 d4" using l by (rule loop) (rule applyInput)
  moreover have "R d4 d5" using o by (rule apply_outputs)
  moreover have "R d5 e" using m refl mark_inputs by (auto split: if_splits)
  ultimately show "R d e" using trans by metis
qed

lemma apply_transactions:
  assumes "apply_transactions bh g txs d = Inr (fees, e, T)"
  shows "R d e"
proof -
  have "R (fst (snd ((0::int), d, []::string list))) (fst (snd (fees, e, T)))"
    using assms unfolding apply_transactions_def
    by (rule fold_res_relation [where R = "\<lambda>x y. R (fst (snd x)) (fst (snd y))"])
      (auto simp: result_simps refl split: option.splits dest!: applyTransaction intro: trans)
  then show ?thesis by simp
qed

end

section \<open>The writes of the whole store\<close>

locale store_steps =
  fixes R :: "db \<Rightarrow> db \<Rightarrow> bool"
  assumes refl: "R d d"
    and trans: "R d e \<Longrightarrow> R e f \<Longrightarrow> R d f"
    and header: "applyBlockHeader b d = Inr (fresh, e) \<Longrightarrow> R d e"
    and transactions: "apply_transactions bh g txs d = Inr (fees, e, T) \<Longrightarrow> R d e"
    and recompute: "recomputeAddress a d = Inr (bal, e) \<Longrightarrow> R d e"
    and bucket: "apply_bucket_delta \<delta> k d = Inr e \<Longrightarrow> R d e"
    and anchor: "setDistributionAnchor h d = Inr e \<Longrightarrow> R d e"
    and accounting: "insert_accounting facts d = Inr e \<Longrightarrow> R d e"
    and rollup: "applySupplyRollup b cp facts d = Inr e \<Longrightarrow> R d e"
    and sync: "set_sync_state h d = Inr e \<Longrightarrow> R d e"
    and rollback: "rollback_utxos hs d = (e, T) \<Longrightarrow> R d e"
begin

lemma update_touched:
  assumes "update_touched s T h d = Inr e"
  shows "R d e"
  using assms
proof (rule update_touchedE)
  fix d1 \<delta> d2
  assume r: "fold_res recomputeAddressTracked (mapOrder s T) (d, newDistributionDelta) = Inr (d1, \<delta>)"
    and a: "applyDistributionDeltas \<delta> d1 = Inr d2" "setDistributionAnchor h d2 = Inr e"
  have "R (fst (d, newDistributionDelta)) (fst (d1, \<delta>))"
    using r by (rule fold_res_relation [where R = "\<lambda>x y. R (fst x) (fst y)"])
      (auto simp: recomputeAddressTracked_def Let_def result_simps intro: refl trans recompute)
  moreover have "R d1 d2"
    using a(1) unfolding applyDistributionDeltas_def
    by (rule fold_res_relation) (auto intro: refl trans bucket)
  ultimately show "R d e" using anchor [OF a(2)] trans by (metis fst_conv)
qed

lemma ApplyBlock:
  assumes "ApplyBlock s b d = Inr e"
  shows "R d e"
  using assms
proof (rule ApplyBlockE)
  fix f1 d1 fees d2 T d3 facts d4 d5
  assume "applyBlockHeader b d = Inr (f1, d1)"
    "apply_transactions (blk_Hash b) (blk_Height b = 0) (blk_Transactions b) d1 = Inr (fees, d2, T)"
    "update_touched s T (blk_Hash b) d2 = Inr d3"
    and a: "applyBlockAccounting (accountingSchedule s) b fees d3 = Inr (facts, d4)"
    and "applySupplyRollup b (sync_state d) facts d4 = Inr d5" "set_sync_state (blk_Hash b) d5 = Inr e"
  then have "R d d1" "R d1 d2" "R d2 d3" "R d4 d5" "R d5 e"
    by (simp_all add: header transactions update_touched rollup sync)
  moreover have "R d3 d4" using a
    by (auto simp: applyBlockAccounting_def result_simps intro: accounting)
  ultimately show "R d e" using trans by metis
qed

lemma RollbackTo:
  assumes "RollbackTo s h d = Inr e"
  shows "R d e"
  using assms
proof (rule RollbackToE)
  fix a d1 T d2
  assume r: "(if 0 < length (orphan_hashes d (b_height a))
      then rollback_utxos (orphan_hashes d (b_height a)) d else (d, [])) = (d1, T)"
    and u: "update_touched s T h d1 = Inr d2" "set_sync_state h d2 = Inr e"
  have "R d d1" using r by (auto split: if_splits intro: refl rollback)
  then show "R d e" using update_touched [OF u(1)] sync [OF u(2)] trans by metis
qed

lemma attempt: "attempt s op d = Inr e \<Longrightarrow> R d e"
  by (cases op) (auto simp: attempt_def ApplyBlock RollbackTo)

lemma run_step: "R d (run_step s op d)"
  by (auto simp: run_step_def refl attempt split: sum.splits)

lemma run: "R d (run s ops d)"
  by (induction ops arbitrary: d) (auto simp: refl intro: trans run_step)

end

section \<open>Invariants over runs\<close>

text \<open>
  An invariant of a store holds initially and is kept by each operation that succeeds under the
  assumption \<open>ok\<close> about its input; then it holds after every run whose operations meet \<open>ok\<close>.
\<close>

primrec all_ok :: "(operation \<Rightarrow> db \<Rightarrow> bool) \<Rightarrow> store \<Rightarrow> operation list \<Rightarrow> db \<Rightarrow> bool" where
  "all_ok ok s [] d \<longleftrightarrow> True"
| "all_ok ok s (op # ops) d \<longleftrightarrow> ok op d \<and> all_ok ok s ops (run_step s op d)"

locale store_invariant =
  fixes s :: store and ok :: "operation \<Rightarrow> db \<Rightarrow> bool" and Inv :: "db \<Rightarrow> bool"
  assumes start: "Inv init_db"
    and step: "Inv d \<Longrightarrow> ok op d \<Longrightarrow> attempt s op d = Inr e \<Longrightarrow> Inv e"
begin

lemma step_inv: "Inv d \<Longrightarrow> ok op d \<Longrightarrow> Inv (run_step s op d)"
  by (auto simp: run_step_def step split: sum.splits)

lemma run_inv: "Inv d \<Longrightarrow> all_ok ok s ops d \<Longrightarrow> Inv (run s ops d)"
  by (induction ops arbitrary: d) (auto intro: step_inv)

lemma reachable: "all_ok ok s ops init_db \<Longrightarrow> Inv (run s ops init_db)"
  by (rule run_inv [OF start])

end

lemma all_ok_True [simp]: "all_ok (\<lambda>_ _. True) s ops d"
  by (induction ops arbitrary: d) simp_all

lemma all_ok_const: "all_ok (\<lambda>_ _. P) s ops d \<longleftrightarrow> ops = [] \<or> P"
  by (induction ops arbitrary: d) auto

lemma run_append: "run s (ops @ ops') d = run s ops' (run s ops d)"
  by (induction ops arbitrary: d) simp_all

end
