(* ===== verification/StoreImmutable.thy ===== *)
theory StoreImmutable
  imports StoreSteps
begin

text \<open>
  Immutable history: no operation removes or changes a row of the audit tables, and every table
  keeps one row per key. Only the canonical flag of a block may change.
\<close>

definition db_wf :: "db \<Rightarrow> bool" where
  "db_wf d \<longleftrightarrow> twf (blocks d) \<and> twf (transactions d) \<and> twf (transaction_variants d)
    \<and> twf (block_transactions d) \<and> twf (transaction_inputs d) \<and> twf (transaction_input_witness d)
    \<and> twf (transaction_outputs d) \<and> twf (output_addresses d) \<and> twf (output_participants d)
    \<and> twf (utxo_state d) \<and> twf (addresses d) \<and> twf (block_accounting d)
    \<and> twf (block_supply_rollup d) \<and> twf (distribution d)"

definition same_modulo_canonical :: "block_row \<Rightarrow> block_row \<Rightarrow> bool" where
  "same_modulo_canonical r r' \<longleftrightarrow> r'\<lparr>b_canonical := b_canonical r\<rparr> = r"

definition rows_kept :: "db \<Rightarrow> db \<Rightarrow> bool" where
  "rows_kept d e \<longleftrightarrow>
    (\<forall>h r. tget (blocks d) h = Some r \<longrightarrow>
       (\<exists>r'. tget (blocks e) h = Some r' \<and> same_modulo_canonical r r'))
    \<and> tget (transactions d) \<subseteq>\<^sub>m tget (transactions e)
    \<and> tget (transaction_variants d) \<subseteq>\<^sub>m tget (transaction_variants e)
    \<and> tget (block_transactions d) \<subseteq>\<^sub>m tget (block_transactions e)
    \<and> tget (transaction_inputs d) \<subseteq>\<^sub>m tget (transaction_inputs e)
    \<and> tget (transaction_input_witness d) \<subseteq>\<^sub>m tget (transaction_input_witness e)
    \<and> tget (transaction_outputs d) \<subseteq>\<^sub>m tget (transaction_outputs e)
    \<and> tget (output_addresses d) \<subseteq>\<^sub>m tget (output_addresses e)
    \<and> tget (output_participants d) \<subseteq>\<^sub>m tget (output_participants e)
    \<and> tget (block_accounting d) \<subseteq>\<^sub>m tget (block_accounting e)
    \<and> tget (block_supply_rollup d) \<subseteq>\<^sub>m tget (block_supply_rollup e)"

definition keeps :: "db \<Rightarrow> db \<Rightarrow> bool" where
  "keeps d e \<longleftrightarrow> (db_wf d \<longrightarrow> db_wf e \<and> rows_kept d e)"

lemma same_modulo_simps [simp]:
  "same_modulo_canonical r r"
  "same_modulo_canonical r (r\<lparr>b_canonical := c\<rparr>)"
  by (simp_all add: same_modulo_canonical_def)

lemma same_modulo_trans:
  "same_modulo_canonical r s \<Longrightarrow> same_modulo_canonical s t \<Longrightarrow> same_modulo_canonical r t"
  by (cases r; cases s; cases t) (auto simp: same_modulo_canonical_def)

lemma rows_kept_refl: "rows_kept d d"
  by (auto simp: rows_kept_def)

lemma rows_kept_trans: "rows_kept d e \<Longrightarrow> rows_kept e f \<Longrightarrow> rows_kept d f"
  unfolding rows_kept_def by (blast intro: map_le_trans same_modulo_trans)

lemma keeps_refl: "keeps d d"
  by (simp add: keeps_def rows_kept_refl)

lemma keeps_trans: "keeps d e \<Longrightarrow> keeps e f \<Longrightarrow> keeps d f"
  unfolding keeps_def using rows_kept_trans by blast

text \<open>An insert-or-verify on one table keeps everything.\<close>

lemmas kept_defs = keeps_def db_wf_def rows_kept_def

lemma insertOrVerify_kept:
  "insertOrVerifyIdempotent c f k v m t = Inr (fresh, t') \<Longrightarrow> twf t \<Longrightarrow> twf t' \<and> tget t \<subseteq>\<^sub>m tget t'"
  by (drule insertOrVerify_le) auto

lemma applyBlockHeader_keeps: "applyBlockHeader b d = Inr (fresh, e) \<Longrightarrow> keeps d e"
proof -
  assume "applyBlockHeader b d = Inr (fresh, e)"
  then obtain f t where i: "insertOrVerifyIdempotent (block_checks (blk_Hash b) (block_row_of b))
      ((case b_prev (block_row_of b) of None \<Rightarrow> True
        | Some p \<Rightarrow> p = blk_Hash b \<or> tget (blocks d) p \<noteq> None)
        \<and> \<not> canonical_at d (b_height (block_row_of b)))
      (blk_Hash b) (block_row_of b) (same_block (block_row_of b)) (blocks d) = Inr (f, t)"
    and e: "e = d\<lparr>blocks := t\<rparr> \<or> e = d\<lparr>blocks :=
      tupdate (\<lambda>k _. k = blk_Hash b) (\<lambda>o'. o'\<lparr>b_canonical := True\<rparr>) t\<rparr>"
    by (auto simp: applyBlockHeader_def Let_def result_simps split: if_splits option.splits)
  have k: "twf (blocks d) \<Longrightarrow> twf t \<and> tget (blocks d) \<subseteq>\<^sub>m tget t"
    using insertOrVerify_kept [OF i] .
  show ?thesis
    using e k by (auto simp: kept_defs twf_simps tget_tupdate map_le_def dom_def)
qed

lemma writes_keep:
  "insert_transaction txn fee d = Inr (fresh, e) \<Longrightarrow> keeps d e"
  "insert_variant txn d = Inr (fresh, e) \<Longrightarrow> keeps d e"
  "insert_block_transaction bh i txn d = Inr e \<Longrightarrow> keeps d e"
  "insert_input txid inp d = Inr e \<Longrightarrow> keeps d e"
  "apply_witness_item txid wtxid vin item d = Inr e \<Longrightarrow> keeps d e"
  "insert_output txid out d = Inr (fresh, e) \<Longrightarrow> keeps d e"
  "apply_address op fresh addr d = Inr e \<Longrightarrow> keeps d e"
  "apply_participant op p d = Inr e \<Longrightarrow> keeps d e"
  "create_utxo bh op d = Inr e \<Longrightarrow> keeps d e"
  "insert_accounting facts d = Inr e \<Longrightarrow> keeps d e"
  by (auto simp: insert_transaction_def insert_variant_def insert_block_transaction_def
      insert_input_def apply_witness_item_def insert_output_def apply_address_def
      apply_participant_def create_utxo_def insert_accounting_def Let_def result_simps kept_defs
      dest!: insertOrVerify_kept split: if_splits prod.splits option.splits)

lemma markSpent_keeps: "markSpent p txid vin bh d = Inr (addr, e) \<Longrightarrow> keeps d e"
  by (auto simp: markSpent_def result_simps kept_defs twf_simps split: option.splits if_splits)

lemma applySupplyRollup_keeps: "applySupplyRollup b cp facts d = Inr e \<Longrightarrow> keeps d e"
  by (auto simp: applySupplyRollup_def result_simps kept_defs dest!: insertOrVerify_kept
      split: option.splits)

lemma derived_writes_keep:
  "recomputeAddress a d = Inr (bal, e) \<Longrightarrow> keeps d e"
  "apply_bucket_delta \<delta> k d = Inr e \<Longrightarrow> keeps d e"
  "setDistributionAnchor h d = Inr e \<Longrightarrow> keeps d e"
  "set_sync_state h d = Inr e \<Longrightarrow> keeps d e"
  by (auto simp: recomputeAddress_def apply_bucket_delta_def setDistributionAnchor_def
      set_sync_state_def Let_def result_simps kept_defs twf_simps twf_tupsert
      split: option.splits if_splits)

lemma rollback_utxos_keeps: "rollback_utxos hs d = (e, T) \<Longrightarrow> keeps d e"
  by (auto simp: rollback_utxos_def Let_def kept_defs twf_simps tget_tupdate)

interpretation immutable_tx: tx_steps bh keeps for bh
  by unfold_locales
    (fact keeps_refl keeps_trans writes_keep markSpent_keeps | erule keeps_trans writes_keep markSpent_keeps; assumption?)+

interpretation immutable: store_steps keeps
  by unfold_locales
    (fact keeps_refl keeps_trans | erule applyBlockHeader_keeps immutable_tx.apply_transactions
       derived_writes_keep writes_keep applySupplyRollup_keeps rollback_utxos_keeps)+


lemma init_db_wf: "db_wf init_db"
  by (simp add: db_wf_def init_db_def twf_def DistributionBucketIDs_def distributionBuckets_def
      boundedBucket_def)

text \<open>
  C3 Immutable history: once a run of applications and rollbacks has stored a block, a
  transaction, an input, a witness item, an output, a destination or an accounting row, every
  continuation of the run still holds that row unchanged; only a block's canonical flag can differ.
\<close>

theorem history_is_immutable:
  "rows_kept (run s ops init_db) (run s (ops @ later) init_db)"
proof -
  have app: "run s (ops @ later) d = run s later (run s ops d)" for d
    by (induction ops arbitrary: d) simp_all
  have "keeps init_db (run s ops init_db)" "keeps (run s ops init_db) (run s (ops @ later) init_db)"
    unfolding app by (rule immutable.run)+
  then show ?thesis using init_db_wf by (simp add: keeps_def)
qed

end
