(* ===== verification/StoreChain.thy ===== *)
theory StoreChain
  imports StoreImmutable
begin

text \<open>
  The canonical chain: what the operations do to \<open>blocks\<close> and \<open>sync_state\<close>, and
  the invariant that the canonical blocks form one parent-linked path that ends at the durable
  checkpoint.
\<close>

section \<open>Frames\<close>

text \<open>The loop over a block's transactions leaves these tables alone.\<close>

definition block_side :: "db \<Rightarrow> db \<Rightarrow> bool" where
  "block_side d e \<longleftrightarrow> blocks e = blocks d \<and> sync_state e = sync_state d \<and> addresses e = addresses d
    \<and> block_accounting e = block_accounting d \<and> block_supply_rollup e = block_supply_rollup d
    \<and> distribution e = distribution d \<and> distribution_state e = distribution_state d"

interpretation block_side_tx: tx_steps bh block_side for bh
  by unfold_locales
    (auto simp: block_side_def insert_transaction_def insert_variant_def insert_block_transaction_def
      insert_input_def apply_witness_item_def insert_output_def apply_address_def
      apply_participant_def create_utxo_def markSpent_def Let_def result_simps
      split: if_splits prod.splits option.splits)

text \<open>The steps after the loop leave the tables they are computed from alone.\<close>

definition source_side :: "db \<Rightarrow> db \<Rightarrow> bool" where
  "source_side d e \<longleftrightarrow> blocks e = blocks d \<and> transactions e = transactions d
    \<and> transaction_variants e = transaction_variants d \<and> block_transactions e = block_transactions d
    \<and> transaction_inputs e = transaction_inputs d
    \<and> transaction_outputs e = transaction_outputs d \<and> output_addresses e = output_addresses d
    \<and> utxo_state e = utxo_state d"

lemma source_side_trans: "source_side d e \<Longrightarrow> source_side e f \<Longrightarrow> source_side d f"
  by (simp add: source_side_def)

lemma source_side_refl: "source_side d d"
  by (simp add: source_side_def)

lemma recomputeAddress_source: "recomputeAddress a d = Inr (bal, e) \<Longrightarrow>
    source_side d e \<and> sync_state e = sync_state d \<and> distribution e = distribution d
    \<and> distribution_state e = distribution_state d \<and> block_supply_rollup e = block_supply_rollup d
    \<and> block_accounting e = block_accounting d"
  by (auto simp: recomputeAddress_def Let_def result_simps source_side_def split: if_splits)

lemma recompute_all_source:
  assumes "fold_res recomputeAddressTracked as (d, \<delta>) = Inr (e, \<delta>')"
  shows "source_side d e \<and> sync_state e = sync_state d \<and> distribution e = distribution d
    \<and> distribution_state e = distribution_state d \<and> block_supply_rollup e = block_supply_rollup d
    \<and> block_accounting e = block_accounting d"
proof -
  let ?R = "\<lambda>x y. source_side (fst x) (fst y) \<and> sync_state (fst y) = sync_state (fst x)
    \<and> distribution (fst y) = distribution (fst x)
    \<and> distribution_state (fst y) = distribution_state (fst x)
    \<and> block_supply_rollup (fst y) = block_supply_rollup (fst x)
    \<and> block_accounting (fst y) = block_accounting (fst x)"
  have "?R (d, \<delta>) (e, \<delta>')" using assms
  proof (rule fold_res_relation [where R = ?R])
    fix a s t assume "recomputeAddressTracked a s = Inr t"
    then show "?R s t"
      by (cases s; cases t)
        (simp add: recomputeAddressTracked_def Let_def result_simps, blast dest: recomputeAddress_source)
  qed (auto simp: source_side_refl intro: source_side_trans)
  then show ?thesis by simp
qed

lemma apply_deltas_source:
  assumes "applyDistributionDeltas \<delta> d = Inr e"
  shows "source_side d e \<and> sync_state e = sync_state d \<and> addresses e = addresses d
    \<and> distribution_state e = distribution_state d \<and> block_supply_rollup e = block_supply_rollup d
    \<and> block_accounting e = block_accounting d"
  using assms unfolding applyDistributionDeltas_def
  by (rule fold_res_relation)
    (auto simp: apply_bucket_delta_def source_side_def Let_def split: option.splits if_splits)

lemma update_touched_source:
  assumes "update_touched s T h d = Inr e"
  shows "source_side d e" "sync_state e = sync_state d"
    "block_supply_rollup e = block_supply_rollup d" "block_accounting e = block_accounting d"
    "checkpoint_of d h = Inr (distribution_state e)"
proof -
  obtain d1 \<delta> d2 where
    r: "fold_res recomputeAddressTracked (mapOrder s T) (d, newDistributionDelta) = Inr (d1, \<delta>)"
    and a: "applyDistributionDeltas \<delta> d1 = Inr d2" and h: "setDistributionAnchor h d2 = Inr e"
    using assms by (rule update_touchedE)
  show "source_side d e" "sync_state e = sync_state d"
    "block_supply_rollup e = block_supply_rollup d" "block_accounting e = block_accounting d"
    "checkpoint_of d h = Inr (distribution_state e)"
    using recompute_all_source [OF r] apply_deltas_source [OF a] h
    by (auto simp: setDistributionAnchor_def result_simps source_side_def checkpoint_of_def)
qed

lemma applyBlockAccounting_source:
  "applyBlockAccounting sch b fees d = Inr (facts, e) \<Longrightarrow>
    \<exists>t. e = d\<lparr>block_accounting := t\<rparr>"
  by (auto simp: applyBlockAccounting_def insert_accounting_def result_simps)

lemma applySupplyRollup_source:
  "applySupplyRollup b cp facts d = Inr e \<Longrightarrow> \<exists>t. e = d\<lparr>block_supply_rollup := t\<rparr>"
  by (auto simp: applySupplyRollup_def result_simps split: option.splits intro: exI [of _ "block_supply_rollup d"])

section \<open>The block header\<close>

definition canonical :: "db \<Rightarrow> string \<Rightarrow> block_row \<Rightarrow> bool" where
  "canonical d h r \<longleftrightarrow> tget (blocks d) h = Some r \<and> b_canonical r"

lemma canonical_at_iff:
  "twf (blocks d) \<Longrightarrow> canonical_at d h \<longleftrightarrow> (\<exists>k r. canonical d k r \<and> b_height r = h)"
  by (auto simp: canonical_at_def canonical_def list_ex_iff in_set_tget [symmetric])

lemma applyBlockHeader_effect:
  assumes "applyBlockHeader b d = Inr (f, e)" "twf (blocks d)"
  shows "\<exists>t. e = d\<lparr>blocks := t\<rparr>" "twf (blocks e)"
    "\<exists>r. canonical e (blk_Hash b) r \<and> same_block (block_row_of b) r"
    "block_checks (blk_Hash b) (block_row_of b)"
    "h \<noteq> blk_Hash b \<Longrightarrow> tget (blocks e) h = tget (blocks d) h"
    "e = d \<or> \<not> canonical_at d (blk_Height b)"
    "f \<longleftrightarrow> tget (blocks d) (blk_Hash b) = None"
    "tget (blocks d) (blk_Hash b) = Some r0 \<Longrightarrow> same_block (block_row_of b) r0"
proof -
  note defs = applyBlockHeader_def Let_def result_simps insertOrVerifyIdempotent_def
  from assms show "\<exists>t. e = d\<lparr>blocks := t\<rparr>" "twf (blocks e)"
    "\<exists>r. canonical e (blk_Hash b) r \<and> same_block (block_row_of b) r"
    "block_checks (blk_Hash b) (block_row_of b)"
    "h \<noteq> blk_Hash b \<Longrightarrow> tget (blocks e) h = tget (blocks d) h"
    "e = d \<or> \<not> canonical_at d (blk_Height b)"
    "f \<longleftrightarrow> tget (blocks d) (blk_Hash b) = None"
    "tget (blocks d) (blk_Hash b) = Some r0 \<Longrightarrow> same_block (block_row_of b) r0"
    by (auto simp: defs canonical_def twf_simps option.map_ident tget_tinsert tget_tupdate block_row_of_def same_block_def
        split: if_splits option.splits)
qed

section \<open>What an operation does to the chain\<close>

lemma apply_transactions_side:
  "apply_transactions bh g txs d = Inr (fees, e, T) \<Longrightarrow> block_side d e"
  by (rule block_side_tx.apply_transactions)

lemma ApplyBlock_chain:
  assumes "ApplyBlock s b d = Inr e" "twf (blocks d)"
  shows "twf (blocks e)"
    "\<exists>r. canonical e (blk_Hash b) r \<and> same_block (block_row_of b) r"
    "h \<noteq> blk_Hash b \<Longrightarrow> tget (blocks e) h = tget (blocks d) h"
    "blocks e = blocks d \<or> \<not> canonical_at d (blk_Height b)"
    "sync_state e = (blk_Height b, Some (blk_Hash b))"
    "distribution_state e = sync_state e"
    "checkCanonicalContinuity b (sync_state d) = Inr ()"
    "block_checks (blk_Hash b) (block_row_of b)"
    "tget (blocks d) (blk_Hash b) = Some r0 \<Longrightarrow> same_block (block_row_of b) r0"
proof -
  obtain f1 d1 fees d2 T d3 facts d4 d5 where
    c: "checkCanonicalContinuity b (sync_state d) = Inr ()"
    and h: "applyBlockHeader b d = Inr (f1, d1)"
    and t: "apply_transactions (blk_Hash b) (blk_Height b = 0) (blk_Transactions b) d1 = Inr (fees, d2, T)"
    and u: "update_touched s T (blk_Hash b) d2 = Inr d3"
    and a: "applyBlockAccounting (accountingSchedule s) b fees d3 = Inr (facts, d4)"
    and r: "applySupplyRollup b (sync_state d) facts d4 = Inr d5"
    and s: "set_sync_state (blk_Hash b) d5 = Inr e"
    using assms(1) by (rule ApplyBlockE)
  note h_eff = applyBlockHeader_effect [OF h assms(2)]
  have b: "blocks d2 = blocks d1" using apply_transactions_side [OF t] by (simp add: block_side_def)
  have b5: "blocks d5 = blocks d1" "distribution_state d5 = distribution_state d3"
    using update_touched_source(1) [OF u] applyBlockAccounting_source [OF a]
      applySupplyRollup_source [OF r] b by (auto simp: source_side_def)
  have e: "blocks e = blocks d1" "checkpoint_of d5 (blk_Hash b) = Inr (sync_state e)"
    "distribution_state e = distribution_state d3"
    using s b5 by (auto simp: set_sync_state_def result_simps)
  show "twf (blocks e)" "h \<noteq> blk_Hash b \<Longrightarrow> tget (blocks e) h = tget (blocks d) h"
    "blocks e = blocks d \<or> \<not> canonical_at d (blk_Height b)"
    using h_eff(2,5,6) e(1) by auto
  show r: "\<exists>r. canonical e (blk_Hash b) r \<and> same_block (block_row_of b) r"
    using h_eff(3) e(1) by (simp add: canonical_def)
  show "sync_state e = (blk_Height b, Some (blk_Hash b))"
    using e(1,2) b5(1) r
    by (auto simp: checkpoint_of_def canonical_def same_block_def block_row_of_def split: option.splits if_splits)
  show "distribution_state e = sync_state e"
    using update_touched_source(5) [OF u] e b b5(1) by (simp add: checkpoint_of_def)
  show "checkCanonicalContinuity b (sync_state d) = Inr ()" by (rule c)
  show "block_checks (blk_Hash b) (block_row_of b)" by (rule h_eff(4))
  show "tget (blocks d) (blk_Hash b) = Some r0 \<Longrightarrow> same_block (block_row_of b) r0" by (rule h_eff(8))
qed

definition demote_above :: "int \<Rightarrow> block_row \<Rightarrow> block_row" where
  "demote_above h r = (if h < b_height r \<and> b_canonical r then r\<lparr>b_canonical := False\<rparr> else r)"

lemma orphan_hashes_iff:
  "twf (blocks d) \<Longrightarrow> tget (blocks d) k = Some r \<Longrightarrow>
    k \<in> set (orphan_hashes d h) \<longleftrightarrow> h < b_height r \<and> b_canonical r"
  by (auto simp: orphan_hashes_def in_set_tget image_iff) 

lemma RollbackTo_chain:
  assumes "RollbackTo s h d = Inr e" "twf (blocks d)"
  obtains a where "canonical d h a"
    "\<And>k. tget (blocks e) k = map_option (demote_above (b_height a)) (tget (blocks d) k)"
    "sync_state e = (b_height a, Some h)" "distribution_state e = sync_state e"
    "twf (blocks e)"
proof -
  obtain a d1 T d2 where a: "tget (blocks d) h = Some a" "b_canonical a"
    and r: "(if 0 < length (orphan_hashes d (b_height a))
      then rollback_utxos (orphan_hashes d (b_height a)) d else (d, [])) = (d1, T)"
    and u: "update_touched s T h d1 = Inr d2" and s: "set_sync_state h d2 = Inr e"
    using assms(1) by (rule RollbackToE)
  have b1: "tget (blocks d1) k = map_option (demote_above (b_height a)) (tget (blocks d) k)" for k
  proof (cases "orphan_hashes d (b_height a) = []")
    case True
    then have "map_option (demote_above (b_height a)) (tget (blocks d) k) = tget (blocks d) k"
      using orphan_hashes_iff [OF assms(2), of k _ "b_height a"]
      by (cases "tget (blocks d) k") (auto simp: demote_above_def)
    with r True show ?thesis by simp
  next
    case False
    with r have "blocks d1 = tupdate (\<lambda>k _. k \<in> set (orphan_hashes d (b_height a)))
        (\<lambda>r. r\<lparr>b_canonical := False\<rparr>) (blocks d)"
      by (auto simp: rollback_utxos_def Let_def)
    then show ?thesis
      using orphan_hashes_iff [OF assms(2), of k _ "b_height a"]
      by (cases "tget (blocks d) k") (auto simp: tget_tupdate demote_above_def)
  qed
  have w: "twf (blocks d1)" using r assms(2) by (auto simp: rollback_utxos_def Let_def twf_simps split: if_splits)
  have e: "blocks e = blocks d1" "checkpoint_of d2 h = Inr (sync_state e)"
    "distribution_state e = distribution_state d2"
    using s update_touched_source(1) [OF u] by (auto simp: set_sync_state_def result_simps source_side_def)
  have cp: "checkpoint_of d2 h = checkpoint_of d1 h"
    using update_touched_source(1) [OF u] by (simp add: checkpoint_of_def source_side_def)
  have "checkpoint_of d1 h = Inr (b_height a, Some h)"
    using a b1 [of h] by (simp add: checkpoint_of_def demote_above_def)
  then have "sync_state e = (b_height a, Some h)" "distribution_state e = sync_state e"
    using e cp update_touched_source(5) [OF u] by simp_all
  with that [of a] a b1 e(1) w show thesis by (simp add: canonical_def)
qed

section \<open>The chain invariant\<close>

text \<open>
  \<open>chain_path d base h tip\<close>: the canonical blocks occupy the heights from \<open>base\<close>, where the store was
  bootstrapped, to \<open>h\<close>, one block each; the highest is \<open>tip\<close>; each above \<open>base\<close> names
  the one below it as its parent.
\<close>

definition chain_path :: "db \<Rightarrow> int \<Rightarrow> int \<Rightarrow> string \<Rightarrow> bool" where
  "chain_path d base h tip \<longleftrightarrow>
    0 \<le> base \<and> base \<le> h \<and> in_i64 h
    \<and> (\<exists>r. canonical d tip r \<and> b_height r = h)
    \<and> (\<forall>k r. canonical d k r \<longrightarrow> is_hash64 k \<and> base \<le> b_height r \<and> b_height r \<le> h)
    \<and> (\<forall>k r k' r'. canonical d k r \<longrightarrow> canonical d k' r' \<longrightarrow> b_height r = b_height r' \<longrightarrow> k = k')
    \<and> (\<forall>k r. canonical d k r \<longrightarrow> base < b_height r \<longrightarrow>
         (\<exists>p rp. b_prev r = Some p \<and> canonical d p rp \<and> b_height rp = b_height r - 1))"

definition chain_inv :: "db \<Rightarrow> bool" where
  "chain_inv d \<longleftrightarrow> twf (blocks d) \<and>
    (case snd (sync_state d) of
       None \<Rightarrow> fst (sync_state d) = - 1 \<and> (\<forall>k r. \<not> canonical d k r)
     | Some tip \<Rightarrow> \<exists>base. chain_path d base (fst (sync_state d)) tip)"

lemma chain_inv_init: "chain_inv init_db"
  by (simp add: chain_inv_def init_db_def twf_def canonical_def tget_def)

lemma same_block_fields:
  "same_block (block_row_of b) r \<Longrightarrow> b_height r = blk_Height b
    \<and> b_prev r = (if blk_PreviousHash b \<noteq> [] then Some (blk_PreviousHash b) else None)"
  by (simp add: same_block_def block_row_of_def)

lemma canonical_after_apply:
  assumes "ApplyBlock s b d = Inr e" "twf (blocks d)"
  shows "canonical e k r \<longleftrightarrow> (if k = blk_Hash b then tget (blocks e) k = Some r \<and> b_canonical r
    else canonical d k r)"
  using ApplyBlock_chain(3) [OF assms] by (simp add: canonical_def)

text \<open>Continuity in integers: the checked height of a block cannot come from a wrapped sum.\<close>

lemma continuity_cases:
  assumes "checkCanonicalContinuity b (h, Some tip) = Inr ()" "in_i64 h" "0 \<le> h" "0 \<le> blk_Height b"
  shows "blk_Hash b = tip \<and> blk_Height b = h \<or> blk_Height b = h + 1 \<and> blk_PreviousHash b = tip"
proof -
  have "add64 h 1 = h + 1" if "blk_Height b = add64 h 1"
  proof (cases "in_i64 (h + 1)")
    case False
    then have "h = max_i64" using assms(2) by (simp add: i64_defs)
    then have "add64 h 1 < 0" by (simp add: add64_def wrap64_def max_i64_def)
    with that assms(4) show ?thesis by simp
  qed (simp add: add64_def wrap64_id)
  with assms(1) show ?thesis by (auto simp: checkCanonicalContinuity_def split: if_splits)
qed

lemma chain_pathD:
  assumes "chain_path d base h tip"
  shows "0 \<le> base" "base \<le> h" "in_i64 h"
    "\<exists>r. canonical d tip r \<and> b_height r = h"
    "canonical d k r \<Longrightarrow> is_hash64 k"
    "canonical d k r \<Longrightarrow> base \<le> b_height r"
    "canonical d k r \<Longrightarrow> b_height r \<le> h"
    "canonical d k r \<Longrightarrow> canonical d k' r' \<Longrightarrow> b_height r = b_height r' \<Longrightarrow> k = k'"
    "canonical d k r \<Longrightarrow> base < b_height r \<Longrightarrow>
      \<exists>p rp. b_prev r = Some p \<and> canonical d p rp \<and> b_height rp = b_height r - 1"
  using assms unfolding chain_path_def by (elim conjE, simp add: Bex_def; fail | elim conjE, blast)+

lemma chain_pathI:
  assumes "0 \<le> base" "base \<le> h" "in_i64 h" "\<exists>r. canonical d tip r \<and> b_height r = h"
    "\<And>k r. canonical d k r \<Longrightarrow> is_hash64 k \<and> base \<le> b_height r \<and> b_height r \<le> h"
    "\<And>k r k' r'. canonical d k r \<Longrightarrow> canonical d k' r' \<Longrightarrow> b_height r = b_height r' \<Longrightarrow> k = k'"
    "\<And>k r. canonical d k r \<Longrightarrow> base < b_height r \<Longrightarrow>
      \<exists>p rp. b_prev r = Some p \<and> canonical d p rp \<and> b_height rp = b_height r - 1"
  shows "chain_path d base h tip"
  using assms unfolding chain_path_def by blast

lemma chain_inv_bootstrap:
  assumes inv: "chain_inv d" and ap: "ApplyBlock s b d = Inr e" and n: "snd (sync_state d) = None"
  shows "chain_inv e"
proof -
  have w: "twf (blocks d)" using inv by (simp add: chain_inv_def)
  note eff = ApplyBlock_chain [OF ap w]
  obtain r where r: "canonical e (blk_Hash b) r" "b_height r = blk_Height b"
    using eff(2) same_block_fields by blast
  have hgt: "0 \<le> blk_Height b" "in_i64 (blk_Height b)" "is_hash64 (blk_Hash b)"
    using eff(8) by (simp_all add: block_checks_def block_row_of_def)
  have none: "\<not> canonical d k r'" for k r'
    using inv n by (simp add: chain_inv_def)
  have only: "k = blk_Hash b \<and> r' = r" if "canonical e k r'" for k r'
    using that none [of k r'] r(1) canonical_after_apply [OF ap w, of k r']
    by (simp add: canonical_def split: if_splits)
  have "chain_path e (blk_Height b) (blk_Height b) (blk_Hash b)"
  proof (rule chain_pathI)
    show "\<exists>r. canonical e (blk_Hash b) r \<and> b_height r = blk_Height b" using r by blast
    show "is_hash64 k \<and> blk_Height b \<le> b_height q \<and> b_height q \<le> blk_Height b"
      if "canonical e k q" for k q using only [OF that] r(2) hgt by simp
    show "k = k'" if "canonical e k q" "canonical e k' q'" for k q k' q'
      using only [OF that(1)] only [OF that(2)] by simp
    show "\<exists>p rp. b_prev q = Some p \<and> canonical e p rp \<and> b_height rp = b_height q - 1"
      if "canonical e k q" "blk_Height b < b_height q" for k q
      using only [OF that(1)] that(2) r(2) by simp
  qed (use hgt in simp_all)
  then show ?thesis using eff(1,5) by (auto simp: chain_inv_def)
qed

lemma chain_path_append:
  assumes path: "chain_path d base h tip" and ap: "ApplyBlock s b d = Inr e" and w: "twf (blocks d)"
    and new: "blk_Height b = h + 1" "blk_PreviousHash b = tip"
  shows "chain_path e base (h + 1) (blk_Hash b)"
proof -
  note eff = ApplyBlock_chain [OF ap w]
  note path = chain_pathD [OF path]
  have nd: "\<not> canonical d (blk_Hash b) r'" for r'
  proof
    assume c: "canonical d (blk_Hash b) r'"
    then have "b_height r' = h + 1"
      using eff(9) same_block_fields new(1) by (auto simp: canonical_def)
    with path(7) [OF c] show False by simp
  qed
  obtain r where r: "canonical e (blk_Hash b) r" "b_height r = h + 1" "same_block (block_row_of b) r"
    using eff(2) same_block_fields new(1) by fastforce
  have hgt: "is_hash64 (blk_Hash b)" "in_i64 (h + 1)"
    using eff(8) new by (simp_all add: block_checks_def block_row_of_def)
  obtain tr where t: "canonical d tip tr" "b_height tr = h" using path(4) by blast
  have "tip \<noteq> []" using path(5) [OF t(1)] by (auto simp: is_hash64_def)
  then have r_prev: "b_prev r = Some tip" using same_block_fields [OF r(3)] new(2) by simp
  have old: "canonical e k r' \<longleftrightarrow> canonical d k r' \<or> k = blk_Hash b \<and> r' = r" for k r'
    using canonical_after_apply [OF ap w, of k r'] nd [of r'] r(1)
    by (cases "k = blk_Hash b") (auto simp: canonical_def)
  have le: "canonical d k r' \<Longrightarrow> b_height r' \<noteq> h + 1" for k r' using path(7) [of k r'] by auto
  show ?thesis
  proof (rule chain_pathI)
    show "0 \<le> base" "base \<le> h + 1" "in_i64 (h + 1)" using path(1,2) hgt by simp_all
    show "\<exists>r. canonical e (blk_Hash b) r \<and> b_height r = h + 1" using r by blast
    show "is_hash64 k \<and> base \<le> b_height q \<and> b_height q \<le> h + 1" if "canonical e k q" for k q
      using that path(5-7) [of k q] hgt(1) r(2) path(1,2) by (auto simp: old)
    show "k = k'" if "canonical e k q" "canonical e k' q'" "b_height q = b_height q'" for k q k' q'
      using that path(8) [of k q k' q'] le [of k q] le [of k' q'] r(2) by (auto simp: old)
    show "\<exists>p rp. b_prev q = Some p \<and> canonical e p rp \<and> b_height rp = b_height q - 1"
      if q: "canonical e k q" "base < b_height q" for k q
    proof (cases "canonical d k q")
      case True
      from path(9) [OF this q(2)] show ?thesis by (auto simp: old)
    next
      case False
      with q(1) have "q = r" by (simp add: old)
      with r_prev r(2) t show ?thesis by (auto simp: old)
    qed
  qed
qed

lemma chain_inv_apply:
  assumes inv: "chain_inv d" and ap: "ApplyBlock s b d = Inr e"
  shows "chain_inv e"
proof (cases "snd (sync_state d)")
  case None
  then show ?thesis by (rule chain_inv_bootstrap [OF assms])
next
  case (Some tip)
  have w: "twf (blocks d)" using inv by (simp add: chain_inv_def)
  note eff = ApplyBlock_chain [OF ap w]
  obtain base where path: "chain_path d base (fst (sync_state d)) tip"
    using inv Some by (auto simp: chain_inv_def)
  have "sync_state d = (fst (sync_state d), Some tip)" using Some by (metis prod.collapse)
  then have "checkCanonicalContinuity b (fst (sync_state d), Some tip) = Inr ()" using eff(7) by simp
  then have "blk_Hash b = tip \<and> blk_Height b = fst (sync_state d)
    \<or> blk_Height b = fst (sync_state d) + 1 \<and> blk_PreviousHash b = tip"
    by (rule continuity_cases)
      (use chain_pathD(1-3) [OF path] eff(8) in \<open>simp_all add: block_checks_def block_row_of_def\<close>)
  then show ?thesis
  proof (elim disjE conjE)
    assume rep: "blk_Hash b = tip" "blk_Height b = fst (sync_state d)"
    have "canonical_at d (fst (sync_state d))"
      using chain_pathD(4) [OF path] w by (auto simp: canonical_at_iff)
    with eff(4) rep have b: "blocks e = blocks d" by simp
    then have "canonical e = canonical d" by (simp add: canonical_def fun_eq_iff)
    then have "chain_path e = chain_path d" by (simp add: chain_path_def fun_eq_iff)
    with path w b eff(5) rep show ?thesis by (auto simp: chain_inv_def)
  next
    assume new: "blk_Height b = fst (sync_state d) + 1" "blk_PreviousHash b = tip"
    show ?thesis using chain_path_append [OF path ap w new] eff(1,5) new(1)
      by (auto simp: chain_inv_def)
  qed
qed

lemma chain_inv_rollback:
  assumes inv: "chain_inv d" and rb: "RollbackTo s h d = Inr e"
  shows "chain_inv e"
proof -
  have w: "twf (blocks d)" using inv by (simp add: chain_inv_def)
  obtain a where a: "canonical d h a"
    and b: "\<And>k. tget (blocks e) k = map_option (demote_above (b_height a)) (tget (blocks d) k)"
    and s: "sync_state e = (b_height a, Some h)" and we: "twf (blocks e)"
    using RollbackTo_chain [OF rb w] by metis
  obtain tip where tip: "snd (sync_state d) = Some tip"
    using inv a by (cases "snd (sync_state d)") (auto simp: chain_inv_def)
  obtain base where "chain_path d base (fst (sync_state d)) tip"
    using inv tip by (auto simp: chain_inv_def)
  note path = chain_pathD [OF this]
  have nd: "b_canonical r \<Longrightarrow> r \<noteq> r'\<lparr>b_canonical := False\<rparr>" for r r' :: block_row by auto
  have c: "canonical e k r \<longleftrightarrow> canonical d k r \<and> b_height r \<le> b_height a" for k r
    using nd by (auto simp: canonical_def b demote_above_def not_less split: if_splits)
  have "chain_path e base (b_height a) h"
  proof (rule chain_pathI)
    show "0 \<le> base" "base \<le> b_height a" "in_i64 (b_height a)"
      using path(1-3) path(6,7) [OF a] by (simp_all add: i64_defs)
    show "\<exists>r. canonical e h r \<and> b_height r = b_height a" using a by (auto simp: c)
    show "is_hash64 k \<and> base \<le> b_height q \<and> b_height q \<le> b_height a" if "canonical e k q" for k q
      using that path(5,6) [of k q] by (simp add: c)
    show "k = k'" if "canonical e k q" "canonical e k' q'" "b_height q = b_height q'" for k q k' q'
      using that path(8) [of k q k' q'] by (simp add: c)
    show "\<exists>p rp. b_prev q = Some p \<and> canonical e p rp \<and> b_height rp = b_height q - 1"
      if q: "canonical e k q" "base < b_height q" for k q
    proof -
      from q obtain p rp where "b_prev q = Some p" "canonical d p rp" "b_height rp = b_height q - 1"
        using path(9) [of k q] by (auto simp: c)
      moreover have "b_height q \<le> b_height a" using q(1) by (simp add: c)
      ultimately show ?thesis unfolding c by (intro exI [of _ p] exI [of _ rp]) simp
    qed
  qed
  with we s show ?thesis by (auto simp: chain_inv_def)
qed

definition anchored :: "db \<Rightarrow> bool" where
  "anchored d \<longleftrightarrow> chain_inv d \<and> distribution_state d = sync_state d"

interpretation chain: store_invariant s "\<lambda>_ _. True" anchored for s
proof
  show "anchored init_db" by (simp add: anchored_def chain_inv_init) (simp add: init_db_def)
  fix d op e
  assume a: "anchored d" "attempt s op d = Inr e"
  then have w: "twf (blocks d)" by (simp add: anchored_def chain_inv_def)
  show "anchored e"
  proof (cases op)
    case (Apply b)
    with a have "chain_inv d" "ApplyBlock s b d = Inr e" by (simp_all add: anchored_def attempt_def)
    from chain_inv_apply [OF this] ApplyBlock_chain(6) [OF this(2) w] show ?thesis
      by (simp add: anchored_def)
  next
    case (Rollback h)
    with a w show ?thesis
      by (auto simp: anchored_def attempt_def intro: chain_inv_rollback elim: RollbackTo_chain)
  qed
qed

text \<open>Every height between the bootstrap block and the tip has its canonical block.\<close>

lemma chain_path_full:
  assumes "chain_path d base h tip"
  shows "base \<le> k \<Longrightarrow> k \<le> h \<Longrightarrow> \<exists>c r. canonical d c r \<and> b_height r = k"
proof (induction "nat (h - k)" arbitrary: k)
  case 0
  then show ?case using chain_pathD(4) [OF assms] by auto
next
  case (Suc n)
  have "\<exists>c r. canonical d c r \<and> b_height r = k + 1"
    by (rule Suc.hyps(1)) (use Suc in auto)
  then obtain c r where c: "canonical d c r" "b_height r = k + 1" by blast
  from chain_pathD(9) [OF assms c(1)] c(2) Suc.prems show ?case by auto
qed

lemma CanonicalBlockHash_Some:
  assumes "chain_path d base h tip" "twf (blocks d)"
  shows "CanonicalBlockHash d k = Some c \<longleftrightarrow> (\<exists>r. canonical d c r \<and> b_height r = k)"
proof -
  have fwd: "\<exists>r. canonical d c r \<and> b_height r = k" if "CanonicalBlockHash d k = Some c" for c
    using that in_set_tget [OF assms(2)]
    by (auto simp: CanonicalBlockHash_def canonical_def find_Some_iff dest: nth_mem)
  show ?thesis
  proof
    assume r: "\<exists>r. canonical d c r \<and> b_height r = k"
    then have "\<exists>x \<in> set (blocks d). b_height (snd x) = k \<and> b_canonical (snd x)"
      using in_set_tget [OF assms(2)] by (force simp: canonical_def)
    then have "List.find (\<lambda>(_, r). b_height r = k \<and> b_canonical r) (blocks d) \<noteq> None"
      unfolding find_None_iff case_prod_beta by blast
    then have "CanonicalBlockHash d k \<noteq> None" by (simp add: CanonicalBlockHash_def)
    then obtain c' where c': "CanonicalBlockHash d k = Some c'" by blast
    with fwd r chain_pathD(8) [OF assms(1)] show "CanonicalBlockHash d k = Some c" by blast
  qed (rule fwd)
qed

text \<open>
  C1 The canonical chain, in every database a run of applications and rollbacks can reach: the tip
  is the canonical block at the tip's height; exactly the heights from the bootstrap block to the
  tip have a canonical block; each of these above the first names the one below as its parent;
  and the distribution anchor is the checkpoint.
\<close>

theorem canonical_chain_linked:
  assumes "d = run s ops init_db" "snd (Tip d) \<noteq> None"
  shows "distribution_state d = Tip d
    \<and> CanonicalBlockHash d (fst (Tip d)) = snd (Tip d)
    \<and> (\<exists>base \<ge> 0. \<forall>k.
        (CanonicalBlockHash d k \<noteq> None \<longleftrightarrow> base \<le> k \<and> k \<le> fst (Tip d))
        \<and> (base < k \<longrightarrow> k \<le> fst (Tip d) \<longrightarrow>
            Option.bind (CanonicalBlockHash d k) (\<lambda>h. Option.bind (tget (blocks d) h) b_prev)
              = CanonicalBlockHash d (k - 1)))"
proof -
  have a: "anchored d" using chain.reachable assms(1) by simp
  obtain tip where tip: "snd (sync_state d) = Some tip" using assms(2) by (auto simp: Tip_def)
  obtain base where path: "chain_path d base (fst (sync_state d)) tip" and w: "twf (blocks d)"
    using a tip by (auto simp: anchored_def chain_inv_def)
  note cbh = CanonicalBlockHash_Some [OF path w]
  have dom: "CanonicalBlockHash d k \<noteq> None \<longleftrightarrow> base \<le> k \<and> k \<le> fst (sync_state d)" for k
    using cbh [of k] chain_path_full [OF path, of k] chain_pathD(6,7) [OF path] by blast
  have link: "Option.bind (CanonicalBlockHash d k) (\<lambda>h. Option.bind (tget (blocks d) h) b_prev)
      = CanonicalBlockHash d (k - 1)" if k: "base < k" "k \<le> fst (sync_state d)" for k
  proof -
    have "CanonicalBlockHash d k \<noteq> None" using dom [of k] k by simp
    then obtain c where c1: "CanonicalBlockHash d k = Some c" by blast
    obtain r where c: "CanonicalBlockHash d k = Some c" "canonical d c r" "b_height r = k"
      using c1 cbh [of k c] by metis
    then obtain p rp where "b_prev r = Some p" "canonical d p rp" "b_height rp = k - 1"
      using chain_pathD(9) [OF path, of c r] k by auto
    with c cbh [of "k - 1" p] show ?thesis by (auto simp: canonical_def)
  qed
  have "CanonicalBlockHash d (fst (sync_state d)) = Some tip"
    using cbh chain_pathD(4) [OF path] by blast
  moreover have "distribution_state d = sync_state d" using a by (simp add: anchored_def)
  moreover have "\<exists>base \<ge> 0. \<forall>k. (CanonicalBlockHash d k \<noteq> None \<longleftrightarrow> base \<le> k \<and> k \<le> fst (sync_state d))
      \<and> (base < k \<longrightarrow> k \<le> fst (sync_state d) \<longrightarrow>
          Option.bind (CanonicalBlockHash d k) (\<lambda>h. Option.bind (tget (blocks d) h) b_prev)
            = CanonicalBlockHash d (k - 1))"
  proof (intro exI conjI allI impI)
    show "0 \<le> base" by (rule chain_pathD(1) [OF path])
  qed (rule dom, rule link)
  ultimately show ?thesis unfolding Tip_def tip by (intro conjI)
qed

text \<open>
  C2 A successful application has exactly three forms: the bootstrap of an empty store, the replay
  of the tip, which leaves the block table alone, or the append of the next height to the tip. The
  block becomes the checkpoint, and is recorded as canonical with the fields it was given.
\<close>

theorem ApplyBlock_extends_tip:
  assumes "d = run s ops init_db" "ApplyBlock s b d = Inr e"
  shows "Tip e = (blk_Height b, Some (blk_Hash b))
    \<and> CanonicalBlockHash e (blk_Height b) = Some (blk_Hash b)
    \<and> (\<exists>r. tget (blocks e) (blk_Hash b) = Some r \<and> b_canonical r \<and> same_block (block_row_of b) r)
    \<and> (Tip d = (- 1, None)
       \<or> Tip d = Tip e \<and> blocks e = blocks d
       \<or> Tip d = (blk_Height b - 1, Some (blk_PreviousHash b)))"
proof -
  have a: "anchored d" using chain.reachable assms(1) by simp
  then have inv: "chain_inv d" and w: "twf (blocks d)" by (simp_all add: anchored_def chain_inv_def)
  note eff = ApplyBlock_chain [OF assms(2) w]
  obtain r where r: "canonical e (blk_Hash b) r" "same_block (block_row_of b) r" using eff(2) by blast
  obtain base where path: "chain_path e base (blk_Height b) (blk_Hash b)"
    using chain_inv_apply [OF inv assms(2)] eff(5) by (auto simp: chain_inv_def)
  have cbh: "CanonicalBlockHash e (blk_Height b) = Some (blk_Hash b)"
    using CanonicalBlockHash_Some [OF path eff(1)] r same_block_fields by blast
  have "Tip d = (- 1, None) \<or> Tip d = Tip e \<and> blocks e = blocks d
    \<or> Tip d = (blk_Height b - 1, Some (blk_PreviousHash b))"
  proof (cases "snd (sync_state d)")
    case None
    with inv show ?thesis by (auto simp: chain_inv_def Tip_def prod_eq_iff)
  next
    case (Some tip)
    then have sd: "sync_state d = (fst (sync_state d), Some tip)" by (metis prod.collapse)
    obtain base where pd: "chain_path d base (fst (sync_state d)) tip"
      using inv Some by (auto simp: chain_inv_def)
    have "blk_Hash b = tip \<and> blk_Height b = fst (sync_state d)
      \<or> blk_Height b = fst (sync_state d) + 1 \<and> blk_PreviousHash b = tip"
      by (rule continuity_cases)
        (use sd eff(7,8) chain_pathD(1-3) [OF pd] in \<open>simp_all add: block_checks_def block_row_of_def\<close>)
    moreover have "blocks e = blocks d" if "blk_Height b = fst (sync_state d)"
      using eff(4) chain_pathD(4) [OF pd] w that by (auto simp: canonical_at_iff)
    ultimately show ?thesis using sd eff(5) by (auto simp: Tip_def)
  qed
  with eff(5) cbh r show ?thesis by (auto simp: Tip_def canonical_def)
qed

end
