(* ===== verification/StoreExample.thy ===== *)
theory StoreExample
  imports StoreChain
begin

text \<open>
  A three-block chain used by the witnesses: genesis with a P2QPK coinbase (never a coin), a
  second block whose coinbase pays \<open>''a''\<close>, and a third that spends this coin to
  \<open>''b''\<close> with a fee.
\<close>

definition hx :: "char \<Rightarrow> string" where "hx c = replicate 64 c"

definition ex_out :: "nat \<Rightarrow> int \<Rightarrow> string \<Rightarrow> tx_output" where
  "ex_out i v a =
    \<lparr>out_Index = i, out_Value = of_int v, out_ScriptPubKey = 0x52 # 0x20 # replicate 32 0x11,
     out_ScriptType = TypeP2QPK, out_WitnessVersion = Some 2,
     out_WitnessProgram = Some (replicate 32 0x11), out_PubKeys = [], out_Address = a,
     out_ParticipantAddresses = []\<rparr>"

definition ex_burn :: "nat \<Rightarrow> int \<Rightarrow> tx_output" where
  "ex_burn i v =
    \<lparr>out_Index = i, out_Value = of_int v, out_ScriptPubKey = [0x6a],
     out_ScriptType = TypeNullData, out_WitnessVersion = None,
     out_WitnessProgram = None, out_PubKeys = [], out_Address = [],
     out_ParticipantAddresses = []\<rparr>"

definition ex_coinbase :: "char \<Rightarrow> tx_output list \<Rightarrow> transaction" where
  "ex_coinbase c outs =
    \<lparr>tx_TxID = hx c, tx_WTxID = hx c, tx_Version = 1, tx_LockTime = 0, tx_Size = 100,
     tx_VSize = 100, tx_Weight = 400, tx_IsCoinbase = True,
     tx_Inputs = [\<lparr>in_Index = 0, in_PreviousOut = None, in_Coinbase = Some [1], in_ScriptSig = None,
                   in_Sequence = 0, in_Witness = []\<rparr>],
     tx_Outputs = outs\<rparr>"

definition ex_spend :: "char \<Rightarrow> outpoint \<Rightarrow> tx_output list \<Rightarrow> transaction" where
  "ex_spend c p outs =
    \<lparr>tx_TxID = hx c, tx_WTxID = hx c, tx_Version = 1, tx_LockTime = 0, tx_Size = 100,
     tx_VSize = 100, tx_Weight = 400, tx_IsCoinbase = False,
     tx_Inputs = [\<lparr>in_Index = 0, in_PreviousOut = Some p, in_Coinbase = None, in_ScriptSig = Some [],
                   in_Sequence = 0, in_Witness = []\<rparr>],
     tx_Outputs = outs\<rparr>"

definition ex_block :: "char \<Rightarrow> int \<Rightarrow> string \<Rightarrow> transaction list \<Rightarrow> block" where
  "ex_block c h prev txs =
    \<lparr>blk_Hash = hx c, blk_Height = h, blk_PreviousHash = prev, blk_MerkleRoot = hx c, blk_Time = 0,
     blk_Bits = [], blk_Difficulty = 0, blk_Nonce = 0, blk_Size = 100, blk_Weight = 400,
     blk_TxCount = int (length txs), blk_Transactions = txs\<rparr>"

definition ex_b0 :: block where
  "ex_b0 = ex_block CHR ''0'' 0 [] [ex_coinbase CHR ''a'' [ex_out 0 50 ''z'']]"
definition ex_b1 :: block where
  "ex_b1 = ex_block CHR ''1'' 1 (hx CHR ''0'') [ex_coinbase CHR ''b'' [ex_out 0 100 ''a'']]"
definition ex_b2 :: block where
  "ex_b2 = ex_block CHR ''2'' 2 (hx CHR ''1'')
     [ex_coinbase CHR ''c'' [ex_out 0 30 ''a''],
      ex_spend CHR ''d'' (hx CHR ''b'', 0) [ex_out 0 60 ''b'', ex_burn 1 10]]"

definition ex_store :: store where "ex_store = New (\<lambda>xs. xs)"

section \<open>Evaluation\<close>

named_theorems eval_store \<open>equations that evaluate store operations on concrete blocks\<close>

lemma hx_simps [eval_store]:
  "hx c = hx c' \<longleftrightarrow> c = c'" "hx c \<noteq> []" "[] \<noteq> hx c" "is_hash64 (hx c) \<longleftrightarrow> is_lower_hex c"
  by (simp_all add: hx_def)

lemma is_lower_hex_chars [eval_store]:
  "is_lower_hex CHR ''0''" "is_lower_hex CHR ''1''" "is_lower_hex CHR ''2''" "is_lower_hex CHR ''3''"
  "is_lower_hex CHR ''a''" "is_lower_hex CHR ''b''" "is_lower_hex CHR ''c''" "is_lower_hex CHR ''d''"
  "is_lower_hex CHR ''e''" "is_lower_hex CHR ''f''"
  by (simp_all add: is_lower_hex_def less_eq_char_def)

lemma tget_simps [eval_store]:
  "tget [] k = None" "tget ((k', v) # t) k = (if k = k' then Some v else tget t k)"
  by (auto simp: tget_def)

lemma tinsert_simps [eval_store]:
  "tinsert k v [] = [(k, v)]" "tinsert k v (r # t) = r # tinsert k v t"
  by (simp_all add: tinsert_def)

lemma tupdate_simps [eval_store]:
  "tupdate P f [] = []" "tupdate P f ((k, v) # t) = (k, if P k v then f v else v) # tupdate P f t"
  by (simp_all add: tupdate_def)

lemma tdelete_simps [eval_store]:
  "tdelete P [] = []" "tdelete P ((k, v) # t) = (if P k v then tdelete P t else (k, v) # tdelete P t)"
  by (simp_all add: tdelete_def)

lemma tcount_simps [eval_store]:
  "tcount P [] = 0" "tcount P ((k, v) # t) = (if P k v then 1 + tcount P t else tcount P t)"
  by (simp_all add: tcount_def)

lemma bucket_small [eval_store]:
  "bucketForBalance 0 = None" "0 < v \<Longrightarrow> v < 100000000 \<Longrightarrow> bucketForBalance v = Some ''lt_1''"
  by (simp_all add: bucketForBalance_def distributionBuckets_def boundedBucket_def)

lemma DistributionBucketIDs_eq [eval_store]:
  "DistributionBucketIDs = [''lt_1'', ''1_10'', ''10_100'', ''100_1k'', ''1k_10k'', ''10k_100k'',
    ''100k_1m'', ''gte_1m'']"
  by (simp add: DistributionBucketIDs_def distributionBuckets_def boundedBucket_def)

text \<open>Evaluate what is bound before what it is bound in.\<close>

lemma rbind_lazy: "m = m' \<Longrightarrow> rbind m f = rbind m' f"
  by simp

lemma BlockSubsidy_mainnet_0 [eval_store]:
  "0 \<le> h \<Longrightarrow> h < 500000 \<Longrightarrow> BlockSubsidy MainnetSchedule h = Inr 10000000000"
  using BlockSubsidy_eq [of MainnetSchedule "nat h"]
  by (simp add: network_schedule_def MainnetSchedule_def i64_defs subsidy_at_def era_subsidy_def)

lemmas eval_defs [eval_store] =
  ex_b0_def ex_b1_def ex_b2_def ex_block_def ex_coinbase_def ex_spend_def ex_out_def ex_burn_def
  ex_store_def New_def init_db_def
  ApplyBlock_def validateBlockShape_def check_tx_shape_def check_input_shape_def for_each_def
  checkCanonicalContinuity_def blen_def uint32_of_def applyBlockHeader_def block_row_of_def
  same_block_def insertOrVerifyIdempotent_def block_checks_def in_i32_def in_u32_def i64_defs
  canonical_at_def apply_transactions_def applyTransaction_def transaction_fee_def sum_checked_def
  checkPrevout_def markSpent_def spend_of_def has_block_tx_def has_witness_def WitnessStack_IsEmpty_def
  insert_transaction_def insert_variant_def insert_block_transaction_def verify_children_def
  verifyExactCount_def tx_checks_def variant_checks_def input_checks_def output_checks_def
  witness_metadata_ok_def insert_input_def applyInput_def in_row_of_def apply_outputs_def
  applyOutput_def insert_output_def out_row_of_def apply_address_def apply_participants_def
  create_utxo_def output_type_def IsUnspendable_def mark_inputs_def touch_def update_touched_def
  recomputeAddressTracked_def recomputeAddress_def address_totals_def addr_utxos_def spent_ids_def
  activity_height_def min_option_def max_option_def currentAddressBalance_def
  newDistributionDelta_def observe_def delta_add_def bucketsTouched_def applyDistributionDeltas_def
  apply_bucket_delta_def setDistributionAnchor_def checkpoint_of_def set_sync_state_def
  tupsert_def applyBlockAccounting_def sumOutputValues_def ComputeBlockFacts_def checkedAdd_eq
  insert_accounting_def acc_row_of_def acc_checks_def applySupplyRollup_def rollup_parent_def
  localExcludedOutputValue_def output_excluded_def next_rollup_def zero_rollup_def rollup_checks_def
  genesisRollupExists_def Satoshis_def addChecked_def subChecked_def add64_def sub64_def wrap64_def
  guard_def of_option_def Let_def

definition ex_d0 :: db where
  "ex_d0 =
   \<lparr>sync_state = (0, Some (hx CHR ''0'')),
   blocks =
   [(hx CHR ''0'',
   \<lparr>b_height = 0, b_prev = None, b_merkle = hx CHR ''0'',
   b_time = 0, b_bits = [], b_difficulty = 0, b_nonce = 0,
   b_size = 100, b_weight = 400, b_tx_count = 1,
   b_canonical = True\<rparr>)],
   transactions =
   [(hx CHR ''a'',
   \<lparr>t_version = 1, t_locktime = 0, t_is_coinbase = True,
   t_fee = None\<rparr>)],
   transaction_variants =
   [(hx CHR ''a'',
   \<lparr>v_txid = hx CHR ''a'', v_size = 100, v_vsize = 100,
   v_weight = 400\<rparr>)],
   block_transactions =
   [((hx CHR ''0'', 0),
   \<lparr>bt_txid = hx CHR ''a'', bt_wtxid = hx CHR ''a''\<rparr>)],
   transaction_inputs =
   [((hx CHR ''a'', 0),
   \<lparr>i_prev = None, i_coinbase = Some [1], i_script_sig = None,
   i_sequence = 0\<rparr>)],
   transaction_input_witness = [],
   transaction_outputs =
   [((hx CHR ''a'', 0),
   \<lparr>o_value = 50, o_script = 82 # 32 # replicate 32 17,
   o_type = TypeP2QPK, o_wver = Some 2,
   o_wprog = Some (replicate 32 17)\<rparr>)],
   output_addresses = [((hx CHR ''a'', 0), ''z'')],
   output_participants = [], utxo_state = [], addresses = [],
   block_accounting =
   [(hx CHR ''0'',
   \<lparr>c_subsidy = 10000000000, c_fee = 0, c_coinbase = 50,
   c_unclaimed = 9999999950\<rparr>)],
   block_supply_rollup =
   [(hx CHR ''0'',
   \<lparr>r_excluded = 50, r_cum_subsidy = 10000000000, r_cum_fee = 0,
   r_cum_coinbase = 50, r_cum_unclaimed = 9999999950,
   r_cum_excluded = 50, r_cum_utxo = 0\<rparr>)],
   distribution =
   [(''lt_1'', 0, 0), (''1_10'', 0, 0), (''10_100'', 0, 0),
   (''100_1k'', 0, 0), (''1k_10k'', 0, 0), (''10k_100k'', 0, 0),
   (''100k_1m'', 0, 0), (''gte_1m'', 0, 0)],
   distribution_state = (0, Some (hx CHR ''0''))\<rparr>"

lemma ex_d0_step: "ApplyBlock ex_store ex_b0 init_db = Inr ex_d0"
  by (simp add: eval_store ex_d0_def cong: rbind_lazy let_weak_cong)

definition ex_d1 :: db where
  "ex_d1 =
   \<lparr>sync_state = (1, Some (hx CHR ''1'')),
   blocks =
   [(hx CHR ''0'',
   \<lparr>b_height = 0, b_prev = None, b_merkle = hx CHR ''0'',
   b_time = 0, b_bits = [], b_difficulty = 0, b_nonce = 0,
   b_size = 100, b_weight = 400, b_tx_count = 1,
   b_canonical = True\<rparr>),
   (hx CHR ''1'',
   \<lparr>b_height = 1, b_prev = Some (hx CHR ''0''),
   b_merkle = hx CHR ''1'', b_time = 0, b_bits = [],
   b_difficulty = 0, b_nonce = 0, b_size = 100, b_weight = 400,
   b_tx_count = 1, b_canonical = True\<rparr>)],
   transactions =
   [(hx CHR ''a'',
   \<lparr>t_version = 1, t_locktime = 0, t_is_coinbase = True,
   t_fee = None\<rparr>),
   (hx CHR ''b'',
   \<lparr>t_version = 1, t_locktime = 0, t_is_coinbase = True,
   t_fee = None\<rparr>)],
   transaction_variants =
   [(hx CHR ''a'',
   \<lparr>v_txid = hx CHR ''a'', v_size = 100, v_vsize = 100,
   v_weight = 400\<rparr>),
   (hx CHR ''b'',
   \<lparr>v_txid = hx CHR ''b'', v_size = 100, v_vsize = 100,
   v_weight = 400\<rparr>)],
   block_transactions =
   [((hx CHR ''0'', 0),
   \<lparr>bt_txid = hx CHR ''a'', bt_wtxid = hx CHR ''a''\<rparr>),
   ((hx CHR ''1'', 0),
   \<lparr>bt_txid = hx CHR ''b'', bt_wtxid = hx CHR ''b''\<rparr>)],
   transaction_inputs =
   [((hx CHR ''a'', 0),
   \<lparr>i_prev = None, i_coinbase = Some [1], i_script_sig = None,
   i_sequence = 0\<rparr>),
   ((hx CHR ''b'', 0),
   \<lparr>i_prev = None, i_coinbase = Some [1], i_script_sig = None,
   i_sequence = 0\<rparr>)],
   transaction_input_witness = [],
   transaction_outputs =
   [((hx CHR ''a'', 0),
   \<lparr>o_value = 50, o_script = 82 # 32 # replicate 32 17,
   o_type = TypeP2QPK, o_wver = Some 2,
   o_wprog = Some (replicate 32 17)\<rparr>),
   ((hx CHR ''b'', 0),
   \<lparr>o_value = 100, o_script = 82 # 32 # replicate 32 17,
   o_type = TypeP2QPK, o_wver = Some 2,
   o_wprog = Some (replicate 32 17)\<rparr>)],
   output_addresses =
   [((hx CHR ''a'', 0), ''z''), ((hx CHR ''b'', 0), ''a'')],
   output_participants = [],
   utxo_state =
   [((hx CHR ''b'', 0),
   \<lparr>u_block = hx CHR ''1'', u_height = 1, u_spend = None\<rparr>)],
   addresses =
   [(''a'',
   \<lparr>a_received = 100, a_sent = 0, a_balance = 100, a_tx_count = 1,
   a_first_seen = Some 1, a_last_seen = Some 1\<rparr>)],
   block_accounting =
   [(hx CHR ''0'',
   \<lparr>c_subsidy = 10000000000, c_fee = 0, c_coinbase = 50,
   c_unclaimed = 9999999950\<rparr>),
   (hx CHR ''1'',
   \<lparr>c_subsidy = 10000000000, c_fee = 0, c_coinbase = 100,
   c_unclaimed = 9999999900\<rparr>)],
   block_supply_rollup =
   [(hx CHR ''0'',
   \<lparr>r_excluded = 50, r_cum_subsidy = 10000000000, r_cum_fee = 0,
   r_cum_coinbase = 50, r_cum_unclaimed = 9999999950,
   r_cum_excluded = 50, r_cum_utxo = 0\<rparr>),
   (hx CHR ''1'',
   \<lparr>r_excluded = 0, r_cum_subsidy = 20000000000, r_cum_fee = 0,
   r_cum_coinbase = 150, r_cum_unclaimed = 19999999850,
   r_cum_excluded = 50, r_cum_utxo = 100\<rparr>)],
   distribution =
   [(''lt_1'', 1, 100), (''1_10'', 0, 0), (''10_100'', 0, 0),
   (''100_1k'', 0, 0), (''1k_10k'', 0, 0), (''10k_100k'', 0, 0),
   (''100k_1m'', 0, 0), (''gte_1m'', 0, 0)],
   distribution_state = (1, Some (hx CHR ''1''))\<rparr>"

lemma ex_d1_step: "ApplyBlock ex_store ex_b1 ex_d0 = Inr ex_d1"
  by (simp add: eval_store ex_d0_def ex_d1_def cong: rbind_lazy let_weak_cong)

definition ex_d2 :: db where
  "ex_d2 =
   \<lparr>sync_state = (2, Some (hx CHR ''2'')),
   blocks =
   [(hx CHR ''0'',
   \<lparr>b_height = 0, b_prev = None, b_merkle = hx CHR ''0'',
   b_time = 0, b_bits = [], b_difficulty = 0, b_nonce = 0,
   b_size = 100, b_weight = 400, b_tx_count = 1,
   b_canonical = True\<rparr>),
   (hx CHR ''1'',
   \<lparr>b_height = 1, b_prev = Some (hx CHR ''0''),
   b_merkle = hx CHR ''1'', b_time = 0, b_bits = [],
   b_difficulty = 0, b_nonce = 0, b_size = 100, b_weight = 400,
   b_tx_count = 1, b_canonical = True\<rparr>),
   (hx CHR ''2'',
   \<lparr>b_height = 2, b_prev = Some (hx CHR ''1''),
   b_merkle = hx CHR ''2'', b_time = 0, b_bits = [],
   b_difficulty = 0, b_nonce = 0, b_size = 100, b_weight = 400,
   b_tx_count = 2, b_canonical = True\<rparr>)],
   transactions =
   [(hx CHR ''a'',
   \<lparr>t_version = 1, t_locktime = 0, t_is_coinbase = True,
   t_fee = None\<rparr>),
   (hx CHR ''b'',
   \<lparr>t_version = 1, t_locktime = 0, t_is_coinbase = True,
   t_fee = None\<rparr>),
   (hx CHR ''c'',
   \<lparr>t_version = 1, t_locktime = 0, t_is_coinbase = True,
   t_fee = None\<rparr>),
   (hx CHR ''d'',
   \<lparr>t_version = 1, t_locktime = 0, t_is_coinbase = False,
   t_fee = Some 30\<rparr>)],
   transaction_variants =
   [(hx CHR ''a'',
   \<lparr>v_txid = hx CHR ''a'', v_size = 100, v_vsize = 100,
   v_weight = 400\<rparr>),
   (hx CHR ''b'',
   \<lparr>v_txid = hx CHR ''b'', v_size = 100, v_vsize = 100,
   v_weight = 400\<rparr>),
   (hx CHR ''c'',
   \<lparr>v_txid = hx CHR ''c'', v_size = 100, v_vsize = 100,
   v_weight = 400\<rparr>),
   (hx CHR ''d'',
   \<lparr>v_txid = hx CHR ''d'', v_size = 100, v_vsize = 100,
   v_weight = 400\<rparr>)],
   block_transactions =
   [((hx CHR ''0'', 0),
   \<lparr>bt_txid = hx CHR ''a'', bt_wtxid = hx CHR ''a''\<rparr>),
   ((hx CHR ''1'', 0),
   \<lparr>bt_txid = hx CHR ''b'', bt_wtxid = hx CHR ''b''\<rparr>),
   ((hx CHR ''2'', 0),
   \<lparr>bt_txid = hx CHR ''c'', bt_wtxid = hx CHR ''c''\<rparr>),
   ((hx CHR ''2'', Suc 0),
   \<lparr>bt_txid = hx CHR ''d'', bt_wtxid = hx CHR ''d''\<rparr>)],
   transaction_inputs =
   [((hx CHR ''a'', 0),
   \<lparr>i_prev = None, i_coinbase = Some [1], i_script_sig = None,
   i_sequence = 0\<rparr>),
   ((hx CHR ''b'', 0),
   \<lparr>i_prev = None, i_coinbase = Some [1], i_script_sig = None,
   i_sequence = 0\<rparr>),
   ((hx CHR ''c'', 0),
   \<lparr>i_prev = None, i_coinbase = Some [1], i_script_sig = None,
   i_sequence = 0\<rparr>),
   ((hx CHR ''d'', 0),
   \<lparr>i_prev = Some (hx CHR ''b'', 0), i_coinbase = None,
   i_script_sig = Some [], i_sequence = 0\<rparr>)],
   transaction_input_witness = [],
   transaction_outputs =
   [((hx CHR ''a'', 0),
   \<lparr>o_value = 50, o_script = 82 # 32 # replicate 32 17,
   o_type = TypeP2QPK, o_wver = Some 2,
   o_wprog = Some (replicate 32 17)\<rparr>),
   ((hx CHR ''b'', 0),
   \<lparr>o_value = 100, o_script = 82 # 32 # replicate 32 17,
   o_type = TypeP2QPK, o_wver = Some 2,
   o_wprog = Some (replicate 32 17)\<rparr>),
   ((hx CHR ''c'', 0),
   \<lparr>o_value = 30, o_script = 82 # 32 # replicate 32 17,
   o_type = TypeP2QPK, o_wver = Some 2,
   o_wprog = Some (replicate 32 17)\<rparr>),
   ((hx CHR ''d'', 0),
   \<lparr>o_value = 60, o_script = 82 # 32 # replicate 32 17,
   o_type = TypeP2QPK, o_wver = Some 2,
   o_wprog = Some (replicate 32 17)\<rparr>),
   ((hx CHR ''d'', Suc 0),
   \<lparr>o_value = 10, o_script = [106], o_type = TypeNullData,
   o_wver = None, o_wprog = None\<rparr>)],
   output_addresses =
   [((hx CHR ''a'', 0), ''z''), ((hx CHR ''b'', 0), ''a''),
   ((hx CHR ''c'', 0), ''a''), ((hx CHR ''d'', 0), ''b'')],
   output_participants = [],
   utxo_state =
   [((hx CHR ''b'', 0),
   \<lparr>u_block = hx CHR ''1'', u_height = 1,
   u_spend =
   Some
   \<lparr>s_txid = hx CHR ''d'', s_vin = 0, s_block = hx CHR ''2'',
   s_height = 2\<rparr>\<rparr>),
   ((hx CHR ''c'', 0),
   \<lparr>u_block = hx CHR ''2'', u_height = 2, u_spend = None\<rparr>),
   ((hx CHR ''d'', 0),
   \<lparr>u_block = hx CHR ''2'', u_height = 2, u_spend = None\<rparr>)],
   addresses =
   [(''a'',
   \<lparr>a_received = 130, a_sent = 100, a_balance = 30, a_tx_count = 3,
   a_first_seen = Some 1, a_last_seen = Some 2\<rparr>),
   (''b'',
   \<lparr>a_received = 60, a_sent = 0, a_balance = 60, a_tx_count = 1,
   a_first_seen = Some 2, a_last_seen = Some 2\<rparr>)],
   block_accounting =
   [(hx CHR ''0'',
   \<lparr>c_subsidy = 10000000000, c_fee = 0, c_coinbase = 50,
   c_unclaimed = 9999999950\<rparr>),
   (hx CHR ''1'',
   \<lparr>c_subsidy = 10000000000, c_fee = 0, c_coinbase = 100,
   c_unclaimed = 9999999900\<rparr>),
   (hx CHR ''2'',
   \<lparr>c_subsidy = 10000000000, c_fee = 30, c_coinbase = 30,
   c_unclaimed = 10000000000\<rparr>)],
   block_supply_rollup =
   [(hx CHR ''0'',
   \<lparr>r_excluded = 50, r_cum_subsidy = 10000000000, r_cum_fee = 0,
   r_cum_coinbase = 50, r_cum_unclaimed = 9999999950,
   r_cum_excluded = 50, r_cum_utxo = 0\<rparr>),
   (hx CHR ''1'',
   \<lparr>r_excluded = 0, r_cum_subsidy = 20000000000, r_cum_fee = 0,
   r_cum_coinbase = 150, r_cum_unclaimed = 19999999850,
   r_cum_excluded = 50, r_cum_utxo = 100\<rparr>),
   (hx CHR ''2'',
   \<lparr>r_excluded = 10, r_cum_subsidy = 30000000000, r_cum_fee = 30,
   r_cum_coinbase = 180, r_cum_unclaimed = 29999999850,
   r_cum_excluded = 60, r_cum_utxo = 90\<rparr>)],
   distribution =
   [(''lt_1'', 2, 90), (''1_10'', 0, 0), (''10_100'', 0, 0),
   (''100_1k'', 0, 0), (''1k_10k'', 0, 0), (''10k_100k'', 0, 0),
   (''100k_1m'', 0, 0), (''gte_1m'', 0, 0)],
   distribution_state = (2, Some (hx CHR ''2''))\<rparr>"

lemma ex_d2_step: "ApplyBlock ex_store ex_b2 ex_d1 = Inr ex_d2"
  by (simp add: eval_store ex_d1_def ex_d2_def cong: rbind_lazy let_weak_cong)

end
