(* ===== verification/StoreAddresses.thy ===== *)
theory StoreAddresses
  imports StoreChain "HOL-Library.Multiset"
begin

text \<open>
  The address cache: after every operation the cached row of an address is what a recomputation
  from the UTXO tables would give, for every address, although only the touched ones are recomputed.
\<close>

declare split_paired_All [simp del] split_paired_Ex [simp del]

section \<open>References the schema guarantees\<close>

definition refs_ok :: "db \<Rightarrow> bool" where
  "refs_ok d \<longleftrightarrow> db_wf d
    \<and> (\<forall>op a. tget (output_addresses d) op = Some a \<longrightarrow> a \<noteq> [] \<and> tget (transaction_outputs d) op \<noteq> None)
    \<and> (\<forall>op u. tget (utxo_state d) op = Some u \<longrightarrow> tget (transaction_outputs d) op \<noteq> None)"

lemma refs_okD:
  "refs_ok d \<Longrightarrow> tget (output_addresses d) op = Some a \<Longrightarrow> a \<noteq> [] \<and> tget (transaction_outputs d) op \<noteq> None"
  "refs_ok d \<Longrightarrow> tget (utxo_state d) op = Some u \<Longrightarrow> tget (transaction_outputs d) op \<noteq> None"
  unfolding refs_ok_def by blast+

text \<open>The coin of an output, if it has one: its value and its row.\<close>

definition coin :: "db \<Rightarrow> outpoint \<Rightarrow> (int \<times> utxo_row) option" where
  "coin d op =
    (case (tget (transaction_outputs d) op, tget (utxo_state d) op) of
       (Some o', Some u) \<Rightarrow> Some (o_value o', u) | _ \<Rightarrow> None)"

lemma addr_utxos_coin:
  "addr_utxos d a = concat (map (\<lambda>(op, a'). if a' \<noteq> a then []
     else case coin d op of None \<Rightarrow> [] | Some (v, u) \<Rightarrow> [(op, v, u)]) (output_addresses d))"
proof -
  have "(if a' \<noteq> a then [] else case (tget (transaction_outputs d) op, tget (utxo_state d) op) of
        (Some o', Some u) \<Rightarrow> [(op, o_value o', u)] | _ \<Rightarrow> [])
    = (if a' \<noteq> a then [] else case coin d op of None \<Rightarrow> [] | Some (v, u) \<Rightarrow> [(op, v, u)])" for op a'
    by (simp add: coin_def split: option.splits)
  then show ?thesis unfolding addr_utxos_def by (simp only:)
qed

lemma addr_utxos_cong:
  assumes "twf (output_addresses d)" "output_addresses e = output_addresses d"
    and "\<And>op. tget (output_addresses d) op = Some a \<Longrightarrow> coin e op = coin d op"
  shows "addr_utxos e a = addr_utxos d a"
  unfolding addr_utxos_coin assms(2)
  by (intro arg_cong [of _ _ concat] map_cong refl)
    (use assms(3) in_set_tget [OF assms(1)] in \<open>auto split: option.splits\<close>)

lemma addr_utxos_tables:
  "output_addresses e = output_addresses d \<Longrightarrow> transaction_outputs e = transaction_outputs d \<Longrightarrow>
    utxo_state e = utxo_state d \<Longrightarrow> addr_utxos e a = addr_utxos d a"
  unfolding addr_utxos_def by (simp only:)

lemma addr_utxos_insert_address:
  assumes "a \<noteq> addr"
  shows "addr_utxos (d\<lparr>output_addresses := tinsert op addr (output_addresses d)\<rparr>) a = addr_utxos d a"
proof -
  have c: "coin (d\<lparr>output_addresses := t\<rparr>) = coin d" for t by (simp add: coin_def fun_eq_iff)
  show ?thesis unfolding addr_utxos_coin c using assms by (simp add: tinsert_def)
qed

lemma refs_ok_db_wf: "refs_ok d \<Longrightarrow> db_wf d"
  by (simp add: refs_ok_def)

lemma refs_ok_twf:
  "refs_ok d \<Longrightarrow> twf (output_addresses d)" "refs_ok d \<Longrightarrow> twf (utxo_state d)"
  "refs_ok d \<Longrightarrow> twf (transaction_outputs d)" "refs_ok d \<Longrightarrow> twf (addresses d)"
  by (simp_all add: refs_ok_def db_wf_def)

lemma addr_utxos_empty:
  assumes "refs_ok d"
  shows "addr_utxos d [] = []"
proof -
  have "a \<noteq> []" if "(op, a) \<in> set (output_addresses d)" for op a
    using that assms unfolding in_set_tget [OF refs_ok_twf(1) [OF assms]] refs_ok_def by metis
  then show ?thesis unfolding addr_utxos_def concat_eq_Nil_conv by auto
qed

section \<open>Statements move the coins of few addresses\<close>

text \<open>
  \<open>moves S d e\<close>: going from \<open>d\<close> to \<open>e\<close> keeps the references and the cache, and changes the coins of
  no address outside \<open>S\<close>.
\<close>

definition moves :: "string set \<Rightarrow> db \<Rightarrow> db \<Rightarrow> bool" where
  "moves S d e \<longleftrightarrow> (refs_ok d \<longrightarrow> refs_ok e \<and> addresses e = addresses d
    \<and> (\<forall>a. a \<notin> S \<longrightarrow> addr_utxos e a = addr_utxos d a))"

lemma movesI:
  assumes "refs_ok d \<Longrightarrow> refs_ok e" "refs_ok d \<Longrightarrow> addresses e = addresses d"
    and "\<And>a. refs_ok d \<Longrightarrow> a \<notin> S \<Longrightarrow> addr_utxos e a = addr_utxos d a"
  shows "moves S d e"
  using assms by (simp add: moves_def)

lemma moves_refl: "moves S d d"
  by (simp add: moves_def)

lemma moves_trans: "moves S d e \<Longrightarrow> moves T e f \<Longrightarrow> S \<subseteq> U \<Longrightarrow> T \<subseteq> U \<Longrightarrow> moves U d f"
  unfolding moves_def by (metis subsetD)

lemma moves_mono: "moves S d e \<Longrightarrow> S \<subseteq> T \<Longrightarrow> moves T d e"
  by (auto simp: moves_def)

lemma moves_same: "moves S d e \<Longrightarrow> moves S e f \<Longrightarrow> moves S d f"
  by (rule moves_trans) auto

lemma moves_empty_address: "moves (insert [] S) d e \<Longrightarrow> moves S d e"
  unfolding moves_def by (metis addr_utxos_empty insert_iff)

text \<open>Statements on other tables move nothing.\<close>

lemma moves_other:
  assumes "keeps d e" "output_addresses e = output_addresses d"
    "transaction_outputs e = transaction_outputs d" "utxo_state e = utxo_state d"
    "addresses e = addresses d"
  shows "moves {} d e"
proof (rule movesI)
  assume r: "refs_ok d"
  then have "db_wf e" using assms(1) refs_ok_db_wf by (auto simp: keeps_def)
  then show "refs_ok e" using r assms(2-4) by (simp add: refs_ok_def)
  show "addr_utxos e a = addr_utxos d a" for a by (rule addr_utxos_tables [OF assms(2-4)])
qed (simp add: assms(5))

lemma other_writes:
  "insert_transaction txn fee d = Inr (fresh, e) \<Longrightarrow> moves {} d e"
  "insert_variant txn d = Inr (fresh, e) \<Longrightarrow> moves {} d e"
  "insert_block_transaction bh i txn d = Inr e \<Longrightarrow> moves {} d e"
  "insert_input txid inp d = Inr e \<Longrightarrow> moves {} d e"
  "apply_witness_item txid wtxid vin item d = Inr e \<Longrightarrow> moves {} d e"
  "apply_participant op p d = Inr e \<Longrightarrow> moves {} d e"
  "insert_accounting facts d = Inr e \<Longrightarrow> moves {} d e"
  by ((rule moves_other; (erule writes_keep)?; clarsimp simp: insert_transaction_def
        insert_variant_def insert_block_transaction_def insert_input_def apply_witness_item_def
        apply_participant_def insert_accounting_def Let_def result_simps split: prod.splits); fail)+

lemma applyBlockHeader_moves: "applyBlockHeader b d = Inr (fresh, e) \<Longrightarrow> moves {} d e"
  by (rule moves_other, erule applyBlockHeader_keeps)
    (auto simp: applyBlockHeader_def Let_def result_simps split: if_splits option.splits)

lemma applySupplyRollup_moves: "applySupplyRollup b cp facts d = Inr e \<Longrightarrow> moves {} d e"
  by (rule moves_other, erule applySupplyRollup_keeps)
    (auto simp: applySupplyRollup_def result_simps split: option.splits)

lemma moves_loop:
  "fold_res f xs d = Inr e \<Longrightarrow> (\<And>x d e. f x d = Inr e \<Longrightarrow> moves {} d e) \<Longrightarrow> moves {} d e"
  by (rule fold_res_relation [of f xs]) (auto intro: moves_refl moves_same)

lemma applyInput_moves: "applyInput txid wtxid vf inp d = Inr e \<Longrightarrow> moves {} d e"
  unfolding applyInput_def rbind_eq_Inr_iff
  by (elim exE conjE, rule moves_same, erule other_writes, erule moves_loop, erule other_writes)

lemma apply_participants_moves:
  assumes "apply_participants op fresh out d = Inr e"
  shows "moves {} d e"
proof (cases "out_ScriptType out = TypeMultisig")
  case True
  with assms obtain ps where "fold_res (apply_participant op) ps d = Inr e"
    by (auto simp: apply_participants_def result_simps)
  then show ?thesis by (rule moves_loop) (erule other_writes)
next
  case False
  with assms show ?thesis by (simp add: apply_participants_def moves_refl)
qed

section \<open>The statements of an output and of a spend\<close>

text \<open>A new output row is no coin yet.\<close>

lemma insert_output_moves:
  assumes "insert_output txid out d = Inr (fresh, e)"
  shows "moves {} d e"
proof (rule movesI)
  assume r: "refs_ok d"
  obtain t where i: "insertOrVerifyIdempotent (output_checks (out_Index out) (out_row_of out))
      (tget (transactions d) txid \<noteq> None) (txid, out_Index out) (out_row_of out)
      (\<lambda>old. old = out_row_of out) (transaction_outputs d) = Inr (fresh, t)"
    and e: "e = d\<lparr>transaction_outputs := t\<rparr>"
    using assms by (auto simp: insert_output_def Let_def result_simps)
  have le: "tget (transaction_outputs d) \<subseteq>\<^sub>m tget t"
    using insertOrVerify_le [OF i refs_ok_twf(3) [OF r]] by simp
  then have kept: "tget t op = tget (transaction_outputs d) op"
    if "tget (transaction_outputs d) op \<noteq> None" for op
    using that by (auto simp: map_le_def dom_def)
  have "db_wf e" using writes_keep(6) [OF assms] r refs_ok_db_wf by (auto simp: keeps_def)
  moreover have "tget t op \<noteq> None" if "tget (transaction_outputs d) op \<noteq> None" for op
    using that kept [OF that] by simp
  ultimately show "refs_ok e" using r by (simp add: refs_ok_def e)
  have c: "coin e op = coin d op" for op
  proof (cases "tget (utxo_state d) op")
    case (Some u)
    then show ?thesis using kept [of op] r by (simp add: coin_def e refs_ok_def)
  qed (simp add: coin_def e split: option.splits)
  show "addr_utxos e a = addr_utxos d a" for a
    by (rule addr_utxos_cong [OF refs_ok_twf(1) [OF r]]) (simp_all add: e c [unfolded e])
  show "addresses e = addresses d" by (simp add: e)
qed

lemma insert_output_fresh:
  assumes "insert_output txid out d = Inr (fresh, e)" "refs_ok d" "fresh"
  shows "tget (output_addresses e) (txid, out_Index out) = None"
proof -
  have "tget (transaction_outputs d) (txid, out_Index out) = None"
    using assms(1,3) by (auto simp: insert_output_def Let_def result_simps
        insertOrVerifyIdempotent_def split: if_splits option.splits)
  then have "tget (output_addresses d) (txid, out_Index out) = None"
    using assms(2) unfolding refs_ok_def by (metis not_None_eq)
  then show ?thesis using assms(1)
    by (auto simp: insert_output_def Let_def result_simps)
qed

text \<open>The three outcomes of the destination row.\<close>

lemma apply_address_cases:
  assumes "apply_address op fresh addr d = Inr e"
    and "fresh \<Longrightarrow> tget (output_addresses d) op = None"
  obtains (none) "addr = []" "e = d" "tget (output_addresses d) op = None"
    | (old) "addr \<noteq> []" "e = d" "tget (output_addresses d) op = Some addr"
    | (new) "addr \<noteq> []" "e = d\<lparr>output_addresses := tinsert op addr (output_addresses d)\<rparr>"
      "tget (output_addresses d) op = None" "tget (transaction_outputs d) op \<noteq> None"
proof (cases "addr = []")
  case True
  with assms have "e = d \<and> tget (output_addresses d) op = None"
    by (cases fresh; cases "tget (output_addresses d) op") (simp_all add: apply_address_def)
  then show ?thesis using True none by blast
next
  case False
  then obtain f t where i: "insertOrVerifyIdempotent (output_type d op \<noteq> Some TypeMultisig)
      (tget (transaction_outputs d) op \<noteq> None) op addr (\<lambda>old. old = addr) (output_addresses d)
      = Inr (f, t)" and e: "e = d\<lparr>output_addresses := t\<rparr>"
    using assms by (auto simp: apply_address_def result_simps)
  from i show ?thesis
  proof (rule insertOrVerify_Inr)
    assume "tget (transaction_outputs d) op \<noteq> None" "tget (output_addresses d) op = None"
      "t = tinsert op addr (output_addresses d)"
    then show thesis using False e by (intro new) simp_all
  next
    fix a assume "tget (output_addresses d) op = Some a" "a = addr" "t = output_addresses d"
    then show thesis using False e by (intro old) simp_all
  qed
qed

lemma apply_address_moves:
  assumes "apply_address op fresh addr d = Inr e" "fresh \<Longrightarrow> tget (output_addresses d) op = None"
  shows "moves {addr} d e \<and> (refs_ok d \<longrightarrow>
    tget (output_addresses e) op = (if addr = [] then None else Some addr))"
proof -
  consider "addr = []" "e = d" "tget (output_addresses d) op = None"
    | "addr \<noteq> []" "e = d" "tget (output_addresses d) op = Some addr"
    | (new) "addr \<noteq> []" "e = d\<lparr>output_addresses := tinsert op addr (output_addresses d)\<rparr>"
      "tget (output_addresses d) op = None" "tget (transaction_outputs d) op \<noteq> None"
    using apply_address_cases [OF assms] by metis
  then show ?thesis
  proof cases
  case new
  have "refs_ok e" if "refs_ok d"
  proof -
    have "db_wf e" using writes_keep(7) [OF assms(1)] that refs_ok_db_wf by (auto simp: keeps_def)
    then show ?thesis using that new by (auto simp: refs_ok_def tget_tinsert)
  qed
  moreover have "addr_utxos e a = addr_utxos d a" if "a \<noteq> addr" for a
    unfolding new(2) by (rule addr_utxos_insert_address [OF that])
  ultimately show ?thesis using new by (simp add: moves_def tget_tinsert)
  qed (use moves_refl in auto)
qed

lemma create_utxo_moves:
  assumes "create_utxo bh op d = Inr e"
    and "refs_ok d \<Longrightarrow> tget (output_addresses d) op \<in> insert None (Some ` S)"
  shows "moves S d e"
proof (rule movesI)
  assume r: "refs_ok d"
  obtain u where e: "e = d \<or> e = d\<lparr>utxo_state := tinsert op u (utxo_state d)\<rparr>
      \<and> tget (utxo_state d) op = None \<and> tget (transaction_outputs d) op \<noteq> None"
    using assms(1) that
    by (auto simp: create_utxo_def result_simps insertOrVerifyIdempotent_def
        split: if_splits option.splits)
  have "db_wf e" using writes_keep(9) [OF assms(1)] r refs_ok_db_wf by (auto simp: keeps_def)
  moreover have "tget (transaction_outputs e) op' \<noteq> None" if "tget (utxo_state e) op' = Some u'"
    for op' u'
  proof (cases "op' = op")
    case True
    with e that refs_okD(2) [OF r, of op] show ?thesis by auto
  next
    case False
    then have "tget (utxo_state d) op' = Some u'" using that e by (auto simp: tget_tinsert)
    then have "tget (transaction_outputs d) op' \<noteq> None" by (rule refs_okD(2) [OF r])
    then show ?thesis using e by auto
  qed
  moreover have "a \<noteq> [] \<and> tget (transaction_outputs e) op' \<noteq> None"
    if "tget (output_addresses e) op' = Some a" for op' a
    using that e refs_okD(1) [OF r, of op' a] by auto
  ultimately show "refs_ok e" unfolding refs_ok_def by blast
  show "addresses e = addresses d" using e by auto
  show "addr_utxos e a = addr_utxos d a" if "a \<notin> S" for a
  proof (rule addr_utxos_cong [OF refs_ok_twf(1) [OF r]])
    show "output_addresses e = output_addresses d" using e by auto
    fix op' assume "tget (output_addresses d) op' = Some a"
    then have "op' \<noteq> op" using assms(2) [OF r] that by auto
    then have "tget (utxo_state e) op' = tget (utxo_state d) op'" using e by (auto simp: tget_tinsert)
    then show "coin e op' = coin d op'" using e by (auto simp: coin_def)
  qed
qed

lemma apply_participants_keeps_addresses:
  assumes "apply_participants op fresh out d = Inr e"
  shows "output_addresses e = output_addresses d"
proof (cases "out_ScriptType out = TypeMultisig")
  case True
  with assms obtain ps where "fold_res (apply_participant op) ps d = Inr e"
    by (auto simp: apply_participants_def result_simps)
  then show ?thesis
    by (rule fold_res_relation) (auto simp: apply_participant_def result_simps split: prod.splits)
next
  case False
  with assms show ?thesis by (simp add: apply_participants_def)
qed

lemma applyOutput_moves:
  assumes "applyOutput bh txid g out d = Inr (addr, e)"
  shows "moves {addr} d e"
  using assms
proof (rule applyOutputE)
  fix fresh d0 d1 d2
  assume i: "insert_output txid out d = Inr (fresh, d0)"
    and a: "apply_address (txid, out_Index out) fresh (out_Address out) d0 = Inr d1"
    and p: "apply_participants (txid, out_Index out) fresh out d1 = Inr d2"
    and c: "(if \<not> g \<and> \<not> IsUnspendable (out_ScriptPubKey out) then create_utxo bh (txid, out_Index out) d2
      else Inr d2) = Inr e" and addr: "addr = out_Address out"
  show ?thesis
  proof (cases "refs_ok d")
    case True
    have m0: "moves {} d d0" by (rule insert_output_moves [OF i])
    then have r0: "refs_ok d0" using True by (simp add: moves_def)
    note a' = apply_address_moves [OF a insert_output_fresh [OF i True]]
    have r1: "refs_ok d1" using a' r0 by (simp add: moves_def)
    have p': "output_addresses d2 = output_addresses d1"
      by (rule apply_participants_keeps_addresses [OF p])
    have "moves {addr} d2 e"
    proof (cases "\<not> g \<and> \<not> IsUnspendable (out_ScriptPubKey out)")
      case True
      then have "create_utxo bh (txid, out_Index out) d2 = Inr e" using c by simp
      then show ?thesis by (rule create_utxo_moves) (use a' r0 p' addr in auto)
    next
      case False
      with c show ?thesis by (simp add: moves_refl)
    qed
    with m0 a' apply_participants_moves [OF p] show ?thesis
      unfolding addr by (meson empty_subsetI moves_mono moves_same)
  qed (simp add: moves_def)
qed

lemma markSpent_moves:
  assumes "markSpent prev txid vin bh d = Inr (addr, e)"
  shows "moves {addr} d e"
proof (rule movesI)
  assume r: "refs_ok d"
  obtain f where e: "e = d \<or> e = d\<lparr>utxo_state := tupdate (\<lambda>k _. k = prev) f (utxo_state d)\<rparr>"
    and addr: "addr = (case tget (output_addresses d) prev of None \<Rightarrow> [] | Some a \<Rightarrow> a)"
  proof -
    have "\<exists>f. e = d \<or> e = d\<lparr>utxo_state := tupdate (\<lambda>k _. k = prev) f (utxo_state d)\<rparr>"
      using assms by (auto simp: markSpent_def result_simps split: option.splits if_splits)
    moreover have "output_addresses e = output_addresses d"
      "addr = (case tget (output_addresses e) prev of None \<Rightarrow> [] | Some a \<Rightarrow> a)"
      using assms by (auto simp: markSpent_def result_simps split: option.splits if_splits)
    ultimately show thesis using that by auto
  qed
  have "db_wf e" using markSpent_keeps [OF assms] r refs_ok_db_wf by (auto simp: keeps_def)
  moreover have "tget (transaction_outputs e) op \<noteq> None" if "tget (utxo_state e) op = Some u" for op u
  proof -
    have "tget (utxo_state d) op \<noteq> None" using that e by (auto simp: tget_tupdate)
    then show ?thesis using e refs_okD(2) [OF r, of op] by auto
  qed
  moreover have "a \<noteq> [] \<and> tget (transaction_outputs e) op \<noteq> None"
    if "tget (output_addresses e) op = Some a" for op a
    using that e refs_okD(1) [OF r, of op a] by auto
  ultimately show "refs_ok e" unfolding refs_ok_def by blast
  show "addresses e = addresses d" using e by auto
  show "addr_utxos e a = addr_utxos d a" if "a \<notin> {addr}" for a
  proof (rule addr_utxos_cong [OF refs_ok_twf(1) [OF r]])
    show "output_addresses e = output_addresses d" using e by auto
    fix op assume "tget (output_addresses d) op = Some a"
    then have "op \<noteq> prev" using addr that by auto
    then have "tget (utxo_state e) op = tget (utxo_state d) op"
      using e by (auto simp: tget_tupdate option.map_ident)
    then show "coin e op = coin d op" using e by (auto simp: coin_def)
  qed
qed

section \<open>The touched set covers every move\<close>

definition tracked :: "db \<times> string list \<Rightarrow> db \<times> string list \<Rightarrow> bool" where
  "tracked x y \<longleftrightarrow> set (snd x) \<subseteq> set (snd y) \<and> moves (set (snd y)) (fst x) (fst y)"

lemma tracked_refl: "tracked x x"
  by (simp add: tracked_def moves_refl)

lemma tracked_trans: "tracked x y \<Longrightarrow> tracked y z \<Longrightarrow> tracked x z"
  unfolding tracked_def by (meson moves_trans order_refl subset_trans)

lemma tracked_other: "moves {} d e \<Longrightarrow> tracked (d, T) (e, T)"
  by (simp add: tracked_def) (meson empty_subsetI moves_mono)

lemma tracked_touch: "moves {a} d e \<Longrightarrow> tracked (d, T) (e, touch a T)"
proof -
  assume m: "moves {a} d e"
  have "moves (set (touch a T)) d e"
  proof (cases "a = []")
    case True
    then have "moves {} d e" using m by (simp add: moves_empty_address)
    then show ?thesis by (rule moves_mono) simp
  next
    case False
    then show ?thesis by (intro moves_mono [OF m]) (simp add: touch_def)
  qed
  then show ?thesis by (auto simp: tracked_def touch_def)
qed

lemma apply_outputs_tracked:
  "apply_outputs bh txid g outs x = Inr y \<Longrightarrow> tracked x y"
  unfolding apply_outputs_def
  by (rule fold_res_relation [where R = tracked], assumption, rule tracked_refl, erule (1) tracked_trans)
    (auto simp: result_simps intro!: tracked_touch applyOutput_moves split: prod.splits)

lemma mark_inputs_tracked:
  "mark_inputs bh txid inps x = Inr y \<Longrightarrow> tracked x y"
  unfolding mark_inputs_def
  by (rule fold_res_relation [where R = tracked], assumption, rule tracked_refl, erule (1) tracked_trans)
    (auto simp: result_simps intro!: tracked_touch markSpent_moves split: prod.splits option.splits)

lemma applyTransaction_tracked:
  assumes "applyTransaction bh g i txn (d, T) = Inr (fee, e, T')"
  shows "tracked (d, T) (e, T')"
  using assms
proof (rule applyTransactionE)
  fix f1 d1 f2 d2 d3 d4 d5 T5
  assume "insert_transaction txn fee d = Inr (f1, d1)" "insert_variant txn d1 = Inr (f2, d2)"
    "insert_block_transaction bh i txn d2 = Inr d3"
    and l: "fold_res (applyInput (tx_TxID txn) (tx_WTxID txn) f2) (tx_Inputs txn) d3 = Inr d4"
    and o: "apply_outputs bh (tx_TxID txn) g (tx_Outputs txn) (d4, T) = Inr (d5, T5)"
    and m: "(if tx_IsCoinbase txn then Inr (d5, T5)
      else mark_inputs bh (tx_TxID txn) (tx_Inputs txn) (d5, T5)) = Inr (e, T')"
  then have "moves {} d d1" "moves {} d1 d2" "moves {} d2 d3" by (simp_all add: other_writes)
  moreover have "moves {} d3 d4" using l by (rule moves_loop) (rule applyInput_moves)
  ultimately have "tracked (d, T) (d4, T)" by (intro tracked_other) (meson moves_same)
  moreover have "tracked (d4, T) (d5, T5)" using o by (rule apply_outputs_tracked)
  moreover have "tracked (d5, T5) (e, T')"
    using m mark_inputs_tracked tracked_refl by (auto split: if_splits)
  ultimately show ?thesis by (meson tracked_trans)
qed

lemma apply_transactions_tracked:
  assumes "apply_transactions bh g txs d = Inr (fees, e, T)"
  shows "tracked (d, []) (e, T)"
proof -
  have "tracked (snd (0::int, d, [])) (snd (fees, e, T))"
    using assms unfolding apply_transactions_def
  proof (rule fold_res_relation [where R = "\<lambda>x y. tracked (snd x) (snd y)"])
    show "tracked (snd x) (snd z)" if "tracked (snd x) (snd y)" "tracked (snd y) (snd z)"
      for x y z :: "int \<times> db \<times> string list" using that by (rule tracked_trans)
  qed (auto simp: result_simps tracked_refl split: option.splits dest!: applyTransaction_tracked)
  then show ?thesis by simp
qed

section \<open>Recomputing the touched addresses repairs the cache\<close>

text \<open>What the cache has to hold for an address: its totals, or nothing if it has no transaction.\<close>

definition cached :: "db \<Rightarrow> string \<Rightarrow> addr_row option" where
  "cached d a =
    (if a_tx_count (address_totals d a) = 0 then None else Some (address_totals d a))"

lemma cached_cong: "addr_utxos e a = addr_utxos d a \<Longrightarrow> cached e a = cached d a"
  by (simp add: cached_def address_totals_def)

lemma cached_addresses [simp]: "cached (d\<lparr>addresses := t\<rparr>) a = cached d a"
  by (rule cached_cong, rule addr_utxos_tables) simp_all

lemma recomputeAddress_effect:
  assumes "recomputeAddress a d = Inr (bal, e)" "twf (addresses d)"
  shows "\<exists>t. e = d\<lparr>addresses := t\<rparr> \<and> twf t \<and> tget t = (tget (addresses d))(a := cached d a)"
    "bal = (case cached d a of None \<Rightarrow> 0 | Some r \<Rightarrow> a_balance r)"
  using assms
  by (auto simp: recomputeAddress_def result_simps Let_def cached_def twf_simps twf_tupsert
      tget_tupsert tget_tdelete fun_eq_iff split: if_splits option.splits)

lemma recompute_all_effect:
  assumes "fold_res recomputeAddressTracked T (d, \<delta>) = Inr (e, \<delta>')" "twf (addresses d)"
  shows "\<exists>t. e = d\<lparr>addresses := t\<rparr> \<and> twf t
    \<and> (\<forall>a. tget t a = (if a \<in> set T then cached d a else tget (addresses d) a))"
  using assms
proof (induction T arbitrary: d \<delta>)
  case Nil
  then show ?case by (auto intro!: exI [of _ "addresses d"])
next
  case (Cons x T)
  obtain bal d1 where r: "recomputeAddress x d = Inr (bal, d1)"
    and f: "fold_res recomputeAddressTracked T
      (d1, observe (currentAddressBalance d x) bal \<delta>) = Inr (e, \<delta>')"
  proof -
    obtain p where "recomputeAddressTracked x (d, \<delta>) = Inr p"
      "fold_res recomputeAddressTracked T p = Inr (e, \<delta>')"
      using Cons.prems(1) by (auto simp: result_simps)
    then show thesis
      using that by (auto simp: recomputeAddressTracked_def [of x] Let_def result_simps)
  qed
  obtain t1 where t1: "d1 = d\<lparr>addresses := t1\<rparr>" "twf t1"
    "tget t1 = (tget (addresses d))(x := cached d x)"
    using recomputeAddress_effect(1) [OF r Cons.prems(2)] by blast
  have "twf (addresses d1)" using t1 by simp
  from Cons.IH [OF f this] t1 show ?case by auto
qed

lemma applyDistributionDeltas_tables:
  assumes "applyDistributionDeltas \<delta> d = Inr e"
  shows "\<exists>t. e = d\<lparr>distribution := t\<rparr>"
  using assms unfolding applyDistributionDeltas_def
proof (rule fold_res_relation [where R = "\<lambda>d e. \<exists>t. e = d\<lparr>distribution := t\<rparr>"])
  show "\<exists>t. s = s\<lparr>distribution := t\<rparr>" for s :: db by (rule exI [of _ "distribution s"]) simp
qed (auto simp: apply_bucket_delta_def Let_def split: option.splits if_splits)

definition map_order_ok :: "store \<Rightarrow> bool" where
  "map_order_ok s \<longleftrightarrow> (\<forall>xs. mset (mapOrder s xs) = mset xs)"

lemma map_order_set: "map_order_ok s \<Longrightarrow> set (mapOrder s xs) = set xs"
  unfolding map_order_ok_def by (metis set_mset_mset)

definition addr_exact :: "db \<Rightarrow> bool" where
  "addr_exact d \<longleftrightarrow> refs_ok d \<and> (\<forall>a. tget (addresses d) a = cached d a)"

lemma addr_exact_tables:
  assumes "addr_exact d" "moves {} d e"
  shows "addr_exact e"
  using assms cached_cong [of e _ d] by (simp add: addr_exact_def moves_def)

text \<open>The touched list covers what moved, so recomputing it makes the cache exact again.\<close>

lemma update_touched_exact:
  assumes "map_order_ok s" "addr_exact d0" "moves (set T) d0 d" "update_touched s T h d = Inr e"
  shows "addr_exact e"
  using assms(4)
proof (rule update_touchedE)
  fix d1 \<delta> d2
  assume f: "fold_res recomputeAddressTracked (mapOrder s T) (d, newDistributionDelta) = Inr (d1, \<delta>)"
    and a: "applyDistributionDeltas \<delta> d1 = Inr d2" "setDistributionAnchor h d2 = Inr e"
  have r: "refs_ok d" "addresses d = addresses d0"
    and m: "\<And>x. x \<notin> set T \<Longrightarrow> cached d x = cached d0 x"
    using assms(2,3) by (auto simp: moves_def addr_exact_def intro: cached_cong)
  obtain t where t: "d1 = d\<lparr>addresses := t\<rparr>" "twf t"
    "\<And>a. tget t a = (if a \<in> set T then cached d a else tget (addresses d) a)"
    using recompute_all_effect [OF f refs_ok_twf(4) [OF r(1)]] map_order_set [OF assms(1)] by auto
  obtain t' where "d2 = d1\<lparr>distribution := t'\<rparr>" using applyDistributionDeltas_tables [OF a(1)] by blast
  then obtain cp where e: "e = d\<lparr>addresses := t, distribution := t', distribution_state := cp\<rparr>"
    using a(2) t(1) by (auto simp: setDistributionAnchor_def result_simps)
  have "db_wf e" using immutable.update_touched [OF assms(4)] refs_ok_db_wf [OF r(1)]
    by (simp add: keeps_def)
  then have "refs_ok e" using r(1) by (simp add: refs_ok_def e)
  moreover have "cached e a = cached d a" for a
    by (rule cached_cong, rule addr_utxos_tables) (simp_all add: e)
  moreover have "tget (addresses e) a = cached d a" for a
    using assms(2) m [of a] by (simp add: e t(3) r(2) addr_exact_def)
  ultimately show "addr_exact e" by (simp add: addr_exact_def)
qed

section \<open>Rolling back\<close>

lemma touch_all_set:
  "set (touch_all ops d T) = set T \<union> {a. a \<noteq> [] \<and> (\<exists>op \<in> set ops. tget (output_addresses d) op = Some a)}"
  unfolding touch_all_def
  by (induction ops arbitrary: T) (auto simp: touch_def split: option.splits)

lemma rollback_utxos_moves:
  assumes "rollback_utxos hs d = (e, T)"
  shows "moves (set T) d e"
proof (rule movesI)
  assume r: "refs_ok d"
  note w = refs_ok_twf(2) [OF r]
  let ?u1 = "tdelete (\<lambda>_ u. u_block u \<in> set hs) (utxo_state d)"
  let ?u2 = "tupdate (\<lambda>_ u. spent_in hs u) (\<lambda>u. u\<lparr>u_spend := None\<rparr>) ?u1"
  let ?ops = "map fst (filter (\<lambda>(_, u). u_block u \<in> set hs) (utxo_state d))"
  let ?ops' = "map fst (filter (\<lambda>(_, u). spent_in hs u) ?u1)"
  have e: "e = d\<lparr>utxo_state := ?u2, blocks := tupdate (\<lambda>k _. k \<in> set hs)
      (\<lambda>r. r\<lparr>b_canonical := False\<rparr>) (blocks d)\<rparr>"
    and T: "T = touch_all ?ops' (d\<lparr>utxo_state := ?u1\<rparr>) (touch_all ?ops (d\<lparr>utxo_state := ?u1\<rparr>) [])"
    using assms by (auto simp: rollback_utxos_def Let_def touch_all_def)
  show "addresses e = addresses d" by (simp add: e)
  have "db_wf e" using rollback_utxos_keeps [OF assms] refs_ok_db_wf [OF r] by (simp add: keeps_def)
  moreover have "tget (transaction_outputs e) op \<noteq> None" if "tget (utxo_state e) op = Some u" for op u
  proof -
    have "tget (utxo_state d) op \<noteq> None"
      using that by (auto simp: e tget_tupdate tget_tdelete [OF w] split: option.splits if_splits)
    then show ?thesis using refs_okD(2) [OF r, of op] by (auto simp: e)
  qed
  moreover have "a \<noteq> [] \<and> tget (transaction_outputs e) op \<noteq> None"
    if "tget (output_addresses e) op = Some a" for op a
    using that refs_okD(1) [OF r, of op a] by (simp add: e)
  ultimately show "refs_ok e" unfolding refs_ok_def by blast
  show "addr_utxos e a = addr_utxos d a" if a: "a \<notin> set T" for a
  proof (rule addr_utxos_cong [OF refs_ok_twf(1) [OF r]])
    show "output_addresses e = output_addresses d" by (simp add: e)
    fix op assume op: "tget (output_addresses d) op = Some a"
    then have "a \<noteq> []" using refs_okD(1) [OF r] by blast
    with a op have n: "op \<notin> set ?ops" "op \<notin> set ?ops'"
      unfolding T touch_all_set by auto
    have "tget (utxo_state e) op = tget (utxo_state d) op"
    proof (cases "tget (utxo_state d) op")
      case (Some u)
      have d: "u_block u \<notin> set hs"
        using n(1) tget_in_set [OF Some] by force
      then have "tget ?u1 op = Some u" using Some by (simp add: tget_tdelete [OF w])
      moreover from tget_in_set [OF this] n(2) have "\<not> spent_in hs u" by force
      ultimately show ?thesis using Some by (simp add: e tget_tupdate)
    qed (simp add: e tget_tupdate tget_tdelete [OF w])
    then show "coin e op = coin d op" by (simp add: coin_def e)
  qed
qed

section \<open>The invariant\<close>

lemma set_sync_state_moves: "set_sync_state h d = Inr e \<Longrightarrow> moves {} d e"
  by (rule moves_other, rule derived_writes_keep(4))
    (auto simp: set_sync_state_def result_simps)

lemma init_db_exact: "addr_exact init_db"
  by (simp add: addr_exact_def refs_ok_def init_db_wf)
    (simp add: init_db_def tget_def cached_def address_totals_def addr_utxos_def)

lemma ApplyBlock_exact:
  assumes "map_order_ok s" "addr_exact d" "ApplyBlock s b d = Inr e"
  shows "addr_exact e"
  using assms(3)
proof (rule ApplyBlockE)
  fix f1 d1 fees d2 T d3 facts d4 d5
  assume h: "applyBlockHeader b d = Inr (f1, d1)"
    and t: "apply_transactions (blk_Hash b) (blk_Height b = 0) (blk_Transactions b) d1 = Inr (fees, d2, T)"
    and u: "update_touched s T (blk_Hash b) d2 = Inr d3"
    and a: "applyBlockAccounting (accountingSchedule s) b fees d3 = Inr (facts, d4)"
    and r: "applySupplyRollup b (sync_state d) facts d4 = Inr d5" "set_sync_state (blk_Hash b) d5 = Inr e"
  have "addr_exact d1" using assms(2) applyBlockHeader_moves [OF h] by (rule addr_exact_tables)
  moreover have "moves (set T) d1 d2"
    using apply_transactions_tracked [OF t] by (simp add: tracked_def)
  ultimately have "addr_exact d3" using u by (rule update_touched_exact [OF assms(1)])
  moreover have "moves {} d3 d4" using a
    by (auto simp: applyBlockAccounting_def result_simps intro: other_writes)
  ultimately show "addr_exact e"
    using applySupplyRollup_moves [OF r(1)] set_sync_state_moves [OF r(2)] addr_exact_tables by blast
qed

lemma RollbackTo_exact:
  assumes "map_order_ok s" "addr_exact d" "RollbackTo s h d = Inr e"
  shows "addr_exact e"
  using assms(3)
proof (rule RollbackToE)
  fix a d1 T d2
  assume r: "(if 0 < length (orphan_hashes d (b_height a))
      then rollback_utxos (orphan_hashes d (b_height a)) d else (d, [])) = (d1, T)"
    and u: "update_touched s T h d1 = Inr d2" "set_sync_state h d2 = Inr e"
  have "moves (set T) d d1"
    using r by (auto split: if_splits intro: rollback_utxos_moves moves_refl)
  then have "addr_exact d2" using u(1) by (rule update_touched_exact [OF assms(1,2)])
  then show "addr_exact e" using set_sync_state_moves [OF u(2)] by (rule addr_exact_tables)
qed

interpretation cache: store_invariant s "\<lambda>_ _. map_order_ok s" addr_exact for s
  by unfold_locales
    (auto simp: init_db_exact attempt_def intro: ApplyBlock_exact RollbackTo_exact
      split: operation.splits)

end
