(* ===== verification/StoreDistribution.thy ===== *)
theory StoreDistribution
  imports StoreAddresses
begin

text \<open>
  The balance distribution: the eight buckets partition the positive balances, and the deltas
  accumulated over the touched addresses keep every bucket equal to what a count over the address
  table would give.
\<close>

section \<open>Wrap-around sums\<close>

lemma wrap64_add_left [simp]: "wrap64 (wrap64 x + y) = wrap64 (x + y)"
proof -
  obtain k where k: "wrap64 x = x + k * 18446744073709551616" using wrap64_period by blast
  show ?thesis
    using mod_mult_self1 [of "x + y + 9223372036854775808" k 18446744073709551616]
    unfolding k unfolding wrap64_def by (simp only: ac_simps)
qed

lemma wrap64_add_right [simp]: "wrap64 (y + wrap64 x) = wrap64 (y + x)"
  using wrap64_add_left [of x y] by (simp add: add.commute)

section \<open>Buckets\<close>

lemma bucketForBalance_ids:
  "bucketForBalance v = Some b \<Longrightarrow> b \<in> set DistributionBucketIDs \<and> 0 < v"
  by (auto simp: bucketForBalance_def distributionBuckets_def DistributionBucketIDs_def
      boundedBucket_def split: if_splits)

lemma bucketForBalance_zero [simp]: "bucketForBalance 0 = None"
  by (simp add: bucketForBalance_def)

lemma bucket_ids_distinct: "distinct DistributionBucketIDs"
  by (simp add: DistributionBucketIDs_def distributionBuckets_def boundedBucket_def)

text \<open>
  The buckets partition the positive balances: a balance has a bucket exactly when it is
  positive, and the bucket found is the only one of the eight whose bounds contain it.
\<close>

theorem buckets_partition:
  "(bucketForBalance v \<noteq> None \<longleftrightarrow> 0 < v)
   \<and> (bucketForBalance v = Some b \<longleftrightarrow>
        (\<exists>k \<in> set distributionBuckets. bk_id k = b \<and> bk_min k \<le> v
          \<and> (case bk_max k of None \<Rightarrow> True | Some m \<Rightarrow> v \<le> m)))"
  by (auto simp: bucketForBalance_def distributionBuckets_def boundedBucket_def)

section \<open>Bucket totals over the address table\<close>

definition in_bucket :: "string \<Rightarrow> (int \<Rightarrow> int) \<Rightarrow> string \<Rightarrow> addr_row \<Rightarrow> int" where
  "in_bucket b g a r = (if bucketForBalance (a_balance r) = Some b then g (a_balance r) else 0)"

definition bucket_total :: "(int \<Rightarrow> int) \<Rightarrow> string \<Rightarrow> db \<Rightarrow> int" where
  "bucket_total g b d = tsum (in_bucket b g) (addresses d)"

definition contribution :: "(int \<Rightarrow> int) \<Rightarrow> string \<Rightarrow> int \<Rightarrow> int" where
  "contribution g b v = (if bucketForBalance v = Some b then g v else 0)"

lemma contribution_zero [simp]: "contribution g b 0 = 0"
  by (simp add: contribution_def)

lemma in_bucket_contribution: "in_bucket b g a r = contribution g b (a_balance r)"
  by (simp add: in_bucket_def contribution_def)

text \<open>One row of a table is replaced or removed.\<close>

lemma tsum_upsert:
  assumes "twf t"
  shows "tsum f (tupsert k v t) = tsum f t - (case tget t k of None \<Rightarrow> 0 | Some v' \<Rightarrow> f k v') + f k v"
proof (cases "tget t k")
  case None
  then show ?thesis by (simp add: tupsert_def tab.total_ins [OF assms None])
next
  case (Some v')
  have "tsum f (tupdate (\<lambda>k' _. k' = k) (\<lambda>_. v) t) = tsum f t - f k v' + f k v"
    by (rule tab.total_upd_one [OF assms Some]) simp_all
  then show ?thesis using Some by (simp add: tupsert_def)
qed

lemma tsum_delete_key:
  assumes "twf t"
  shows "tsum f (tdelete (\<lambda>k' _. k' = k) t) = tsum f t - (case tget t k of None \<Rightarrow> 0 | Some v \<Rightarrow> f k v)"
proof (cases "tget t k")
  case None
  have "tdelete (\<lambda>k' _. k' = k) t = t"
    by (rule tdelete_none) (use None in \<open>auto simp: in_set_tget [OF assms]\<close>)
  then show ?thesis using None by simp
next
  case (Some v)
  have "tsum f t = tsum (\<lambda>k' v'. (if k' = k then 0 else f k' v') + (if k' = k then f k v' else 0)) t"
    by (rule tab.total_cong [OF assms]) simp
  also have "\<dots> = tsum (\<lambda>k' v'. if k' = k then 0 else f k' v') t + f k v"
    by (simp only: tab.total_add [OF assms] tab.total_at [OF assms Some])
  finally show ?thesis using Some by (simp add: tab.total_del [OF assms])
qed

text \<open>Recomputing one address moves its old balance out and its new one in.\<close>

lemma recompute_bucket_total:
  assumes "recomputeAddress a d = Inr (bal, e)" "twf (addresses d)"
  shows "bucket_total g b e = bucket_total g b d
    - contribution g b (currentAddressBalance d a) + contribution g b bal"
proof -
  have old: "(case tget (addresses d) a of None \<Rightarrow> 0 | Some r \<Rightarrow> in_bucket b g a r)
    = contribution g b (currentAddressBalance d a)"
    by (simp add: currentAddressBalance_def in_bucket_contribution split: option.split)
  let ?r = "address_totals d a"
  consider (empty) "e = d\<lparr>addresses := tdelete (\<lambda>k _. k = a) (addresses d)\<rparr>" "bal = 0"
    | (row) "e = d\<lparr>addresses := tupsert a ?r (addresses d)\<rparr>" "bal = a_balance ?r"
    using assms(1) by (auto simp: recomputeAddress_def Let_def result_simps split: if_splits)
  then show ?thesis
  proof cases
    case empty
    then show ?thesis by (simp add: bucket_total_def tsum_delete_key [OF assms(2)] old)
  next
    case row
    then show ?thesis
      by (simp add: bucket_total_def tsum_upsert [OF assms(2)] old) (simp add: in_bucket_contribution)
  qed
qed

text \<open>The accumulated deltas are the change of the totals, up to wrap-around.\<close>

definition delta_tracks :: "db \<Rightarrow> db \<times> distribution_delta \<Rightarrow> bool" where
  "delta_tracks d x \<longleftrightarrow> twf (addresses (fst x))
    \<and> (\<forall>b. wrap64 (bucket_total (\<lambda>_. 1) b d + dl_count (snd x) b)
            = wrap64 (bucket_total (\<lambda>_. 1) b (fst x))
        \<and> wrap64 (bucket_total (\<lambda>v. v) b d + dl_balance (snd x) b)
            = wrap64 (bucket_total (\<lambda>v. v) b (fst x)))"

lemma wrap64_shift:
  assumes "wrap64 (t + x) = wrap64 t'"
  shows "wrap64 (t + wrap64 (x + y)) = wrap64 (t' + y)"
proof -
  have "wrap64 (t + wrap64 (x + y)) = wrap64 (wrap64 (t + x) + y)" by (simp add: add.assoc)
  then show ?thesis unfolding assms by simp
qed

definition bump :: "bool \<Rightarrow> int \<Rightarrow> int \<Rightarrow> int" where
  "bump c y x = (if c then wrap64 (x + y) else x)"

lemma bump_shift:
  "wrap64 (t + x) = wrap64 t' \<Longrightarrow> wrap64 (t + bump c y x) = wrap64 (t' + (if c then y else 0))"
  by (simp add: bump_def wrap64_shift del: wrap64_add_left wrap64_add_right)

lemma observe_at:
  "dl_count (observe old new \<delta>) b = bump (bucketForBalance new = Some b) 1
     (bump (bucketForBalance old = Some b) (- 1) (dl_count \<delta> b))"
  "dl_balance (observe old new \<delta>) b = bump (bucketForBalance new = Some b) new
     (bump (bucketForBalance old = Some b) (- old) (dl_balance \<delta> b))"
  by (auto simp: observe_def delta_add_def bump_def add64_def Let_def
      simp del: wrap64_add_left wrap64_add_right split: option.split)

lemma observe_count:
  assumes "wrap64 (t + dl_count \<delta> b) = wrap64 t'"
  shows "wrap64 (t + dl_count (observe old new \<delta>) b)
    = wrap64 (t' - contribution (\<lambda>_. 1) b old + contribution (\<lambda>_. 1) b new)"
  using bump_shift [OF bump_shift [OF assms]]
  by (simp add: observe_at contribution_def)

lemma observe_balance:
  assumes "wrap64 (t + dl_balance \<delta> b) = wrap64 t'"
  shows "wrap64 (t + dl_balance (observe old new \<delta>) b)
    = wrap64 (t' - contribution (\<lambda>v. v) b old + contribution (\<lambda>v. v) b new)"
  using bump_shift [OF bump_shift [OF assms]]
  by (simp add: observe_at contribution_def)

lemma recomputeAddressTracked_tracks:
  assumes "recomputeAddressTracked a x = Inr y" "delta_tracks d x"
  shows "delta_tracks d y"
proof -
  obtain e \<delta> where x: "x = (e, \<delta>)" by force
  obtain bal e' where r: "recomputeAddress a e = Inr (bal, e')"
    and y: "y = (e', observe (currentAddressBalance e a) bal \<delta>)"
    using assms(1) by (auto simp: recomputeAddressTracked_def x Let_def result_simps)
  have w: "twf (addresses e)" using assms(2) by (simp add: delta_tracks_def x)
  have "twf (addresses e')" using recomputeAddress_effect(1) [OF r w] by auto
  then show ?thesis
    using assms(2) by (simp add: delta_tracks_def x y recompute_bucket_total [OF r w]
        observe_count observe_balance)
qed

lemma recompute_all_tracks:
  assumes "fold_res recomputeAddressTracked T x = Inr y" "delta_tracks d x"
  shows "delta_tracks d y"
  using assms
  by (rule fold_res_invariant [where P = "delta_tracks d"]) (rule recomputeAddressTracked_tracks)

section \<open>The invariant\<close>

definition dist_exact :: "db \<Rightarrow> bool" where
  "dist_exact d \<longleftrightarrow> twf (distribution d) \<and> (\<forall>b \<in> set DistributionBucketIDs.
    tget (distribution d) b
      = Some (wrap64 (bucket_total (\<lambda>_. 1) b d), wrap64 (bucket_total (\<lambda>v. v) b d)))"

lemma apply_bucket_delta_effect:
  assumes "apply_bucket_delta \<delta> b d = Inr e" "twf (distribution d)"
  shows "\<exists>t c v. e = d\<lparr>distribution := t\<rparr> \<and> twf t \<and> tget (distribution d) b = Some (c, v)
    \<and> tget t = (tget (distribution d))(b \<mapsto> (add64 c (dl_count \<delta> b), add64 v (dl_balance \<delta> b)))"
proof (cases "tget (distribution d) b")
  case None
  with assms(1) show ?thesis by (simp add: apply_bucket_delta_def)
next
  case (Some cv)
  then obtain c v where cv: "tget (distribution d) b = Some (c, v)" by (cases cv) simp
  let ?new = "(add64 c (dl_count \<delta> b), add64 v (dl_balance \<delta> b))"
  let ?t = "tupdate (\<lambda>k _. k = b) (\<lambda>_. ?new) (distribution d)"
  have "e = d\<lparr>distribution := ?t\<rparr>"
    using assms(1) cv by (simp add: apply_bucket_delta_def Let_def split: if_splits)
  moreover have "tget ?t k = ((tget (distribution d))(b \<mapsto> ?new)) k" for k
    using cv by (cases "k = b"; cases "tget (distribution d) k")
      (simp_all add: tget_tupdate del: wrap64_add_left wrap64_add_right)
  then have "tget ?t = (tget (distribution d))(b \<mapsto> ?new)" by (rule ext)
  ultimately show ?thesis using cv twf_simps(2) [OF assms(2)] by blast
qed

lemma fold_bucket_deltas:
  assumes "fold_res (apply_bucket_delta \<delta>) bs d = Inr e" "twf (distribution d)" "distinct bs"
  shows "\<exists>t. e = d\<lparr>distribution := t\<rparr> \<and> twf t \<and> (\<forall>b. tget t b
    = (if b \<in> set bs then map_option (\<lambda>(c, v). (add64 c (dl_count \<delta> b), add64 v (dl_balance \<delta> b)))
         (tget (distribution d) b) else tget (distribution d) b))"
  using assms
proof (induction bs arbitrary: d)
  case Nil
  then show ?case by (intro exI [of _ "distribution d"]) simp
next
  case (Cons b bs)
  obtain d1 where a: "apply_bucket_delta \<delta> b d = Inr d1"
    and f: "fold_res (apply_bucket_delta \<delta>) bs d1 = Inr e"
    using Cons.prems(1) by (auto simp: result_simps)
  obtain t1 c v where t1: "d1 = d\<lparr>distribution := t1\<rparr>" "twf t1" "tget (distribution d) b = Some (c, v)"
    "tget t1 = (tget (distribution d))(b \<mapsto> (add64 c (dl_count \<delta> b), add64 v (dl_balance \<delta> b)))"
    using apply_bucket_delta_effect [OF a Cons.prems(2)] by blast
  have "twf (distribution d1)" "distinct bs" using t1 Cons.prems(3) by simp_all
  from Cons.IH [OF f this] t1 Cons.prems(3) show ?case by auto
qed

lemma applyDistributionDeltas_effect:
  assumes "applyDistributionDeltas \<delta> d = Inr e" "twf (distribution d)"
    and "b \<in> set DistributionBucketIDs" "tget (distribution d) b = Some (wrap64 c, wrap64 v)"
  shows "twf (distribution e)"
    "tget (distribution e) b = Some (wrap64 (c + dl_count \<delta> b), wrap64 (v + dl_balance \<delta> b))"
proof -
  have "distinct (bucketsTouched \<delta>)"
    by (simp add: bucketsTouched_def bucket_ids_distinct)
  then obtain t where t: "e = d\<lparr>distribution := t\<rparr>" "twf t" "\<And>b. tget t b
      = (if b \<in> set (bucketsTouched \<delta>) then map_option (\<lambda>(c, v). (add64 c (dl_count \<delta> b),
          add64 v (dl_balance \<delta> b))) (tget (distribution d) b) else tget (distribution d) b)"
    using fold_bucket_deltas [OF assms(1) [unfolded applyDistributionDeltas_def] assms(2)] by blast
  show "twf (distribution e)" using t by simp
  show "tget (distribution e) b = Some (wrap64 (c + dl_count \<delta> b), wrap64 (v + dl_balance \<delta> b))"
    using t(1) t(3) [of b] assms(3,4) by (auto simp: add64_def bucketsTouched_def)
qed

lemma bucket_total_addresses: "addresses e = addresses d \<Longrightarrow> bucket_total g b e = bucket_total g b d"
  by (simp add: bucket_total_def)

lemma update_touched_dist:
  assumes "dist_exact d" "twf (addresses d)" "update_touched s T h d = Inr e"
  shows "dist_exact e"
  using assms(3)
proof (rule update_touchedE)
  fix d1 \<delta> d2
  assume f: "fold_res recomputeAddressTracked (mapOrder s T) (d, newDistributionDelta) = Inr (d1, \<delta>)"
    and a: "applyDistributionDeltas \<delta> d1 = Inr d2" and s: "setDistributionAnchor h d2 = Inr e"
  obtain t where t: "d1 = d\<lparr>addresses := t\<rparr>" using recompute_all_effect [OF f assms(2)] by blast
  have "delta_tracks d (d, newDistributionDelta)"
    using assms(2) by (simp add: delta_tracks_def newDistributionDelta_def)
  then have tr: "delta_tracks d (d1, \<delta>)" by (rule recompute_all_tracks [OF f])
  have ds: "distribution d1 = distribution d" by (simp add: t)
  obtain t' where t': "d2 = d1\<lparr>distribution := t'\<rparr>" using applyDistributionDeltas_tables [OF a] by blast
  have e: "distribution e = distribution d2" "addresses e = addresses d1"
    using s t' by (auto simp: setDistributionAnchor_def result_simps)
  have w: "twf (distribution d1)" using assms(1) by (simp add: dist_exact_def ds)
  have row: "tget (distribution d2) b = Some (wrap64 (bucket_total (\<lambda>_. 1) b e), wrap64 (bucket_total (\<lambda>v. v) b e))"
    if b: "b \<in> set DistributionBucketIDs" for b
  proof -
    have "tget (distribution d1) b
      = Some (wrap64 (bucket_total (\<lambda>_. 1) b d), wrap64 (bucket_total (\<lambda>v. v) b d))"
      using assms(1) b by (simp add: dist_exact_def ds)
    from applyDistributionDeltas_effect(2) [OF a w b this] tr show ?thesis
      by (simp add: delta_tracks_def bucket_total_addresses [OF e(2)])
  qed
  have b0: "''lt_1'' \<in> set DistributionBucketIDs"
    by (simp add: DistributionBucketIDs_def distributionBuckets_def boundedBucket_def)
  then have "\<exists>c v. tget (distribution d1) ''lt_1'' = Some (wrap64 c, wrap64 v)"
    using assms(1) by (simp add: dist_exact_def ds) blast
  then have "twf (distribution d2)" using applyDistributionDeltas_effect(1) [OF a w b0] by blast
  with row show ?thesis by (simp add: dist_exact_def e(1))
qed

text \<open>The other statements leave both tables alone.\<close>

definition dist_side :: "db \<Rightarrow> db \<Rightarrow> bool" where
  "dist_side d e \<longleftrightarrow> distribution e = distribution d \<and> addresses e = addresses d"

lemma dist_exact_side: "dist_side d e \<Longrightarrow> dist_exact d \<Longrightarrow> dist_exact e"
  by (simp add: dist_exact_def dist_side_def bucket_total_def)

lemma dist_side_trans: "dist_side d e \<Longrightarrow> dist_side e f \<Longrightarrow> dist_side d f"
  by (simp add: dist_side_def)

lemma dist_side_writes:
  "insert_transaction txn fee d = Inr (fresh, e) \<Longrightarrow> dist_side d e"
  "insert_variant txn d = Inr (fresh, e) \<Longrightarrow> dist_side d e"
  "insert_block_transaction bh i txn d = Inr e \<Longrightarrow> dist_side d e"
  "insert_input txid inp d = Inr e \<Longrightarrow> dist_side d e"
  "apply_witness_item txid wtxid vin item d = Inr e \<Longrightarrow> dist_side d e"
  "insert_output txid out d = Inr (fresh, e) \<Longrightarrow> dist_side d e"
  "apply_address op fresh addr d = Inr e \<Longrightarrow> dist_side d e"
  "apply_participant op p d = Inr e \<Longrightarrow> dist_side d e"
  "create_utxo bh op d = Inr e \<Longrightarrow> dist_side d e"
  "markSpent prev txid vin bh d = Inr (addr, e) \<Longrightarrow> dist_side d e"
  by ((clarsimp simp: dist_side_def insert_transaction_def insert_variant_def
      insert_block_transaction_def insert_input_def apply_witness_item_def insert_output_def
      apply_address_def apply_participant_def create_utxo_def markSpent_def Let_def result_simps
      split: if_splits prod.splits option.splits); fail)+

interpretation dist_tx: tx_steps bh dist_side for bh
proof
  show "dist_side d d" for d by (simp add: dist_side_def)
  show "dist_side d f" if "dist_side d e" "dist_side e f" for d e f
    using that by (rule dist_side_trans)
qed (fact dist_side_writes)+

lemma ApplyBlock_dist:
  assumes "dist_exact d" "refs_ok d" "ApplyBlock s b d = Inr e"
  shows "dist_exact e"
  using assms(3)
proof (rule ApplyBlockE)
  fix f1 d1 fees d2 T d3 facts d4 d5
  assume h: "applyBlockHeader b d = Inr (f1, d1)"
    and t: "apply_transactions (blk_Hash b) (blk_Height b = 0) (blk_Transactions b) d1 = Inr (fees, d2, T)"
    and u: "update_touched s T (blk_Hash b) d2 = Inr d3"
    and a: "applyBlockAccounting (accountingSchedule s) b fees d3 = Inr (facts, d4)"
    and r: "applySupplyRollup b (sync_state d) facts d4 = Inr d5" "set_sync_state (blk_Hash b) d5 = Inr e"
  have "dist_side d d1" using h
    by (auto simp: dist_side_def applyBlockHeader_def Let_def result_simps split: if_splits option.splits)
  moreover have "dist_side d1 d2" by (rule dist_tx.apply_transactions [OF t])
  ultimately have ds: "dist_side d d2" by (rule dist_side_trans)
  then have "dist_exact d2" using assms(1) by (rule dist_exact_side)
  moreover have "twf (addresses d2)"
    using ds refs_ok_twf(4) [OF assms(2)] by (simp add: dist_side_def)
  ultimately have e3: "dist_exact d3" using u by (rule update_touched_dist)
  have "dist_side d3 d4" using a
    by (auto simp: dist_side_def applyBlockAccounting_def insert_accounting_def result_simps)
  moreover have "dist_side d4 d5" using r(1)
    by (auto simp: dist_side_def applySupplyRollup_def result_simps split: option.splits)
  moreover have "dist_side d5 e" using r(2) by (auto simp: dist_side_def set_sync_state_def result_simps)
  ultimately show "dist_exact e" using e3 by (meson dist_exact_side dist_side_trans)
qed

lemma RollbackTo_dist:
  assumes "dist_exact d" "refs_ok d" "RollbackTo s h d = Inr e"
  shows "dist_exact e"
  using assms(3)
proof (rule RollbackToE)
  fix a d1 T d2
  assume r: "(if 0 < length (orphan_hashes d (b_height a))
      then rollback_utxos (orphan_hashes d (b_height a)) d else (d, [])) = (d1, T)"
    and u: "update_touched s T h d1 = Inr d2" and y: "set_sync_state h d2 = Inr e"
  have ds: "dist_side d d1"
    using r by (auto simp: dist_side_def rollback_utxos_def Let_def split: if_splits)
  then have "dist_exact d1" using assms(1) by (rule dist_exact_side)
  moreover have "twf (addresses d1)"
    using ds refs_ok_twf(4) [OF assms(2)] by (simp add: dist_side_def)
  ultimately have "dist_exact d2" using u by (rule update_touched_dist)
  moreover have "dist_side d2 e" using y by (auto simp: dist_side_def set_sync_state_def result_simps)
  ultimately show "dist_exact e" by (meson dist_exact_side)
qed

lemma init_db_dist: "dist_exact init_db"
proof -
  have d: "distribution init_db = map (\<lambda>b. (b, (0, 0))) DistributionBucketIDs"
    and a: "bucket_total g b init_db = 0" for g b
    by (simp_all add: init_db_def bucket_total_def tsum_def)
  have w: "twf (distribution init_db)"
    using init_db_wf by (simp add: db_wf_def)
  show ?thesis
  proof -
    have "tget (distribution init_db) b = Some (0, 0)" if "b \<in> set DistributionBucketIDs" for b
      using that in_set_tget [OF w, of b "(0, 0)"] by (simp add: d image_iff)
    then show ?thesis using w unfolding dist_exact_def a by (simp add: wrap64_def)
  qed
qed

interpretation dist: store_invariant s "\<lambda>_ _. map_order_ok s" "\<lambda>d. addr_exact d \<and> dist_exact d" for s
proof
  show "addr_exact init_db \<and> dist_exact init_db" by (simp add: init_db_exact init_db_dist)
  fix d op e
  assume i: "addr_exact d \<and> dist_exact d" "map_order_ok s" "attempt s op d = Inr e"
  then have "refs_ok d" by (simp add: addr_exact_def)
  have "dist_exact e"
  proof (cases op)
    case (Apply b)
    with i have "ApplyBlock s b d = Inr e" by (simp add: attempt_def)
    then show ?thesis using i \<open>refs_ok d\<close> ApplyBlock_dist by blast
  next
    case (Rollback h)
    with i have "RollbackTo s h d = Inr e" by (simp add: attempt_def)
    then show ?thesis using i \<open>refs_ok d\<close> RollbackTo_dist by blast
  qed
  with i cache.step [of d s op e] show "addr_exact e \<and> dist_exact e" by blast
qed

section \<open>What the derived tables mean\<close>

text \<open>The value of an address's unspent coins, read off the coins and destinations directly.\<close>

definition unspent_value :: "db \<Rightarrow> string \<Rightarrow> int" where
  "unspent_value d a = tsum (\<lambda>op a'. if a' = a then
     (case coin d op of Some (v, u) \<Rightarrow> if u_spend u = None then v else 0 | None \<Rightarrow> 0) else 0)
     (output_addresses d)"

lemma sum_list_concat_map: "sum_list (map f (concat (map g xs))) = sum_list (map (\<lambda>x. sum_list (map f (g x))) xs)"
  for f :: "'a \<Rightarrow> int"
  by (induction xs) simp_all

lemma filter_concat_map: "filter P (concat (map g xs)) = concat (map (\<lambda>x. filter P (g x)) xs)"
  by (induction xs) simp_all

lemma a_balance_unspent: "a_balance (address_totals d a) = unspent_value d a"
proof -
  have "sum_list (map (\<lambda>(op, v, u). v) (filter (\<lambda>x. \<not> u_spend (case x of (op, v, u) \<Rightarrow> u) \<noteq> None)
      (case r of (op, a') \<Rightarrow> if a' \<noteq> a then []
        else case coin d op of None \<Rightarrow> [] | Some (v, u) \<Rightarrow> [(op, v, u)])))
    = (case r of (op, a') \<Rightarrow> if a' = a then
        (case coin d op of Some (v, u) \<Rightarrow> if u_spend u = None then v else 0 | None \<Rightarrow> 0) else 0)" for r
    by (auto split: prod.splits option.splits)
  then show ?thesis
    unfolding unspent_value_def tsum_def address_totals_def Let_def addr_utxos_coin
    by (simp add: filter_concat_map sum_list_concat_map)
qed

lemma no_tx_no_coins: "a_tx_count (address_totals d a) = 0 \<Longrightarrow> addr_utxos d a = []"
  by (cases "addr_utxos d a") (auto simp: address_totals_def Let_def split: prod.splits)

lemma cached_balance:
  assumes "addr_exact d"
  shows "currentAddressBalance d a = unspent_value d a"
proof (cases "a_tx_count (address_totals d a) = 0")
  case True
  then have "unspent_value d a = 0"
    using no_tx_no_coins [OF True] by (simp flip: a_balance_unspent add: address_totals_def Let_def)
  with True assms show ?thesis by (simp add: currentAddressBalance_def addr_exact_def cached_def)
next
  case False
  with assms show ?thesis
    by (simp add: currentAddressBalance_def addr_exact_def cached_def a_balance_unspent)
qed

lemma bucket_total_meaning:
  assumes "addr_exact d"
  shows "finite {a. bucketForBalance (unspent_value d a) = Some b}"
    "bucket_total g b d = (\<Sum>a | bucketForBalance (unspent_value d a) = Some b. g (unspent_value d a))"
proof -
  let ?A = "dom (tget (addresses d))"
  let ?B = "{a. bucketForBalance (unspent_value d a) = Some b}"
  have fin: "finite ?A" by (rule tab.finite_dom)
  have w: "twf (addresses d)" using assms by (simp add: addr_exact_def refs_ok_twf)
  have row: "a_balance (the (tget (addresses d) a)) = unspent_value d a" if "a \<in> ?A" for a
    using that cached_balance [OF assms, of a] by (auto simp: currentAddressBalance_def)
  have out: "unspent_value d a = 0" if "a \<notin> ?A" for a
    using that cached_balance [OF assms, of a]
    by (simp add: currentAddressBalance_def dom_def)
  have sub: "?B \<subseteq> ?A" using out bucketForBalance_zero by force
  then show "finite ?B" using fin by (rule finite_subset)
  have "bucket_total g b d = (\<Sum>a \<in> ?A. if a \<in> ?B then g (unspent_value d a) else 0)"
    unfolding bucket_total_def tab.total_dom [OF w]
    by (rule sum.cong) (simp_all add: in_bucket_def row)
  also have "\<dots> = (\<Sum>a \<in> ?B. g (unspent_value d a))"
    using sub fin by (simp add: sum.If_cases Int_absorb1)
  finally show "bucket_total g b d = (\<Sum>a \<in> ?B. g (unspent_value d a))" .
qed

text \<open>
  C9 The address cache is exact in every reachable database, although each operation recomputes only
  the addresses it touched: an address has a row exactly when it has a transaction, the row is
  what recomputation from the coins gives, and its balance is the value of the unspent coins.
\<close>

theorem address_cache_exact:
  assumes "map_order_ok s" "d = run s ops init_db"
  shows "tget (addresses d) a =
      (if a_tx_count (address_totals d a) = 0 then None else Some (address_totals d a))
    \<and> currentAddressBalance d a = unspent_value d a"
proof -
  have "addr_exact d"
    using cache.reachable [of s ops] assms by (simp add: all_ok_const)
  then show ?thesis using cached_balance by (simp add: addr_exact_def cached_def)
qed

text \<open>
  C10 The balance distribution is exact in every reachable database: the row of each bucket holds, in
  \<open>int64\<close> arithmetic, the number of the addresses whose unspent value falls into the
  bucket and the sum of these values.
\<close>

theorem distribution_exact:
  assumes "map_order_ok s" "d = run s ops init_db" "b \<in> set DistributionBucketIDs"
  shows "tget (distribution d) b = Some
    (wrap64 (int (card {a. bucketForBalance (unspent_value d a) = Some b})),
     wrap64 (\<Sum>a | bucketForBalance (unspent_value d a) = Some b. unspent_value d a))"
proof -
  have e: "addr_exact d" and "dist_exact d"
    using dist.reachable [of s ops] assms by (simp_all add: all_ok_const)
  then show ?thesis using assms(3) bucket_total_meaning(2) [OF e]
    by (simp add: dist_exact_def)
qed

end
