(* ===== verification/StoreUtxo.thy ===== *)
theory StoreUtxo
  imports StoreDistribution
begin

text \<open>
  The UTXO table: how a block extends it, what a rollback removes, and the invariant that every
  coin was created, and if spent was spent, by canonical blocks at the recorded heights.
\<close>

section \<open>What a block does to a coin\<close>

definition at_block :: "db \<Rightarrow> string \<Rightarrow> int \<Rightarrow> bool" where
  "at_block d bh h \<longleftrightarrow> (\<exists>r. tget (blocks d) bh = Some r \<and> b_height r = h)"

definition spend_by :: "db \<Rightarrow> string \<Rightarrow> spend \<Rightarrow> bool" where
  "spend_by d bh s \<longleftrightarrow> s_block s = bh \<and> at_block d bh (s_height s)"

definition born_in :: "db \<Rightarrow> string \<Rightarrow> utxo_row \<Rightarrow> bool" where
  "born_in d bh u \<longleftrightarrow> u_block u = bh \<and> at_block d bh (u_height u)
    \<and> (\<forall>s. u_spend u = Some s \<longrightarrow> spend_by d bh s)"

text \<open>A row stays, is created by the block, or loses its unspent state to the block.\<close>

definition row_ext :: "db \<Rightarrow> string \<Rightarrow> utxo_row option \<Rightarrow> utxo_row option \<Rightarrow> bool" where
  "row_ext d bh x y \<longleftrightarrow>
    (case (x, y) of
       (None, None) \<Rightarrow> True
     | (None, Some u) \<Rightarrow> born_in d bh u
     | (Some u, None) \<Rightarrow> False
     | (Some u, Some u') \<Rightarrow> u' = u
         \<or> (u_spend u = None \<and> (\<exists>s. u' = u\<lparr>u_spend := Some s\<rparr> \<and> spend_by d bh s)))"

lemma row_ext_refl [simp]: "row_ext d bh x x"
  by (simp add: row_ext_def split: option.split)

lemma row_ext_trans: "row_ext d bh x y \<Longrightarrow> row_ext d bh y z \<Longrightarrow> row_ext d bh x z"
  by (cases x; cases y; cases z) (auto simp: row_ext_def born_in_def spend_by_def)

lemma row_ext_blocks: "blocks e = blocks d \<Longrightarrow> row_ext e bh = row_ext d bh"
  by (simp add: row_ext_def born_in_def spend_by_def at_block_def fun_eq_iff cong: option.case_cong)

definition utxo_ext :: "string \<Rightarrow> db \<Rightarrow> db \<Rightarrow> bool" where
  "utxo_ext bh d e \<longleftrightarrow> (db_wf d \<longrightarrow> db_wf e \<and> blocks e = blocks d
    \<and> (\<forall>op. row_ext d bh (tget (utxo_state d) op) (tget (utxo_state e) op)))"

lemma utxo_ext_refl: "utxo_ext bh d d"
  by (simp add: utxo_ext_def)

lemma utxo_ext_trans: "utxo_ext bh d e \<Longrightarrow> utxo_ext bh e f \<Longrightarrow> utxo_ext bh d f"
  unfolding utxo_ext_def using row_ext_trans row_ext_blocks by metis

lemma utxo_ext_other:
  assumes "keeps d e" "blocks e = blocks d" "utxo_state e = utxo_state d"
  shows "utxo_ext bh d e"
  using assms by (simp add: utxo_ext_def keeps_def)

lemma utxo_ext_writes:
  "insert_transaction txn fee d = Inr (fresh, e) \<Longrightarrow> utxo_ext bh d e"
  "insert_variant txn d = Inr (fresh, e) \<Longrightarrow> utxo_ext bh d e"
  "insert_block_transaction bh i txn d = Inr e \<Longrightarrow> utxo_ext bh d e"
  "insert_input txid inp d = Inr e \<Longrightarrow> utxo_ext bh d e"
  "apply_witness_item txid wtxid vin item d = Inr e \<Longrightarrow> utxo_ext bh d e"
  "insert_output txid out d = Inr (fresh, e) \<Longrightarrow> utxo_ext bh d e"
  "apply_address op fresh addr d = Inr e \<Longrightarrow> utxo_ext bh d e"
  "apply_participant op p d = Inr e \<Longrightarrow> utxo_ext bh d e"
  by ((rule utxo_ext_other; (erule writes_keep)?; clarsimp simp: insert_transaction_def
        insert_variant_def insert_block_transaction_def insert_input_def apply_witness_item_def
        insert_output_def apply_address_def apply_participant_def Let_def result_simps
        split: prod.splits if_splits); fail)+

lemma create_utxo_ext:
  assumes "create_utxo bh op d = Inr e"
  shows "utxo_ext bh d e"
proof -
  obtain r where r: "tget (blocks d) bh = Some r"
    using assms by (auto simp: create_utxo_def split: option.splits)
  let ?u = "\<lparr>u_block = bh, u_height = b_height r, u_spend = None\<rparr>"
  have e: "e = d \<or> e = d\<lparr>utxo_state := tinsert op ?u (utxo_state d)\<rparr> \<and> tget (utxo_state d) op = None"
    using assms r by (auto simp: create_utxo_def result_simps insertOrVerifyIdempotent_def
        split: if_splits option.splits)
  have "born_in d bh ?u" using r by (simp add: born_in_def at_block_def)
  then have "row_ext d bh (tget (utxo_state d) op') (tget (utxo_state e) op')" for op'
    using e by (cases "op' = op"; cases "tget (utxo_state d) op'") (auto simp: tget_tinsert row_ext_def)
  then show ?thesis using e writes_keep(9) [OF assms] by (auto simp: utxo_ext_def keeps_def)
qed

lemma spend_of_by: "spend_of d prev txid vin bh = Some s \<Longrightarrow> spend_by d bh s"
  by (auto simp: spend_of_def spend_by_def at_block_def split: option.splits if_splits)

lemma markSpent_ext:
  assumes "markSpent prev txid vin bh d = Inr (addr, e)"
  shows "utxo_ext bh d e"
proof -
  obtain u where u: "tget (utxo_state d) prev = Some u"
    using assms by (auto simp: markSpent_def result_simps split: option.splits)
  have e: "e = d \<or> (\<exists>s. u_spend u = None \<and> spend_by d bh s
      \<and> e = d\<lparr>utxo_state := tupdate (\<lambda>k _. k = prev) (\<lambda>r. r\<lparr>u_spend := Some s\<rparr>) (utxo_state d)\<rparr>)"
    using assms u by (auto simp: markSpent_def result_simps split: option.splits if_splits
        dest: spend_of_by)
  have "row_ext d bh (tget (utxo_state d) op) (tget (utxo_state e) op)" for op
    using e u by (cases "op = prev"; cases "tget (utxo_state d) op")
      (auto simp: tget_tupdate row_ext_def)
  then show ?thesis using e markSpent_keeps [OF assms] by (auto simp: utxo_ext_def keeps_def)
qed

interpretation utxo_tx: tx_steps bh "utxo_ext bh" for bh
proof
  show "utxo_ext bh d d" for d by (rule utxo_ext_refl)
  show "utxo_ext bh d f" if "utxo_ext bh d e" "utxo_ext bh e f" for d e f
    using that by (rule utxo_ext_trans)
qed (fact utxo_ext_writes create_utxo_ext markSpent_ext)+

text \<open>The whole of \<open>ApplyBlock\<close>, with the tables at its end.\<close>

lemma ApplyBlock_utxo:
  assumes "ApplyBlock s b d = Inr e" "db_wf d"
  shows "row_ext e (blk_Hash b) (tget (utxo_state d) op) (tget (utxo_state e) op)"
    "at_block e (blk_Hash b) h \<longleftrightarrow> h = blk_Height b"
proof -
  obtain f1 d1 fees d2 T d3 facts d4 d5 where
    h: "applyBlockHeader b d = Inr (f1, d1)"
    and t: "apply_transactions (blk_Hash b) (blk_Height b = 0) (blk_Transactions b) d1 = Inr (fees, d2, T)"
    and u: "update_touched s T (blk_Hash b) d2 = Inr d3"
    and a: "applyBlockAccounting (accountingSchedule s) b fees d3 = Inr (facts, d4)"
    and r: "applySupplyRollup b (sync_state d) facts d4 = Inr d5"
    and s: "set_sync_state (blk_Hash b) d5 = Inr e"
    using assms(1) by (rule ApplyBlockE)
  have w1: "db_wf d1" using applyBlockHeader_keeps [OF h] assms(2) by (simp add: keeps_def)
  have wb: "twf (blocks d)" using assms(2) by (simp add: db_wf_def)
  have "utxo_state d1 = utxo_state d" using applyBlockHeader_effect(1) [OF h wb] by auto
  moreover have "utxo_ext (blk_Hash b) d1 d2" using t by (rule utxo_tx.apply_transactions)
  ultimately have x: "row_ext d1 (blk_Hash b) (tget (utxo_state d) op) (tget (utxo_state d2) op)"
    and b2: "blocks d2 = blocks d1" using w1 by (auto simp: utxo_ext_def)
  have "utxo_state e = utxo_state d2" "blocks e = blocks d2"
    using update_touched_source(1) [OF u] applyBlockAccounting_source [OF a]
      applySupplyRollup_source [OF r] s
    by (auto simp: source_side_def set_sync_state_def result_simps)
  then show "row_ext e (blk_Hash b) (tget (utxo_state d) op) (tget (utxo_state e) op)"
    using x b2 by (simp add: row_ext_blocks [of e d1])
  obtain q where "canonical e (blk_Hash b) q" "same_block (block_row_of b) q"
    using ApplyBlock_chain(2) [OF assms(1) wb] by blast
  then show "at_block e (blk_Hash b) h \<longleftrightarrow> h = blk_Height b"
    using same_block_fields by (auto simp: at_block_def canonical_def)
qed

section \<open>What a rollback does to a coin\<close>

definition unwind :: "string list \<Rightarrow> utxo_row option \<Rightarrow> utxo_row option" where
  "unwind hs x = (case x of None \<Rightarrow> None | Some u \<Rightarrow>
     if u_block u \<in> set hs then None
     else Some (if spent_in hs u then u\<lparr>u_spend := None\<rparr> else u))"

lemma spent_in_nil [simp]: "\<not> spent_in [] u"
  by (simp add: spent_in_def split: option.split)

lemma unwind_nil [simp]: "unwind [] x = x"
  by (simp add: unwind_def split: option.split)

lemma RollbackTo_utxo:
  assumes "RollbackTo s h d = Inr e" "db_wf d" "canonical d h a"
  shows "tget (utxo_state e) op = unwind (orphan_hashes d (b_height a)) (tget (utxo_state d) op)"
proof -
  let ?hs = "orphan_hashes d (b_height a)"
  obtain d1 T d2 where
    r: "(if 0 < length ?hs then rollback_utxos ?hs d else (d, [])) = (d1, T)"
    and u: "update_touched s T h d1 = Inr d2" and s: "set_sync_state h d2 = Inr e"
    using RollbackToE [OF assms(1)] assms(3) unfolding canonical_def by (metis option.inject)
  have w: "twf (utxo_state d)" using assms(2) by (simp add: db_wf_def)
  have "utxo_state e = utxo_state d1"
    using update_touched_source(1) [OF u] s
    by (auto simp: source_side_def set_sync_state_def result_simps)
  moreover have "tget (utxo_state d1) op = unwind ?hs (tget (utxo_state d) op)"
  proof (cases "?hs = []")
    case True
    with r show ?thesis by simp
  next
    case False
    with r have "utxo_state d1 = tupdate (\<lambda>_ u. spent_in ?hs u) (\<lambda>u. u\<lparr>u_spend := None\<rparr>)
        (tdelete (\<lambda>_ u. u_block u \<in> set ?hs) (utxo_state d))"
      by (auto simp: rollback_utxos_def Let_def)
    then show ?thesis by (simp add: tget_tupdate tget_tdelete [OF w] unwind_def split: option.split)
  qed
  ultimately show ?thesis by simp
qed

section \<open>Coins belong to canonical blocks\<close>

definition block_at :: "db \<Rightarrow> string \<Rightarrow> int \<Rightarrow> bool" where
  "block_at d bh h \<longleftrightarrow> (\<exists>r. canonical d bh r \<and> b_height r = h)"

definition coin_ok :: "db \<Rightarrow> utxo_row \<Rightarrow> bool" where
  "coin_ok d u \<longleftrightarrow> block_at d (u_block u) (u_height u)
    \<and> (\<forall>s. u_spend u = Some s \<longrightarrow> block_at d (s_block s) (s_height s) \<and> u_height u \<le> s_height s)"

definition utxo_canon :: "db \<Rightarrow> bool" where
  "utxo_canon d \<longleftrightarrow> refs_ok d \<and> anchored d \<and> (\<forall>op u. tget (utxo_state d) op = Some u \<longrightarrow> coin_ok d u)"

lemma utxo_canonD: "utxo_canon d \<Longrightarrow> tget (utxo_state d) op = Some u \<Longrightarrow> coin_ok d u"
  by (simp add: utxo_canon_def)

lemma anchored_chain: "anchored d \<Longrightarrow> chain_inv d \<and> twf (blocks d)"
  by (simp add: anchored_def chain_inv_def)

text \<open>A block applied to a reachable database is at least as high as every canonical block.\<close>

lemma applied_is_highest:
  assumes "anchored d" "ApplyBlock s b d = Inr e" "canonical e k r"
  shows "b_height r \<le> blk_Height b"
proof -
  have "chain_inv e" using chain_inv_apply assms(1,2) anchored_chain by blast
  then obtain base where "chain_path e base (blk_Height b) (blk_Hash b)"
    using ApplyBlock_chain(5) [OF assms(2)] anchored_chain [OF assms(1)] by (auto simp: chain_inv_def)
  then show ?thesis using chain_pathD(7) assms(3) by blast
qed

lemma block_at_apply:
  assumes "ApplyBlock s b d = Inr e" "twf (blocks d)" "block_at d k h"
  shows "block_at e k h"
proof (cases "k = blk_Hash b")
  case True
  obtain r where r: "canonical d k r" "b_height r = h" using assms(3) by (auto simp: block_at_def)
  then have "h = blk_Height b"
    using ApplyBlock_chain(9) [OF assms(1,2)] True same_block_fields by (auto simp: canonical_def)
  then show ?thesis
    using ApplyBlock_chain(2) [OF assms(1,2)] True same_block_fields by (auto simp: block_at_def)
next
  case False
  then show ?thesis using assms(3) canonical_after_apply [OF assms(1,2), of k]
    by (auto simp: block_at_def)
qed

lemma ApplyBlock_utxo_canon:
  assumes "utxo_canon d" "ApplyBlock s b d = Inr e"
  shows "\<forall>op u. tget (utxo_state e) op = Some u \<longrightarrow> coin_ok e u"
proof (intro allI impI)
  fix op u assume u: "tget (utxo_state e) op = Some u"
  have w: "db_wf d" "twf (blocks d)" "anchored d"
    using assms(1) by (simp_all add: utxo_canon_def refs_ok_def db_wf_def)
  note ext = ApplyBlock_utxo(1) [OF assms(2) w(1), of op]
  have here: "at_block e (blk_Hash b) h \<longleftrightarrow> h = blk_Height b" for h
    by (rule ApplyBlock_utxo(2) [OF assms(2) w(1)])
  obtain q where "canonical e (blk_Hash b) q" "b_height q = blk_Height b"
    using ApplyBlock_chain(2) [OF assms(2) w(2)] same_block_fields by blast
  then have bb: "block_at e (blk_Hash b) (blk_Height b)" by (auto simp: block_at_def)
  show "coin_ok e u"
  proof (cases "tget (utxo_state d) op")
    case None
    then have "born_in e (blk_Hash b) u" using ext u by (simp add: row_ext_def)
    then show ?thesis using bb here by (auto simp: coin_ok_def born_in_def spend_by_def)
  next
    case (Some v)
    have v: "coin_ok d v" using assms(1) Some by (rule utxo_canonD)
    then have ve: "coin_ok e v"
      using block_at_apply [OF assms(2) w(2)] by (simp add: coin_ok_def)
    show ?thesis
    proof (cases "u = v")
      case False
      then obtain s where s: "u = v\<lparr>u_spend := Some s\<rparr>" "spend_by e (blk_Hash b) s"
        using ext u Some by (auto simp: row_ext_def)
      then have "u_height v \<le> blk_Height b"
        using ve applied_is_highest [OF w(3) assms(2)] by (fastforce simp: coin_ok_def block_at_def)
      then show ?thesis using ve s bb here by (simp add: coin_ok_def spend_by_def)
    qed (use ve in simp)
  qed
qed

lemma RollbackTo_utxo_canon:
  assumes "utxo_canon d" "RollbackTo s h d = Inr e"
  shows "\<forall>op u. tget (utxo_state e) op = Some u \<longrightarrow> coin_ok e u"
proof (intro allI impI)
  fix op u assume u: "tget (utxo_state e) op = Some u"
  have w: "db_wf d" "twf (blocks d)"
    using assms(1) by (simp_all add: utxo_canon_def refs_ok_def db_wf_def)
  obtain a where a: "canonical d h a"
    and b: "\<And>k. tget (blocks e) k = map_option (demote_above (b_height a)) (tget (blocks d) k)"
    using RollbackTo_chain [OF assms(2) w(2)] by metis
  have kept: "block_at e k h'" if "block_at d k h'" "k \<notin> set (orphan_hashes d (b_height a))" for k h'
    using that orphan_hashes_iff [OF w(2), of k _ "b_height a"] b [of k]
    by (auto simp: block_at_def canonical_def demote_above_def)
  obtain v where v: "tget (utxo_state d) op = Some v" "u_block v \<notin> set (orphan_hashes d (b_height a))"
    "u = (if spent_in (orphan_hashes d (b_height a)) v then v\<lparr>u_spend := None\<rparr> else v)"
    using u RollbackTo_utxo [OF assms(2) w(1) a, of op]
    by (auto simp: unwind_def split: option.splits if_splits)
  have "coin_ok d v" using assms(1) v(1) by (rule utxo_canonD)
  then show "coin_ok e u"
    using v(2,3) kept by (auto simp: coin_ok_def spent_in_def split: option.splits if_splits)
qed

text \<open>The schema's references hold after every operation.\<close>

definition refs_step :: "db \<Rightarrow> db \<Rightarrow> bool" where
  "refs_step d e \<longleftrightarrow> (refs_ok d \<longrightarrow> refs_ok e)"

lemma refs_step_moves: "moves S d e \<Longrightarrow> refs_step d e"
  by (simp add: refs_step_def moves_def)

lemma refs_step_other:
  assumes "keeps d e" "output_addresses e = output_addresses d"
    "transaction_outputs e = transaction_outputs d" "utxo_state e = utxo_state d"
  shows "refs_step d e"
  using assms refs_ok_db_wf [of d] by (simp add: refs_step_def refs_ok_def keeps_def)

interpretation refs: store_steps refs_step
proof
  show "refs_step d d" for d by (simp add: refs_step_def)
  show "refs_step d f" if "refs_step d e" "refs_step e f" for d e f using that by (simp add: refs_step_def)
  show "refs_step d e" if "applyBlockHeader b d = Inr (fresh, e)" for b d fresh e
    using applyBlockHeader_moves [OF that] by (rule refs_step_moves)
  show "refs_step d e" if "apply_transactions bh g txs d = Inr (fees, e, T)" for bh g txs d fees e T
    using apply_transactions_tracked [OF that] by (auto simp: tracked_def intro: refs_step_moves)
  show "refs_step d e" if "recomputeAddress a d = Inr (bal, e)" for a d bal e
    using derived_writes_keep(1) [OF that] recomputeAddress_source [OF that]
    by (intro refs_step_other) (simp_all add: source_side_def)
  show "refs_step d e" if "apply_bucket_delta \<delta> k d = Inr e" for \<delta> k d e
    using derived_writes_keep(2) [OF that] that
    by (intro refs_step_other)
      (auto simp: apply_bucket_delta_def Let_def split: option.splits if_splits)
  show "refs_step d e" if "setDistributionAnchor h d = Inr e" for h d e
    using derived_writes_keep(3) [OF that] that
    by (intro refs_step_other) (auto simp: setDistributionAnchor_def result_simps)
  show "refs_step d e" if "insert_accounting facts d = Inr e" for facts d e
    using other_writes(7) [OF that] by (rule refs_step_moves)
  show "refs_step d e" if "applySupplyRollup b cp facts d = Inr e" for b cp facts d e
    using applySupplyRollup_moves [OF that] by (rule refs_step_moves)
  show "refs_step d e" if "set_sync_state h d = Inr e" for h d e
    using set_sync_state_moves [OF that] by (rule refs_step_moves)
  show "refs_step d e" if "rollback_utxos hs d = (e, T)" for hs d e T
    using rollback_utxos_moves [OF that] by (rule refs_step_moves)
qed

lemma attempt_refs_ok: "refs_ok d \<Longrightarrow> attempt s op d = Inr e \<Longrightarrow> refs_ok e"
  using refs.attempt by (simp add: refs_step_def)

interpretation coins: store_invariant s "\<lambda>_ _. True" utxo_canon for s
proof
  show "utxo_canon init_db"
    using init_db_exact chain.start by (simp add: utxo_canon_def addr_exact_def)
      (simp add: init_db_def tget_def)
  fix d op e
  assume i: "utxo_canon d" "attempt s op d = Inr e"
  then have "anchored e" using chain.step [of d s op e] by (simp add: utxo_canon_def)
  moreover have "refs_ok e"
    using attempt_refs_ok [of d s op e] i by (simp add: utxo_canon_def)
  moreover have "\<forall>op u. tget (utxo_state e) op = Some u \<longrightarrow> coin_ok e u"
  proof (cases op)
    case (Apply b)
    then show ?thesis using i ApplyBlock_utxo_canon by (simp add: attempt_def)
  next
    case (Rollback h)
    then show ?thesis using i RollbackTo_utxo_canon by (simp add: attempt_def)
  qed
  ultimately show "utxo_canon e" by (simp add: utxo_canon_def)
qed

text \<open>
  C8 The coin set follows the canonical chain: in every reachable database each row of the UTXO
  table names a canonical block as its creator, at that block's height; if it is spent, the
  spending block is canonical too, at its height and not below the creating one.
\<close>

theorem coins_are_canonical:
  assumes "d = run s ops init_db" "GetUTXO d txid vout = Some u"
  shows "CanonicalBlockHash d (u_height u) = Some (u_block u)
    \<and> u_height u \<le> fst (Tip d)
    \<and> (\<forall>sp. u_spend u = Some sp \<longrightarrow> CanonicalBlockHash d (s_height sp) = Some (s_block sp)
        \<and> u_height u \<le> s_height sp \<and> s_height sp \<le> fst (Tip d))"
proof -
  have c: "utxo_canon d" using coins.reachable assms(1) by simp
  then have ok: "coin_ok d u" using assms(2) by (auto simp: GetUTXO_def dest: utxo_canonD)
  have inv: "chain_inv d" "twf (blocks d)"
    using c anchored_chain by (simp_all add: utxo_canon_def)
  obtain r where "canonical d (u_block u) r" using ok by (auto simp: coin_ok_def block_at_def)
  then obtain tip where "snd (sync_state d) = Some tip"
    using inv(1) by (cases "snd (sync_state d)") (auto simp: chain_inv_def)
  then obtain base where path: "chain_path d base (fst (sync_state d)) tip"
    using inv(1) by (auto simp: chain_inv_def)
  have "CanonicalBlockHash d h = Some k \<and> h \<le> fst (Tip d)" if "block_at d k h" for k h
    using that CanonicalBlockHash_Some [OF path inv(2)] chain_pathD(7) [OF path]
    by (auto simp: block_at_def Tip_def)
  then show ?thesis using ok unfolding coin_ok_def by blast
qed

end
