(* ===== verification/StoreRoundTrip.thy ===== *)
theory StoreRoundTrip
  imports StoreUtxo
begin

text \<open>
  A reorganization of one block: rolling back the block just appended succeeds and restores the
  checkpoint, the canonical chain, the coins, the address cache and the distribution.
\<close>

section \<open>When recomputing cannot fail\<close>

definition totals_guard :: "db \<Rightarrow> string \<Rightarrow> bool" where
  "totals_guard d a \<longleftrightarrow> (let r = address_totals d a in
     in_i64 (a_received r) \<and> in_i64 (a_sent r) \<and> in_i64 (a_balance r)
     \<and> (a_tx_count r = 0 \<or> 0 \<le> a_received r \<and> 0 \<le> a_sent r \<and> in_i32 (a_tx_count r)))"

lemma totals_guard_cong: "addr_utxos e a = addr_utxos d a \<Longrightarrow> totals_guard e a = totals_guard d a"
  by (simp add: totals_guard_def address_totals_def)

lemma totals_guard_addresses [simp]: "totals_guard (d\<lparr>addresses := t\<rparr>) a = totals_guard d a"
  by (rule totals_guard_cong, rule addr_utxos_tables) simp_all

lemma recomputeAddress_guard: "(\<exists>y. recomputeAddress a d = Inr y) \<longleftrightarrow> totals_guard d a"
  by (auto simp: recomputeAddress_def totals_guard_def Let_def guard_def)

lemma recompute_step_ok: "(\<exists>y. recomputeAddressTracked a x = Inr y) \<longleftrightarrow> totals_guard (fst x) a"
  using recomputeAddress_guard [of a "fst x"]
  by (cases x; cases "recomputeAddress a (fst x)")
    (auto simp: recomputeAddressTracked_def Let_def)

lemma recompute_step_addresses:
  assumes "recomputeAddressTracked a x = Inr y"
  shows "\<exists>t. fst y = (fst x)\<lparr>addresses := t\<rparr>"
  using assms
  by (cases x) (auto simp: recomputeAddressTracked_def recomputeAddress_def Let_def result_simps
      split: if_splits)

lemma recompute_all_guard:
  "(\<exists>y. fold_res recomputeAddressTracked T x = Inr y) \<longleftrightarrow> (\<forall>a \<in> set T. totals_guard (fst x) a)"
proof (induction T arbitrary: x)
  case (Cons a T)
  show ?case
  proof (cases "recomputeAddressTracked a x")
    case (Inl e)
    then have "\<not> totals_guard (fst x) a" using recompute_step_ok [of a x] by simp
    with Inl show ?thesis by simp
  next
    case (Inr y)
    then have "totals_guard (fst x) a" using recompute_step_ok [of a x] by blast
    moreover obtain t where "fst y = (fst x)\<lparr>addresses := t\<rparr>"
      using recompute_step_addresses [OF Inr] by blast
    ultimately show ?thesis using Cons.IH [of y] Inr by simp
  qed
qed simp

definition dist_nonneg :: "db \<Rightarrow> bool" where
  "dist_nonneg d \<longleftrightarrow> (\<forall>b \<in> set DistributionBucketIDs. \<forall>c v.
     tget (distribution d) b = Some (c, v) \<longrightarrow> 0 \<le> c \<and> 0 \<le> v)"

text \<open>The deltas are applied when every bucket's new values are non-negative.\<close>

lemma bucket_deltas_succeed:
  assumes "distinct bs" "twf (distribution d)"
    and "\<And>b. b \<in> set bs \<Longrightarrow> \<exists>c v. tget (distribution d) b = Some (c, v)
      \<and> 0 \<le> add64 c (dl_count \<delta> b) \<and> 0 \<le> add64 v (dl_balance \<delta> b)"
  shows "\<exists>e. fold_res (apply_bucket_delta \<delta>) bs d = Inr e"
  using assms
proof (induction bs arbitrary: d)
  case (Cons b bs)
  obtain c v where cv: "tget (distribution d) b = Some (c, v)"
    "0 \<le> add64 c (dl_count \<delta> b)" "0 \<le> add64 v (dl_balance \<delta> b)"
    using Cons.prems(3) [of b] by auto
  then obtain d1 where d1: "apply_bucket_delta \<delta> b d = Inr d1"
    by (auto simp: apply_bucket_delta_def Let_def)
  obtain t c' v' where t: "d1 = d\<lparr>distribution := t\<rparr>" "twf t" "tget t
      = (tget (distribution d))(b \<mapsto> (add64 c' (dl_count \<delta> b), add64 v' (dl_balance \<delta> b)))"
    using apply_bucket_delta_effect [OF d1 Cons.prems(2)] by blast
  have "\<exists>e. fold_res (apply_bucket_delta \<delta>) bs d1 = Inr e"
  proof (rule Cons.IH)
    show "distinct bs" "twf (distribution d1)" using Cons.prems(1) t by simp_all
    fix b' assume "b' \<in> set bs"
    then show "\<exists>c v. tget (distribution d1) b' = Some (c, v)
        \<and> 0 \<le> add64 c (dl_count \<delta> b') \<and> 0 \<le> add64 v (dl_balance \<delta> b')"
      using Cons.prems(1) Cons.prems(3) [of b'] t by auto
  qed
  then show ?case using d1 by simp
qed simp

lemma bucket_deltas_nonneg:
  assumes "fold_res (apply_bucket_delta \<delta>) bs d = Inr e" "dist_nonneg d" "twf (distribution d)"
  shows "dist_nonneg e"
proof -
  have "dist_nonneg e \<and> twf (distribution e)"
    using assms(1)
  proof (rule fold_res_invariant [where P = "\<lambda>d. dist_nonneg d \<and> twf (distribution d)"])
    show "dist_nonneg d \<and> twf (distribution d)" using assms by simp
    fix b d e assume i: "dist_nonneg d \<and> twf (distribution d)" "apply_bucket_delta \<delta> b d = Inr e"
    obtain t c v where t: "e = d\<lparr>distribution := t\<rparr>" "twf t" "tget (distribution d) b = Some (c, v)"
      "tget t = (tget (distribution d))(b \<mapsto> (add64 c (dl_count \<delta> b), add64 v (dl_balance \<delta> b)))"
      using apply_bucket_delta_effect [OF i(2)] i(1) by blast
    have "0 \<le> add64 c (dl_count \<delta> b)" "0 \<le> add64 v (dl_balance \<delta> b)"
      using i(2) t(3) by (auto simp: apply_bucket_delta_def Let_def split: if_splits)
    then show "dist_nonneg e \<and> twf (distribution e)" using i(1) t by (auto simp: dist_nonneg_def)
  qed
  then show ?thesis by simp
qed

section \<open>Limits: an invariant\<close>

definition limits :: "db \<Rightarrow> bool" where
  "limits d \<longleftrightarrow> addr_exact d \<and> dist_exact d \<and> utxo_canon d \<and> dist_nonneg d \<and> (\<forall>a. totals_guard d a)"

lemma update_touched_limits:
  assumes "update_touched s T h d = Inr e" "map_order_ok s"
    and "dist_nonneg d" "twf (distribution d)"
    and "\<And>a. a \<notin> set T \<Longrightarrow> totals_guard d a"
  shows "dist_nonneg e \<and> (\<forall>a. totals_guard e a)"
proof -
  obtain d1 \<delta> d2 where
    f: "fold_res recomputeAddressTracked (mapOrder s T) (d, newDistributionDelta) = Inr (d1, \<delta>)"
    and a: "applyDistributionDeltas \<delta> d1 = Inr d2" and h: "setDistributionAnchor h d2 = Inr e"
    using assms(1) by (rule update_touchedE)
  have "\<forall>a \<in> set T. totals_guard d a"
    using recompute_all_guard [of "mapOrder s T" "(d, newDistributionDelta)"] f
      map_order_set [OF assms(2)] by auto
  with assms(5) have g: "totals_guard d a" for a by blast
  have src: "source_side d e" by (rule update_touched_source(1) [OF assms(1)])
  then have "totals_guard e a = totals_guard d a" for a
    by (intro totals_guard_cong addr_utxos_tables) (simp_all add: source_side_def)
  moreover have "distribution d1 = distribution d" using recompute_all_source [OF f] by simp
  then have "dist_nonneg d1" "twf (distribution d1)" using assms(3,4) by (simp_all add: dist_nonneg_def)
  then have "dist_nonneg d2" by (rule bucket_deltas_nonneg [OF a [unfolded applyDistributionDeltas_def]])
  then have "dist_nonneg e" using h
    by (auto simp: setDistributionAnchor_def result_simps dist_nonneg_def)
  ultimately show ?thesis using g by simp
qed

lemma ApplyBlock_limits:
  assumes "limits d" "map_order_ok s" "ApplyBlock s b d = Inr e"
  shows "dist_nonneg e \<and> (\<forall>a. totals_guard e a)"
  using assms(3)
proof (rule ApplyBlockE)
  fix f1 d1 fees d2 T d3 facts d4 d5
  assume h: "applyBlockHeader b d = Inr (f1, d1)"
    and t: "apply_transactions (blk_Hash b) (blk_Height b = 0) (blk_Transactions b) d1 = Inr (fees, d2, T)"
    and u: "update_touched s T (blk_Hash b) d2 = Inr d3"
    and a: "applyBlockAccounting (accountingSchedule s) b fees d3 = Inr (facts, d4)"
    and r: "applySupplyRollup b (sync_state d) facts d4 = Inr d5" "set_sync_state (blk_Hash b) d5 = Inr e"
  have ro: "refs_ok d" using assms(1) by (simp add: limits_def addr_exact_def)
  have "moves (set T) d d2"
    using applyBlockHeader_moves [OF h] apply_transactions_tracked [OF t]
    by (auto simp: tracked_def intro: moves_trans)
  then have "addr_utxos d2 x = addr_utxos d x" if "x \<notin> set T" for x
    using that ro by (simp add: moves_def)
  then have "totals_guard d2 x" if "x \<notin> set T" for x
    using that assms(1) totals_guard_cong [of d2 x d] by (simp add: limits_def)
  moreover have "distribution d2 = distribution d"
    using dist_tx.apply_transactions [OF t] applyBlockHeader_effect(1) [OF h] refs_ok_db_wf [OF ro]
    by (auto simp: dist_side_def db_wf_def)
  ultimately have l3: "dist_nonneg d3 \<and> (\<forall>a. totals_guard d3 a)"
    using assms(1) by (intro update_touched_limits [OF u assms(2)])
      (auto simp: limits_def dist_nonneg_def dist_exact_def)
  obtain t1 t2 cp where e: "e = d3\<lparr>block_accounting := t1, block_supply_rollup := t2, sync_state := cp\<rparr>"
    using applyBlockAccounting_source [OF a] applySupplyRollup_source [OF r(1)] r(2)
    by (auto simp: set_sync_state_def result_simps)
  have "totals_guard e x = totals_guard d3 x" for x
    by (intro totals_guard_cong addr_utxos_tables) (simp_all add: e)
  then show ?thesis using l3 by (simp add: e dist_nonneg_def)
qed

lemma RollbackTo_limits:
  assumes "limits d" "map_order_ok s" "RollbackTo s h d = Inr e"
  shows "dist_nonneg e \<and> (\<forall>a. totals_guard e a)"
  using assms(3)
proof (rule RollbackToE)
  fix a d1 T d2
  assume r: "(if 0 < length (orphan_hashes d (b_height a))
      then rollback_utxos (orphan_hashes d (b_height a)) d else (d, [])) = (d1, T)"
    and u: "update_touched s T h d1 = Inr d2" and y: "set_sync_state h d2 = Inr e"
  have ro: "refs_ok d" using assms(1) by (simp add: limits_def addr_exact_def)
  have "moves (set T) d d1"
    using r by (auto split: if_splits intro: rollback_utxos_moves moves_refl)
  then have "addr_utxos d1 x = addr_utxos d x" if "x \<notin> set T" for x
    using that ro by (simp add: moves_def)
  then have "totals_guard d1 x" if "x \<notin> set T" for x
    using that assms(1) totals_guard_cong [of d1 x d] by (simp add: limits_def)
  moreover have "distribution d1 = distribution d"
    using r by (auto simp: rollback_utxos_def Let_def split: if_splits)
  ultimately have l2: "dist_nonneg d2 \<and> (\<forall>a. totals_guard d2 a)"
    using assms(1) by (intro update_touched_limits [OF u assms(2)])
      (auto simp: limits_def dist_nonneg_def dist_exact_def)
  obtain cp where e: "e = d2\<lparr>sync_state := cp\<rparr>" using y by (auto simp: set_sync_state_def result_simps)
  have "totals_guard e x = totals_guard d2 x" for x
    by (intro totals_guard_cong addr_utxos_tables) (simp_all add: e)
  then show ?thesis using l2 by (simp add: e dist_nonneg_def)
qed

interpretation limited: store_invariant s "\<lambda>_ _. map_order_ok s" limits for s
proof
  have "addr_utxos init_db a = []" for a by (simp add: addr_utxos_def init_db_def)
  then have "totals_guard init_db a" for a
    by (simp add: totals_guard_def address_totals_def Let_def i64_defs)
  moreover have "dist_nonneg init_db"
    using init_db_dist by (auto simp: dist_nonneg_def init_db_def tget_def dest!: map_of_SomeD)
  ultimately show "limits init_db"
    using init_db_exact init_db_dist coins.start by (simp add: limits_def)
  fix d op e
  assume i: "limits d" "map_order_ok s" "attempt s op d = Inr e"
  have "dist_nonneg e \<and> (\<forall>a. totals_guard e a)"
  proof (cases op)
    case (Apply b)
    then show ?thesis using i ApplyBlock_limits by (simp add: attempt_def)
  next
    case (Rollback h)
    then show ?thesis using i RollbackTo_limits by (simp add: attempt_def)
  qed
  then show "limits e"
    using i dist.step [of d s op e] coins.step [of d s op e] by (simp add: limits_def)
qed

section \<open>Destinations a block adds\<close>

text \<open>The destination table grows only at its end, and only by outputs of the block's transactions.\<close>

definition dest_ext :: "string set \<Rightarrow> db \<Rightarrow> db \<Rightarrow> bool" where
  "dest_ext S d e \<longleftrightarrow> (\<exists>xs. output_addresses e = output_addresses d @ xs \<and> (\<forall>x \<in> set xs. fst (fst x) \<in> S))"

lemma dest_ext_same: "output_addresses e = output_addresses d \<Longrightarrow> dest_ext S d e"
  by (simp add: dest_ext_def)

lemma dest_ext_trans: "dest_ext S d e \<Longrightarrow> dest_ext S e f \<Longrightarrow> dest_ext S d f"
  by (clarsimp simp: dest_ext_def) fastforce

lemma same_destinations:
  "insert_transaction txn fee d = Inr (fresh, e) \<Longrightarrow> output_addresses e = output_addresses d"
  "insert_variant txn d = Inr (fresh, e) \<Longrightarrow> output_addresses e = output_addresses d"
  "insert_block_transaction bh i txn d = Inr e \<Longrightarrow> output_addresses e = output_addresses d"
  "insert_input txid inp d = Inr e \<Longrightarrow> output_addresses e = output_addresses d"
  "apply_witness_item txid wtxid vin item d = Inr e \<Longrightarrow> output_addresses e = output_addresses d"
  "insert_output txid out d = Inr (fresh, e) \<Longrightarrow> output_addresses e = output_addresses d"
  "create_utxo bh op d = Inr e \<Longrightarrow> output_addresses e = output_addresses d"
  "markSpent prev txid vin bh d = Inr (addr, e) \<Longrightarrow> output_addresses e = output_addresses d"
  by ((clarsimp simp: insert_transaction_def insert_variant_def insert_block_transaction_def
        insert_input_def apply_witness_item_def insert_output_def create_utxo_def markSpent_def
        Let_def result_simps split: prod.splits option.splits if_splits); fail)+

lemma same_destinations_loop:
  "fold_res f xs d = Inr e \<Longrightarrow> (\<And>x d e. f x d = Inr e \<Longrightarrow> output_addresses e = output_addresses d) \<Longrightarrow>
    output_addresses e = output_addresses d"
  by (rule fold_res_relation [where R = "\<lambda>d e. output_addresses e = output_addresses d"]) simp_all

lemma applyInput_destinations:
  assumes "applyInput txid wtxid vf inp d = Inr e"
  shows "output_addresses e = output_addresses d"
proof -
  obtain d1 where i: "insert_input txid inp d = Inr d1"
    and w: "fold_res (apply_witness_item txid wtxid (in_Index inp)) (enumerate 0 (in_Witness inp)) d1 = Inr e"
    using assms by (auto simp: applyInput_def result_simps)
  have "output_addresses e = output_addresses d1"
    using w by (rule same_destinations_loop) (rule same_destinations(5))
  then show ?thesis using same_destinations(4) [OF i] by simp
qed

lemma apply_address_destinations:
  assumes "apply_address op fresh addr d = Inr e"
  shows "dest_ext {fst op} d e"
proof -
  have "output_addresses e = output_addresses d
    \<or> output_addresses e = output_addresses d @ [(op, addr)]"
    using assms by (auto simp: apply_address_def result_simps insertOrVerifyIdempotent_def
        tinsert_def split: if_splits option.splits)
  then show ?thesis by (auto simp: dest_ext_def)
qed

lemma applyOutput_destinations:
  assumes "applyOutput bh txid g out d = Inr (addr, e)"
  shows "dest_ext {txid} d e"
  using assms
proof (rule applyOutputE)
  fix fresh d0 d1 d2
  assume i: "insert_output txid out d = Inr (fresh, d0)"
    and a: "apply_address (txid, out_Index out) fresh (out_Address out) d0 = Inr d1"
    and p: "apply_participants (txid, out_Index out) fresh out d1 = Inr d2"
    and c: "(if \<not> g \<and> \<not> IsUnspendable (out_ScriptPubKey out) then create_utxo bh (txid, out_Index out) d2
      else Inr d2) = Inr e"
  have "output_addresses e = output_addresses d2"
    using c same_destinations(7) by (auto split: if_splits)
  then have "output_addresses e = output_addresses d1"
    using apply_participants_keeps_addresses [OF p] by simp
  then show ?thesis
    using apply_address_destinations [OF a] same_destinations(6) [OF i] by (simp add: dest_ext_def)
qed

lemma applyTransaction_destinations:
  assumes "applyTransaction bh g i txn (d, T) = Inr (fee, e, T')"
  shows "dest_ext {tx_TxID txn} d e"
  using assms
proof (rule applyTransactionE)
  fix f1 d1 f2 d2 d3 d4 d5 T5
  assume t: "insert_transaction txn fee d = Inr (f1, d1)" "insert_variant txn d1 = Inr (f2, d2)"
      "insert_block_transaction bh i txn d2 = Inr d3"
    and l: "fold_res (applyInput (tx_TxID txn) (tx_WTxID txn) f2) (tx_Inputs txn) d3 = Inr d4"
    and o: "apply_outputs bh (tx_TxID txn) g (tx_Outputs txn) (d4, T) = Inr (d5, T5)"
    and m: "(if tx_IsCoinbase txn then Inr (d5, T5)
      else mark_inputs bh (tx_TxID txn) (tx_Inputs txn) (d5, T5)) = Inr (e, T')"
  have 1: "output_addresses d4 = output_addresses d"
    using t l by (simp add: same_destinations(1-3) same_destinations_loop [OF l applyInput_destinations])
  have "dest_ext {tx_TxID txn} (fst (d4, T)) (fst (d5, T5))"
    using o unfolding apply_outputs_def
  proof (rule fold_res_relation [where R = "\<lambda>x y. dest_ext {tx_TxID txn} (fst x) (fst y)"])
    show "dest_ext {tx_TxID txn} (fst x) (fst z)"
      if "dest_ext {tx_TxID txn} (fst x) (fst y)" "dest_ext {tx_TxID txn} (fst y) (fst z)"
      for x y z :: "db \<times> string list" using that by (rule dest_ext_trans)
  qed (auto simp: result_simps dest_ext_same applyOutput_destinations)
  moreover have "output_addresses e = output_addresses d5"
  proof (cases "tx_IsCoinbase txn")
    case False
    with m have "mark_inputs bh (tx_TxID txn) (tx_Inputs txn) (d5, T5) = Inr (e, T')" by simp
    then have "output_addresses (fst (e, T')) = output_addresses (fst (d5, T5))"
      unfolding mark_inputs_def
      by (rule fold_res_relation [where R = "\<lambda>x y. output_addresses (fst y) = output_addresses (fst x)"])
        (auto simp: result_simps dest: same_destinations(8) split: option.splits)
    then show ?thesis by simp
  qed (use m in simp)
  ultimately show ?thesis using 1 by (simp add: dest_ext_def)
qed

definition block_txids :: "block \<Rightarrow> string set" where
  "block_txids b = tx_TxID ` set (blk_Transactions b)"

lemma dest_ext_mono: "dest_ext S d e \<Longrightarrow> S \<subseteq> S' \<Longrightarrow> dest_ext S' d e"
  by (auto simp: dest_ext_def)

lemma apply_transactions_destinations:
  assumes "apply_transactions bh g txs d = Inr (fees, e, T)"
  shows "dest_ext (tx_TxID ` set txs) d e"
proof -
  let ?S = "tx_TxID ` set txs"
  have "dest_ext ?S (fst (snd (0::int, d, []::string list))) (fst (snd (fees, e, T)))"
    using assms unfolding apply_transactions_def
  proof (rule fold_res_relation [where R = "\<lambda>x y. dest_ext ?S (fst (snd x)) (fst (snd y))"])
    show "dest_ext ?S (fst (snd x)) (fst (snd z))"
      if "dest_ext ?S (fst (snd x)) (fst (snd y))" "dest_ext ?S (fst (snd y)) (fst (snd z))"
      for x y z :: "int \<times> db \<times> string list" using that by (rule dest_ext_trans)
  next
    fix x s t assume x: "x \<in> set (enumerate 0 txs)"
      and st: "(case x of (i, txn) \<Rightarrow> \<lambda>(feeTotal, d, touched).
        rbind (applyTransaction bh g i txn (d, touched)) (\<lambda>(fee, d', touched').
        case fee of None \<Rightarrow> Inr (feeTotal, d', touched')
        | Some f \<Rightarrow> rbind (of_option ErrStoreAmountOverflow (addChecked feeTotal f)) (\<lambda>s.
            Inr (s, d', touched')))) s = Inr t"
    obtain i txn where xi: "x = (i, txn)" "txn \<in> set txs"
    proof -
      have "snd x \<in> set txs" using imageI [OF x, of snd] by (simp flip: set_map)
      then show thesis using that by (cases x) simp
    qed
    obtain f d0 T0 where s: "s = (f, d0, T0)" by (cases s) auto
    obtain fee d' T' where "applyTransaction bh g i txn (d0, T0) = Inr (fee, d', T')"
      "fst (snd t) = d'"
      using st by (auto simp: xi s result_simps split: option.splits)
    then have "dest_ext {tx_TxID txn} (fst (snd s)) (fst (snd t))"
      using applyTransaction_destinations s by auto
    then show "dest_ext ?S (fst (snd s)) (fst (snd t))"
      by (rule dest_ext_mono) (use xi(2) in simp)
  qed (simp add: dest_ext_same)
  then show ?thesis by simp
qed

lemma ApplyBlock_destinations:
  assumes "ApplyBlock s b d = Inr e" "twf (blocks d)"
  shows "dest_ext (block_txids b) d e"
  using assms(1)
proof (rule ApplyBlockE)
  fix f1 d1 fees d2 T d3 facts d4 d5
  assume h: "applyBlockHeader b d = Inr (f1, d1)"
    and t: "apply_transactions (blk_Hash b) (blk_Height b = 0) (blk_Transactions b) d1 = Inr (fees, d2, T)"
    and u: "update_touched s T (blk_Hash b) d2 = Inr d3"
    and a: "applyBlockAccounting (accountingSchedule s) b fees d3 = Inr (facts, d4)"
    and r: "applySupplyRollup b (sync_state d) facts d4 = Inr d5" "set_sync_state (blk_Hash b) d5 = Inr e"
  have "output_addresses d1 = output_addresses d" using applyBlockHeader_effect(1) [OF h assms(2)] by auto
  moreover have "output_addresses e = output_addresses d2"
    using update_touched_source(1) [OF u] applyBlockAccounting_source [OF a]
      applySupplyRollup_source [OF r(1)] r(2)
    by (auto simp: source_side_def set_sync_state_def result_simps)
  ultimately show ?thesis
    using apply_transactions_destinations [OF t] by (simp add: dest_ext_def block_txids_def)
qed

section \<open>Appending and rolling back\<close>

lemma append_facts:
  assumes "anchored d" "sync_state d = (h, Some t)" "ApplyBlock s b d = Inr e" "sync_state e \<noteq> sync_state d"
  shows "blk_Height b = h + 1" "\<not> canonical d (blk_Hash b) r"
    "\<exists>a. canonical e t a \<and> b_height a = h"
    "canonical e k q \<and> b_height q \<le> h \<longleftrightarrow> canonical d k q"
    "tget (blocks e) k = Some r' \<Longrightarrow> h < b_height r' \<and> b_canonical r' \<longleftrightarrow> k = blk_Hash b"
proof -
  have w: "twf (blocks d)" and "chain_inv d" using anchored_chain [OF assms(1)] by auto
  then obtain base where path: "chain_path d base h t" using assms(2) by (auto simp: chain_inv_def)
  note p = chain_pathD [OF path] and eff = ApplyBlock_chain [OF assms(3) w]
  have "blk_Hash b = t \<and> blk_Height b = h \<or> blk_Height b = h + 1 \<and> blk_PreviousHash b = t"
    by (rule continuity_cases)
      (use eff(7,8) assms(2) p(1-3) in \<open>simp_all add: block_checks_def block_row_of_def\<close>)
  then show hb: "blk_Height b = h + 1" using assms(2,4) eff(5) by auto
  show nc: "\<not> canonical d (blk_Hash b) r" for r
  proof
    assume c: "canonical d (blk_Hash b) r"
    then have "b_height r = h + 1" using eff(9) same_block_fields hb by (auto simp: canonical_def)
    with p(7) [OF c] show False by simp
  qed
  obtain rb where rb: "canonical e (blk_Hash b) rb" "b_height rb = h + 1"
    using eff(2) same_block_fields hb by fastforce
  obtain a where a: "canonical d t a" "b_height a = h" using p(4) by blast
  then have "canonical e t a"
    using canonical_after_apply [OF assms(3) w, of t a] nc [of a] by (auto split: if_splits)
  then show "\<exists>a. canonical e t a \<and> b_height a = h" using a by blast
  show "canonical e k q \<and> b_height q \<le> h \<longleftrightarrow> canonical d k q"
    using canonical_after_apply [OF assms(3) w, of k q] nc p(7) [of k q] rb
    by (cases "k = blk_Hash b") (auto simp: canonical_def)
  show "h < b_height r' \<and> b_canonical r' \<longleftrightarrow> k = blk_Hash b" if "tget (blocks e) k = Some r'"
    using that canonical_after_apply [OF assms(3) w, of k r'] p(7) [of k r'] rb
    by (cases "k = blk_Hash b") (auto simp: canonical_def)
qed

text \<open>The updates after a rollback succeed when the exact cache they lead to is one seen before.\<close>

lemma update_touched_succeeds:
  assumes s: "map_order_ok s" and e: "addr_exact e" "dist_exact e" and m: "moves (set T) e d1"
    and ds: "distribution d1 = distribution e"
    and g: "\<And>a. totals_guard d1 a" and cp: "checkpoint_of d1 h = Inr cp"
    and D: "addr_exact D" "dist_exact D" "dist_nonneg D" "\<And>a. cached d1 a = cached D a"
  shows "\<exists>f. update_touched s T h d1 = Inr f"
proof -
  obtain x where x: "fold_res recomputeAddressTracked (mapOrder s T) (d1, newDistributionDelta) = Inr x"
    using recompute_all_guard [of "mapOrder s T" "(d1, newDistributionDelta)"] g by auto
  obtain d2 \<delta> where xd: "x = (d2, \<delta>)" by force
  note f = x [unfolded xd]
  have r1: "refs_ok d1" "addresses d1 = addresses e"
    and out: "cached d1 a = cached e a" if "a \<notin> set T" for a
    using m e(1) that by (auto simp: moves_def addr_exact_def intro: cached_cong)
  have r1: "refs_ok d1" "addresses d1 = addresses e"
    using m e(1) by (auto simp: moves_def addr_exact_def)
  have w1: "twf (addresses d1)" by (rule refs_ok_twf(4) [OF r1(1)])
  obtain t where t: "d2 = d1\<lparr>addresses := t\<rparr>" "twf t"
    "\<And>a. tget t a = (if a \<in> set T then cached d1 a else tget (addresses d1) a)"
    using recompute_all_effect [OF f w1] map_order_set [OF s] by auto
  have "tget (addresses d2) a = tget (addresses D) a" for a
    using e(1) D(1) D(4) [of a] out [of a] r1(2) t(1) t(3) [of a] by (simp add: addr_exact_def)
  then have bt: "bucket_total g' b d2 = bucket_total g' b D" for g' b
    unfolding bucket_total_def
    by (intro tab.total_ext) (use t D(1) in \<open>simp_all add: addr_exact_def refs_ok_twf\<close>)
  have "delta_tracks d1 (d1, newDistributionDelta)"
    using w1 by (simp add: delta_tracks_def newDistributionDelta_def)
  then have tr: "delta_tracks d1 (d2, \<delta>)" by (rule recompute_all_tracks [OF f])
  have same: "bucket_total g' b d1 = bucket_total g' b e" for g' b
    using r1(2) by (simp add: bucket_total_def)
  have "\<exists>d3. fold_res (apply_bucket_delta \<delta>) (bucketsTouched \<delta>) d2 = Inr d3"
  proof (rule bucket_deltas_succeed)
    show "distinct (bucketsTouched \<delta>)" by (simp add: bucketsTouched_def bucket_ids_distinct)
    show "twf (distribution d2)" using e(2) ds t(1) by (simp add: dist_exact_def)
    fix b assume "b \<in> set (bucketsTouched \<delta>)"
    then have b: "b \<in> set DistributionBucketIDs" by (simp add: bucketsTouched_def)
    have "tget (distribution d2) b
      = Some (wrap64 (bucket_total (\<lambda>_. 1) b d1), wrap64 (bucket_total (\<lambda>v. v) b d1))"
      using e(2) b ds t(1) by (simp add: dist_exact_def same)
    moreover have "0 \<le> wrap64 (bucket_total (\<lambda>_. 1) b D) \<and> 0 \<le> wrap64 (bucket_total (\<lambda>v. v) b D)"
      using D(2,3) b by (simp add: dist_exact_def dist_nonneg_def)
    ultimately show "\<exists>c v. tget (distribution d2) b = Some (c, v)
        \<and> 0 \<le> add64 c (dl_count \<delta> b) \<and> 0 \<le> add64 v (dl_balance \<delta> b)"
      using tr by (simp add: add64_def delta_tracks_def bt)
  qed
  then obtain d3 where d3: "applyDistributionDeltas \<delta> d2 = Inr d3"
    by (auto simp: applyDistributionDeltas_def)
  obtain t' where "d3 = d2\<lparr>distribution := t'\<rparr>" using applyDistributionDeltas_tables [OF d3] by blast
  then have "checkpoint_of d3 h = Inr cp" using cp t(1) by (simp add: checkpoint_of_def)
  then show ?thesis using f d3 by (simp add: update_touched_def setDistributionAnchor_def)
qed

text \<open>Rows the unwound block created or spent come back as they were.\<close>

lemma unwind_row_ext:
  assumes "row_ext e bh x y" "set hs = {bh}"
    and "\<And>u. x = Some u \<Longrightarrow> u_block u \<noteq> bh \<and> (\<forall>s. u_spend u = Some s \<longrightarrow> s_block s \<noteq> bh)"
  shows "unwind hs y = x"
  using assms
  by (cases x; cases y)
    (auto simp: row_ext_def unwind_def born_in_def spend_by_def spent_in_def split: option.splits)

text \<open>No existing coin is created by a transaction the block contains (the rule of BIP 30).\<close>

definition new_coins_only :: "db \<Rightarrow> block \<Rightarrow> bool" where
  "new_coins_only d b \<longleftrightarrow> (\<forall>op. fst op \<in> block_txids b \<longrightarrow> tget (utxo_state d) op = None)"

lemma addr_utxos_restored:
  assumes "dest_ext S d f" "refs_ok d"
    and "\<And>op. fst op \<in> S \<Longrightarrow> tget (utxo_state d) op = None"
    and "\<And>op. tget (utxo_state f) op = tget (utxo_state d) op"
    and "tget (transaction_outputs d) \<subseteq>\<^sub>m tget (transaction_outputs f)"
  shows "addr_utxos f a = addr_utxos d a"
proof -
  obtain xs where xs: "output_addresses f = output_addresses d @ xs" "\<forall>x \<in> set xs. fst (fst x) \<in> S"
    using assms(1) by (auto simp: dest_ext_def)
  have new: "coin f op = None" if "x \<in> set xs" "fst x = op" for x op
  proof -
    have "tget (utxo_state f) op = None" using that xs(2) assms(3) [of op] assms(4) [of op] by auto
    then show ?thesis by (simp add: coin_def split: option.split)
  qed
  have old: "coin f op = coin d op" if "(op, a') \<in> set (output_addresses d)" for op a'
  proof -
    have "tget (output_addresses d) op = Some a'"
      using that in_set_tget [OF refs_ok_twf(1) [OF assms(2)]] by blast
    then have "op \<in> dom (tget (transaction_outputs d))" using refs_okD(1) [OF assms(2)] by blast
    then have "tget (transaction_outputs f) op = tget (transaction_outputs d) op"
      using assms(5) by (simp add: map_le_def)
    then show ?thesis using assms(4) by (simp add: coin_def)
  qed
  let ?g = "\<lambda>d (op, a'). if a' \<noteq> a then [] else case coin d op of None \<Rightarrow> [] | Some (v, u) \<Rightarrow> [(op, v, u)]"
  have "concat (map (?g f) xs) = []"
    using new by (auto simp: concat_eq_Nil_conv split: option.split prod.splits)
  moreover have "map (?g f) (output_addresses d) = map (?g d) (output_addresses d)"
    using old by (intro map_cong) auto
  ultimately show ?thesis
    unfolding addr_utxos_coin xs(1) map_append concat_append by (simp only: append_Nil2)
qed

text \<open>The state right after the three statements of the rollback.\<close>

lemma rolled_back_state:
  assumes "rollback_utxos hs e = (d1, T)"
  shows "output_addresses d1 = output_addresses e" "transaction_outputs d1 = transaction_outputs e"
    "distribution d1 = distribution e"
    "twf (utxo_state e) \<Longrightarrow> tget (utxo_state d1) op = unwind hs (tget (utxo_state e) op)"
    "tget (blocks d1) k = map_option (\<lambda>r. if k \<in> set hs then r\<lparr>b_canonical := False\<rparr> else r) (tget (blocks e) k)"
  using assms
  by (auto simp: rollback_utxos_def Let_def tget_tupdate tget_tdelete unwind_def split: option.splits)

lemma rollback_after_apply:
  assumes lim: "limits d" and s: "map_order_ok s" and sd: "sync_state d = (h, Some t)"
    and ap: "ApplyBlock s b d = Inr e" and app: "sync_state e \<noteq> sync_state d"
    and new: "new_coins_only d b"
  obtains f where "RollbackTo s t e = Inr f" "limits f" "sync_state f = sync_state d"
    "\<forall>op. tget (utxo_state f) op = tget (utxo_state d) op"
    "\<forall>a. addr_utxos f a = addr_utxos d a" "\<forall>k r. canonical f k r \<longleftrightarrow> canonical d k r"
proof -
  have ro: "refs_ok d" and anc: "anchored d" and uc: "utxo_canon d" and ae: "addr_exact d"
    using lim by (simp_all add: limits_def addr_exact_def utxo_canon_def)
  have w: "db_wf d" "twf (blocks d)" using refs_ok_db_wf [OF ro] by (simp_all add: db_wf_def)
  have le: "limits e" using limited.step [of d s "Apply b" e] lim s ap by (simp add: attempt_def)
  then have we: "db_wf e" "twf (blocks e)" "twf (utxo_state e)" "addr_exact e"
    by (simp_all add: limits_def addr_exact_def refs_ok_def db_wf_def)
  note facts = append_facts [OF anc sd ap app]
  obtain a where a: "canonical e t a" "b_height a = h" using facts(3) by blast
  let ?hs = "orphan_hashes e (b_height a)"
  obtain rb where rb: "tget (blocks e) (blk_Hash b) = Some rb"
    using ApplyBlock_chain(2) [OF ap w(2)] by (auto simp: canonical_def)
  have hs: "set ?hs = {blk_Hash b}"
  proof (intro set_eqI iffI)
    fix k assume k: "k \<in> set ?hs"
    then obtain r where "tget (blocks e) k = Some r"
      using in_set_tget [OF we(2)] by (auto simp: orphan_hashes_def)
    then show "k \<in> {blk_Hash b}" using k orphan_hashes_iff [OF we(2)] facts(5) a(2) by auto
  next
    fix k assume "k \<in> {blk_Hash b}"
    then show "k \<in> set ?hs" using orphan_hashes_iff [OF we(2) rb] facts(5) [OF rb] a(2) by simp
  qed
  have undo: "unwind ?hs (tget (utxo_state e) op) = tget (utxo_state d) op" for op
  proof (rule unwind_row_ext [OF ApplyBlock_utxo(1) [OF ap w(1)] hs])
    fix u assume "tget (utxo_state d) op = Some u"
    then show "u_block u \<noteq> blk_Hash b \<and> (\<forall>s. u_spend u = Some s \<longrightarrow> s_block s \<noteq> blk_Hash b)"
      using utxo_canonD [OF uc] facts(2) by (fastforce simp: coin_ok_def block_at_def)
  qed
  obtain d1 T where rb': "rollback_utxos ?hs e = (d1, T)" by force
  note st = rolled_back_state [OF rb']
  have kept: "tget (transaction_outputs d) \<subseteq>\<^sub>m tget (transaction_outputs e)"
    using immutable.ApplyBlock [OF ap] w(1) by (simp add: keeps_def rows_kept_def)
  have dest: "dest_ext (block_txids b) d e" by (rule ApplyBlock_destinations [OF ap w(2)])
  have au1: "addr_utxos d1 x = addr_utxos d x" for x
  proof (rule addr_utxos_restored [OF _ ro])
    show "dest_ext (block_txids b) d d1" using dest by (simp add: dest_ext_def st(1))
    show "tget (utxo_state d) op = None" if "fst op \<in> block_txids b" for op
      using that new unfolding new_coins_only_def by blast
    show "tget (utxo_state d1) op = tget (utxo_state d) op" for op
      by (simp add: st(4) [OF we(3)] undo)
  qed (simp add: st(2) kept)
  have tip1: "tget (blocks d1) t = Some a"
    using a st(5) [of t] orphan_hashes_iff [OF we(2), of t a h] by (auto simp: canonical_def)
  have cp1: "checkpoint_of d1 t = Inr (h, Some t)"
    using tip1 a by (simp add: checkpoint_of_def canonical_def)
  have "\<exists>f. update_touched s T t d1 = Inr f"
  proof (rule update_touched_succeeds [OF s we(4)])
    show "dist_exact e" "addr_exact d" "dist_exact d" "dist_nonneg d"
      using le lim by (simp_all add: limits_def)
    show "moves (set T) e d1" by (rule rollback_utxos_moves [OF rb'])
    show "totals_guard d1 x" for x
      using totals_guard_cong [OF au1 [of x]] lim by (simp add: limits_def)
    show "cached d1 x = cached d x" for x by (rule cached_cong [OF au1])
  qed (rule st(3), rule cp1)
  then obtain d2 where u: "update_touched s T t d1 = Inr d2" by blast
  have "blocks d2 = blocks d1" using update_touched_source(1) [OF u] by (simp add: source_side_def)
  then have "checkpoint_of d2 t = Inr (h, Some t)" using cp1 by (simp add: checkpoint_of_def)
  then obtain f where y: "set_sync_state t d2 = Inr f" by (simp add: set_sync_state_def)
  have ne: "?hs \<noteq> []" by (metis hs empty_set insert_not_empty)
  have "tget (blocks e) t = Some a" "b_canonical a" using a by (simp_all add: canonical_def)
  then have rt: "RollbackTo s t e = Inr f"
    unfolding RollbackTo_def Let_def using ne rb' u y by (simp only: option.case if_False simp_thms length_greater_0_conv if_True prod.case rbind_simps)
  have lf: "limits f" using limited.step [of e s "Rollback t" f] le s rt by (simp add: attempt_def)
  have fd1: "output_addresses f = output_addresses d1" "transaction_outputs f = transaction_outputs d1"
    "utxo_state f = utxo_state d1" "blocks f = blocks d1" "sync_state f = (h, Some t)"
    using update_touched_source(1) [OF u] y \<open>checkpoint_of d2 t = _\<close>
    by (auto simp: source_side_def set_sync_state_def)
  show thesis
  proof
    show "RollbackTo s t e = Inr f" "limits f" "sync_state f = sync_state d" using rt lf fd1(5) sd by simp_all
    show "\<forall>op. tget (utxo_state f) op = tget (utxo_state d) op"
      using st(4) [OF we(3)] undo by (simp add: fd1)
    show "\<forall>x. addr_utxos f x = addr_utxos d x"
      using au1 addr_utxos_tables [OF fd1(1-3)] by simp
    show "\<forall>k r. canonical f k r \<longleftrightarrow> canonical d k r"
    proof (intro allI)
      fix k r
      have "tget (blocks f) k
        = map_option (\<lambda>r. if k = blk_Hash b then r\<lparr>b_canonical := False\<rparr> else r) (tget (blocks e) k)"
        using st(5) [of k] by (simp only: hs fd1(4) singleton_iff)
      then have "canonical f k r \<longleftrightarrow> canonical e k r \<and> k \<noteq> blk_Hash b"
        by (cases "tget (blocks e) k") (auto simp: canonical_def)
      also have "\<dots> \<longleftrightarrow> canonical e k r \<and> b_height r \<le> h"
        using facts(5) [of k r] by (auto simp: canonical_def)
      finally show "canonical f k r \<longleftrightarrow> canonical d k r" using facts(4) by blast
    qed
  qed
qed

lemma CanonicalBlockHash_cong:
  assumes "anchored d" "anchored f" "sync_state f = sync_state d" "\<forall>k r. canonical f k r \<longleftrightarrow> canonical d k r"
  shows "CanonicalBlockHash f k = CanonicalBlockHash d k"
proof (cases "snd (sync_state d)")
  case None
  have "CanonicalBlockHash x k = None" if "anchored x" "snd (sync_state x) = None" for x
  proof -
    have "\<not> canonical x c r" for c r using that by (auto simp: anchored_def chain_inv_def)
    moreover have "twf (blocks x)" using that by (simp add: anchored_def chain_inv_def)
    ultimately have "List.find (\<lambda>(_, r). b_height r = k \<and> b_canonical r) (blocks x) = None"
      by (auto simp: find_None_iff in_set_tget canonical_def)
    then show ?thesis by (simp add: CanonicalBlockHash_def)
  qed
  with None assms show ?thesis by metis
next
  case (Some tip)
  obtain base where d: "chain_path d base (fst (sync_state d)) tip" "twf (blocks d)"
    using Some assms(1) by (auto simp: anchored_def chain_inv_def)
  obtain base' where f: "chain_path f base' (fst (sync_state f)) tip" "twf (blocks f)"
    using Some assms(2,3) by (auto simp: anchored_def chain_inv_def)
  have "CanonicalBlockHash f k = Some c \<longleftrightarrow> CanonicalBlockHash d k = Some c" for c
    using CanonicalBlockHash_Some [OF d] CanonicalBlockHash_Some [OF f] assms(4) by simp
  then show ?thesis by (metis not_Some_eq)
qed

text \<open>
  C4 A reorganization undoes exactly what the block did. If a block was appended to a reachable
  database without overwriting an existing coin, then rolling back to the previous tip succeeds,
  and the checkpoint, the canonical chain, every coin, every address row and every bucket are as
  they were before the block.
\<close>

theorem rollback_inverts_append:
  assumes "map_order_ok s" "d = run s ops init_db" "Tip d = (h, Some t)"
    and "ApplyBlock s b d = Inr e" "Tip e \<noteq> Tip d" "new_coins_only d b"
  shows "\<exists>f. RollbackTo s t e = Inr f \<and> Tip f = Tip d
    \<and> (\<forall>k. CanonicalBlockHash f k = CanonicalBlockHash d k)
    \<and> (\<forall>txid vout. GetUTXO f txid vout = GetUTXO d txid vout)
    \<and> (\<forall>a. tget (addresses f) a = tget (addresses d) a)
    \<and> (\<forall>b \<in> set DistributionBucketIDs. tget (distribution f) b = tget (distribution d) b)"
proof -
  have lim: "limits d" using limited.reachable [of s ops] assms(1,2) by (simp add: all_ok_const)
  obtain f where f: "RollbackTo s t e = Inr f" "limits f" "sync_state f = sync_state d"
    "\<forall>op. tget (utxo_state f) op = tget (utxo_state d) op"
    "\<forall>a. addr_utxos f a = addr_utxos d a" "\<forall>k r. canonical f k r \<longleftrightarrow> canonical d k r"
    by (rule rollback_after_apply [OF lim assms(1)]) (use assms(3-6) in \<open>simp_all add: Tip_def\<close>)
  have addr: "tget (addresses f) a = tget (addresses d) a" for a
    using f(2,5) lim cached_cong [of f a d] by (simp add: limits_def addr_exact_def)
  have bt: "bucket_total g b f = bucket_total g b d" for g b
    unfolding bucket_total_def
    by (intro tab.total_ext) (use addr f(2) lim in \<open>simp_all add: limits_def addr_exact_def refs_ok_twf\<close>)
  have "CanonicalBlockHash f k = CanonicalBlockHash d k" for k
    by (rule CanonicalBlockHash_cong)
      (use f lim in \<open>simp_all add: limits_def utxo_canon_def\<close>)
  moreover have "tget (distribution f) b = tget (distribution d) b" if "b \<in> set DistributionBucketIDs" for b
    using that f(2) lim by (simp add: limits_def dist_exact_def bt)
  ultimately show ?thesis using f(1,3,4) addr by (auto simp: Tip_def GetUTXO_def)
qed

end
