(* ===== verification/StoreSupply.thy ===== *)
theory StoreSupply
  imports StoreUtxo
begin

text \<open>
  The supply rollup: the value of the unspent coins, computed by summation over the UTXO table,
  is the number the rollup row of the tip carries, although the rollup is accumulated from subsidy,
  fees and coinbase totals and never looks at the UTXO table.
\<close>

declare split_paired_All [simp del] split_paired_Ex [simp del]

section \<open>Values\<close>

definition out_val :: "db \<Rightarrow> outpoint \<Rightarrow> int" where
  "out_val d op = (case tget (transaction_outputs d) op of Some o' \<Rightarrow> o_value o' | None \<Rightarrow> 0)"

definition unspent_total :: "db \<Rightarrow> int" where
  "unspent_total d = tsum (\<lambda>op u. if u_spend u = None then out_val d op else 0) (utxo_state d)"

lemma unspent_total_cong:
  assumes "utxo_state e = utxo_state d" "twf (utxo_state d)"
    and "\<And>op. tget (utxo_state d) op \<noteq> None \<Longrightarrow> out_val e op = out_val d op"
  shows "unspent_total e = unspent_total d"
  unfolding unspent_total_def assms(1)
  by (rule tab.total_cong [OF assms(2)]) (use assms(3) in auto)

lemma out_val_kept:
  assumes "tget (transaction_outputs d) \<subseteq>\<^sub>m tget (transaction_outputs e)"
    "tget (transaction_outputs d) op \<noteq> None"
  shows "out_val e op = out_val d op"
proof -
  have "tget (transaction_outputs e) op = tget (transaction_outputs d) op"
    using assms unfolding map_le_def by (metis domI option.exhaust)
  then show ?thesis by (simp add: out_val_def)
qed

lemma unspent_total_outputs:
  assumes "refs_ok d" "utxo_state e = utxo_state d"
    "tget (transaction_outputs d) \<subseteq>\<^sub>m tget (transaction_outputs e)"
  shows "unspent_total e = unspent_total d"
proof (rule unspent_total_cong [OF assms(2) refs_ok_twf(2) [OF assms(1)]])
  fix op assume "tget (utxo_state d) op \<noteq> None"
  then have "tget (transaction_outputs d) op \<noteq> None" using refs_okD(2) [OF assms(1)] by blast
  then show "out_val e op = out_val d op" by (rule out_val_kept [OF assms(3)])
qed

lemma keeps_outputs:
  "keeps d e \<Longrightarrow> refs_ok d \<Longrightarrow> tget (transaction_outputs d) \<subseteq>\<^sub>m tget (transaction_outputs e)"
  by (simp add: keeps_def rows_kept_def refs_ok_def)

section \<open>Creating and spending one coin\<close>

lemma create_utxo_total:
  assumes "create_utxo bh op d = Inr e" "refs_ok d" "tget (utxo_state d) op = None"
  shows "unspent_total e = unspent_total d + out_val d op"
    "op' \<noteq> op \<Longrightarrow> tget (utxo_state e) op' = tget (utxo_state d) op'"
    "tget (utxo_state e) op = Some u \<Longrightarrow> u_spend u = None"
    "transaction_outputs e = transaction_outputs d"
proof -
  obtain r where e: "e = d\<lparr>utxo_state := tinsert op \<lparr>u_block = bh, u_height = r, u_spend = None\<rparr> (utxo_state d)\<rparr>"
    using assms(1,3) by (auto simp: create_utxo_def result_simps insertOrVerifyIdempotent_def
        split: if_splits option.splits)
  then show "op' \<noteq> op \<Longrightarrow> tget (utxo_state e) op' = tget (utxo_state d) op'"
    "tget (utxo_state e) op = Some u \<Longrightarrow> u_spend u = None"
    "transaction_outputs e = transaction_outputs d"
    using assms(3) by (auto simp: tget_tinsert)
  have ov: "out_val e = out_val d" by (simp add: out_val_def e fun_eq_iff)
  have us: "utxo_state e = tinsert op \<lparr>u_block = bh, u_height = r, u_spend = None\<rparr> (utxo_state d)"
    by (simp add: e)
  show "unspent_total e = unspent_total d + out_val d op"
    unfolding unspent_total_def ov us
    by (simp add: tab.total_ins [OF refs_ok_twf(2) [OF assms(2)] assms(3)])
qed

text \<open>Coins neither created nor spent by the transaction \<open>x\<close>.\<close>

definition untouched_by :: "db \<Rightarrow> string \<Rightarrow> bool" where
  "untouched_by d x \<longleftrightarrow> (\<forall>op u. tget (utxo_state d) op = Some u \<longrightarrow>
     fst op \<noteq> x \<and> (\<forall>s. u_spend u = Some s \<longrightarrow> s_txid s \<noteq> x))"

lemma untouched_byD:
  "untouched_by d x \<Longrightarrow> tget (utxo_state d) op = Some u \<Longrightarrow> fst op \<noteq> x"
  "untouched_by d x \<Longrightarrow> tget (utxo_state d) op = Some u \<Longrightarrow> u_spend u = Some s \<Longrightarrow> s_txid s \<noteq> x"
  unfolding untouched_by_def by blast+

lemma markSpent_total:
  assumes "markSpent prev txid vin bh d = Inr (addr, e)" "refs_ok d"
    and "\<And>u s. tget (utxo_state d) prev = Some u \<Longrightarrow> u_spend u = Some s \<Longrightarrow> s_txid s = txid \<Longrightarrow> s_vin s \<noteq> vin"
  obtains u sp where "tget (utxo_state d) prev = Some u" "u_spend u = None"
    "s_txid sp = txid" "s_vin sp = vin"
    "unspent_total e = unspent_total d - out_val d prev"
    "\<forall>op. tget (utxo_state e) op
      = (if op = prev then Some (u\<lparr>u_spend := Some sp\<rparr>) else tget (utxo_state d) op)"
    "transaction_outputs e = transaction_outputs d"
proof -
  obtain u where u: "tget (utxo_state d) prev = Some u"
    using assms(1) by (auto simp: markSpent_def result_simps split: option.splits)
  have un: "u_spend u = None"
    using assms(1,3) u by (auto simp: markSpent_def result_simps split: option.splits if_splits)
  then obtain sp where sp: "spend_of d prev txid vin bh = Some sp"
    and e: "e = d\<lparr>utxo_state := tupdate (\<lambda>k _. k = prev) (\<lambda>r. r\<lparr>u_spend := Some sp\<rparr>) (utxo_state d)\<rparr>"
    using assms(1) u by (auto simp: markSpent_def result_simps split: option.splits)
  have id: "s_txid sp = txid" "s_vin sp = vin"
    using sp by (auto simp: spend_of_def split: option.splits if_splits)
  have row: "\<forall>op. tget (utxo_state e) op
      = (if op = prev then Some (u\<lparr>u_spend := Some sp\<rparr>) else tget (utxo_state d) op)"
    using u by (auto simp: e tget_tupdate option.map_ident)
  have ov: "out_val e = out_val d" by (simp add: out_val_def e fun_eq_iff)
  have "unspent_total e = tsum (\<lambda>op u. if u_spend u = None then out_val d op else 0)
      (tupdate (\<lambda>k _. k = prev) (\<lambda>r. r\<lparr>u_spend := Some sp\<rparr>) (utxo_state d))"
    unfolding unspent_total_def ov by (simp add: e)
  also have "\<dots> = unspent_total d - out_val d prev"
    using tab.total_upd_one [OF refs_ok_twf(2) [OF assms(2)] u,
        where P = "\<lambda>k _. k = prev" and f = "\<lambda>r. r\<lparr>u_spend := Some sp\<rparr>"] un
    by (simp add: unspent_total_def)
  finally show thesis using that u un id row by (simp add: e)
qed

section \<open>The outputs of a transaction\<close>

abbreviation (input) "out_sat o' \<equiv> sint (out_Value o')"

definition coin_value :: "bool \<Rightarrow> tx_output \<Rightarrow> int" where
  "coin_value g o' = (if output_excluded g o' then 0 else out_sat o')"

lemma insert_output_row:
  assumes "insert_output txid out d = Inr (fresh, e)" "refs_ok d"
  shows "tget (transaction_outputs e) (txid, out_Index out) = Some (out_row_of out)"
    "0 \<le> out_sat out" "utxo_state e = utxo_state d"
    "tget (transaction_outputs d) \<subseteq>\<^sub>m tget (transaction_outputs e)"
proof -
  obtain t where i: "insertOrVerifyIdempotent (output_checks (out_Index out) (out_row_of out))
      (tget (transactions d) txid \<noteq> None) (txid, out_Index out) (out_row_of out)
      (\<lambda>old. old = out_row_of out) (transaction_outputs d) = Inr (fresh, t)"
    and e: "e = d\<lparr>transaction_outputs := t\<rparr>"
    using assms(1) by (auto simp: insert_output_def Let_def result_simps)
  show "tget (transaction_outputs e) (txid, out_Index out) = Some (out_row_of out)"
    using i by (rule insertOrVerify_Inr) (auto simp: e tget_tinsert)
  show "0 \<le> out_sat out"
    using i by (rule insertOrVerify_Inr) (simp_all add: output_checks_def out_row_of_def)
  show "utxo_state e = utxo_state d" by (simp add: e)
  show "tget (transaction_outputs d) \<subseteq>\<^sub>m tget (transaction_outputs e)"
    using keeps_outputs [OF writes_keep(6) [OF assms(1)] assms(2)] .
qed

lemma apply_participants_coins:
  assumes "apply_participants op fresh out d = Inr e"
  shows "utxo_state e = utxo_state d \<and> transaction_outputs e = transaction_outputs d"
proof (cases "out_ScriptType out = TypeMultisig")
  case True
  with assms obtain ps where "fold_res (apply_participant op) ps d = Inr e"
    by (auto simp: apply_participants_def result_simps)
  then show ?thesis
    by (rule fold_res_relation) (auto simp: apply_participant_def result_simps split: prod.splits)
next
  case False
  with assms show ?thesis by (simp add: apply_participants_def)
qed

lemma applyOutput_total:
  assumes a: "applyOutput bh txid g out d = Inr (addr, e)" and r: "refs_ok d"
    and n: "tget (utxo_state d) (txid, out_Index out) = None"
  shows "unspent_total e = unspent_total d + coin_value g out" "0 \<le> out_sat out"
    "op \<noteq> (txid, out_Index out) \<Longrightarrow> tget (utxo_state e) op = tget (utxo_state d) op"
    "tget (utxo_state e) (txid, out_Index out) = Some u \<Longrightarrow> u_spend u = None"
    "tget (transaction_outputs d) \<subseteq>\<^sub>m tget (transaction_outputs e)"
proof -
  let ?op = "(txid, out_Index out)"
  obtain fresh d0 d1 d2 where i: "insert_output txid out d = Inr (fresh, d0)"
    and ad: "apply_address ?op fresh (out_Address out) d0 = Inr d1"
    and p: "apply_participants ?op fresh out d1 = Inr d2"
    and c: "(if \<not> g \<and> \<not> IsUnspendable (out_ScriptPubKey out) then create_utxo bh ?op d2 else Inr d2) = Inr e"
    using a by (rule applyOutputE)
  note row = insert_output_row [OF i r]
  have m0: "refs_ok d0" using insert_output_moves [OF i] r by (simp add: moves_def)
  have m1: "refs_ok d1"
    using apply_address_moves [OF ad insert_output_fresh [OF i r]] m0 by (simp add: moves_def)
  have m2: "refs_ok d2" using apply_participants_moves [OF p] m1 by (simp add: moves_def)
  have t1: "utxo_state d1 = utxo_state d0" "transaction_outputs d1 = transaction_outputs d0"
    using ad by (auto simp: apply_address_def result_simps split: if_splits)
  have t2: "utxo_state d2 = utxo_state d1 \<and> transaction_outputs d2 = transaction_outputs d1"
    using p apply_participants_coins by blast
  have V2: "unspent_total d2 = unspent_total d"
    by (rule unspent_total_outputs [OF r]) (simp_all add: t1 t2 row)
  have val: "out_val d2 ?op = out_sat out" by (simp add: out_val_def t1 t2 row out_row_of_def)
  have n2: "tget (utxo_state d2) ?op = None" using n by (simp add: t1 t2 row)
  show "0 \<le> out_sat out" by (rule row)
  show "unspent_total e = unspent_total d + coin_value g out"
    "op \<noteq> ?op \<Longrightarrow> tget (utxo_state e) op = tget (utxo_state d) op"
    "tget (utxo_state e) ?op = Some u \<Longrightarrow> u_spend u = None"
    "tget (transaction_outputs d) \<subseteq>\<^sub>m tget (transaction_outputs e)"
  proof -
    have "unspent_total e = unspent_total d2 + coin_value g out
      \<and> (op \<noteq> ?op \<longrightarrow> tget (utxo_state e) op = tget (utxo_state d2) op)
      \<and> (tget (utxo_state e) ?op = Some u \<longrightarrow> u_spend u = None)
      \<and> transaction_outputs e = transaction_outputs d2"
    proof (cases "\<not> g \<and> \<not> IsUnspendable (out_ScriptPubKey out)")
      case True
      then have "create_utxo bh ?op d2 = Inr e" using c by simp
      from create_utxo_total [OF this m2 n2] True show ?thesis
        by (simp add: coin_value_def output_excluded_def val)
    next
      case False
      with c n2 show ?thesis by (auto simp: coin_value_def output_excluded_def)
    qed
    then show "unspent_total e = unspent_total d + coin_value g out"
      "op \<noteq> ?op \<Longrightarrow> tget (utxo_state e) op = tget (utxo_state d) op"
      "tget (utxo_state e) ?op = Some u \<Longrightarrow> u_spend u = None"
      "tget (transaction_outputs d) \<subseteq>\<^sub>m tget (transaction_outputs e)"
      using V2 t1 t2 row(3,4) by simp_all
  qed
qed

lemma in_i64_sint [simp]: "in_i64 (sint (w :: amount))"
  using sint_greater_eq [of w] sint_less [of w] by (simp add: i64_defs)

lemma in_i64_0 [simp]: "in_i64 0"
  by (simp add: i64_defs)

lemma apply_outputs_total:
  assumes "apply_outputs bh txid g outs (d, T) = Inr (e, T')" "refs_ok d"
    "distinct (map out_Index outs)" "\<And>o'. o' \<in> set outs \<Longrightarrow> tget (utxo_state d) (txid, out_Index o') = None"
  shows "unspent_total e = unspent_total d + sum_list (map (coin_value g) outs)
    \<and> (\<forall>o' \<in> set outs. 0 \<le> out_sat o')
    \<and> (\<forall>op. fst op \<noteq> txid \<longrightarrow> tget (utxo_state e) op = tget (utxo_state d) op)
    \<and> (\<forall>op u. tget (utxo_state e) op = Some u \<longrightarrow> tget (utxo_state d) op = Some u \<or> u_spend u = None)
    \<and> tget (transaction_outputs d) \<subseteq>\<^sub>m tget (transaction_outputs e)"
  using assms
proof (induction outs arbitrary: d T)
  case Nil
  then show ?case by (simp add: apply_outputs_def)
next
  case (Cons x outs)
  obtain addr d1 where a: "applyOutput bh txid g x d = Inr (addr, d1)"
    and f: "apply_outputs bh txid g outs (d1, touch addr T) = Inr (e, T')"
    using Cons.prems(1) by (auto simp: apply_outputs_def result_simps)
  have n: "tget (utxo_state d) (txid, out_Index x) = None" using Cons.prems(4) by simp
  note t = applyOutput_total [OF a Cons.prems(2) n]
  have r1: "refs_ok d1" using applyOutput_moves [OF a] Cons.prems(2) by (simp add: moves_def)
  have n1: "tget (utxo_state d1) (txid, out_Index o') = None" if "o' \<in> set outs" for o'
  proof -
    have "out_Index x \<notin> out_Index ` set outs" using Cons.prems(3) by simp
    then have "out_Index o' \<noteq> out_Index x" using that by (metis image_eqI)
    then show ?thesis using Cons.prems(4) [of o'] that by (simp add: t(3))
  qed
  have IH: "unspent_total e = unspent_total d1 + sum_list (map (coin_value g) outs)
    \<and> (\<forall>o' \<in> set outs. 0 \<le> out_sat o')
    \<and> (\<forall>op. fst op \<noteq> txid \<longrightarrow> tget (utxo_state e) op = tget (utxo_state d1) op)
    \<and> (\<forall>op u. tget (utxo_state e) op = Some u \<longrightarrow> tget (utxo_state d1) op = Some u \<or> u_spend u = None)
    \<and> tget (transaction_outputs d1) \<subseteq>\<^sub>m tget (transaction_outputs e)"
    by (rule Cons.IH [OF f r1 _ n1]) (use Cons.prems(3) in simp)
  have "tget (utxo_state d1) op = Some u \<Longrightarrow> tget (utxo_state d) op = Some u \<or> u_spend u = None" for op u
    using t(3) [of op] t(4) [of u] by (cases "op = (txid, out_Index x)") auto
  then have "\<forall>op u. tget (utxo_state e) op = Some u \<longrightarrow> tget (utxo_state d) op = Some u \<or> u_spend u = None"
    using IH by metis
  moreover have "\<forall>op. fst op \<noteq> txid \<longrightarrow> tget (utxo_state e) op = tget (utxo_state d) op"
    using IH t(3) by (metis fst_conv)
  moreover have "tget (transaction_outputs d) \<subseteq>\<^sub>m tget (transaction_outputs e)"
    using IH t(5) map_le_trans by blast
  ultimately show ?case using IH t(1,2) by simp
qed

definition prev_val :: "db \<Rightarrow> tx_input \<Rightarrow> int" where
  "prev_val d inp = (case in_PreviousOut inp of None \<Rightarrow> 0 | Some p \<Rightarrow> out_val d p)"

lemma mark_inputs_total:
  assumes "mark_inputs bh txid inps (d, T) = Inr (e, T')" "refs_ok d" "distinct (map in_Index inps)"
    and "\<And>op u s. tget (utxo_state d) op = Some u \<Longrightarrow> u_spend u = Some s \<Longrightarrow> s_txid s = txid \<Longrightarrow>
      s_vin s \<notin> set (map in_Index inps)"
  shows "unspent_total e = unspent_total d - sum_list (map (prev_val d) inps)
    \<and> transaction_outputs e = transaction_outputs d
    \<and> (\<forall>op u'. tget (utxo_state e) op = Some u' \<longrightarrow> (\<exists>u. tget (utxo_state d) op = Some u
        \<and> (u' = u \<or> (\<exists>s. u' = u\<lparr>u_spend := Some s\<rparr> \<and> s_txid s = txid))))"
  using assms
proof (induction inps arbitrary: d T)
  case Nil
  then show ?case by (simp add: mark_inputs_def)
next
  case (Cons x inps)
  obtain p addr d1 where p: "in_PreviousOut x = Some p"
    and m: "markSpent p txid (in_Index x) bh d = Inr (addr, d1)"
    and f: "mark_inputs bh txid inps (d1, touch addr T) = Inr (e, T')"
    using Cons.prems(1) by (auto simp: mark_inputs_def result_simps split: option.splits)
  obtain u sp where u: "tget (utxo_state d) p = Some u" "u_spend u = None"
    and sp: "s_txid sp = txid" "s_vin sp = in_Index x"
    and V: "unspent_total d1 = unspent_total d - out_val d p"
    and row: "\<forall>op. tget (utxo_state d1) op
      = (if op = p then Some (u\<lparr>u_spend := Some sp\<rparr>) else tget (utxo_state d) op)"
    and outs: "transaction_outputs d1 = transaction_outputs d"
    by (rule markSpent_total [OF m Cons.prems(2)]) (use Cons.prems(4) in auto)
  have r1: "refs_ok d1" using markSpent_moves [OF m] Cons.prems(2) by (simp add: moves_def)
  have c1: "s_vin s \<notin> set (map in_Index inps)"
    if "tget (utxo_state d1) op = Some v" "u_spend v = Some s" "s_txid s = txid" for op v s
  proof (cases "op = p")
    case True
    then have "v = u\<lparr>u_spend := Some sp\<rparr>" using that(1) row by simp
    then have "s = sp" using that(2) by simp
    then show ?thesis using Cons.prems(3) sp(2) by simp
  next
    case False
    then have "tget (utxo_state d) op = Some v" using that(1) row by simp
    from Cons.prems(4) [OF this that(2,3)] show ?thesis by simp
  qed
  have IH: "unspent_total e = unspent_total d1 - sum_list (map (prev_val d1) inps)
    \<and> transaction_outputs e = transaction_outputs d1
    \<and> (\<forall>op u'. tget (utxo_state e) op = Some u' \<longrightarrow> (\<exists>u. tget (utxo_state d1) op = Some u
        \<and> (u' = u \<or> (\<exists>s. u' = u\<lparr>u_spend := Some s\<rparr> \<and> s_txid s = txid))))"
    by (rule Cons.IH [OF f r1 _ c1]) (use Cons.prems(3) in auto)
  have ov: "out_val d1 = out_val d" by (simp add: out_val_def fun_eq_iff outs)
  have "prev_val d1 = prev_val d" unfolding prev_val_def [abs_def] ov by (rule refl)
  then have "unspent_total e = unspent_total d - sum_list (map (prev_val d) (x # inps))"
    using IH V p by (simp add: prev_val_def [of d x])
  moreover have "\<exists>v. tget (utxo_state d) op = Some v
      \<and> (u' = v \<or> (\<exists>s. u' = v\<lparr>u_spend := Some s\<rparr> \<and> s_txid s = txid))"
    if e': "tget (utxo_state e) op = Some u'" for op u'
  proof -
    obtain w where w: "tget (utxo_state d1) op = Some w"
      "u' = w \<or> (\<exists>s. u' = w\<lparr>u_spend := Some s\<rparr> \<and> s_txid s = txid)" using IH e' by metis
    show ?thesis using w row u sp(1) by (cases "op = p") auto
  qed
  ultimately show ?case using IH outs by simp
qed

section \<open>Fees\<close>

definition outs_range :: "db \<Rightarrow> bool" where
  "outs_range d \<longleftrightarrow> (\<forall>op r. tget (transaction_outputs d) op = Some r \<longrightarrow> 0 \<le> o_value r \<and> in_i64 (o_value r))"

lemma sum_checked_sum:
  assumes "fold_res (\<lambda>v s. of_option err (addChecked s v)) vs s0 = Inr s" "in_i64 s0"
    "\<forall>v \<in> set vs. in_i64 v"
  shows "s = s0 + sum_list vs \<and> in_i64 s"
  using assms
proof (induction vs arbitrary: s0)
  case (Cons v vs)
  obtain s1 where s1: "addChecked s0 v = Some s1"
    and f: "fold_res (\<lambda>v s. of_option err (addChecked s v)) vs s1 = Inr s"
    using Cons.prems(1) by (auto simp: result_simps of_option_def split: option.splits)
  have s1': "s1 = s0 + v" "in_i64 s1" using addChecked_SomeD [OF s1] Cons.prems by auto
  have IH: "s = s1 + sum_list vs \<and> in_i64 s" by (rule Cons.IH [OF f s1'(2)]) (use Cons.prems(3) in simp)
  from conjunct1 [OF IH] s1'(1) have "s = s0 + sum_list (v # vs)" by simp
  with IH show ?case by blast
qed simp

lemma input_sum:
  assumes "fold_res (\<lambda>inp s. case in_PreviousOut inp of None \<Rightarrow> Inl ErrNoPreviousOut
      | Some p \<Rightarrow> rbind (checkPrevout d p txid (in_Index inp)) (\<lambda>val.
          of_option ErrStoreAmountOverflow (addChecked s val))) inps s0 = Inr s"
    and "in_i64 s0" "0 \<le> s0" "outs_range d"
  shows "s = s0 + sum_list (map (prev_val d) inps) \<and> in_i64 s \<and> 0 \<le> s
    \<and> (\<forall>inp \<in> set inps. \<exists>p. in_PreviousOut inp = Some p \<and> tget (transaction_outputs d) p \<noteq> None)"
  using assms
proof (induction inps arbitrary: s0)
  case (Cons x inps)
  obtain p v s1 where p: "in_PreviousOut x = Some p"
    and c: "checkPrevout d p txid (in_Index x) = Inr v" and s1: "addChecked s0 v = Some s1"
    and f: "fold_res (\<lambda>inp s. case in_PreviousOut inp of None \<Rightarrow> Inl ErrNoPreviousOut
      | Some p \<Rightarrow> rbind (checkPrevout d p txid (in_Index inp)) (\<lambda>val.
          of_option ErrStoreAmountOverflow (addChecked s val))) inps s1 = Inr s"
    using Cons.prems(1) by (auto simp: result_simps of_option_def split: option.splits)
  obtain r where r: "tget (transaction_outputs d) p = Some r" "v = o_value r"
    using c by (auto simp: checkPrevout_def result_simps split: option.splits if_splits)
  have v: "0 \<le> v" "in_i64 v" "prev_val d x = v"
    using r Cons.prems(4) p unfolding outs_range_def by (simp_all add: prev_val_def out_val_def)
  have s1': "s1 = s0 + v" "in_i64 s1" using addChecked_SomeD [OF s1] Cons.prems(2) v by auto
  have "0 \<le> s1" using v Cons.prems(3) s1'(1) by simp
  note IH = Cons.IH [OF f s1'(2) this Cons.prems(4)]
  have "s = s0 + sum_list (map (prev_val d) (x # inps))" using IH s1'(1) v by simp
  moreover have "\<exists>p. in_PreviousOut x = Some p \<and> tget (transaction_outputs d) p \<noteq> None" using p r by simp
  then have "\<forall>inp \<in> set (x # inps). \<exists>p. in_PreviousOut inp = Some p \<and> tget (transaction_outputs d) p \<noteq> None"
    using IH by (simp only: list.set ball_simps) blast
  ultimately show ?case using IH by blast
qed simp

text \<open>The fee is the difference of the two sums, in integers.\<close>

lemma transaction_fee_value:
  assumes "transaction_fee txn d = Inr fee" "\<not> tx_IsCoinbase txn" "outs_range d"
    "\<forall>o' \<in> set (tx_Outputs txn). 0 \<le> out_sat o'"
  shows "fee = Some (sum_list (map (prev_val d) (tx_Inputs txn)) - sum_list (map out_sat (tx_Outputs txn)))"
    "\<forall>inp \<in> set (tx_Inputs txn). \<exists>p. in_PreviousOut inp = Some p \<and> tget (transaction_outputs d) p \<noteq> None"
    "0 \<le> the fee \<and> in_i64 (the fee)"
proof -
  obtain a b where a: "fold_res (\<lambda>inp s. case in_PreviousOut inp of None \<Rightarrow> Inl ErrNoPreviousOut
      | Some p \<Rightarrow> rbind (checkPrevout d p (tx_TxID txn) (in_Index inp)) (\<lambda>val.
          of_option ErrStoreAmountOverflow (addChecked s val))) (tx_Inputs txn) 0 = Inr a"
    and b: "sum_checked ErrStoreAmountOverflow (map (\<lambda>out. Satoshis (out_Value out)) (tx_Outputs txn)) = Inr b"
    and f: "0 \<le> sub64 a b" "fee = Some (sub64 a b)"
    using assms(1,2) by (auto simp: transaction_fee_def Let_def result_simps split: if_splits)
  have "in_i64 (0::int)" by (simp add: i64_defs)
  note A = input_sum [OF a this _ assms(3)]
  have B: "b = sum_list (map out_sat (tx_Outputs txn)) \<and> in_i64 b"
    using sum_checked_sum [OF b [unfolded sum_checked_def] \<open>in_i64 0\<close>] by (auto simp: Satoshis_def)
  have "0 \<le> sum_list (map out_sat (tx_Outputs txn))"
    by (rule sum_list_nonneg) (use assms(4) in auto)
  then have "0 \<le> b" using B by simp
  then have "in_i64 (a - b)" using A B by (auto simp: i64_defs)
  then have "sub64 a b = a - b" by (simp add: sub64_def wrap64_id)
  then show "fee = Some (sum_list (map (prev_val d) (tx_Inputs txn)) - sum_list (map out_sat (tx_Outputs txn)))"
    "0 \<le> the fee \<and> in_i64 (the fee)"
    using f A B \<open>in_i64 (a - b)\<close> by simp_all
  show "\<forall>inp \<in> set (tx_Inputs txn). \<exists>p. in_PreviousOut inp = Some p \<and> tget (transaction_outputs d) p \<noteq> None"
    using A by simp
qed

section \<open>Positions\<close>

lemma fold_res_all: "fold_res f xs s = Inr t \<Longrightarrow> x \<in> set xs \<Longrightarrow> \<exists>s t. f x s = Inr t"
  by (induction xs arbitrary: s) (auto simp: result_simps)

lemma for_each_all: "for_each f xs = Inr u \<Longrightarrow> x \<in> set xs \<Longrightarrow> f x = Inr ()"
  unfolding for_each_def by (drule (1) fold_res_all) auto

lemma in_enumerate: "i < length xs \<Longrightarrow> (i, xs ! i) \<in> set (enumerate 0 xs)"
  by (simp add: in_set_enumerate_eq)

text \<open>Positional indices that the schema's integer columns can hold are distinct.\<close>

lemma positional_indices:
  assumes "\<And>i. i < length xs \<Longrightarrow> idx (xs ! i) = uint32_of i" "\<And>x. x \<in> set xs \<Longrightarrow> fits_int4 (idx x)"
  shows "map idx xs = [0..<length xs]"
proof -
  have l: "length xs \<le> 2147483648"
  proof (rule ccontr)
    assume "\<not> length xs \<le> 2147483648"
    then have i: "2147483648 < length xs" by simp
    then have "idx (xs ! 2147483648) = 2147483648" using assms(1) by (simp add: uint32_of_def)
    moreover have "fits_int4 (idx (xs ! 2147483648))" by (rule assms(2)) (use i in simp)
    ultimately show False by (simp add: in_i32_def)
  qed
  show ?thesis
    by (rule nth_equalityI) (use assms(1) l in \<open>auto simp: uint32_of_def\<close>)
qed

lemma positional_distinct:
  assumes "\<And>i. i < length xs \<Longrightarrow> idx (xs ! i) = uint32_of i" "\<And>x. x \<in> set xs \<Longrightarrow> fits_int4 (idx x)"
  shows "distinct (map idx xs)"
  by (simp only: positional_indices [where idx = idx, OF assms] distinct_upt)

section \<open>One transaction\<close>

definition same_coins :: "db \<Rightarrow> db \<Rightarrow> bool" where
  "same_coins d e \<longleftrightarrow> utxo_state e = utxo_state d \<and> transaction_outputs e = transaction_outputs d"

lemma same_coins_writes:
  "insert_transaction txn fee d = Inr (fresh, e) \<Longrightarrow> same_coins d e"
  "insert_variant txn d = Inr (fresh, e) \<Longrightarrow> same_coins d e"
  "insert_block_transaction bh i txn d = Inr e \<Longrightarrow> same_coins d e"
  "insert_input txid inp d = Inr e \<Longrightarrow> same_coins d e"
  "apply_witness_item txid wtxid vin item d = Inr e \<Longrightarrow> same_coins d e"
  by ((clarsimp simp: same_coins_def insert_transaction_def insert_variant_def
        insert_block_transaction_def insert_input_def apply_witness_item_def Let_def result_simps
        split: prod.splits); fail)+

lemma same_coins_loop:
  "fold_res f xs d = Inr e \<Longrightarrow> (\<And>x d e. f x d = Inr e \<Longrightarrow> same_coins d e) \<Longrightarrow> same_coins d e"
  by (rule fold_res_relation [where R = same_coins]) (auto simp: same_coins_def)

lemma applyInput_coins:
  assumes "applyInput txid wtxid vf inp d = Inr e"
  shows "same_coins d e" "fits_int4 (in_Index inp)"
proof -
  obtain d1 where i: "insert_input txid inp d = Inr d1"
    and w: "fold_res (apply_witness_item txid wtxid (in_Index inp)) (enumerate 0 (in_Witness inp)) d1 = Inr e"
    using assms by (auto simp: applyInput_def result_simps)
  have "same_coins d1 e" using w by (rule same_coins_loop) (rule same_coins_writes(5))
  then show "same_coins d e" using same_coins_writes(4) [OF i] by (simp add: same_coins_def)
  show "fits_int4 (in_Index inp)"
    using i by (auto simp: insert_input_def Let_def result_simps insertOrVerifyIdempotent_def
        input_checks_def split: if_splits)
qed

lemma applyOutput_index: "applyOutput bh txid g out d = Inr (addr, e) \<Longrightarrow> fits_int4 (out_Index out)"
  by (erule applyOutputE)
    (auto simp: insert_output_def Let_def result_simps insertOrVerifyIdempotent_def
      output_checks_def split: if_splits)

definition shape_ok :: "transaction \<Rightarrow> bool" where
  "shape_ok txn \<longleftrightarrow> (\<forall>i < length (tx_Inputs txn). in_Index (tx_Inputs txn ! i) = uint32_of i)
    \<and> (\<forall>i < length (tx_Outputs txn). out_Index (tx_Outputs txn ! i) = uint32_of i)"

lemma check_tx_shape_ok:
  assumes "check_tx_shape (idx, txn) = Inr u"
  shows "shape_ok txn" "tx_IsCoinbase txn \<longleftrightarrow> idx = 0"
proof -
  have i: "for_each check_input_shape (enumerate 0 (tx_Inputs txn)) = Inr ()"
    and o: "for_each (\<lambda>(i, out). guard (out_Index out = uint32_of i) ErrImmutableConflict)
        (enumerate 0 (tx_Outputs txn)) = Inr ()"
    using assms by (auto simp: check_tx_shape_def result_simps Let_def)
  have "in_Index (tx_Inputs txn ! k) = uint32_of k" if "k < length (tx_Inputs txn)" for k
    using for_each_all [OF i in_enumerate [OF that]] by (auto simp: check_input_shape_def result_simps)
  moreover have "out_Index (tx_Outputs txn ! k) = uint32_of k" if "k < length (tx_Outputs txn)" for k
    using for_each_all [OF o in_enumerate [OF that]] by (auto simp: result_simps)
  ultimately show "shape_ok txn" by (simp add: shape_ok_def)
  show "tx_IsCoinbase txn \<longleftrightarrow> idx = 0"
    using assms by (cases idx) (auto simp: check_tx_shape_def result_simps Let_def)
qed

lemma untouched_row_step:
  assumes "untouched_by d x" "x \<noteq> txid"
    and "\<And>op u'. tget (utxo_state e) op = Some u' \<Longrightarrow>
      fst op = txid \<and> (\<forall>s. u_spend u' = Some s \<longrightarrow> s_txid s = txid)
      \<or> (\<exists>u. tget (utxo_state d) op = Some u \<and> (u' = u \<or> (\<exists>s. u' = u\<lparr>u_spend := Some s\<rparr> \<and> s_txid s = txid)))"
  shows "untouched_by e x"
  unfolding untouched_by_def
proof (intro allI impI)
  fix op u' assume "tget (utxo_state e) op = Some u'"
  from assms(3) [OF this] assms(2) show "fst op \<noteq> x \<and> (\<forall>s. u_spend u' = Some s \<longrightarrow> s_txid s \<noteq> x)"
    using untouched_byD [OF assms(1), of op] by auto
qed

lemma applyTransaction_total:
  assumes a: "applyTransaction bh g i txn (d, T) = Inr (fee, e, T')" and r: "refs_ok d"
    and rg: "outs_range d" and un: "untouched_by d (tx_TxID txn)" and sh: "shape_ok txn"
  shows "unspent_total e = unspent_total d + sum_list (map (coin_value g) (tx_Outputs txn))
      - (case fee of None \<Rightarrow> 0 | Some f \<Rightarrow> f + sum_list (map out_sat (tx_Outputs txn)))"
    "fee = None \<longleftrightarrow> tx_IsCoinbase txn" "fee = Some f \<Longrightarrow> 0 \<le> f \<and> in_i64 f"
    "x \<noteq> tx_TxID txn \<Longrightarrow> untouched_by d x \<Longrightarrow> untouched_by e x"
proof -
  let ?txid = "tx_TxID txn"
  obtain f1 d1 f2 d2 d3 d4 d5 T5 where
    fe: "transaction_fee txn d = Inr fee"
    and t: "insert_transaction txn fee d = Inr (f1, d1)" "insert_variant txn d1 = Inr (f2, d2)"
      "insert_block_transaction bh i txn d2 = Inr d3"
    and l: "fold_res (applyInput ?txid (tx_WTxID txn) f2) (tx_Inputs txn) d3 = Inr d4"
    and o: "apply_outputs bh ?txid g (tx_Outputs txn) (d4, T) = Inr (d5, T5)"
    and m: "(if tx_IsCoinbase txn then Inr (d5, T5)
      else mark_inputs bh ?txid (tx_Inputs txn) (d5, T5)) = Inr (e, T')"
    using a by (rule applyTransactionE)
  have "same_coins d d1" "same_coins d1 d2" "same_coins d2 d3"
    using t by (simp_all add: same_coins_writes)
  moreover have "same_coins d3 d4" using l by (rule same_coins_loop) (rule applyInput_coins)
  ultimately have s4: "utxo_state d4 = utxo_state d" "transaction_outputs d4 = transaction_outputs d"
    by (simp_all add: same_coins_def)
  have "moves {} d d1" "moves {} d1 d2" "moves {} d2 d3" using t by (simp_all add: other_writes)
  moreover have "moves {} d3 d4" using l by (rule moves_loop) (rule applyInput_moves)
  ultimately have r4: "refs_ok d4" using r by (simp add: moves_def)
  have di: "distinct (map in_Index (tx_Inputs txn))"
  proof (rule positional_distinct)
    show "fits_int4 (in_Index inp)" if "inp \<in> set (tx_Inputs txn)" for inp
      using fold_res_all [OF l that] applyInput_coins(2) by blast
  qed (use sh in \<open>simp add: shape_ok_def\<close>)
  have do': "distinct (map out_Index (tx_Outputs txn))"
  proof (rule positional_distinct)
    show "fits_int4 (out_Index out)" if "out \<in> set (tx_Outputs txn)" for out
      using fold_res_all [OF o [unfolded apply_outputs_def] that] applyOutput_index
      by (auto simp: result_simps split: prod.splits)
  qed (use sh in \<open>simp add: shape_ok_def\<close>)
  have none: "tget (utxo_state d) (?txid, k) = None" for k
    using untouched_byD(1) [OF un] by (metis fst_conv not_Some_eq)
  note O = apply_outputs_total [OF o r4 do', unfolded s4, OF none]
  have V4: "unspent_total d4 = unspent_total d"
    by (rule unspent_total_outputs [OF r]) (simp_all add: s4)
  have r5: "refs_ok d5" using apply_outputs_tracked [OF o] r4 by (simp add: tracked_def moves_def)
  have step5: "fst op = ?txid \<and> u_spend u' = None \<or> tget (utxo_state d) op = Some u'"
    if "tget (utxo_state d5) op = Some u'" for op u'
  proof (cases "fst op = ?txid")
    case True
    then have "tget (utxo_state d) op = None" using none by (cases op) simp
    then show ?thesis using O that True by (metis option.distinct(1))
  next
    case False
    then show ?thesis using O that by metis
  qed
  have old: "s_txid s \<noteq> ?txid" if "tget (utxo_state d5) op = Some u" "u_spend u = Some s" for op u s
    using step5 [OF that(1)] that(2) untouched_byD(2) [OF un] by auto
  show "unspent_total e = unspent_total d + sum_list (map (coin_value g) (tx_Outputs txn))
      - (case fee of None \<Rightarrow> 0 | Some f \<Rightarrow> f + sum_list (map out_sat (tx_Outputs txn)))"
    "fee = None \<longleftrightarrow> tx_IsCoinbase txn" "fee = Some f \<Longrightarrow> 0 \<le> f \<and> in_i64 f"
    "x \<noteq> ?txid \<Longrightarrow> untouched_by d x \<Longrightarrow> untouched_by e x"
  proof -
    have "unspent_total e = unspent_total d + sum_list (map (coin_value g) (tx_Outputs txn))
        - (case fee of None \<Rightarrow> 0 | Some f \<Rightarrow> f + sum_list (map out_sat (tx_Outputs txn)))
      \<and> (fee = None \<longleftrightarrow> tx_IsCoinbase txn) \<and> (fee = Some f \<longrightarrow> 0 \<le> f \<and> in_i64 f)
      \<and> (\<forall>op u'. tget (utxo_state e) op = Some u' \<longrightarrow> (\<exists>u. tget (utxo_state d5) op = Some u
          \<and> (u' = u \<or> (\<exists>s. u' = u\<lparr>u_spend := Some s\<rparr> \<and> s_txid s = ?txid))))"
    proof (cases "tx_IsCoinbase txn")
      case True
      with fe have "fee = None" by (simp add: transaction_fee_def)
      then show ?thesis using True m O V4 by auto
    next
      case False
      then have mk: "mark_inputs bh ?txid (tx_Inputs txn) (d5, T5) = Inr (e, T')" using m by simp
      have nn: "\<forall>o' \<in> set (tx_Outputs txn). 0 \<le> out_sat o'" using O by blast
      note F = transaction_fee_value [OF fe False rg nn]
      have M: "unspent_total e = unspent_total d5 - sum_list (map (prev_val d5) (tx_Inputs txn))
          \<and> transaction_outputs e = transaction_outputs d5
          \<and> (\<forall>op u'. tget (utxo_state e) op = Some u' \<longrightarrow> (\<exists>u. tget (utxo_state d5) op = Some u
            \<and> (u' = u \<or> (\<exists>s. u' = u\<lparr>u_spend := Some s\<rparr> \<and> s_txid s = ?txid))))"
        by (rule mark_inputs_total [OF mk r5 di]) (use old in blast)
      have "prev_val d5 inp = prev_val d inp" if "inp \<in> set (tx_Inputs txn)" for inp
        using F(2) that O out_val_kept [of d d5] by (fastforce simp: prev_val_def)
      then have "sum_list (map (prev_val d5) (tx_Inputs txn)) = sum_list (map (prev_val d) (tx_Inputs txn))"
        by (rule sum_list_map_cong_int)
      then show ?thesis using False M O V4 F(1,3) by auto
    qed
    note C = this
    then show "unspent_total e = unspent_total d + sum_list (map (coin_value g) (tx_Outputs txn))
        - (case fee of None \<Rightarrow> 0 | Some f \<Rightarrow> f + sum_list (map out_sat (tx_Outputs txn)))"
      "fee = None \<longleftrightarrow> tx_IsCoinbase txn" "fee = Some f \<Longrightarrow> 0 \<le> f \<and> in_i64 f" by blast+
    show "untouched_by e x" if "x \<noteq> ?txid" "untouched_by d x"
    proof (rule untouched_row_step [OF that(2,1)])
      fix op u' assume "tget (utxo_state e) op = Some u'"
      then obtain u where u: "tget (utxo_state d5) op = Some u"
        "u' = u \<or> (\<exists>s. u' = u\<lparr>u_spend := Some s\<rparr> \<and> s_txid s = ?txid)" using C by metis
      then show "fst op = ?txid \<and> (\<forall>s. u_spend u' = Some s \<longrightarrow> s_txid s = ?txid)
        \<or> (\<exists>u. tget (utxo_state d) op = Some u \<and> (u' = u \<or> (\<exists>s. u' = u\<lparr>u_spend := Some s\<rparr> \<and> s_txid s = ?txid)))"
        using step5 [OF u(1)] by auto
    qed
  qed
qed

section \<open>All transactions of a block\<close>

definition range_step :: "db \<Rightarrow> db \<Rightarrow> bool" where
  "range_step d e \<longleftrightarrow> (twf (transaction_outputs d) \<and> outs_range d \<longrightarrow>
    twf (transaction_outputs e) \<and> outs_range e)"

lemma range_step_same: "transaction_outputs e = transaction_outputs d \<Longrightarrow> range_step d e"
  by (simp add: range_step_def outs_range_def)

lemma same_outputs:
  "insert_transaction txn fee d = Inr (fresh, e) \<Longrightarrow> transaction_outputs e = transaction_outputs d"
  "insert_variant txn d = Inr (fresh, e) \<Longrightarrow> transaction_outputs e = transaction_outputs d"
  "insert_block_transaction bh i txn d = Inr e \<Longrightarrow> transaction_outputs e = transaction_outputs d"
  "insert_input txid inp d = Inr e \<Longrightarrow> transaction_outputs e = transaction_outputs d"
  "apply_witness_item txid wtxid vin item d = Inr e \<Longrightarrow> transaction_outputs e = transaction_outputs d"
  "apply_address op fresh addr d = Inr e \<Longrightarrow> transaction_outputs e = transaction_outputs d"
  "apply_participant op p d = Inr e \<Longrightarrow> transaction_outputs e = transaction_outputs d"
  "create_utxo bh op d = Inr e \<Longrightarrow> transaction_outputs e = transaction_outputs d"
  "markSpent prev txid vin bh d = Inr (addr, e) \<Longrightarrow> transaction_outputs e = transaction_outputs d"
  by ((clarsimp simp: insert_transaction_def insert_variant_def insert_block_transaction_def
        insert_input_def apply_witness_item_def apply_address_def apply_participant_def
        create_utxo_def markSpent_def Let_def result_simps
        split: prod.splits option.splits if_splits); fail)+

lemma insert_output_range:
  assumes "insert_output txid out d = Inr (fresh, e)"
  shows "range_step d e"
proof -
  obtain t where i: "insertOrVerifyIdempotent (output_checks (out_Index out) (out_row_of out))
      (tget (transactions d) txid \<noteq> None) (txid, out_Index out) (out_row_of out)
      (\<lambda>old. old = out_row_of out) (transaction_outputs d) = Inr (fresh, t)"
    and e: "e = d\<lparr>transaction_outputs := t\<rparr>"
    using assms by (auto simp: insert_output_def Let_def result_simps)
  from i show ?thesis
  proof (rule insertOrVerify_Inr)
    assume c: "output_checks (out_Index out) (out_row_of out)"
      "tget (transaction_outputs d) (txid, out_Index out) = None"
      "t = tinsert (txid, out_Index out) (out_row_of out) (transaction_outputs d)"
    then have "0 \<le> o_value (out_row_of out) \<and> in_i64 (o_value (out_row_of out))"
      by (simp add: output_checks_def) (simp add: out_row_of_def)
    then show ?thesis using c by (simp add: range_step_def outs_range_def e tget_tinsert twf_simps)
  next
    assume "t = transaction_outputs d"
    then show ?thesis using e by (simp add: range_step_same)
  qed
qed

interpretation range_tx: tx_steps bh range_step for bh
proof
  show "range_step d d" for d by (simp add: range_step_def)
  show "range_step d f" if "range_step d e" "range_step e f" for d e f using that by (simp add: range_step_def)
qed (erule insert_output_range range_step_same [OF same_outputs(1)] range_step_same [OF same_outputs(2)]
    range_step_same [OF same_outputs(3)] range_step_same [OF same_outputs(4)]
    range_step_same [OF same_outputs(5)] range_step_same [OF same_outputs(6)]
    range_step_same [OF same_outputs(7)] range_step_same [OF same_outputs(8)]
    range_step_same [OF same_outputs(9)])+

definition tx_sum :: "(tx_output \<Rightarrow> int) \<Rightarrow> transaction list \<Rightarrow> int" where
  "tx_sum f txs = sum_list (map (\<lambda>txn. sum_list (map f (tx_Outputs txn))) txs)"

lemma tx_sum_simps [simp]:
  "tx_sum f [] = 0" "tx_sum f (t # ts) = sum_list (map f (tx_Outputs t)) + tx_sum f ts"
  by (simp_all add: tx_sum_def)

definition tx_step :: "string \<Rightarrow> bool \<Rightarrow> nat \<times> transaction \<Rightarrow> int \<times> db \<times> string list \<Rightarrow>
    store_error + int \<times> db \<times> string list" where
  "tx_step bh g = (\<lambda>(i, txn) (feeTotal, d, touched).
      rbind (applyTransaction bh g i txn (d, touched)) (\<lambda>(fee, d', touched').
      case fee of
        None \<Rightarrow> Inr (feeTotal, d', touched')
      | Some f \<Rightarrow>
        rbind (of_option ErrStoreAmountOverflow (addChecked feeTotal f)) (\<lambda>s.
        Inr (s, d', touched'))))"

lemma tx_loop_total:
  assumes "fold_res (tx_step bh g) (enumerate n txs) (F0, d, T0) = Inr (F, e, T)"
    and "refs_ok d" "outs_range d" "0 \<le> F0" "in_i64 F0"
    and "distinct (map tx_TxID txs)" "\<forall>txn \<in> set txs. shape_ok txn \<and> untouched_by d (tx_TxID txn)"
  shows "unspent_total e + F = unspent_total d + F0 + tx_sum (coin_value g) txs
      - tx_sum out_sat (filter (\<lambda>txn. \<not> tx_IsCoinbase txn) txs)
    \<and> 0 \<le> F \<and> in_i64 F"
  using assms
proof (induction txs arbitrary: n F0 d T0)
  case Nil
  then show ?case by simp
next
  case (Cons x txs)
  obtain fee d1 T1 F1 where a: "applyTransaction bh g n x (d, T0) = Inr (fee, d1, T1)"
    and F1: "F1 = (case fee of None \<Rightarrow> F0 | Some f \<Rightarrow> the (addChecked F0 f))"
      "fee = None \<or> addChecked F0 (the fee) = Some F1"
    and f: "fold_res (tx_step bh g) (enumerate (Suc n) txs) (F1, d1, T1) = Inr (F, e, T)"
    using Cons.prems(1)
    by (auto simp: tx_step_def [of bh g] result_simps of_option_def split: option.splits) 
  have sh: "shape_ok x" "untouched_by d (tx_TxID x)" using Cons.prems(7) by auto
  note t = applyTransaction_total [OF a Cons.prems(2,3) sh(2,1)]
  have r1: "refs_ok d1" using applyTransaction_tracked [OF a] Cons.prems(2)
    by (simp add: tracked_def moves_def)
  have rg1: "outs_range d1" using range_tx.applyTransaction [OF a] Cons.prems(2,3)
    by (simp add: range_step_def refs_ok_twf)
  have F1': "F1 = F0 + (case fee of None \<Rightarrow> 0 | Some f \<Rightarrow> f) \<and> 0 \<le> F1 \<and> in_i64 F1"
  proof (cases fee)
    case None
    then show ?thesis using F1 Cons.prems(4,5) by simp
  next
    case (Some f')
    then have "0 \<le> f'" "in_i64 f'" using t(3) by simp_all
    moreover have "addChecked F0 f' = Some F1" using F1(2) Some by simp
    ultimately show ?thesis using addChecked_SomeD [of F0 f' F1] Cons.prems(4,5) Some by auto
  qed
  have un1: "\<forall>txn \<in> set txs. shape_ok txn \<and> untouched_by d1 (tx_TxID txn)"
  proof
    fix txn assume m: "txn \<in> set txs"
    have "tx_TxID x \<notin> tx_TxID ` set txs" using Cons.prems(6) by simp
    then have "tx_TxID txn \<noteq> tx_TxID x" using m by (metis image_eqI)
    then show "shape_ok txn \<and> untouched_by d1 (tx_TxID txn)" using t(4) Cons.prems(7) m by simp
  qed
  have "unspent_total e + F = unspent_total d1 + F1 + tx_sum (coin_value g) txs
      - tx_sum out_sat (filter (\<lambda>txn. \<not> tx_IsCoinbase txn) txs) \<and> 0 \<le> F \<and> in_i64 F"
    by (rule Cons.IH [OF f r1 rg1]) (use F1' un1 Cons.prems(6) in auto)
  then show ?case using t(1,2) F1' by (cases fee) auto
qed

lemma apply_transactions_total:
  assumes "apply_transactions bh g (cb # txs) d = Inr (F, e, T)" "refs_ok d" "outs_range d"
    "distinct (map tx_TxID (cb # txs))"
    "\<forall>txn \<in> set (cb # txs). shape_ok txn \<and> untouched_by d (tx_TxID txn)"
    "tx_IsCoinbase cb" "\<forall>txn \<in> set txs. \<not> tx_IsCoinbase txn"
  shows "unspent_total e + F = unspent_total d + tx_sum (coin_value g) (cb # txs) - tx_sum out_sat txs"
    "0 \<le> F" "in_i64 F"
proof -
  have f: "fold_res (tx_step bh g) (enumerate 0 (cb # txs)) (0, d, []) = Inr (F, e, T)"
    using assms(1) unfolding apply_transactions_def tx_step_def .
  have "filter (\<lambda>txn. \<not> tx_IsCoinbase txn) (cb # txs) = txs" using assms(6,7) by simp
  with tx_loop_total [OF f assms(2,3) _ _ assms(4,5)]
  show "unspent_total e + F = unspent_total d + tx_sum (coin_value g) (cb # txs) - tx_sum out_sat txs"
    "0 \<le> F" "in_i64 F" by (simp_all add: i64_defs)
qed

section \<open>Coinbase total and excluded value\<close>

lemma sumOutputValues_sum:
  "sumOutputValues outs = Some s \<Longrightarrow> s = sum_list (map out_sat outs) \<and> in_i64 s"
  using sum_checked_sum [of ErrStoreAmountOverflow "map (\<lambda>o'. Satoshis (out_Value o')) outs" 0 s]
  by (auto simp: sumOutputValues_def sum_checked_def Satoshis_def split: sum.splits)

definition excluded_value :: "bool \<Rightarrow> tx_output \<Rightarrow> int" where
  "excluded_value g o' = (if output_excluded g o' then out_sat o' else 0)"

lemma coin_plus_excluded: "tx_sum (coin_value g) txs + tx_sum (excluded_value g) txs = tx_sum out_sat txs"
proof -
  have "sum_list (map (coin_value g) xs) + sum_list (map (excluded_value g) xs) = sum_list (map out_sat xs)" for xs
    by (induction xs) (auto simp: coin_value_def excluded_value_def)
  then show ?thesis by (induction txs) (simp_all add: algebra_simps flip: coin_value_def)
qed

lemma excluded_outputs_sum:
  assumes "fold_res (\<lambda>out tot. if \<not> output_excluded g out then Inr tot
      else of_option ErrStoreAmountOverflow (addChecked tot (Satoshis (out_Value out)))) outs s0 = Inr s"
    "in_i64 s0"
  shows "s = s0 + sum_list (map (excluded_value g) outs) \<and> in_i64 s"
  using assms
proof (induction outs arbitrary: s0)
  case (Cons x outs)
  show ?case
  proof (cases "output_excluded g x")
    case False
    then show ?thesis using Cons by (simp add: excluded_value_def)
  next
    case True
    then obtain s1 where s1: "addChecked s0 (out_sat x) = Some s1"
      and f: "fold_res (\<lambda>out tot. if \<not> output_excluded g out then Inr tot
      else of_option ErrStoreAmountOverflow (addChecked tot (Satoshis (out_Value out)))) outs s1 = Inr s"
      using Cons.prems(1) by (auto simp: result_simps of_option_def Satoshis_def split: option.splits)
    have s1': "s1 = s0 + out_sat x" "in_i64 s1" using addChecked_SomeD [OF s1] Cons.prems(2) by auto
    have IH: "s = s1 + sum_list (map (excluded_value g) outs) \<and> in_i64 s" by (rule Cons.IH [OF f s1'(2)])
    from conjunct1 [OF IH] s1'(1) True have "s = s0 + sum_list (map (excluded_value g) (x # outs))"
      by (simp add: excluded_value_def [of _ x])
    with IH show ?thesis by blast
  qed
qed simp

lemma localExcluded_sum:
  assumes "localExcludedOutputValue b = Inr s"
  shows "s = tx_sum (excluded_value (blk_Height b = 0)) (blk_Transactions b) \<and> in_i64 s"
proof -
  let ?g = "blk_Height b = 0"
  let ?f = "\<lambda>txn tot. fold_res (\<lambda>out tot. if \<not> output_excluded ?g out then Inr tot
      else of_option ErrStoreAmountOverflow (addChecked tot (Satoshis (out_Value out)))) (tx_Outputs txn) tot"
  have "s = s0 + tx_sum (excluded_value ?g) txs \<and> in_i64 s"
    if "fold_res ?f txs s0 = Inr s" "in_i64 s0" for txs s0
    using that
  proof (induction txs arbitrary: s0)
    case (Cons t txs)
    obtain s1 where s1: "?f t s0 = Inr s1" and f: "fold_res ?f txs s1 = Inr s"
      using Cons.prems(1) by (auto simp: result_simps)
    have s1': "s1 = s0 + sum_list (map (excluded_value ?g) (tx_Outputs t)) \<and> in_i64 s1"
      by (rule excluded_outputs_sum [OF s1 Cons.prems(2)])
    have IH: "s = s1 + tx_sum (excluded_value ?g) txs \<and> in_i64 s"
      by (rule Cons.IH [OF f]) (use s1' in blast)
    from conjunct1 [OF IH] conjunct1 [OF s1'] have "s = s0 + tx_sum (excluded_value ?g) (t # txs)" by simp
    with IH show ?case by blast
  qed simp
  from this [of "blk_Transactions b" 0] assms show ?thesis
    by (simp add: localExcludedOutputValue_def i64_defs)
qed

end
