(* ===== verification/StoreRollup.thy ===== *)
theory StoreRollup
  imports StoreSupply StoreRoundTrip
begin

text \<open>
  The invariant that ties the rollup rows to the coins, and the supply identity of every reachable
  database.
\<close>

declare split_paired_All [simp del] split_paired_Ex [simp del]

section \<open>The value of the coins at a height\<close>

definition alive_at :: "int \<Rightarrow> utxo_row \<Rightarrow> bool" where
  "alive_at h u \<longleftrightarrow> u_height u \<le> h \<and> (case u_spend u of None \<Rightarrow> True | Some s \<Rightarrow> h < s_height s)"

definition worth :: "db \<Rightarrow> int \<Rightarrow> outpoint \<Rightarrow> utxo_row option \<Rightarrow> int" where
  "worth d h op x = (case x of None \<Rightarrow> 0 | Some u \<Rightarrow> if alive_at h u then out_val d op else 0)"

definition value_at :: "db \<Rightarrow> int \<Rightarrow> int" where
  "value_at d h = tsum (\<lambda>op u. worth d h op (Some u)) (utxo_state d)"

lemma worth_None [simp]: "worth d h op None = 0"
  by (simp add: worth_def)

lemma tsum_agree:
  assumes "twf t" "twf t'"
    and "\<And>k. (case tget t k of None \<Rightarrow> 0 | Some v \<Rightarrow> f k v) = (case tget t' k of None \<Rightarrow> 0 | Some v \<Rightarrow> g k v)"
  shows "tsum f t = tsum g t'"
proof -
  let ?U = "dom (tget t) \<union> dom (tget t')"
  have fin: "finite ?U" by (simp add: tab.finite_dom)
  have "tsum f t = (\<Sum>k \<in> ?U. case tget t k of None \<Rightarrow> 0 | Some v \<Rightarrow> f k v)"
    unfolding tab.total_dom [OF assms(1)] using fin
    by (intro sum.mono_neutral_cong_left) (auto split: option.splits)
  also have "\<dots> = (\<Sum>k \<in> ?U. case tget t' k of None \<Rightarrow> 0 | Some v \<Rightarrow> g k v)"
    by (rule sum.cong) (use assms(3) in auto)
  also have "\<dots> = tsum g t'"
    unfolding tab.total_dom [OF assms(2)] using fin
    by (intro sum.mono_neutral_cong_right) (auto split: option.splits)
  finally show ?thesis .
qed

lemma value_at_agree:
  assumes "twf (utxo_state d)" "twf (utxo_state e)"
    "\<And>op. worth e h op (tget (utxo_state e) op) = worth d h op (tget (utxo_state d) op)"
  shows "value_at e h = value_at d h"
  unfolding value_at_def
proof (rule tsum_agree [OF assms(2,1)])
  fix op
  show "(case tget (utxo_state e) op of None \<Rightarrow> 0 | Some v \<Rightarrow> worth e h op (Some v))
    = (case tget (utxo_state d) op of None \<Rightarrow> 0 | Some v \<Rightarrow> worth d h op (Some v))"
    using assms(3) [of op] by (cases "tget (utxo_state e) op"; cases "tget (utxo_state d) op") simp_all
qed

lemma value_at_top:
  assumes "twf (utxo_state d)"
    and "\<And>op u. tget (utxo_state d) op = Some u \<Longrightarrow>
      u_height u \<le> h \<and> (\<forall>s. u_spend u = Some s \<longrightarrow> s_height s \<le> h)"
  shows "value_at d h = unspent_total d"
  unfolding value_at_def unspent_total_def
proof (rule tab.total_cong [OF assms(1)])
  fix op u assume "tget (utxo_state d) op = Some u"
  then show "worth d h op (Some u) = (if u_spend u = None then out_val d op else 0)"
    using assms(2) by (fastforce simp: worth_def alive_at_def split: option.split)
qed

section \<open>Rollup rows\<close>

definition row_ok :: "rollup_row \<Rightarrow> bool" where
  "row_ok r \<longleftrightarrow> in_i64 (r_cum_fee r) \<and> in_i64 (r_cum_coinbase r) \<and> in_i64 (r_cum_excluded r)
    \<and> r_cum_utxo r + r_cum_fee r + r_cum_excluded r = r_cum_coinbase r"

lemma zero_row_ok: "row_ok zero_rollup" "r_cum_utxo zero_rollup = 0"
  by (simp_all add: row_ok_def zero_rollup_def)

lemma next_rollup_value:
  assumes "next_rollup p facts ex = Inr r" "row_ok p"
    and "in_i64 (FeeSatoshis facts)" "in_i64 (CoinbaseOutputSatoshis facts)" "in_i64 ex"
  shows "row_ok r" "r_cum_utxo r
    = r_cum_utxo p + CoinbaseOutputSatoshis facts - FeeSatoshis facts - ex"
proof -
  obtain cf cc ce x u where a: "addChecked (r_cum_fee p) (FeeSatoshis facts) = Some cf"
      "addChecked (r_cum_coinbase p) (CoinbaseOutputSatoshis facts) = Some cc"
      "addChecked (r_cum_excluded p) ex = Some ce"
    and s: "subChecked cc cf = Some x" "subChecked x ce = Some u"
    and r: "r_cum_fee r = cf" "r_cum_coinbase r = cc" "r_cum_excluded r = ce" "r_cum_utxo r = u"
    using assms(1)
    by (auto simp: next_rollup_def Let_def result_simps of_option_def split: option.splits if_splits)
  have p: "in_i64 (r_cum_fee p)" "in_i64 (r_cum_coinbase p)" "in_i64 (r_cum_excluded p)"
    using assms(2) by (simp_all add: row_ok_def)
  have e: "cf = r_cum_fee p + FeeSatoshis facts" "in_i64 cf"
      "cc = r_cum_coinbase p + CoinbaseOutputSatoshis facts" "in_i64 cc"
      "ce = r_cum_excluded p + ex" "in_i64 ce"
    using addChecked_SomeD [OF a(1) p(1) assms(3)] addChecked_SomeD [OF a(2) p(2) assms(4)]
      addChecked_SomeD [OF a(3) p(3) assms(5)] by simp_all
  have x: "x = cc - cf" "in_i64 x" using subChecked_SomeD [OF s(1) e(4,2)] by simp_all
  have u: "u = x - ce" using subChecked_SomeD [OF s(2) x(2) e(6)] by simp
  have "u + cf + ce = cc" using x(1) u by simp
  then show "row_ok r" using e(2,4,6) by (simp add: row_ok_def r)
  have "r_cum_utxo p + r_cum_fee p + r_cum_excluded p = r_cum_coinbase p"
    using assms(2) by (simp add: row_ok_def)
  then show "r_cum_utxo r = r_cum_utxo p + CoinbaseOutputSatoshis facts - FeeSatoshis facts - ex"
    using e(1,3,5) \<open>u + cf + ce = cc\<close> unfolding r by linarith
qed

lemma applySupplyRollup_cases:
  assumes "applySupplyRollup b cp facts d = Inr e" "twf (block_supply_rollup d)"
  obtains (none) "rollup_parent b cp d = Inr None" "e = d"
    | (row) p ex r t where "rollup_parent b cp d = Inr (Some p)" "localExcludedOutputValue b = Inr ex"
      "next_rollup p facts ex = Inr r" "e = d\<lparr>block_supply_rollup := t\<rparr>"
      "tget t = (tget (block_supply_rollup d))(blk_Hash b \<mapsto> r)" "twf t"
      "tget (blocks d) (blk_Hash b) \<noteq> None \<or> tget (block_supply_rollup d) (blk_Hash b) = Some r"
proof -
  obtain x where x: "rollup_parent b cp d = Inr x"
    using assms(1) by (auto simp: applySupplyRollup_def result_simps)
  show thesis
  proof (cases x)
    case None
    have "e = d" using assms(1) x None by (simp add: applySupplyRollup_def)
    then show ?thesis using x None by (intro none) simp_all
  next
    case (Some p)
    then obtain ex r f t where y: "localExcludedOutputValue b = Inr ex" "next_rollup p facts ex = Inr r"
      "e = d\<lparr>block_supply_rollup := t\<rparr>"
      and i: "insertOrVerifyIdempotent (rollup_checks r) (tget (blocks d) (blk_Hash b) \<noteq> None)
        (blk_Hash b) r (\<lambda>old. old = r) (block_supply_rollup d) = Inr (f, t)"
      using assms(1) x by (auto simp: applySupplyRollup_def result_simps)
    from i have "tget t = (tget (block_supply_rollup d))(blk_Hash b \<mapsto> r) \<and> twf t
      \<and> (tget (blocks d) (blk_Hash b) \<noteq> None \<or> tget (block_supply_rollup d) (blk_Hash b) = Some r)"
      by (rule insertOrVerify_Inr) (use assms(2) in \<open>auto simp: fun_eq_iff tget_tinsert twf_simps\<close>)
    then show ?thesis using row x Some y by blast
  qed
qed

section \<open>The invariant\<close>

definition lineage_ok :: "db \<Rightarrow> bool" where
  "lineage_ok d \<longleftrightarrow> (\<forall>k row. tget (block_supply_rollup d) k = Some row \<longrightarrow> row_ok row
    \<and> (\<exists>r. tget (blocks d) k = Some r \<and> (b_height r = 0
        \<or> (\<exists>p. b_prev r = Some p \<and> tget (block_supply_rollup d) p \<noteq> None))))
    \<and> (snd (sync_state d) = None \<longrightarrow> (\<forall>k. tget (block_supply_rollup d) k = None))"

definition rollup_exact :: "db \<Rightarrow> bool" where
  "rollup_exact d \<longleftrightarrow>
    (\<forall>k r row. canonical d k r \<longrightarrow> tget (block_supply_rollup d) k = Some row \<longrightarrow>
       value_at d (b_height r) = r_cum_utxo row)
    \<and> ((\<exists>k r. canonical d k r \<and> b_height r = 0) \<longrightarrow>
       (\<forall>k r. canonical d k r \<longrightarrow> tget (block_supply_rollup d) k \<noteq> None))"

definition supply_inv :: "db \<Rightarrow> bool" where
  "supply_inv d \<longleftrightarrow> utxo_canon d \<and> outs_range d \<and> lineage_ok d \<and> rollup_exact d"

text \<open>
  What is asked of a block: it is no replay of the tip, its transaction ids are distinct, and none
  of its transactions has created or spent a coin before.
\<close>

definition fresh_block :: "operation \<Rightarrow> db \<Rightarrow> bool" where
  "fresh_block op d \<longleftrightarrow> (case op of
     Rollback h \<Rightarrow> True
   | Apply b \<Rightarrow> Tip d \<noteq> (blk_Height b, Some (blk_Hash b))
       \<and> distinct (map tx_TxID (blk_Transactions b))
       \<and> (\<forall>x \<in> tx_TxID ` set (blk_Transactions b). untouched_by d x))"

lemma supply_inv_wf:
  assumes "supply_inv d"
  shows "db_wf d" "refs_ok d" "twf (utxo_state d)" "twf (block_supply_rollup d)" "twf (blocks d)"
    "anchored d" "utxo_canon d" "outs_range d" "twf (transaction_outputs d)"
  using assms by (simp_all add: supply_inv_def utxo_canon_def refs_ok_def db_wf_def)

section \<open>Applying a block\<close>

lemma validateBlockShape_txs:
  assumes "validateBlockShape b = Inr u"
  obtains cb txs where "blk_Transactions b = cb # txs" "tx_IsCoinbase cb"
    "\<forall>txn \<in> set txs. \<not> tx_IsCoinbase txn" "\<forall>txn \<in> set (cb # txs). shape_ok txn"
proof -
  have f: "for_each check_tx_shape (enumerate 0 (blk_Transactions b)) = Inr ()"
    and n: "blk_Transactions b \<noteq> []"
    using assms by (auto simp: validateBlockShape_def result_simps)
  then obtain cb txs where b: "blk_Transactions b = cb # txs" by (cases "blk_Transactions b") auto
  have c: "shape_ok (blk_Transactions b ! i) \<and> (tx_IsCoinbase (blk_Transactions b ! i) \<longleftrightarrow> i = 0)"
    if "i < length (blk_Transactions b)" for i
    using for_each_all [OF f in_enumerate [OF that]] check_tx_shape_ok by blast
  show thesis
  proof
    show "blk_Transactions b = cb # txs" by (rule b)
    show "tx_IsCoinbase cb" using c [of 0] b by simp
    show "\<forall>txn \<in> set txs. \<not> tx_IsCoinbase txn"
    proof
      fix txn assume "txn \<in> set txs"
      then obtain i where "i < length txs" "txs ! i = txn" by (auto simp: in_set_conv_nth)
      then show "\<not> tx_IsCoinbase txn" using c [of "Suc i"] b by simp
    qed
    show "\<forall>txn \<in> set (cb # txs). shape_ok txn"
      using c unfolding b [symmetric] by (metis in_set_conv_nth)
  qed
qed

lemma ComputeBlockFacts_fields:
  "ComputeBlockFacts sch h ht fees cb = Inr facts \<Longrightarrow>
    FeeSatoshis facts = fees \<and> CoinbaseOutputSatoshis facts = cb"
  by (auto simp: ComputeBlockFacts_def Let_def result_simps split: if_splits option.splits)

lemma ApplyBlock_totals:
  assumes inv: "supply_inv d" and ap: "ApplyBlock s b d = Inr e"
    and dist: "distinct (map tx_TxID (blk_Transactions b))"
    and un: "\<forall>x \<in> tx_TxID ` set (blk_Transactions b). untouched_by d x"
  obtains facts d4 d5 where "applySupplyRollup b (sync_state d) facts d4 = Inr d5"
    "block_supply_rollup d4 = block_supply_rollup d" "blocks d4 = blocks e"
    "block_supply_rollup e = block_supply_rollup d5"
    "in_i64 (FeeSatoshis facts)" "in_i64 (CoinbaseOutputSatoshis facts)"
    "\<And>ex. localExcludedOutputValue b = Inr ex \<Longrightarrow> in_i64 ex \<and> unspent_total e
      = unspent_total d + CoinbaseOutputSatoshis facts - FeeSatoshis facts - ex"
    "outs_range e"
proof -
  note wf = supply_inv_wf [OF inv]
  let ?g = "blk_Height b = 0"
  obtain f1 d1 F d2 T d3 facts d4 d5 where
    v: "validateBlockShape b = Inr ()"
    and h: "applyBlockHeader b d = Inr (f1, d1)"
    and t: "apply_transactions (blk_Hash b) ?g (blk_Transactions b) d1 = Inr (F, d2, T)"
    and u: "update_touched s T (blk_Hash b) d2 = Inr d3"
    and a: "applyBlockAccounting (accountingSchedule s) b F d3 = Inr (facts, d4)"
    and r: "applySupplyRollup b (sync_state d) facts d4 = Inr d5"
    and y: "set_sync_state (blk_Hash b) d5 = Inr e"
    using ap by (rule ApplyBlockE)
  obtain cb txs where txs: "blk_Transactions b = cb # txs" "tx_IsCoinbase cb"
    "\<forall>txn \<in> set txs. \<not> tx_IsCoinbase txn" "\<forall>txn \<in> set (cb # txs). shape_ok txn"
    using validateBlockShape_txs [OF v] by blast
  obtain tb where d1: "d1 = d\<lparr>blocks := tb\<rparr>" using applyBlockHeader_effect(1) [OF h wf(5)] by blast
  have r1: "refs_ok d1" using applyBlockHeader_moves [OF h] wf(2) by (simp add: moves_def)
  have rg1: "outs_range d1" using wf(8) by (simp add: outs_range_def d1)
  have un1: "\<forall>txn \<in> set (cb # txs). shape_ok txn \<and> untouched_by d1 (tx_TxID txn)"
    using txs(1,4) un by (auto simp: untouched_by_def d1)
  have V1: "unspent_total d1 = unspent_total d"
    by (rule unspent_total_outputs [OF wf(2)]) (simp_all add: d1)
  have A: "unspent_total d2 + F = unspent_total d1 + tx_sum (coin_value ?g) (cb # txs) - tx_sum out_sat txs"
    "0 \<le> F" "in_i64 F"
    using apply_transactions_total [OF t [unfolded txs(1)] r1 rg1 dist [unfolded txs(1)] un1 txs(2,3)]
    by simp_all
  have rg2: "outs_range d2"
    using range_tx.apply_transactions [OF t] rg1 refs_ok_twf(3) [OF r1] by (simp add: range_step_def)
  have side2: "blocks d2 = blocks d1" "block_supply_rollup d2 = block_supply_rollup d1"
    using apply_transactions_side [OF t] by (simp_all add: block_side_def)
  note src = update_touched_source [OF u]
  obtain ta where d4: "d4 = d3\<lparr>block_accounting := ta\<rparr>" using applyBlockAccounting_source [OF a] by blast
  obtain tr where d5: "d5 = d4\<lparr>block_supply_rollup := tr\<rparr>" using applySupplyRollup_source [OF r] by blast
  obtain cp where e: "e = d5\<lparr>sync_state := cp\<rparr>" using y by (auto simp: set_sync_state_def result_simps)
  have tabs: "utxo_state e = utxo_state d2" "transaction_outputs e = transaction_outputs d2"
    using src(1) by (simp_all add: source_side_def e d5 d4)
  have r2: "refs_ok d2" using apply_transactions_tracked [OF t] r1 by (simp add: tracked_def moves_def)
  have Ve: "unspent_total e = unspent_total d2"
    by (rule unspent_total_outputs [OF r2]) (simp_all add: tabs)
  obtain c where c: "sumOutputValues (tx_Outputs cb) = Some c"
    and facts: "ComputeBlockFacts (accountingSchedule s) (blk_Hash b) (blk_Height b) F c = Inr facts"
    using a txs(1)
    by (auto simp: applyBlockAccounting_def result_simps of_option_def map_err_def
        split: option.splits sum.splits)
  note cs = sumOutputValues_sum [OF c] and ff = ComputeBlockFacts_fields [OF facts]
  show thesis
  proof
    show "applySupplyRollup b (sync_state d) facts d4 = Inr d5" by (rule r)
    show "block_supply_rollup d4 = block_supply_rollup d" using src(3) side2(2) by (simp add: d4 d1)
    show "blocks d4 = blocks e" by (simp add: e d5)
    show "block_supply_rollup e = block_supply_rollup d5" by (simp add: e)
    have "FeeSatoshis facts = F" "CoinbaseOutputSatoshis facts = c" using ff by blast+
    then show "in_i64 (FeeSatoshis facts)" "in_i64 (CoinbaseOutputSatoshis facts)"
      using conjunct2 [OF cs] A(3) by metis+
    show "in_i64 ex \<and> unspent_total e
      = unspent_total d + CoinbaseOutputSatoshis facts - FeeSatoshis facts - ex"
      if "localExcludedOutputValue b = Inr ex" for ex
    proof -
      note lx = localExcluded_sum [OF that]
      have x: "ex = tx_sum (excluded_value ?g) (cb # txs)"
        using conjunct1 [OF lx] unfolding txs(1) .
      have "tx_sum (coin_value ?g) (cb # txs) + tx_sum (excluded_value ?g) (cb # txs)
        = tx_sum out_sat (cb # txs)" by (rule coin_plus_excluded)
      moreover have "tx_sum out_sat (cb # txs) = c + tx_sum out_sat txs" using cs by simp
      ultimately have "unspent_total e
        = unspent_total d + CoinbaseOutputSatoshis facts - FeeSatoshis facts - ex"
        using A(1) V1 Ve x ff by linarith
      with conjunct2 [OF lx] show ?thesis by blast
    qed
    show "outs_range e" using rg2 by (simp add: outs_range_def tabs)
  qed
qed

lemma worth_before:
  assumes "row_ext e bh x y" "\<And>h. at_block e bh h \<longleftrightarrow> h = ht" "k < ht"
    and "x \<noteq> None \<Longrightarrow> out_val e op = out_val d op"
  shows "worth e k op y = worth d k op x"
  using assms
  by (cases x; cases y)
    (auto simp: row_ext_def born_in_def spend_by_def worth_def alive_at_def split: option.splits)

lemma ApplyBlock_value_at:
  assumes "supply_inv d" "ApplyBlock s b d = Inr e" "k < blk_Height b"
  shows "value_at e k = value_at d k"
proof (rule value_at_agree)
  note wf = supply_inv_wf [OF assms(1)]
  have keep: "keeps d e" by (rule immutable.ApplyBlock [OF assms(2)])
  show "twf (utxo_state d)" by (rule wf(3))
  show "twf (utxo_state e)" using keep wf(1) by (simp add: keeps_def db_wf_def)
  fix op
  show "worth e k op (tget (utxo_state e) op) = worth d k op (tget (utxo_state d) op)"
  proof (rule worth_before [OF ApplyBlock_utxo(1) [OF assms(2) wf(1)] ApplyBlock_utxo(2) [OF assms(2) wf(1)] assms(3)])
    assume "tget (utxo_state d) op \<noteq> None"
    then have "tget (transaction_outputs d) op \<noteq> None" using refs_okD(2) [OF wf(2)] by blast
    then show "out_val e op = out_val d op" by (rule out_val_kept [OF keeps_outputs [OF keep wf(2)]])
  qed
qed

lemma coin_heights:
  assumes "utxo_canon d" "\<And>k r. canonical d k r \<Longrightarrow> b_height r \<le> h" "tget (utxo_state d) op = Some u"
  shows "u_height u \<le> h \<and> (\<forall>s. u_spend u = Some s \<longrightarrow> s_height s \<le> h)"
  using utxo_canonD [OF assms(1,3)] assms(2) by (fastforce simp: coin_ok_def block_at_def)

text \<open>What the parent's row says: the value of the coins before the block.\<close>

lemma parent_value:
  assumes inv: "supply_inv d" and ap: "ApplyBlock s b d = Inr e"
    and nr: "sync_state e \<noteq> sync_state d"
    and rp: "rollup_parent b (sync_state d) d4 = Inr (Some p)"
    and d4: "block_supply_rollup d4 = block_supply_rollup d"
  shows "row_ok p \<and> unspent_total d = r_cum_utxo p
    \<and> (blk_Height b = 0 \<or> blk_PreviousHash b \<noteq> []
        \<and> tget (block_supply_rollup d) (blk_PreviousHash b) = Some p)"
proof (cases "snd (sync_state d)")
  case None
  note wf = supply_inv_wf [OF inv]
  have nocan: "\<not> canonical d k r" for k r
    using wf(6) None by (auto simp: anchored_def chain_inv_def)
  have "tget (utxo_state d) op = None" for op
    using utxo_canonD [OF wf(7), of op] nocan by (cases "tget (utxo_state d) op") (auto simp: coin_ok_def block_at_def)
  then have "unspent_total d = 0"
    unfolding unspent_total_def by (intro tab.total_zero [OF wf(3)]) simp
  moreover have "tget (block_supply_rollup d) (blk_PreviousHash b) = None"
    using inv None by (simp add: supply_inv_def lineage_ok_def)
  ultimately show ?thesis
    using rp d4 None zero_row_ok by (simp add: rollup_parent_def split: if_splits)
next
  case (Some tip)
  note wf = supply_inv_wf [OF inv]
  have sd: "sync_state d = (fst (sync_state d), Some tip)" using Some by (metis prod.collapse)
  let ?h = "fst (sync_state d)"
  obtain base where path: "chain_path d base ?h tip"
    using wf(6) Some by (auto simp: anchored_def chain_inv_def)
  have hb: "blk_Height b = ?h + 1" by (rule append_facts(1) [OF wf(6) sd ap nr])
  have "0 \<le> ?h" using chain_pathD(1,2) [OF path] by simp
  have "blk_Hash b = tip \<and> blk_Height b = ?h \<or> blk_Height b = ?h + 1 \<and> blk_PreviousHash b = tip"
    by (rule continuity_cases)
      (use ApplyBlock_chain(7) [OF ap wf(5)] sd chain_pathD(3) [OF path] \<open>0 \<le> ?h\<close> hb in simp_all)
  then have prev: "blk_PreviousHash b = tip" using hb by simp
  have p: "tget (block_supply_rollup d) tip = Some p"
    using rp d4 Some hb \<open>0 \<le> ?h\<close> prev by (auto simp: rollup_parent_def split: if_splits option.splits)
  obtain a where a: "canonical d tip a" "b_height a = ?h" using chain_pathD(4) [OF path] by blast
  have "value_at d ?h = r_cum_utxo p"
    using inv a p unfolding supply_inv_def rollup_exact_def by metis
  moreover have "value_at d ?h = unspent_total d"
    by (rule value_at_top [OF wf(3)]) (use coin_heights [OF wf(7)] chain_pathD(7) [OF path] in blast)
  moreover have "row_ok p" using inv p by (simp add: supply_inv_def lineage_ok_def)
  moreover have "tip \<noteq> []" using chain_pathD(5) [OF path a(1)] by (auto simp: is_hash64_def)
  ultimately show ?thesis using p prev by simp
qed

text \<open>What the block's own row is, if it has one.\<close>

lemma ApplyBlock_row:
  assumes inv: "supply_inv d" and ap: "ApplyBlock s b d = Inr e"
    and nr: "sync_state e \<noteq> sync_state d"
    and dist: "distinct (map tx_TxID (blk_Transactions b))"
    and un: "\<forall>x \<in> tx_TxID ` set (blk_Transactions b). untouched_by d x"
  shows "outs_range e" "lineage_ok e"
    "k \<noteq> blk_Hash b \<Longrightarrow> tget (block_supply_rollup e) k = tget (block_supply_rollup d) k"
    "tget (block_supply_rollup e) (blk_Hash b) = Some row \<Longrightarrow> r_cum_utxo row = unspent_total e"
    "blk_Height b = 0 \<or> tget (block_supply_rollup d) (blk_PreviousHash b) \<noteq> None \<Longrightarrow>
      tget (block_supply_rollup e) (blk_Hash b) \<noteq> None"
proof -
  note wf = supply_inv_wf [OF inv] and chain = ApplyBlock_chain [OF ap supply_inv_wf(5) [OF inv]]
  obtain facts d4 d5 where r: "applySupplyRollup b (sync_state d) facts d4 = Inr d5"
    and tabs: "block_supply_rollup d4 = block_supply_rollup d" "blocks d4 = blocks e"
      "block_supply_rollup e = block_supply_rollup d5"
    and rng: "in_i64 (FeeSatoshis facts)" "in_i64 (CoinbaseOutputSatoshis facts)"
    and V: "\<And>ex. localExcludedOutputValue b = Inr ex \<Longrightarrow> in_i64 ex \<and> unspent_total e
      = unspent_total d + CoinbaseOutputSatoshis facts - FeeSatoshis facts - ex"
    and "outs_range e"
    using ApplyBlock_totals [OF inv ap dist un] by blast
  then show "outs_range e" by simp
  obtain rb where rb: "tget (blocks e) (blk_Hash b) = Some rb" "same_block (block_row_of b) rb"
    using chain(2) by (auto simp: canonical_def)
  have w4: "twf (block_supply_rollup d4)" using wf(4) tabs(1) by simp
  have L: "lineage_ok d" using inv by (simp add: supply_inv_def)
  have old: "row_ok row \<and> (\<exists>q. tget (blocks e) k = Some q \<and> (b_height q = 0
      \<or> (\<exists>p. b_prev q = Some p \<and> tget (block_supply_rollup e) p \<noteq> None)))"
    if k: "tget (block_supply_rollup d) k = Some row"
      and mono: "\<And>p. tget (block_supply_rollup d) p \<noteq> None \<Longrightarrow> tget (block_supply_rollup e) p \<noteq> None"
    for k row
  proof -
    obtain q where q: "row_ok row" "tget (blocks d) k = Some q"
      "b_height q = 0 \<or> (\<exists>p. b_prev q = Some p \<and> tget (block_supply_rollup d) p \<noteq> None)"
      using L k unfolding lineage_ok_def by metis
    obtain q' where q': "tget (blocks e) k = Some q'" "same_modulo_canonical q q'"
      using immutable.ApplyBlock [OF ap] wf(1) q(2) by (auto simp: keeps_def rows_kept_def)
    then have "b_height q' = b_height q" "b_prev q' = b_prev q"
      by (auto simp: same_modulo_canonical_def) (metis block_row.ext_inject block_row.surjective block_row.update_convs(11))+
    then show ?thesis using q q'(1) mono by auto
  qed
  have sync: "snd (sync_state e) \<noteq> None" using chain(5) by simp
  from r w4 have "lineage_ok e \<and> (k \<noteq> blk_Hash b \<longrightarrow> tget (block_supply_rollup e) k = tget (block_supply_rollup d) k)
      \<and> (tget (block_supply_rollup e) (blk_Hash b) = Some row \<longrightarrow> r_cum_utxo row = unspent_total e)
      \<and> (blk_Height b = 0 \<or> tget (block_supply_rollup d) (blk_PreviousHash b) \<noteq> None \<longrightarrow>
         tget (block_supply_rollup e) (blk_Hash b) \<noteq> None)"
  proof (cases rule: applySupplyRollup_cases)
    case none
    have same: "block_supply_rollup e = block_supply_rollup d" using none tabs by simp
    have np: "\<not> (blk_Height b = 0 \<or> tget (block_supply_rollup d) (blk_PreviousHash b) \<noteq> None)"
      using none(1) tabs(1) by (auto simp: rollup_parent_def split: if_splits option.splits)
    have nb: "tget (block_supply_rollup d) (blk_Hash b) = None"
    proof (rule ccontr)
      assume "tget (block_supply_rollup d) (blk_Hash b) \<noteq> None"
      then obtain row where "tget (block_supply_rollup d) (blk_Hash b) = Some row" by blast
      from old [OF this] obtain q where "tget (blocks e) (blk_Hash b) = Some q" "b_height q = 0
        \<or> (\<exists>p. b_prev q = Some p \<and> tget (block_supply_rollup d) p \<noteq> None)" by (auto simp: same)
      then show False using np rb same_block_fields [OF rb(2)] by (auto split: if_splits)
    qed
    have mono: "tget (block_supply_rollup e) p \<noteq> None" if "tget (block_supply_rollup d) p \<noteq> None" for p
      using that by (simp add: same)
    have "lineage_ok e" unfolding lineage_ok_def
    proof (intro conjI allI impI)
      fix j w assume "tget (block_supply_rollup e) j = Some w"
      then have "tget (block_supply_rollup d) j = Some w" by (simp add: same)
      from old [OF this mono] show "row_ok w" "\<exists>r. tget (blocks e) j = Some r \<and> (b_height r = 0
        \<or> (\<exists>p. b_prev r = Some p \<and> tget (block_supply_rollup e) p \<noteq> None))" by blast+
    qed (use sync in simp)
    then show ?thesis
      using np nb by (simp add: same)
  next
    case (row p ex r' t)
    note P = parent_value [OF inv ap nr row(1) tabs(1)]
    note X = V [OF row(2)]
    have N: "row_ok r'" "r_cum_utxo r' = unspent_total e"
      using next_rollup_value [OF row(3) _ rng conjunct1 [OF X]] P conjunct2 [OF X] by simp_all
    have te: "tget (block_supply_rollup e) = (tget (block_supply_rollup d))(blk_Hash b \<mapsto> r')"
      using row(4,5) tabs by simp
    have "lineage_ok e" unfolding lineage_ok_def
    proof (intro conjI allI impI)
      fix j w assume j: "tget (block_supply_rollup e) j = Some w"
      show "row_ok w" "\<exists>q. tget (blocks e) j = Some q \<and> (b_height q = 0
        \<or> (\<exists>p. b_prev q = Some p \<and> tget (block_supply_rollup e) p \<noteq> None))"
      proof (atomize (full), cases "j = blk_Hash b")
        case True
        have H: "b_height rb = 0 \<or> (\<exists>p. b_prev rb = Some p \<and> tget (block_supply_rollup e) p \<noteq> None)"
        proof (cases "blk_Height b = 0")
          case True
          then show ?thesis using same_block_fields [OF rb(2)] by simp
        next
          case False
          then have "b_prev rb = Some (blk_PreviousHash b)"
            "tget (block_supply_rollup d) (blk_PreviousHash b) = Some p"
            using P same_block_fields [OF rb(2)] by auto
          then show ?thesis using te by auto
        qed
        have "w = r'" using True j te by simp
        then show "row_ok w \<and> (\<exists>q. tget (blocks e) j = Some q \<and> (b_height q = 0
          \<or> (\<exists>p. b_prev q = Some p \<and> tget (block_supply_rollup e) p \<noteq> None)))"
          using True N(1) rb(1) H by blast
      next
        case False
        then have "tget (block_supply_rollup d) j = Some w" using j te by simp
        from old [OF this] show "row_ok w \<and> (\<exists>q. tget (blocks e) j = Some q \<and> (b_height q = 0
          \<or> (\<exists>p. b_prev q = Some p \<and> tget (block_supply_rollup e) p \<noteq> None)))"
          using te by simp
      qed
    qed (use sync in simp)
    then show ?thesis
      using te N by auto
  qed
  then show "lineage_ok e"
    "k \<noteq> blk_Hash b \<Longrightarrow> tget (block_supply_rollup e) k = tget (block_supply_rollup d) k"
    "tget (block_supply_rollup e) (blk_Hash b) = Some row \<Longrightarrow> r_cum_utxo row = unspent_total e"
    "blk_Height b = 0 \<or> tget (block_supply_rollup d) (blk_PreviousHash b) \<noteq> None \<Longrightarrow>
      tget (block_supply_rollup e) (blk_Hash b) \<noteq> None"
    by blast+
qed

text \<open>A new block lies above every canonical block, and its parent is one of them.\<close>

lemma apply_above:
  assumes "anchored d" "ApplyBlock s b d = Inr e" "sync_state e \<noteq> sync_state d" "canonical d k r"
  shows "b_height r < blk_Height b" "\<exists>a. canonical d (blk_PreviousHash b) a" "0 \<le> b_height r"
proof -
  have w: "twf (blocks d)" and "chain_inv d" using anchored_chain [OF assms(1)] by auto
  then obtain tip base where tip: "snd (sync_state d) = Some tip"
    and path: "chain_path d base (fst (sync_state d)) tip"
    using assms(4) by (cases "snd (sync_state d)") (auto simp: chain_inv_def)
  have sd: "sync_state d = (fst (sync_state d), Some tip)" using tip by (metis prod.collapse)
  note p = chain_pathD [OF path] and eff = ApplyBlock_chain [OF assms(2) w]
  have hb: "blk_Height b = fst (sync_state d) + 1" by (rule append_facts(1) [OF assms(1) sd assms(2,3)])
  have "blk_Hash b = tip \<and> blk_Height b = fst (sync_state d)
      \<or> blk_Height b = fst (sync_state d) + 1 \<and> blk_PreviousHash b = tip"
    by (rule continuity_cases) (use eff(7) sd p(1-3) hb in simp_all)
  then have "blk_PreviousHash b = tip" using hb by simp
  then show "b_height r < blk_Height b" "\<exists>a. canonical d (blk_PreviousHash b) a" "0 \<le> b_height r"
    using p(1,4,6,7) assms(4) hb by force+
qed

lemma ApplyBlock_supply:
  assumes inv: "supply_inv d" and fr: "fresh_block (Apply b) d" and ap: "ApplyBlock s b d = Inr e"
    and ue: "utxo_canon e"
  shows "supply_inv e"
proof -
  note wf = supply_inv_wf [OF inv] and chain = ApplyBlock_chain [OF ap supply_inv_wf(5) [OF inv]]
  have nr: "sync_state e \<noteq> sync_state d" using fr chain(5) by (auto simp: fresh_block_def Tip_def)
  have fr': "distinct (map tx_TxID (blk_Transactions b))"
    "\<forall>x \<in> tx_TxID ` set (blk_Transactions b). untouched_by d x"
    using fr by (simp_all add: fresh_block_def)
  note row = ApplyBlock_row [OF inv ap nr fr'] and above = apply_above [OF wf(6) ap nr]
  have can: "canonical e k r \<longleftrightarrow> (if k = blk_Hash b then tget (blocks e) k = Some r \<and> b_canonical r
      else canonical d k r)" for k r by (rule canonical_after_apply [OF ap wf(5)])
  obtain rb where rb: "canonical e (blk_Hash b) rb" "b_height rb = blk_Height b"
    using chain(2) same_block_fields by blast
  have new: "b_height r = blk_Height b" if "canonical e (blk_Hash b) r" for r
    using that rb by (simp add: canonical_def)
  have top: "b_height r \<le> blk_Height b" if "canonical e k r" for k r
    using that new can [of k r] above(1) [of k r] by (cases "k = blk_Hash b") fastforce+
  have we: "twf (utxo_state e)" using ue by (simp add: utxo_canon_def refs_ok_def db_wf_def)
  have "rollup_exact e" unfolding rollup_exact_def
  proof (intro conjI allI impI)
    fix k r w assume k: "canonical e k r" "tget (block_supply_rollup e) k = Some w"
    show "value_at e (b_height r) = r_cum_utxo w"
    proof (cases "k = blk_Hash b")
      case True
      have "value_at e (b_height r) = unspent_total e"
        by (rule value_at_top [OF we]) (use coin_heights [OF ue] top new k(1) True in auto)
      then show ?thesis using row(4) k(2) True by simp
    next
      case False
      then have c: "canonical d k r" "tget (block_supply_rollup d) k = Some w"
        using k can [of k r] row(3) by simp_all
      then have "value_at d (b_height r) = r_cum_utxo w"
        using inv unfolding supply_inv_def rollup_exact_def by metis
      then show ?thesis using ApplyBlock_value_at [OF inv ap above(1) [OF c(1)]] by simp
    qed
  next
    fix k r assume g: "\<exists>k r. canonical e k r \<and> b_height r = 0" and k: "canonical e k r"
    then obtain k0 r0 where g0: "canonical e k0 r0" "b_height r0 = 0" by blast
    have all: "tget (block_supply_rollup d) j \<noteq> None" if "canonical d k0 r0" "canonical d j q" for j q
      using inv that g0(2) unfolding supply_inv_def rollup_exact_def by metis
    show "tget (block_supply_rollup e) k \<noteq> None"
    proof (cases "k = blk_Hash b")
      case True
      have "blk_Height b = 0 \<or> tget (block_supply_rollup d) (blk_PreviousHash b) \<noteq> None"
      proof (cases "k0 = blk_Hash b")
        case True
        then show ?thesis using new g0 by simp
      next
        case False
        then have "canonical d k0 r0" using g0(1) can [of k0 r0] by simp
        then show ?thesis using above(2) all by blast
      qed
      then show ?thesis using row(5) True by blast
    next
      case False
      then have c: "canonical d k r" using k can [of k r] by simp
      have "k0 \<noteq> blk_Hash b" using above(1,3) [OF c] new g0 by auto
      then have "canonical d k0 r0" using g0(1) can [of k0 r0] by simp
      then show ?thesis using all [OF _ c] row(3) [OF False] by simp
    qed
  qed
  then show ?thesis using ue row(1,2) by (simp add: supply_inv_def)
qed

section \<open>Rolling back\<close>

lemma worth_unwind:
  assumes "x \<noteq> None \<Longrightarrow> coin_ok d (the x)" "twf (blocks d)" "k \<le> h" "out_val e op = out_val d op"
  shows "worth e k op (unwind (orphan_hashes d h) x) = worth d k op x"
proof (cases x)
  case (Some u)
  note hs = orphan_hashes_iff [OF assms(2), of _ _ h]
  have c: "coin_ok d u" using assms(1) Some by simp
  have born: "u_block u \<in> set (orphan_hashes d h) \<longleftrightarrow> h < u_height u"
    using c hs by (auto simp: coin_ok_def block_at_def canonical_def)
  have spent: "s_block s \<in> set (orphan_hashes d h) \<longleftrightarrow> h < s_height s" if "u_spend u = Some s" for s
    using c hs that by (auto simp: coin_ok_def block_at_def canonical_def)
  show ?thesis
    using born spent assms(3,4) Some
    by (auto simp: unwind_def worth_def alive_at_def spent_in_def split: option.splits)
qed (simp add: unwind_def)

lemma RollbackTo_tables:
  assumes "RollbackTo s h d = Inr e"
  shows "block_supply_rollup e = block_supply_rollup d" "transaction_outputs e = transaction_outputs d"
proof -
  obtain a d1 T d2 where "tget (blocks d) h = Some a" "b_canonical a"
    and r: "(if 0 < length (orphan_hashes d (b_height a)) then rollback_utxos (orphan_hashes d (b_height a)) d
      else (d, [])) = (d1, T)"
    and u: "update_touched s T h d1 = Inr d2" and y: "set_sync_state h d2 = Inr e"
    using assms by (rule RollbackToE)
  have "block_supply_rollup d1 = block_supply_rollup d \<and> transaction_outputs d1 = transaction_outputs d"
    using r by (auto simp: rollback_utxos_def Let_def split: if_splits)
  then show "block_supply_rollup e = block_supply_rollup d" "transaction_outputs e = transaction_outputs d"
    using update_touched_source(1,3) [OF u] y
    by (auto simp: source_side_def set_sync_state_def result_simps)
qed

lemma RollbackTo_supply:
  assumes inv: "supply_inv d" and rb: "RollbackTo s h d = Inr e" and ue: "utxo_canon e"
  shows "supply_inv e"
proof -
  note wf = supply_inv_wf [OF inv] and tabs = RollbackTo_tables [OF rb]
  obtain a where a: "canonical d h a"
    and b: "\<And>k. tget (blocks e) k = map_option (demote_above (b_height a)) (tget (blocks d) k)"
    and s: "sync_state e = (b_height a, Some h)"
    using RollbackTo_chain [OF rb wf(5)] by metis
  have can: "canonical d k r \<and> b_height r \<le> b_height a" if "canonical e k r" for k r
  proof -
    have "r'\<lparr>b_canonical := False\<rparr> \<noteq> r" for r' using that by (auto simp: canonical_def)
    then show ?thesis
      using that b [of k] by (fastforce simp: canonical_def demote_above_def split: if_splits)
  qed
  have we: "twf (utxo_state e)" using ue by (simp add: utxo_canon_def refs_ok_def db_wf_def)
  have V: "value_at e k = value_at d k" if "k \<le> b_height a" for k
  proof (rule value_at_agree [OF wf(3) we])
    fix op
    show "worth e k op (tget (utxo_state e) op) = worth d k op (tget (utxo_state d) op)"
      unfolding RollbackTo_utxo [OF rb wf(1) a, of op]
      by (rule worth_unwind [OF _ wf(5) that]) (use utxo_canonD [OF wf(7)] tabs in \<open>auto simp: out_val_def\<close>)
  qed
  have "outs_range e" using wf(8) by (simp add: outs_range_def tabs)
  moreover have "lineage_ok e"
  proof -
    have "tget (blocks e) k = Some (demote_above (b_height a) r)" if "tget (blocks d) k = Some r" for k r
      using b [of k] that by simp
    moreover have "b_height (demote_above j r) = b_height r" "b_prev (demote_above j r) = b_prev r" for j r
      by (simp_all add: demote_above_def)
    moreover have "lineage_ok d" using inv by (simp add: supply_inv_def)
    ultimately show ?thesis unfolding lineage_ok_def tabs s by (metis option.distinct(1) snd_conv)
  qed
  moreover have "rollup_exact e"
  proof -
    have "value_at e (b_height r) = r_cum_utxo w"
      if "canonical e k r" "tget (block_supply_rollup e) k = Some w" for k r w
      using inv can [OF that(1)] that(2) V unfolding supply_inv_def rollup_exact_def tabs by metis
    moreover have "tget (block_supply_rollup e) j \<noteq> None"
      if "canonical e k r" "b_height r = 0" "canonical e j q" for k r j q
      using inv can [OF that(1)] can [OF that(3)] that(2)
      unfolding supply_inv_def rollup_exact_def tabs by metis
    ultimately show ?thesis unfolding rollup_exact_def by blast
  qed
  ultimately show ?thesis using ue by (simp add: supply_inv_def)
qed

lemma supply_inv_init: "supply_inv init_db"
proof -
  have "tget (block_supply_rollup init_db) k = None" "tget (transaction_outputs init_db) op = None"
    "\<not> canonical init_db k r" for k op r
    by (simp_all add: init_db_def tget_def canonical_def)
  then show ?thesis
    using coins.start by (simp add: supply_inv_def outs_range_def lineage_ok_def rollup_exact_def)
qed

interpretation rollup: store_invariant s fresh_block supply_inv for s
proof
  show "supply_inv init_db" by (rule supply_inv_init)
  fix d op e
  assume i: "supply_inv d" "fresh_block op d" "attempt s op d = Inr e"
  then have ue: "utxo_canon e" using coins.step supply_inv_wf(7) by blast
  show "supply_inv e"
  proof (cases op)
    case (Apply b)
    then show ?thesis using i ue ApplyBlock_supply by (simp add: attempt_def)
  next
    case (Rollback h)
    then show ?thesis using i ue RollbackTo_supply by (simp add: attempt_def)
  qed
qed

text \<open>The row of the tip, and the rows of a chain from genesis.\<close>

lemma tip_rollup:
  assumes inv: "supply_inv d" and sd: "sync_state d = (h, Some t)"
  shows "tget (block_supply_rollup d) t = Some row \<Longrightarrow> r_cum_utxo row = unspent_total d"
    "CanonicalBlockHash d 0 \<noteq> None \<Longrightarrow> canonical d k r \<Longrightarrow> tget (block_supply_rollup d) k \<noteq> None"
    "\<exists>r. canonical d t r"
proof -
  note wf = supply_inv_wf [OF inv]
  obtain base where path: "chain_path d base h t"
    using anchored_chain [OF wf(6)] sd by (auto simp: chain_inv_def)
  obtain a where a: "canonical d t a" "b_height a = h" using chain_pathD(4) [OF path] by blast
  then show "\<exists>r. canonical d t r" by blast
  have "value_at d h = unspent_total d"
    by (rule value_at_top [OF wf(3)]) (use coin_heights [OF wf(7)] chain_pathD(7) [OF path] in blast)
  then show "tget (block_supply_rollup d) t = Some row \<Longrightarrow> r_cum_utxo row = unspent_total d"
    using inv a unfolding supply_inv_def rollup_exact_def by metis
  assume g: "CanonicalBlockHash d 0 \<noteq> None" and k: "canonical d k r"
  obtain c where "CanonicalBlockHash d 0 = Some c" using g by blast
  then obtain q where "canonical d c q" "b_height q = 0"
    using CanonicalBlockHash_Some [OF path wf(5)] by blast
  then show "tget (block_supply_rollup d) k \<noteq> None"
    using inv k unfolding supply_inv_def rollup_exact_def by blast
qed

text \<open>
  C5 The supply identity: run any accepted or refused sequence of blocks and rollbacks in which
  every applied block is new and reuses no transaction id. If the rollup has a row for the tip, the
  circulating supply that row derives from subsidy, fee and excluded totals equals, to the satoshi,
  the sum of the values of all unspent rows of the UTXO table; and if the canonical chain is rooted
  at genesis, the row is there.
\<close>

theorem supply_rollup_exact:
  assumes "all_ok fresh_block s ops init_db" "d = run s ops init_db" "Tip d = (h, Some t)"
  shows "(\<forall>row. tget (block_supply_rollup d) t = Some row \<longrightarrow> r_cum_utxo row = unspent_total d)
    \<and> (CanonicalBlockHash d 0 \<noteq> None \<longrightarrow> tget (block_supply_rollup d) t \<noteq> None)"
proof -
  have inv: "supply_inv d" using rollup.reachable assms(1,2) by simp
  have sd: "sync_state d = (h, Some t)" using assms(3) by (simp add: Tip_def)
  show ?thesis using tip_rollup [OF inv sd] by blast
qed

end
