(* ===== verification/StoreWitness.thy ===== *)
theory StoreWitness
  imports StoreExample StoreRollup
begin

text \<open>Runs of the store on the example chain, and the witnesses of the store's properties.\<close>

lemma ex_run0: "run ex_store [Apply ex_b0] init_db = ex_d0"
  by (simp add: run_step_def attempt_def ex_d0_step)

lemma ex_run1: "run ex_store [Apply ex_b0, Apply ex_b1] init_db = ex_d1"
  by (simp add: run_step_def attempt_def ex_d0_step ex_d1_step)

lemma ex_run2: "run ex_store [Apply ex_b0, Apply ex_b1, Apply ex_b2] init_db = ex_d2"
  by (simp add: run_step_def attempt_def ex_d0_step ex_d1_step ex_d2_step)

lemma ex_tips: "Tip ex_d0 = (0, Some (hx CHR ''0''))" "Tip ex_d1 = (1, Some (hx CHR ''1''))"
  "Tip ex_d2 = (2, Some (hx CHR ''2''))"
  by (simp_all add: Tip_def ex_d0_def ex_d1_def ex_d2_def)

theorem canonical_chain_linked_witness:
  "CanonicalBlockHash ex_d2 2 = Some (hx CHR ''2'') \<and> distribution_state ex_d2 = (2, Some (hx CHR ''2''))"
  using canonical_chain_linked [OF ex_run2 [symmetric]] by (simp add: ex_tips)

theorem ApplyBlock_extends_tip_witness:
  "CanonicalBlockHash ex_d2 2 = Some (hx CHR ''2'') \<and> Tip ex_d1 = (1, Some (hx CHR ''1''))"
  using ApplyBlock_extends_tip [OF ex_run1 [symmetric] ex_d2_step]
  by (simp add: ex_tips ex_b2_def ex_block_def)

lemma ex_map_order: "map_order_ok ex_store"
  by (simp add: map_order_ok_def ex_store_def New_def)

theorem address_cache_exact_witness:
  "unspent_value ex_d2 ''b'' = 60 \<and> unspent_value ex_d2 ''z'' = 0"
  using address_cache_exact [OF ex_map_order ex_run2 [symmetric], of "''b''"]
    address_cache_exact [OF ex_map_order ex_run2 [symmetric], of "''z''"]
  by (simp add: currentAddressBalance_def tget_def) (simp add: ex_d2_def)

theorem distribution_exact_witness:
  "wrap64 (int (card {a. bucketForBalance (unspent_value ex_d2 a) = Some ''lt_1''})) = 2"
  using distribution_exact [OF ex_map_order ex_run2 [symmetric], of "''lt_1''"]
  by (simp add: DistributionBucketIDs_eq tget_def) (simp add: ex_d2_def)

theorem coins_are_canonical_witness:
  "CanonicalBlockHash ex_d2 2 = Some (hx CHR ''2'')"
proof -
  have "\<exists>u sp. GetUTXO ex_d2 (hx CHR ''b'') 0 = Some u \<and> u_spend u = Some sp
      \<and> s_height sp = 2 \<and> s_block sp = hx CHR ''2''"
    by (simp add: GetUTXO_def ex_d2_def tget_def hx_simps)
  then show ?thesis using coins_are_canonical [OF ex_run2 [symmetric]] by metis
qed

theorem rollback_inverts_append_witness:
  "\<exists>f. RollbackTo ex_store (hx CHR ''1'') ex_d2 = Inr f \<and> Tip f = (1, Some (hx CHR ''1''))"
proof -
  have "new_coins_only ex_d1 ex_b2"
    by (auto simp: new_coins_only_def block_txids_def ex_b2_def ex_block_def ex_coinbase_def
        ex_spend_def ex_d1_def tget_def hx_simps)
  then show ?thesis
    using rollback_inverts_append [OF ex_map_order ex_run1 [symmetric] ex_tips(2) ex_d2_step]
    by (auto simp: ex_tips hx_simps)
qed

lemma ex_fresh: "all_ok fresh_block ex_store [Apply ex_b0, Apply ex_b1, Apply ex_b2] init_db"
proof -
  have "fresh_block (Apply ex_b0) init_db"
    by (simp add: fresh_block_def untouched_by_def init_db_def tget_def Tip_def ex_b0_def
        ex_block_def ex_coinbase_def)
  moreover have "untouched_by ex_d0 x" for x
    by (simp add: untouched_by_def ex_d0_def tget_def)
  then have "fresh_block (Apply ex_b1) ex_d0"
    by (simp add: fresh_block_def ex_tips ex_b1_def ex_block_def ex_coinbase_def)
  moreover have "x \<noteq> hx CHR ''b'' \<Longrightarrow> untouched_by ex_d1 x" for x
    by (auto simp: untouched_by_def ex_d1_def tget_def split: if_splits)
  then have "fresh_block (Apply ex_b2) ex_d1"
    by (simp add: fresh_block_def ex_tips ex_b2_def ex_block_def ex_coinbase_def ex_spend_def hx_simps)
  ultimately show ?thesis
    by (simp add: run_step_def attempt_def ex_d0_step ex_d1_step)
qed

theorem supply_rollup_exact_witness: "unspent_total ex_d2 = 90"
proof -
  have "\<exists>row. tget (block_supply_rollup ex_d2) (hx CHR ''2'') = Some row \<and> r_cum_utxo row = 90"
    by (simp add: ex_d2_def tget_def hx_simps)
  then show ?thesis
    using supply_rollup_exact [OF ex_fresh ex_run2 [symmetric] ex_tips(3)] by metis
qed

end
