(* ===== verification/StoreReplay.thy ===== *)
theory StoreReplay
  imports StoreWitness
begin

text \<open>
  A transaction repeated in a later canonical block. \<open>checkPrevout\<close> and \<open>markSpent\<close>
  accept a coin that is already spent when the spender is the same transaction id and input index,
  whichever block spent it. When all outputs of the repeated transaction are unspendable no other
  check stops the block: the fee is counted a second time and the rollup row of the tip no longer
  equals the value of the unspent coins. The property \<open>supply_rollup_exact\<close> therefore needs its
  hypothesis that no transaction id comes back.
\<close>

definition re_b2 :: block where
  "re_b2 = ex_block CHR ''2'' 2 (hx CHR ''1'')
     [ex_coinbase CHR ''c'' [ex_out 0 200 ''a''], ex_spend CHR ''d'' (hx CHR ''b'', 0) [ex_burn 0 60]]"

definition re_b3 :: block where
  "re_b3 = ex_block CHR ''3'' 3 (hx CHR ''2'')
     [ex_coinbase CHR ''e'' [ex_burn 0 5], ex_spend CHR ''d'' (hx CHR ''b'', 0) [ex_burn 0 60]]"

definition re_d2 :: db where
  "re_d2 =
   \<lparr>sync_state = (2, Some (hx CHR ''2'')),
   blocks =
   [(hx CHR ''0'',
   \<lparr>b_height = 0, b_prev = None, b_merkle = hx CHR ''0'',
   b_time = 0, b_bits = [], b_difficulty = 0, b_nonce = 0,
   b_size = 100, b_weight = 400, b_tx_count = 1,
   b_canonical = True\<rparr>),
   (hx CHR ''1'',
   \<lparr>b_height = 1, b_prev = Some (hx CHR ''0''),
   b_merkle = hx CHR ''1'', b_time = 0, b_bits = [],
   b_difficulty = 0, b_nonce = 0, b_size = 100, b_weight = 400,
   b_tx_count = 1, b_canonical = True\<rparr>),
   (hx CHR ''2'',
   \<lparr>b_height = 2, b_prev = Some (hx CHR ''1''),
   b_merkle = hx CHR ''2'', b_time = 0, b_bits = [],
   b_difficulty = 0, b_nonce = 0, b_size = 100, b_weight = 400,
   b_tx_count = 2, b_canonical = True\<rparr>)],
   transactions =
   [(hx CHR ''a'',
   \<lparr>t_version = 1, t_locktime = 0, t_is_coinbase = True,
   t_fee = None\<rparr>),
   (hx CHR ''b'',
   \<lparr>t_version = 1, t_locktime = 0, t_is_coinbase = True,
   t_fee = None\<rparr>),
   (hx CHR ''c'',
   \<lparr>t_version = 1, t_locktime = 0, t_is_coinbase = True,
   t_fee = None\<rparr>),
   (hx CHR ''d'',
   \<lparr>t_version = 1, t_locktime = 0, t_is_coinbase = False,
   t_fee = Some 40\<rparr>)],
   transaction_variants =
   [(hx CHR ''a'',
   \<lparr>v_txid = hx CHR ''a'', v_size = 100, v_vsize = 100,
   v_weight = 400\<rparr>),
   (hx CHR ''b'',
   \<lparr>v_txid = hx CHR ''b'', v_size = 100, v_vsize = 100,
   v_weight = 400\<rparr>),
   (hx CHR ''c'',
   \<lparr>v_txid = hx CHR ''c'', v_size = 100, v_vsize = 100,
   v_weight = 400\<rparr>),
   (hx CHR ''d'',
   \<lparr>v_txid = hx CHR ''d'', v_size = 100, v_vsize = 100,
   v_weight = 400\<rparr>)],
   block_transactions =
   [((hx CHR ''0'', 0),
   \<lparr>bt_txid = hx CHR ''a'', bt_wtxid = hx CHR ''a''\<rparr>),
   ((hx CHR ''1'', 0),
   \<lparr>bt_txid = hx CHR ''b'', bt_wtxid = hx CHR ''b''\<rparr>),
   ((hx CHR ''2'', 0),
   \<lparr>bt_txid = hx CHR ''c'', bt_wtxid = hx CHR ''c''\<rparr>),
   ((hx CHR ''2'', Suc 0),
   \<lparr>bt_txid = hx CHR ''d'', bt_wtxid = hx CHR ''d''\<rparr>)],
   transaction_inputs =
   [((hx CHR ''a'', 0),
   \<lparr>i_prev = None, i_coinbase = Some [1], i_script_sig = None,
   i_sequence = 0\<rparr>),
   ((hx CHR ''b'', 0),
   \<lparr>i_prev = None, i_coinbase = Some [1], i_script_sig = None,
   i_sequence = 0\<rparr>),
   ((hx CHR ''c'', 0),
   \<lparr>i_prev = None, i_coinbase = Some [1], i_script_sig = None,
   i_sequence = 0\<rparr>),
   ((hx CHR ''d'', 0),
   \<lparr>i_prev = Some (hx CHR ''b'', 0), i_coinbase = None,
   i_script_sig = Some [], i_sequence = 0\<rparr>)],
   transaction_input_witness = [],
   transaction_outputs =
   [((hx CHR ''a'', 0),
   \<lparr>o_value = 50, o_script = 82 # 32 # replicate 32 17,
   o_type = TypeP2QPK, o_wver = Some 2,
   o_wprog = Some (replicate 32 17)\<rparr>),
   ((hx CHR ''b'', 0),
   \<lparr>o_value = 100, o_script = 82 # 32 # replicate 32 17,
   o_type = TypeP2QPK, o_wver = Some 2,
   o_wprog = Some (replicate 32 17)\<rparr>),
   ((hx CHR ''c'', 0),
   \<lparr>o_value = 200, o_script = 82 # 32 # replicate 32 17,
   o_type = TypeP2QPK, o_wver = Some 2,
   o_wprog = Some (replicate 32 17)\<rparr>),
   ((hx CHR ''d'', 0),
   \<lparr>o_value = 60, o_script = [106], o_type = TypeNullData,
   o_wver = None, o_wprog = None\<rparr>)],
   output_addresses =
   [((hx CHR ''a'', 0), ''z''), ((hx CHR ''b'', 0), ''a''),
   ((hx CHR ''c'', 0), ''a'')],
   output_participants = [],
   utxo_state =
   [((hx CHR ''b'', 0),
   \<lparr>u_block = hx CHR ''1'', u_height = 1,
   u_spend =
   Some
   \<lparr>s_txid = hx CHR ''d'', s_vin = 0, s_block = hx CHR ''2'',
   s_height = 2\<rparr>\<rparr>),
   ((hx CHR ''c'', 0),
   \<lparr>u_block = hx CHR ''2'', u_height = 2, u_spend = None\<rparr>)],
   addresses =
   [(''a'',
   \<lparr>a_received = 300, a_sent = 100, a_balance = 200, a_tx_count = 3,
   a_first_seen = Some 1, a_last_seen = Some 2\<rparr>)],
   block_accounting =
   [(hx CHR ''0'',
   \<lparr>c_subsidy = 10000000000, c_fee = 0, c_coinbase = 50,
   c_unclaimed = 9999999950\<rparr>),
   (hx CHR ''1'',
   \<lparr>c_subsidy = 10000000000, c_fee = 0, c_coinbase = 100,
   c_unclaimed = 9999999900\<rparr>),
   (hx CHR ''2'',
   \<lparr>c_subsidy = 10000000000, c_fee = 40, c_coinbase = 200,
   c_unclaimed = 9999999840\<rparr>)],
   block_supply_rollup =
   [(hx CHR ''0'',
   \<lparr>r_excluded = 50, r_cum_subsidy = 10000000000, r_cum_fee = 0,
   r_cum_coinbase = 50, r_cum_unclaimed = 9999999950,
   r_cum_excluded = 50, r_cum_utxo = 0\<rparr>),
   (hx CHR ''1'',
   \<lparr>r_excluded = 0, r_cum_subsidy = 20000000000, r_cum_fee = 0,
   r_cum_coinbase = 150, r_cum_unclaimed = 19999999850,
   r_cum_excluded = 50, r_cum_utxo = 100\<rparr>),
   (hx CHR ''2'',
   \<lparr>r_excluded = 60, r_cum_subsidy = 30000000000, r_cum_fee = 40,
   r_cum_coinbase = 350, r_cum_unclaimed = 29999999690,
   r_cum_excluded = 110, r_cum_utxo = 200\<rparr>)],
   distribution =
   [(''lt_1'', 1, 200), (''1_10'', 0, 0), (''10_100'', 0, 0),
   (''100_1k'', 0, 0), (''1k_10k'', 0, 0), (''10k_100k'', 0, 0),
   (''100k_1m'', 0, 0), (''gte_1m'', 0, 0)],
   distribution_state = (2, Some (hx CHR ''2''))\<rparr>"

lemma re_d2_step: "ApplyBlock ex_store re_b2 ex_d1 = Inr re_d2"
  by (simp add: eval_store re_b2_def ex_d1_def re_d2_def cong: rbind_lazy let_weak_cong)

definition re_d3 :: db where
  "re_d3 =
   \<lparr>sync_state = (3, Some (hx CHR ''3'')),
   blocks =
   [(hx CHR ''0'',
   \<lparr>b_height = 0, b_prev = None, b_merkle = hx CHR ''0'',
   b_time = 0, b_bits = [], b_difficulty = 0, b_nonce = 0,
   b_size = 100, b_weight = 400, b_tx_count = 1,
   b_canonical = True\<rparr>),
   (hx CHR ''1'',
   \<lparr>b_height = 1, b_prev = Some (hx CHR ''0''),
   b_merkle = hx CHR ''1'', b_time = 0, b_bits = [],
   b_difficulty = 0, b_nonce = 0, b_size = 100, b_weight = 400,
   b_tx_count = 1, b_canonical = True\<rparr>),
   (hx CHR ''2'',
   \<lparr>b_height = 2, b_prev = Some (hx CHR ''1''),
   b_merkle = hx CHR ''2'', b_time = 0, b_bits = [],
   b_difficulty = 0, b_nonce = 0, b_size = 100, b_weight = 400,
   b_tx_count = 2, b_canonical = True\<rparr>),
   (hx CHR ''3'',
   \<lparr>b_height = 3, b_prev = Some (hx CHR ''2''),
   b_merkle = hx CHR ''3'', b_time = 0, b_bits = [],
   b_difficulty = 0, b_nonce = 0, b_size = 100, b_weight = 400,
   b_tx_count = 2, b_canonical = True\<rparr>)],
   transactions =
   [(hx CHR ''a'',
   \<lparr>t_version = 1, t_locktime = 0, t_is_coinbase = True,
   t_fee = None\<rparr>),
   (hx CHR ''b'',
   \<lparr>t_version = 1, t_locktime = 0, t_is_coinbase = True,
   t_fee = None\<rparr>),
   (hx CHR ''c'',
   \<lparr>t_version = 1, t_locktime = 0, t_is_coinbase = True,
   t_fee = None\<rparr>),
   (hx CHR ''d'',
   \<lparr>t_version = 1, t_locktime = 0, t_is_coinbase = False,
   t_fee = Some 40\<rparr>),
   (hx CHR ''e'',
   \<lparr>t_version = 1, t_locktime = 0, t_is_coinbase = True,
   t_fee = None\<rparr>)],
   transaction_variants =
   [(hx CHR ''a'',
   \<lparr>v_txid = hx CHR ''a'', v_size = 100, v_vsize = 100,
   v_weight = 400\<rparr>),
   (hx CHR ''b'',
   \<lparr>v_txid = hx CHR ''b'', v_size = 100, v_vsize = 100,
   v_weight = 400\<rparr>),
   (hx CHR ''c'',
   \<lparr>v_txid = hx CHR ''c'', v_size = 100, v_vsize = 100,
   v_weight = 400\<rparr>),
   (hx CHR ''d'',
   \<lparr>v_txid = hx CHR ''d'', v_size = 100, v_vsize = 100,
   v_weight = 400\<rparr>),
   (hx CHR ''e'',
   \<lparr>v_txid = hx CHR ''e'', v_size = 100, v_vsize = 100,
   v_weight = 400\<rparr>)],
   block_transactions =
   [((hx CHR ''0'', 0),
   \<lparr>bt_txid = hx CHR ''a'', bt_wtxid = hx CHR ''a''\<rparr>),
   ((hx CHR ''1'', 0),
   \<lparr>bt_txid = hx CHR ''b'', bt_wtxid = hx CHR ''b''\<rparr>),
   ((hx CHR ''2'', 0),
   \<lparr>bt_txid = hx CHR ''c'', bt_wtxid = hx CHR ''c''\<rparr>),
   ((hx CHR ''2'', Suc 0),
   \<lparr>bt_txid = hx CHR ''d'', bt_wtxid = hx CHR ''d''\<rparr>),
   ((hx CHR ''3'', 0),
   \<lparr>bt_txid = hx CHR ''e'', bt_wtxid = hx CHR ''e''\<rparr>),
   ((hx CHR ''3'', Suc 0),
   \<lparr>bt_txid = hx CHR ''d'', bt_wtxid = hx CHR ''d''\<rparr>)],
   transaction_inputs =
   [((hx CHR ''a'', 0),
   \<lparr>i_prev = None, i_coinbase = Some [1], i_script_sig = None,
   i_sequence = 0\<rparr>),
   ((hx CHR ''b'', 0),
   \<lparr>i_prev = None, i_coinbase = Some [1], i_script_sig = None,
   i_sequence = 0\<rparr>),
   ((hx CHR ''c'', 0),
   \<lparr>i_prev = None, i_coinbase = Some [1], i_script_sig = None,
   i_sequence = 0\<rparr>),
   ((hx CHR ''d'', 0),
   \<lparr>i_prev = Some (hx CHR ''b'', 0), i_coinbase = None,
   i_script_sig = Some [], i_sequence = 0\<rparr>),
   ((hx CHR ''e'', 0),
   \<lparr>i_prev = None, i_coinbase = Some [1], i_script_sig = None,
   i_sequence = 0\<rparr>)],
   transaction_input_witness = [],
   transaction_outputs =
   [((hx CHR ''a'', 0),
   \<lparr>o_value = 50, o_script = 82 # 32 # replicate 32 17,
   o_type = TypeP2QPK, o_wver = Some 2,
   o_wprog = Some (replicate 32 17)\<rparr>),
   ((hx CHR ''b'', 0),
   \<lparr>o_value = 100, o_script = 82 # 32 # replicate 32 17,
   o_type = TypeP2QPK, o_wver = Some 2,
   o_wprog = Some (replicate 32 17)\<rparr>),
   ((hx CHR ''c'', 0),
   \<lparr>o_value = 200, o_script = 82 # 32 # replicate 32 17,
   o_type = TypeP2QPK, o_wver = Some 2,
   o_wprog = Some (replicate 32 17)\<rparr>),
   ((hx CHR ''d'', 0),
   \<lparr>o_value = 60, o_script = [106], o_type = TypeNullData,
   o_wver = None, o_wprog = None\<rparr>),
   ((hx CHR ''e'', 0),
   \<lparr>o_value = 5, o_script = [106], o_type = TypeNullData,
   o_wver = None, o_wprog = None\<rparr>)],
   output_addresses =
   [((hx CHR ''a'', 0), ''z''), ((hx CHR ''b'', 0), ''a''),
   ((hx CHR ''c'', 0), ''a'')],
   output_participants = [],
   utxo_state =
   [((hx CHR ''b'', 0),
   \<lparr>u_block = hx CHR ''1'', u_height = 1,
   u_spend =
   Some
   \<lparr>s_txid = hx CHR ''d'', s_vin = 0, s_block = hx CHR ''2'',
   s_height = 2\<rparr>\<rparr>),
   ((hx CHR ''c'', 0),
   \<lparr>u_block = hx CHR ''2'', u_height = 2, u_spend = None\<rparr>)],
   addresses =
   [(''a'',
   \<lparr>a_received = 300, a_sent = 100, a_balance = 200, a_tx_count = 3,
   a_first_seen = Some 1, a_last_seen = Some 2\<rparr>)],
   block_accounting =
   [(hx CHR ''0'',
   \<lparr>c_subsidy = 10000000000, c_fee = 0, c_coinbase = 50,
   c_unclaimed = 9999999950\<rparr>),
   (hx CHR ''1'',
   \<lparr>c_subsidy = 10000000000, c_fee = 0, c_coinbase = 100,
   c_unclaimed = 9999999900\<rparr>),
   (hx CHR ''2'',
   \<lparr>c_subsidy = 10000000000, c_fee = 40, c_coinbase = 200,
   c_unclaimed = 9999999840\<rparr>),
   (hx CHR ''3'',
   \<lparr>c_subsidy = 10000000000, c_fee = 40, c_coinbase = 5,
   c_unclaimed = 10000000035\<rparr>)],
   block_supply_rollup =
   [(hx CHR ''0'',
   \<lparr>r_excluded = 50, r_cum_subsidy = 10000000000, r_cum_fee = 0,
   r_cum_coinbase = 50, r_cum_unclaimed = 9999999950,
   r_cum_excluded = 50, r_cum_utxo = 0\<rparr>),
   (hx CHR ''1'',
   \<lparr>r_excluded = 0, r_cum_subsidy = 20000000000, r_cum_fee = 0,
   r_cum_coinbase = 150, r_cum_unclaimed = 19999999850,
   r_cum_excluded = 50, r_cum_utxo = 100\<rparr>),
   (hx CHR ''2'',
   \<lparr>r_excluded = 60, r_cum_subsidy = 30000000000, r_cum_fee = 40,
   r_cum_coinbase = 350, r_cum_unclaimed = 29999999690,
   r_cum_excluded = 110, r_cum_utxo = 200\<rparr>),
   (hx CHR ''3'',
   \<lparr>r_excluded = 65, r_cum_subsidy = 40000000000, r_cum_fee = 80,
   r_cum_coinbase = 355, r_cum_unclaimed = 39999999725,
   r_cum_excluded = 175, r_cum_utxo = 100\<rparr>)],
   distribution =
   [(''lt_1'', 1, 200), (''1_10'', 0, 0), (''10_100'', 0, 0),
   (''100_1k'', 0, 0), (''1k_10k'', 0, 0), (''10k_100k'', 0, 0),
   (''100k_1m'', 0, 0), (''gte_1m'', 0, 0)],
   distribution_state = (3, Some (hx CHR ''3''))\<rparr>"

lemma re_d3_step: "ApplyBlock ex_store re_b3 re_d2 = Inr re_d3"
  by (simp add: eval_store re_b3_def re_d2_def re_d3_def cong: rbind_lazy let_weak_cong)

text \<open>
  A repeated transaction is counted twice: after the two example blocks, both accepted, the same
  input is spent by the transaction of height 2, the rollup row of the tip reports a supply of 100,
  and the unspent coins are worth 200.
\<close>

lemma repeated_burn_breaks_identity:
  "run ex_store [Apply ex_b0, Apply ex_b1, Apply re_b2, Apply re_b3] init_db = re_d3
    \<and> Tip re_d3 = (3, Some (hx CHR ''3''))
    \<and> map_option r_cum_utxo (tget (block_supply_rollup re_d3) (hx CHR ''3'')) = Some 100
    \<and> unspent_total re_d3 = 200"
proof (intro conjI)
  show "run ex_store [Apply ex_b0, Apply ex_b1, Apply re_b2, Apply re_b3] init_db = re_d3"
    by (simp add: run_step_def attempt_def ex_d0_step ex_d1_step re_d2_step re_d3_step)
  show "Tip re_d3 = (3, Some (hx CHR ''3''))" by (simp add: Tip_def re_d3_def)
  show "map_option r_cum_utxo (tget (block_supply_rollup re_d3) (hx CHR ''3'')) = Some 100"
    by (simp add: re_d3_def tget_simps hx_simps)
  show "unspent_total re_d3 = 200"
    by (simp add: unspent_total_def tsum_def out_val_def re_d3_def tget_simps hx_simps)
qed

end
