(* ===== verification/Indexer.thy ===== *)
theory Indexer
  imports StoreChain Decode
begin

text \<open>
  \<open>internal/indexer\<close>: the synchronization of the store with a Core node. Core, the other writers of
  the database and the request context are parameters: each is a call that reads and changes a state
  \<open>'w\<close> of the outside. Waiting, logging and the timing of the phases are left out, and an
  error that is wrapped keeps the constructor of the error inside.
\<close>

section \<open>The outside\<close>

text \<open>
  \<open>rpc\<dots>\<close> are the methods of the \<open>RPCClient\<close> interface, \<open>Resolver\<close> the address resolver given to
  \<open>New\<close>. Before every statement this process sends, other processes may have committed a list of
  operations of the same store (\<open>Writers\<close>), or the connection may fail. \<open>CtxErr\<close> is \<open>ctx.Err()\<close>,
  \<open>Canceled\<close> tells whether an error from the outside wraps a cancellation of the context.
\<close>

record 'w env =
  rpcGetBlockCount :: "('w, string, int) call"
  rpcGetBlockHash :: "int \<Rightarrow> ('w, string, string) call"
  rpcGetBlockVerbose2 :: "string \<Rightarrow> ('w, string, raw_block) call"
  Resolver :: "'w resolver"
  Writers :: "('w, string, operation list) call"
  CtxErr :: "'w \<Rightarrow> string option \<times> 'w"
  Canceled :: "string \<Rightarrow> bool"

type_synonym 'w sys = "db \<times> 'w"

datatype index_error =
    ErrReorgTooDeep | ErrLocalChainGap | ErrRemoteChainMoved
  | ErrNetworkMismatch | ErrPrunedNode | ErrInitialBlockDownload | ErrSyncInProgress
  | NetworkNotSet | NegativeBlockCount int
  | Outside string
  | DecodeFailed decode_error
  | StoreFailed store_error
  | DecodedHeightMismatch | DecodedHashMismatch
  | ParentContradiction | NonSequentialUnexplained
  | WrongTipAfterRollback

definition MaxAutomaticReorgDepth :: int where "MaxAutomaticReorgDepth = 100"

definition remote :: "('w, 'e, 'a) call \<Rightarrow> ('e \<Rightarrow> index_error) \<Rightarrow> ('w sys, index_error, 'a) call" where
  "remote m err = (\<lambda>(d, w). case m w of (r, w') \<Rightarrow> (map_err err r, (d, w')))"

text \<open>A read of the store, and an operation on it.\<close>

definition store_read :: "store \<Rightarrow> 'w env \<Rightarrow> (db \<Rightarrow> 'a) \<Rightarrow> ('w sys, index_error, 'a) call" where
  "store_read s env q = (\<lambda>(d, w). case Writers env w of
     (Inl e, w') \<Rightarrow> (Inl (Outside e), (d, w'))
   | (Inr ops, w') \<Rightarrow> let d1 = run s ops d in (Inr (q d1), (d1, w')))"

definition store_write :: "store \<Rightarrow> 'w env \<Rightarrow> operation \<Rightarrow> ('w sys, index_error, unit) call" where
  "store_write s env op = (\<lambda>(d, w). case Writers env w of
     (Inl e, w') \<Rightarrow> (Inl (Outside e), (d, w'))
   | (Inr ops, w') \<Rightarrow> let d1 = run s ops d in
      (case attempt s op d1 of
         Inl e \<Rightarrow> (Inl (StoreFailed e), (d1, w'))
       | Inr d2 \<Rightarrow> (Inr (), (d2, w'))))"

text \<open>A checkpoint without a block reads as the empty hash.\<close>

definition cp_Hash :: "checkpoint \<Rightarrow> string" where
  "cp_Hash cp = (case snd cp of None \<Rightarrow> [] | Some h \<Rightarrow> h)"

section \<open>startup.go\<close>

record blockchain_info =
  bi_Chain :: string
  bi_InitialBlockDownload :: bool
  bi_Pruned :: bool

definition ValidateStartup :: "blockchain_info \<Rightarrow> string \<Rightarrow> index_error + unit" where
  "ValidateStartup info wantNetwork =
    (if wantNetwork = [] then Inl NetworkNotSet
     else if bi_Chain info \<noteq> wantNetwork then Inl ErrNetworkMismatch
     else if bi_Pruned info then Inl ErrPrunedNode
     else if bi_InitialBlockDownload info then Inl ErrInitialBlockDownload
     else Inr ())"

section \<open>race.go\<close>

definition getBlockCount :: "'w env \<Rightarrow> ('w sys, index_error, int) call" where
  "getBlockCount env =
    sbind (remote (rpcGetBlockCount env) Outside) (\<lambda>count.
    sret (if count < 0 then Inl (NegativeBlockCount count) else Inr count))"

definition classifyHashUnavailable ::
  "'w env \<Rightarrow> int \<Rightarrow> index_error \<Rightarrow> 'w sys \<Rightarrow> index_error \<times> 'w sys" where
  "classifyHashUnavailable env height origErr = (\<lambda>x. case getBlockCount env x of
     (Inl _, y) \<Rightarrow> (origErr, y)
   | (Inr newHeight, y) \<Rightarrow> (if newHeight < height then ErrRemoteChainMoved else origErr, y))"

text \<open>
  Every \<open>GetBlockHash\<close> of the package is followed by
  \<^verbatim>\<open>if err != nil { return idx.classifyHashUnavailable(ctx, height, err) }\<close>.
\<close>

definition hash_at :: "'w env \<Rightarrow> int \<Rightarrow> ('w sys, index_error, string) call" where
  "hash_at env height = (\<lambda>x. case remote (rpcGetBlockHash env height) Outside x of
     (Inl e, y) \<Rightarrow> (case classifyHashUnavailable env height e y of (e', z) \<Rightarrow> (Inl e', z))
   | (Inr h, y) \<Rightarrow> (Inr h, y))"

definition diagnoseNonSequential ::
  "store \<Rightarrow> 'w env \<Rightarrow> int \<Rightarrow> block \<Rightarrow> ('w sys, index_error, unit) call" where
  "diagnoseNonSequential s env height block =
    sbind (hash_at env height) (\<lambda>currentBlockHash1.
    if currentBlockHash1 \<noteq> blk_Hash block then sret (Inl ErrRemoteChainMoved)
    else sbind (store_read s env Tip) (\<lambda>currentLocal.
    if fst currentLocal \<noteq> height - 1 then sret (Inl ErrRemoteChainMoved)
    else sbind (hash_at env (fst currentLocal)) (\<lambda>currentParentHash.
    sbind (hash_at env height) (\<lambda>currentBlockHash2.
    sret (Inl
     (if currentBlockHash2 \<noteq> blk_Hash block then ErrRemoteChainMoved
      else if currentParentHash \<noteq> cp_Hash currentLocal then ErrRemoteChainMoved
      else if blk_PreviousHash block \<noteq> cp_Hash currentLocal then ParentContradiction
      else NonSequentialUnexplained))))))"

section \<open>apply.go\<close>

text \<open>The call of \<open>Store.ApplyBlock\<close> at the end of \<open>applyHeight\<close>, and what follows its error.\<close>

definition apply_or_diagnose ::
  "store \<Rightarrow> 'w env \<Rightarrow> int \<Rightarrow> block \<Rightarrow> ('w sys, index_error, unit) call" where
  "apply_or_diagnose s env height block = (\<lambda>x. case store_write s env (Apply block) x of
     (Inl e, y) \<Rightarrow> if e = StoreFailed ErrNonSequentialBlock
       then diagnoseNonSequential s env height block y else (Inl e, y)
   | (Inr _, y) \<Rightarrow> (Inr (), y))"

definition applyHeight :: "store \<Rightarrow> 'w env \<Rightarrow> int \<Rightarrow> ('w sys, index_error, unit) call" where
  "applyHeight s env height =
    sbind (hash_at env height) (\<lambda>hash1.
    sbind (remote (rpcGetBlockVerbose2 env hash1) Outside) (\<lambda>raw.
    sbind (remote (DecodeBlock (Resolver env) raw) DecodeFailed) (\<lambda>block.
    if blk_Height block \<noteq> height then sret (Inl DecodedHeightMismatch)
    else if blk_Hash block \<noteq> hash1 then sret (Inl DecodedHashMismatch)
    else sbind (hash_at env height) (\<lambda>hash2.
    if hash2 \<noteq> hash1 then sret (Inl ErrRemoteChainMoved)
    else apply_or_diagnose s env height block))))"

section \<open>reconcile.go\<close>

text \<open>The search for the common ancestor, from \<open>h\<close> down to \<open>floor\<close>; \<open>None\<close> if there is none.\<close>

function find_ancestor ::
  "store \<Rightarrow> 'w env \<Rightarrow> int \<Rightarrow> int \<Rightarrow> ('w sys, index_error, (int \<times> string) option) call" where
  "find_ancestor s env floor h =
    (if h < floor then sret (Inr None)
     else sbind (store_read s env (\<lambda>d. CanonicalBlockHash d h)) (\<lambda>localHash.
      case localHash of
        None \<Rightarrow> sret (Inl ErrLocalChainGap)
      | Some lh \<Rightarrow>
        sbind (hash_at env h) (\<lambda>coreHash.
        if lh = coreHash then sret (Inr (Some (h, lh)))
        else find_ancestor s env floor (h - 1))))"
  by auto
termination
  by (relation "measure (\<lambda>(s, env, floor, h). nat (h - floor + 1))") auto

declare find_ancestor.simps [simp del]

definition reorg :: "store \<Rightarrow> 'w env \<Rightarrow> checkpoint \<Rightarrow> int \<Rightarrow> ('w sys, index_error, unit) call" where
  "reorg s env local remoteHeight =
    (let searchTop = (if remoteHeight < fst local then remoteHeight else fst local);
         floor = (if fst local - MaxAutomaticReorgDepth < 0 then 0
                  else fst local - MaxAutomaticReorgDepth)
     in if MaxAutomaticReorgDepth < fst local - searchTop then sret (Inl ErrReorgTooDeep)
     else sbind (find_ancestor s env floor searchTop) (\<lambda>found.
     case found of
       None \<Rightarrow> sret (Inl ErrReorgTooDeep)
     | Some (ancestorHeight, ancestorHash) \<Rightarrow>
       sbind (hash_at env ancestorHeight) (\<lambda>recheck.
       if recheck \<noteq> ancestorHash then sret (Inl ErrRemoteChainMoved)
       else sbind (store_read s env Tip) (\<lambda>currentLocal.
       if fst currentLocal \<noteq> fst local \<or> cp_Hash currentLocal \<noteq> cp_Hash local
       then sret (Inl ErrRemoteChainMoved)
       else sbind (store_write s env (Rollback ancestorHash)) (\<lambda>_.
       sbind (store_read s env Tip) (\<lambda>newTip.
       sret (if fst newTip \<noteq> ancestorHeight \<or> cp_Hash newTip \<noteq> ancestorHash
             then Inl WrongTipAfterRollback else Inr ())))))))"

definition reconcile :: "store \<Rightarrow> 'w env \<Rightarrow> ('w sys, index_error, unit) call" where
  "reconcile s env =
    sbind (store_read s env Tip) (\<lambda>local.
    if fst local < 0 then sret (Inr ())
    else sbind (getBlockCount env) (\<lambda>remoteHeight.
    if fst local \<le> remoteHeight then
      sbind (hash_at env (fst local)) (\<lambda>coreHash.
      if coreHash = cp_Hash local then sret (Inr ()) else reorg s env local remoteHeight)
    else reorg s env local remoteHeight))"

section \<open>indexer.go\<close>

definition ctx_check :: "'w env \<Rightarrow> ('w sys, index_error, unit) call" where
  "ctx_check env = (\<lambda>(d, w). case CtxErr env w of
     (Some e, w') \<Rightarrow> (Inl (Outside e), (d, w')) | (None, w') \<Rightarrow> (Inr (), (d, w')))"

definition confirmCaughtUp :: "'w env \<Rightarrow> checkpoint \<Rightarrow> ('w sys, index_error, bool) call" where
  "confirmCaughtUp env local =
    sbind (hash_at env (fst local)) (\<lambda>currentHash. sret (Inr (currentHash = cp_Hash local)))"

text \<open>Heights \<open>h\<close> to \<open>to\<close>; the result says whether the remote chain moved.\<close>

function applyRange :: "store \<Rightarrow> 'w env \<Rightarrow> int \<Rightarrow> int \<Rightarrow> ('w sys, index_error, bool) call" where
  "applyRange s env h to =
    (if to < h then sret (Inr False)
     else sbind (ctx_check env) (\<lambda>_ x.
      case applyHeight s env h x of
        (Inl e, y) \<Rightarrow> if e = ErrRemoteChainMoved then (Inr True, y) else (Inl e, y)
      | (Inr _, y) \<Rightarrow> applyRange s env (h + 1) to y))"
  by auto
termination
  by (relation "measure (\<lambda>(s, env, h, to). nat (to - h + 1))") auto

declare applyRange.simps [simp del]

text \<open>One pass of the loop of \<open>syncToTipLocked\<close>: whether it returns (\<open>True\<close>) or continues.\<close>

definition moved_continues :: "('w sys, index_error, bool) call \<Rightarrow> ('w sys, index_error, bool) call" where
  "moved_continues m = (\<lambda>x. case m x of
     (Inl e, y) \<Rightarrow> if e = ErrRemoteChainMoved then (Inr False, y) else (Inl e, y)
   | (Inr r, y) \<Rightarrow> (Inr r, y))"

definition forward :: "store \<Rightarrow> 'w env \<Rightarrow> ('w sys, index_error, bool) call" where
  "forward s env =
    sbind (store_read s env Tip) (\<lambda>local.
    sbind (getBlockCount env) (\<lambda>target.
    if target < fst local then sret (Inr False)
    else if fst local = target then moved_continues (confirmCaughtUp env local)
    else sbind (applyRange s env (fst local + 1) target) (\<lambda>chainMoved. sret (Inr False))))"

definition sync_pass :: "store \<Rightarrow> 'w env \<Rightarrow> ('w sys, index_error, bool) call" where
  "sync_pass s env =
    sbind (ctx_check env) (\<lambda>_ x.
    case reconcile s env x of
      (Inl e, y) \<Rightarrow> if e = ErrRemoteChainMoved then (Inr False, y) else (Inl e, y)
    | (Inr _, y) \<Rightarrow> forward s env y)"

text \<open>The loop has no bound of its own: \<open>None\<close> is a run that never returns.\<close>

partial_function (option) syncToTipLocked ::
  "store \<Rightarrow> 'w env \<Rightarrow> 'w sys \<Rightarrow> ((index_error + unit) \<times> 'w sys) option" where
  "syncToTipLocked s env x =
    (case sync_pass s env x of
       (Inl e, y) \<Rightarrow> Some (Inl e, y)
     | (Inr finished, y) \<Rightarrow> if finished then Some (Inr (), y) else syncToTipLocked s env y)"

text \<open>\<open>busy\<close>: another pass holds \<open>syncMu\<close>.\<close>

definition SyncToTip ::
  "store \<Rightarrow> 'w env \<Rightarrow> bool \<Rightarrow> 'w sys \<Rightarrow> ((index_error + unit) \<times> 'w sys) option" where
  "SyncToTip s env busy x =
    (if busy then Some (Inl ErrSyncInProgress, x) else syncToTipLocked s env x)"

text \<open>\<open>errors.Is(err, context.Canceled) || errors.Is(err, context.DeadlineExceeded)\<close>\<close>

definition is_cancellation :: "'w env \<Rightarrow> index_error \<Rightarrow> bool" where
  "is_cancellation env e = (case e of
     Outside t \<Rightarrow> Canceled env t | DecodeFailed (ResolverError t) \<Rightarrow> Canceled env t | _ \<Rightarrow> False)"

partial_function (option) Run ::
  "store \<Rightarrow> 'w env \<Rightarrow> 'w sys \<Rightarrow> ((index_error + unit) \<times> 'w sys) option" where
  "Run s env x =
    (case ctx_check env x of
       (Inl _, y) \<Rightarrow> Some (Inr (), y)
     | (Inr _, y) \<Rightarrow>
       Option.bind (SyncToTip s env False y) (\<lambda>(r, z).
       case r of
         Inl e \<Rightarrow> Some (if is_cancellation env e then Inr () else Inl e, z)
       | Inr _ \<Rightarrow>
         (case ctx_check env z of
            (Inl _, u) \<Rightarrow> Some (Inr (), u)
          | (Inr _, u) \<Rightarrow> Run s env u)))"

end
