(* ===== verification/IndexerSafety.thy ===== *)
theory IndexerSafety
  imports Indexer
begin

text \<open>
  What every call of the indexer guarantees, whatever Core answers and whatever other writers do:
  the database moves only by operations of the store, the internal signal \<open>ErrRemoteChainMoved\<close>
  never leaves a synchronization, and a synchronization that reports success has just seen Core
  name the local tip.
\<close>

declare split_paired_All [simp del] split_paired_Ex [simp del]

section \<open>Calls that keep a relation\<close>

lemma sbind_eq_iff:
  "sbind m f x = (r, y) \<longleftrightarrow> (\<exists>e. m x = (Inl e, y) \<and> r = Inl e) \<or> (\<exists>a z. m x = (Inr a, z) \<and> f a z = (r, y))"
  by (auto simp: sbind_def split: prod.splits sum.splits)

lemma outcome_iff:
  "(case p of (Inl e, y) \<Rightarrow> g e y | (Inr a, y) \<Rightarrow> f a y) = q
    \<longleftrightarrow> (\<exists>e y. p = (Inl e, y) \<and> g e y = q) \<or> (\<exists>a y. p = (Inr a, y) \<and> f a y = q)"
  by (cases p; cases "fst p") auto

text \<open>A relation between states that composes is kept by a sequence of calls that keep it.\<close>

locale call_steps =
  fixes R :: "'s \<Rightarrow> 's \<Rightarrow> bool"
  assumes refl: "R x x" and trans: "R x y \<Longrightarrow> R y z \<Longrightarrow> R x z"
begin

definition steps :: "('s, 'e, 'a) call \<Rightarrow> bool" where
  "steps m \<longleftrightarrow> (\<forall>x r y. m x = (r, y) \<longrightarrow> R x y)"

lemma stepsI: "(\<And>x r y. m x = (r, y) \<Longrightarrow> R x y) \<Longrightarrow> steps m"
  by (simp add: steps_def)

lemma stepsD: "steps m \<Longrightarrow> m x = (r, y) \<Longrightarrow> R x y"
  by (simp add: steps_def)

lemma sret [intro]: "steps (sret r)"
  by (simp add: steps_def sret_def refl)

lemma sbind [intro]: "steps m \<Longrightarrow> (\<And>a. steps (f a)) \<Longrightarrow> steps (sbind m f)"
  by (rule stepsI) (auto simp: sbind_eq_iff dest: stepsD intro: trans)

lemma if_step [intro]: "(c \<Longrightarrow> steps m) \<Longrightarrow> (\<not> c \<Longrightarrow> steps n) \<Longrightarrow> steps (if c then m else n)"
  by simp

lemma option_step [intro]:
  "steps m \<Longrightarrow> (\<And>a. steps (f a)) \<Longrightarrow> steps (case x of None \<Rightarrow> m | Some a \<Rightarrow> f a)"
  by (cases x) auto

lemma pair_step [intro]: "(\<And>a b. steps (f a b)) \<Longrightarrow> steps (case x of (a, b) \<Rightarrow> f a b)"
  by (cases x) auto

text \<open>A call whose outcome is passed on to one of two continuations.\<close>

lemma handler [intro]:
  assumes "steps m" "\<And>e. steps (g e)" "\<And>a. steps (f a)"
  shows "steps (\<lambda>x. case m x of (Inl e, y) \<Rightarrow> g e y | (Inr a, y) \<Rightarrow> f a y)"
proof (rule stepsI)
  fix x r y assume "(case m x of (Inl e, y) \<Rightarrow> g e y | (Inr a, y) \<Rightarrow> f a y) = (r, y)"
  then obtain q z where "m x = (q, z)" "case q of Inl e \<Rightarrow> g e z = (r, y) | Inr a \<Rightarrow> f a z = (r, y)"
    by (cases "m x"; cases "fst (m x)") auto
  moreover from this(1) have "R x z" by (rule stepsD [OF assms(1)])
  moreover have "R z y" using calculation(2) stepsD [OF assms(2)] stepsD [OF assms(3)]
    by (cases q) auto
  ultimately show "R x y" by (blast intro: trans)
qed

end

text \<open>Induction over the passes of a synchronization that returns.\<close>

lemma sync_induct [consumes 1, case_names failed finished again]:
  assumes ret: "syncToTipLocked s env x = Some z"
    and failed: "\<And>x e y. sync_pass s env x = (Inl e, y) \<Longrightarrow> P x (Inl e, y)"
    and finished: "\<And>x y. sync_pass s env x = (Inr True, y) \<Longrightarrow> P x (Inr (), y)"
    and again: "\<And>x y z. sync_pass s env x = (Inr False, y) \<Longrightarrow> P y z \<Longrightarrow> P x z"
  shows "P x z"
proof -
  have "s = s \<longrightarrow> env = env \<longrightarrow> P x z"
  proof (rule syncToTipLocked.raw_induct
      [of "\<lambda>s' env' x z. s' = s \<longrightarrow> env' = env \<longrightarrow> P x z" "((s, env), x)" z, unfolded prod.case, OF _ ret])
    fix f s' env' x z
    assume IH: "\<And>s' env' x z. f s' env' x = Some z \<Longrightarrow> s' = s \<longrightarrow> env' = env \<longrightarrow> P x z"
      and eq: "(case sync_pass s' env' x of (Inl e, y) \<Rightarrow> Some (Inl e, y)
        | (Inr fin, y) \<Rightarrow> if fin then Some (Inr (), y) else f s' env' y) = Some z"
    show "s' = s \<longrightarrow> env' = env \<longrightarrow> P x z"
    proof (intro impI)
      assume p: "s' = s" "env' = env"
      obtain q u where q: "sync_pass s env x = (q, u)" by (cases "sync_pass s env x")
      show "P x z"
      proof (cases q)
        case (Inl e)
        then show ?thesis using eq q p failed [of x e u] by simp
      next
        case (Inr fin)
        show ?thesis
        proof (cases fin)
          case True
          then show ?thesis using eq q p Inr finished [of x u] by simp
        next
          case False
          then have "f s env u = Some z" using eq q p Inr by simp
          then have "P u z" using IH by blast
          then show ?thesis using again [of x u z] q Inr False by simp
        qed
      qed
    qed
  qed
  then show ?thesis by simp
qed

text \<open>The calls of the indexer, over the four that touch the database or the outside.\<close>

locale indexer_steps = call_steps R for R :: "'w sys \<Rightarrow> 'w sys \<Rightarrow> bool" +
  fixes s :: store and env :: "'w env"
  assumes outside: "R (d, w) (d, w')"
    and writers: "R (d, w) (run s ops d, w')"
    and operation: "attempt s op d = Inr e \<Longrightarrow> R (d, w) (e, w')"
begin

lemma remote [intro]: "steps (remote m err)"
  by (rule stepsI) (auto simp: remote_def outside split: prod.splits)

lemma store_read [intro]: "steps (store_read s env q)"
  by (rule stepsI) (auto simp: store_read_def Let_def outside writers split: prod.splits sum.splits)

lemma store_write [intro]: "steps (store_write s env op)"
  by (rule stepsI)
    (auto simp: store_write_def Let_def outside intro: writers trans [OF writers operation]
      split: prod.splits sum.splits)

lemma ctx_check [intro]: "steps (ctx_check env)"
  by (rule stepsI) (auto simp: ctx_check_def outside split: prod.splits option.splits)

lemma getBlockCount [intro]: "steps (getBlockCount env)"
  unfolding getBlockCount_def by (intro sbind remote sret)

lemma classify:
  assumes "classifyHashUnavailable env h e x = (e', y)" shows "R x y"
  using assms stepsD [OF getBlockCount]
  by (auto simp: classifyHashUnavailable_def split: prod.splits sum.splits if_splits)

lemma hash_at [intro]: "steps (hash_at env h)"
proof (rule stepsI)
  fix x r y assume "hash_at env h x = (r, y)"
  then show "R x y"
    using stepsD [OF remote, of "rpcGetBlockHash env h" Outside x]
    by (auto simp: hash_at_def split: prod.splits sum.splits dest!: classify intro: trans)
qed

lemma diagnose [intro]: "steps (diagnoseNonSequential s env h b)"
  unfolding diagnoseNonSequential_def
  by (intro sbind hash_at store_read if_step sret)

lemma applyHeight [intro]: "steps (applyHeight s env h)"
proof -
  have "steps (apply_or_diagnose s env h b)" for b
    unfolding apply_or_diagnose_def
  proof (rule handler [OF store_write])
    show "steps (\<lambda>y. if e = StoreFailed ErrNonSequentialBlock
      then diagnoseNonSequential s env h b y else (Inl e, y))" for e
      using stepsD [OF diagnose] by (auto intro!: stepsI simp: refl split: if_splits)
    show "steps (\<lambda>y. (Inr (), y))" by (rule stepsI) (simp add: refl)
  qed
  then show ?thesis unfolding applyHeight_def by (intro sbind hash_at remote if_step sret)
qed

lemma find_ancestor [intro]: "steps (find_ancestor s env floor h)"
proof (induction "nat (h - floor + 1)" arbitrary: h rule: less_induct)
  case less
  show ?case
    by (subst find_ancestor.simps)
      (intro if_step sret sbind store_read option_step hash_at less, simp)
qed

lemma reorg [intro]: "steps (reorg s env local rh)"
  unfolding reorg_def Let_def
  by (intro if_step sbind sret find_ancestor option_step pair_step hash_at store_read store_write)

lemma reconcile [intro]: "steps (reconcile s env)"
  unfolding reconcile_def by (intro if_step sbind sret store_read getBlockCount hash_at reorg)

lemma applyRange [intro]: "steps (applyRange s env h to)"
proof (induction "nat (to - h + 1)" arbitrary: h rule: less_induct)
  case less
  have "steps (\<lambda>x. case applyHeight s env h x of
        (Inl e, y) \<Rightarrow> if e = ErrRemoteChainMoved then (Inr True, y) else (Inl e, y)
      | (Inr _, y) \<Rightarrow> applyRange s env (h + 1) to y)" if "\<not> to < h"
  proof (rule handler [OF applyHeight])
    show "steps (\<lambda>y. if e = ErrRemoteChainMoved then (Inr True, y) else (Inl e, y))" for e
      by (rule stepsI) (auto simp: refl split: if_splits)
    show "steps (applyRange s env (h + 1) to)" by (rule less) (use that in simp)
  qed
  then show ?case by (subst applyRange.simps) (intro if_step sret sbind ctx_check)
qed

lemma forward [intro]: "steps (forward s env)"
proof -
  have "steps (moved_continues (confirmCaughtUp env l))" for l
    unfolding moved_continues_def confirmCaughtUp_def
    by (intro handler sbind hash_at sret; rule stepsI) (auto simp: refl split: if_splits)
  then show ?thesis unfolding forward_def
    by (intro sbind store_read getBlockCount if_step sret applyRange)
qed

lemma sync_pass [intro]: "steps (sync_pass s env)"
  unfolding sync_pass_def
  by (intro sbind ctx_check handler reconcile forward; rule stepsI) (auto simp: refl split: if_splits)

lemma syncToTipLocked:
  assumes "syncToTipLocked s env x = Some (r, y)"
  shows "R x y"
proof -
  have "R x (snd (r, y))"
    using assms
  proof (induction rule: sync_induct)
    case (again x y z)
    then show ?case using stepsD [OF sync_pass] by (blast intro: trans)
  qed (auto dest: stepsD [OF sync_pass])
  then show ?thesis by simp
qed

lemma SyncToTip: "SyncToTip s env busy x = Some (r, y) \<Longrightarrow> R x y"
  by (auto simp: SyncToTip_def refl split: if_splits dest: syncToTipLocked)

end

section \<open>The database moves by operations of the store\<close>

definition advances :: "store \<Rightarrow> 'w sys \<Rightarrow> 'w sys \<Rightarrow> bool" where
  "advances s x y \<longleftrightarrow> (\<exists>ops. fst y = run s ops (fst x))"

interpretation ops: indexer_steps "advances s" s env for s env
proof
  show "advances s x x" for x :: "'w sys" by (auto simp: advances_def intro: exI [of _ "[]"])
  show "advances s x z" if "advances s x y" "advances s y z" for x y z :: "'w sys"
    using that by (auto simp: advances_def simp flip: run_append)
  show "advances s (d, w) (d, w')" for d and w w' :: 'w
    by (auto simp: advances_def intro: exI [of _ "[]"])
  show "advances s (d, w) (run s ops d, w')" for d ops and w w' :: 'w
    by (auto simp: advances_def)
  show "advances s (d, w) (e, w')" if "attempt s op d = Inr e" for op d e and w w' :: 'w
    using that by (auto simp: advances_def run_step_def intro!: exI [of _ "[op]"])
qed

section \<open>The internal signal stays inside\<close>

lemma no_signal [simp]:
  "getBlockCount env x \<noteq> (Inl ErrRemoteChainMoved, y)"
  "store_read s env q x \<noteq> (Inl ErrRemoteChainMoved, y)"
  "ctx_check env x \<noteq> (Inl ErrRemoteChainMoved, y)"
  "moved_continues m x \<noteq> (Inl ErrRemoteChainMoved, y)"
  by (auto simp: getBlockCount_def store_read_def ctx_check_def moved_continues_def remote_def
      sbind_eq_iff sret_def map_err_def Let_def outcome_iff split: if_splits prod.splits sum.splits option.splits)

lemma applyRange_no_signal [simp]: "applyRange s env h to x \<noteq> (Inl ErrRemoteChainMoved, y)"
proof (induction "nat (to - h + 1)" arbitrary: h x rule: less_induct)
  case less
  show ?case
  proof (cases "to < h")
    case False
    have "applyRange s env (h + 1) to z \<noteq> (Inl ErrRemoteChainMoved, y)" for z
      by (rule less) (use False in simp)
    then show ?thesis using False
      by (auto simp: applyRange.simps [of s env h] sbind_eq_iff outcome_iff split: if_splits)
  qed (simp add: applyRange.simps [of s env h] sret_def)
qed

lemma sync_pass_no_signal: "sync_pass s env x \<noteq> (Inl ErrRemoteChainMoved, y)"
  by (auto simp: sync_pass_def forward_def sbind_eq_iff sret_def outcome_iff split: if_splits)

text \<open>What a synchronization that returns ended with: the outcome of a last pass.\<close>

lemma syncToTipLocked_last:
  assumes "syncToTipLocked s env x = Some (r, y)"
  obtains u where "sync_pass s env u = (case r of Inl e \<Rightarrow> Inl e | Inr _ \<Rightarrow> Inr True, y)"
proof -
  have "\<exists>u. sync_pass s env u
    = (case fst (r, y) of Inl e \<Rightarrow> Inl e | Inr _ \<Rightarrow> Inr True, snd (r, y))"
    using assms by (induction rule: sync_induct) auto
  then show thesis using that by auto
qed

text \<open>
  C38 \<open>ErrRemoteChainMoved\<close> is internal: no synchronization returns it, as the comments of
  \<open>errors.go\<close> promise. Races with Core are retried, never reported.
\<close>

theorem chain_moved_never_escapes:
  "SyncToTip s env busy x \<noteq> Some (Inl ErrRemoteChainMoved, y)"
proof
  assume "SyncToTip s env busy x = Some (Inl ErrRemoteChainMoved, y)"
  then have "syncToTipLocked s env x = Some (Inl ErrRemoteChainMoved, y)"
    by (simp add: SyncToTip_def split: if_splits)
  then obtain u where "sync_pass s env u = (Inl ErrRemoteChainMoved, y)"
    by (rule syncToTipLocked_last) simp
  then show False using sync_pass_no_signal by blast
qed

section \<open>Success means caught up\<close>

text \<open>What a successful call of the outside or read of the store says.\<close>

lemma call_Inr:
  "store_read s env q (d, w) = (Inr a, (e, w')) \<longleftrightarrow>
    (\<exists>ops. Writers env w = (Inr ops, w') \<and> e = run s ops d \<and> a = q e)"
  "getBlockCount env (d, w) = (Inr n, (e, w')) \<longleftrightarrow> rpcGetBlockCount env w = (Inr n, w') \<and> 0 \<le> n \<and> e = d"
  "hash_at env h (d, w) = (Inr x, (e, w')) \<longleftrightarrow> rpcGetBlockHash env h w = (Inr x, w') \<and> e = d"
proof -
  show "store_read s env q (d, w) = (Inr a, (e, w')) \<longleftrightarrow>
    (\<exists>ops. Writers env w = (Inr ops, w') \<and> e = run s ops d \<and> a = q e)"
    by (auto simp: store_read_def Let_def split: prod.splits sum.splits)
  show "getBlockCount env (d, w) = (Inr n, (e, w')) \<longleftrightarrow> rpcGetBlockCount env w = (Inr n, w') \<and> 0 \<le> n \<and> e = d"
    by (cases "rpcGetBlockCount env w"; cases "fst (rpcGetBlockCount env w)")
      (auto simp: getBlockCount_def remote_def sbind_def sret_def)
  show "hash_at env h (d, w) = (Inr x, (e, w')) \<longleftrightarrow> rpcGetBlockHash env h w = (Inr x, w') \<and> e = d"
    by (cases "rpcGetBlockHash env h w"; cases "fst (rpcGetBlockHash env h w)")
      (auto simp: hash_at_def remote_def split: prod.splits)
qed

lemma forward_done:
  assumes "forward s env x = (Inr True, (e, w'))"
  obtains w1 w2 where "rpcGetBlockCount env w1 = (Inr (fst (Tip e)), w2)"
    "rpcGetBlockHash env (fst (Tip e)) w2 = (Inr (cp_Hash (Tip e)), w')"
proof -
  obtain d w where x: "x = (d, w)" by force
  obtain local z where l: "store_read s env Tip (d, w) = (Inr local, z)"
    and z: "(sbind (getBlockCount env) (\<lambda>target.
      if target < fst local then sret (Inr False)
      else if fst local = target then moved_continues (confirmCaughtUp env local)
      else sbind (applyRange s env (fst local + 1) target) (\<lambda>_. sret (Inr False)))) z = (Inr True, (e, w'))"
    using assms by (auto simp: forward_def x sbind_eq_iff)
  obtain d1 w1 where z1: "z = (d1, w1)" by force
  have t: "local = Tip d1" using l by (auto simp: z1 call_Inr)
  obtain u where c: "getBlockCount env (d1, w1) = (Inr (fst local), u)"
    and m: "moved_continues (confirmCaughtUp env local) u = (Inr True, (e, w'))"
    using z by (auto simp: z1 sbind_eq_iff sret_def split: if_splits)
  obtain d2 w2 where u: "u = (d2, w2)" by force
  have "hash_at env (fst local) (d2, w2) = (Inr (cp_Hash local), (e, w'))"
    using m by (auto simp: u moved_continues_def confirmCaughtUp_def sbind_eq_iff sret_def outcome_iff
        split: if_splits)
  then show thesis using that c by (auto simp: u t call_Inr)
qed

text \<open>
  C11 Success is not a stale snapshot: when a synchronization returns without error, the last two
  calls to Core, made after the local tip was read, reported a block count equal to the tip's height
  and a hash at that height equal to the tip's hash.
\<close>

theorem SyncToTip_success_caught_up:
  assumes "SyncToTip s env busy x = Some (Inr (), (e, w'))"
  shows "\<exists>w1 w2. rpcGetBlockCount env w1 = (Inr (fst (Tip e)), w2)
    \<and> rpcGetBlockHash env (fst (Tip e)) w2 = (Inr (cp_Hash (Tip e)), w')"
proof -
  have "syncToTipLocked s env x = Some (Inr (), (e, w'))"
    using assms by (simp add: SyncToTip_def split: if_splits)
  then obtain u where "sync_pass s env u = (Inr True, (e, w'))" by (rule syncToTipLocked_last) simp
  then obtain v where "forward s env v = (Inr True, (e, w'))"
    by (auto simp: sync_pass_def sbind_eq_iff outcome_iff split: if_splits)
  then show ?thesis by (rule forward_done) blast
qed

section \<open>The block that is applied is current\<close>

lemma remote_Inr: "remote m err (d, w) = (Inr a, (e, w')) \<longleftrightarrow> m w = (Inr a, w') \<and> e = d"
  by (cases "m w") (auto simp: remote_def map_err_eq_Inr_iff)

text \<open>
  C12 The two hash reads of \<open>applyHeight\<close>: when it succeeds, exactly one block was applied to the
  database as other writers left it; the block is for the requested height, and Core named its hash
  at that height before it was fetched and again in the last call before it was applied.
\<close>

theorem applyHeight_applies_current_block:
  assumes "applyHeight s env h (d, w) = (Inr (), (e, w'))"
  shows "\<exists>b ops w1 w2 w3. blk_Height b = h
    \<and> rpcGetBlockHash env h w = (Inr (blk_Hash b), w1)
    \<and> rpcGetBlockHash env h w2 = (Inr (blk_Hash b), w3)
    \<and> Writers env w3 = (Inr ops, w') \<and> ApplyBlock s b (run s ops d) = Inr e"
proof -
  have nd: "diagnoseNonSequential s env h b x \<noteq> (Inr u, y)" for b x u y
    by (simp add: diagnoseNonSequential_def sbind_eq_iff sret_def split: if_splits)
  obtain h1 d1 w1 where h1: "hash_at env h (d, w) = (Inr h1, (d1, w1))"
    and r1: "(sbind (remote (rpcGetBlockVerbose2 env h1) Outside) (\<lambda>raw.
    sbind (remote (DecodeBlock (Resolver env) raw) DecodeFailed) (\<lambda>block.
    if blk_Height block \<noteq> h then sret (Inl DecodedHeightMismatch)
    else if blk_Hash block \<noteq> h1 then sret (Inl DecodedHashMismatch)
    else sbind (hash_at env h) (\<lambda>hash2.
    if hash2 \<noteq> h1 then sret (Inl ErrRemoteChainMoved)
    else apply_or_diagnose s env h block)))) (d1, w1) = (Inr (), (e, w'))"
    using assms unfolding applyHeight_def by (auto simp: sbind_eq_iff)
  have d1: "d1 = d" "rpcGetBlockHash env h w = (Inr h1, w1)" using h1 by (simp_all add: call_Inr)
  obtain b w2 where b: "blk_Height b = h" "blk_Hash b = h1"
    and r2: "sbind (hash_at env h) (\<lambda>hash2. if hash2 \<noteq> h1 then sret (Inl ErrRemoteChainMoved)
      else apply_or_diagnose s env h b) (d, w2) = (Inr (), (e, w'))"
    using r1 d1(1) by (auto simp: sbind_eq_iff [of "remote _ _"] remote_Inr sret_def split: if_splits)
  obtain w3 where h2: "rpcGetBlockHash env h w2 = (Inr h1, w3)"
    and r3: "apply_or_diagnose s env h b (d, w3) = (Inr (), (e, w'))"
    using r2 by (auto simp: sbind_eq_iff call_Inr sret_def split: if_splits)
  have "store_write s env (Apply b) (d, w3) = (Inr (), (e, w'))"
    using r3 nd by (auto simp: apply_or_diagnose_def outcome_iff split: if_splits)
  then obtain ops where "Writers env w3 = (Inr ops, w')" "ApplyBlock s b (run s ops d) = Inr e"
    by (auto simp: store_write_def attempt_def Let_def split: prod.splits sum.splits)
  with b d1(2) h2 show ?thesis by metis
qed

end
