(* ===== verification/IndexerSync.thy ===== *)
theory IndexerSync
  imports IndexerSafety
begin

text \<open>
  What the indexer does when Core stays on one chain: the ancestor search finds the highest common
  block within the depth policy, and a synchronization returns after rolling back to it and applying
  Core's blocks in order.
\<close>

declare split_paired_All [simp del] split_paired_Ex [simp del]

section \<open>A quiet outside\<close>

text \<open>
  Core reports the hashes \<open>c\<close> and the blocks \<open>blk\<close> up to the height \<open>ct\<close>, at every call; the
  blocks decode; no other writer is active and the context is not cancelled.
\<close>

definition follows :: "'w env \<Rightarrow> (int \<Rightarrow> string) \<Rightarrow> (int \<Rightarrow> block) \<Rightarrow> int \<Rightarrow> bool" where
  "follows env c blk ct \<longleftrightarrow> 0 \<le> ct
    \<and> (\<forall>w. fst (rpcGetBlockCount env w) = Inr ct
        \<and> fst (Writers env w) = Inr [] \<and> fst (CtxErr env w) = None)
    \<and> (\<forall>h \<in> {0..ct}. blk_Height (blk h) = h \<and> blk_Hash (blk h) = c h
        \<and> (\<forall>w. fst (rpcGetBlockHash env h w) = Inr (c h)
            \<and> (\<exists>raw. fst (rpcGetBlockVerbose2 env (c h) w) = Inr raw
                \<and> (\<forall>w'. fst (DecodeBlock (Resolver env) raw w') = Inr (blk h)))))"

text \<open>The call \<open>m\<close> is, from the database \<open>d\<close>, a function of the database alone.\<close>

definition returns :: "('w sys, 'e, 'a) call \<Rightarrow> db \<Rightarrow> 'e + 'a \<Rightarrow> db \<Rightarrow> bool" where
  "returns m d r e \<longleftrightarrow> (\<forall>w. \<exists>w'. m (d, w) = (r, (e, w')))"

lemma returns_sret: "returns (sret r) d r d"
  by (simp add: returns_def sret_def)

lemma returns_sbind:
  "returns m d (Inr a) e \<Longrightarrow> returns (f a) e r g \<Longrightarrow> returns (sbind m f) d r g"
  unfolding returns_def sbind_eq_iff by blast

lemma returns_outcome:
  "returns m d (Inr a) e \<Longrightarrow> returns (f a) e r g \<Longrightarrow>
    returns (\<lambda>x. case m x of (Inl err, y) \<Rightarrow> h err y | (Inr a, y) \<Rightarrow> f a y) d r g"
  unfolding returns_def outcome_iff by blast

lemma read_returns:
  assumes f: "follows env c blk ct"
  shows "returns (store_read s env q) d (Inr (q d)) d"
proof -
  have "fst (Writers env w) = Inr []" for w using f by (simp add: follows_def)
  then show ?thesis unfolding returns_def call_Inr
    by (metis prod.collapse run.simps(1))
qed

lemma write_returns:
  assumes f: "follows env c blk ct" and "attempt s op d = Inr e"
  shows "returns (store_write s env op) d (Inr ()) e"
  unfolding returns_def
proof
  fix w
  have "fst (Writers env w) = Inr []" using f by (simp add: follows_def)
  then show "\<exists>w'. store_write s env op (d, w) = (Inr (), (e, w'))"
    using assms(2) by (cases "Writers env w") (simp add: store_write_def)
qed

lemma count_returns:
  assumes f: "follows env c blk ct"
  shows "returns (getBlockCount env) d (Inr ct) d"
proof -
  have "fst (rpcGetBlockCount env w) = Inr ct" "0 \<le> ct" for w using f by (simp_all add: follows_def)
  then show ?thesis unfolding returns_def call_Inr by (metis prod.collapse)
qed

lemma hash_returns:
  assumes f: "follows env c blk ct" and h: "0 \<le> h" "h \<le> ct"
  shows "returns (hash_at env h) d (Inr (c h)) d"
proof -
  have "fst (rpcGetBlockHash env h w) = Inr (c h)" for w using f h by (simp add: follows_def)
  then show ?thesis unfolding returns_def call_Inr by (metis prod.collapse)
qed

lemma ctx_returns:
  assumes f: "follows env c blk ct"
  shows "returns (ctx_check env) d (Inr ()) d"
  unfolding returns_def
proof
  fix w
  have "fst (CtxErr env w) = None" using f by (simp add: follows_def)
  then show "\<exists>w'. ctx_check env (d, w) = (Inr (), (d, w'))"
    by (cases "CtxErr env w") (simp add: ctx_check_def)
qed

section \<open>Applying Core's blocks\<close>

lemma applyHeight_returns:
  assumes f: "follows env c blk ct" and h: "0 \<le> h" "h \<le> ct" and a: "ApplyBlock s (blk h) d = Inr e"
  shows "returns (applyHeight s env h) d (Inr ()) e"
  unfolding returns_def
proof
  fix w
  have b: "blk_Height (blk h) = h" "blk_Hash (blk h) = c h" using f h by (simp_all add: follows_def)
  obtain w1 where h1: "hash_at env h (d, w) = (Inr (c h), (d, w1))"
    using hash_returns [OF f h] by (auto simp: returns_def)
  obtain raw where raw: "fst (rpcGetBlockVerbose2 env (c h) w1) = Inr raw"
      "\<And>w'. fst (DecodeBlock (Resolver env) raw w') = Inr (blk h)"
    using f h unfolding follows_def by (metis atLeastAtMost_iff)
  obtain w2 where r: "remote (rpcGetBlockVerbose2 env (c h)) Outside (d, w1) = (Inr raw, (d, w2))"
    using raw(1) by (cases "rpcGetBlockVerbose2 env (c h) w1") (auto simp: remote_def)
  obtain w3 where D: "remote (DecodeBlock (Resolver env) raw) DecodeFailed (d, w2) = (Inr (blk h), (d, w3))"
    using raw(2) [of w2] by (cases "DecodeBlock (Resolver env) raw w2") (auto simp: remote_def)
  obtain w4 where h2: "hash_at env h (d, w3) = (Inr (c h), (d, w4))"
    using hash_returns [OF f h] by (auto simp: returns_def)
  have "returns (store_write s env (Apply (blk h))) d (Inr ()) e"
    by (rule write_returns [OF f]) (simp add: attempt_def a)
  then obtain w5 where "store_write s env (Apply (blk h)) (d, w4) = (Inr (), (e, w5))"
    unfolding returns_def by blast
  then have "applyHeight s env h (d, w) = (Inr (), (e, w5))"
    by (simp add: applyHeight_def apply_or_diagnose_def sbind_def h1 r D h2 b)
  then show "\<exists>w'. applyHeight s env h (d, w) = (Inr (), (e, w'))" by blast
qed

definition feed :: "store \<Rightarrow> (int \<Rightarrow> block) \<Rightarrow> int \<Rightarrow> int \<Rightarrow> db \<Rightarrow> store_error + db" where
  "feed s blk h0 ct = fold_res (\<lambda>h. ApplyBlock s (blk h)) [h0..ct]"

lemma applyRange_returns:
  assumes f: "follows env c blk ct" and "0 \<le> h" "feed s blk h ct d = Inr e"
  shows "returns (applyRange s env h ct) d (Inr False) e"
  using assms(2,3)
proof (induction "nat (ct - h + 1)" arbitrary: h d rule: less_induct)
  case less
  show ?case
  proof (cases "ct < h")
    case True
    then show ?thesis using less.prems
      by (simp add: applyRange.simps [of s env h] returns_sret feed_def)
  next
    case False
    then have "[h..ct] = h # [h + 1..ct]" by (simp add: upto_rec1)
    then obtain d1 where d1: "ApplyBlock s (blk h) d = Inr d1" "feed s blk (h + 1) ct d1 = Inr e"
      using less.prems(2) by (auto simp: result_simps feed_def)
    have rest: "returns (applyRange s env (h + 1) ct) d1 (Inr False) e"
      by (rule less) (use False less.prems(1) d1(2) in simp_all)
    have "returns (\<lambda>x. case applyHeight s env h x of
        (Inl e, y) \<Rightarrow> if e = ErrRemoteChainMoved then (Inr True, y) else (Inl e, y)
      | (Inr _, y) \<Rightarrow> applyRange s env (h + 1) ct y) d (Inr False) e"
      by (rule returns_outcome [OF applyHeight_returns [OF f] rest]) (use False less.prems(1) d1(1) in simp_all)
    then show ?thesis using False
      by (subst applyRange.simps) (simp add: returns_sbind [OF ctx_returns [OF f]])
  qed
qed

section \<open>The ancestor search\<close>

lemma find_ancestor_none:
  assumes f: "follows env c blk ct" and "\<And>j. floor \<le> j \<Longrightarrow> j \<le> h \<Longrightarrow> \<exists>x. CanonicalBlockHash d j = Some x \<and> x \<noteq> c j"
    and "0 \<le> floor" "h \<le> ct"
  shows "returns (find_ancestor s env floor h) d (Inr None) d"
  using assms(2-)
proof (induction "nat (h - floor + 1)" arbitrary: h rule: less_induct)
  case less
  show ?case
  proof (cases "h < floor")
    case True
    then show ?thesis by (simp add: find_ancestor.simps [of s env floor h] returns_sret)
  next
    case False
    obtain x where x: "CanonicalBlockHash d h = Some x" "x \<noteq> c h" using less.prems(1) [of h] False by auto
    have rest: "returns (find_ancestor s env floor (h - 1)) d (Inr None) d"
      by (rule less) (use False less.prems in simp_all)
    show ?thesis using False x less.prems
      by (subst find_ancestor.simps)
        (auto intro!: returns_sbind [OF read_returns [OF f]] returns_sbind [OF hash_returns [OF f]] rest)
  qed
qed

lemma find_ancestor_some:
  assumes f: "follows env c blk ct" and "\<And>j. k < j \<Longrightarrow> j \<le> h \<Longrightarrow> \<exists>x. CanonicalBlockHash d j = Some x \<and> x \<noteq> c j"
    and "CanonicalBlockHash d k = Some (c k)" "0 \<le> floor" "floor \<le> k" "k \<le> h" "h \<le> ct"
  shows "returns (find_ancestor s env floor h) d (Inr (Some (k, c k))) d"
  using assms(2-)
proof (induction "nat (h - floor + 1)" arbitrary: h rule: less_induct)
  case less
  show ?case
  proof (cases "h = k")
    case True
    then show ?thesis using less.prems
      by (subst find_ancestor.simps)
        (auto intro!: returns_sbind [OF read_returns [OF f]] returns_sbind [OF hash_returns [OF f]] returns_sret)
  next
    case False
    obtain x where x: "CanonicalBlockHash d h = Some x" "x \<noteq> c h"
      using less.prems(1) [of h] less.prems(5) False by auto
    have rest: "returns (find_ancestor s env floor (h - 1)) d (Inr (Some (k, c k))) d"
      by (rule less) (use False less.prems in simp_all)
    show ?thesis using False x less.prems
      by (subst find_ancestor.simps)
        (auto intro!: returns_sbind [OF read_returns [OF f]] returns_sbind [OF hash_returns [OF f]] rest)
  qed
qed

section \<open>Reorganization\<close>

lemma canonical_heights:
  assumes "anchored d" "CanonicalBlockHash d 0 \<noteq> None"
  shows "CanonicalBlockHash d k \<noteq> None \<longleftrightarrow> 0 \<le> k \<and> k \<le> fst (Tip d)"
    "CanonicalBlockHash d (fst (Tip d)) = Some (cp_Hash (Tip d))"
    "snd (Tip d) = Some (cp_Hash (Tip d))" "0 \<le> fst (Tip d)"
proof -
  have w: "twf (blocks d)" and inv: "chain_inv d" using assms(1) by (auto simp: anchored_def chain_inv_def)
  have "snd (sync_state d) \<noteq> None"
  proof
    assume "snd (sync_state d) = None"
    then have "\<not> canonical d k r" for k r using inv by (simp add: chain_inv_def)
    then have "CanonicalBlockHash d 0 = None"
      using in_set_tget [OF w]
      by (fastforce simp: CanonicalBlockHash_def find_None_iff canonical_def)
    with assms(2) show False by simp
  qed
  then obtain tip where tip: "snd (sync_state d) = Some tip" by blast
  then obtain base where path: "chain_path d base (fst (sync_state d)) tip"
    using inv by (auto simp: chain_inv_def)
  note cbh = CanonicalBlockHash_Some [OF path w] and p = chain_pathD [OF path]
  obtain g where "CanonicalBlockHash d 0 = Some g" using assms(2) by blast
  then obtain r0 where "canonical d g r0" "b_height r0 = 0" using cbh [of 0 g] by blast
  then have "base = 0" using p(1) p(6) [of g r0] by simp
  then show "CanonicalBlockHash d k \<noteq> None \<longleftrightarrow> 0 \<le> k \<and> k \<le> fst (Tip d)"
    using cbh [of k] chain_path_full [OF path, of k] p(6,7) unfolding Tip_def by blast
  show "snd (Tip d) = Some (cp_Hash (Tip d))" using tip by (simp add: Tip_def cp_Hash_def)
  then show "CanonicalBlockHash d (fst (Tip d)) = Some (cp_Hash (Tip d))"
    using cbh p(4) tip unfolding Tip_def by simp
  show "0 \<le> fst (Tip d)" using p(1,2) by (simp add: Tip_def)
qed

text \<open>\<open>k\<close> is the highest height at which the local chain and Core's chain have the same block.\<close>

definition fork_point :: "db \<Rightarrow> (int \<Rightarrow> string) \<Rightarrow> int \<Rightarrow> int \<Rightarrow> bool" where
  "fork_point d c ct k \<longleftrightarrow> 0 \<le> k \<and> k \<le> ct \<and> CanonicalBlockHash d k = Some (c k)
    \<and> (\<forall>j. k < j \<longrightarrow> j \<le> ct \<longrightarrow> CanonicalBlockHash d j \<noteq> Some (c j))"

lemma reconcile_empty:
  assumes "follows env c blk ct" "fst (Tip d) < 0"
  shows "returns (reconcile s env) d (Inr ()) d"
  unfolding reconcile_def
  by (rule returns_sbind [OF read_returns [OF assms(1)]]) (simp add: assms(2) returns_sret)

lemma reconcile_unforked:
  assumes f: "follows env c blk ct" and t: "0 \<le> fst (Tip d)" "fst (Tip d) \<le> ct" "cp_Hash (Tip d) = c (fst (Tip d))"
  shows "returns (reconcile s env) d (Inr ()) d"
  unfolding reconcile_def
  by (rule returns_sbind [OF read_returns [OF f]])
    (use t in \<open>auto intro!: returns_sbind [OF count_returns [OF f]] returns_sbind [OF hash_returns [OF f]] returns_sret\<close>)

lemma reconcile_forked:
  assumes f: "follows env c blk ct" and t: "0 \<le> fst (Tip d)"
    "\<not> (fst (Tip d) \<le> ct \<and> cp_Hash (Tip d) = c (fst (Tip d)))"
    and r: "returns (reorg s env (Tip d) ct) d r e"
  shows "returns (reconcile s env) d r e"
  unfolding reconcile_def
proof (rule returns_sbind [OF read_returns [OF f]])
  show "returns (if fst (Tip d) < 0 then sret (Inr ())
    else sbind (getBlockCount env) (\<lambda>remoteHeight. if fst (Tip d) \<le> remoteHeight then
      sbind (hash_at env (fst (Tip d))) (\<lambda>coreHash. if coreHash = cp_Hash (Tip d) then sret (Inr ())
        else reorg s env (Tip d) remoteHeight)
      else reorg s env (Tip d) remoteHeight)) d r e"
    using t r by (auto intro!: returns_sbind [OF count_returns [OF f]] returns_sbind [OF hash_returns [OF f]])
qed

lemma reorg_too_deep:
  assumes f: "follows env c blk ct" and a: "anchored d" "CanonicalBlockHash d 0 \<noteq> None"
    and no: "\<And>k. fst (Tip d) - MaxAutomaticReorgDepth \<le> k \<Longrightarrow> 0 \<le> k \<Longrightarrow> k \<le> ct \<Longrightarrow>
      CanonicalBlockHash d k \<noteq> Some (c k)"
  shows "returns (reorg s env (Tip d) ct) d (Inl ErrReorgTooDeep) d"
proof -
  let ?h = "fst (Tip d)"
  define st fl where "st = (if ct < ?h then ct else ?h)"
    and "fl = (if ?h - MaxAutomaticReorgDepth < 0 then 0 else ?h - MaxAutomaticReorgDepth)"
  note can = canonical_heights [OF a]
  have "returns (find_ancestor s env fl st) d (Inr None) d"
  proof (rule find_ancestor_none [OF f])
    fix j assume j: "fl \<le> j" "j \<le> st"
    then have "0 \<le> j" "?h - MaxAutomaticReorgDepth \<le> j" "j \<le> ct" "j \<le> ?h"
      by (auto simp: fl_def st_def split: if_splits)
    then show "\<exists>x. CanonicalBlockHash d j = Some x \<and> x \<noteq> c j" using no [of j] can(1) [of j] by auto
  qed (auto simp: fl_def st_def)
  then show ?thesis unfolding reorg_def Let_def st_def [symmetric] fl_def [symmetric]
    by (auto intro!: returns_sbind returns_sret)
qed

lemma reorg_to_fork:
  assumes f: "follows env c blk ct" and a: "anchored d" "CanonicalBlockHash d 0 \<noteq> None"
    and k: "fork_point d c ct k" "fst (Tip d) - MaxAutomaticReorgDepth \<le> k"
    and rb: "RollbackTo s (c k) d = Inr e"
  shows "returns (reorg s env (Tip d) ct) d (Inr ()) e" "Tip e = (k, Some (c k))"
proof -
  let ?h = "fst (Tip d)"
  define st fl where "st = (if ct < ?h then ct else ?h)"
    and "fl = (if ?h - MaxAutomaticReorgDepth < 0 then 0 else ?h - MaxAutomaticReorgDepth)"
  note can = canonical_heights [OF a]
  have k': "0 \<le> k" "k \<le> ct" "k \<le> ?h" "CanonicalBlockHash d k = Some (c k)"
    using k(1) can(1) [of k] by (auto simp: fork_point_def)
  have near: "\<not> MaxAutomaticReorgDepth < ?h - st" using k(2) k' by (auto simp: st_def)
  have find: "returns (find_ancestor s env fl st) d (Inr (Some (k, c k))) d"
  proof (rule find_ancestor_some [OF f])
    fix j assume j: "k < j" "j \<le> st"
    then have "0 \<le> j" "j \<le> ct" "j \<le> ?h" using k' by (auto simp: st_def split: if_splits)
    then show "\<exists>x. CanonicalBlockHash d j = Some x \<and> x \<noteq> c j"
      using k(1) j(1) can(1) [of j] by (auto simp: fork_point_def)
  qed (use k' k(2) in \<open>auto simp: fl_def st_def\<close>)
  have w: "twf (blocks d)" using a(1) by (simp add: anchored_def chain_inv_def)
  obtain q where q: "canonical d (c k) q" "sync_state e = (b_height q, Some (c k))"
    using RollbackTo_chain [OF rb w] by metis
  obtain base tip where path: "chain_path d base ?h tip"
    using a(1) can(3) by (auto simp: anchored_def chain_inv_def Tip_def)
  obtain q' where "canonical d (c k) q'" "b_height q' = k"
    using CanonicalBlockHash_Some [OF path w] k'(4) by blast
  then have "b_height q = k" using q(1) by (simp add: canonical_def)
  then show tip: "Tip e = (k, Some (c k))" using q(2) by (simp add: Tip_def)
  have wr: "returns (store_write s env (Rollback (c k))) d (Inr ()) e"
    by (rule write_returns [OF f]) (simp add: attempt_def rb)
  have "returns (sbind (hash_at env k) (\<lambda>recheck.
       if recheck \<noteq> c k then sret (Inl ErrRemoteChainMoved)
       else sbind (store_read s env Tip) (\<lambda>currentLocal.
       if fst currentLocal \<noteq> fst (Tip d) \<or> cp_Hash currentLocal \<noteq> cp_Hash (Tip d)
       then sret (Inl ErrRemoteChainMoved)
       else sbind (store_write s env (Rollback (c k))) (\<lambda>_.
       sbind (store_read s env Tip) (\<lambda>newTip.
       sret (if fst newTip \<noteq> k \<or> cp_Hash newTip \<noteq> c k
             then Inl WrongTipAfterRollback else Inr ())))))) d (Inr ()) e"
    using tip returns_sret [of "Inr ()" e]
    by (auto intro!: returns_sbind [OF hash_returns [OF f k'(1,2)]] returns_sbind [OF read_returns [OF f]]
        returns_sbind [OF wr] simp: cp_Hash_def)
  then show "returns (reorg s env (Tip d) ct) d (Inr ()) e"
    unfolding reorg_def Let_def st_def [symmetric] fl_def [symmetric]
    using near by (auto intro!: returns_sbind [OF find])
qed

lemma highest_agreement:
  assumes "0 \<le> k" "k \<le> ct" "CanonicalBlockHash d k = Some (c k)"
  shows "\<exists>m \<ge> k. fork_point d c ct m"
proof -
  define A where "A = {j. k \<le> j \<and> j \<le> ct \<and> CanonicalBlockHash d j = Some (c j)}"
  have fin: "finite A" by (rule finite_subset [of _ "{k..ct}"]) (auto simp: A_def)
  define m where "m = Max A"
  have "k \<in> A" using assms by (simp add: A_def)
  then have m: "m \<in> A" unfolding m_def by (intro Max_in [OF fin]) blast
  have top: "j \<le> m" if "j \<in> A" for j unfolding m_def by (rule Max_ge [OF fin that])
  have "CanonicalBlockHash d j \<noteq> Some (c j)" if "m < j" "j \<le> ct" for j
    using top [of j] that m by (auto simp: A_def)
  then show ?thesis using assms(1) m by (intro exI [of _ m]) (auto simp: fork_point_def A_def)
qed

text \<open>
  C7 Reorganization, against a Core that stays on one chain: if the local tip is on Core's chain
  nothing is done; if the highest common block lies at most \<open>MaxAutomaticReorgDepth\<close> below the tip,
  the store is rolled back to exactly that block; and if there is none within that depth, the
  database is left alone and \<open>ErrReorgTooDeep\<close> is returned.
\<close>

theorem reconcile_finds_fork_point:
  assumes "follows env c blk ct" "d = run s ops init_db" "CanonicalBlockHash d 0 \<noteq> None"
  shows "(fork_point d c ct (fst (Tip d)) \<longrightarrow> (\<exists>w'. reconcile s env (d, w) = (Inr (), (d, w'))))
    \<and> (\<forall>k e. fork_point d c ct k \<and> k < fst (Tip d) \<and> fst (Tip d) - MaxAutomaticReorgDepth \<le> k
        \<and> RollbackTo s (c k) d = Inr e \<longrightarrow>
        (\<exists>w'. reconcile s env (d, w) = (Inr (), (e, w'))) \<and> Tip e = (k, Some (c k)))
    \<and> ((\<forall>k. fork_point d c ct k \<longrightarrow> k < fst (Tip d) - MaxAutomaticReorgDepth) \<longrightarrow>
        (\<exists>w'. reconcile s env (d, w) = (Inl ErrReorgTooDeep, (d, w'))))"
proof (intro conjI allI impI)
  have a: "anchored d" using chain.reachable assms(2) by simp
  note can = canonical_heights [OF a assms(3)]
  have off: "\<not> (fst (Tip d) \<le> ct \<and> cp_Hash (Tip d) = c (fst (Tip d)))"
    if "\<And>k. fork_point d c ct k \<Longrightarrow> k < fst (Tip d)"
  proof
    assume "fst (Tip d) \<le> ct \<and> cp_Hash (Tip d) = c (fst (Tip d))"
    then have "\<exists>m \<ge> fst (Tip d). fork_point d c ct m"
      by (intro highest_agreement) (use can(2,4) in auto)
    with that show False by fastforce
  qed
  show "\<exists>w'. reconcile s env (d, w) = (Inr (), (d, w'))" if "fork_point d c ct (fst (Tip d))"
    using reconcile_unforked [OF assms(1), of d s] that can(2,4)
    by (simp add: fork_point_def returns_def)
  show "\<exists>w'. reconcile s env (d, w) = (Inl ErrReorgTooDeep, (d, w'))"
    if far: "\<forall>k. fork_point d c ct k \<longrightarrow> k < fst (Tip d) - MaxAutomaticReorgDepth"
  proof -
    have "CanonicalBlockHash d k \<noteq> Some (c k)"
      if "fst (Tip d) - MaxAutomaticReorgDepth \<le> k" "0 \<le> k" "k \<le> ct" for k
      using highest_agreement [OF that(2,3)] far that(1) by fastforce
    then have "returns (reorg s env (Tip d) ct) d (Inl ErrReorgTooDeep) d"
      by (rule reorg_too_deep [OF assms(1) a assms(3)])
    moreover have "\<not> (fst (Tip d) \<le> ct \<and> cp_Hash (Tip d) = c (fst (Tip d)))"
      by (rule off) (use far in \<open>auto simp: MaxAutomaticReorgDepth_def\<close>)
    ultimately show ?thesis using reconcile_forked [OF assms(1) can(4)] by (simp add: returns_def)
  qed
  fix k e
  assume k: "fork_point d c ct k \<and> k < fst (Tip d) \<and> fst (Tip d) - MaxAutomaticReorgDepth \<le> k
    \<and> RollbackTo s (c k) d = Inr e"
  then have k1: "fork_point d c ct k" "fst (Tip d) - MaxAutomaticReorgDepth \<le> k" "RollbackTo s (c k) d = Inr e"
    by blast+
  note r = reorg_to_fork [OF assms(1) a assms(3) k1]
  have "j < fst (Tip d)" if "fork_point d c ct j" for j
    using that k unfolding fork_point_def by (metis linorder_neqE_linordered_idom order.strict_trans)
  then have "returns (reconcile s env) d (Inr ()) e"
    by (intro reconcile_forked [OF assms(1) can(4) off r(1)])
  then show "\<exists>w'. reconcile s env (d, w) = (Inr (), (e, w'))" by (simp add: returns_def)
  show "Tip e = (k, Some (c k))" by (rule r(2))
qed

section \<open>Catching up\<close>

lemma feed_anchored:
  assumes "feed s blk h0 ct d = Inr e" "anchored d"
  shows "anchored e"
  using assms unfolding feed_def
proof (rule fold_res_invariant [where P = anchored])
  fix x d e assume "anchored d" "ApplyBlock s (blk x) d = Inr e"
  then show "anchored e" using chain.step [of d s "Apply (blk x)" e] by (simp add: attempt_def)
qed

lemma feed_tip:
  assumes f: "follows env c blk ct" and fd: "feed s blk h0 ct d = Inr e" and "anchored d" "h0 \<le> ct"
  shows "Tip e = (ct, Some (c ct))"
proof -
  obtain d1 where d1: "fold_res (\<lambda>h. ApplyBlock s (blk h)) [h0..ct - 1] d = Inr d1"
      "ApplyBlock s (blk ct) d1 = Inr e"
    using fd assms(4) by (auto simp: feed_def upto_rec2 fold_res_append result_simps)
  have "anchored d1"
    using feed_anchored [OF _ assms(3), of s blk h0 "ct - 1" d1] d1(1) by (simp add: feed_def)
  then have "sync_state e = (blk_Height (blk ct), Some (blk_Hash (blk ct)))"
    by (intro ApplyBlock_chain(5) [OF d1(2)]) (simp add: anchored_def chain_inv_def)
  then show ?thesis using f by (simp add: Tip_def follows_def)
qed

lemma sync_pass_returns:
  assumes f: "follows env c blk ct" and r: "returns (reconcile s env) d (Inr ()) d1"
    and fw: "returns (forward s env) d1 q e"
  shows "returns (sync_pass s env) d q e"
  unfolding sync_pass_def
  by (rule returns_sbind [OF ctx_returns [OF f]]) (rule returns_outcome [OF r fw])

lemma forward_done_returns:
  assumes f: "follows env c blk ct" and t: "Tip d = (ct, Some (c ct))"
  shows "returns (forward s env) d (Inr True) d"
proof -
  have "0 \<le> ct" using f by (simp add: follows_def)
  then have "returns (confirmCaughtUp env (Tip d)) d (Inr True) d"
    unfolding confirmCaughtUp_def
    by (intro returns_sbind [OF hash_returns [OF f]]) (use t returns_sret [of "Inr True"] in \<open>simp_all add: cp_Hash_def\<close>)
  then have "returns (moved_continues (confirmCaughtUp env (Tip d))) d (Inr True) d"
    unfolding moved_continues_def
    by (rule returns_outcome) (simp add: returns_def)
  then show ?thesis unfolding forward_def
    by (intro returns_sbind [OF read_returns [OF f]] returns_sbind [OF count_returns [OF f]]) (simp add: t)
qed

lemma forward_applies:
  assumes f: "follows env c blk ct" and t: "- 1 \<le> fst (Tip d)" "fst (Tip d) < ct"
    and fd: "feed s blk (fst (Tip d) + 1) ct d = Inr e"
  shows "returns (forward s env) d (Inr False) e"
proof -
  have "returns (applyRange s env (fst (Tip d) + 1) ct) d (Inr False) e"
    by (rule applyRange_returns [OF f _ fd]) (use t in simp)
  then show ?thesis unfolding forward_def
    by (intro returns_sbind [OF read_returns [OF f]] returns_sbind [OF count_returns [OF f]])
      (use t in \<open>auto intro!: returns_sbind returns_sret\<close>)
qed

lemma sync_follows:
  assumes "follows env c blk ct" "d = run s ops init_db"
    and "fst (Tip d) = - 1 \<and> d1 = d \<or> CanonicalBlockHash d 0 \<noteq> None \<and> fork_point d c ct k
      \<and> (k = fst (Tip d) \<and> d1 = d
         \<or> k < fst (Tip d) \<and> fst (Tip d) - MaxAutomaticReorgDepth \<le> k \<and> RollbackTo s (c k) d = Inr d1)"
    and "feed s blk (fst (Tip d1) + 1) ct d1 = Inr e"
  shows "(\<exists>w'. SyncToTip s env False (d, w) = Some (Inr (), (e, w'))) \<and> Tip e = (ct, Some (c ct))"
proof -
  note f = assms(1)
  have ct: "0 \<le> ct" using f by (simp add: follows_def)
  have a: "anchored d" using chain.reachable assms(2) by simp
  have R: "returns (reconcile s env) d (Inr ()) d1 \<and> anchored d1
    \<and> (fst (Tip d1) = - 1 \<or> Tip d1 = (k, Some (c k)) \<and> 0 \<le> k \<and> k \<le> ct)"
  proof (cases "fst (Tip d) = - 1 \<and> d1 = d")
    case True
    then show ?thesis using reconcile_empty [OF f, of d s] a by simp
  next
    case False
    then have g: "CanonicalBlockHash d 0 \<noteq> None" "fork_point d c ct k"
      and k: "k = fst (Tip d) \<and> d1 = d \<or> k < fst (Tip d)
        \<and> fst (Tip d) - MaxAutomaticReorgDepth \<le> k \<and> RollbackTo s (c k) d = Inr d1"
      using assms(3) by blast+
    note can = canonical_heights [OF a g(1)]
    have k0: "0 \<le> k" "k \<le> ct" "CanonicalBlockHash d k = Some (c k)"
      using g(2) by (simp_all add: fork_point_def)
    from k show ?thesis
    proof (elim disjE conjE)
      assume t: "k = fst (Tip d)" "d1 = d"
      have h: "cp_Hash (Tip d) = c (fst (Tip d))" using can(2) k0(3) unfolding t(1) by simp
      have "Tip d = (k, Some (c k))" using h can(3) unfolding t(1) by (simp add: prod_eq_iff)
      moreover have "returns (reconcile s env) d (Inr ()) d"
        by (rule reconcile_unforked [OF f can(4) _ h]) (use k0(2) t(1) in blast)
      ultimately show ?thesis using t(2) k0 a by blast
    next
      assume t: "k < fst (Tip d)" "fst (Tip d) - MaxAutomaticReorgDepth \<le> k" "RollbackTo s (c k) d = Inr d1"
      note r = reorg_to_fork [OF f a g t(2,3)]
      have "\<not> (fst (Tip d) \<le> ct \<and> cp_Hash (Tip d) = c (fst (Tip d)))"
        using g(2) t(1) can(2) by (auto simp: fork_point_def)
      then have "returns (reconcile s env) d (Inr ()) d1" by (intro reconcile_forked [OF f can(4) _ r(1)])
      moreover have "anchored d1" using chain.step [of d s "Rollback (c k)" d1] a t(3) by (simp add: attempt_def)
      ultimately show ?thesis using r(2) k0 by simp
    qed
  qed
  have done2: "returns (sync_pass s env) e (Inr True) e" if "Tip e = (ct, Some (c ct))"
    by (rule sync_pass_returns [OF f reconcile_unforked [OF f] forward_done_returns [OF f that]])
      (use that ct in \<open>simp_all add: cp_Hash_def\<close>)
  show ?thesis
  proof (cases "fst (Tip d1) < ct")
    case True
    have tip: "Tip e = (ct, Some (c ct))"
      by (rule feed_tip [OF f assms(4)]) (use R True in auto)
    have "returns (forward s env) d1 (Inr False) e"
      by (rule forward_applies [OF f _ True assms(4)]) (use R in auto)
    then have "returns (sync_pass s env) d (Inr False) e" by (intro sync_pass_returns [OF f]) (use R in auto)
    then obtain w1 where p1: "sync_pass s env (d, w) = (Inr False, (e, w1))" unfolding returns_def by blast
    obtain w2 where p2: "sync_pass s env (e, w1) = (Inr True, (e, w2))"
      using done2 [OF tip] unfolding returns_def by blast
    have "SyncToTip s env False (d, w) = Some (Inr (), (e, w2))"
      by (simp add: SyncToTip_def syncToTipLocked.simps [of s env "(d, w)"]
          syncToTipLocked.simps [of s env "(e, w1)"] p1 p2)
    with tip show ?thesis by blast
  next
    case False
    then have tip: "Tip d1 = (ct, Some (c ct))" using R ct by auto
    have e: "e = d1" using assms(4) False by (simp add: feed_def)
    have "returns (sync_pass s env) d (Inr True) d1"
      by (rule sync_pass_returns [OF f _ forward_done_returns [OF f tip]]) (use R in auto)
    then obtain w1 where p1: "sync_pass s env (d, w) = (Inr True, (d1, w1))" unfolding returns_def by blast
    have "SyncToTip s env False (d, w) = Some (Inr (), (e, w1))"
      by (simp add: SyncToTip_def syncToTipLocked.simps [of s env "(d, w)"] p1 e)
    with tip e show ?thesis by blast
  qed
qed

text \<open>
  C6 Progress: if Core stays on one chain, its highest common block with the local chain is within
  the depth policy (or the store is empty), and the store accepts the rollback and Core's blocks,
  then a synchronization returns without error, and the database is the one obtained by rolling back
  to that block and applying Core's blocks above it in order; its tip is Core's.
\<close>

theorem SyncToTip_follows_core:
  assumes "follows env c blk ct" "d = run s ops init_db"
    and "fst (Tip d) = - 1 \<and> d1 = d \<or> CanonicalBlockHash d 0 \<noteq> None \<and> fork_point d c ct k
      \<and> (k = fst (Tip d) \<and> d1 = d
         \<or> k < fst (Tip d) \<and> fst (Tip d) - MaxAutomaticReorgDepth \<le> k \<and> RollbackTo s (c k) d = Inr d1)"
    and "feed s blk (fst (Tip d1) + 1) ct d1 = Inr e"
  shows "(\<exists>w'. SyncToTip s env False (d, w) = Some (Inr (), (e, w'))) \<and> Tip e = (ct, Some (c ct))"
  using assms by (rule sync_follows)

end
