(* ===== verification/IndexerWitness.thy ===== *)
theory IndexerWitness
  imports IndexerSync StoreExample
begin

text \<open>
  A Core node with one block, and a store whose tip is a block that Core abandoned: the witnesses of
  the indexer's properties.
\<close>

definition sy_raw :: raw_block where
  "sy_raw =
    \<lparr>rb_Hash = Some (hx CHR ''0''), rb_Height = Some 0, rb_PreviousBlockHash = None,
     rb_MerkleRoot = Some (hx CHR ''0''), rb_Time = Some 0, rb_Bits = Some ''1e0fffff'',
     rb_Difficulty = Some 0, rb_Nonce = Some 0, rb_Size = Some 100, rb_Weight = Some 400,
     rb_NTx = Some 1, rb_Tx = Some [
       \<lparr>rt_TxID = Some (hx CHR ''a''), rt_Hash = Some (hx CHR ''a''),
        rt_Version = Some 1, rt_Size = Some 100, rt_VSize = Some 100, rt_Weight = Some 400,
        rt_LockTime = Some 0, rt_BlockHash = None,
        rt_Vin = [\<lparr>rv_Coinbase = Some ''01'', rv_TxID = None, rv_Vout = None,
                   rv_ScriptSig = None, rv_Sequence = Some 0, rv_TxInWitness = []\<rparr>],
        rt_Vout = [\<lparr>ro_Value = ''0.00000005'', ro_N = Some 0,
                    ro_ScriptPubKey = Some \<lparr>rs_Hex = Some ''6a'', rs_Address = None\<rparr>\<rparr>]\<rparr>]\<rparr>"

definition sy_b0 :: block where
  "sy_b0 = (ex_block CHR ''0'' 0 [] [ex_coinbase CHR ''a'' [ex_burn 0 5]])\<lparr>blk_Bits := ''1e0fffff''\<rparr>"

definition sy_b1 :: block where
  "sy_b1 = (ex_block CHR ''1'' 1 (hx CHR ''0'') [ex_coinbase CHR ''b'' [ex_burn 0 5]])\<lparr>blk_Bits := ''1e0fffff''\<rparr>"

lemma Classify_return: "Classify [0x6a] = plain_result TypeNullData"
  by (simp add: Classify_def ParseWitnessProgram_def matchP2PKH_def matchP2SH_def matchP2PK_def matchNullData_def
      isPushOnly_def isPushOnly_from.simps [of "[]"])

lemma sy_decode: "DecodeBlock None sy_raw w = (Inr sy_b0, w)"
proof -
  have amt: "DecodeAmount ''0.00000005'' = Inr 5"
    by (subst DecodeAmount_text [of _ "''0''" "''00000005''"])
      (simp_all add: amount_text_def is_digit_def less_eq_char_def read_nat_def digit_val_def max_i64_def)
  have "list_all is_lower_hex (hx CHR ''0'')" "list_all is_lower_hex (hx CHR ''a'')" "length (hx c) = 64" for c
    by (simp_all add: hx_def list_all_iff is_lower_hex_def less_eq_char_def)
  then show ?thesis
    by (simp add: sy_raw_def sy_b0_def ex_block_def ex_coinbase_def ex_burn_def amt Classify_return plain_result_def
        DecodeBlock_def DecodeTransaction_def decodeInput_def decodeOutput_def
        require_def validateHash_def validateBits_def nonneg_field_def decodeGenesisRelation_def
        decodeWitness_def decode_hex_def Let_def uint32_of_def
        guard_def of_option_def is_lower_hex_def less_eq_char_def hex_digit_def sbind_def sret_def)
qed

text \<open>Core's calls do not change its state: it has one block and reports it.\<close>

definition sy_env :: "unit env" where
  "sy_env =
    \<lparr>rpcGetBlockCount = \<lambda>w. (Inr 0, w),
     rpcGetBlockHash = \<lambda>h w. (if h = 0 then Inr (hx CHR ''0'') else Inl ''Block height out of range'', w),
     rpcGetBlockVerbose2 = \<lambda>h w. (if h = hx CHR ''0'' then Inr sy_raw else Inl ''Block not found'', w),
     Resolver = None, Writers = \<lambda>w. (Inr [], w), CtxErr = \<lambda>w. (None, w), Canceled = \<lambda>_. False\<rparr>"

lemma sy_follows: "follows sy_env (\<lambda>_. hx CHR ''0'') (\<lambda>_. sy_b0) 0"
  by (simp add: follows_def sy_env_def sy_decode) (simp add: sy_b0_def ex_block_def)

definition sy_d0 :: db where
  "sy_d0 =
   \<lparr>sync_state = (0, Some (hx CHR ''0'')),
   blocks =
   [(hx CHR ''0'',
   \<lparr>b_height = 0, b_prev = None, b_merkle = hx CHR ''0'',
   b_time = 0, b_bits = ''1e0fffff'', b_difficulty = 0,
   b_nonce = 0, b_size = 100, b_weight = 400, b_tx_count = 1,
   b_canonical = True\<rparr>)],
   transactions =
   [(hx CHR ''a'',
   \<lparr>t_version = 1, t_locktime = 0, t_is_coinbase = True,
   t_fee = None\<rparr>)],
   transaction_variants =
   [(hx CHR ''a'',
   \<lparr>v_txid = hx CHR ''a'', v_size = 100, v_vsize = 100,
   v_weight = 400\<rparr>)],
   block_transactions =
   [((hx CHR ''0'', 0),
   \<lparr>bt_txid = hx CHR ''a'', bt_wtxid = hx CHR ''a''\<rparr>)],
   transaction_inputs =
   [((hx CHR ''a'', 0),
   \<lparr>i_prev = None, i_coinbase = Some [1], i_script_sig = None,
   i_sequence = 0\<rparr>)],
   transaction_input_witness = [],
   transaction_outputs =
   [((hx CHR ''a'', 0),
   \<lparr>o_value = 5, o_script = [106], o_type = TypeNullData,
   o_wver = None, o_wprog = None\<rparr>)],
   output_addresses = [], output_participants = [], utxo_state = [],
   addresses = [],
   block_accounting =
   [(hx CHR ''0'',
   \<lparr>c_subsidy = 10000000000, c_fee = 0, c_coinbase = 5,
   c_unclaimed = 9999999995\<rparr>)],
   block_supply_rollup =
   [(hx CHR ''0'',
   \<lparr>r_excluded = 5, r_cum_subsidy = 10000000000, r_cum_fee = 0,
   r_cum_coinbase = 5, r_cum_unclaimed = 9999999995,
   r_cum_excluded = 5, r_cum_utxo = 0\<rparr>)],
   distribution =
   [(''lt_1'', 0, 0), (''1_10'', 0, 0), (''10_100'', 0, 0),
   (''100_1k'', 0, 0), (''1k_10k'', 0, 0), (''10k_100k'', 0, 0),
   (''100k_1m'', 0, 0), (''gte_1m'', 0, 0)],
   distribution_state = (0, Some (hx CHR ''0''))\<rparr>"

lemma sy_d0_step: "ApplyBlock ex_store sy_b0 init_db = Inr sy_d0"
  by (simp add: eval_store sy_b0_def sy_d0_def cong: rbind_lazy let_weak_cong)

definition sy_d1 :: db where
  "sy_d1 =
   \<lparr>sync_state = (1, Some (hx CHR ''1'')),
   blocks =
   [(hx CHR ''0'',
   \<lparr>b_height = 0, b_prev = None, b_merkle = hx CHR ''0'',
   b_time = 0, b_bits = ''1e0fffff'', b_difficulty = 0,
   b_nonce = 0, b_size = 100, b_weight = 400, b_tx_count = 1,
   b_canonical = True\<rparr>),
   (hx CHR ''1'',
   \<lparr>b_height = 1, b_prev = Some (hx CHR ''0''),
   b_merkle = hx CHR ''1'', b_time = 0, b_bits = ''1e0fffff'',
   b_difficulty = 0, b_nonce = 0, b_size = 100, b_weight = 400,
   b_tx_count = 1, b_canonical = True\<rparr>)],
   transactions =
   [(hx CHR ''a'',
   \<lparr>t_version = 1, t_locktime = 0, t_is_coinbase = True,
   t_fee = None\<rparr>),
   (hx CHR ''b'',
   \<lparr>t_version = 1, t_locktime = 0, t_is_coinbase = True,
   t_fee = None\<rparr>)],
   transaction_variants =
   [(hx CHR ''a'',
   \<lparr>v_txid = hx CHR ''a'', v_size = 100, v_vsize = 100,
   v_weight = 400\<rparr>),
   (hx CHR ''b'',
   \<lparr>v_txid = hx CHR ''b'', v_size = 100, v_vsize = 100,
   v_weight = 400\<rparr>)],
   block_transactions =
   [((hx CHR ''0'', 0),
   \<lparr>bt_txid = hx CHR ''a'', bt_wtxid = hx CHR ''a''\<rparr>),
   ((hx CHR ''1'', 0),
   \<lparr>bt_txid = hx CHR ''b'', bt_wtxid = hx CHR ''b''\<rparr>)],
   transaction_inputs =
   [((hx CHR ''a'', 0),
   \<lparr>i_prev = None, i_coinbase = Some [1], i_script_sig = None,
   i_sequence = 0\<rparr>),
   ((hx CHR ''b'', 0),
   \<lparr>i_prev = None, i_coinbase = Some [1], i_script_sig = None,
   i_sequence = 0\<rparr>)],
   transaction_input_witness = [],
   transaction_outputs =
   [((hx CHR ''a'', 0),
   \<lparr>o_value = 5, o_script = [106], o_type = TypeNullData,
   o_wver = None, o_wprog = None\<rparr>),
   ((hx CHR ''b'', 0),
   \<lparr>o_value = 5, o_script = [106], o_type = TypeNullData,
   o_wver = None, o_wprog = None\<rparr>)],
   output_addresses = [], output_participants = [], utxo_state = [],
   addresses = [],
   block_accounting =
   [(hx CHR ''0'',
   \<lparr>c_subsidy = 10000000000, c_fee = 0, c_coinbase = 5,
   c_unclaimed = 9999999995\<rparr>),
   (hx CHR ''1'',
   \<lparr>c_subsidy = 10000000000, c_fee = 0, c_coinbase = 5,
   c_unclaimed = 9999999995\<rparr>)],
   block_supply_rollup =
   [(hx CHR ''0'',
   \<lparr>r_excluded = 5, r_cum_subsidy = 10000000000, r_cum_fee = 0,
   r_cum_coinbase = 5, r_cum_unclaimed = 9999999995,
   r_cum_excluded = 5, r_cum_utxo = 0\<rparr>),
   (hx CHR ''1'',
   \<lparr>r_excluded = 5, r_cum_subsidy = 20000000000, r_cum_fee = 0,
   r_cum_coinbase = 10, r_cum_unclaimed = 19999999990,
   r_cum_excluded = 10, r_cum_utxo = 0\<rparr>)],
   distribution =
   [(''lt_1'', 0, 0), (''1_10'', 0, 0), (''10_100'', 0, 0),
   (''100_1k'', 0, 0), (''1k_10k'', 0, 0), (''10k_100k'', 0, 0),
   (''100k_1m'', 0, 0), (''gte_1m'', 0, 0)],
   distribution_state = (1, Some (hx CHR ''1''))\<rparr>"

lemma sy_d1_step: "ApplyBlock ex_store sy_b1 sy_d0 = Inr sy_d1"
  by (simp add: eval_store sy_b1_def sy_d0_def sy_d1_def cong: rbind_lazy let_weak_cong)

definition sy_d2 :: db where
  "sy_d2 =
   \<lparr>sync_state = (0, Some (hx CHR ''0'')),
   blocks =
   [(hx CHR ''0'',
   \<lparr>b_height = 0, b_prev = None, b_merkle = hx CHR ''0'',
   b_time = 0, b_bits = ''1e0fffff'', b_difficulty = 0,
   b_nonce = 0, b_size = 100, b_weight = 400, b_tx_count = 1,
   b_canonical = True\<rparr>),
   (hx CHR ''1'',
   \<lparr>b_height = 1, b_prev = Some (hx CHR ''0''),
   b_merkle = hx CHR ''1'', b_time = 0, b_bits = ''1e0fffff'',
   b_difficulty = 0, b_nonce = 0, b_size = 100, b_weight = 400,
   b_tx_count = 1, b_canonical = False\<rparr>)],
   transactions =
   [(hx CHR ''a'',
   \<lparr>t_version = 1, t_locktime = 0, t_is_coinbase = True,
   t_fee = None\<rparr>),
   (hx CHR ''b'',
   \<lparr>t_version = 1, t_locktime = 0, t_is_coinbase = True,
   t_fee = None\<rparr>)],
   transaction_variants =
   [(hx CHR ''a'',
   \<lparr>v_txid = hx CHR ''a'', v_size = 100, v_vsize = 100,
   v_weight = 400\<rparr>),
   (hx CHR ''b'',
   \<lparr>v_txid = hx CHR ''b'', v_size = 100, v_vsize = 100,
   v_weight = 400\<rparr>)],
   block_transactions =
   [((hx CHR ''0'', 0),
   \<lparr>bt_txid = hx CHR ''a'', bt_wtxid = hx CHR ''a''\<rparr>),
   ((hx CHR ''1'', 0),
   \<lparr>bt_txid = hx CHR ''b'', bt_wtxid = hx CHR ''b''\<rparr>)],
   transaction_inputs =
   [((hx CHR ''a'', 0),
   \<lparr>i_prev = None, i_coinbase = Some [1], i_script_sig = None,
   i_sequence = 0\<rparr>),
   ((hx CHR ''b'', 0),
   \<lparr>i_prev = None, i_coinbase = Some [1], i_script_sig = None,
   i_sequence = 0\<rparr>)],
   transaction_input_witness = [],
   transaction_outputs =
   [((hx CHR ''a'', 0),
   \<lparr>o_value = 5, o_script = [106], o_type = TypeNullData,
   o_wver = None, o_wprog = None\<rparr>),
   ((hx CHR ''b'', 0),
   \<lparr>o_value = 5, o_script = [106], o_type = TypeNullData,
   o_wver = None, o_wprog = None\<rparr>)],
   output_addresses = [], output_participants = [], utxo_state = [],
   addresses = [],
   block_accounting =
   [(hx CHR ''0'',
   \<lparr>c_subsidy = 10000000000, c_fee = 0, c_coinbase = 5,
   c_unclaimed = 9999999995\<rparr>),
   (hx CHR ''1'',
   \<lparr>c_subsidy = 10000000000, c_fee = 0, c_coinbase = 5,
   c_unclaimed = 9999999995\<rparr>)],
   block_supply_rollup =
   [(hx CHR ''0'',
   \<lparr>r_excluded = 5, r_cum_subsidy = 10000000000, r_cum_fee = 0,
   r_cum_coinbase = 5, r_cum_unclaimed = 9999999995,
   r_cum_excluded = 5, r_cum_utxo = 0\<rparr>),
   (hx CHR ''1'',
   \<lparr>r_excluded = 5, r_cum_subsidy = 20000000000, r_cum_fee = 0,
   r_cum_coinbase = 10, r_cum_unclaimed = 19999999990,
   r_cum_excluded = 10, r_cum_utxo = 0\<rparr>)],
   distribution =
   [(''lt_1'', 0, 0), (''1_10'', 0, 0), (''10_100'', 0, 0),
   (''100_1k'', 0, 0), (''1k_10k'', 0, 0), (''10k_100k'', 0, 0),
   (''100k_1m'', 0, 0), (''gte_1m'', 0, 0)],
   distribution_state = (0, Some (hx CHR ''0''))\<rparr>"

lemma sy_d2_step: "RollbackTo ex_store (hx CHR ''0'') sy_d1 = Inr sy_d2"
  by (simp add: eval_store sy_d1_def RollbackTo_def orphan_hashes_def rollback_utxos_def touch_all_def spent_in_def sy_d2_def cong: rbind_lazy let_weak_cong)

section \<open>Witnesses\<close>

lemma sy_run: "run ex_store [Apply sy_b0, Apply sy_b1] init_db = sy_d1"
  by (simp add: run_step_def attempt_def sy_d0_step sy_d1_step)

lemma sy_tips: "Tip sy_d1 = (1, Some (hx CHR ''1''))" "Tip sy_d2 = (0, Some (hx CHR ''0''))"
  by (simp_all add: Tip_def sy_d1_def sy_d2_def)

lemma sy_hashes: "CanonicalBlockHash sy_d1 0 = Some (hx CHR ''0'')"
  by (simp add: CanonicalBlockHash_def sy_d1_def)

lemma sy_fork: "fork_point sy_d1 (\<lambda>_. hx CHR ''0'') 0 0"
  by (simp add: fork_point_def sy_hashes)

lemma sy_feed: "feed ex_store (\<lambda>_. sy_b0) 1 0 d = Inr d"
  by (simp add: feed_def)

text \<open>Core retreated to its block 0: the synchronization drops the abandoned block 1.\<close>

lemma sy_sync: "SyncToTip ex_store sy_env False (sy_d1, ()) = Some (Inr (), (sy_d2, ()))"
  using sync_follows [OF sy_follows sy_run [symmetric], of sy_d2 0 sy_d2 "()"] sy_fork sy_d2_step sy_feed
  by (simp add: sy_tips sy_hashes MaxAutomaticReorgDepth_def)

theorem SyncToTip_success_caught_up_witness:
  "\<exists>w1 w2. rpcGetBlockCount sy_env w1 = (Inr 0, w2)
    \<and> rpcGetBlockHash sy_env 0 w2 = (Inr (hx CHR ''0''), ())"
  using SyncToTip_success_caught_up [OF sy_sync] by (simp add: sy_tips cp_Hash_def)

theorem reconcile_finds_fork_point_witness:
  "reconcile ex_store sy_env (sy_d1, ()) = (Inr (), (sy_d2, ())) \<and> fst (Tip sy_d2) = 0"
  using reconcile_finds_fork_point [OF sy_follows sy_run [symmetric], of "()"] sy_fork sy_d2_step
  by (auto simp: sy_tips sy_hashes MaxAutomaticReorgDepth_def)

theorem SyncToTip_follows_core_witness:
  "(\<exists>w'. SyncToTip ex_store sy_env False (sy_d1, ()) = Some (Inr (), (sy_d2, w')))
    \<and> snd (Tip sy_d2) = Some (hx CHR ''0'')"
  using SyncToTip_follows_core [OF sy_follows sy_run [symmetric], of sy_d2 0 sy_d2 "()"]
    sy_fork sy_d2_step sy_feed
  by (simp add: sy_tips sy_hashes MaxAutomaticReorgDepth_def)

lemma sy_apply: "applyHeight ex_store sy_env 0 (init_db, ()) = (Inr (), (sy_d0, ()))"
  using applyHeight_returns [OF sy_follows, of 0 ex_store init_db sy_d0] sy_d0_step
  by (simp add: returns_def)

theorem applyHeight_applies_current_block_witness:
  "\<exists>b. blk_Height b = 0 \<and> blk_Hash b = hx CHR ''0'' \<and> ApplyBlock ex_store b init_db = Inr sy_d0"
  using applyHeight_applies_current_block [OF sy_apply] by (auto simp: sy_env_def)

end
