(* ===== verification/Sha256.thy ===== *)
theory Sha256
  imports ChainModel "HOL-Library.Word"
begin

text \<open>
  \<open>crypto/sha256\<close>, which \<open>store/migrate.go\<close> uses for the checksums of migration files: the
  compression function of FIPS 180-4 over 32-bit words, and the hexadecimal digest.
\<close>

unbundle bit_operations_syntax

type_synonym w32 = "32 word"

definition sha_K :: "w32 list" where
  "sha_K =
    [1116352408, 1899447441, 3049323471, 3921009573, 961987163, 1508970993, 2453635748, 2870763221,
     3624381080, 310598401, 607225278, 1426881987, 1925078388, 2162078206, 2614888103, 3248222580,
     3835390401, 4022224774, 264347078, 604807628, 770255983, 1249150122, 1555081692, 1996064986,
     2554220882, 2821834349, 2952996808, 3210313671, 3336571891, 3584528711, 113926993, 338241895,
     666307205, 773529912, 1294757372, 1396182291, 1695183700, 1986661051, 2177026350, 2456956037,
     2730485921, 2820302411, 3259730800, 3345764771, 3516065817, 3600352804, 4094571909, 275423344,
     430227734, 506948616, 659060556, 883997877, 958139571, 1322822218, 1537002063, 1747873779,
     1955562222, 2024104815, 2227730452, 2361852424, 2428436474, 2756734187, 3204031479, 3329325298]"

definition sha_init :: "w32 list" where
  "sha_init =
    [1779033703, 3144134277, 1013904242, 2773480762,
     1359893119, 2600822924, 528734635, 1541459225]"

definition rotr :: "nat \<Rightarrow> w32 \<Rightarrow> w32" where
  "rotr n x = drop_bit n x OR push_bit (32 - n) x"

definition sha_s0 :: "w32 \<Rightarrow> w32" where "sha_s0 x = rotr 7 x XOR rotr 18 x XOR drop_bit 3 x"
definition sha_s1 :: "w32 \<Rightarrow> w32" where "sha_s1 x = rotr 17 x XOR rotr 19 x XOR drop_bit 10 x"
definition sha_S0 :: "w32 \<Rightarrow> w32" where "sha_S0 x = rotr 2 x XOR rotr 13 x XOR rotr 22 x"
definition sha_S1 :: "w32 \<Rightarrow> w32" where "sha_S1 x = rotr 6 x XOR rotr 11 x XOR rotr 25 x"

definition sha_ch :: "w32 \<Rightarrow> w32 \<Rightarrow> w32 \<Rightarrow> w32" where
  "sha_ch x y z = (x AND y) XOR (NOT x AND z)"

definition sha_maj :: "w32 \<Rightarrow> w32 \<Rightarrow> w32 \<Rightarrow> w32" where
  "sha_maj x y z = (x AND y) XOR (x AND z) XOR (y AND z)"

text \<open>The message schedule: 16 words of the block, extended to 64.\<close>

fun sha_schedule :: "nat \<Rightarrow> w32 list \<Rightarrow> w32 list" where
  "sha_schedule 0 ws = ws"
| "sha_schedule (Suc n) ws =
    (let t = length ws
     in sha_schedule n (ws @ [sha_s1 (ws ! (t - 2)) + ws ! (t - 7) + sha_s0 (ws ! (t - 15)) + ws ! (t - 16)]))"

fun sha_rounds :: "(w32 \<times> w32) list \<Rightarrow> w32 list \<Rightarrow> w32 list" where
  "sha_rounds ((k, w) # kws) [a, b, c, d, e, f, g, h] =
    (let t1 = h + sha_S1 e + sha_ch e f g + k + w;
         t2 = sha_S0 a + sha_maj a b c
     in sha_rounds kws [t1 + t2, a, b, c, d + t1, e, f, g])"
| "sha_rounds _ hs = hs"

definition sha_compress :: "w32 list \<Rightarrow> w32 list \<Rightarrow> w32 list" where
  "sha_compress hs block = map2 (+) hs (sha_rounds (zip sha_K (sha_schedule 48 block)) hs)"

section \<open>Padding and digest\<close>

definition be32 :: "8 word list \<Rightarrow> w32" where
  "be32 bs = foldl (\<lambda>n b. push_bit 8 n OR ucast b) 0 bs"

definition be_bytes :: "nat \<Rightarrow> 64 word \<Rightarrow> 8 word list" where
  "be_bytes k n = map (\<lambda>i. ucast (drop_bit (8 * i) n)) (rev [0..<k])"

definition sha_pad :: "8 word list \<Rightarrow> 8 word list" where
  "sha_pad m = m @ [0x80] @ replicate ((119 - length m mod 64) mod 64) 0 @ be_bytes 8 (8 * word_of_nat (length m))"

fun chunks :: "nat \<Rightarrow> 'a list \<Rightarrow> 'a list list" where
  "chunks k xs = (if k = 0 \<or> xs = [] then [] else take k xs # chunks k (drop k xs))"

declare chunks.simps [simp del]

definition sha_Sum256 :: "8 word list \<Rightarrow> 8 word list" where
  "sha_Sum256 m = concat (map (\<lambda>h. be_bytes 4 (ucast h))
    (foldl sha_compress sha_init (map (map be32 \<circ> chunks 4) (chunks 64 (sha_pad m)))))"

end
