(* ===== verification/Migrate.thy ===== *)
theory Migrate
  imports Table Sha256 Decode
begin

text \<open>
  \<open>store/migrate.go\<close>: loading the migration files, the record of applied migrations with their
  checksums, and the runs of \<open>Up\<close> and \<open>Down\<close>. What PostgreSQL does with the SQL text is a
  parameter.
\<close>

section \<open>Files\<close>

record migration =
  mg_Version :: int
  mg_Name :: string
  mg_UpSQL :: string
  mg_DownSQL :: string

text \<open>A directory entry as \<open>fs.ReadDir\<close> lists it; reading the file may fail (\<open>None\<close>).\<close>

record dir_entry =
  de_Name :: string
  de_IsDir :: bool
  de_Content :: "string option"

datatype direction = UpFile | DownFile

datatype mig_error =
    ReadFailed string
  | BadVersion string
  | InconsistentNames int string string
  | MissingUp int | MissingDown int
  | ErrNoMigrations
  | NoLocalMigration int | Renamed int | UpChanged int | DownChanged int
  | StepsNotPositive
  | ExecFailed int string
  | RecordConflict int

text \<open>\<open>s\<close> without the suffix \<open>suf\<close>, if it ends with it.\<close>

definition strip_suffix :: "string \<Rightarrow> string \<Rightarrow> string option" where
  "strip_suffix suf s =
    (if length suf \<le> length s \<and> drop (length s - length suf) s = suf
     then Some (take (length s - length suf) s) else None)"

text \<open>
  \<^verbatim>\<open>^(\d+)_(.+)\.(up|down)\.sql$\<close>: the version cannot contain an underscore, so it ends at the first
  one; the name is non-empty and without a line break.
\<close>

definition match_migration_file :: "string \<Rightarrow> (string \<times> string \<times> direction) option" where
  "match_migration_file file =
    (let version = takeWhile (\<lambda>c. c \<noteq> CHR ''_'') file;
         rest = drop (length version + 1) file;
         named = (\<lambda>name dir. if name \<noteq> [] \<and> CHR 0x0A \<notin> set name then Some (version, name, dir) else None)
     in if version = [] \<or> \<not> list_all is_digit version \<or> length version = length file then None
        else case strip_suffix ''.up.sql'' rest of
          Some name \<Rightarrow> named name UpFile
        | None \<Rightarrow> (case strip_suffix ''.down.sql'' rest of
            Some name \<Rightarrow> named name DownFile
          | None \<Rightarrow> None))"

definition set_direction :: "direction \<Rightarrow> string \<Rightarrow> migration \<Rightarrow> migration" where
  "set_direction dir content m = (case dir of
     UpFile \<Rightarrow> m\<lparr>mg_UpSQL := content\<rparr> | DownFile \<Rightarrow> m\<lparr>mg_DownSQL := content\<rparr>)"

definition load_entry :: "dir_entry \<Rightarrow> (int, migration) table \<Rightarrow> mig_error + (int, migration) table" where
  "load_entry entry byVersion =
    (if de_IsDir entry then Inr byVersion
     else case match_migration_file (de_Name entry) of
       None \<Rightarrow> Inr byVersion
     | Some (versionText, name, dir) \<Rightarrow>
       rbind (of_option (BadVersion (de_Name entry)) (ParseInt64 versionText)) (\<lambda>version.
       rbind (of_option (ReadFailed (de_Name entry)) (de_Content entry)) (\<lambda>content.
       case tget byVersion version of
         None \<Rightarrow> Inr (tinsert version (set_direction dir content
           \<lparr>mg_Version = version, mg_Name = name, mg_UpSQL = [], mg_DownSQL = []\<rparr>) byVersion)
       | Some mig \<Rightarrow>
         if mg_Name mig \<noteq> name then Inl (InconsistentNames version (mg_Name mig) name)
         else Inr (tupdate (\<lambda>v _. v = version) (set_direction dir content) byVersion))))"

definition check_migration :: "migration \<Rightarrow> mig_error + unit" where
  "check_migration m =
    (if mg_UpSQL m = [] then Inl (MissingUp (mg_Version m))
     else if mg_DownSQL m = [] then Inl (MissingDown (mg_Version m)) else Inr ())"

text \<open>
  \<open>iter\<close> is the order in which Go ranges over a map: some permutation of its keys.
\<close>

definition LoadMigrations :: "(int list \<Rightarrow> int list) \<Rightarrow> dir_entry list \<Rightarrow> mig_error + migration list" where
  "LoadMigrations iter entries =
    rbind (fold_res load_entry entries []) (\<lambda>byVersion.
    let migs = map (\<lambda>v. the (tget byVersion v)) (iter (map fst byVersion))
    in rbind (map_res check_migration migs) (\<lambda>_.
    if migs = [] then Inl ErrNoMigrations else Inr (sort_key mg_Version migs)))"

section \<open>The record of applied migrations\<close>

record applied_record =
  ar_name :: string
  ar_up :: string
  ar_down :: string

type_synonym applied = "(int, applied_record) table"

definition checksum :: "string \<Rightarrow> string" where
  "checksum sql = hex_EncodeToString (sha_Sum256 (map of_char sql))"

definition record_of :: "migration \<Rightarrow> applied_record" where
  "record_of m = \<lparr>ar_name = mg_Name m, ar_up = checksum (mg_UpSQL m), ar_down = checksum (mg_DownSQL m)\<rparr>"

text \<open>\<^verbatim>\<open>byVersion[mig.Version] = mig\<close> over the loaded list: the last one of a version stays.\<close>

definition by_version :: "migration list \<Rightarrow> int \<Rightarrow> migration option" where
  "by_version migrations v = List.find (\<lambda>m. mg_Version m = v) (rev migrations)"

definition verify_record :: "migration list \<Rightarrow> int \<times> applied_record \<Rightarrow> mig_error + unit" where
  "verify_record migrations = (\<lambda>(version, r).
    (case by_version migrations version of
       None \<Rightarrow> Inl (NoLocalMigration version)
     | Some mig \<Rightarrow>
       if ar_name r \<noteq> mg_Name mig then Inl (Renamed version)
       else if ar_up r \<noteq> checksum (mg_UpSQL mig) then Inl (UpChanged version)
       else if ar_down r \<noteq> checksum (mg_DownSQL mig) then Inl (DownChanged version)
       else Inr ()))"

definition VerifyChecksums :: "(int list \<Rightarrow> int list) \<Rightarrow> applied \<Rightarrow> migration list \<Rightarrow> mig_error + unit" where
  "VerifyChecksums iter t migrations =
    rbind (map_res (\<lambda>v. verify_record migrations (v, the (tget t v))) (iter (map fst t))) (\<lambda>_. Inr ())"

definition CurrentVersion :: "applied \<Rightarrow> int" where
  "CurrentVersion t = fold (\<lambda>v m. if m < v then v else m) (map fst t) 0"

section \<open>Up and Down\<close>

text \<open>
  A database is what the SQL text of the migrations works on (\<open>'d\<close>) and the table
  \<open>schema_migrations\<close>. \<open>exec d sql\<close> is the outcome of running the text and committing; an error
  leaves the database as it was.
\<close>

type_synonym 'd pg = "'d \<times> applied"

definition apply_one :: "('d \<Rightarrow> string \<Rightarrow> string + 'd) \<Rightarrow> migration \<Rightarrow> 'd pg \<Rightarrow> mig_error + 'd pg" where
  "apply_one exec mig = (\<lambda>(d, t). case exec d (mg_UpSQL mig) of
     Inl e \<Rightarrow> Inl (ExecFailed (mg_Version mig) e)
   | Inr d' \<Rightarrow>
     (if tget t (mg_Version mig) \<noteq> None then Inl (RecordConflict (mg_Version mig))
      else Inr (d', tinsert (mg_Version mig) (record_of mig) t)))"

text \<open>The versions applied so far, the error if any, and the database.\<close>

fun up_loop :: "('d \<Rightarrow> string \<Rightarrow> string + 'd) \<Rightarrow> int set \<Rightarrow> migration list \<Rightarrow> int list \<Rightarrow> 'd pg
    \<Rightarrow> int list \<times> mig_error option \<times> 'd pg" where
  "up_loop exec applied [] did x = (did, None, x)"
| "up_loop exec applied (mig # migs) did x =
    (if mg_Version mig \<in> applied then up_loop exec applied migs did x
     else case apply_one exec mig x of
       Inl e \<Rightarrow> (did, Some e, x)
     | Inr y \<Rightarrow> up_loop exec applied migs (did @ [mg_Version mig]) y)"

definition Up :: "('d \<Rightarrow> string \<Rightarrow> string + 'd) \<Rightarrow> (int list \<Rightarrow> int list) \<Rightarrow> migration list \<Rightarrow> 'd pg
    \<Rightarrow> int list \<times> mig_error option \<times> 'd pg" where
  "Up exec iter migrations x =
    (case VerifyChecksums iter (snd x) migrations of
       Inl e \<Rightarrow> ([], Some e, x)
     | Inr _ \<Rightarrow> up_loop exec (set (map fst (snd x))) migrations [] x)"

definition rollback_one :: "('d \<Rightarrow> string \<Rightarrow> string + 'd) \<Rightarrow> migration \<Rightarrow> 'd pg \<Rightarrow> mig_error + 'd pg" where
  "rollback_one exec mig = (\<lambda>(d, t). case exec d (mg_DownSQL mig) of
     Inl e \<Rightarrow> Inl (ExecFailed (mg_Version mig) e)
   | Inr d' \<Rightarrow> Inr (d', tdelete (\<lambda>v _. v = mg_Version mig) t))"

fun down_loop :: "('d \<Rightarrow> string \<Rightarrow> string + 'd) \<Rightarrow> migration list \<Rightarrow> int list \<Rightarrow> int list \<Rightarrow> 'd pg
    \<Rightarrow> int list \<times> mig_error option \<times> 'd pg" where
  "down_loop exec migrations [] did x = (did, None, x)"
| "down_loop exec migrations (version # vs) did x =
    (case by_version migrations version of
       None \<Rightarrow> (did, Some (NoLocalMigration version), x)
     | Some mig \<Rightarrow>
       (case rollback_one exec mig x of
          Inl e \<Rightarrow> (did, Some e, x)
        | Inr y \<Rightarrow> down_loop exec migrations vs (did @ [mg_Version mig]) y))"

definition Down :: "('d \<Rightarrow> string \<Rightarrow> string + 'd) \<Rightarrow> (int list \<Rightarrow> int list) \<Rightarrow> migration list \<Rightarrow> int \<Rightarrow> 'd pg
    \<Rightarrow> int list \<times> mig_error option \<times> 'd pg" where
  "Down exec iter migrations steps x =
    (if steps \<le> 0 then ([], Some StepsNotPositive, x)
     else case VerifyChecksums iter (snd x) migrations of
       Inl e \<Rightarrow> ([], Some e, x)
     | Inr _ \<Rightarrow>
       down_loop exec migrations (take (nat steps) (rev (sort (iter (map fst (snd x)))))) [] x)"

section \<open>Loading\<close>

text \<open>The entry is a file of the given version, name and direction.\<close>

definition migration_file :: "dir_entry \<Rightarrow> int \<Rightarrow> string \<Rightarrow> direction \<Rightarrow> bool" where
  "migration_file e v name dir \<longleftrightarrow> \<not> de_IsDir e
    \<and> (case match_migration_file (de_Name e) of None \<Rightarrow> False
       | Some (vt, n, d) \<Rightarrow> ParseInt64 vt = Some v \<and> n = name \<and> d = dir)"

definition sql_of :: "direction \<Rightarrow> migration \<Rightarrow> string" where
  "sql_of dir m = (case dir of UpFile \<Rightarrow> mg_UpSQL m | DownFile \<Rightarrow> mg_DownSQL m)"

lemma sql_of_simps [simp]: "sql_of UpFile m = mg_UpSQL m" "sql_of DownFile m = mg_DownSQL m"
  by (simp_all add: sql_of_def)

lemma set_direction_simps [simp]:
  "mg_Version (set_direction dir c m) = mg_Version m"
  "mg_Name (set_direction dir c m) = mg_Name m"
  "sql_of dir' (set_direction dir c m) = (if dir' = dir then c else sql_of dir' m)"
  by (auto simp: set_direction_def sql_of_def split: direction.splits)

text \<open>What one entry does to the map of versions.\<close>

lemma load_entry_cases:
  assumes "load_entry e t = Inr t'" "twf t"
  shows "(t' = t \<and> (\<forall>v name dir. \<not> migration_file e v name dir))
    \<or> (\<exists>v name dir c m. migration_file e v name dir \<and> de_Content e = Some c
        \<and> (\<forall>v' name' dir'. migration_file e v' name' dir' \<longrightarrow> v' = v \<and> name' = name \<and> dir' = dir)
        \<and> (tget t v = None \<and> m = \<lparr>mg_Version = v, mg_Name = name, mg_UpSQL = [], mg_DownSQL = []\<rparr>
           \<or> tget t v = Some m \<and> mg_Name m = name)
        \<and> twf t' \<and> (\<forall>w. tget t' w = (if w = v then Some (set_direction dir c m) else tget t w)))"
proof (cases "de_IsDir e \<or> match_migration_file (de_Name e) = None")
  case True
  then have "t' = t" using assms(1)
    by (cases "de_IsDir e") (simp_all add: load_entry_def)
  with True show ?thesis by (auto simp: migration_file_def)
next
  case False
  then obtain vt name dir where mt: "match_migration_file (de_Name e) = Some (vt, name, dir)"
    and nd: "\<not> de_IsDir e" by (metis option.exhaust prod_cases3)
  from assms(1) mt nd obtain v c where v: "ParseInt64 vt = Some v" and c: "de_Content e = Some c"
    by (auto simp: load_entry_def result_simps)
  have mf: "migration_file e v' n' d' \<longleftrightarrow> v' = v \<and> n' = name \<and> d' = dir" for v' n' d'
    using mt nd v by (auto simp: migration_file_def)
  show ?thesis
  proof (cases "tget t v")
    case None
    with assms mt nd v c have "t' = tinsert v (set_direction dir c
        \<lparr>mg_Version = v, mg_Name = name, mg_UpSQL = [], mg_DownSQL = []\<rparr>) t"
      by (simp add: load_entry_def)
    with None assms(2) mf c show ?thesis by (simp add: twf_simps tget_tinsert)
  next
    case (Some m)
    with assms mt nd v c have "mg_Name m = name"
      "t' = tupdate (\<lambda>w _. w = v) (set_direction dir c) t"
      by (auto simp: load_entry_def split: if_splits)
    moreover have "map_option (\<lambda>x. x) y = y" for y :: "migration option" by (cases y) auto
    ultimately show ?thesis using Some assms(2) mf c
      by (simp add: twf_simps tget_tupdate)
  qed
qed

definition loaded :: "dir_entry list \<Rightarrow> (int, migration) table \<Rightarrow> bool" where
  "loaded es t \<longleftrightarrow> twf t
    \<and> (\<forall>v m. tget t v = Some m \<longrightarrow> mg_Version m = v
        \<and> (\<forall>dir. sql_of dir m \<noteq> [] \<longrightarrow>
            (\<exists>e \<in> set es. migration_file e v (mg_Name m) dir \<and> de_Content e = Some (sql_of dir m))))
    \<and> (\<forall>e \<in> set es. \<forall>v name dir. migration_file e v name dir
        \<longrightarrow> (\<exists>m. tget t v = Some m \<and> mg_Name m = name))"

lemma loadedD:
  assumes "loaded es t"
  shows "tget t u = Some x \<Longrightarrow> mg_Version x = u"
    "tget t u = Some x \<Longrightarrow> sql_of d x \<noteq> [] \<Longrightarrow>
      \<exists>e' \<in> set es. migration_file e' u (mg_Name x) d \<and> de_Content e' = Some (sql_of d x)"
    "e' \<in> set es \<Longrightarrow> migration_file e' u n d \<Longrightarrow> \<exists>x. tget t u = Some x \<and> mg_Name x = n"
  using assms unfolding loaded_def by blast+

lemma loaded_step:
  assumes "loaded es t" "migration_file e v name dir" "de_Content e = Some c"
    "\<forall>v' name' dir'. migration_file e v' name' dir' \<longrightarrow> v' = v \<and> name' = name \<and> dir' = dir"
    "twf t'" "\<forall>w. tget t' w = (if w = v then Some (set_direction dir c m) else tget t w)"
    and m: "mg_Name m = name" "mg_Version m = v" "\<And>x. tget t v = Some x \<Longrightarrow> x = m"
    and sql: "\<And>d. sql_of d m \<noteq> [] \<Longrightarrow>
      \<exists>e' \<in> set es. migration_file e' v name d \<and> de_Content e' = Some (sql_of d m)"
  shows "loaded (es @ [e]) t'"
proof -
  note old = loadedD [OF assms(1)]
  have here: "\<exists>e' \<in> set (es @ [e]). migration_file e' v name d \<and> de_Content e' = Some (sql_of d (set_direction dir c m))"
    if "sql_of d (set_direction dir c m) \<noteq> []" for d
  proof (cases "d = dir")
    case True
    with assms(2,3) show ?thesis by simp
  next
    case False
    with that sql [of d] show ?thesis by auto
  qed
  have rows: "mg_Version x = u \<and> (sql_of d x \<noteq> [] \<longrightarrow>
      (\<exists>e' \<in> set (es @ [e]). migration_file e' u (mg_Name x) d \<and> de_Content e' = Some (sql_of d x)))"
    if x: "tget t' u = Some x" for u x d
  proof (cases "u = v")
    case True
    with x assms(6) have "x = set_direction dir c m" by simp
    with True m(1,2) here [of d] show ?thesis by simp
  next
    case False
    with x assms(6) have "tget t u = Some x" by simp
    then have "mg_Version x = u" and "sql_of d x \<noteq> [] \<longrightarrow>
      (\<exists>e' \<in> set es. migration_file e' u (mg_Name x) d \<and> de_Content e' = Some (sql_of d x))"
      using old(1) [of u x] old(2) [of u x d] by blast+
    then show ?thesis by auto
  qed
  have files: "\<exists>x. tget t' u = Some x \<and> mg_Name x = n"
    if e': "e' \<in> set (es @ [e])" "migration_file e' u n d" for e' u n d
  proof (cases "e' \<in> set es")
    case True
    from old(3) [OF True e'(2)] obtain x where "tget t u = Some x" "mg_Name x = n" by blast
    with m(1,3) assms(6) show ?thesis by (cases "u = v") auto
  next
    case False
    with e' have "e' = e" by simp
    with e'(2) assms(4) have "u = v" "n = name" by blast+
    with assms(6) m(1) show ?thesis by simp
  qed
  show ?thesis unfolding loaded_def
  proof (intro conjI allI ballI impI)
    fix u x assume x: "tget t' u = Some x"
    from rows [OF x] show "mg_Version x = u" by (rule conjunct1)
    show "\<exists>e' \<in> set (es @ [e]). migration_file e' u (mg_Name x) d \<and> de_Content e' = Some (sql_of d x)"
      if "sql_of d x \<noteq> []" for d using rows [OF x, of d] that by (rule conjunct2 [THEN mp])
  next
    fix e' u n d assume "e' \<in> set (es @ [e])" "migration_file e' u n d"
    then show "\<exists>x. tget t' u = Some x \<and> mg_Name x = n" by (rule files)
  qed (rule assms(5))
qed

lemma load_entry_loaded:
  assumes "load_entry e t = Inr t'" "loaded es t"
  shows "loaded (es @ [e]) t'"
proof -
  have w: "twf t" using assms(2) by (simp add: loaded_def)
  note old = loadedD [OF assms(2)]
  from load_entry_cases [OF assms(1) w] show ?thesis
  proof (elim disjE exE conjE)
    assume "t' = t" "\<forall>v name dir. \<not> migration_file e v name dir"
    with assms(2) show ?thesis unfolding loaded_def by fastforce
  next
    fix v name dir c m
    assume *: "migration_file e v name dir" "de_Content e = Some c"
      "\<forall>v' name' dir'. migration_file e v' name' dir' \<longrightarrow> v' = v \<and> name' = name \<and> dir' = dir"
      "twf t'" "\<forall>w. tget t' w = (if w = v then Some (set_direction dir c m) else tget t w)"
      "tget t v = None" "m = \<lparr>mg_Version = v, mg_Name = name, mg_UpSQL = [], mg_DownSQL = []\<rparr>"
    have "sql_of d m = []" for d by (cases d) (simp_all add: *(7))
    then show ?thesis using *(6,7) by (intro loaded_step [OF assms(2) *(1-5)]) simp_all
  next
    fix v name dir c m
    assume *: "migration_file e v name dir" "de_Content e = Some c"
      "\<forall>v' name' dir'. migration_file e v' name' dir' \<longrightarrow> v' = v \<and> name' = name \<and> dir' = dir"
      "twf t'" "\<forall>w. tget t' w = (if w = v then Some (set_direction dir c m) else tget t w)"
      "tget t v = Some m" "mg_Name m = name"
    show ?thesis
    proof (rule loaded_step [OF assms(2) *(1-5)])
      show "mg_Name m = name" by (rule *(7))
      show "mg_Version m = v" by (rule old(1) [OF *(6)])
      show "\<exists>e' \<in> set es. migration_file e' v name d \<and> de_Content e' = Some (sql_of d m)"
        if "sql_of d m \<noteq> []" for d using old(2) [OF *(6) that] unfolding *(7) .
    qed (use *(6) in simp)
  qed
qed

lemma load_entries_loaded: "fold_res load_entry es [] = Inr t \<Longrightarrow> loaded es t"
proof (induction es arbitrary: t rule: rev_induct)
  case Nil
  then show ?case by (simp add: loaded_def twf_simps tget_def)
next
  case (snoc e es)
  then show ?case by (auto simp: fold_res_append result_simps intro: load_entry_loaded)
qed

end
