(* ===== verification/MigrateRuns.thy ===== *)
theory MigrateRuns
  imports Migrate "HOL-Library.Multiset"
begin

text \<open>
  What loading, \<open>Up\<close> and \<open>Down\<close> guarantee: the loaded list is determined by the directory, \<open>Up\<close>
  applies a prefix of what is pending and can be run again, \<open>Down\<close> takes back what \<open>Up\<close> did.
\<close>

section \<open>The loaded list\<close>

lemma map_res_unit: "(\<exists>us. map_res f xs = Inr us) \<longleftrightarrow> (\<forall>x \<in> set xs. f x = Inr (() :: unit))"
  by (induction xs) (auto simp: rbind_eq_Inr_iff)

lemma check_migration_Inr: "check_migration m = Inr () \<longleftrightarrow> mg_UpSQL m \<noteq> [] \<and> mg_DownSQL m \<noteq> []"
  by (auto simp: check_migration_def)

lemma LoadMigrations_Inr_iff:
  "LoadMigrations iter es = Inr ms \<longleftrightarrow> (\<exists>t. fold_res load_entry es [] = Inr t
    \<and> (let migs = map (\<lambda>v. the (tget t v)) (iter (map fst t))
       in (\<forall>m \<in> set migs. mg_UpSQL m \<noteq> [] \<and> mg_DownSQL m \<noteq> []) \<and> migs \<noteq> []
          \<and> ms = sort_key mg_Version migs))"
proof -
  have "(\<exists>us. map_res check_migration migs = Inr us) \<longleftrightarrow> (\<forall>m \<in> set migs. mg_UpSQL m \<noteq> [] \<and> mg_DownSQL m \<noteq> [])"
    for migs unfolding map_res_unit check_migration_Inr ..
  then show ?thesis
    by (auto simp: LoadMigrations_def Let_def rbind_eq_Inr_iff split: if_splits)
qed

lemma versions_of_table:
  assumes "loaded es t" "mset vs = mset (map fst t)"
  shows "map mg_Version (map (\<lambda>v. the (tget t v)) vs) = vs" "distinct vs"
    "set (map (\<lambda>v. the (tget t v)) vs) = {m. \<exists>v. tget t v = Some m}"
proof -
  have w: "twf t" using assms(1) by (simp add: loaded_def)
  have s: "set vs = fst ` set t" using assms(2) by (metis list.set_map set_mset_mset)
  have got: "v \<in> set vs \<longleftrightarrow> (\<exists>m. tget t v = Some m)" for v
    using s w by (force simp: in_set_tget [symmetric] image_iff)
  have ver: "mg_Version (the (tget t v)) = v" if v: "v \<in> set vs" for v
  proof -
    from v got obtain m where m: "tget t v = Some m" by blast
    then show ?thesis using loadedD(1) [OF assms(1) m] by simp
  qed
  then have "map (\<lambda>v. mg_Version (the (tget t v))) vs = map (\<lambda>v. v) vs" by (intro map_cong) auto
  then show "map mg_Version (map (\<lambda>v. the (tget t v)) vs) = vs" by (simp add: o_def)
  show "distinct vs" using assms(2) w mset_eq_imp_distinct_iff unfolding twf_def by blast
  show "set (map (\<lambda>v. the (tget t v)) vs) = {m. \<exists>v. tget t v = Some m}"
    using got by (force simp: image_iff)
qed

lemma LoadMigrations_exact_core:
  assumes iter: "\<And>vs. mset (iter vs) = mset vs" "\<And>vs. mset (iter' vs) = mset vs"
    and L: "LoadMigrations iter es = Inr ms"
  shows "LoadMigrations iter' es = Inr ms \<and> ms \<noteq> [] \<and> sorted_wrt (<) (map mg_Version ms)
    \<and> (\<forall>m \<in> set ms. \<forall>dir. sql_of dir m \<noteq> [] \<and> (\<exists>e \<in> set es.
        migration_file e (mg_Version m) (mg_Name m) dir \<and> de_Content e = Some (sql_of dir m)))
    \<and> (\<forall>e \<in> set es. \<forall>v name dir. migration_file e v name dir
        \<longrightarrow> (\<exists>m \<in> set ms. mg_Version m = v \<and> mg_Name m = name))"
proof -
  define migs where "migs = (\<lambda>(t :: (int, migration) table) iter. map (\<lambda>v. the (tget t v)) (iter (map fst t)))"
  from L obtain t where t: "fold_res load_entry es [] = Inr t"
    and both: "\<forall>m \<in> set (migs t iter). mg_UpSQL m \<noteq> [] \<and> mg_DownSQL m \<noteq> []"
    and ne: "migs t iter \<noteq> []" and ms: "ms = sort_key mg_Version (migs t iter)"
    unfolding LoadMigrations_Inr_iff Let_def migs_def by blast
  have ld: "loaded es t" by (rule load_entries_loaded [OF t])
  have M: "migs t i = map (\<lambda>v. the (tget t v)) (i (map fst t))" for i by (simp add: migs_def)
  note V = versions_of_table [OF ld iter(1) [of "map fst t"], folded M]
  note V' = versions_of_table [OF ld iter(2) [of "map fst t"], folded M]
  have set: "set ms = {m. \<exists>v. tget t v = Some m}" unfolding ms set_sort V(3) ..
  have len: "length (migs t iter') = length (migs t iter)"
    using iter by (simp add: migs_def) (metis size_mset)
  have dist: "distinct (map mg_Version ms)"
  proof -
    have "mset (map mg_Version ms) = mset (map mg_Version (migs t iter))" by (simp add: ms)
    then show ?thesis using V(1,2) mset_eq_imp_distinct_iff by metis
  qed
  have dist': "distinct (map mg_Version (sort_key mg_Version (migs t iter')))"
  proof -
    have "mset (map mg_Version (sort_key mg_Version (migs t iter'))) = mset (map mg_Version (migs t iter'))" by simp
    then show ?thesis using V'(1,2) mset_eq_imp_distinct_iff by metis
  qed
  have inj: "inj_on mg_Version (set ms \<union> set (sort_key mg_Version (migs t iter')))"
    using dist V'(3) set by (simp add: distinct_map)
  have "sort_key mg_Version (migs t iter') = ms"
    by (rule map_sorted_distinct_set_unique [OF _ _ dist' _ dist])
      (use inj V'(3) set in \<open>simp_all add: Un_commute ms\<close>)
  moreover have "migs t iter' \<noteq> []" using len ne by auto
  moreover have "\<forall>m \<in> set (migs t iter'). mg_UpSQL m \<noteq> [] \<and> mg_DownSQL m \<noteq> []"
    using both unfolding V(3) V'(3) .
  ultimately have L': "LoadMigrations iter' es = Inr ms"
    unfolding LoadMigrations_Inr_iff Let_def using t migs_def by auto
  have srt: "sorted_wrt (<) (map mg_Version ms)"
    using dist by (simp add: strict_sorted_iff ms)
  have sql: "sql_of dir m \<noteq> []" if "m \<in> set ms" for m dir
    using both that by (cases dir) (simp_all add: ms)
  have files: "\<exists>e \<in> set es. migration_file e (mg_Version m) (mg_Name m) dir \<and> de_Content e = Some (sql_of dir m)"
    if m: "m \<in> set ms" for m dir
  proof -
    from m set obtain v where v: "tget t v = Some m" by blast
    from loadedD(2) [OF ld v sql [OF m]] loadedD(1) [OF ld v] show ?thesis by simp
  qed
  have all: "\<exists>m \<in> set ms. mg_Version m = v \<and> mg_Name m = name"
    if "e \<in> set es" "migration_file e v name dir" for e v name dir
  proof -
    from loadedD(3) [OF ld that] obtain m where m: "tget t v = Some m" "mg_Name m = name" by blast
    with loadedD(1) [OF ld m(1)] set show ?thesis by blast
  qed
  have "ms \<noteq> []" using ne by (simp add: ms) (metis length_0_conv length_sort)
  with L' srt sql files all show ?thesis by blast
qed

section \<open>Checksums\<close>

lemma by_version_Some: "by_version ms v = Some m \<Longrightarrow> m \<in> set ms \<and> mg_Version m = v"
  by (auto simp: by_version_def find_Some_iff)
    (metis length_rev nth_mem set_rev)

lemma by_version_mem:
  assumes "distinct (map mg_Version ms)" "m \<in> set ms"
  shows "by_version ms (mg_Version m) = Some m"
proof -
  have "\<exists>m'. by_version ms (mg_Version m) = Some m'"
    using assms(2) by (auto simp: by_version_def find_None_iff simp flip: not_None_eq)
  then obtain m' where m': "by_version ms (mg_Version m) = Some m'" ..
  with by_version_Some [OF m'] assms show ?thesis by (metis distinct_map inj_on_eq_iff)
qed

lemma verify_record_Inr:
  "verify_record ms (v, r) = Inr u \<longleftrightarrow> (\<exists>m. by_version ms v = Some m \<and> r = record_of m)"
  by (cases r) (auto simp: verify_record_def record_of_def split: option.splits)

lemma VerifyChecksums_Inr:
  assumes "\<And>vs. mset (iter vs) = mset vs" "twf t"
  shows "VerifyChecksums iter t ms = Inr () \<longleftrightarrow>
    (\<forall>(v, r) \<in> set t. \<exists>m. by_version ms v = Some m \<and> r = record_of m)"
proof -
  have s: "set (iter (map fst t)) = fst ` set t" by (metis assms(1) list.set_map set_mset_mset)
  have "VerifyChecksums iter t ms = Inr () \<longleftrightarrow>
    (\<exists>us. map_res (\<lambda>v. verify_record ms (v, the (tget t v))) (iter (map fst t)) = Inr us)"
    by (auto simp: VerifyChecksums_def rbind_eq_Inr_iff)
  also have "\<dots> \<longleftrightarrow> (\<forall>v \<in> fst ` set t. verify_record ms (v, the (tget t v)) = Inr ())"
    unfolding map_res_unit s ..
  also have "\<dots> \<longleftrightarrow> (\<forall>(v, r) \<in> set t. verify_record ms (v, r) = Inr ())"
  proof -
    have "the (tget t (fst x)) = snd x" if "x \<in> set t" for x
      using in_set_tget [OF assms(2), of "fst x" "snd x"] that by simp
    then show ?thesis by (auto simp: split_beta)
  qed
  finally show ?thesis by (simp add: verify_record_Inr)
qed

section \<open>A run of Up\<close>

definition pending :: "migration list \<Rightarrow> applied \<Rightarrow> migration list" where
  "pending ms t = filter (\<lambda>m. mg_Version m \<notin> set (map fst t)) ms"

definition recorded :: "migration list \<Rightarrow> applied" where
  "recorded ms = map (\<lambda>m. (mg_Version m, record_of m)) ms"

text \<open>Running the up texts, or the down texts, one after the other.\<close>

definition run_up :: "('d \<Rightarrow> string \<Rightarrow> string + 'd) \<Rightarrow> migration list \<Rightarrow> 'd \<Rightarrow> string + 'd" where
  "run_up exec = fold_res (\<lambda>m d. exec d (mg_UpSQL m))"

lemma run_up_simps:
  "run_up exec [] d = Inr d"
  "run_up exec (m # ms) d = rbind (exec d (mg_UpSQL m)) (run_up exec ms)"
  "run_up exec (ms @ ms') d = rbind (run_up exec ms d) (run_up exec ms')"
  by (simp_all add: run_up_def fold_res_append)

lemma recorded_simps [simp]:
  "recorded [] = []" "recorded (m # ms) = (mg_Version m, record_of m) # recorded ms"
  "recorded (ms @ ms') = recorded ms @ recorded ms'"
  "map fst (recorded ms) = map mg_Version ms" "fst ` set (recorded ms) = mg_Version ` set ms"
  by (auto simp: recorded_def o_def image_iff)

text \<open>Why a run stopped: there was nothing left, or the next text failed.\<close>

definition stopped_at :: "('d \<Rightarrow> string \<Rightarrow> string + 'd) \<Rightarrow> migration list \<Rightarrow> nat \<Rightarrow> 'd \<Rightarrow> mig_error option \<Rightarrow> bool" where
  "stopped_at exec ms k d err \<longleftrightarrow> (case err of
     None \<Rightarrow> k = length ms
   | Some e \<Rightarrow> k < length ms
       \<and> (\<exists>s. exec d (mg_UpSQL (ms ! k)) = Inl s \<and> e = ExecFailed (mg_Version (ms ! k)) s))"

lemma up_loop_run:
  assumes "up_loop exec S ms did (d, t) = (did', err, d', t')" "distinct (map mg_Version ms)"
    "\<And>m. m \<in> set ms \<Longrightarrow> mg_Version m \<notin> S \<Longrightarrow> tget t (mg_Version m) = None"
  shows "\<exists>k \<le> length (filter (\<lambda>m. mg_Version m \<notin> S) ms).
    (let done = take k (filter (\<lambda>m. mg_Version m \<notin> S) ms) in
      did' = did @ map mg_Version done \<and> run_up exec done d = Inr d' \<and> t' = t @ recorded done)
    \<and> stopped_at exec (filter (\<lambda>m. mg_Version m \<notin> S) ms) k d' err"
  using assms
proof (induction ms arbitrary: did d t)
  case Nil
  then show ?case by (simp add: stopped_at_def run_up_simps)
next
  case (Cons m ms)
  show ?case
  proof (cases "mg_Version m \<in> S")
    case True
    with Cons.prems Cons.IH [of did d t] show ?thesis by simp
  next
    case False
    with Cons.prems(3) have new: "tget t (mg_Version m) = None" by simp
    show ?thesis
    proof (cases "exec d (mg_UpSQL m)")
      case (Inl s)
      with False Cons.prems(1) have "did' = did" "err = Some (ExecFailed (mg_Version m) s)" "d' = d" "t' = t"
        by (simp_all add: apply_one_def)
      with False Inl show ?thesis
        by (intro exI [of _ 0]) (simp add: stopped_at_def run_up_simps)
    next
      case (Inr d1)
      have "up_loop exec S ms (did @ [mg_Version m]) (d1, t @ recorded [m]) = (did', err, d', t')"
        using Cons.prems(1) False Inr new by (simp add: apply_one_def tinsert_def)
      moreover have "tget (t @ recorded [m]) (mg_Version x) = None"
        if "x \<in> set ms" "mg_Version x \<notin> S" for x
        using Cons.prems(2) Cons.prems(3) [of x] that
        by (auto simp: tget_def map_of_eq_None_iff) (metis image_eqI)
      ultimately obtain k where
        k: "k \<le> length (filter (\<lambda>m. mg_Version m \<notin> S) ms)"
        and r: "let done = take k (filter (\<lambda>m. mg_Version m \<notin> S) ms) in
          did' = did @ [mg_Version m] @ map mg_Version done \<and> run_up exec done d1 = Inr d'
          \<and> t' = t @ recorded [m] @ recorded done"
        and e: "stopped_at exec (filter (\<lambda>m. mg_Version m \<notin> S) ms) k d' err"
        using Cons.IH [of "did @ [mg_Version m]" d1 "t @ recorded [m]"] Cons.prems(2)
        unfolding Let_def append_assoc by auto
      show ?thesis
        by (intro exI [of _ "Suc k"])
          (use False k r e Inr in \<open>simp add: Let_def run_up_simps stopped_at_def split: option.splits\<close>)
    qed
  qed
qed

lemma Up_run:
  assumes "Up exec iter ms (d, t) = (did, err, d', t')" "distinct (map mg_Version ms)"
    and ok: "VerifyChecksums iter t ms = Inr ()"
  shows "\<exists>k \<le> length (pending ms t).
      did = map mg_Version (take k (pending ms t)) \<and> run_up exec (take k (pending ms t)) d = Inr d'
      \<and> t' = t @ recorded (take k (pending ms t)) \<and> stopped_at exec (pending ms t) k d' err"
proof -
  have "up_loop exec (set (map fst t)) ms [] (d, t) = (did, err, d', t')"
    using assms(1) ok by (simp add: Up_def)
  from up_loop_run [OF this assms(2)] show ?thesis
    unfolding pending_def Let_def by (auto simp: tget_def map_of_eq_None_iff)
qed

text \<open>The table after a run: one row per version, its checksums those of the loaded files.\<close>

lemma pending_subset: "set (take k (pending ms t)) \<subseteq> set ms"
  by (auto simp: pending_def dest: in_set_takeD)

lemma twf_recorded:
  assumes "twf t" "distinct (map mg_Version ms)"
  shows "twf (t @ recorded (take k (pending ms t)))"
proof -
  have "distinct (map mg_Version (take k (pending ms t)))"
    using assms(2) by (simp add: pending_def take_map [symmetric] distinct_map_filter)
  moreover have "mg_Version m \<notin> fst ` set t" if "m \<in> set (take k (pending ms t))" for m
    using in_set_takeD [OF that] by (simp add: pending_def)
  ultimately show ?thesis using assms(1) unfolding twf_def by (auto; metis fst_conv image_eqI)
qed

lemma verify_recorded:
  assumes iter: "\<And>vs. mset (iter vs) = mset vs" and w: "twf t" and d: "distinct (map mg_Version ms)"
    and ok: "VerifyChecksums iter t ms = Inr ()"
  shows "VerifyChecksums iter (t @ recorded (take k (pending ms t))) ms = Inr ()"
proof -
  have new: "\<exists>m'. by_version ms (mg_Version m) = Some m' \<and> record_of m = record_of m'"
    if "m \<in> set (take k (pending ms t))" for m
    using by_version_mem [OF d] that pending_subset [of k ms t] by blast
  then show ?thesis
    using ok unfolding VerifyChecksums_Inr [OF iter w] VerifyChecksums_Inr [OF iter twf_recorded [OF w d]]
    by (auto simp: recorded_def)
qed

lemma pending_recorded:
  assumes d: "distinct (map mg_Version ms)"
  shows "pending ms (t @ recorded (take k (pending ms t))) = drop k (pending ms t)"
proof -
  let ?p = "pending ms t"
  have "pending ms (t @ recorded (take k ?p))
    = filter (\<lambda>m. mg_Version m \<notin> mg_Version ` set (take k ?p)) ?p"
    by (simp add: pending_def conj_commute)
  also have "\<dots> = filter (\<lambda>m. mg_Version m \<notin> mg_Version ` set (take k ?p)) (take k ?p @ drop k ?p)"
    by simp
  also have "\<dots> = filter (\<lambda>m. mg_Version m \<notin> mg_Version ` set (take k ?p)) (drop k ?p)"
    unfolding filter_append by (simp add: filter_False)
  also have "\<dots> = drop k ?p"
  proof -
    have "distinct (map mg_Version (take k ?p @ drop k ?p))"
      using d by (simp add: pending_def distinct_map_filter)
    then have "mg_Version m \<notin> mg_Version ` set (take k ?p)" if "m \<in> set (drop k ?p)" for m
      using that unfolding map_append distinct_append set_map by blast
    then show ?thesis by (intro filter_True) blast
  qed
  finally show ?thesis .
qed

lemma up_loop_none_pending:
  "pending ms t = [] \<Longrightarrow> up_loop exec (set (map fst t)) ms did x = (did, None, x)"
  by (induction ms) (auto simp: pending_def split: if_splits)

text \<open>
  \<open>store.Up\<close> over migrations of distinct versions: either a recorded migration disagrees with
  its file and nothing is touched, or the run executes the up texts of the first \<open>k\<close> pending
  migrations in order, records exactly those, and stops because none is left or because the next
  text failed. The records it leaves pass the checksum verification, what is pending afterwards is
  the rest, and a second run after a complete one changes nothing.
\<close>

theorem Up_applies_pending_prefix:
  assumes iter: "\<And>vs. mset (iter vs) = mset vs" and w: "twf t" and d: "distinct (map mg_Version ms)"
    and up: "Up exec iter ms (db, t) = (did, err, db', t')"
  shows "if VerifyChecksums iter t ms = Inr () then
      (\<exists>k \<le> length (pending ms t).
        did = map mg_Version (take k (pending ms t)) \<and> run_up exec (take k (pending ms t)) db = Inr db'
        \<and> t' = t @ recorded (take k (pending ms t)) \<and> stopped_at exec (pending ms t) k db' err
        \<and> twf t' \<and> VerifyChecksums iter t' ms = Inr () \<and> pending ms t' = drop k (pending ms t)
        \<and> (err = None \<longrightarrow> Up exec iter ms (db', t') = ([], None, db', t')))
    else did = [] \<and> err \<noteq> None \<and> db' = db \<and> t' = t"
proof (cases "VerifyChecksums iter t ms = Inr ()")
  case True
  from Up_run [OF up d True] obtain k where k: "k \<le> length (pending ms t)"
    "did = map mg_Version (take k (pending ms t))" "run_up exec (take k (pending ms t)) db = Inr db'"
    "t' = t @ recorded (take k (pending ms t))" "stopped_at exec (pending ms t) k db' err" by blast
  have v: "VerifyChecksums iter t' ms = Inr ()" unfolding k(4) by (rule verify_recorded [OF iter w d True])
  have p: "pending ms t' = drop k (pending ms t)" unfolding k(4) by (rule pending_recorded [OF d])
  have "twf t'" unfolding k(4) by (rule twf_recorded [OF w d])
  moreover have "Up exec iter ms (db', t') = ([], None, db', t')" if "err = None"
  proof -
    from that k(5) have "pending ms t' = []" by (simp add: stopped_at_def p)
    from up_loop_none_pending [OF this] v show ?thesis by (simp add: Up_def)
  qed
  ultimately show ?thesis using True k v p by auto
next
  case False
  then obtain e where "VerifyChecksums iter t ms = Inl e" by (cases "VerifyChecksums iter t ms") auto
  with up False show ?thesis by (auto simp: Up_def)
qed

section \<open>Down takes Up back\<close>

lemma tdelete_last: "twf (t @ [(v, r)]) \<Longrightarrow> tdelete (\<lambda>w _. w = v) (t @ [(v, r)]) = t"
  by (force simp: tdelete_def twf_def intro: filter_True)

lemma down_loop_back:
  assumes inv: "\<And>m d d1. m \<in> set ms \<Longrightarrow> exec d (mg_UpSQL m) = Inr d1 \<Longrightarrow> exec d1 (mg_DownSQL m) = Inr d"
    and d: "distinct (map mg_Version ms)"
  shows "set q \<subseteq> set ms \<Longrightarrow> twf (t @ recorded q) \<Longrightarrow> run_up exec q db = Inr db' \<Longrightarrow>
    down_loop exec ms (rev (map mg_Version q)) did (db', t @ recorded q)
      = (did @ rev (map mg_Version q), None, db, t)"
proof (induction q arbitrary: db' did rule: rev_induct)
  case Nil
  then show ?case by (simp add: run_up_simps)
next
  case (snoc m q)
  from snoc.prems(3) obtain d1 where d1: "run_up exec q db = Inr d1" "exec d1 (mg_UpSQL m) = Inr db'"
    by (auto simp: run_up_simps result_simps)
  have m: "m \<in> set ms" using snoc.prems(1) by simp
  have rb: "rollback_one exec m (db', t @ recorded (q @ [m])) = Inr (d1, t @ recorded q)"
    using inv [OF m d1(2)] tdelete_last [of "t @ recorded q"] snoc.prems(2)
    by (simp add: rollback_one_def)
  have "twf (t @ recorded q)" using snoc.prems(2) by (simp add: twf_def)
  from snoc.IH [OF _ this d1(1), of "did @ [mg_Version m]"] snoc.prems(1) rb
  show ?case by (simp add: by_version_mem [OF d m])
qed

lemma sort_append_ascending:
  fixes xs ys :: "int list"
  assumes "sorted ys" "\<And>x y. x \<in> set xs \<Longrightarrow> y \<in> set ys \<Longrightarrow> x \<le> y"
  shows "sort (xs @ ys) = sort xs @ ys"
  using assms by (intro properties_for_sort) (auto simp: sorted_append)


text \<open>
  \<open>LoadMigrations\<close> does not depend on the order in which Go ranges over its map: the result is
  the same list for every order, strictly ascending by version, and it is the directory: every
  migration has two non-empty texts, each the content of a file of its version, name and direction,
  and every file whose name matches the pattern belongs to a migration of the list.
\<close>

theorem LoadMigrations_exact:
  assumes "\<And>vs. mset (iter vs) = mset vs" "\<And>vs. mset (iter' vs) = mset vs"
    "LoadMigrations iter es = Inr ms"
  shows "LoadMigrations iter' es = Inr ms \<and> ms \<noteq> [] \<and> sorted_wrt (<) (map mg_Version ms)
    \<and> (\<forall>m \<in> set ms. \<forall>dir. sql_of dir m \<noteq> [] \<and> (\<exists>e \<in> set es.
        migration_file e (mg_Version m) (mg_Name m) dir \<and> de_Content e = Some (sql_of dir m)))
    \<and> (\<forall>e \<in> set es. \<forall>v name dir. migration_file e v name dir
        \<longrightarrow> (\<exists>m \<in> set ms. mg_Version m = v \<and> mg_Name m = name))"
  by (rule LoadMigrations_exact_core [OF assms])

section \<open>A directory and a database\<close>

definition eg_entry :: "string \<Rightarrow> string \<Rightarrow> dir_entry" where
  "eg_entry name content = \<lparr>de_Name = name, de_IsDir = False, de_Content = Some content\<rparr>"

definition eg_dir :: "dir_entry list" where
  "eg_dir = [\<lparr>de_Name = ''0000_old'', de_IsDir = True, de_Content = None\<rparr>,
    eg_entry ''0001_core.down.sql'' ''-core'', eg_entry ''0001_core.up.sql'' ''+core'',
    eg_entry ''0003_pool.down.sql'' ''-pool'', eg_entry ''0003_pool.up.sql'' ''+pool'',
    eg_entry ''02_state.down.sql'' ''-state'', eg_entry ''02_state.up.sql'' ''+state'',
    eg_entry ''README.md'' ''text'']"

definition eg_mig :: "int \<Rightarrow> string \<Rightarrow> migration" where
  "eg_mig v name = \<lparr>mg_Version = v, mg_Name = name, mg_UpSQL = CHR ''+'' # name, mg_DownSQL = CHR ''-'' # name\<rparr>"

definition eg_migs :: "migration list" where
  "eg_migs = [eg_mig 1 ''core'', eg_mig 2 ''state'', eg_mig 3 ''pool'']"

text \<open>A database that is a list of objects: \<open>+x\<close> creates, \<open>-x\<close> drops the newest, nothing else runs.\<close>

fun eg_exec :: "string list \<Rightarrow> string \<Rightarrow> string + string list" where
  "eg_exec d [] = Inl ''empty''"
| "eg_exec d (c # name) = (if c = CHR ''+'' then Inr (name # d)
    else case d of [] \<Rightarrow> Inl ''none'' | x # d' \<Rightarrow> if x = name then Inr d' else Inl ''other'')"

lemma eg_load: "LoadMigrations id eg_dir = Inr eg_migs"
  by code_simp

lemma eg_up:
  "Up eg_exec id eg_migs ([''core''], recorded [eg_mig 1 ''core''])
    = ([2, 3], None, [''pool'', ''state'', ''core''], recorded eg_migs)"
  by (simp add: Up_def VerifyChecksums_def verify_record_def by_version_def eg_migs_def eg_mig_def
      recorded_def record_of_def apply_one_def tget_def tinsert_def)

lemma LoadMigrations_exact_witness:
  "LoadMigrations rev eg_dir = Inr eg_migs \<and> sorted_wrt (<) (map mg_Version eg_migs)"
  using LoadMigrations_exact [of id rev, OF _ _ eg_load] by simp

lemma Up_applies_pending_prefix_witness:
  "Up eg_exec id eg_migs ([''pool'', ''state'', ''core''], recorded eg_migs)
    = ([], None, [''pool'', ''state'', ''core''], recorded eg_migs)"
proof -
  have "VerifyChecksums id (recorded [eg_mig 1 ''core'']) eg_migs = Inr ()"
    by (simp add: VerifyChecksums_def verify_record_def by_version_def eg_migs_def eg_mig_def
        recorded_def record_of_def tget_def)
  moreover have "twf (recorded [eg_mig 1 ''core''])" "distinct (map mg_Version eg_migs)"
    by (simp_all add: twf_def eg_migs_def eg_mig_def)
  ultimately show ?thesis
    using Up_applies_pending_prefix [OF _ _ _ eg_up] by auto
qed


end
