(* ===== verification/SnapshotCalls.thy ===== *)
theory SnapshotCalls
  imports Indexer
begin

text \<open>
  What the two snapshot synchronizers share (\<open>internal/mempool/sync.go\<close>,
  \<open>internal/deployments/sync.go\<close>): calls on a state that is the confirmed database, the outside and
  a snapshot database, the kinds of call by what they leave alone, and the polling loop, which ends
  only with the context.
\<close>

section \<open>Calls\<close>

text \<open>The snapshot database is \<open>'m\<close>; \<open>err\<close> wraps an error into the package's own.\<close>

type_synonym ('w, 'm) snap = "'w sys \<times> 'm"

definition outside :: "('w, 'x, 'a) call \<Rightarrow> ('x \<Rightarrow> 'e) \<Rightarrow> (('w, 'm) snap, 'e, 'a) call" where
  "outside m err = (\<lambda>((d, w), mp). case m w of (r, w') \<Rightarrow> (map_err err r, ((d, w'), mp)))"

text \<open>\<open>ConfirmedTipReader.Tip\<close>, while other processes commit to the confirmed database.\<close>

definition confirmed_tip :: "store \<Rightarrow> 'w env \<Rightarrow> (string \<Rightarrow> 'e) \<Rightarrow> (('w, 'm) snap, 'e, checkpoint) call" where
  "confirmed_tip s env err = (\<lambda>((d, w), mp). case Writers env w of
     (Inl e, w') \<Rightarrow> (Inl (err e), ((d, w'), mp))
   | (Inr ops, w') \<Rightarrow> let d1 = run s ops d in (Inr (Tip d1), ((d1, w'), mp)))"

text \<open>The replacement of the snapshot: one transaction, all or nothing.\<close>

definition publish ::
  "store \<Rightarrow> 'w env \<Rightarrow> (string \<Rightarrow> 'e) \<Rightarrow> ('m \<Rightarrow> 'e + int \<times> 'm) \<Rightarrow> (('w, 'm) snap, 'e, int) call" where
  "publish s env err replace = (\<lambda>((d, w), mp). case Writers env w of
     (Inl e, w') \<Rightarrow> (Inl (err e), ((d, w'), mp))
   | (Inr ops, w') \<Rightarrow>
     (case replace mp of
        Inl e \<Rightarrow> (Inl e, ((run s ops d, w'), mp))
      | Inr (g, mp') \<Rightarrow> (Inr g, ((run s ops d, w'), mp'))))"

definition ctx_call :: "'w env \<Rightarrow> (string \<Rightarrow> 'e) \<Rightarrow> (('w, 'm) snap, 'e, unit) call" where
  "ctx_call env err = (\<lambda>((d, w), mp). case CtxErr env w of
     (Some e, w') \<Rightarrow> (Inl (err e), ((d, w'), mp)) | (None, w') \<Rightarrow> (Inr (), ((d, w'), mp)))"

text \<open>The body of both \<open>Run\<close> methods: \<open>None\<close> is a loop that never ends.\<close>

partial_function (option) poll ::
  "('x, 'e, unit) call \<Rightarrow> ('x, 'e, int) call \<Rightarrow> 'x \<Rightarrow> 'x option" where
  "poll ctx refresh x =
    (case ctx x of
       (Inl _, y) \<Rightarrow> Some y
     | (Inr _, y) \<Rightarrow>
       (case refresh y of (_, z) \<Rightarrow>
         (case ctx z of
            (Inl _, u) \<Rightarrow> Some u
          | (Inr _, u) \<Rightarrow> poll ctx refresh u)))"

text \<open>How \<open>logRefreshOutcome\<close> reports the error of a cycle.\<close>

datatype log_level = Silent | LogDebug | LogWarn

section \<open>What calls leave alone\<close>

text \<open>
  \<open>reads m\<close>: the call changes neither database; \<open>keeps m\<close>: it does not change the snapshot;
  \<open>clean m\<close>: it does not change the snapshot when it fails.
\<close>

definition reads :: "(('w, 'm) snap, 'e, 'a) call \<Rightarrow> bool" where
  "reads m \<longleftrightarrow> (\<forall>d w mp r d' w' mp'. m ((d, w), mp) = (r, ((d', w'), mp')) \<longrightarrow> d' = d \<and> mp' = mp)"

definition keeps :: "(('w, 'm) snap, 'e, 'a) call \<Rightarrow> bool" where
  "keeps m \<longleftrightarrow> (\<forall>x r y. m x = (r, y) \<longrightarrow> snd y = snd x)"

definition clean :: "(('w, 'm) snap, 'e, 'a) call \<Rightarrow> bool" where
  "clean m \<longleftrightarrow> (\<forall>x e y. m x = (Inl e, y) \<longrightarrow> snd y = snd x)"

lemma readsD: "reads m \<Longrightarrow> m ((d, w), mp) = (r, ((d', w'), mp')) \<Longrightarrow> d' = d \<and> mp' = mp"
  by (auto simp: reads_def)

lemma reads_keeps: "reads m \<Longrightarrow> keeps m"
  unfolding keeps_def
proof (intro allI impI)
  fix x r y assume "reads m" "m x = (r, y)"
  then show "snd y = snd x" by (cases x; cases "fst x"; cases y; cases "fst y") (auto dest: readsD)
qed

lemma keeps_clean: "keeps m \<Longrightarrow> clean m"
  by (auto simp: keeps_def clean_def)

lemma cleanD: "clean m \<Longrightarrow> m x = (Inl e, y) \<Longrightarrow> snd y = snd x"
  unfolding clean_def by blast

lemma reads_outside: "reads (outside m err)"
  by (auto simp: reads_def outside_def split: prod.splits)

lemma reads_ctx: "reads (ctx_call env err)"
  by (auto simp: reads_def ctx_call_def split: prod.splits option.splits)

lemma reads_sret: "reads (sret r)"
  by (simp add: reads_def sret_def)

lemma reads_sbind: "reads m \<Longrightarrow> (\<And>a. reads (f a)) \<Longrightarrow> reads (sbind m f)"
  unfolding reads_def [of "sbind m f"]
proof (intro allI impI)
  fix d w mp r d' w' mp'
  assume m: "reads m" and f: "\<And>a. reads (f a)" and eq: "sbind m f ((d, w), mp) = (r, ((d', w'), mp'))"
  obtain q d1 w1 mp1 where q: "m ((d, w), mp) = (q, ((d1, w1), mp1))" by (metis prod.collapse)
  from readsD [OF m q] eq q show "d' = d \<and> mp' = mp"
    by (cases q) (auto simp: sbind_def dest: readsD [OF f])
qed

lemma reads_if: "reads a \<Longrightarrow> reads b \<Longrightarrow> reads (if c then a else b)"
  by simp

lemma reads_smap: "(\<And>x. reads (f x)) \<Longrightarrow> reads (smap f xs)"
  by (induction xs) (auto intro!: reads_sbind reads_sret)

lemma keeps_confirmed_tip: "keeps (confirmed_tip s env err)"
  by (auto simp: keeps_def confirmed_tip_def Let_def split: prod.splits sum.splits)

lemma clean_sbind: "keeps m \<Longrightarrow> (\<And>a. clean (f a)) \<Longrightarrow> clean (sbind m f)"
  unfolding clean_def [of "sbind m f"]
proof (intro allI impI)
  fix x e y
  assume m: "keeps m" and f: "\<And>a. clean (f a)" and eq: "sbind m f x = (Inl e, y)"
  obtain q z where q: "m x = (q, z)" by (cases "m x")
  have z: "snd z = snd x" using m q unfolding keeps_def by blast
  show "snd y = snd x"
  proof (cases q)
    case (Inr a)
    then have "f a z = (Inl e, y)" using eq q by (simp add: sbind_def)
    with f [of a] z show ?thesis unfolding clean_def by metis
  qed (use eq q z in \<open>simp add: sbind_def\<close>)
qed

lemma clean_publish: "clean (publish s env err replace)"
  by (auto simp: clean_def publish_def split: prod.splits sum.splits)

lemma clean_if: "clean a \<Longrightarrow> clean b \<Longrightarrow> clean (if c then a else b)"
  by simp

lemma clean_split: "(\<And>a b. clean (f a b)) \<Longrightarrow> clean (case p of (a, b) \<Rightarrow> f a b)"
  by (cases p) simp

lemma outside_Inr:
  "outside m err ((d, w), mp) = (Inr y, z) \<longleftrightarrow> (\<exists>w'. m w = (Inr y, w') \<and> z = ((d, w'), mp))"
  by (auto simp: outside_def result_simps split: prod.splits)

lemma confirmed_tip_Inr:
  assumes "confirmed_tip s env err x = (Inr cp, y)"
  shows "cp = Tip (fst (fst y)) \<and> snd y = snd x \<and> (\<exists>ops. fst (fst y) = run s ops (fst (fst x)))"
  using assms by (cases x; cases "fst x") (auto simp: confirmed_tip_def Let_def split: prod.splits sum.splits)

lemma reads_state: "reads m \<Longrightarrow> m x = (r, y) \<Longrightarrow> fst (fst y) = fst (fst x) \<and> snd y = snd x"
  by (cases x; cases "fst x"; cases y; cases "fst y") (auto dest: readsD)

lemma publish_Inr: "publish s env err replace x = (Inr g, y) \<Longrightarrow> replace (snd x) = Inr (g, snd y)"
  by (cases x; cases "fst x") (auto simp: publish_def split: prod.splits sum.splits)

section \<open>What a publisher promises\<close>

text \<open>
  A snapshot store: \<open>replace\<close> either fails or leaves the image of a storable candidate under the next
  generation.
\<close>

locale publisher =
  fixes replace :: "'c \<Rightarrow> 'm \<Rightarrow> 'e + int \<times> 'm"
    and generation :: "'m \<Rightarrow> int"
    and image_of :: "'c \<Rightarrow> int \<Rightarrow> 'm"
    and storable :: "'c \<Rightarrow> bool"
  assumes replaced: "replace c m = Inr (g, m') \<Longrightarrow>
    storable c \<and> g = generation m + 1 \<and> m' = image_of c g \<and> generation m' = g"
begin

definition whole :: "'m \<Rightarrow> 'm \<Rightarrow> bool" where
  "whole m m' \<longleftrightarrow> m' = m \<or> (\<exists>c. storable c \<and> m' = image_of c (generation m') \<and> generation m < generation m')"

lemma whole_trans: "whole a b \<Longrightarrow> whole b c \<Longrightarrow> whole a c"
  unfolding whole_def by (elim disjE exE conjE) (auto intro: less_trans)

lemma whole_replaced: "replace c m = Inr (g, m') \<Longrightarrow> whole m m'"
  unfolding whole_def using replaced by fastforce

lemma poll_whole:
  assumes "poll ctx refresh x = Some y"
    and ctx: "\<And>x r y. ctx x = (r, y) \<Longrightarrow> snd y = snd x"
    and failed: "\<And>x e y. refresh x = (Inl e, y) \<Longrightarrow> snd y = snd x"
    and published: "\<And>x g y. refresh x = (Inr g, y) \<Longrightarrow> \<exists>c. replace c (snd x) = Inr (g, snd y)"
  shows "whole (snd x) (snd y)"
proof -
  have "ctx = ctx \<longrightarrow> refresh = refresh \<longrightarrow> whole (snd x) (snd y)"
  proof (rule poll.raw_induct [of "\<lambda>c r x y. c = ctx \<longrightarrow> r = refresh \<longrightarrow> whole (snd x) (snd y)"
      "((ctx, refresh), x)" y, unfolded prod.case, OF _ assms(1)])
    fix f c r x y
    assume IH: "\<And>c r x y. f c r x = Some y \<Longrightarrow> c = ctx \<longrightarrow> r = refresh \<longrightarrow> whole (snd x) (snd y)"
      and eq: "(case c x of (Inl _, y) \<Rightarrow> Some y
       | (Inr _, y) \<Rightarrow> (case r y of (_, z) \<Rightarrow>
           (case c z of (Inl _, u) \<Rightarrow> Some u | (Inr _, u) \<Rightarrow> f c r u))) = Some y"
    show "c = ctx \<longrightarrow> r = refresh \<longrightarrow> whole (snd x) (snd y)"
    proof (intro impI)
      assume p: "c = ctx" "r = refresh"
      obtain r1 x1 where 1: "ctx x = (r1, x1)" by (cases "ctx x")
      obtain r2 x2 where 2: "refresh x1 = (r2, x2)" by (cases "refresh x1")
      obtain r3 x3 where 3: "ctx x2 = (r3, x3)" by (cases "ctx x2")
      note same = ctx [OF 1] ctx [OF 3]
      have mid: "whole (snd x) (snd x3)"
      proof (cases r2)
        case (Inl e)
        with failed 2 same show ?thesis by (simp add: whole_def)
      next
        case (Inr g)
        with published 2 same whole_replaced show ?thesis by metis
      qed
      show "whole (snd x) (snd y)"
      proof (cases r1)
        case (Inl e)
        with eq p 1 same show ?thesis by (simp add: whole_def)
      next
        case (Inr u)
        show ?thesis
        proof (cases r3)
          case (Inl e)
          with eq p 1 2 3 Inr mid show ?thesis by simp
        next
          case (Inr u')
          with eq p 1 2 3 \<open>r1 = Inr u\<close> have "f ctx refresh x3 = Some y" by simp
          with IH p mid show ?thesis by (blast intro: whole_trans)
        qed
      qed
    qed
  qed
  then show ?thesis by simp
qed

end

end
