(* ===== verification/Mempool.thy ===== *)
theory Mempool
  imports StoreApply Decode
begin

text \<open>
  \<open>internal/mempool\<close>, the snapshot and its store: the candidate, its validation, the tables of
  \<open>migrations/0002_mempool_cache.up.sql\<close> with their constraints, and the replacement of the whole
  snapshot in one transaction. Timestamps set by the database are not modelled.
\<close>

section \<open>model.go\<close>

record cand_tx =
  ct_Transaction :: transaction
  ct_FeeSatoshis :: int
  ct_EntryTime :: int
  ct_EntryHeight :: "int option"
  ct_Replaceable :: "bool option"
  ct_Depends :: "string list"

abbreviation ct_TxID :: "cand_tx \<Rightarrow> string" where "ct_TxID c \<equiv> tx_TxID (ct_Transaction c)"
abbreviation ct_WTxID :: "cand_tx \<Rightarrow> string" where "ct_WTxID c \<equiv> tx_WTxID (ct_Transaction c)"

record candidate =
  cd_CoreTipHeight :: int
  cd_CoreTipHash :: string
  cd_Transactions :: "cand_tx list"

datatype mempool_error =
    BadTipHash | NegativeTipHeight
  | CoinbaseTransaction string | CoinbaseInput string
  | DuplicateTxID string | DuplicateWTxID string
  | SelfDependency string | UnknownDependency string string
  | MempoolDatabase | NilPreviousOut | PubKeyIndex
  | ErrConfirmedIndexBehind | ErrMempoolRace | ErrRPCIdentityMismatch
  | CoinbaseReported string | WeightDisagrees string | MissingEntryField string string
  | FeeDecode decode_error | TxDecode decode_error
  | MempoolOutside string

text \<open>The first loop of \<open>validate\<close>; the two maps hold the identifiers seen so far.\<close>

definition validate_tx :: "cand_tx \<Rightarrow> string set \<times> string set \<Rightarrow> mempool_error + string set \<times> string set" where
  "validate_tx txn = (\<lambda>(txids, wtxids).
    rbind (guard (\<not> tx_IsCoinbase (ct_Transaction txn)) (CoinbaseTransaction (ct_TxID txn))) (\<lambda>_.
    rbind (for_each (\<lambda>inp. guard (in_PreviousOut inp \<noteq> None) (CoinbaseInput (ct_TxID txn)))
             (tx_Inputs (ct_Transaction txn))) (\<lambda>_.
    rbind (guard (ct_TxID txn \<notin> txids) (DuplicateTxID (ct_TxID txn))) (\<lambda>_.
    rbind (guard (ct_WTxID txn \<notin> wtxids) (DuplicateWTxID (ct_WTxID txn))) (\<lambda>_.
    Inr (insert (ct_TxID txn) txids, insert (ct_WTxID txn) wtxids))))))"

definition validate_dependency :: "string set \<Rightarrow> cand_tx \<Rightarrow> string \<Rightarrow> mempool_error + unit" where
  "validate_dependency txids txn dep =
    (if dep = ct_TxID txn then Inl (SelfDependency dep)
     else guard (dep \<in> txids) (UnknownDependency (ct_TxID txn) dep))"

definition validate :: "candidate \<Rightarrow> mempool_error + unit" where
  "validate c =
    rbind (guard (is_hash64 (cd_CoreTipHash c)) BadTipHash) (\<lambda>_.
    rbind (guard (0 \<le> cd_CoreTipHeight c) NegativeTipHeight) (\<lambda>_.
    rbind (fold_res validate_tx (cd_Transactions c) ({}, {})) (\<lambda>(txids, wtxids).
    for_each (\<lambda>txn. for_each (validate_dependency txids txn) (ct_Depends txn)) (cd_Transactions c))))"

section \<open>The tables\<close>

record mtx_row =
  m_wtxid :: string
  m_version :: int
  m_locktime :: int
  m_size :: int
  m_vsize :: int
  m_weight :: int
  m_fee :: int
  m_entry_time :: int
  m_entry_height :: "int option"
  m_replaceable :: "bool option"

record min_row =
  n_prev :: outpoint
  n_script_sig :: "bytes option"
  n_sequence :: int

record mempool_state =
  ms_Initialized :: bool
  ms_Generation :: int
  ms_CoreTipHeight :: "int option"
  ms_CoreTipHash :: "string option"
  ms_TxCount :: int
  ms_TotalVSize :: int
  ms_TotalFeeSatoshis :: int

record mempool_db =
  mstate :: mempool_state
  mtxs :: "(string, mtx_row) table"
  minputs :: "(string \<times> nat, min_row) table"
  mwitness :: "(string \<times> nat \<times> nat, bytes) table"
  moutputs :: "(outpoint, out_row) table"
  maddresses :: "(outpoint, string) table"
  mparticipants :: "(outpoint \<times> string, bytes) table"
  mdeps :: "(string \<times> string, unit) table"

definition initial_mempool :: mempool_db where
  "initial_mempool = \<lparr>mstate = \<lparr>ms_Initialized = False, ms_Generation = 0, ms_CoreTipHeight = None,
     ms_CoreTipHash = None, ms_TxCount = 0, ms_TotalVSize = 0, ms_TotalFeeSatoshis = 0\<rparr>,
     mtxs = [], minputs = [], mwitness = [], moutputs = [], maddresses = [], mparticipants = [], mdeps = []\<rparr>"

definition mtx_checks :: "string \<Rightarrow> mtx_row \<Rightarrow> bool" where
  "mtx_checks txid r \<longleftrightarrow> is_hash64 txid \<and> is_hash64 (m_wtxid r) \<and> in_u32 (m_version r)
    \<and> in_u32 (m_locktime r) \<and> 0 \<le> m_size r \<and> 0 \<le> m_vsize r \<and> 0 \<le> m_weight r
    \<and> in_i32 (m_size r) \<and> in_i32 (m_vsize r) \<and> in_i32 (m_weight r) \<and> 0 \<le> m_fee r
    \<and> (case m_entry_height r of None \<Rightarrow> True | Some h \<Rightarrow> 0 \<le> h)"

definition min_checks :: "nat \<Rightarrow> min_row \<Rightarrow> bool" where
  "min_checks vin r \<longleftrightarrow> fits_int4 vin \<and> is_hash64 (fst (n_prev r)) \<and> fits_int4 (snd (n_prev r))
    \<and> in_u32 (n_sequence r)"

definition mempool_state_checks :: "mempool_state \<Rightarrow> bool" where
  "mempool_state_checks s \<longleftrightarrow> 0 \<le> ms_Generation s \<and> in_i64 (ms_Generation s)
    \<and> 0 \<le> ms_TxCount s \<and> in_i32 (ms_TxCount s) \<and> 0 \<le> ms_TotalVSize s \<and> 0 \<le> ms_TotalFeeSatoshis s
    \<and> (case ms_CoreTipHeight s of None \<Rightarrow> True | Some h \<Rightarrow> 0 \<le> h)
    \<and> (case ms_CoreTipHash s of None \<Rightarrow> True | Some h \<Rightarrow> is_hash64 h)
    \<and> (\<not> ms_Initialized s \<and> ms_Generation s = 0 \<and> ms_CoreTipHeight s = None \<and> ms_CoreTipHash s = None
         \<and> ms_TxCount s = 0 \<and> ms_TotalVSize s = 0 \<and> ms_TotalFeeSatoshis s = 0
       \<or> ms_Initialized s \<and> 1 \<le> ms_Generation s \<and> ms_CoreTipHeight s \<noteq> None \<and> ms_CoreTipHash s \<noteq> None)"

text \<open>A plain \<open>INSERT\<close>: constraints and foreign keys (\<open>ok\<close>) and a fresh primary key.\<close>

definition insert_row :: "bool \<Rightarrow> 'k \<Rightarrow> 'v \<Rightarrow> ('k, 'v) table \<Rightarrow> mempool_error + ('k, 'v) table" where
  "insert_row ok k v t = (if ok \<and> tget t k = None then Inr (tinsert k v t) else Inl MempoolDatabase)"

text \<open>\<open>ON DELETE CASCADE\<close>: rows whose parent is gone go with it.\<close>

definition delete_transactions :: "mempool_db \<Rightarrow> mempool_db" where
  "delete_transactions d =
    (let txs = tdelete (\<lambda>_ _. True) (mtxs d);
         ins = tdelete (\<lambda>k _. tget txs (fst k) = None) (minputs d);
         outs = tdelete (\<lambda>k _. tget txs (fst k) = None) (moutputs d)
     in d\<lparr>mtxs := txs, minputs := ins, moutputs := outs,
          mwitness := tdelete (\<lambda>k _. tget ins (fst k, fst (snd k)) = None) (mwitness d),
          maddresses := tdelete (\<lambda>k _. tget outs k = None) (maddresses d),
          mparticipants := tdelete (\<lambda>k _. tget outs (fst k) = None) (mparticipants d),
          mdeps := tdelete (\<lambda>k _. tget txs (fst k) = None \<or> tget txs (snd k) = None) (mdeps d)\<rparr>)"

section \<open>store.go\<close>

definition State :: "mempool_db \<Rightarrow> mempool_state" where "State d = mstate d"

definition mtx_row_of :: "cand_tx \<Rightarrow> mtx_row" where
  "mtx_row_of c = (let t = ct_Transaction c in
    \<lparr>m_wtxid = tx_WTxID t, m_version = int (tx_Version t), m_locktime = int (tx_LockTime t),
     m_size = tx_Size t, m_vsize = tx_VSize t, m_weight = tx_Weight t, m_fee = ct_FeeSatoshis c,
     m_entry_time = ct_EntryTime c, m_entry_height = ct_EntryHeight c, m_replaceable = ct_Replaceable c\<rparr>)"

definition insert_mempool_tx :: "cand_tx \<Rightarrow> mempool_db \<Rightarrow> mempool_error + mempool_db" where
  "insert_mempool_tx c d =
    rbind (insert_row (mtx_checks (ct_TxID c) (mtx_row_of c)
        \<and> list_all (\<lambda>(_, r). m_wtxid r \<noteq> ct_WTxID c) (mtxs d))
      (ct_TxID c) (mtx_row_of c) (mtxs d)) (\<lambda>t. Inr (d\<lparr>mtxs := t\<rparr>))"

definition insert_mempool_witness :: "string \<Rightarrow> nat \<Rightarrow> nat \<times> bytes \<Rightarrow> mempool_db \<Rightarrow> mempool_error + mempool_db" where
  "insert_mempool_witness txid vin = (\<lambda>(itemIndex, item) d.
    rbind (insert_row (fits_int4 itemIndex \<and> tget (minputs d) (txid, vin) \<noteq> None)
      (txid, vin, itemIndex) item (mwitness d)) (\<lambda>t. Inr (d\<lparr>mwitness := t\<rparr>)))"

definition min_row_of :: "outpoint \<Rightarrow> tx_input \<Rightarrow> min_row" where
  "min_row_of p inp = \<lparr>n_prev = p, n_script_sig = in_ScriptSig inp, n_sequence = int (in_Sequence inp)\<rparr>"

definition insert_mempool_input_row :: "string \<Rightarrow> outpoint \<Rightarrow> tx_input \<Rightarrow> mempool_db \<Rightarrow> mempool_error + mempool_db" where
  "insert_mempool_input_row txid p inp d =
    rbind (insert_row (min_checks (in_Index inp) (min_row_of p inp) \<and> tget (mtxs d) txid \<noteq> None)
      (txid, in_Index inp) (min_row_of p inp) (minputs d)) (\<lambda>t. Inr (d\<lparr>minputs := t\<rparr>))"

definition insert_mempool_input :: "string \<Rightarrow> tx_input \<Rightarrow> mempool_db \<Rightarrow> mempool_error + mempool_db" where
  "insert_mempool_input txid inp d =
    (case in_PreviousOut inp of
       None \<Rightarrow> Inl NilPreviousOut
     | Some p \<Rightarrow>
       rbind (insert_mempool_input_row txid p inp d)
         (fold_res (insert_mempool_witness txid (in_Index inp)) (enumerate 0 (in_Witness inp))))"

definition mout_type :: "mempool_db \<Rightarrow> outpoint \<Rightarrow> script_type option" where
  "mout_type d op = map_option o_type (tget (moutputs d) op)"

definition insert_mempool_output_row :: "string \<Rightarrow> tx_output \<Rightarrow> mempool_db \<Rightarrow> mempool_error + mempool_db" where
  "insert_mempool_output_row txid out d =
    rbind (insert_row (output_checks (out_Index out) (out_row_of out) \<and> tget (mtxs d) txid \<noteq> None)
      (txid, out_Index out) (out_row_of out) (moutputs d)) (\<lambda>t. Inr (d\<lparr>moutputs := t\<rparr>))"

text \<open>The trigger on participants, the foreign key, and the index into \<open>PubKeys\<close>.\<close>

definition insert_mempool_participant ::
  "outpoint \<Rightarrow> bytes list \<Rightarrow> nat \<times> string \<Rightarrow> mempool_db \<Rightarrow> mempool_error + mempool_db" where
  "insert_mempool_participant op pubKeys = (\<lambda>(i, addr) d.
    if length pubKeys \<le> i then Inl PubKeyIndex
    else rbind (insert_row (mout_type d op = Some TypeMultisig \<and> tget (moutputs d) op \<noteq> None)
      (op, addr) (pubKeys ! i) (mparticipants d)) (\<lambda>t. Inr (d\<lparr>mparticipants := t\<rparr>)))"

definition insert_mempool_address :: "outpoint \<Rightarrow> string \<Rightarrow> mempool_db \<Rightarrow> mempool_error + mempool_db" where
  "insert_mempool_address op addr d =
    rbind (insert_row (mout_type d op \<noteq> Some TypeMultisig \<and> tget (moutputs d) op \<noteq> None)
      op addr (maddresses d)) (\<lambda>t. Inr (d\<lparr>maddresses := t\<rparr>))"

definition insert_mempool_output :: "string \<Rightarrow> tx_output \<Rightarrow> mempool_db \<Rightarrow> mempool_error + mempool_db" where
  "insert_mempool_output txid out d =
    rbind (insert_mempool_output_row txid out d) (\<lambda>d1.
    if out_ScriptType out = TypeMultisig then
      fold_res (insert_mempool_participant (txid, out_Index out) (out_PubKeys out))
        (enumerate 0 (out_ParticipantAddresses out)) d1
    else if out_Address out \<noteq> [] then insert_mempool_address (txid, out_Index out) (out_Address out) d1
    else Inr d1)"

definition insertCandidateTransactionBody :: "cand_tx \<Rightarrow> mempool_db \<Rightarrow> mempool_error + mempool_db" where
  "insertCandidateTransactionBody c d =
    rbind (insert_mempool_tx c d) (\<lambda>d1.
    rbind (fold_res (insert_mempool_input (ct_TxID c)) (tx_Inputs (ct_Transaction c)) d1)
    (fold_res (insert_mempool_output (ct_TxID c)) (tx_Outputs (ct_Transaction c))))"

definition insert_dependency :: "string \<Rightarrow> string \<Rightarrow> mempool_db \<Rightarrow> mempool_error + mempool_db" where
  "insert_dependency txid dep d =
    rbind (insert_row (txid \<noteq> dep \<and> tget (mtxs d) txid \<noteq> None \<and> tget (mtxs d) dep \<noteq> None)
      (txid, dep) () (mdeps d)) (\<lambda>t. Inr (d\<lparr>mdeps := t\<rparr>))"

definition insertCandidateDependencies :: "cand_tx \<Rightarrow> mempool_db \<Rightarrow> mempool_error + mempool_db" where
  "insertCandidateDependencies c = fold_res (insert_dependency (ct_TxID c)) (ct_Depends c)"

definition insert_body_totals ::
  "cand_tx \<Rightarrow> mempool_db \<times> int \<times> int \<Rightarrow> mempool_error + mempool_db \<times> int \<times> int" where
  "insert_body_totals c = (\<lambda>(d, totalVSize, totalFee).
    rbind (insertCandidateTransactionBody c d) (\<lambda>d'.
    Inr (d', add64 totalVSize (tx_VSize (ct_Transaction c)), add64 totalFee (ct_FeeSatoshis c))))"

definition update_mempool_state ::
  "candidate \<Rightarrow> int \<Rightarrow> int \<Rightarrow> mempool_db \<Rightarrow> mempool_error + int \<times> mempool_db" where
  "update_mempool_state c totalVSize totalFee d =
    (let s = \<lparr>ms_Initialized = True, ms_Generation = ms_Generation (mstate d) + 1,
              ms_CoreTipHeight = Some (cd_CoreTipHeight c), ms_CoreTipHash = Some (cd_CoreTipHash c),
              ms_TxCount = int (length (cd_Transactions c)), ms_TotalVSize = totalVSize,
              ms_TotalFeeSatoshis = totalFee\<rparr>
     in if mempool_state_checks s then Inr (ms_Generation s, d\<lparr>mstate := s\<rparr>) else Inl MempoolDatabase)"

text \<open>A failed replacement is rolled back: the database is the one before the call.\<close>

definition ReplaceSnapshot :: "candidate \<Rightarrow> mempool_db \<Rightarrow> mempool_error + int \<times> mempool_db" where
  "ReplaceSnapshot c d =
    rbind (validate c) (\<lambda>_.
    rbind (fold_res insert_body_totals (cd_Transactions c) (delete_transactions d, 0, 0)) (\<lambda>(d1, totalVSize, totalFee).
    rbind (fold_res insertCandidateDependencies (cd_Transactions c) d1) (\<lambda>d2.
    update_mempool_state c totalVSize totalFee d2)))"

end
