(* ===== verification/MempoolStore.thy ===== *)
theory MempoolStore
  imports Mempool "HOL-Library.Multiset"
begin

text \<open>
  What \<open>ReplaceSnapshot\<close> does: the snapshot it writes as a function of the candidate, the exact
  condition under which it succeeds, and what follows from both.
\<close>

section \<open>Insertion loops into one table\<close>

text \<open>A table inside a larger state.\<close>

locale table_field =
  fixes get :: "'d \<Rightarrow> ('k, 'v) table" and put :: "('k, 'v) table \<Rightarrow> 'd \<Rightarrow> 'd"
  assumes get_put [simp]: "get (put t d) = t"
    and put_put [simp]: "put t (put t' d) = put t d"
    and put_get [simp]: "put (get d) d = d"
begin

definition insert_step :: "('x \<Rightarrow> 'd \<Rightarrow> bool) \<Rightarrow> ('x \<Rightarrow> 'k) \<Rightarrow> ('x \<Rightarrow> 'v) \<Rightarrow> 'x \<Rightarrow> 'd \<Rightarrow> mempool_error + 'd" where
  "insert_step ok key val x d = rbind (insert_row (ok x d) (key x) (val x) (get d)) (\<lambda>t. Inr (put t d))"

lemma insert_step_Inr:
  "insert_step ok key val x d = Inr d' \<longleftrightarrow>
    ok x d \<and> tget (get d) (key x) = None \<and> d' = put (get d @ [(key x, val x)]) d"
  by (auto simp: insert_step_def insert_row_def tinsert_def)

lemma insert_loop_Inr:
  assumes stable: "\<And>x t d. ok x (put t d) = ok x d"
  shows "fold_res (insert_step ok key val) xs d = Inr d' \<longleftrightarrow>
    (\<forall>x \<in> set xs. ok x d \<and> tget (get d) (key x) = None) \<and> distinct (map key xs)
    \<and> d' = put (get d @ map (\<lambda>x. (key x, val x)) xs) d"
proof (induction xs arbitrary: d)
  case Nil
  then show ?case by (auto simp: eq_commute)
next
  case (Cons x xs)
  have fresh: "tget (get d @ [(key x, val x)]) k = None \<longleftrightarrow> tget (get d) k = None \<and> k \<noteq> key x" for k
    by (auto simp: tget_def map_of_eq_None_iff)
  have "fold_res (insert_step ok key val) (x # xs) d = Inr d' \<longleftrightarrow>
    ok x d \<and> tget (get d) (key x) = None
    \<and> fold_res (insert_step ok key val) xs (put (get d @ [(key x, val x)]) d) = Inr d'"
    by (auto simp: rbind_eq_Inr_iff insert_step_Inr)
  then show ?case
    unfolding Cons.IH get_put put_put fresh stable by (auto simp: image_iff)
qed

end

interpretation wit: table_field mwitness "\<lambda>t. mwitness_update (\<lambda>_. t)" by unfold_locales simp_all
interpretation ins: table_field minputs "\<lambda>t. minputs_update (\<lambda>_. t)" by unfold_locales simp_all
interpretation outs: table_field moutputs "\<lambda>t. moutputs_update (\<lambda>_. t)" by unfold_locales simp_all
interpretation parts: table_field mparticipants "\<lambda>t. mparticipants_update (\<lambda>_. t)" by unfold_locales simp_all
interpretation addrs: table_field maddresses "\<lambda>t. maddresses_update (\<lambda>_. t)" by unfold_locales simp_all
interpretation deps: table_field mdeps "\<lambda>t. mdeps_update (\<lambda>_. t)" by unfold_locales simp_all
interpretation txs: table_field mtxs "\<lambda>t. mtxs_update (\<lambda>_. t)" by unfold_locales simp_all

lemma ball_enumerate: "(\<forall>x \<in> set (enumerate 0 xs). P (fst x) (snd x)) \<longleftrightarrow> (\<forall>i < length xs. P i (xs ! i))"
proof -
  have "set (enumerate 0 xs) = (\<lambda>i. (i, xs ! i)) ` {..<length xs}"
    by (force simp: in_set_enumerate_eq image_iff)
  then show ?thesis by auto
qed

section \<open>Inputs\<close>

definition input_row :: "string \<Rightarrow> tx_input \<Rightarrow> (string \<times> nat) \<times> min_row" where
  "input_row txid inp = ((txid, in_Index inp), min_row_of (the (in_PreviousOut inp)) inp)"

definition witness_rows :: "string \<Rightarrow> tx_input \<Rightarrow> ((string \<times> nat \<times> nat) \<times> bytes) list" where
  "witness_rows txid inp = map (\<lambda>(i, item). ((txid, in_Index inp, i), item)) (enumerate 0 (in_Witness inp))"

definition input_storable :: "tx_input \<Rightarrow> bool" where
  "input_storable inp \<longleftrightarrow> (case in_PreviousOut inp of None \<Rightarrow> False | Some p \<Rightarrow>
     min_checks (in_Index inp) (min_row_of p inp)
     \<and> list_all (\<lambda>i. fits_int4 i) [0..<length (in_Witness inp)])"

lemma witness_loop_Inr:
  "fold_res (insert_mempool_witness txid vin) (enumerate 0 ws) d = Inr d' \<longleftrightarrow>
    (\<forall>i < length ws. fits_int4 i \<and> tget (minputs d) (txid, vin) \<noteq> None \<and> tget (mwitness d) (txid, vin, i) = None)
    \<and> d' = d\<lparr>mwitness := mwitness d @ map (\<lambda>(i, item). ((txid, vin, i), item)) (enumerate 0 ws)\<rparr>"
proof -
  have "insert_mempool_witness txid vin =
    wit.insert_step (\<lambda>p d. fits_int4 (fst p) \<and> tget (minputs d) (txid, vin) \<noteq> None)
      (\<lambda>p. (txid, vin, fst p)) snd"
    by (auto simp: insert_mempool_witness_def wit.insert_step_def fun_eq_iff)
  moreover have "distinct (map (\<lambda>p. (txid, vin, fst p)) (enumerate 0 ws))"
  proof -
    have "map (\<lambda>p. (txid, vin, fst p)) (enumerate 0 ws) = map (\<lambda>i. (txid, vin, i)) (map fst (enumerate 0 ws))"
      unfolding map_map by (rule map_cong) simp_all
    then show ?thesis by (simp del: map_map add: distinct_map inj_on_def)
  qed
  ultimately have "fold_res (insert_mempool_witness txid vin) (enumerate 0 ws) d = Inr d' \<longleftrightarrow>
    (\<forall>x \<in> set (enumerate 0 ws). (fits_int4 (fst x) \<and> tget (minputs d) (txid, vin) \<noteq> None)
      \<and> tget (mwitness d) (txid, vin, fst x) = None)
    \<and> d' = d\<lparr>mwitness := mwitness d @ map (\<lambda>x. ((txid, vin, fst x), snd x)) (enumerate 0 ws)\<rparr>"
    using wit.insert_loop_Inr
      [of "\<lambda>p d. fits_int4 (fst p) \<and> tget (minputs d) (txid, vin) \<noteq> None" "\<lambda>p. (txid, vin, fst p)" snd "enumerate 0 ws" d d']
    by simp
  then show ?thesis
    unfolding ball_enumerate [of ws "\<lambda>i _. (fits_int4 i \<and> tget (minputs d) (txid, vin) \<noteq> None)
      \<and> tget (mwitness d) (txid, vin, i) = None"] split_beta by (simp only: conj_assoc)
qed

lemma insert_input_Inr:
  "insert_mempool_input txid inp d = Inr d' \<longleftrightarrow> input_storable inp \<and> tget (mtxs d) txid \<noteq> None
    \<and> tget (minputs d) (txid, in_Index inp) = None
    \<and> (\<forall>i < length (in_Witness inp). tget (mwitness d) (txid, in_Index inp, i) = None)
    \<and> d' = d\<lparr>minputs := minputs d @ [input_row txid inp], mwitness := mwitness d @ witness_rows txid inp\<rparr>"
proof (cases "in_PreviousOut inp")
  case None
  then show ?thesis by (simp add: insert_mempool_input_def input_storable_def)
next
  case (Some p)
  have here: "tget (minputs d @ [((txid, in_Index inp), r)]) (txid, in_Index inp) \<noteq> None" for r
    by (simp add: tget_def map_add_def split: option.splits)
  show ?thesis
    using Some here
    by (auto simp: insert_mempool_input_def insert_mempool_input_row_def insert_row_def rbind_eq_Inr_iff
        witness_loop_Inr input_storable_def input_row_def witness_rows_def tinsert_def list_all_iff)
qed

lemma tget_append_None: "tget (t @ t') k = None \<longleftrightarrow> tget t k = None \<and> k \<notin> fst ` set t'"
  by (auto simp: tget_def map_of_eq_None_iff)

lemma witness_rows_keys: "fst ` set (witness_rows txid inp) = {(txid, in_Index inp, i) | i. i < length (in_Witness inp)}"
  by (force simp: witness_rows_def in_set_enumerate_eq image_iff)

lemma inputs_loop_Inr:
  "fold_res (insert_mempool_input txid) inps d = Inr d' \<longleftrightarrow>
    (\<forall>inp \<in> set inps. input_storable inp \<and> tget (mtxs d) txid \<noteq> None
      \<and> tget (minputs d) (txid, in_Index inp) = None
      \<and> (\<forall>i < length (in_Witness inp). tget (mwitness d) (txid, in_Index inp, i) = None))
    \<and> distinct (map in_Index inps)
    \<and> d' = d\<lparr>minputs := minputs d @ map (input_row txid) inps,
             mwitness := mwitness d @ concat (map (witness_rows txid) inps)\<rparr>"
proof (induction inps arbitrary: d)
  case Nil
  then show ?case by (auto simp: eq_commute)
next
  case (Cons x xs)
  have wn: "tget (mwitness d @ witness_rows txid x) (txid, j, i) = None \<longleftrightarrow>
      tget (mwitness d) (txid, j, i) = None \<and> (j = in_Index x \<longrightarrow> length (in_Witness x) \<le> i)" for j i
    by (auto simp: tget_append_None witness_rows_keys)
  have inn: "tget (minputs d @ [input_row txid x]) (txid, j) = None \<longleftrightarrow>
      tget (minputs d) (txid, j) = None \<and> j \<noteq> in_Index x" for j
    by (auto simp: tget_append_None input_row_def)
  have "fold_res (insert_mempool_input txid) (x # xs) d = Inr d' \<longleftrightarrow>
    input_storable x \<and> tget (mtxs d) txid \<noteq> None \<and> tget (minputs d) (txid, in_Index x) = None
    \<and> (\<forall>i < length (in_Witness x). tget (mwitness d) (txid, in_Index x, i) = None)
    \<and> fold_res (insert_mempool_input txid) xs
        (d\<lparr>minputs := minputs d @ [input_row txid x], mwitness := mwitness d @ witness_rows txid x\<rparr>) = Inr d'"
    by (auto simp: rbind_eq_Inr_iff insert_input_Inr)
  then show ?case unfolding Cons.IH by (simp add: wn inn) (auto simp: image_iff)
qed

section \<open>Outputs\<close>

definition output_row :: "string \<Rightarrow> tx_output \<Rightarrow> outpoint \<times> out_row" where
  "output_row txid out = ((txid, out_Index out), out_row_of out)"

definition participant_rows :: "string \<Rightarrow> tx_output \<Rightarrow> ((outpoint \<times> string) \<times> bytes) list" where
  "participant_rows txid out =
    (if out_ScriptType out = TypeMultisig
     then map (\<lambda>(i, addr). (((txid, out_Index out), addr), out_PubKeys out ! i)) (enumerate 0 (out_ParticipantAddresses out))
     else [])"

definition address_rows :: "string \<Rightarrow> tx_output \<Rightarrow> (outpoint \<times> string) list" where
  "address_rows txid out =
    (if out_ScriptType out \<noteq> TypeMultisig \<and> out_Address out \<noteq> [] then [((txid, out_Index out), out_Address out)] else [])"

text \<open>
  An output is storable if its row passes the constraints and, for a bare multisig output, there is
  a public key for every participant and no participant address occurs twice.
\<close>

definition output_storable :: "tx_output \<Rightarrow> bool" where
  "output_storable out \<longleftrightarrow> output_checks (out_Index out) (out_row_of out)
    \<and> (out_ScriptType out = TypeMultisig \<longrightarrow>
        length (out_ParticipantAddresses out) \<le> length (out_PubKeys out) \<and> distinct (out_ParticipantAddresses out))"

lemma participant_loop_Inr:
  "fold_res (insert_mempool_participant op keys) (enumerate 0 addrs) d = Inr d' \<longleftrightarrow>
    (addrs \<noteq> [] \<longrightarrow> mout_type d op = Some TypeMultisig) \<and> length addrs \<le> length keys
    \<and> distinct addrs \<and> (\<forall>a \<in> set addrs. tget (mparticipants d) (op, a) = None)
    \<and> d' = d\<lparr>mparticipants := mparticipants d @ map (\<lambda>(i, a). ((op, a), keys ! i)) (enumerate 0 addrs)\<rparr>"
proof -
  let ?ok = "\<lambda>p d. fst p < length keys \<and> mout_type d op = Some TypeMultisig"
  have step: "insert_mempool_participant op keys p d = Inr d' \<longleftrightarrow>
    parts.insert_step ?ok (\<lambda>p. (op, snd p)) (\<lambda>p. keys ! fst p) p d = Inr d'" for p d d'
    by (cases p) (auto simp: insert_mempool_participant_def parts.insert_step_def insert_row_def mout_type_def)
  have loop: "fold_res (insert_mempool_participant op keys) ps d = Inr d' \<longleftrightarrow>
    fold_res (parts.insert_step ?ok (\<lambda>p. (op, snd p)) (\<lambda>p. keys ! fst p)) ps d = Inr d'" for ps d
    by (induction ps arbitrary: d) (simp_all add: rbind_eq_Inr_iff step)
  have dist: "distinct (map (\<lambda>p. (op, snd p)) (enumerate 0 addrs)) \<longleftrightarrow> distinct addrs"
  proof -
    have "map (\<lambda>p. (op, snd p)) (enumerate 0 addrs) = map (Pair op) (map snd (enumerate 0 addrs))"
      unfolding map_map by (rule map_cong) simp_all
    then show ?thesis by (simp del: map_map add: distinct_map inj_on_def)
  qed
  have len: "(\<forall>i < length addrs. i < length keys) \<longleftrightarrow> length addrs \<le> length keys"
    using less_irrefl [of "length keys"] by (meson linorder_not_le order_less_le_trans)
  have stable: "mout_type (d\<lparr>mparticipants := t\<rparr>) op = mout_type d op" for t d
    by (simp add: mout_type_def)
  have "fold_res (insert_mempool_participant op keys) (enumerate 0 addrs) d = Inr d' \<longleftrightarrow>
    (\<forall>x \<in> set (enumerate 0 addrs). (fst x < length keys \<and> mout_type d op = Some TypeMultisig)
        \<and> tget (mparticipants d) (op, snd x) = None)
    \<and> distinct addrs
    \<and> d' = d\<lparr>mparticipants := mparticipants d @ map (\<lambda>p. ((op, snd p), keys ! fst p)) (enumerate 0 addrs)\<rparr>"
    unfolding loop dist [symmetric] by (rule parts.insert_loop_Inr) (simp only: stable)
  also have "(\<forall>x \<in> set (enumerate 0 addrs). (fst x < length keys \<and> mout_type d op = Some TypeMultisig)
        \<and> tget (mparticipants d) (op, snd x) = None) \<longleftrightarrow>
    (\<forall>i < length addrs. (i < length keys \<and> mout_type d op = Some TypeMultisig)
        \<and> tget (mparticipants d) (op, addrs ! i) = None)"
    by (rule ball_enumerate)
  also have "\<dots> \<longleftrightarrow> (addrs \<noteq> [] \<longrightarrow> mout_type d op = Some TypeMultisig) \<and> length addrs \<le> length keys
    \<and> (\<forall>a \<in> set addrs. tget (mparticipants d) (op, a) = None)"
    unfolding all_set_conv_all_nth len [symmetric] by (cases addrs) auto
  finally show ?thesis unfolding split_beta by blast
qed

lemma participant_rows_keys:
  "fst ` set (participant_rows txid out) =
    (if out_ScriptType out = TypeMultisig then Pair (txid, out_Index out) ` set (out_ParticipantAddresses out) else {})"
proof -
  have "fst ` set (map (\<lambda>(i, addr). (((txid, out_Index out), addr), out_PubKeys out ! i)) (enumerate 0 as))
    = Pair (txid, out_Index out) ` set as" for as
  proof -
    have "fst ` set (map (\<lambda>(i, addr). (((txid, out_Index out), addr), out_PubKeys out ! i)) (enumerate 0 as))
      = Pair (txid, out_Index out) ` snd ` set (enumerate 0 as)" by force
    also have "snd ` set (enumerate 0 as) = set as" by (metis list.set_map map_snd_enumerate)
    finally show ?thesis .
  qed
  then show ?thesis unfolding participant_rows_def
    by (cases "out_ScriptType out = TypeMultisig") (simp_all only: if_True if_False simp_thms list.set image_empty)
qed

lemma address_rows_keys:
  "fst ` set (address_rows txid out) =
    (if out_ScriptType out \<noteq> TypeMultisig \<and> out_Address out \<noteq> [] then {(txid, out_Index out)} else {})"
  by (simp add: address_rows_def)

lemma mout_type_last:
  "tget (moutputs d) op = None \<Longrightarrow> mout_type (d\<lparr>moutputs := moutputs d @ [(op, r)]\<rparr>) op = Some (o_type r)"
  by (simp add: mout_type_def tget_def map_add_def split: option.splits)

lemma insert_output_Inr:
  "insert_mempool_output txid out d = Inr d' \<longleftrightarrow> output_storable out \<and> tget (mtxs d) txid \<noteq> None
    \<and> tget (moutputs d) (txid, out_Index out) = None
    \<and> (\<forall>k \<in> fst ` set (participant_rows txid out). tget (mparticipants d) k = None)
    \<and> (\<forall>k \<in> fst ` set (address_rows txid out). tget (maddresses d) k = None)
    \<and> d' = d\<lparr>moutputs := moutputs d @ [output_row txid out],
             mparticipants := mparticipants d @ participant_rows txid out,
             maddresses := maddresses d @ address_rows txid out\<rparr>"
proof -
  let ?op = "(txid, out_Index out)"
  define d1 where "d1 = d\<lparr>moutputs := moutputs d @ [output_row txid out]\<rparr>"
  have row: "insert_mempool_output_row txid out d = Inr x \<longleftrightarrow>
    output_checks (out_Index out) (out_row_of out) \<and> tget (mtxs d) txid \<noteq> None \<and> tget (moutputs d) ?op = None
    \<and> x = d1" for x
    by (auto simp: insert_mempool_output_row_def insert_row_def rbind_eq_Inr_iff tinsert_def output_row_def d1_def)
  have ty: "mout_type d1 ?op = Some (out_ScriptType out)" "tget (moutputs d1) ?op \<noteq> None"
    if "tget (moutputs d) ?op = None"
    using mout_type_last [OF that, of "out_row_of out"] by (auto simp: d1_def output_row_def out_row_of_def mout_type_def)
  have d1: "mparticipants d1 = mparticipants d" "maddresses d1 = maddresses d" by (simp_all add: d1_def)
  have upd: "d1\<lparr>mparticipants := ps\<rparr> = d\<lparr>moutputs := moutputs d @ [output_row txid out], mparticipants := ps\<rparr>"
    "d1\<lparr>maddresses := as\<rparr> = d\<lparr>moutputs := moutputs d @ [output_row txid out], maddresses := as\<rparr>" for ps as
    by (simp_all add: d1_def)
  have addr: "insert_mempool_address ?op a d1 = Inr x \<longleftrightarrow>
    out_ScriptType out \<noteq> TypeMultisig \<and> tget (maddresses d) ?op = None
      \<and> x = d1\<lparr>maddresses := maddresses d @ [(?op, a)]\<rparr>"
    if "tget (moutputs d) ?op = None" for a x
    using ty [OF that] by (auto simp: insert_mempool_address_def insert_row_def rbind_eq_Inr_iff tinsert_def d1)
  consider (multi) "out_ScriptType out = TypeMultisig" | (plain) "out_ScriptType out \<noteq> TypeMultisig" "out_Address out \<noteq> []"
    | (none) "out_ScriptType out \<noteq> TypeMultisig" "out_Address out = []" by blast
  then show ?thesis
  proof cases
    case multi
    then have a: "address_rows txid out = []" by (simp add: address_rows_def)
    show ?thesis
      unfolding insert_mempool_output_def rbind_eq_Inr_iff row participant_rows_keys a
      using multi ty
      by (auto simp: participant_loop_Inr output_storable_def participant_rows_def d1 upd)
  next
    case plain
    then have p: "participant_rows txid out = []" by (simp add: participant_rows_def)
    show ?thesis
      unfolding insert_mempool_output_def rbind_eq_Inr_iff row address_rows_keys p
      using plain by (auto simp: addr output_storable_def address_rows_def upd)
  next
    case none
    then show ?thesis
      by (auto simp: insert_mempool_output_def rbind_eq_Inr_iff row output_storable_def address_rows_def
          participant_rows_def d1_def)
  qed
qed

lemma ex_eq_conj: "(\<exists>x. (A \<and> B \<and> C \<and> D \<and> E \<and> x = e) \<and> Q x) \<longleftrightarrow> A \<and> B \<and> C \<and> D \<and> E \<and> Q e"
  by blast

lemma outputs_loop_Inr:
  "fold_res (insert_mempool_output txid) outs d = Inr d' \<longleftrightarrow>
    (\<forall>out \<in> set outs. output_storable out \<and> tget (mtxs d) txid \<noteq> None
      \<and> tget (moutputs d) (txid, out_Index out) = None
      \<and> (\<forall>k \<in> fst ` set (participant_rows txid out). tget (mparticipants d) k = None)
      \<and> (\<forall>k \<in> fst ` set (address_rows txid out). tget (maddresses d) k = None))
    \<and> distinct (map out_Index outs)
    \<and> d' = d\<lparr>moutputs := moutputs d @ map (output_row txid) outs,
             mparticipants := mparticipants d @ concat (map (participant_rows txid) outs),
             maddresses := maddresses d @ concat (map (address_rows txid) outs)\<rparr>"
proof (induction outs arbitrary: d)
  case Nil
  then show ?case by (auto simp: eq_commute)
next
  case (Cons x xs)
  define e where "e = d\<lparr>moutputs := moutputs d @ [output_row txid x],
    mparticipants := mparticipants d @ participant_rows txid x, maddresses := maddresses d @ address_rows txid x\<rparr>"
  have o': "tget (moutputs e) (txid, j) = None \<longleftrightarrow> tget (moutputs d) (txid, j) = None \<and> j \<noteq> out_Index x" for j
    by (auto simp: tget_append_None output_row_def e_def)
  have pa: "(\<forall>k \<in> fst ` set (participant_rows txid y). tget (mparticipants e) k = None) \<longleftrightarrow>
      (\<forall>k \<in> fst ` set (participant_rows txid y). tget (mparticipants d) k = None)"
    "(\<forall>k \<in> fst ` set (address_rows txid y). tget (maddresses e) k = None) \<longleftrightarrow>
      (\<forall>k \<in> fst ` set (address_rows txid y). tget (maddresses d) k = None)"
    if "out_Index y \<noteq> out_Index x" for y
    using that unfolding e_def participant_rows_keys address_rows_keys
    by (simp_all add: tget_append_None participant_rows_keys address_rows_keys ball_Un image_iff)
  have step: "fold_res (insert_mempool_output txid) (x # xs) d = Inr d' \<longleftrightarrow>
    output_storable x \<and> tget (mtxs d) txid \<noteq> None \<and> tget (moutputs d) (txid, out_Index x) = None
    \<and> (\<forall>k \<in> fst ` set (participant_rows txid x). tget (mparticipants d) k = None)
    \<and> (\<forall>k \<in> fst ` set (address_rows txid x). tget (maddresses d) k = None)
    \<and> fold_res (insert_mempool_output txid) xs e = Inr d'"
    unfolding fold_res.simps rbind_eq_Inr_iff insert_output_Inr e_def by (rule ex_eq_conj)
  have e: "mtxs e = mtxs d" by (simp add: e_def)
  have rest: "e\<lparr>moutputs := moutputs e @ map (output_row txid) xs,
      mparticipants := mparticipants e @ concat (map (participant_rows txid) xs),
      maddresses := maddresses e @ concat (map (address_rows txid) xs)\<rparr>
    = d\<lparr>moutputs := moutputs d @ map (output_row txid) (x # xs),
      mparticipants := mparticipants d @ concat (map (participant_rows txid) (x # xs)),
      maddresses := maddresses d @ concat (map (address_rows txid) (x # xs))\<rparr>"
    by (simp add: e_def)
  show ?case
  proof (cases "out_Index x \<in> out_Index ` set xs")
    case True
    then show ?thesis unfolding step Cons.IH o' by auto
  next
    case False
    then have pa': "y \<in> set xs \<Longrightarrow> out_Index y \<noteq> out_Index x" for y by (metis image_eqI)
    have "(\<forall>y \<in> set xs. output_storable y \<and> tget (mtxs e) txid \<noteq> None \<and> tget (moutputs e) (txid, out_Index y) = None
        \<and> (\<forall>k \<in> fst ` set (participant_rows txid y). tget (mparticipants e) k = None)
        \<and> (\<forall>k \<in> fst ` set (address_rows txid y). tget (maddresses e) k = None))
      \<longleftrightarrow> (\<forall>y \<in> set xs. output_storable y \<and> tget (mtxs d) txid \<noteq> None \<and> tget (moutputs d) (txid, out_Index y) = None
        \<and> (\<forall>k \<in> fst ` set (participant_rows txid y). tget (mparticipants d) k = None)
        \<and> (\<forall>k \<in> fst ` set (address_rows txid y). tget (maddresses d) k = None))"
      by (rule ball_cong [OF refl]) (simp only: e o' pa pa' simp_thms not_False_eq_True)
    then show ?thesis unfolding step Cons.IH rest using False by auto
  qed
qed

section \<open>Whole transactions\<close>

definition tx_storable :: "cand_tx \<Rightarrow> bool" where
  "tx_storable c \<longleftrightarrow> mtx_checks (ct_TxID c) (mtx_row_of c)
    \<and> list_all input_storable (tx_Inputs (ct_Transaction c))
    \<and> distinct (map in_Index (tx_Inputs (ct_Transaction c)))
    \<and> list_all output_storable (tx_Outputs (ct_Transaction c))
    \<and> distinct (map out_Index (tx_Outputs (ct_Transaction c)))"

text \<open>The rows of a transaction, table by table.\<close>

definition add_body :: "cand_tx \<Rightarrow> mempool_db \<Rightarrow> mempool_db" where
  "add_body c d = (let inps = tx_Inputs (ct_Transaction c); outs = tx_Outputs (ct_Transaction c) in
    d\<lparr>mtxs := mtxs d @ [(ct_TxID c, mtx_row_of c)],
      minputs := minputs d @ map (input_row (ct_TxID c)) inps,
      mwitness := mwitness d @ concat (map (witness_rows (ct_TxID c)) inps),
      moutputs := moutputs d @ map (output_row (ct_TxID c)) outs,
      mparticipants := mparticipants d @ concat (map (participant_rows (ct_TxID c)) outs),
      maddresses := maddresses d @ concat (map (address_rows (ct_TxID c)) outs)\<rparr>)"

text \<open>Every row of a child table belongs to a stored transaction.\<close>

definition owned :: "mempool_db \<Rightarrow> bool" where
  "owned d \<longleftrightarrow> (let ids = fst ` set (mtxs d) in
    fst ` fst ` set (minputs d) \<subseteq> ids \<and> fst ` fst ` set (mwitness d) \<subseteq> ids
    \<and> fst ` fst ` set (moutputs d) \<subseteq> ids \<and> fst ` fst ` set (maddresses d) \<subseteq> ids
    \<and> fst ` fst ` fst ` set (mparticipants d) \<subseteq> ids)"

lemma ownedD:
  assumes "owned d"
  shows "fst ` fst ` set (minputs d) \<subseteq> fst ` set (mtxs d)" "fst ` fst ` set (mwitness d) \<subseteq> fst ` set (mtxs d)"
    "fst ` fst ` set (moutputs d) \<subseteq> fst ` set (mtxs d)" "fst ` fst ` set (maddresses d) \<subseteq> fst ` set (mtxs d)"
    "fst ` fst ` fst ` set (mparticipants d) \<subseteq> fst ` set (mtxs d)"
  using assms unfolding owned_def Let_def by (simp_all only: simp_thms)

lemma not_key: "fst ` S \<subseteq> ids \<Longrightarrow> x \<notin> ids \<Longrightarrow> (x, y) \<notin> S"
  by force

lemma not_key2: "x \<notin> fst ` S \<Longrightarrow> (x, y) \<notin> S"
  by force

lemma owned_fresh:
  assumes "owned d" "txid \<notin> fst ` set (mtxs d)"
  shows "tget (minputs d) (txid, i) = None" "tget (mwitness d) (txid, i, j) = None"
    "tget (moutputs d) (txid, i) = None" "tget (maddresses d) (txid, i) = None"
    "tget (mparticipants d) ((txid, i), a) = None"
proof -
  note n = not_key [OF _ assms(2)] and o' = ownedD [OF assms(1)]
  show "tget (minputs d) (txid, i) = None" unfolding tget_def map_of_eq_None_iff by (rule n [OF o'(1)])
  show "tget (mwitness d) (txid, i, j) = None" unfolding tget_def map_of_eq_None_iff by (rule n [OF o'(2)])
  show "tget (moutputs d) (txid, i) = None" unfolding tget_def map_of_eq_None_iff by (rule n [OF o'(3)])
  show "tget (maddresses d) (txid, i) = None" unfolding tget_def map_of_eq_None_iff by (rule n [OF o'(4)])
  show "tget (mparticipants d) ((txid, i), a) = None"
    unfolding tget_def map_of_eq_None_iff by (rule not_key2, rule n [OF o'(5)])
qed

lemma participant_rows_owner: "k \<in> fst ` set (participant_rows txid out) \<Longrightarrow> fst (fst k) = txid"
  unfolding participant_rows_keys by (auto split: if_splits)

lemma address_rows_owner: "k \<in> fst ` set (address_rows txid out) \<Longrightarrow> fst k = txid"
  unfolding address_rows_keys by (auto split: if_splits)

lemma insert_body_Inr:
  assumes "owned d"
  shows "insertCandidateTransactionBody c d = Inr d' \<longleftrightarrow> tx_storable c
    \<and> ct_TxID c \<notin> fst ` set (mtxs d) \<and> ct_WTxID c \<notin> (m_wtxid \<circ> snd) ` set (mtxs d)
    \<and> d' = add_body c d"
proof -
  let ?t = "ct_Transaction c" and ?id = "ct_TxID c"
  define d1 where "d1 = d\<lparr>mtxs := mtxs d @ [(?id, mtx_row_of c)]\<rparr>"
  have tx: "insert_mempool_tx c d = Inr x \<longleftrightarrow> mtx_checks ?id (mtx_row_of c) \<and> ?id \<notin> fst ` set (mtxs d)
    \<and> ct_WTxID c \<notin> (m_wtxid \<circ> snd) ` set (mtxs d) \<and> x = d1" for x
  proof -
    have "list_all (\<lambda>(_, r). m_wtxid r \<noteq> ct_WTxID c) (mtxs d) \<longleftrightarrow> ct_WTxID c \<notin> (m_wtxid \<circ> snd) ` set (mtxs d)"
      by (force simp: list_all_iff)
    then show ?thesis
      by (auto simp: insert_mempool_tx_def insert_row_def rbind_eq_Inr_iff tinsert_def d1_def
          tget_def map_of_eq_None_iff simp del: image_iff)
  qed
  have has: "tget (mtxs d1) ?id \<noteq> None" by (auto simp: d1_def tget_def map_of_eq_None_iff)
  define d2 where "d2 = d1\<lparr>minputs := minputs d1 @ map (input_row ?id) (tx_Inputs ?t),
      mwitness := mwitness d1 @ concat (map (witness_rows ?id) (tx_Inputs ?t))\<rparr>"
  show ?thesis
  proof (cases "?id \<in> fst ` set (mtxs d)")
    case True
    then show ?thesis
      by (simp add: insertCandidateTransactionBody_def rbind_eq_Inr_iff tx)
  next
    case False
    note fresh = owned_fresh [OF assms False]
    have d1: "minputs d1 = minputs d" "mwitness d1 = mwitness d" by (simp_all add: d1_def)
    have ins: "fold_res (insert_mempool_input ?id) (tx_Inputs ?t) d1 = Inr x \<longleftrightarrow>
      list_all input_storable (tx_Inputs ?t) \<and> distinct (map in_Index (tx_Inputs ?t)) \<and> x = d2" for x
      unfolding inputs_loop_Inr d1 fresh d2_def list_all_iff using has by blast
    have d2: "mtxs d2 = mtxs d1" "moutputs d2 = moutputs d" "mparticipants d2 = mparticipants d"
      "maddresses d2 = maddresses d" by (simp_all add: d2_def d1_def)
    have pa: "(\<forall>k \<in> fst ` set (participant_rows ?id out). tget (mparticipants d) k = None)"
      "(\<forall>k \<in> fst ` set (address_rows ?id out). tget (maddresses d) k = None)" for out
    proof (intro ballI)
      fix k assume "k \<in> fst ` set (participant_rows ?id out)"
      then show "tget (mparticipants d) k = None"
        using participant_rows_owner fresh(5) by (metis prod.collapse)
    next
      show "\<forall>k \<in> fst ` set (address_rows ?id out). tget (maddresses d) k = None"
        using address_rows_owner fresh(4) by (metis prod.collapse)
    qed
    have outs: "fold_res (insert_mempool_output ?id) (tx_Outputs ?t) d2 = Inr x \<longleftrightarrow>
      list_all output_storable (tx_Outputs ?t) \<and> distinct (map out_Index (tx_Outputs ?t)) \<and> x = add_body c d" for x
    proof -
      have "d2\<lparr>moutputs := moutputs d2 @ map (output_row ?id) (tx_Outputs ?t),
          mparticipants := mparticipants d2 @ concat (map (participant_rows ?id) (tx_Outputs ?t)),
          maddresses := maddresses d2 @ concat (map (address_rows ?id) (tx_Outputs ?t))\<rparr> = add_body c d"
        by (simp add: d2_def d1_def add_body_def Let_def)
      then show ?thesis
        unfolding outputs_loop_Inr d2 fresh list_all_iff using has pa by auto
    qed
    show ?thesis
      unfolding insertCandidateTransactionBody_def rbind_eq_Inr_iff tx tx_storable_def
      using False by (auto simp: ins outs)
  qed
qed

lemma owned_add_body:
  assumes "owned d"
  shows "owned (add_body c d)"
proof -
  let ?id = "ct_TxID c"
  have sub: "A \<subseteq> ids \<Longrightarrow> B \<subseteq> {?id} \<Longrightarrow> A \<union> B \<subseteq> insert ?id ids" for A B ids by blast
  have ids: "fst ` set (mtxs (add_body c d)) = insert ?id (fst ` set (mtxs d))"
    by (simp add: add_body_def Let_def)
  have i: "fst ` fst ` set (map (input_row ?id) xs) \<subseteq> {?id}" for xs by (auto simp: input_row_def)
  have o': "fst ` fst ` set (map (output_row ?id) xs) \<subseteq> {?id}" for xs by (auto simp: output_row_def)
  have w: "fst ` fst ` set (concat (map (witness_rows ?id) xs)) \<subseteq> {?id}" for xs
    by (auto simp: witness_rows_def)
  have p: "fst ` fst ` fst ` set (concat (map (participant_rows ?id) xs)) \<subseteq> {?id}" for xs
    using participant_rows_owner [of _ ?id] by fastforce
  have a: "fst ` fst ` set (concat (map (address_rows ?id) xs)) \<subseteq> {?id}" for xs
    using address_rows_owner [of _ ?id] by fastforce
  have f: "minputs (add_body c d) = minputs d @ map (input_row ?id) (tx_Inputs (ct_Transaction c))"
    "mwitness (add_body c d) = mwitness d @ concat (map (witness_rows ?id) (tx_Inputs (ct_Transaction c)))"
    "moutputs (add_body c d) = moutputs d @ map (output_row ?id) (tx_Outputs (ct_Transaction c))"
    "mparticipants (add_body c d) = mparticipants d @ concat (map (participant_rows ?id) (tx_Outputs (ct_Transaction c)))"
    "maddresses (add_body c d) = maddresses d @ concat (map (address_rows ?id) (tx_Outputs (ct_Transaction c)))"
    by (simp_all add: add_body_def Let_def)
  note o'' = ownedD [OF assms]
  show ?thesis
    unfolding owned_def Let_def ids f set_append image_Un
    by (intro conjI sub o'' i o' w p a)
qed

lemma bodies_loop_Inr:
  assumes "owned d"
  shows "fold_res insert_body_totals cs (d, v, f) = Inr (d', v', f') \<longleftrightarrow>
    list_all tx_storable cs \<and> distinct (map ct_TxID cs) \<and> distinct (map ct_WTxID cs)
    \<and> (\<forall>c \<in> set cs. ct_TxID c \<notin> fst ` set (mtxs d) \<and> ct_WTxID c \<notin> (m_wtxid \<circ> snd) ` set (mtxs d))
    \<and> d' = fold add_body cs d
    \<and> v' = foldl add64 v (map (\<lambda>c. tx_VSize (ct_Transaction c)) cs) \<and> f' = foldl add64 f (map ct_FeeSatoshis cs)"
  using assms
proof (induction cs arbitrary: d v f)
  case Nil
  then show ?case by auto
next
  case (Cons c cs)
  have tx: "mtxs (add_body c d) = mtxs d @ [(ct_TxID c, mtx_row_of c)]" by (simp add: add_body_def Let_def)
  have w: "m_wtxid (mtx_row_of c) = ct_WTxID c" by (simp add: mtx_row_of_def Let_def)
  have step: "fold_res insert_body_totals (c # cs) (d, v, f) = Inr (d', v', f') \<longleftrightarrow>
    tx_storable c \<and> ct_TxID c \<notin> fst ` set (mtxs d) \<and> ct_WTxID c \<notin> (m_wtxid \<circ> snd) ` set (mtxs d)
    \<and> fold_res insert_body_totals cs (add_body c d, add64 v (tx_VSize (ct_Transaction c)), add64 f (ct_FeeSatoshis c))
        = Inr (d', v', f')"
    by (auto simp: insert_body_totals_def rbind_eq_Inr_iff insert_body_Inr [OF Cons.prems])
  show ?case
    unfolding step Cons.IH [OF owned_add_body [OF Cons.prems]] tx
    by (auto simp: w simp del: image_iff intro: rev_image_eqI)
qed

section \<open>Dependencies\<close>

definition dependency_rows :: "cand_tx \<Rightarrow> ((string \<times> string) \<times> unit) list" where
  "dependency_rows c = map (\<lambda>dep. ((ct_TxID c, dep), ())) (ct_Depends c)"

lemma dependencies_flat:
  "fold_res insertCandidateDependencies cs d = fold_res (deps.insert_step
      (\<lambda>p d. fst p \<noteq> snd p \<and> tget (mtxs d) (fst p) \<noteq> None \<and> tget (mtxs d) (snd p) \<noteq> None) id (\<lambda>_. ()))
    (concat (map (\<lambda>c. map (Pair (ct_TxID c)) (ct_Depends c)) cs)) d"
proof (induction cs arbitrary: d)
  case (Cons c cs)
  have one: "fold_res (insert_dependency x) ds d = fold_res (deps.insert_step
      (\<lambda>p d. fst p \<noteq> snd p \<and> tget (mtxs d) (fst p) \<noteq> None \<and> tget (mtxs d) (snd p) \<noteq> None) id (\<lambda>_. ()))
    (map (Pair x) ds) d" for x ds d
    by (induction ds arbitrary: d) (simp_all add: insert_dependency_def deps.insert_step_def rbind_assoc)
  show ?case
    unfolding list.map concat.simps fold_res.simps fold_res_append insertCandidateDependencies_def one
    by (rule rbind_cong [OF refl]) (rule Cons.IH [unfolded insertCandidateDependencies_def one])
qed simp

lemma distinct_dependency_pairs:
  "distinct (map ct_TxID cs) \<Longrightarrow>
    distinct (concat (map (\<lambda>c. map (Pair (ct_TxID c)) (ct_Depends c)) cs)) \<longleftrightarrow> (\<forall>c \<in> set cs. distinct (ct_Depends c))"
  by (induction cs) (auto simp: distinct_map inj_on_def image_iff)

lemma dependencies_loop_Inr:
  assumes "distinct (map ct_TxID cs)" "mdeps d = []"
  shows "fold_res insertCandidateDependencies cs d = Inr d' \<longleftrightarrow>
    (\<forall>c \<in> set cs. distinct (ct_Depends c) \<and> (\<forall>dep \<in> set (ct_Depends c). ct_TxID c \<noteq> dep
       \<and> ct_TxID c \<in> fst ` set (mtxs d) \<and> dep \<in> fst ` set (mtxs d)))
    \<and> d' = d\<lparr>mdeps := concat (map dependency_rows cs)\<rparr>"
proof -
  let ?ps = "concat (map (\<lambda>c. map (Pair (ct_TxID c)) (ct_Depends c)) cs)"
  have t: "tget (mtxs d) k \<noteq> None \<longleftrightarrow> k \<in> fst ` set (mtxs d)" for k
    by (auto simp: tget_def map_of_eq_None_iff)
  have rows: "map (\<lambda>x. (id x, ())) ?ps = concat (map dependency_rows cs)"
    by (simp add: map_concat dependency_rows_def [abs_def] o_def)
  have "fold_res insertCandidateDependencies cs d = Inr d' \<longleftrightarrow>
    (\<forall>p \<in> set ?ps. (fst p \<noteq> snd p \<and> tget (mtxs d) (fst p) \<noteq> None \<and> tget (mtxs d) (snd p) \<noteq> None)
      \<and> tget (mdeps d) (id p) = None)
    \<and> distinct (map id ?ps) \<and> d' = d\<lparr>mdeps := mdeps d @ map (\<lambda>x. (id x, ())) ?ps\<rparr>"
    unfolding dependencies_flat by (rule deps.insert_loop_Inr) simp
  also have "(\<forall>p \<in> set ?ps. (fst p \<noteq> snd p \<and> tget (mtxs d) (fst p) \<noteq> None \<and> tget (mtxs d) (snd p) \<noteq> None)
      \<and> tget (mdeps d) (id p) = None) \<longleftrightarrow>
    (\<forall>c \<in> set cs. \<forall>dep \<in> set (ct_Depends c). ct_TxID c \<noteq> dep
       \<and> ct_TxID c \<in> fst ` set (mtxs d) \<and> dep \<in> fst ` set (mtxs d))"
    unfolding t by (auto simp: assms(2) tget_def)
  finally show ?thesis
    unfolding rows assms(2) list.map_id append_Nil distinct_dependency_pairs [OF assms(1)] by blast
qed

section \<open>The replacement\<close>

lemma for_each_Inr: "for_each f xs = Inr u \<longleftrightarrow> (\<forall>x \<in> set xs. f x = Inr ())"
  unfolding for_each_def by (induction xs) (auto simp: rbind_eq_Inr_iff)

lemma validate_loop_Inr:
  "fold_res validate_tx cs (A, B) = Inr (A', B') \<longleftrightarrow>
    (\<forall>c \<in> set cs. \<not> tx_IsCoinbase (ct_Transaction c)
      \<and> (\<forall>inp \<in> set (tx_Inputs (ct_Transaction c)). in_PreviousOut inp \<noteq> None)
      \<and> ct_TxID c \<notin> A \<and> ct_WTxID c \<notin> B)
    \<and> distinct (map ct_TxID cs) \<and> distinct (map ct_WTxID cs)
    \<and> A' = A \<union> ct_TxID ` set cs \<and> B' = B \<union> ct_WTxID ` set cs"
proof (induction cs arbitrary: A B)
  case (Cons c cs)
  have step: "fold_res validate_tx (c # cs) (A, B) = Inr (A', B') \<longleftrightarrow>
    \<not> tx_IsCoinbase (ct_Transaction c) \<and> (\<forall>inp \<in> set (tx_Inputs (ct_Transaction c)). in_PreviousOut inp \<noteq> None)
    \<and> ct_TxID c \<notin> A \<and> ct_WTxID c \<notin> B
    \<and> fold_res validate_tx cs (insert (ct_TxID c) A, insert (ct_WTxID c) B) = Inr (A', B')"
    by (auto simp: validate_tx_def result_simps for_each_Inr)
  have ball: "(\<forall>x \<in> set cs. P x \<and> Q x \<and> f x \<notin> insert (f c) A \<and> g x \<notin> insert (g c) B) \<longleftrightarrow>
    (\<forall>x \<in> set cs. P x \<and> Q x \<and> f x \<notin> A \<and> g x \<notin> B) \<and> f c \<notin> set (map f cs) \<and> g c \<notin> set (map g cs)"
    for P Q and f g :: "cand_tx \<Rightarrow> string" by (auto simp: image_iff)
  have un: "insert (f c) X \<union> f ` set cs = X \<union> f ` set (c # cs)" for f :: "cand_tx \<Rightarrow> string" and X by simp
  show ?case
    unfolding step Cons.IH ball [where f = ct_TxID and g = ct_WTxID] un [where f = ct_TxID] un [where f = ct_WTxID]
      list.map distinct.simps list.set(2) ball_simps(7)
    by (simp only: conj_ac)
qed auto

definition valid_candidate :: "candidate \<Rightarrow> bool" where
  "valid_candidate c \<longleftrightarrow> is_hash64 (cd_CoreTipHash c) \<and> 0 \<le> cd_CoreTipHeight c
    \<and> distinct (map ct_TxID (cd_Transactions c)) \<and> distinct (map ct_WTxID (cd_Transactions c))
    \<and> (\<forall>t \<in> set (cd_Transactions c). \<not> tx_IsCoinbase (ct_Transaction t)
        \<and> (\<forall>inp \<in> set (tx_Inputs (ct_Transaction t)). in_PreviousOut inp \<noteq> None)
        \<and> (\<forall>dep \<in> set (ct_Depends t). dep \<noteq> ct_TxID t \<and> dep \<in> ct_TxID ` set (cd_Transactions c)))"

lemma validate_Inr: "validate c = Inr u \<longleftrightarrow> valid_candidate c"
proof -
  have dep: "validate_dependency A t dep = Inr () \<longleftrightarrow> dep \<noteq> ct_TxID t \<and> dep \<in> A" for A t dep
    by (auto simp: validate_dependency_def result_simps)
  show ?thesis
    unfolding validate_def valid_candidate_def
    by (auto simp: rbind_eq_Inr_iff guard_eq_Inr_iff for_each_Inr validate_loop_Inr dep)
qed

text \<open>The tables a candidate becomes, with the totals modulo \<open>2 ^ 64\<close>.\<close>

definition snapshot :: "candidate \<Rightarrow> int \<Rightarrow> mempool_db" where
  "snapshot c g = (let ts = cd_Transactions c; inps = (\<lambda>t. tx_Inputs (ct_Transaction t));
      outs = (\<lambda>t. tx_Outputs (ct_Transaction t)) in
    \<lparr>mstate = \<lparr>ms_Initialized = True, ms_Generation = g, ms_CoreTipHeight = Some (cd_CoreTipHeight c),
       ms_CoreTipHash = Some (cd_CoreTipHash c), ms_TxCount = int (length ts),
       ms_TotalVSize = wrap64 (sum_list (map (\<lambda>t. tx_VSize (ct_Transaction t)) ts)),
       ms_TotalFeeSatoshis = wrap64 (sum_list (map ct_FeeSatoshis ts))\<rparr>,
     mtxs = map (\<lambda>t. (ct_TxID t, mtx_row_of t)) ts,
     minputs = concat (map (\<lambda>t. map (input_row (ct_TxID t)) (inps t)) ts),
     mwitness = concat (map (\<lambda>t. concat (map (witness_rows (ct_TxID t)) (inps t))) ts),
     moutputs = concat (map (\<lambda>t. map (output_row (ct_TxID t)) (outs t)) ts),
     maddresses = concat (map (\<lambda>t. concat (map (address_rows (ct_TxID t)) (outs t))) ts),
     mparticipants = concat (map (\<lambda>t. concat (map (participant_rows (ct_TxID t)) (outs t))) ts),
     mdeps = concat (map dependency_rows ts)\<rparr>)"

definition storable :: "candidate \<Rightarrow> bool" where
  "storable c \<longleftrightarrow> valid_candidate c \<and> (\<forall>t \<in> set (cd_Transactions c). tx_storable t \<and> distinct (ct_Depends t))"

lemma tdelete_True [simp]: "tdelete (\<lambda>_ _. True) t = []"
  by (simp add: tdelete_def)

lemma delete_transactions_empty:
  "delete_transactions d = \<lparr>mstate = mstate d, mtxs = [], minputs = [], mwitness = [], moutputs = [],
    maddresses = [], mparticipants = [], mdeps = []\<rparr>"
  by (simp add: delete_transactions_def Let_def tget_def)

lemma fold_add_body:
  "fold add_body ts d = (let inps = (\<lambda>t. tx_Inputs (ct_Transaction t)); outs = (\<lambda>t. tx_Outputs (ct_Transaction t)) in
    d\<lparr>mtxs := mtxs d @ map (\<lambda>t. (ct_TxID t, mtx_row_of t)) ts,
     minputs := minputs d @ concat (map (\<lambda>t. map (input_row (ct_TxID t)) (inps t)) ts),
     mwitness := mwitness d @ concat (map (\<lambda>t. concat (map (witness_rows (ct_TxID t)) (inps t))) ts),
     moutputs := moutputs d @ concat (map (\<lambda>t. map (output_row (ct_TxID t)) (outs t)) ts),
     maddresses := maddresses d @ concat (map (\<lambda>t. concat (map (address_rows (ct_TxID t)) (outs t))) ts),
     mparticipants := mparticipants d @ concat (map (\<lambda>t. concat (map (participant_rows (ct_TxID t)) (outs t))) ts)\<rparr>)"
  by (induction ts arbitrary: d) (simp_all add: add_body_def Let_def)

lemma foldl_add64: "foldl add64 (wrap64 a) xs = wrap64 (a + sum_list xs)"
proof (induction xs arbitrary: a)
  case (Cons x xs)
  have "add64 (wrap64 a) x = wrap64 (a + x)"
    unfolding add64_def wrap64_def by (simp add: mod_simps algebra_simps)
  with Cons show ?case by (simp add: add.assoc)
qed simp

lemma ReplaceSnapshot_core:
  "ReplaceSnapshot c d = Inr (g, d') \<longleftrightarrow> storable c \<and> g = ms_Generation (mstate d) + 1
    \<and> mempool_state_checks (mstate (snapshot c g)) \<and> d' = snapshot c g"
proof (cases "valid_candidate c")
  case False
  then show ?thesis by (simp add: ReplaceSnapshot_def rbind_eq_Inr_iff validate_Inr storable_def)
next
  case True
  let ?ts = "cd_Transactions c"
  define e where "e = delete_transactions d"
  define d1 where "d1 = fold add_body ?ts e"
  define d2 where "d2 = d1\<lparr>mdeps := concat (map dependency_rows ?ts)\<rparr>"
  from True have dist: "distinct (map ct_TxID ?ts)" "distinct (map ct_WTxID ?ts)"
    and deps: "\<And>t dep. t \<in> set ?ts \<Longrightarrow> dep \<in> set (ct_Depends t) \<Longrightarrow> dep \<noteq> ct_TxID t \<and> dep \<in> ct_TxID ` set ?ts"
    unfolding valid_candidate_def by blast+
  have e: "mtxs e = []" "mdeps e = []" "mstate e = mstate d" "owned e"
    by (simp_all add: e_def delete_transactions_empty owned_def)
  have d1: "fst ` set (mtxs d1) = ct_TxID ` set ?ts" "mdeps d1 = []" "mstate d1 = mstate d"
    by (simp_all add: d1_def fold_add_body e image_image)
  have zero: "foldl add64 0 xs = wrap64 (sum_list xs)" for xs
    using foldl_add64 [of 0 xs] by (simp add: wrap64_def)
  have b: "fold_res insert_body_totals ?ts (e, 0, 0) = Inr (x, v, f) \<longleftrightarrow> list_all tx_storable ?ts \<and> x = d1
    \<and> v = wrap64 (sum_list (map (\<lambda>t. tx_VSize (ct_Transaction t)) ?ts)) \<and> f = wrap64 (sum_list (map ct_FeeSatoshis ?ts))"
    for x v f
    unfolding bodies_loop_Inr [OF e(4)] zero d1_def using dist by (simp add: e)
  have dp: "fold_res insertCandidateDependencies ?ts d1 = Inr x \<longleftrightarrow> (\<forall>t \<in> set ?ts. distinct (ct_Depends t)) \<and> x = d2" for x
    unfolding dependencies_loop_Inr [OF dist(1) d1(2)] d1(1) d2_def using deps by auto
  have snap: "d2\<lparr>mstate := mstate (snapshot c g)\<rparr> = snapshot c g" for g
    by (simp add: d2_def d1_def fold_add_body e_def delete_transactions_empty snapshot_def Let_def)
  have up: "update_mempool_state c (wrap64 (sum_list (map (\<lambda>t. tx_VSize (ct_Transaction t)) ?ts)))
      (wrap64 (sum_list (map ct_FeeSatoshis ?ts))) d2 = Inr (g, d') \<longleftrightarrow>
    g = ms_Generation (mstate d) + 1 \<and> mempool_state_checks (mstate (snapshot c g)) \<and> d' = snapshot c g"
  proof -
    have d2: "mstate d2 = mstate d" by (simp add: d2_def d1)
    have st: "update_mempool_state c (wrap64 (sum_list (map (\<lambda>t. tx_VSize (ct_Transaction t)) ?ts)))
      (wrap64 (sum_list (map ct_FeeSatoshis ?ts))) d2 = (let g = ms_Generation (mstate d) + 1; s = mstate (snapshot c g) in
        if mempool_state_checks s then Inr (g, d2\<lparr>mstate := s\<rparr>) else Inl MempoolDatabase)"
      by (simp add: update_mempool_state_def Let_def d2 snapshot_def)
    show ?thesis unfolding st Let_def snap by auto
  qed
  have "ReplaceSnapshot c d = Inr (g, d') \<longleftrightarrow>
    (\<exists>x v f y. fold_res insert_body_totals ?ts (e, 0, 0) = Inr (x, v, f)
      \<and> fold_res insertCandidateDependencies ?ts x = Inr y \<and> update_mempool_state c v f y = Inr (g, d'))"
    using True by (auto simp: ReplaceSnapshot_def rbind_eq_Inr_iff validate_Inr e_def)
  also have "\<dots> \<longleftrightarrow> list_all tx_storable ?ts \<and> (\<forall>t \<in> set ?ts. distinct (ct_Depends t))
    \<and> g = ms_Generation (mstate d) + 1 \<and> mempool_state_checks (mstate (snapshot c g)) \<and> d' = snapshot c g"
    (is "?L \<longleftrightarrow> ?R")
  proof
    assume ?L
    then obtain x v f y where *: "fold_res insert_body_totals ?ts (e, 0, 0) = Inr (x, v, f)"
      "fold_res insertCandidateDependencies ?ts x = Inr y" "update_mempool_state c v f y = Inr (g, d')" by blast
    from *(1) b have x: "list_all tx_storable ?ts" "x = d1"
      "v = wrap64 (sum_list (map (\<lambda>t. tx_VSize (ct_Transaction t)) ?ts))" "f = wrap64 (sum_list (map ct_FeeSatoshis ?ts))"
      by blast+
    from *(2) dp x(2) have y: "\<forall>t \<in> set ?ts. distinct (ct_Depends t)" "y = d2" by blast+
    from *(3) [unfolded x y(2) up] x(1) y(1) show ?R by blast
  next
    assume ?R
    with b dp up show ?L by blast
  qed
  finally show ?thesis using True by (auto simp: storable_def list_all_iff)
qed

section \<open>Properties\<close>

text \<open>
  C26 \<open>Store.ReplaceSnapshot\<close> implements one abstract step: it succeeds exactly on a storable
  candidate whose totals and generation pass the constraints of the state row, and then every table
  is the image of the candidate, whatever the previous snapshot held; only the generation is
  carried over, increased by one.
\<close>

theorem ReplaceSnapshot_exact:
  "ReplaceSnapshot c d = Inr (g, d') \<longleftrightarrow> storable c \<and> g = ms_Generation (State d) + 1
    \<and> mempool_state_checks (State (snapshot c g)) \<and> d' = snapshot c g"
  unfolding State_def by (rule ReplaceSnapshot_core)

lemma mset_concat_map: "mset ts = mset ts' \<Longrightarrow> mset (concat (map f ts)) = mset (concat (map f ts'))"
proof -
  assume "mset ts = mset ts'"
  then have "image_mset (mset \<circ> f) (mset ts) = image_mset (mset \<circ> f) (mset ts')" by simp
  then have "mset (map (mset \<circ> f) ts) = mset (map (mset \<circ> f) ts')" by simp
  then have "sum_mset (mset (map (mset \<circ> f) ts)) = sum_mset (mset (map (mset \<circ> f) ts'))" by (rule arg_cong)
  then show ?thesis unfolding sum_mset_sum_list by (simp add: mset_concat o_def)
qed

lemma storable_permuted:
  assumes "mset ts = mset (cd_Transactions c)"
  shows "storable (c\<lparr>cd_Transactions := ts\<rparr>) = storable c"
proof -
  have s: "set ts = set (cd_Transactions c)" using assms by (metis set_mset_mset)
  have "mset (map f ts) = mset (map f (cd_Transactions c))" for f :: "cand_tx \<Rightarrow> string"
    using assms by simp
  then have d: "distinct (map f ts) = distinct (map f (cd_Transactions c))" for f :: "cand_tx \<Rightarrow> string"
    by (rule mset_eq_imp_distinct_iff)
  show ?thesis unfolding storable_def valid_candidate_def by (simp add: s d)
qed

definition same_rows :: "mempool_db \<Rightarrow> mempool_db \<Rightarrow> bool" where
  "same_rows d e \<longleftrightarrow> mstate d = mstate e \<and> mset (mtxs d) = mset (mtxs e)
    \<and> mset (minputs d) = mset (minputs e) \<and> mset (mwitness d) = mset (mwitness e)
    \<and> mset (moutputs d) = mset (moutputs e) \<and> mset (maddresses d) = mset (maddresses e)
    \<and> mset (mparticipants d) = mset (mparticipants e) \<and> mset (mdeps d) = mset (mdeps e)"

lemma snapshot_permuted:
  assumes "mset ts = mset (cd_Transactions c)"
  shows "same_rows (snapshot (c\<lparr>cd_Transactions := ts\<rparr>) g) (snapshot c g)"
proof -
  have sum: "sum_list (map f ts) = sum_list (map f (cd_Transactions c))" for f :: "cand_tx \<Rightarrow> int"
    using assms by (metis mset_map sum_mset_sum_list)
  have len: "length ts = length (cd_Transactions c)" using assms by (rule mset_eq_length)
  show ?thesis
    unfolding same_rows_def snapshot_def Let_def
    by (simp add: sum len assms mset_concat_map [OF assms])
qed

text \<open>
  The order of the transactions in a candidate has no meaning for \<open>ReplaceSnapshot\<close>: although
  the dependencies refer to other transactions of the same candidate by foreign key, a candidate in
  any other order is accepted or refused alike, gets the same generation, and leaves the same rows
  in every table.
\<close>

theorem ReplaceSnapshot_order_independent:
  assumes "mset ts = mset (cd_Transactions c)"
  shows "case ReplaceSnapshot c d of
      Inl _ \<Rightarrow> \<exists>e. ReplaceSnapshot (c\<lparr>cd_Transactions := ts\<rparr>) d = Inl e
    | Inr (g, d') \<Rightarrow> \<exists>d''. ReplaceSnapshot (c\<lparr>cd_Transactions := ts\<rparr>) d = Inr (g, d'') \<and> same_rows d'' d'"
proof -
  have st: "mstate (snapshot (c\<lparr>cd_Transactions := ts\<rparr>) g) = mstate (snapshot c g)" for g
    using snapshot_permuted [OF assms] by (simp add: same_rows_def)
  have iff: "(\<exists>d''. ReplaceSnapshot (c\<lparr>cd_Transactions := ts\<rparr>) d = Inr (g, d'')) \<longleftrightarrow>
    (\<exists>d'. ReplaceSnapshot c d = Inr (g, d'))" for g
    unfolding ReplaceSnapshot_core storable_permuted [OF assms] st by simp
  show ?thesis
  proof (cases "ReplaceSnapshot c d")
    case (Inl e)
    then have "ReplaceSnapshot (c\<lparr>cd_Transactions := ts\<rparr>) d \<noteq> Inr y" for y using iff [of "fst y"] by (cases y) auto
    then show ?thesis using Inl by (cases "ReplaceSnapshot (c\<lparr>cd_Transactions := ts\<rparr>) d") auto
  next
    case (Inr y)
    obtain g d' where y: "y = (g, d')" by force
    with Inr have r: "ReplaceSnapshot c d = Inr (g, d')" by simp
    with iff [of g] obtain d'' where d'': "ReplaceSnapshot (c\<lparr>cd_Transactions := ts\<rparr>) d = Inr (g, d'')" by blast
    from r d'' have "d' = snapshot c g" "d'' = snapshot (c\<lparr>cd_Transactions := ts\<rparr>) g"
      unfolding ReplaceSnapshot_core by blast+
    with snapshot_permuted [OF assms] d'' r show ?thesis by simp
  qed
qed

text \<open>
  A bare multisig output that lists one public key twice, so that a participant address occurs
  twice, makes \<open>ReplaceSnapshot\<close> refuse every snapshot that contains its transaction.
\<close>

theorem repeated_participant_blocks_snapshot:
  assumes "t \<in> set (cd_Transactions c)" "out \<in> set (tx_Outputs (ct_Transaction t))"
    "out_ScriptType out = TypeMultisig" "\<not> distinct (out_ParticipantAddresses out)"
  shows "\<exists>e. ReplaceSnapshot c d = Inl e"
proof -
  have "\<not> output_storable out" using assms(3,4) by (simp add: output_storable_def)
  then have "\<not> tx_storable t" using assms(2) by (auto simp: tx_storable_def list_all_iff)
  then have "\<not> storable c" using assms(1) by (auto simp: storable_def)
  then show ?thesis
    using ReplaceSnapshot_core [of c d] by (cases "ReplaceSnapshot c d") auto
qed

end
