(* ===== verification/MempoolSync.thy ===== *)
theory MempoolSync
  imports MempoolStore SnapshotCalls "HOL-Library.List_Lexorder"
begin

text \<open>
  \<open>internal/mempool/sync.go\<close>: one acquisition and publication cycle, and the polling loop. Core is a
  record of calls on the outside \<open>'w\<close>, the confirmed database is read while other processes commit
  to it, as in theory \<open>Indexer\<close>.
\<close>

section \<open>Core and the state\<close>

text \<open>\<open>rpc.RawMempoolEntry\<close>; the fees object is its \<open>base\<close>.\<close>

record raw_entry =
  re_VSize :: "int option"
  re_Weight :: "int option"
  re_Time :: "int option"
  re_Height :: "int option"
  re_Fees :: "string option"
  re_Depends :: "string list"
  re_BIP125Replaceable :: "bool option"

record 'w mempool_rpc =
  mpGetBlockCount :: "('w, string, int) call"
  mpGetBestBlockHash :: "('w, string, string) call"
  mpGetRawMempoolVerbose :: "('w, string, (string, raw_entry) table) call"
  mpGetRawTransactionVerbose :: "string \<Rightarrow> ('w, string, raw_tx) call"

type_synonym 'w msys = "('w, mempool_db) snap"

section \<open>sync.go\<close>

definition coreTip :: "'w mempool_rpc \<Rightarrow> ('w msys, mempool_error, int \<times> string) call" where
  "coreTip rpc =
    sbind (outside (mpGetBlockCount rpc) MempoolOutside) (\<lambda>height.
    sbind (outside (mpGetBestBlockHash rpc) MempoolOutside) (\<lambda>hash.
    sret (Inr (height, hash))))"

text \<open>What follows the decoding of one transaction: the checks against its entry and the metadata.\<close>

definition requireInt64 :: "int option \<Rightarrow> string \<Rightarrow> string \<Rightarrow> mempool_error + int" where
  "requireInt64 p txid field = of_option (MissingEntryField txid field) p"

definition candidate_of :: "string \<Rightarrow> raw_entry \<Rightarrow> transaction \<Rightarrow> mempool_error + cand_tx" where
  "candidate_of txid entry txn =
    (if tx_TxID txn \<noteq> txid then Inl ErrRPCIdentityMismatch
     else if tx_IsCoinbase txn then Inl (CoinbaseReported txid)
     else if re_Weight entry \<noteq> None \<and> the (re_Weight entry) \<noteq> tx_Weight txn then Inl (WeightDisagrees txid)
     else case re_Fees entry of
       None \<Rightarrow> Inl (MissingEntryField txid ''fees'')
     | Some base \<Rightarrow>
       rbind (map_err FeeDecode (DecodeAmount base)) (\<lambda>fee.
       rbind (requireInt64 (re_Time entry) txid ''time'') (\<lambda>entryTime.
       Inr \<lparr>ct_Transaction = txn, ct_FeeSatoshis = Satoshis fee, ct_EntryTime = entryTime,
            ct_EntryHeight = re_Height entry, ct_Replaceable = re_BIP125Replaceable entry,
            ct_Depends = re_Depends entry\<rparr>)))"

definition fetch_one ::
  "'w env \<Rightarrow> 'w mempool_rpc \<Rightarrow> (string, raw_entry) table \<Rightarrow> string \<Rightarrow> ('w msys, mempool_error, cand_tx) call" where
  "fetch_one env rpc entries txid =
    sbind (ctx_call env MempoolOutside) (\<lambda>_.
    sbind (outside (mpGetRawTransactionVerbose rpc txid) (\<lambda>_. ErrMempoolRace)) (\<lambda>raw.
    if rt_BlockHash raw \<noteq> None then sret (Inl ErrMempoolRace)
    else sbind (outside (DecodeTransaction (Resolver env) raw) TxDecode) (\<lambda>txn.
    sret (candidate_of txid (the (tget entries txid)) txn))))"

text \<open>The keys are sorted bytewise, so the order of the range over the map is lost.\<close>

definition fetchAndDecode ::
  "'w env \<Rightarrow> 'w mempool_rpc \<Rightarrow> (string, raw_entry) table \<Rightarrow> ('w msys, mempool_error, cand_tx list) call" where
  "fetchAndDecode env rpc entries = smap (fetch_one env rpc entries) (sort (map fst entries))"

definition refreshOnce :: "store \<Rightarrow> 'w env \<Rightarrow> 'w mempool_rpc \<Rightarrow> ('w msys, mempool_error, int) call" where
  "refreshOnce s env rpc =
    sbind (confirmed_tip s env MempoolOutside) (\<lambda>initialDBTip.
    sbind (coreTip rpc) (\<lambda>(initialCoreHeight, initialCoreHash).
    if fst initialDBTip \<noteq> initialCoreHeight \<or> cp_Hash initialDBTip \<noteq> initialCoreHash
    then sret (Inl ErrConfirmedIndexBehind)
    else sbind (outside (mpGetRawMempoolVerbose rpc) MempoolOutside) (\<lambda>entries.
    sbind (fetchAndDecode env rpc entries) (\<lambda>candidateTxs.
    sbind (coreTip rpc) (\<lambda>(finalCoreHeight, finalCoreHash).
    sbind (confirmed_tip s env MempoolOutside) (\<lambda>finalDBTip.
    if initialCoreHeight \<noteq> finalCoreHeight \<or> initialCoreHash \<noteq> finalCoreHash then sret (Inl ErrMempoolRace)
    else if fst initialDBTip \<noteq> fst finalDBTip \<or> cp_Hash initialDBTip \<noteq> cp_Hash finalDBTip
    then sret (Inl ErrMempoolRace)
    else publish s env MempoolOutside (ReplaceSnapshot \<lparr>cd_CoreTipHeight = finalCoreHeight,
      cd_CoreTipHash = finalCoreHash, cd_Transactions = candidateTxs\<rparr>)))))))"

text \<open>What \<open>logRefreshOutcome\<close> does with an error of the cycle.\<close>

definition logRefreshOutcome :: "'w env \<Rightarrow> mempool_error \<Rightarrow> log_level" where
  "logRefreshOutcome env e =
    (let canceled = (case e of
        MempoolOutside t \<Rightarrow> Canceled env t | TxDecode (ResolverError t) \<Rightarrow> Canceled env t | _ \<Rightarrow> False)
     in if canceled then Silent else if e = ErrConfirmedIndexBehind then LogDebug else LogWarn)"

text \<open>The polling loop.\<close>

definition Run_mempool :: "store \<Rightarrow> 'w env \<Rightarrow> 'w mempool_rpc \<Rightarrow> 'w msys \<Rightarrow> 'w msys option" where
  "Run_mempool s env rpc = poll (ctx_call env MempoolOutside) (refreshOnce s env rpc)"

section \<open>What a cycle leaves alone\<close>

lemma reads_coreTip: "reads (coreTip rpc)"
  unfolding coreTip_def by (intro reads_sbind reads_outside reads_sret)

lemma reads_fetch: "reads (fetchAndDecode env rpc entries)"
proof -
  have "reads (fetch_one env rpc entries txid)" for txid
    unfolding fetch_one_def by (intro reads_sbind reads_if reads_ctx reads_outside reads_sret)
  then show ?thesis unfolding fetchAndDecode_def by (rule reads_smap)
qed

lemma refreshOnce_clean: "clean (refreshOnce s env rpc)"
  unfolding refreshOnce_def
  by (intro clean_sbind clean_if clean_split clean_publish keeps_confirmed_tip reads_keeps reads_coreTip
      reads_outside reads_fetch keeps_clean [OF reads_keeps [OF reads_sret]])

section \<open>What a cycle publishes\<close>

text \<open>A candidate transaction is the decoded answer of Core for one listed entry.\<close>

definition decoded_entry :: "'w env \<Rightarrow> (string, raw_entry) table \<Rightarrow> cand_tx \<Rightarrow> bool" where
  "decoded_entry env entries t \<longleftrightarrow>
    (\<exists>raw r r'. rt_BlockHash raw = None \<and> DecodeTransaction (Resolver env) raw r = (Inr (ct_Transaction t), r'))
    \<and> candidate_of (ct_TxID t) (the (tget entries (ct_TxID t))) (ct_Transaction t) = Inr t"

lemma candidate_of_Inr:
  "candidate_of txid e txn = Inr t \<Longrightarrow> ct_Transaction t = txn \<and> tx_TxID txn = txid"
  by (auto simp: candidate_of_def result_simps split: if_splits option.splits)

lemma fetch_one_Inr:
  assumes "fetch_one env rpc entries txid x = (Inr t, y)"
  shows "ct_TxID t = txid \<and> decoded_entry env entries t"
proof -
  from assms obtain x1 raw x2 where raw: "outside (mpGetRawTransactionVerbose rpc txid) (\<lambda>_. ErrMempoolRace) x1 = (Inr raw, x2)"
    and rest: "(if rt_BlockHash raw \<noteq> None then sret (Inl ErrMempoolRace)
      else sbind (outside (DecodeTransaction (Resolver env) raw) TxDecode)
        (\<lambda>txn. sret (candidate_of txid (the (tget entries txid)) txn))) x2 = (Inr t, y)"
    unfolding fetch_one_def sbind_eq_Inr_iff by blast
  from rest have nb: "rt_BlockHash raw = None" by (auto simp: sret_def split: if_splits)
  with rest obtain txn x3 where dec: "outside (DecodeTransaction (Resolver env) raw) TxDecode x2 = (Inr txn, x3)"
    and c: "candidate_of txid (the (tget entries txid)) txn = Inr t"
    by (auto simp: result_simps)
  obtain d w mp where x2: "x2 = ((d, w), mp)" by (metis prod.collapse)
  from candidate_of_Inr [OF c] dec nb c show ?thesis
    unfolding decoded_entry_def x2 outside_Inr by auto
qed

lemma fetchAndDecode_Inr:
  assumes "fetchAndDecode env rpc entries x = (Inr ts, y)"
  shows "map ct_TxID ts = sort (map fst entries) \<and> (\<forall>t \<in> set ts. decoded_entry env entries t)"
proof -
  have "list_all2 (\<lambda>txid t. ct_TxID t = txid \<and> decoded_entry env entries t) (sort (map fst entries)) ts"
    using assms unfolding fetchAndDecode_def by (rule smap_list_all2) (rule fetch_one_Inr)
  then show ?thesis by (induction rule: list_all2_induct) auto
qed

text \<open>
  The reads of one cycle, in order, for a confirmed database that goes from \<open>d\<close> to \<open>d'\<close>: the
  checkpoint and then Core's tip before the acquisition, Core's tip and then the checkpoint after it.
\<close>

definition four_anchors ::
  "store \<Rightarrow> 'w env \<Rightarrow> 'w mempool_rpc \<Rightarrow> 'w msys \<Rightarrow> (string, raw_entry) table \<Rightarrow> candidate \<Rightarrow> bool" where
  "four_anchors s env rpc x entries c \<longleftrightarrow>
    (let h = cd_CoreTipHeight c; hash = cd_CoreTipHash c in
     \<exists>x1 x2 x3 x4 x5 x6 cp cp'. confirmed_tip s env MempoolOutside x = (Inr cp, x1) \<and> fst cp = h \<and> cp_Hash cp = hash
      \<and> coreTip rpc x1 = (Inr (h, hash), x2)
      \<and> outside (mpGetRawMempoolVerbose rpc) MempoolOutside x2 = (Inr entries, x3)
      \<and> fetchAndDecode env rpc entries x3 = (Inr (cd_Transactions c), x4)
      \<and> coreTip rpc x4 = (Inr (h, hash), x5)
      \<and> confirmed_tip s env MempoolOutside x5 = (Inr cp', x6) \<and> fst cp' = h \<and> cp_Hash cp' = hash)"

lemma refreshOnce_Inr:
  assumes "refreshOnce s env rpc x = (Inr g, y)"
  shows "\<exists>c entries. four_anchors s env rpc x entries c \<and> ReplaceSnapshot c (snd x) = Inr (g, snd y)"
proof -
  from assms obtain cp x1 h hash x2 where 1: "confirmed_tip s env MempoolOutside x = (Inr cp, x1)"
    "coreTip rpc x1 = (Inr (h, hash), x2)"
    and r1: "(if fst cp \<noteq> h \<or> cp_Hash cp \<noteq> hash then sret (Inl ErrConfirmedIndexBehind)
      else sbind (outside (mpGetRawMempoolVerbose rpc) MempoolOutside) (\<lambda>entries.
      sbind (fetchAndDecode env rpc entries) (\<lambda>ts.
      sbind (coreTip rpc) (\<lambda>(h', hash').
      sbind (confirmed_tip s env MempoolOutside) (\<lambda>cp'.
      if h \<noteq> h' \<or> hash \<noteq> hash' then sret (Inl ErrMempoolRace)
      else if fst cp \<noteq> fst cp' \<or> cp_Hash cp \<noteq> cp_Hash cp' then sret (Inl ErrMempoolRace)
      else publish s env MempoolOutside (ReplaceSnapshot \<lparr>cd_CoreTipHeight = h', cd_CoreTipHash = hash', cd_Transactions = ts\<rparr>)))))) x2 = (Inr g, y)"
    unfolding refreshOnce_def sbind_eq_Inr_iff by (elim exE conjE) (simp only: split: prod.splits)
  from r1 have cp: "fst cp = h" "cp_Hash cp = hash" by (auto simp: sret_def split: if_splits)
  from r1 cp obtain entries x3 ts x4 h' hash' x5 cp' x6 where
    2: "outside (mpGetRawMempoolVerbose rpc) MempoolOutside x2 = (Inr entries, x3)"
      "fetchAndDecode env rpc entries x3 = (Inr ts, x4)" "coreTip rpc x4 = (Inr (h', hash'), x5)"
      "confirmed_tip s env MempoolOutside x5 = (Inr cp', x6)"
    and r2: "(if h \<noteq> h' \<or> hash \<noteq> hash' then sret (Inl ErrMempoolRace)
      else if fst cp \<noteq> fst cp' \<or> cp_Hash cp \<noteq> cp_Hash cp' then sret (Inl ErrMempoolRace)
      else publish s env MempoolOutside (ReplaceSnapshot \<lparr>cd_CoreTipHeight = h', cd_CoreTipHash = hash', cd_Transactions = ts\<rparr>)) x6 = (Inr g, y)"
    by (auto simp: sbind_eq_Inr_iff)
  from r2 have eq: "h' = h" "hash' = hash" "fst cp' = h" "cp_Hash cp' = hash"
    using cp by (auto simp: sret_def split: if_splits)
  define c where "c = \<lparr>cd_CoreTipHeight = h, cd_CoreTipHash = hash, cd_Transactions = ts\<rparr>"
  from r2 cp eq have pub: "publish s env MempoolOutside (ReplaceSnapshot c) x6 = (Inr g, y)" by (simp add: c_def)
  have "four_anchors s env rpc x entries c"
    unfolding four_anchors_def Let_def c_def candidate.simps using 1 2 cp eq by blast
  moreover have "snd x6 = snd x"
    using 1 2 confirmed_tip_Inr reads_state [OF reads_coreTip] reads_state [OF reads_outside]
      reads_state [OF reads_fetch] by metis
  moreover have "ReplaceSnapshot c (snd x6) = Inr (g, snd y)"
    by (rule publish_Inr [OF pub])
  ultimately show ?thesis by metis
qed

text \<open>
  C27 A mempool refresh publishes only a snapshot that both sides agree on: the checkpoint of the
  confirmed index and Core's tip were read before and after the acquisition, all four reads gave the
  height and hash that the new state row records, the transactions are exactly those listed by
  Core, in ascending order of their identifiers, each decoded from an answer that carries no block
  hash, with its own identifier and the metadata of its own entry. A cycle that fails leaves the
  snapshot as it was.
\<close>

theorem refreshOnce_publishes_anchored:
  "case refreshOnce s env rpc x of
     (Inl _, y) \<Rightarrow> snd y = snd x
   | (Inr g, y) \<Rightarrow> \<exists>c entries. four_anchors s env rpc x entries c
       \<and> map ct_TxID (cd_Transactions c) = sort (map fst entries)
       \<and> (\<forall>t \<in> set (cd_Transactions c). decoded_entry env entries t)
       \<and> g = ms_Generation (State (snd x)) + 1 \<and> snd y = snapshot c g
       \<and> ms_CoreTipHeight (State (snd y)) = Some (cd_CoreTipHeight c)
       \<and> ms_CoreTipHash (State (snd y)) = Some (cd_CoreTipHash c)"
proof -
  obtain r y where r: "refreshOnce s env rpc x = (r, y)" by (cases "refreshOnce s env rpc x")
  show ?thesis
  proof (cases r)
    case (Inl e)
    with r cleanD [OF refreshOnce_clean] show ?thesis by simp
  next
    case (Inr g)
    with r have "refreshOnce s env rpc x = (Inr g, y)" by simp
    from refreshOnce_Inr [OF this] obtain c entries where
      c: "four_anchors s env rpc x entries c" "ReplaceSnapshot c (snd x) = Inr (g, snd y)" by blast
    from c(1) obtain x3 x4 where f: "fetchAndDecode env rpc entries x3 = (Inr (cd_Transactions c), x4)"
      unfolding four_anchors_def Let_def by blast
    from c(2) have g: "g = ms_Generation (State (snd x)) + 1" "snd y = snapshot c g"
      unfolding ReplaceSnapshot_core State_def by blast+
    then have "ms_CoreTipHeight (State (snd y)) = Some (cd_CoreTipHeight c)"
      "ms_CoreTipHash (State (snd y)) = Some (cd_CoreTipHash c)"
      by (simp_all add: State_def snapshot_def Let_def)
    with c(1) g fetchAndDecode_Inr [OF f] show ?thesis unfolding r Inr by auto
  qed
qed

interpretation pool: publisher ReplaceSnapshot "\<lambda>m. ms_Generation (State m)" snapshot storable
  by unfold_locales (auto simp: ReplaceSnapshot_core State_def snapshot_def Let_def)

text \<open>
  Over a whole run of the polling loop, whatever Core answers and whatever the confirmed index
  does in between: the mempool tables at the end are the ones at the start or exactly the image of
  one storable candidate, and the generation has never gone down.
\<close>

theorem Run_mempool_whole_snapshots:
  assumes "Run_mempool s env rpc x = Some y"
  shows "snd y = snd x \<or> (\<exists>c. storable c \<and> snd y = snapshot c (ms_Generation (State (snd y)))
    \<and> ms_Generation (State (snd x)) < ms_Generation (State (snd y)))"
  unfolding pool.whole_def [symmetric]
proof (rule pool.poll_whole [OF assms [unfolded Run_mempool_def]])
  show "snd y = snd x" if "ctx_call env MempoolOutside x = (r, y)" for x y :: "'a msys" and r
    using reads_state [OF reads_ctx that] by simp
  show "snd y = snd x" if "refreshOnce s env rpc x = (Inl e, y)" for x e y
    using cleanD [OF refreshOnce_clean that] .
  show "\<exists>c. ReplaceSnapshot c (snd x) = Inr (g, snd y)" if "refreshOnce s env rpc x = (Inr g, y)" for x g y
    using refreshOnce_Inr [OF that] by blast
qed

end
