(* ===== verification/MempoolWitness.thy ===== *)
theory MempoolWitness
  imports MempoolSync StoreExample
begin

text \<open>Concrete snapshots and a concrete run on which the properties of the mempool apply.\<close>

section \<open>A child listed before its parent\<close>

definition eg_out :: "nat \<Rightarrow> string \<Rightarrow> tx_output" where
  "eg_out i addr = \<lparr>out_Index = i, out_Value = 5, out_ScriptPubKey = [], out_ScriptType = TypeP2PKH,
    out_WitnessVersion = None, out_WitnessProgram = None, out_PubKeys = [], out_Address = addr,
    out_ParticipantAddresses = []\<rparr>"

definition eg_in :: "string \<Rightarrow> nat \<Rightarrow> tx_input" where
  "eg_in txid i = \<lparr>in_Index = i, in_PreviousOut = Some (txid, 0), in_Coinbase = None, in_ScriptSig = Some [],
    in_Sequence = 7, in_Witness = []\<rparr>"

definition eg_tx :: "char \<Rightarrow> char \<Rightarrow> tx_output \<Rightarrow> string list \<Rightarrow> cand_tx" where
  "eg_tx c p out deps = \<lparr>ct_Transaction = \<lparr>tx_TxID = replicate 64 c, tx_WTxID = replicate 64 c, tx_Version = 2,
     tx_LockTime = 0, tx_Size = 100, tx_VSize = 90, tx_Weight = 360, tx_IsCoinbase = False,
     tx_Inputs = [eg_in (replicate 64 p) 0], tx_Outputs = [out]\<rparr>,
   ct_FeeSatoshis = 10, ct_EntryTime = 1000, ct_EntryHeight = Some 3, ct_Replaceable = None, ct_Depends = deps\<rparr>"

definition eg_candidate :: candidate where
  "eg_candidate = \<lparr>cd_CoreTipHeight = 3, cd_CoreTipHash = replicate 64 CHR ''e'',
    cd_Transactions = [eg_tx CHR ''a'' CHR ''b'' (eg_out 0 ''q1'') [replicate 64 CHR ''b''],
                       eg_tx CHR ''b'' CHR ''c'' (eg_out 0 ''q2'') []]\<rparr>"

lemmas eg_defs = eg_candidate_def eg_tx_def eg_in_def eg_out_def

lemma eg_storable: "storable eg_candidate"
proof -
  have "replicate 64 CHR ''a'' \<noteq> replicate 64 CHR ''b''" by (simp add: replicate_eq_replicate)
  moreover have "is_lower_hex CHR ''a''" "is_lower_hex CHR ''b''" "is_lower_hex CHR ''c''" "is_lower_hex CHR ''e''"
    by code_simp+
  ultimately show ?thesis
    by (auto simp: storable_def valid_candidate_def eg_defs tx_storable_def mtx_checks_def mtx_row_of_def
        input_storable_def min_checks_def min_row_of_def output_storable_def output_checks_def out_row_of_def
        witness_metadata_ok_def in_u32_def in_i32_def Let_def)
qed

lemma eg_replace: "ReplaceSnapshot eg_candidate initial_mempool = Inr (1, snapshot eg_candidate 1)"
proof -
  have e: "is_lower_hex CHR ''e''" by code_simp
  have st: "mstate (snapshot eg_candidate 1) = \<lparr>ms_Initialized = True, ms_Generation = 1,
      ms_CoreTipHeight = Some 3, ms_CoreTipHash = Some (replicate 64 CHR ''e''), ms_TxCount = 2,
      ms_TotalVSize = 180, ms_TotalFeeSatoshis = 20\<rparr>"
    by (simp add: snapshot_def Let_def eg_candidate_def eg_tx_def wrap64_def)
  have "mempool_state_checks (mstate (snapshot eg_candidate 1))"
    unfolding st by (simp add: mempool_state_checks_def in_i64_def min_i64_def max_i64_def in_i32_def e)
  then show ?thesis unfolding ReplaceSnapshot_core by (simp add: eg_storable initial_mempool_def)
qed

text \<open>With the parent first the same rows are stored.\<close>

lemma ReplaceSnapshot_order_independent_witness:
  "\<exists>d''. ReplaceSnapshot (eg_candidate\<lparr>cd_Transactions := rev (cd_Transactions eg_candidate)\<rparr>) initial_mempool = Inr (1, d'')
    \<and> same_rows d'' (snapshot eg_candidate 1)"
  using ReplaceSnapshot_order_independent
    [of "rev (cd_Transactions eg_candidate)" eg_candidate initial_mempool, OF mset_rev]
  by (simp only: eg_replace sum.case prod.case)

text \<open>
  A 1-of-2 multisig output with one key listed twice: the confirmed store takes its participants as
  one, the mempool store refuses the snapshot.
\<close>

definition eg_multisig :: tx_output where
  "eg_multisig = (eg_out 0 [])\<lparr>out_ScriptType := TypeMultisig, out_PubKeys := [[1], [1]],
     out_ParticipantAddresses := [''qP'', ''qP'']\<rparr>"

definition eg_repeated :: candidate where
  "eg_repeated = eg_candidate\<lparr>cd_Transactions := [eg_tx CHR ''b'' CHR ''c'' eg_multisig []]\<rparr>"

lemma repeated_participant_blocks_snapshot_witness:
  "participants_of (zip [''qP'', ''qP''] [[1], [1]]) [] = Inr [(''qP'', [1])]
    \<and> (\<exists>e. ReplaceSnapshot eg_repeated initial_mempool = Inl e)"
proof
  show "participants_of (zip [''qP'', ''qP''] [[1], [1]]) [] = Inr [(''qP'', [1])]"
    by (simp add: tget_def tinsert_def)
  show "\<exists>e. ReplaceSnapshot eg_repeated initial_mempool = Inl e"
    by (rule repeated_participant_blocks_snapshot [of "eg_tx CHR ''b'' CHR ''c'' eg_multisig []" _ eg_multisig])
      (simp_all add: eg_repeated_def eg_tx_def eg_multisig_def)
qed

section \<open>A run of the polling loop\<close>

text \<open>
  Core is at the confirmed tip with an empty mempool; the context is cancelled after two checks. The
  outside is the number of checks made.
\<close>

definition eg_rpc :: "nat mempool_rpc" where
  "eg_rpc = \<lparr>mpGetBlockCount = (\<lambda>w. (Inr 3, w)), mpGetBestBlockHash = (\<lambda>w. (Inr (replicate 64 CHR ''e''), w)),
    mpGetRawMempoolVerbose = (\<lambda>w. (Inr [], w)), mpGetRawTransactionVerbose = (\<lambda>_ w. (Inl ''none'', w))\<rparr>"

definition eg_env :: "nat env" where
  "eg_env = \<lparr>rpcGetBlockCount = (\<lambda>w. (Inr 3, w)), rpcGetBlockHash = (\<lambda>_ w. (Inl ''none'', w)),
    rpcGetBlockVerbose2 = (\<lambda>_ w. (Inl ''none'', w)), Resolver = None, Writers = (\<lambda>w. (Inr [], w)),
    CtxErr = (\<lambda>w. (if 0 < w then Some ''canceled'' else None, w + 1)), Canceled = (\<lambda>_. True)\<rparr>"

definition eg_empty :: candidate where
  "eg_empty = \<lparr>cd_CoreTipHeight = 3, cd_CoreTipHash = replicate 64 CHR ''e'', cd_Transactions = []\<rparr>"

definition eg_db :: db where
  "eg_db = \<lparr>sync_state = (3, Some (replicate 64 CHR ''e'')), blocks = [], transactions = [],
    transaction_variants = [], block_transactions = [], transaction_inputs = [], transaction_input_witness = [],
    transaction_outputs = [], output_addresses = [], output_participants = [], utxo_state = [], addresses = [],
    block_accounting = [], block_supply_rollup = [], distribution = [], distribution_state = (3, None)\<rparr>"

lemma eg_empty_replace: "ReplaceSnapshot eg_empty initial_mempool = Inr (1, snapshot eg_empty 1)"
proof -
  have e: "is_lower_hex CHR ''e''" by code_simp
  show ?thesis
    unfolding ReplaceSnapshot_core
    by (simp add: storable_def valid_candidate_def eg_empty_def initial_mempool_def mempool_state_checks_def
        snapshot_def Let_def wrap64_def in_i64_def min_i64_def max_i64_def in_i32_def e)
qed

lemma eg_refresh: "refreshOnce s eg_env eg_rpc ((eg_db, 1), initial_mempool)
  = (Inr 1, ((eg_db, 1), snapshot eg_empty 1))"
  using eg_empty_replace
  by (simp add: refreshOnce_def sbind_def confirmed_tip_def coreTip_def outside_def fetchAndDecode_def publish_def
      sret_def eg_env_def eg_rpc_def eg_empty_def eg_db_def Tip_def cp_Hash_def run_def)

lemma refreshOnce_publishes_anchored_witness:
  "\<exists>c entries. four_anchors ex_store eg_env eg_rpc ((eg_db, 1), initial_mempool) entries c
    \<and> map ct_TxID (cd_Transactions c) = sort (map fst entries) \<and> snapshot eg_empty 1 = snapshot c 1"
  using refreshOnce_publishes_anchored
    [where s = ex_store and env = eg_env and rpc = eg_rpc and x = "((eg_db, 1), initial_mempool)"]
  unfolding eg_refresh by auto

lemma eg_run: "Run_mempool s eg_env eg_rpc ((eg_db, 0), initial_mempool)
  = Some ((eg_db, 2), snapshot eg_empty 1)"
proof -
  note r = eg_refresh [of s]
  moreover have "ctx_call eg_env MempoolOutside ((eg_db, 0), mp) = (Inr (), ((eg_db, 1), mp))"
    "ctx_call eg_env MempoolOutside ((eg_db, 1), mp) = (Inl (MempoolOutside ''canceled''), ((eg_db, 2), mp))" for mp :: mempool_db
    by (simp_all add: ctx_call_def eg_env_def)
  ultimately show ?thesis unfolding Run_mempool_def by (subst poll.simps) simp
qed

lemma Run_mempool_whole_snapshots_witness:
  "\<exists>c. storable c \<and> snapshot eg_empty 1 = snapshot c 1"
  using Run_mempool_whole_snapshots [OF eg_run [of ex_store]]
  by (auto simp: snapshot_def State_def initial_mempool_def Let_def)

end
