(* ===== verification/Deployments.thy ===== *)
theory Deployments
  imports SnapshotCalls
begin

text \<open>
  \<open>internal/deployments\<close>: strict decoding of Core's \<open>getdeploymentinfo\<close>, the candidate and its
  validation, the replacement of the cached snapshot and the acquisition cycle. \<open>json.Unmarshal\<close> of
  one deployment object is a parameter \<open>unmarshal\<close>, PostgreSQL's \<open>JSONB\<close> conversion a parameter
  \<open>jsonb\<close>; a JSON text is its bytes. Times are integers,
  the zero time is 0.
\<close>

section \<open>The raw records of internal/rpc/deployment.go\<close>

record raw_statistics =
  st_Period :: "int option"
  st_Threshold :: "int option"
  st_Elapsed :: "int option"
  st_Count :: "int option"
  st_Possible :: "bool option"

record raw_bip9 =
  b9_Bit :: "int option"
  b9_StartTime :: "int option"
  b9_Timeout :: "int option"
  b9_MinActivationHeight :: "int option"
  b9_Status :: string
  b9_StatusNext :: string
  b9_Since :: "int option"
  b9_Statistics :: "raw_statistics option"
  b9_Signalling :: "string option"

record raw_deployment =
  rd_Type :: string
  rd_Active :: "bool option"
  rd_Height :: "int option"
  rd_BIP9 :: "raw_bip9 option"

text \<open>A nil map is \<open>None\<close>; otherwise the keys are distinct.\<close>

record raw_info =
  ri_Hash :: string
  ri_Height :: "int option"
  ri_Deployments :: "(string, string) table option"

section \<open>model.go\<close>

record cand_dep =
  dp_Name :: string
  dp_Status :: string
  dp_SinceHeight :: int
  dp_RawJSON :: string

record dep_candidate =
  dc_CoreTipHeight :: int
  dc_CoreTipHash :: string
  dc_ObservedAt :: int
  dc_Deployments :: "cand_dep list"

record decoded_response =
  dr_Hash :: string
  dr_Height :: int
  dr_Deployments :: "cand_dep list"

datatype dep_error =
    BadHash | NegativeHeight int | MissingHeight | NoDeployments | ZeroObservedAt
  | EmptyName | LongName string | DuplicateName string
  | BadStatus string string | NegativeSince string | EmptyJSON string
  | Undecodable string | MissingIn string string | NegativeIn string string | OutOfRange string string
  | UnknownType string string | BadSignalling string
  | DepDatabase | ErrConfirmedIndexNotReady | ErrDeploymentRace | DepOutside string

definition validBIP9Statuses :: "string list" where
  "validBIP9Statuses = [''defined'', ''started'', ''locked_in'', ''active'', ''failed'']"

definition maxDeploymentNameLength :: nat where "maxDeploymentNameLength = 128"

definition validateDeploymentName :: "string \<Rightarrow> dep_error + unit" where
  "validateDeploymentName name =
    (if name = [] then Inl EmptyName
     else if maxDeploymentNameLength < length name then Inl (LongName name) else Inr ())"

definition validate_deployment :: "cand_dep \<Rightarrow> string set \<Rightarrow> dep_error + string set" where
  "validate_deployment d names =
    rbind (validateDeploymentName (dp_Name d)) (\<lambda>_.
    rbind (guard (dp_Name d \<notin> names) (DuplicateName (dp_Name d))) (\<lambda>_.
    rbind (guard (dp_Status d \<in> set validBIP9Statuses) (BadStatus (dp_Name d) (dp_Status d))) (\<lambda>_.
    rbind (guard (0 \<le> dp_SinceHeight d) (NegativeSince (dp_Name d))) (\<lambda>_.
    rbind (guard (dp_RawJSON d \<noteq> []) (EmptyJSON (dp_Name d))) (\<lambda>_.
    Inr (insert (dp_Name d) names))))))"

definition validate_candidate :: "dep_candidate \<Rightarrow> dep_error + unit" where
  "validate_candidate c =
    rbind (guard (is_hash64 (dc_CoreTipHash c)) BadHash) (\<lambda>_.
    rbind (guard (0 \<le> dc_CoreTipHeight c) (NegativeHeight (dc_CoreTipHeight c))) (\<lambda>_.
    rbind (guard (dc_ObservedAt c \<noteq> 0) ZeroObservedAt) (\<lambda>_.
    rbind (fold_res validate_deployment (dc_Deployments c) {}) (\<lambda>_. Inr ()))))"

section \<open>Strict decoding\<close>

definition need :: "string \<Rightarrow> string \<Rightarrow> 'a option \<Rightarrow> dep_error + 'a" where
  "need name field p = of_option (MissingIn name field) p"

definition check_statistics :: "string \<Rightarrow> raw_statistics \<Rightarrow> dep_error + unit" where
  "check_statistics name st =
    rbind (need name ''bip9.statistics.period'' (st_Period st)) (\<lambda>period.
    rbind (need name ''bip9.statistics.elapsed'' (st_Elapsed st)) (\<lambda>elapsed.
    rbind (need name ''bip9.statistics.count'' (st_Count st)) (\<lambda>count.
    rbind (guard (\<not> period \<le> 0) (OutOfRange name ''bip9.statistics.period'')) (\<lambda>_.
    rbind (guard (\<not> (elapsed < 0 \<or> period < elapsed)) (OutOfRange name ''bip9.statistics.elapsed'')) (\<lambda>_.
    rbind (guard (\<not> (count < 0 \<or> elapsed < count)) (OutOfRange name ''bip9.statistics.count'')) (\<lambda>_.
    case st_Threshold st of
      None \<Rightarrow> Inr ()
    | Some t \<Rightarrow> guard (\<not> (t \<le> 0 \<or> period < t)) (OutOfRange name ''bip9.statistics.threshold'')))))))"

definition check_signalling :: "string \<Rightarrow> string option \<Rightarrow> dep_error + unit" where
  "check_signalling name s = (case s of
     None \<Rightarrow> Inr ()
   | Some cs \<Rightarrow> guard (list_all (\<lambda>c. c = CHR ''#'' \<or> c = CHR ''-'') cs) (BadSignalling name))"

definition decodeBIP9Deployment :: "string \<Rightarrow> raw_deployment \<Rightarrow> string \<Rightarrow> dep_error + cand_dep" where
  "decodeBIP9Deployment name d raw =
    rbind (need name ''bip9'' (rd_BIP9 d)) (\<lambda>b.
    rbind (guard (b9_Status b \<in> set validBIP9Statuses) (BadStatus name (b9_Status b))) (\<lambda>_.
    rbind (guard (b9_StatusNext b \<in> set validBIP9Statuses) (BadStatus name (b9_StatusNext b))) (\<lambda>_.
    rbind (need name ''bip9.start_time'' (b9_StartTime b)) (\<lambda>_.
    rbind (need name ''bip9.timeout'' (b9_Timeout b)) (\<lambda>_.
    rbind (need name ''bip9.min_activation_height'' (b9_MinActivationHeight b)) (\<lambda>minActivationHeight.
    rbind (need name ''bip9.since'' (b9_Since b)) (\<lambda>since.
    rbind (guard (\<not> since < 0) (NegativeSince name)) (\<lambda>_.
    rbind (guard (\<not> (b9_Bit b \<noteq> None \<and> (the (b9_Bit b) < 0 \<or> 28 < the (b9_Bit b)))) (OutOfRange name ''bip9.bit'')) (\<lambda>_.
    rbind (guard (\<not> minActivationHeight < 0) (NegativeIn name ''bip9.min_activation_height'')) (\<lambda>_.
    rbind (guard (\<not> (rd_Height d \<noteq> None \<and> the (rd_Height d) < 0)) (NegativeIn name ''height'')) (\<lambda>_.
    rbind (case b9_Statistics b of None \<Rightarrow> Inr () | Some st \<Rightarrow> check_statistics name st) (\<lambda>_.
    rbind (check_signalling name (b9_Signalling b)) (\<lambda>_.
    Inr \<lparr>dp_Name = name, dp_Status = b9_Status b, dp_SinceHeight = since, dp_RawJSON = raw\<rparr>)))))))))))))"

text \<open>One iteration over the map; a buried deployment is checked and dropped.\<close>

definition decode_deployment ::
  "(string \<Rightarrow> raw_deployment option) \<Rightarrow> string \<times> string \<Rightarrow> dep_error + cand_dep list" where
  "decode_deployment unmarshal = (\<lambda>(name, raw).
    rbind (validateDeploymentName name) (\<lambda>_.
    rbind (of_option (Undecodable name) (unmarshal raw)) (\<lambda>d.
    rbind (need name ''active'' (rd_Active d)) (\<lambda>_.
    if rd_Type d = ''buried'' then
      rbind (need name ''height'' (rd_Height d)) (\<lambda>h.
      rbind (guard (\<not> h < 0) (NegativeIn name ''height'')) (\<lambda>_. Inr []))
    else if rd_Type d = ''bip9'' then
      rbind (decodeBIP9Deployment name d raw) (\<lambda>cd. Inr [cd])
    else Inl (UnknownType name (rd_Type d))))))"

text \<open>\<open>iter\<close> is the order in which Go ranges over the map.\<close>

definition DecodeDeploymentInfo ::
  "((string, string) table \<Rightarrow> (string, string) table) \<Rightarrow> (string \<Rightarrow> raw_deployment option)
    \<Rightarrow> raw_info \<Rightarrow> dep_error + decoded_response" where
  "DecodeDeploymentInfo iter unmarshal info =
    rbind (guard (is_hash64 (ri_Hash info)) BadHash) (\<lambda>_.
    rbind (of_option MissingHeight (ri_Height info)) (\<lambda>height.
    rbind (guard (\<not> height < 0) (NegativeHeight height)) (\<lambda>_.
    rbind (of_option NoDeployments (ri_Deployments info)) (\<lambda>deps.
    rbind (map_res (decode_deployment unmarshal) (iter deps)) (\<lambda>out.
    Inr \<lparr>dr_Hash = ri_Hash info, dr_Height = height, dr_Deployments = concat out\<rparr>)))))"

section \<open>store.go\<close>

record dep_row =
  cr_status :: string
  cr_since :: int
  cr_raw_json :: string
  cr_checked_at :: int

record deployment_state =
  ds_Initialized :: bool
  ds_Generation :: int
  ds_CoreTipHeight :: "int option"
  ds_CoreTipHash :: "string option"
  ds_DeploymentCount :: int
  ds_ObservedAt :: "int option"

record dep_db =
  deployment_state :: deployment_state
  chain_deployments :: "(string, dep_row) table"

definition initial_deployments :: dep_db where
  "initial_deployments = \<lparr>deployment_state = \<lparr>ds_Initialized = False, ds_Generation = 0, ds_CoreTipHeight = None,
     ds_CoreTipHash = None, ds_DeploymentCount = 0, ds_ObservedAt = None\<rparr>, chain_deployments = []\<rparr>"

definition deployment_state_checks :: "deployment_state \<Rightarrow> bool" where
  "deployment_state_checks s \<longleftrightarrow> 0 \<le> ds_Generation s \<and> in_i64 (ds_Generation s)
    \<and> 0 \<le> ds_DeploymentCount s \<and> in_i32 (ds_DeploymentCount s)
    \<and> (case ds_CoreTipHeight s of None \<Rightarrow> True | Some h \<Rightarrow> 0 \<le> h)
    \<and> (case ds_CoreTipHash s of None \<Rightarrow> True | Some h \<Rightarrow> is_hash64 h)
    \<and> (\<not> ds_Initialized s \<and> ds_Generation s = 0 \<and> ds_ObservedAt s = None \<and> ds_CoreTipHeight s = None
         \<and> ds_CoreTipHash s = None \<and> ds_DeploymentCount s = 0
       \<or> ds_Initialized s \<and> 1 \<le> ds_Generation s \<and> ds_ObservedAt s \<noteq> None \<and> ds_CoreTipHeight s \<noteq> None
         \<and> ds_CoreTipHash s \<noteq> None)"

definition DepState :: "dep_db \<Rightarrow> deployment_state" where "DepState d = deployment_state d"

text \<open>\<open>jsonb\<close> is PostgreSQL's conversion of a text to the type of the column, which can refuse it.\<close>

definition dep_row_of :: "int \<Rightarrow> cand_dep \<Rightarrow> string \<Rightarrow> dep_row" where
  "dep_row_of observedAt d j =
    \<lparr>cr_status = dp_Status d, cr_since = dp_SinceHeight d, cr_raw_json = j, cr_checked_at = observedAt\<rparr>"

definition insert_deployment ::
  "(string \<Rightarrow> string option) \<Rightarrow> int \<Rightarrow> cand_dep \<Rightarrow> dep_db \<Rightarrow> dep_error + dep_db" where
  "insert_deployment jsonb observedAt d db =
    rbind (of_option DepDatabase (jsonb (dp_RawJSON d))) (\<lambda>j.
    if tget (chain_deployments db) (dp_Name d) \<noteq> None then Inl DepDatabase
    else Inr (db\<lparr>chain_deployments := tinsert (dp_Name d) (dep_row_of observedAt d j) (chain_deployments db)\<rparr>))"

definition update_deployment_state :: "dep_candidate \<Rightarrow> dep_db \<Rightarrow> dep_error + int \<times> dep_db" where
  "update_deployment_state c db =
    (let s = \<lparr>ds_Initialized = True, ds_Generation = ds_Generation (deployment_state db) + 1,
              ds_CoreTipHeight = Some (dc_CoreTipHeight c), ds_CoreTipHash = Some (dc_CoreTipHash c),
              ds_DeploymentCount = int (length (dc_Deployments c)), ds_ObservedAt = Some (dc_ObservedAt c)\<rparr>
     in if deployment_state_checks s then Inr (ds_Generation s, db\<lparr>deployment_state := s\<rparr>) else Inl DepDatabase)"

definition ReplaceDeployments ::
  "(string \<Rightarrow> string option) \<Rightarrow> dep_candidate \<Rightarrow> dep_db \<Rightarrow> dep_error + int \<times> dep_db" where
  "ReplaceDeployments jsonb c db =
    rbind (validate_candidate c) (\<lambda>_.
    rbind (fold_res (insert_deployment jsonb (dc_ObservedAt c)) (dc_Deployments c)
             (db\<lparr>chain_deployments := tdelete (\<lambda>_ _. True) (chain_deployments db)\<rparr>)) (\<lambda>db1.
    update_deployment_state c db1))"

section \<open>sync.go\<close>

record 'w deployment_rpc =
  dpGetBlockCount :: "('w, string, int) call"
  dpGetBlockHash :: "int \<Rightarrow> ('w, string, string) call"
  dpGetDeploymentInfo :: "string \<Rightarrow> ('w, string, raw_info) call"
  dpNow :: "'w \<Rightarrow> int"

type_synonym 'w dsys = "('w, dep_db) snap"

definition dep_coreTip :: "'w deployment_rpc \<Rightarrow> ('w dsys, dep_error, int \<times> string) call" where
  "dep_coreTip rpc =
    sbind (outside (dpGetBlockCount rpc) DepOutside) (\<lambda>height.
    sbind (outside (dpGetBlockHash rpc height) DepOutside) (\<lambda>hash.
    sret (Inr (height, hash))))"

definition now :: "'w deployment_rpc \<Rightarrow> ('w dsys, dep_error, int) call" where
  "now rpc = (\<lambda>((d, w), m). (Inr (dpNow rpc w), ((d, w), m)))"

definition dep_refreshOnce ::
  "store \<Rightarrow> 'w env \<Rightarrow> 'w deployment_rpc \<Rightarrow> ((string, string) table \<Rightarrow> (string, string) table)
    \<Rightarrow> (string \<Rightarrow> raw_deployment option) \<Rightarrow> (string \<Rightarrow> string option) \<Rightarrow> ('w dsys, dep_error, int) call" where
  "dep_refreshOnce s env rpc iter unmarshal jsonb =
    sbind (confirmed_tip s env DepOutside) (\<lambda>initialDBTip.
    sbind (dep_coreTip rpc) (\<lambda>(initialCoreHeight, initialCoreHash).
    if fst initialDBTip \<noteq> initialCoreHeight \<or> cp_Hash initialDBTip \<noteq> initialCoreHash
    then sret (Inl ErrConfirmedIndexNotReady)
    else sbind (now rpc) (\<lambda>observedAt.
    sbind (outside (dpGetDeploymentInfo rpc (cp_Hash initialDBTip)) DepOutside) (\<lambda>info.
    sbind (sret (DecodeDeploymentInfo iter unmarshal info)) (\<lambda>decoded.
    if dr_Height decoded \<noteq> fst initialDBTip \<or> dr_Hash decoded \<noteq> cp_Hash initialDBTip
    then sret (Inl ErrDeploymentRace)
    else sbind (dep_coreTip rpc) (\<lambda>(finalCoreHeight, finalCoreHash).
    sbind (confirmed_tip s env DepOutside) (\<lambda>finalDBTip.
    if initialCoreHeight \<noteq> finalCoreHeight \<or> initialCoreHash \<noteq> finalCoreHash then sret (Inl ErrDeploymentRace)
    else if fst initialDBTip \<noteq> fst finalDBTip \<or> cp_Hash initialDBTip \<noteq> cp_Hash finalDBTip
    then sret (Inl ErrDeploymentRace)
    else publish s env DepOutside (ReplaceDeployments jsonb \<lparr>dc_CoreTipHeight = finalCoreHeight,
      dc_CoreTipHash = finalCoreHash, dc_ObservedAt = observedAt, dc_Deployments = dr_Deployments decoded\<rparr>))))))))"

definition dep_logRefreshOutcome :: "'w env \<Rightarrow> dep_error \<Rightarrow> log_level" where
  "dep_logRefreshOutcome env e =
    (let canceled = (case e of DepOutside t \<Rightarrow> Canceled env t | _ \<Rightarrow> False)
     in if canceled then Silent else if e = ErrConfirmedIndexNotReady then LogDebug else LogWarn)"

definition Run_deployments ::
  "store \<Rightarrow> 'w env \<Rightarrow> 'w deployment_rpc \<Rightarrow> ((string, string) table \<Rightarrow> (string, string) table)
    \<Rightarrow> (string \<Rightarrow> raw_deployment option) \<Rightarrow> (string \<Rightarrow> string option) \<Rightarrow> 'w dsys \<Rightarrow> 'w dsys option" where
  "Run_deployments s env rpc iter unmarshal jsonb =
    poll (ctx_call env DepOutside) (dep_refreshOnce s env rpc iter unmarshal jsonb)"

end
