(* ===== verification/DeploymentsSync.thy ===== *)
theory DeploymentsSync
  imports Deployments "HOL-Library.Multiset"
begin

text \<open>
  What the deployment observer guarantees: decoding accepts exactly the well-formed responses, what
  it decodes can be stored, and a cycle publishes the BIP9 entries of one anchored response.
\<close>

section \<open>Well-formed responses\<close>

definition statistics_ok :: "raw_statistics \<Rightarrow> bool" where
  "statistics_ok st \<longleftrightarrow> (case (st_Period st, st_Elapsed st, st_Count st) of
     (Some p, Some e, Some c) \<Rightarrow> 0 < p \<and> 0 \<le> c \<and> c \<le> e \<and> e \<le> p
       \<and> (case st_Threshold st of None \<Rightarrow> True | Some t \<Rightarrow> 0 < t \<and> t \<le> p)
   | _ \<Rightarrow> False)"

definition bip9_ok :: "raw_deployment \<Rightarrow> raw_bip9 \<Rightarrow> bool" where
  "bip9_ok d b \<longleftrightarrow> b9_Status b \<in> set validBIP9Statuses \<and> b9_StatusNext b \<in> set validBIP9Statuses
    \<and> b9_StartTime b \<noteq> None \<and> b9_Timeout b \<noteq> None
    \<and> (\<exists>m. b9_MinActivationHeight b = Some m \<and> 0 \<le> m) \<and> (\<exists>n. b9_Since b = Some n \<and> 0 \<le> n)
    \<and> (\<forall>bit. b9_Bit b = Some bit \<longrightarrow> 0 \<le> bit \<and> bit \<le> 28) \<and> (\<forall>h. rd_Height d = Some h \<longrightarrow> 0 \<le> h)
    \<and> (\<forall>st. b9_Statistics b = Some st \<longrightarrow> statistics_ok st)
    \<and> (\<forall>cs. b9_Signalling b = Some cs \<longrightarrow> set cs \<subseteq> {CHR ''#'', CHR ''-''})"

definition name_ok :: "string \<Rightarrow> bool" where
  "name_ok name \<longleftrightarrow> name \<noteq> [] \<and> length name \<le> 128"

definition entry_ok :: "(string \<Rightarrow> raw_deployment option) \<Rightarrow> string \<times> string \<Rightarrow> bool" where
  "entry_ok unmarshal e \<longleftrightarrow> name_ok (fst e) \<and> (\<exists>d. unmarshal (snd e) = Some d \<and> rd_Active d \<noteq> None
    \<and> (rd_Type d = ''buried'' \<and> (\<exists>h. rd_Height d = Some h \<and> 0 \<le> h)
       \<or> rd_Type d = ''bip9'' \<and> (\<exists>b. rd_BIP9 d = Some b \<and> bip9_ok d b)))"

definition is_bip9 :: "(string \<Rightarrow> raw_deployment option) \<Rightarrow> string \<times> string \<Rightarrow> bool" where
  "is_bip9 unmarshal e \<longleftrightarrow> (case unmarshal (snd e) of None \<Rightarrow> False | Some d \<Rightarrow> rd_Type d = ''bip9'')"

text \<open>The candidate of one BIP9 entry.\<close>

definition dep_of :: "(string \<Rightarrow> raw_deployment option) \<Rightarrow> string \<times> string \<Rightarrow> cand_dep" where
  "dep_of unmarshal e = (let b = the (rd_BIP9 (the (unmarshal (snd e)))) in
    \<lparr>dp_Name = fst e, dp_Status = b9_Status b, dp_SinceHeight = the (b9_Since b), dp_RawJSON = snd e\<rparr>)"

lemma name_Inr: "validateDeploymentName name = Inr u \<longleftrightarrow> name_ok name"
  by (auto simp: validateDeploymentName_def name_ok_def maxDeploymentNameLength_def)

lemma statistics_Inr: "check_statistics name st = Inr () \<longleftrightarrow> statistics_ok st"
  by (cases "st_Period st"; cases "st_Elapsed st"; cases "st_Count st"; cases "st_Threshold st")
    (auto simp: check_statistics_def statistics_ok_def need_def result_simps)

lemma signalling_Inr:
  "check_signalling name s = Inr () \<longleftrightarrow> (\<forall>cs. s = Some cs \<longrightarrow> set cs \<subseteq> {CHR ''#'', CHR ''-''})"
  by (cases s) (auto simp: check_signalling_def result_simps list_all_iff)

lemma absent_or: "\<not> (p \<noteq> None \<and> P (the p)) \<longleftrightarrow> (\<forall>x. p = Some x \<longrightarrow> \<not> P x)"
  by (cases p) auto

lemma decodeBIP9_Inr:
  "decodeBIP9Deployment name d raw = Inr cd \<longleftrightarrow> (\<exists>b. rd_BIP9 d = Some b \<and> bip9_ok d b
    \<and> cd = \<lparr>dp_Name = name, dp_Status = b9_Status b, dp_SinceHeight = the (b9_Since b), dp_RawJSON = raw\<rparr>)"
proof -
  have st: "(case b9_Statistics b of None \<Rightarrow> Inr () | Some st \<Rightarrow> check_statistics name st) = Inr u \<longleftrightarrow>
    (\<forall>st. b9_Statistics b = Some st \<longrightarrow> statistics_ok st)" for u b
    by (cases "b9_Statistics b") (auto simp: statistics_Inr)
  have sg: "check_signalling name (b9_Signalling b) = Inr u \<longleftrightarrow>
    (\<forall>cs. b9_Signalling b = Some cs \<longrightarrow> set cs \<subseteq> {CHR ''#'', CHR ''-''})" for u b
    using signalling_Inr by (cases u) simp
  show ?thesis
    unfolding decodeBIP9Deployment_def need_def rbind_eq_Inr_iff guard_eq_Inr_iff of_option_eq_Inr_iff st sg bip9_ok_def
      absent_or [of "rd_Height d" "\<lambda>h. h < 0"] absent_or [of "b9_Bit _" "\<lambda>b. b < 0 \<or> 28 < b"]
    by (auto simp: not_less)
qed

lemma decode_deployment_Inr:
  "decode_deployment unmarshal e = Inr out \<longleftrightarrow> entry_ok unmarshal e
    \<and> out = (if is_bip9 unmarshal e then [dep_of unmarshal e] else [])"
proof -
  obtain name raw where e: "e = (name, raw)" by force
  show ?thesis
  proof (cases "unmarshal raw")
    case None
    then show ?thesis by (simp add: decode_deployment_def entry_ok_def e rbind_eq_Inr_iff)
  next
    case (Some d)
    consider "rd_Type d = ''buried''" | "rd_Type d = ''bip9''" | "rd_Type d \<notin> {''buried'', ''bip9''}" by auto
    then show ?thesis
    proof cases
      case 1
      then show ?thesis using Some
        by (auto simp: decode_deployment_def entry_ok_def is_bip9_def e rbind_eq_Inr_iff name_Inr need_def
            guard_eq_Inr_iff of_option_eq_Inr_iff)
    next
      case 2
      then show ?thesis using Some
        by (auto simp: decode_deployment_def entry_ok_def is_bip9_def dep_of_def e rbind_eq_Inr_iff name_Inr
            need_def of_option_eq_Inr_iff decodeBIP9_Inr)
    next
      case 3
      then show ?thesis using Some
        by (auto simp: decode_deployment_def entry_ok_def e rbind_eq_Inr_iff)
    qed
  qed
qed

lemma decode_all_Inr:
  "map_res (decode_deployment unmarshal) es = Inr outs \<longleftrightarrow> (\<forall>e \<in> set es. entry_ok unmarshal e)
    \<and> outs = map (\<lambda>e. if is_bip9 unmarshal e then [dep_of unmarshal e] else []) es"
  by (induction es arbitrary: outs) (auto simp: rbind_eq_Inr_iff decode_deployment_Inr)

lemma concat_filter: "concat (map (\<lambda>e. if P e then [f e] else []) es) = map f (filter P es)"
  by (induction es) auto

definition response_ok :: "(string \<Rightarrow> raw_deployment option) \<Rightarrow> raw_info \<Rightarrow> bool" where
  "response_ok unmarshal info \<longleftrightarrow> is_hash64 (ri_Hash info) \<and> (\<exists>h. ri_Height info = Some h \<and> 0 \<le> h)
    \<and> (\<exists>deps. ri_Deployments info = Some deps \<and> (\<forall>e \<in> set deps. entry_ok unmarshal e))"

lemma DecodeDeploymentInfo_core:
  assumes "\<And>t. mset (iter t) = mset t"
  shows "DecodeDeploymentInfo iter unmarshal info = Inr r \<longleftrightarrow> response_ok unmarshal info
    \<and> r = \<lparr>dr_Hash = ri_Hash info, dr_Height = the (ri_Height info),
           dr_Deployments = map (dep_of unmarshal) (filter (is_bip9 unmarshal) (iter (the (ri_Deployments info))))\<rparr>"
proof -
  have "set (iter t) = set t" for t using assms by (metis set_mset_mset)
  then show ?thesis
    by (auto simp: DecodeDeploymentInfo_def response_ok_def rbind_eq_Inr_iff guard_eq_Inr_iff
        of_option_eq_Inr_iff decode_all_Inr concat_filter)
qed

text \<open>
  \<open>DecodeDeploymentInfo\<close> accepts exactly the well-formed responses of Core, whatever the order in
  which Go ranges over the map, and its result is the list of the BIP9 entries, each with the name
  Core gave, its status and start height, and the untouched JSON text; buried entries are dropped.
\<close>

theorem DecodeDeploymentInfo_exact:
  assumes "\<And>t. mset (iter t) = mset t"
  shows "DecodeDeploymentInfo iter unmarshal info = Inr r \<longleftrightarrow> response_ok unmarshal info
    \<and> r = \<lparr>dr_Hash = ri_Hash info, dr_Height = the (ri_Height info),
           dr_Deployments = map (dep_of unmarshal) (filter (is_bip9 unmarshal) (iter (the (ri_Deployments info))))\<rparr>"
  by (rule DecodeDeploymentInfo_core [OF assms])

section \<open>The replacement\<close>

definition valid_dep_candidate :: "dep_candidate \<Rightarrow> bool" where
  "valid_dep_candidate c \<longleftrightarrow> is_hash64 (dc_CoreTipHash c) \<and> 0 \<le> dc_CoreTipHeight c \<and> dc_ObservedAt c \<noteq> 0
    \<and> distinct (map dp_Name (dc_Deployments c))
    \<and> (\<forall>d \<in> set (dc_Deployments c). name_ok (dp_Name d) \<and> dp_Status d \<in> set validBIP9Statuses
        \<and> 0 \<le> dp_SinceHeight d \<and> dp_RawJSON d \<noteq> [])"

lemma validate_deployments_Inr:
  "fold_res validate_deployment ds names = Inr names' \<longleftrightarrow>
    (\<forall>d \<in> set ds. name_ok (dp_Name d) \<and> dp_Status d \<in> set validBIP9Statuses \<and> 0 \<le> dp_SinceHeight d
       \<and> dp_RawJSON d \<noteq> [] \<and> dp_Name d \<notin> names)
    \<and> distinct (map dp_Name ds) \<and> names' = names \<union> dp_Name ` set ds"
proof (induction ds arbitrary: names)
  case (Cons d ds)
  have "fold_res validate_deployment (d # ds) names = Inr names' \<longleftrightarrow>
    (name_ok (dp_Name d) \<and> dp_Status d \<in> set validBIP9Statuses \<and> 0 \<le> dp_SinceHeight d
      \<and> dp_RawJSON d \<noteq> [] \<and> dp_Name d \<notin> names)
    \<and> fold_res validate_deployment ds (insert (dp_Name d) names) = Inr names'"
    by (auto simp: validate_deployment_def rbind_eq_Inr_iff guard_eq_Inr_iff name_Inr)
  then show ?case unfolding Cons.IH by (auto simp: image_iff)
qed auto

lemma validate_candidate_Inr: "validate_candidate c = Inr u \<longleftrightarrow> valid_dep_candidate c"
  unfolding validate_candidate_def valid_dep_candidate_def rbind_eq_Inr_iff guard_eq_Inr_iff validate_deployments_Inr
  by auto

definition dep_snapshot :: "(string \<Rightarrow> string option) \<Rightarrow> dep_candidate \<Rightarrow> int \<Rightarrow> dep_db" where
  "dep_snapshot jsonb c g =
    \<lparr>deployment_state = \<lparr>ds_Initialized = True, ds_Generation = g, ds_CoreTipHeight = Some (dc_CoreTipHeight c),
       ds_CoreTipHash = Some (dc_CoreTipHash c), ds_DeploymentCount = int (length (dc_Deployments c)),
       ds_ObservedAt = Some (dc_ObservedAt c)\<rparr>,
     chain_deployments = map (\<lambda>d. (dp_Name d, dep_row_of (dc_ObservedAt c) d (the (jsonb (dp_RawJSON d))))) (dc_Deployments c)\<rparr>"

lemma insert_deployments_Inr:
  "fold_res (insert_deployment jsonb t) ds db = Inr db' \<longleftrightarrow>
    (\<forall>d \<in> set ds. jsonb (dp_RawJSON d) \<noteq> None \<and> dp_Name d \<notin> fst ` set (chain_deployments db))
    \<and> distinct (map dp_Name ds)
    \<and> db' = db\<lparr>chain_deployments := chain_deployments db
        @ map (\<lambda>d. (dp_Name d, dep_row_of t d (the (jsonb (dp_RawJSON d))))) ds\<rparr>"
proof (induction ds arbitrary: db)
  case (Cons d ds)
  have step: "insert_deployment jsonb t d db = Inr x \<longleftrightarrow> jsonb (dp_RawJSON d) \<noteq> None
    \<and> dp_Name d \<notin> fst ` set (chain_deployments db)
    \<and> x = db\<lparr>chain_deployments := chain_deployments db @ [(dp_Name d, dep_row_of t d (the (jsonb (dp_RawJSON d))))]\<rparr>" for x
    by (auto simp: insert_deployment_def rbind_eq_Inr_iff of_option_eq_Inr_iff tinsert_def tget_def
        map_of_eq_None_iff split: if_splits)
  show ?case
    unfolding fold_res.simps rbind_eq_Inr_iff step Cons.IH by (auto simp: image_iff)
qed auto

lemma ReplaceDeployments_core:
  "ReplaceDeployments jsonb c db = Inr (g, db') \<longleftrightarrow> valid_dep_candidate c
    \<and> (\<forall>d \<in> set (dc_Deployments c). jsonb (dp_RawJSON d) \<noteq> None)
    \<and> g = ds_Generation (DepState db) + 1 \<and> deployment_state_checks (DepState (dep_snapshot jsonb c g))
    \<and> db' = dep_snapshot jsonb c g"
proof (cases "valid_dep_candidate c")
  case True
  then have "distinct (map dp_Name (dc_Deployments c))" by (simp add: valid_dep_candidate_def)
  then show ?thesis using True
    by (auto simp: ReplaceDeployments_def rbind_eq_Inr_iff validate_candidate_Inr insert_deployments_Inr
        update_deployment_state_def Let_def DepState_def dep_snapshot_def tdelete_def)
qed (simp add: ReplaceDeployments_def rbind_eq_Inr_iff validate_candidate_Inr)

text \<open>The store's validation never refuses what the decoder produced.\<close>

lemma decoded_valid:
  assumes iter: "\<And>t. mset (iter t) = mset t" and r: "DecodeDeploymentInfo iter unmarshal info = Inr r"
    and keys: "\<And>deps. ri_Deployments info = Some deps \<Longrightarrow> twf deps"
    and json: "unmarshal [] = None" and t: "t \<noteq> 0"
  shows "valid_dep_candidate \<lparr>dc_CoreTipHeight = dr_Height r, dc_CoreTipHash = dr_Hash r, dc_ObservedAt = t,
    dc_Deployments = dr_Deployments r\<rparr>"
proof -
  from r have ok: "response_ok unmarshal info"
    and eq: "r = \<lparr>dr_Hash = ri_Hash info, dr_Height = the (ri_Height info),
           dr_Deployments = map (dep_of unmarshal) (filter (is_bip9 unmarshal) (iter (the (ri_Deployments info))))\<rparr>"
    unfolding DecodeDeploymentInfo_core [OF iter] by blast+
  from ok obtain h deps where h: "ri_Height info = Some h" "0 \<le> h" and deps: "ri_Deployments info = Some deps"
    and all: "\<forall>e \<in> set deps. entry_ok unmarshal e" and hash: "is_hash64 (ri_Hash info)"
    by (auto simp: response_ok_def)
  have set: "set (iter deps) = set deps" using iter by (metis set_mset_mset)
  have "distinct (map fst (iter deps))"
  proof -
    have "mset (map fst (iter deps)) = mset (map fst deps)" by (simp add: iter)
    then show ?thesis using keys [OF deps] mset_eq_imp_distinct_iff unfolding twf_def by blast
  qed
  moreover have "map dp_Name (map (dep_of unmarshal) es) = map fst es" for es
    by (simp add: dep_of_def Let_def)
  ultimately have "distinct (map dp_Name (dr_Deployments r))"
    by (simp add: eq deps distinct_map_filter del: map_map)
  moreover have "name_ok (dp_Name d) \<and> dp_Status d \<in> set validBIP9Statuses \<and> 0 \<le> dp_SinceHeight d \<and> dp_RawJSON d \<noteq> []"
    if "d \<in> set (dr_Deployments r)" for d
  proof -
    from that obtain e where e: "e \<in> set deps" "is_bip9 unmarshal e" "d = dep_of unmarshal e"
      by (auto simp: eq deps set)
    from all e(1) have ok: "entry_ok unmarshal e" by blast
    with e(2) obtain dd b where "unmarshal (snd e) = Some dd" "rd_BIP9 dd = Some b" "bip9_ok dd b" "name_ok (fst e)"
      by (auto simp: entry_ok_def is_bip9_def)
    moreover from this(1) json have "snd e \<noteq> []" by (cases "snd e") auto
    ultimately show ?thesis by (auto simp: e(3) dep_of_def bip9_ok_def)
  qed
  ultimately show ?thesis using h hash t by (simp add: valid_dep_candidate_def eq)
qed

section \<open>The cycle\<close>

interpretation deployed: publisher "ReplaceDeployments jsonb" "\<lambda>m. ds_Generation (DepState m)" "dep_snapshot jsonb"
  "\<lambda>c. valid_dep_candidate c \<and> (\<forall>d \<in> set (dc_Deployments c). jsonb (dp_RawJSON d) \<noteq> None)" for jsonb
  by unfold_locales (auto simp: ReplaceDeployments_core DepState_def dep_snapshot_def)

lemma reads_dep_coreTip: "reads (dep_coreTip rpc)"
  unfolding dep_coreTip_def by (intro reads_sbind reads_outside reads_sret)

lemma reads_now: "reads (now rpc)"
  by (auto simp: reads_def now_def)

lemma dep_refreshOnce_clean: "clean (dep_refreshOnce s env rpc iter unmarshal jsonb)"
  unfolding dep_refreshOnce_def
  by (intro clean_sbind clean_if clean_split clean_publish keeps_confirmed_tip reads_keeps reads_dep_coreTip
      reads_outside reads_now reads_sret keeps_clean [OF reads_keeps [OF reads_sret]])

text \<open>
  The reads of one cycle, in order: checkpoint, Core's tip, the clock, Core's answer for the hash of
  the checkpoint, Core's tip again, the checkpoint again.
\<close>

definition five_anchors ::
  "store \<Rightarrow> 'w env \<Rightarrow> 'w deployment_rpc \<Rightarrow> 'w dsys \<Rightarrow> int \<Rightarrow> string \<Rightarrow> int \<Rightarrow> raw_info \<Rightarrow> bool" where
  "five_anchors s env rpc x h hash observedAt info \<longleftrightarrow>
    (\<exists>x1 x2 x3 x4 x5 x6 cp cp'. confirmed_tip s env DepOutside x = (Inr cp, x1) \<and> fst cp = h \<and> cp_Hash cp = hash
      \<and> dep_coreTip rpc x1 = (Inr (h, hash), x2) \<and> now rpc x2 = (Inr observedAt, x3)
      \<and> outside (dpGetDeploymentInfo rpc hash) DepOutside x3 = (Inr info, x4)
      \<and> ri_Hash info = hash \<and> ri_Height info = Some h
      \<and> dep_coreTip rpc x4 = (Inr (h, hash), x5)
      \<and> confirmed_tip s env DepOutside x5 = (Inr cp', x6) \<and> fst cp' = h \<and> cp_Hash cp' = hash)"

lemma dep_refreshOnce_Inr:
  assumes iter: "\<And>t. mset (iter t) = mset t"
    and "dep_refreshOnce s env rpc iter unmarshal jsonb x = (Inr g, y)"
  shows "\<exists>h hash observedAt info. five_anchors s env rpc x h hash observedAt info \<and> response_ok unmarshal info
    \<and> ReplaceDeployments jsonb \<lparr>dc_CoreTipHeight = h, dc_CoreTipHash = hash, dc_ObservedAt = observedAt,
        dc_Deployments = map (dep_of unmarshal) (filter (is_bip9 unmarshal) (iter (the (ri_Deployments info))))\<rparr> (snd x)
      = Inr (g, snd y)"
proof -
  from assms(2) obtain cp x1 h hash x2 where 1: "confirmed_tip s env DepOutside x = (Inr cp, x1)"
    "dep_coreTip rpc x1 = (Inr (h, hash), x2)"
    and r1: "(if fst cp \<noteq> h \<or> cp_Hash cp \<noteq> hash then sret (Inl ErrConfirmedIndexNotReady)
      else sbind (now rpc) (\<lambda>observedAt.
      sbind (outside (dpGetDeploymentInfo rpc (cp_Hash cp)) DepOutside) (\<lambda>info.
      sbind (sret (DecodeDeploymentInfo iter unmarshal info)) (\<lambda>decoded.
      if dr_Height decoded \<noteq> fst cp \<or> dr_Hash decoded \<noteq> cp_Hash cp then sret (Inl ErrDeploymentRace)
      else sbind (dep_coreTip rpc) (\<lambda>(h', hash').
      sbind (confirmed_tip s env DepOutside) (\<lambda>cp'.
      if h \<noteq> h' \<or> hash \<noteq> hash' then sret (Inl ErrDeploymentRace)
      else if fst cp \<noteq> fst cp' \<or> cp_Hash cp \<noteq> cp_Hash cp' then sret (Inl ErrDeploymentRace)
      else publish s env DepOutside (ReplaceDeployments jsonb \<lparr>dc_CoreTipHeight = h', dc_CoreTipHash = hash',
        dc_ObservedAt = observedAt, dc_Deployments = dr_Deployments decoded\<rparr>))))))) x2 = (Inr g, y)"
    unfolding dep_refreshOnce_def sbind_eq_Inr_iff by (elim exE conjE) (simp only: split: prod.splits)
  from r1 have cp: "fst cp = h" "cp_Hash cp = hash" by (auto simp: sret_def split: if_splits)
  from r1 cp obtain t x3 info x4 dec x4' where
    2: "now rpc x2 = (Inr t, x3)" "outside (dpGetDeploymentInfo rpc hash) DepOutside x3 = (Inr info, x4)"
      "DecodeDeploymentInfo iter unmarshal info = Inr dec" "x4' = x4"
    and r2: "(if dr_Height dec \<noteq> h \<or> dr_Hash dec \<noteq> hash then sret (Inl ErrDeploymentRace)
      else sbind (dep_coreTip rpc) (\<lambda>(h', hash').
      sbind (confirmed_tip s env DepOutside) (\<lambda>cp'.
      if h \<noteq> h' \<or> hash \<noteq> hash' then sret (Inl ErrDeploymentRace)
      else if h \<noteq> fst cp' \<or> hash \<noteq> cp_Hash cp' then sret (Inl ErrDeploymentRace)
      else publish s env DepOutside (ReplaceDeployments jsonb \<lparr>dc_CoreTipHeight = h', dc_CoreTipHash = hash',
        dc_ObservedAt = t, dc_Deployments = dr_Deployments dec\<rparr>)))) x4 = (Inr g, y)"
    by (auto simp: sbind_eq_Inr_iff sret_def)
  from r2 have anchor: "dr_Height dec = h" "dr_Hash dec = hash" by (auto simp: sret_def split: if_splits)
  from r2 anchor obtain h' hash' x5 cp' x6 where
    3: "dep_coreTip rpc x4 = (Inr (h', hash'), x5)" "confirmed_tip s env DepOutside x5 = (Inr cp', x6)"
    and r3: "(if h \<noteq> h' \<or> hash \<noteq> hash' then sret (Inl ErrDeploymentRace)
      else if h \<noteq> fst cp' \<or> hash \<noteq> cp_Hash cp' then sret (Inl ErrDeploymentRace)
      else publish s env DepOutside (ReplaceDeployments jsonb \<lparr>dc_CoreTipHeight = h', dc_CoreTipHash = hash',
        dc_ObservedAt = t, dc_Deployments = dr_Deployments dec\<rparr>)) x6 = (Inr g, y)"
    by (auto simp: sbind_eq_Inr_iff)
  from r3 have eq: "h' = h" "hash' = hash" "fst cp' = h" "cp_Hash cp' = hash"
    by (auto simp: sret_def split: if_splits)
  from 2(3) have dec: "response_ok unmarshal info" "dr_Hash dec = ri_Hash info" "dr_Height dec = the (ri_Height info)"
    "dr_Deployments dec = map (dep_of unmarshal) (filter (is_bip9 unmarshal) (iter (the (ri_Deployments info))))"
    unfolding DecodeDeploymentInfo_core [OF iter] by simp_all
  then have info: "ri_Hash info = hash" "ri_Height info = Some h"
    using anchor by (auto simp: response_ok_def)
  have pub: "publish s env DepOutside (ReplaceDeployments jsonb \<lparr>dc_CoreTipHeight = h, dc_CoreTipHash = hash,
        dc_ObservedAt = t, dc_Deployments = dr_Deployments dec\<rparr>) x6 = (Inr g, y)"
    using r3 eq by simp
  have "five_anchors s env rpc x h hash t info"
    unfolding five_anchors_def using 1 2 3 cp eq info by blast
  moreover have "snd x6 = snd x"
    using 1 2 3 confirmed_tip_Inr reads_state [OF reads_dep_coreTip] reads_state [OF reads_outside]
      reads_state [OF reads_now] by metis
  ultimately show ?thesis using publish_Inr [OF pub] dec(1,4) by metis
qed

text \<open>The rows that a response stands for.\<close>

definition response_row ::
  "(string \<Rightarrow> raw_deployment option) \<Rightarrow> (string \<Rightarrow> string option) \<Rightarrow> raw_info \<Rightarrow> int \<Rightarrow> string \<Rightarrow> dep_row \<Rightarrow> bool" where
  "response_row unmarshal jsonb info t name row \<longleftrightarrow> (\<exists>deps raw d b j. ri_Deployments info = Some deps
    \<and> (name, raw) \<in> set deps \<and> unmarshal raw = Some d \<and> rd_Type d = ''bip9'' \<and> rd_BIP9 d = Some b
    \<and> jsonb raw = Some j
    \<and> row = \<lparr>cr_status = b9_Status b, cr_since = the (b9_Since b), cr_raw_json = j, cr_checked_at = t\<rparr>)"

lemma published_rows:
  assumes iter: "\<And>t. mset (iter t) = mset t"
    and v: "valid_dep_candidate \<lparr>dc_CoreTipHeight = h, dc_CoreTipHash = hash, dc_ObservedAt = t,
        dc_Deployments = map (dep_of unmarshal) (filter (is_bip9 unmarshal) (iter (the (ri_Deployments info))))\<rparr>"
    and j: "\<And>e. e \<in> set (the (ri_Deployments info)) \<Longrightarrow> is_bip9 unmarshal e \<Longrightarrow> jsonb (snd e) \<noteq> None"
    and ok: "response_ok unmarshal info"
    and y: "m = dep_snapshot jsonb \<lparr>dc_CoreTipHeight = h, dc_CoreTipHash = hash, dc_ObservedAt = t,
        dc_Deployments = map (dep_of unmarshal) (filter (is_bip9 unmarshal) (iter (the (ri_Deployments info))))\<rparr> g"
  shows "tget (chain_deployments m) name = Some row \<longleftrightarrow> response_row unmarshal jsonb info t name row"
proof -
  from ok obtain deps where deps: "ri_Deployments info = Some deps" and all: "\<forall>e \<in> set deps. entry_ok unmarshal e"
    by (auto simp: response_ok_def)
  have set: "set (iter deps) = set deps" using iter by (metis set_mset_mset)
  have c: "chain_deployments m = map (\<lambda>e. (fst e, dep_row_of t (dep_of unmarshal e) (the (jsonb (snd e)))))
      (filter (is_bip9 unmarshal) (iter deps))"
    by (simp add: y dep_snapshot_def deps dep_of_def Let_def o_def)
  have "twf (chain_deployments m)"
    using v by (simp add: c twf_def valid_dep_candidate_def deps dep_of_def Let_def o_def)
  then have "tget (chain_deployments m) name = Some row \<longleftrightarrow> (name, row) \<in> set (chain_deployments m)"
    by (simp add: in_set_tget)
  also have "\<dots> \<longleftrightarrow> (\<exists>raw. (name, raw) \<in> set deps \<and> is_bip9 unmarshal (name, raw)
      \<and> row = dep_row_of t (dep_of unmarshal (name, raw)) (the (jsonb raw)))"
    by (force simp: c set)
  also have "\<dots> \<longleftrightarrow> response_row unmarshal jsonb info t name row"
  proof
    assume "\<exists>raw. (name, raw) \<in> set deps \<and> is_bip9 unmarshal (name, raw)
      \<and> row = dep_row_of t (dep_of unmarshal (name, raw)) (the (jsonb raw))"
    then obtain raw where raw: "(name, raw) \<in> set deps" "is_bip9 unmarshal (name, raw)"
      "row = dep_row_of t (dep_of unmarshal (name, raw)) (the (jsonb raw))" by blast
    from all raw(1) have "entry_ok unmarshal (name, raw)" by blast
    with raw(2) obtain d b where "unmarshal raw = Some d" "rd_Type d = ''bip9''" "rd_BIP9 d = Some b"
      by (auto simp: entry_ok_def is_bip9_def)
    moreover obtain k where "jsonb raw = Some k" using j [of "(name, raw)"] raw(1,2) deps by auto
    ultimately show "response_row unmarshal jsonb info t name row"
      using raw(1,3) deps by (auto simp: response_row_def dep_row_of_def dep_of_def)
  next
    assume "response_row unmarshal jsonb info t name row"
    then show "\<exists>raw. (name, raw) \<in> set deps \<and> is_bip9 unmarshal (name, raw)
      \<and> row = dep_row_of t (dep_of unmarshal (name, raw)) (the (jsonb raw))"
      by (auto simp: response_row_def deps is_bip9_def dep_row_of_def dep_of_def)
  qed
  finally show ?thesis .
qed

text \<open>
  A deployment observation publishes only what is anchored: the checkpoint of the confirmed index
  and Core's tip, each read before and after, and the hash and height that Core's answer itself
  states, are all the ones that the new state row records; the answer was asked for that hash. The
  rows are then exactly the BIP9 entries of that answer, all with the one observation time, whatever
  was cached before and in whatever order Go walked the map. A cycle that fails leaves the cache as
  it was.
\<close>

theorem dep_refreshOnce_publishes_anchored:
  assumes iter: "\<And>t. mset (iter t) = mset t"
  shows "case dep_refreshOnce s env rpc iter unmarshal jsonb x of
     (Inl _, y) \<Rightarrow> snd y = snd x
   | (Inr g, y) \<Rightarrow> \<exists>h hash t info. five_anchors s env rpc x h hash t info \<and> response_ok unmarshal info
       \<and> g = ds_Generation (DepState (snd x)) + 1 \<and> ds_Generation (DepState (snd y)) = g
       \<and> ds_CoreTipHeight (DepState (snd y)) = Some h \<and> ds_CoreTipHash (DepState (snd y)) = Some hash
       \<and> ds_ObservedAt (DepState (snd y)) = Some t
       \<and> (\<forall>name row. tget (chain_deployments (snd y)) name = Some row \<longleftrightarrow> response_row unmarshal jsonb info t name row)"
proof -
  obtain r y where r: "dep_refreshOnce s env rpc iter unmarshal jsonb x = (r, y)"
    by (cases "dep_refreshOnce s env rpc iter unmarshal jsonb x")
  show ?thesis
  proof (cases r)
    case (Inl e)
    with r cleanD [OF dep_refreshOnce_clean] show ?thesis by simp
  next
    case (Inr g)
    with r have "dep_refreshOnce s env rpc iter unmarshal jsonb x = (Inr g, y)" by simp
    from dep_refreshOnce_Inr [OF iter this] obtain h hash t info where
      a: "five_anchors s env rpc x h hash t info" "response_ok unmarshal info"
      and p: "ReplaceDeployments jsonb \<lparr>dc_CoreTipHeight = h, dc_CoreTipHash = hash, dc_ObservedAt = t,
        dc_Deployments = map (dep_of unmarshal) (filter (is_bip9 unmarshal) (iter (the (ri_Deployments info))))\<rparr> (snd x)
      = Inr (g, snd y)" by blast
    from p have v: "valid_dep_candidate \<lparr>dc_CoreTipHeight = h, dc_CoreTipHash = hash, dc_ObservedAt = t,
        dc_Deployments = map (dep_of unmarshal) (filter (is_bip9 unmarshal) (iter (the (ri_Deployments info))))\<rparr>"
      and j: "\<And>e. e \<in> set (the (ri_Deployments info)) \<Longrightarrow> is_bip9 unmarshal e \<Longrightarrow> jsonb (snd e) \<noteq> None"
      and g: "g = ds_Generation (DepState (snd x)) + 1"
      and y: "snd y = dep_snapshot jsonb \<lparr>dc_CoreTipHeight = h, dc_CoreTipHash = hash, dc_ObservedAt = t,
        dc_Deployments = map (dep_of unmarshal) (filter (is_bip9 unmarshal) (iter (the (ri_Deployments info))))\<rparr> g"
      unfolding ReplaceDeployments_core using iter by (auto simp: dep_of_def Let_def simp flip: set_mset_mset)
    have rows: "tget (chain_deployments (snd y)) name = Some row \<longleftrightarrow> response_row unmarshal jsonb info t name row" for name row
      by (rule published_rows [OF iter v j a(2) y])
    from y have "ds_Generation (DepState (snd y)) = g" "ds_CoreTipHeight (DepState (snd y)) = Some h"
      "ds_CoreTipHash (DepState (snd y)) = Some hash" "ds_ObservedAt (DepState (snd y)) = Some t"
      by (simp_all add: DepState_def dep_snapshot_def)
    with a g rows show ?thesis unfolding r Inr by auto
  qed
qed

end
