(* ===== verification/DeploymentsWitness.thy ===== *)
theory DeploymentsWitness
  imports DeploymentsSync StoreExample
begin

text \<open>A response with one buried and one BIP9 deployment, decoded and published.\<close>

definition dg_buried :: raw_deployment where
  "dg_buried = \<lparr>rd_Type = ''buried'', rd_Active = Some True, rd_Height = Some 1, rd_BIP9 = None\<rparr>"

definition dg_bip9 :: raw_bip9 where
  "dg_bip9 = \<lparr>b9_Bit = Some 3, b9_StartTime = Some 0, b9_Timeout = Some 900, b9_MinActivationHeight = Some 0,
    b9_Status = ''started'', b9_StatusNext = ''started'', b9_Since = Some 2,
    b9_Statistics = Some \<lparr>st_Period = Some 144, st_Threshold = Some 108, st_Elapsed = Some 2, st_Count = Some 1,
      st_Possible = Some True\<rparr>, b9_Signalling = Some ''#-''\<rparr>"

definition dg_unmarshal :: "string \<Rightarrow> raw_deployment option" where
  "dg_unmarshal raw = (if raw = ''{b}'' then Some dg_buried
     else if raw = ''{q}'' then Some \<lparr>rd_Type = ''bip9'', rd_Active = Some False, rd_Height = None, rd_BIP9 = Some dg_bip9\<rparr>
     else None)"

definition dg_info :: raw_info where
  "dg_info = \<lparr>ri_Hash = replicate 64 CHR ''e'', ri_Height = Some 3,
    ri_Deployments = Some [(''csv'', ''{b}''), (''p2qpk'', ''{q}'')]\<rparr>"

lemma dg_ok: "response_ok dg_unmarshal dg_info"
proof -
  have "is_lower_hex CHR ''e''" by code_simp
  then show ?thesis
    by (simp add: response_ok_def dg_info_def entry_ok_def name_ok_def dg_unmarshal_def dg_buried_def dg_bip9_def
        bip9_ok_def validBIP9Statuses_def statistics_ok_def) auto
qed

lemma DecodeDeploymentInfo_exact_witness:
  "DecodeDeploymentInfo rev dg_unmarshal dg_info = Inr \<lparr>dr_Hash = replicate 64 CHR ''e'', dr_Height = 3,
     dr_Deployments = [\<lparr>dp_Name = ''p2qpk'', dp_Status = ''started'', dp_SinceHeight = 2, dp_RawJSON = ''{q}''\<rparr>]\<rparr>"
  using dg_ok
  by (subst DecodeDeploymentInfo_exact)
    (simp_all add: dg_info_def is_bip9_def dg_unmarshal_def dg_buried_def dep_of_def dg_bip9_def)

definition dg_rpc :: "nat deployment_rpc" where
  "dg_rpc = \<lparr>dpGetBlockCount = (\<lambda>w. (Inr 3, w)), dpGetBlockHash = (\<lambda>_ w. (Inr (replicate 64 CHR ''e''), w)),
    dpGetDeploymentInfo = (\<lambda>_ w. (Inr dg_info, w)), dpNow = (\<lambda>_. 1700)\<rparr>"

definition dg_env :: "nat env" where
  "dg_env = \<lparr>rpcGetBlockCount = (\<lambda>w. (Inr 3, w)), rpcGetBlockHash = (\<lambda>_ w. (Inl ''none'', w)),
    rpcGetBlockVerbose2 = (\<lambda>_ w. (Inl ''none'', w)), Resolver = None, Writers = (\<lambda>w. (Inr [], w)),
    CtxErr = (\<lambda>w. (None, w)), Canceled = (\<lambda>_. False)\<rparr>"

definition dg_db :: db where
  "dg_db = \<lparr>sync_state = (3, Some (replicate 64 CHR ''e'')), blocks = [], transactions = [],
    transaction_variants = [], block_transactions = [], transaction_inputs = [], transaction_input_witness = [],
    transaction_outputs = [], output_addresses = [], output_participants = [], utxo_state = [], addresses = [],
    block_accounting = [], block_supply_rollup = [], distribution = [], distribution_state = (3, None)\<rparr>"

definition dg_candidate :: dep_candidate where
  "dg_candidate = \<lparr>dc_CoreTipHeight = 3, dc_CoreTipHash = replicate 64 CHR ''e'', dc_ObservedAt = 1700,
     dc_Deployments = [\<lparr>dp_Name = ''p2qpk'', dp_Status = ''started'', dp_SinceHeight = 2, dp_RawJSON = ''{q}''\<rparr>]\<rparr>"

lemma dg_replace:
  "ReplaceDeployments Some dg_candidate initial_deployments = Inr (1, dep_snapshot Some dg_candidate 1)"
proof -
  have "is_lower_hex CHR ''e''" by code_simp
  then show ?thesis
    unfolding ReplaceDeployments_core
    by (simp add: valid_dep_candidate_def dg_candidate_def name_ok_def validBIP9Statuses_def DepState_def
        initial_deployments_def deployment_state_checks_def dep_snapshot_def in_i64_def min_i64_def max_i64_def in_i32_def)
qed

lemma dg_decode:
  "DecodeDeploymentInfo id dg_unmarshal dg_info = Inr \<lparr>dr_Hash = replicate 64 CHR ''e'', dr_Height = 3,
     dr_Deployments = dc_Deployments dg_candidate\<rparr>"
  using dg_ok
  by (subst DecodeDeploymentInfo_core)
    (simp_all add: dg_info_def is_bip9_def dg_unmarshal_def dg_buried_def dep_of_def dg_bip9_def dg_candidate_def)

lemma dg_refresh:
  "dep_refreshOnce s dg_env dg_rpc id dg_unmarshal Some ((dg_db, 0), initial_deployments)
    = (Inr 1, ((dg_db, 0), dep_snapshot Some dg_candidate 1))"
  using dg_replace dg_decode
  by (simp add: dep_refreshOnce_def sbind_def confirmed_tip_def dep_coreTip_def outside_def publish_def now_def
      sret_def dg_env_def dg_rpc_def dg_db_def dg_candidate_def Tip_def cp_Hash_def run_def)

lemma dep_refreshOnce_publishes_anchored_witness:
  "\<exists>info t. response_ok dg_unmarshal info
    \<and> (\<forall>name row. tget (chain_deployments (dep_snapshot Some dg_candidate 1)) name = Some row
        \<longleftrightarrow> response_row dg_unmarshal Some info t name row)"
  using dep_refreshOnce_publishes_anchored
    [where iter = id and s = ex_store and env = dg_env and rpc = dg_rpc and unmarshal = dg_unmarshal
      and jsonb = Some and x = "((dg_db, 0), initial_deployments)"]
  unfolding dg_refresh by auto

end
