(* ===== verification/Backfill.thy ===== *)
theory Backfill
  imports StoreSteps "HOL-Library.List_Lexorder" "HOL-Library.Char_ord"
begin

text \<open>
  The operator commands of \<open>internal/store\<close>: \<open>backfill.go\<close>,
  \<open>distribution_backfill.go\<close> and \<open>supply_rollup_backfill.go\<close> recompute the derived tables
  from the source tables, the preflights and \<open>network_identity.go\<close> check them read-only, and
  \<open>accounting.go\<close> reads them. Aggregates are exact integers, as PostgreSQL's \<open>numeric\<close> is; a
  value that is scanned into an \<open>int64\<close> or stored in a \<open>bigint\<close> column must fit.
\<close>

datatype backfill_error =
    ErrBackfillAlreadyRunning | ErrSchemaIdentityUnavailable | ErrIncompleteAccountingSource
  | ErrBackfillNoBlock | ErrBackfillNoCoinbase | ErrBackfillFacts acc_error
  | ErrDistributionBackfillAlreadyRunning | ErrDistributionCrossCheckFailed
  | ErrSupplyRollupBackfillAlreadyRunning | ErrSupplyRollupCanonicalShapeInvalid
  | ErrSupplyRollupCanonicalAncestryInvalid | ErrSupplyRollupSourceIncomplete
  | ErrSupplyRollupCrossCheckFailed
  | ErrDistributionCoverageMissing | ErrSupplyRollupCoverageMissing
  | ErrGenesisMissing | ErrGenesisMismatch | ErrGenesisOf genesis_error
  | BackfillStore store_error

abbreviation "BackfillDatabase \<equiv> BackfillStore ErrDatabase"

section \<open>The advisory lock\<close>

text \<open>
  The schema the connection resolves names against, and the keys that other sessions hold. The
  commands hold their own key for their whole run and release it at the end, so a run is between
  two states of this record that agree.
\<close>

record session =
  sn_current_schema :: "string option"
  sn_held :: "(int \<times> int) list"

definition backfillAccountingAdvisoryLockNamespace :: int where
  "backfillAccountingAdvisoryLockNamespace = 728341001"

definition backfillSupplyRollupAdvisoryLockNamespace :: int where
  "backfillSupplyRollupAdvisoryLockNamespace = 728341002"

definition backfillDistributionAdvisoryLockNamespace :: int where
  "backfillDistributionAdvisoryLockNamespace = 728341003"

definition schemaScopedLockKey ::
  "(string \<Rightarrow> int) \<Rightarrow> session \<Rightarrow> backfill_error + int \<times> string" where
  "schemaScopedLockKey hashtext sn =
    (case sn_current_schema sn of
       None \<Rightarrow> Inl ErrSchemaIdentityUnavailable
     | Some name \<Rightarrow> if name = [] then Inl ErrSchemaIdentityUnavailable else Inr (hashtext name, name))"

definition try_advisory_lock ::
  "int \<Rightarrow> backfill_error \<Rightarrow> (string \<Rightarrow> int) \<Rightarrow> session \<Rightarrow> backfill_error + unit" where
  "try_advisory_lock namespace running hashtext sn =
    rbind (schemaScopedLockKey hashtext sn) (\<lambda>(schemaKey, _).
    guard ((namespace, schemaKey) \<notin> set (sn_held sn)) running)"

section \<open>accounting.go and supply\_rollup.go: the reads\<close>

definition GetBlockAccounting :: "db \<Rightarrow> string \<Rightarrow> acc_row option" where
  "GetBlockAccounting d blockHash = tget (block_accounting d) blockHash"

record accounting_completeness =
  BlockCount :: int
  AccountingCount :: int
  MissingCount :: int

definition CheckAccountingCompleteness :: "db \<Rightarrow> accounting_completeness" where
  "CheckAccountingCompleteness d =
    \<lparr>BlockCount = int (length (blocks d)), AccountingCount = int (length (block_accounting d)),
     MissingCount = tcount (\<lambda>h _. tget (block_accounting d) h = None) (blocks d)\<rparr>"

definition GetBlockSupplyRollup :: "db \<Rightarrow> string \<Rightarrow> rollup_row option" where
  "GetBlockSupplyRollup d blockHash = tget (block_supply_rollup d) blockHash"

section \<open>backfill.go\<close>

record accounting_result =
  TotalBlocks :: int
  Inserted :: int
  Verified :: int

text \<open>The value column of the outputs of a transaction, and the fee column of a block's non-coinbase occurrences.\<close>

definition output_values :: "db \<Rightarrow> string \<Rightarrow> int list" where
  "output_values d txid = map (\<lambda>(_, r). o_value r) (filter (\<lambda>(op, _). fst op = txid) (transaction_outputs d))"

definition occurrence_fees :: "db \<Rightarrow> string \<Rightarrow> int option list" where
  "occurrence_fees d blockHash =
    concat (map (\<lambda>(k, r).
      if fst k \<noteq> blockHash then []
      else case tget (transactions d) (bt_txid r) of
        None \<Rightarrow> []
      | Some t \<Rightarrow> if t_is_coinbase t then [] else [t_fee t]) (block_transactions d))"

definition coinbase_occurrence :: "db \<Rightarrow> string \<Rightarrow> (string \<times> bool) option" where
  "coinbase_occurrence d blockHash =
    (case tget (block_transactions d) (blockHash, 0) of
       None \<Rightarrow> None
     | Some r \<Rightarrow> map_option (\<lambda>t. (bt_txid r, t_is_coinbase t)) (tget (transactions d) (bt_txid r)))"

definition BackfillBlockAccounting :: "store \<Rightarrow> string \<Rightarrow> db \<Rightarrow> backfill_error + bool \<times> db" where
  "BackfillBlockAccounting s blockHash d =
    rbind (of_option ErrBackfillNoBlock (tget (blocks d) blockHash)) (\<lambda>blk.
    rbind (of_option ErrBackfillNoCoinbase (coinbase_occurrence d blockHash)) (\<lambda>(coinbaseTxid, isCoinbase).
    rbind (guard isCoinbase ErrBackfillNoCoinbase) (\<lambda>_.
    let outs = output_values d coinbaseTxid; coinbaseOutputTotal = sum_list outs in
    rbind (guard (in_i64 coinbaseOutputTotal) BackfillDatabase) (\<lambda>_.
    rbind (guard (length outs \<noteq> 0) ErrIncompleteAccountingSource) (\<lambda>_.
    let fees = occurrence_fees d blockHash;
        withFee = concat (map (\<lambda>f. case f of None \<Rightarrow> [] | Some v \<Rightarrow> [v]) fees);
        feeTotal = sum_list withFee in
    rbind (guard (in_i64 feeTotal) BackfillDatabase) (\<lambda>_.
    rbind (guard (length withFee = length fees) ErrIncompleteAccountingSource) (\<lambda>_.
    rbind (map_err ErrBackfillFacts
      (ComputeBlockFacts (accountingSchedule s) blockHash (b_height blk) feeTotal coinbaseOutputTotal)) (\<lambda>facts.
    rbind (map_err BackfillStore
      (insertOrVerifyIdempotent (acc_checks (acc_row_of facts)) (tget (blocks d) (BlockHash facts) \<noteq> None)
        (BlockHash facts) (acc_row_of facts) (\<lambda>old. old = acc_row_of facts) (block_accounting d))) (\<lambda>(fresh, t).
    Inr (fresh, d\<lparr>block_accounting := t\<rparr>))))))))))"

text \<open>
  Every block commits on its own: a failure keeps the rows and the counts of the blocks before it.
\<close>

primrec backfill_loop ::
  "store \<Rightarrow> string list \<Rightarrow> accounting_result \<Rightarrow> db \<Rightarrow> (backfill_error + unit) \<times> accounting_result \<times> db" where
  "backfill_loop s [] result d = (Inr (), result, d)"
| "backfill_loop s (h # hs) result d =
    (case BackfillBlockAccounting s h d of
       Inl e \<Rightarrow> (Inl e, result, d)
     | Inr (fresh, d') \<Rightarrow>
         let r = result\<lparr>TotalBlocks := TotalBlocks result + 1\<rparr> in
         backfill_loop s hs
           (if fresh then r\<lparr>Inserted := Inserted r + 1\<rparr> else r\<lparr>Verified := Verified r + 1\<rparr>) d')"

text \<open>\<open>ORDER BY height, hash\<close>.\<close>

definition blocks_in_order :: "db \<Rightarrow> string list" where
  "blocks_in_order d = map fst (sort_key (\<lambda>(_, r). b_height r) (sort_key fst (blocks d)))"

definition BackfillAccounting ::
  "store \<Rightarrow> (string \<Rightarrow> int) \<Rightarrow> session \<Rightarrow> db \<Rightarrow> (backfill_error + unit) \<times> accounting_result \<times> db" where
  "BackfillAccounting s hashtext sn d =
    (let zero = \<lparr>TotalBlocks = 0, Inserted = 0, Verified = 0\<rparr> in
     case try_advisory_lock backfillAccountingAdvisoryLockNamespace ErrBackfillAlreadyRunning hashtext sn of
       Inl e \<Rightarrow> (Inl e, zero, d)
     | Inr _ \<Rightarrow> backfill_loop s (blocks_in_order d) zero d)"

section \<open>distribution\_backfill.go\<close>

text \<open>
  The eight rows that migration 0007 seeds. Its trigger keeps their bounds and refuses to delete
  them, so they are constants of the rebuild.
\<close>

definition bucket_seed :: "(string \<times> int \<times> int option) list" where
  "bucket_seed =
    [(''lt_1'', 1, Some 99999999),
     (''1_10'', 100000000, Some 999999999),
     (''10_100'', 1000000000, Some 9999999999),
     (''100_1k'', 10000000000, Some 99999999999),
     (''1k_10k'', 100000000000, Some 999999999999),
     (''10k_100k'', 1000000000000, Some 9999999999999),
     (''100k_1m'', 10000000000000, Some 99999999999999),
     (''gte_1m'', 100000000000000, None)]"

text \<open>A count and a sum over the balances that satisfy a condition, scanned into two \<open>int64\<close>.\<close>

definition balance_aggregate :: "(int \<Rightarrow> bool) \<Rightarrow> db \<Rightarrow> backfill_error + int \<times> int" where
  "balance_aggregate P d =
    (let bs = filter P (map (\<lambda>(_, r). a_balance r) (addresses d)) in
     rbind (guard (in_i64 (int (length bs)) \<and> in_i64 (sum_list bs)) BackfillDatabase) (\<lambda>_.
     Inr (int (length bs), sum_list bs)))"

definition rebuild_buckets :: "db \<Rightarrow> backfill_error + (string \<times> int \<times> int) list" where
  "rebuild_buckets d =
    map_res (\<lambda>(bucketID, lo, hi).
      rbind (balance_aggregate
        (\<lambda>b. lo \<le> b \<and> (case hi of None \<Rightarrow> True | Some m \<Rightarrow> b \<le> m) \<and> 0 < b) d) (\<lambda>v.
      Inr (bucketID, v))) bucket_seed"

text \<open>\<open>distributionCrossCheckSQL\<close>: the literal ranges, then all positive balances.\<close>

definition cross_check_ranges :: "(int \<Rightarrow> bool) list" where
  "cross_check_ranges =
    [\<lambda>b. 1 \<le> b \<and> b \<le> 99999999,
     \<lambda>b. 100000000 \<le> b \<and> b \<le> 999999999,
     \<lambda>b. 1000000000 \<le> b \<and> b \<le> 9999999999,
     \<lambda>b. 10000000000 \<le> b \<and> b \<le> 99999999999,
     \<lambda>b. 100000000000 \<le> b \<and> b \<le> 999999999999,
     \<lambda>b. 1000000000000 \<le> b \<and> b \<le> 9999999999999,
     \<lambda>b. 10000000000000 \<le> b \<and> b \<le> 99999999999999,
     \<lambda>b. 100000000000000 \<le> b]"

definition cross_check :: "db \<Rightarrow> backfill_error + (int \<times> int) list \<times> (int \<times> int)" where
  "cross_check d =
    rbind (map_res (\<lambda>P. balance_aggregate P d) cross_check_ranges) (\<lambda>per_bucket.
    rbind (balance_aggregate (\<lambda>b. 0 < b) d) (\<lambda>global.
    Inr (per_bucket, global)))"

text \<open>The loop over \<open>bucketOrder\<close>; a bucket absent from the Go map reads as two zeros.\<close>

definition compare_bucket ::
  "(string \<times> int \<times> int) list \<Rightarrow> string \<times> int \<times> int \<Rightarrow> int \<times> int \<Rightarrow> backfill_error + int \<times> int" where
  "compare_bucket rebuilt = (\<lambda>(bucketID, wantCount, wantBalance) (totalCount, totalBalance).
    let got = (case map_of rebuilt bucketID of None \<Rightarrow> (0, 0) | Some v \<Rightarrow> v) in
    rbind (guard (got = (wantCount, wantBalance)) ErrDistributionCrossCheckFailed) (\<lambda>_.
    Inr (add64 totalCount wantCount, add64 totalBalance wantBalance)))"

definition publish_bucket :: "(string \<times> int \<times> int) list \<Rightarrow> string \<Rightarrow> db \<Rightarrow> backfill_error + db" where
  "publish_bucket rebuilt bucketID d =
    (let v = (case map_of rebuilt bucketID of None \<Rightarrow> (0, 0) | Some v \<Rightarrow> v) in
     rbind (guard (tget (distribution d) bucketID \<noteq> None \<longrightarrow> 0 \<le> fst v \<and> 0 \<le> snd v) BackfillDatabase) (\<lambda>_.
     Inr (d\<lparr>distribution := tupdate (\<lambda>k _. k = bucketID) (\<lambda>_. v) (distribution d)\<rparr>)))"

text \<open>
  \<open>setDistributionAnchor\<close> with the nullable hash: the trigger lets the hash become null only
  while the height still is -1.
\<close>

definition set_anchor :: "string option \<Rightarrow> db \<Rightarrow> store_error + db" where
  "set_anchor hash d =
    (case hash of
       Some h \<Rightarrow> setDistributionAnchor h d
     | None \<Rightarrow> if fst (distribution_state d) = - 1 then Inr (d\<lparr>distribution_state := (- 1, None)\<rparr>)
              else Inl ErrDatabase)"

record distribution_result =
  TotalPositiveAddresses :: int
  TotalBalanceSatoshis :: int
  AnchorHeight :: int
  AnchorHash :: string

definition BackfillAddressDistribution ::
  "(string \<Rightarrow> int) \<Rightarrow> session \<Rightarrow> db \<Rightarrow> backfill_error + distribution_result \<times> db" where
  "BackfillAddressDistribution hashtext sn d =
    rbind (try_advisory_lock backfillDistributionAdvisoryLockNamespace
      ErrDistributionBackfillAlreadyRunning hashtext sn) (\<lambda>_.
    let (syncHeight, syncHash) = sync_state d in
    rbind (rebuild_buckets d) (\<lambda>rebuilt.
    rbind (cross_check d) (\<lambda>(per_bucket, global).
    rbind (fold_res (compare_bucket rebuilt) (zip DistributionBucketIDs per_bucket) (0, 0)) (\<lambda>totals.
    rbind (guard (global = totals) ErrDistributionCrossCheckFailed) (\<lambda>_.
    rbind (balance_aggregate (\<lambda>b. 0 < b) d) (\<lambda>direct.
    rbind (guard (direct = totals) ErrDistributionCrossCheckFailed) (\<lambda>_.
    rbind (fold_res (publish_bucket rebuilt) DistributionBucketIDs d) (\<lambda>d1.
    rbind (map_err BackfillStore (set_anchor syncHash d1)) (\<lambda>d2.
    Inr (\<lparr>TotalPositiveAddresses = fst totals, TotalBalanceSatoshis = snd totals,
          AnchorHeight = syncHeight,
          AnchorHash = (case syncHash of None \<Rightarrow> [] | Some h \<Rightarrow> h)\<rparr>, d2))))))))))"

section \<open>supply\_rollup\_backfill.go\<close>

definition canonical_rows :: "db \<Rightarrow> (string \<times> block_row) list" where
  "canonical_rows d = filter (\<lambda>(_, r). b_canonical r) (blocks d)"

record ancestryBreach =
  childHash :: string
  childHeight :: int
  observedPrevHash :: "string option"
  expectedPrevHash :: "string option"

text \<open>\<open>lag(hash) OVER (ORDER BY height)\<close> is the hash of the row before, null for the first.\<close>

definition findCanonicalAncestryBreach :: "db \<Rightarrow> ancestryBreach option" where
  "findCanonicalAncestryBreach d =
    (let chain = sort_key (\<lambda>(_, r). b_height r) (canonical_rows d);
         lagged = None # map (\<lambda>(h, _). Some h) chain in
     map_option
       (\<lambda>((h, r), expected). \<lparr>childHash = h, childHeight = b_height r,
          observedPrevHash = b_prev r, expectedPrevHash = expected\<rparr>)
       (List.find
         (\<lambda>((_, r), expected). b_height r = 0 \<and> b_prev r \<noteq> None
            \<or> 0 < b_height r \<and> b_prev r \<noteq> expected)
         (zip chain lagged)))"

text \<open>
  \<open>supplyRollupStagingSQL\<close>. The excluded output value of a block is summed over its own
  occurrences; the predicate is the byte test of the statement.
\<close>

definition sql_excluded :: "int \<Rightarrow> bytes \<Rightarrow> bool" where
  "sql_excluded height script \<longleftrightarrow> height = 0 \<or> 10000 < length script
    \<or> 0 < length script \<and> unat (script ! 0) = 106"

definition excluded_in_block :: "db \<Rightarrow> string \<Rightarrow> int \<Rightarrow> int" where
  "excluded_in_block d blockHash height =
    sum_list (concat (map (\<lambda>(k, bt). if fst k \<noteq> blockHash then []
      else map (\<lambda>(op, o'). if sql_excluded height (o_script o') then o_value o' else 0)
        (filter (\<lambda>(op, _). fst op = bt_txid bt) (transaction_outputs d))) (block_transactions d)))"

record joined_row =
  j_hash :: string
  j_height :: int
  j_acc :: acc_row
  j_excluded :: int

definition joined :: "db \<Rightarrow> joined_row list" where
  "joined d = concat (map (\<lambda>(h, r). case tget (block_accounting d) h of
      None \<Rightarrow> []
    | Some a \<Rightarrow> [\<lparr>j_hash = h, j_height = b_height r, j_acc = a,
                 j_excluded = excluded_in_block d h (b_height r)\<rparr>]) (canonical_rows d))"

text \<open>\<open>SUM(..) OVER (ORDER BY height)\<close> adds up the rows of no greater height.\<close>

definition window_sum :: "joined_row list \<Rightarrow> (joined_row \<Rightarrow> int) \<Rightarrow> joined_row \<Rightarrow> int" where
  "window_sum rows f x = sum_list (map f (filter (\<lambda>y. j_height y \<le> j_height x) rows))"

definition staged :: "joined_row list \<Rightarrow> joined_row \<Rightarrow> rollup_row" where
  "staged rows x =
    (let w = (\<lambda>f. window_sum rows f x) in
     \<lparr>r_excluded = j_excluded x, r_cum_subsidy = w (c_subsidy \<circ> j_acc), r_cum_fee = w (c_fee \<circ> j_acc),
      r_cum_coinbase = w (c_coinbase \<circ> j_acc), r_cum_unclaimed = w (c_unclaimed \<circ> j_acc),
      r_cum_excluded = w j_excluded,
      r_cum_utxo = w (c_coinbase \<circ> j_acc) - w (c_fee \<circ> j_acc) - w j_excluded\<rparr>)"

definition supplyRollupStaging :: "db \<Rightarrow> (string \<times> int \<times> rollup_row) list" where
  "supplyRollupStaging d =
    (let rows = joined d in map (\<lambda>x. (j_hash x, j_height x, staged rows x)) rows)"

definition supplyRollupContradictions :: "(string \<times> int \<times> rollup_row) list \<Rightarrow> db \<Rightarrow> int" where
  "supplyRollupContradictions staging d =
    int (length (filter (\<lambda>(h, _, r). case tget (block_supply_rollup d) h of
      None \<Rightarrow> False | Some old \<Rightarrow> old \<noteq> r) staging))"

definition rollup_fits :: "rollup_row \<Rightarrow> bool" where
  "rollup_fits r \<longleftrightarrow> in_i64 (r_excluded r) \<and> in_i64 (r_cum_subsidy r) \<and> in_i64 (r_cum_fee r)
    \<and> in_i64 (r_cum_coinbase r) \<and> in_i64 (r_cum_unclaimed r) \<and> in_i64 (r_cum_excluded r)
    \<and> in_i64 (r_cum_utxo r)"

text \<open>The insert skips the blocks that have a row; the result counts the rows it wrote.\<close>

definition insert_staged ::
  "string \<times> int \<times> rollup_row \<Rightarrow> int \<times> db \<Rightarrow> backfill_error + int \<times> db" where
  "insert_staged = (\<lambda>(h, _, r) (n, d).
    rbind (guard (rollup_fits r) BackfillDatabase) (\<lambda>_.
    rbind (map_err BackfillStore (insertOrVerifyIdempotent (rollup_checks r) (tget (blocks d) h \<noteq> None)
      h r (\<lambda>_. True) (block_supply_rollup d))) (\<lambda>(fresh, t).
    Inr (if fresh then n + 1 else n, d\<lparr>block_supply_rollup := t\<rparr>))))"

definition staging_tip :: "(string \<times> int \<times> rollup_row) list \<Rightarrow> (string \<times> int \<times> rollup_row) option" where
  "staging_tip rows = List.find (\<lambda>(_, h, _). list_all (\<lambda>(_, h', _). h' \<le> h) rows) rows"

definition direct_utxo :: "db \<Rightarrow> int" where
  "direct_utxo d = sum_list (concat (map (\<lambda>(op, u). if u_spend u \<noteq> None then []
     else case tget (transaction_outputs d) op of None \<Rightarrow> [] | Some o' \<Rightarrow> [o_value o']) (utxo_state d)))"

text \<open>The independent aggregate over the accounting rows of canonical blocks.\<close>

definition direct_accounting :: "(acc_row \<Rightarrow> int) \<Rightarrow> db \<Rightarrow> int" where
  "direct_accounting f d = sum_list (concat (map (\<lambda>(h, a). case tget (blocks d) h of
      None \<Rightarrow> [] | Some b \<Rightarrow> if b_canonical b then [f a] else []) (block_accounting d)))"

record rollup_result =
  CanonicalBlocks :: int
  RollupInserted :: int
  RollupVerified :: int
  TipHash :: string
  TipHeight :: int

definition check_shape :: "int \<Rightarrow> db \<Rightarrow> backfill_error + unit" where
  "check_shape indexedHeight d =
    (let heights = map (\<lambda>(_, r). b_height r) (canonical_rows d) in
     rbind (guard (int (length heights) = add64 indexedHeight 1) ErrSupplyRollupCanonicalShapeInvalid) (\<lambda>_.
     rbind (guard (min_option heights = Some 0) ErrSupplyRollupCanonicalShapeInvalid) (\<lambda>_.
     guard (max_option heights = Some indexedHeight) ErrSupplyRollupCanonicalShapeInvalid)))"

definition missing_accounting :: "db \<Rightarrow> int" where
  "missing_accounting d =
    int (length (filter (\<lambda>(h, _). tget (block_accounting d) h = None) (canonical_rows d)))"

definition cross_check_tip :: "rollup_row \<Rightarrow> db \<Rightarrow> backfill_error + unit" where
  "cross_check_tip r d =
    rbind (guard (in_i64 (direct_utxo d)) BackfillDatabase) (\<lambda>_.
    rbind (guard (direct_utxo d = r_cum_utxo r) ErrSupplyRollupCrossCheckFailed) (\<lambda>_.
    let sums = (direct_accounting c_subsidy d, direct_accounting c_fee d,
                direct_accounting c_coinbase d, direct_accounting c_unclaimed d) in
    rbind (guard (case sums of (s, f, c, u) \<Rightarrow> in_i64 s \<and> in_i64 f \<and> in_i64 c \<and> in_i64 u) BackfillDatabase) (\<lambda>_.
    guard (sums = (r_cum_subsidy r, r_cum_fee r, r_cum_coinbase r, r_cum_unclaimed r))
      ErrSupplyRollupCrossCheckFailed)))"

definition BackfillSupplyRollup ::
  "(string \<Rightarrow> int) \<Rightarrow> session \<Rightarrow> db \<Rightarrow> backfill_error + rollup_result \<times> db" where
  "BackfillSupplyRollup hashtext sn d =
    rbind (try_advisory_lock backfillSupplyRollupAdvisoryLockNamespace
      ErrSupplyRollupBackfillAlreadyRunning hashtext sn) (\<lambda>_.
    let indexedHeight = fst (sync_state d) in
    if indexedHeight = - 1 then
      Inr (\<lparr>CanonicalBlocks = 0, RollupInserted = 0, RollupVerified = 0, TipHash = [], TipHeight = 0\<rparr>, d)
    else
      rbind (check_shape indexedHeight d) (\<lambda>_.
      rbind (guard (findCanonicalAncestryBreach d = None) ErrSupplyRollupCanonicalAncestryInvalid) (\<lambda>_.
      rbind (guard (missing_accounting d = 0) ErrSupplyRollupSourceIncomplete) (\<lambda>_.
      let staging = supplyRollupStaging d in
      rbind (guard (supplyRollupContradictions staging d = 0) (BackfillStore ErrImmutableConflict)) (\<lambda>_.
      rbind (fold_res insert_staged staging (0, d)) (\<lambda>(inserted, d1).
      rbind (of_option BackfillDatabase (staging_tip staging)) (\<lambda>(tipHash, tipHeight, tip).
      rbind (guard (rollup_fits tip) BackfillDatabase) (\<lambda>_.
      rbind (cross_check_tip tip d1) (\<lambda>_.
      let canonicalCount = int (length (canonical_rows d)) in
      Inr (\<lparr>CanonicalBlocks = canonicalCount, RollupInserted = inserted,
            RollupVerified = canonicalCount - inserted, TipHash = tipHash, TipHeight = tipHeight\<rparr>,
           d1))))))))))"

section \<open>The preflights\<close>

text \<open>
  Whether the migration that adds the derived table has run is an argument: before it, the table
  does not exist and the check passes.
\<close>

definition VerifyDistributionCoverage :: "bool \<Rightarrow> db \<Rightarrow> backfill_error + unit" where
  "VerifyDistributionCoverage tableExists d =
    (let (syncHeight, syncHash) = sync_state d in
     if syncHeight = - 1 then Inr ()
     else if \<not> tableExists then Inr ()
     else let (distHeight, distHash) = distribution_state d in
       guard (distHeight = syncHeight \<and> distHash = syncHash) ErrDistributionCoverageMissing)"

text \<open>\<open>None\<close> is the nil dereference of \<open>*indexedHash\<close>.\<close>

definition VerifySupplyRollupCoverage :: "bool \<Rightarrow> db \<Rightarrow> (backfill_error + unit) option" where
  "VerifySupplyRollupCoverage tableExists d =
    (let (indexedHeight, indexedHash) = sync_state d in
     if indexedHeight = - 1 then Some (Inr ())
     else if \<not> tableExists then Some (Inr ())
     else map_option (\<lambda>h. guard (tget (block_supply_rollup d) h \<noteq> None) ErrSupplyRollupCoverageMissing)
       indexedHash)"

definition VerifyNetworkIdentity :: "string \<Rightarrow> db \<Rightarrow> backfill_error + unit" where
  "VerifyNetworkIdentity network d =
    rbind (map_err ErrGenesisOf (ExpectedGenesisHash network)) (\<lambda>expected.
    case CanonicalBlockHash d 0 of
      None \<Rightarrow> Inl ErrGenesisMissing
    | Some observed \<Rightarrow> guard (observed = expected) ErrGenesisMismatch)"

end
