(* ===== verification/BackfillDistribution.thy ===== *)
theory BackfillDistribution
  imports StoreDistribution StoreChain Backfill
begin

text \<open>
  \<open>BackfillAddressDistribution\<close> computes the rows that the live deltas maintain: its rebuild, its
  two cross-checks and the live table all are totals over the same eight buckets.
\<close>

section \<open>Aggregates over the address table\<close>

definition balances :: "db \<Rightarrow> int list" where
  "balances d = map (\<lambda>(_, r). a_balance r) (addresses d)"

definition positive_total :: "(int \<Rightarrow> int) \<Rightarrow> db \<Rightarrow> int" where
  "positive_total g d = tsum (\<lambda>_ r. if 0 < a_balance r then g (a_balance r) else 0) (addresses d)"

lemma aggregate_tsum:
  "sum_list (map g (filter P (balances d))) = tsum (\<lambda>_ r. if P (a_balance r) then g (a_balance r) else 0) (addresses d)"
proof -
  have "sum_list (map g (filter P (map (\<lambda>(_, r). a_balance r) t)))
    = tsum (\<lambda>_ r. if P (a_balance r) then g (a_balance r) else 0) t" for t :: "(string, addr_row) table"
    by (induction t) (auto simp: tsum_def)
  then show ?thesis unfolding balances_def .
qed

lemma aggregate_length: "int (length xs) = sum_list (map (\<lambda>_. 1) xs)"
  by (induction xs) simp_all

lemma positive_sublist:
  fixes xs :: "int list"
  assumes "\<And>v. P v \<Longrightarrow> 0 < v"
  shows "0 \<le> int (length (filter P xs))" "int (length (filter P xs)) \<le> sum_list (filter P xs)"
    "sum_list (filter P xs) \<le> sum_list (filter (\<lambda>v. 0 < v) xs)"
proof -
  have "int (length (filter P xs)) \<le> sum_list (filter P xs)
    \<and> sum_list (filter P xs) \<le> sum_list (filter (\<lambda>v. 0 < v) xs)"
  proof (induction xs)
    case (Cons x xs)
    then show ?case using assms [of x] by (cases "P x"; cases "0 < x") simp_all
  qed simp
  then show "0 \<le> int (length (filter P xs))" "int (length (filter P xs)) \<le> sum_list (filter P xs)"
    "sum_list (filter P xs) \<le> sum_list (filter (\<lambda>v. 0 < v) xs)" by simp_all
qed

lemma balance_aggregate_fits:
  assumes "in_i64 (positive_total (\<lambda>v. v) d)" "\<And>v. P v \<Longrightarrow> 0 < v"
  shows "balance_aggregate P d = Inr (int (length (filter P (balances d))), sum_list (filter P (balances d)))"
proof -
  have "sum_list (filter (\<lambda>v. 0 < v) (balances d)) = positive_total (\<lambda>v. v) d"
    using aggregate_tsum [of "\<lambda>v. v" "\<lambda>v. 0 < v" d] by (simp add: positive_total_def)
  then have "in_i64 (int (length (filter P (balances d))))" "in_i64 (sum_list (filter P (balances d)))"
    using positive_sublist [where P = P and xs = "balances d"] assms
    unfolding i64_defs by force+
  then show ?thesis by (simp add: balance_aggregate_def Let_def balances_def)
qed

lemma balance_aggregate_cong: "addresses e = addresses d \<Longrightarrow> balance_aggregate P e = balance_aggregate P d"
  by (simp add: balance_aggregate_def)

section \<open>Three ways to say the eight buckets\<close>

definition bucket_pred :: "string \<Rightarrow> int \<Rightarrow> bool" where
  "bucket_pred b v \<longleftrightarrow> bucketForBalance v = Some b"

lemmas bucket_tables = bucketForBalance_def distributionBuckets_def DistributionBucketIDs_def
  boundedBucket_def bucket_pred_def

lemma bucket_pred_positive: "bucket_pred b v \<Longrightarrow> 0 < v"
  by (simp add: bucket_pred_def bucketForBalance_ids)

lemma bucket_pred_iff:
  "bucket_pred b v \<longleftrightarrow> (\<exists>k \<in> set distributionBuckets. bk_id k = b \<and> bk_min k \<le> v
    \<and> (case bk_max k of None \<Rightarrow> True | Some m \<Rightarrow> v \<le> m))"
  by (auto simp: bucket_tables)

lemma seed_buckets: "bucket_seed = map (\<lambda>k. (bk_id k, bk_min k, bk_max k)) distributionBuckets"
  by (simp add: bucket_seed_def distributionBuckets_def boundedBucket_def)

lemma seed_ids: "map fst bucket_seed = DistributionBucketIDs"
  by (simp add: seed_buckets DistributionBucketIDs_def)

lemma seed_is_bucket:
  assumes "(b, lo, hi) \<in> set bucket_seed"
  shows "lo \<le> v \<and> (case hi of None \<Rightarrow> True | Some m \<Rightarrow> v \<le> m) \<longleftrightarrow> bucket_pred b v"
proof -
  obtain k where k: "k \<in> set distributionBuckets" "bk_id k = b" "bk_min k = lo" "bk_max k = hi"
    using assms by (auto simp: seed_buckets)
  have inj: "inj_on bk_id (set distributionBuckets)"
    using bucket_ids_distinct by (simp add: DistributionBucketIDs_def distinct_map)
  have "j = k" if "j \<in> set distributionBuckets" "bk_id j = b" for j
    using inj_onD [OF inj _ that(1) k(1)] that(2) k(2) by simp
  then have "bucket_pred b v \<longleftrightarrow> bk_min k \<le> v \<and> (case bk_max k of None \<Rightarrow> True | Some m \<Rightarrow> v \<le> m)"
    unfolding bucket_pred_iff using k(1,2) by blast
  then show ?thesis by (simp only: k(3,4))
qed

lemma ranges_are_seed:
  "cross_check_ranges = map (\<lambda>(_, lo, hi) v. lo \<le> v \<and> (case hi of None \<Rightarrow> True | Some m \<Rightarrow> v \<le> m)) bucket_seed"
  by (simp add: cross_check_ranges_def bucket_seed_def)

lemma ranges_are_buckets: "cross_check_ranges = map bucket_pred DistributionBucketIDs"
  unfolding ranges_are_seed seed_ids [symmetric] map_map
proof (rule map_cong [OF refl], clarify, rule ext)
  fix b lo hi v assume "(b, lo, hi) \<in> set bucket_seed"
  then show "(lo \<le> v \<and> (case hi of None \<Rightarrow> True | Some m \<Rightarrow> v \<le> m)) = (bucket_pred \<circ> fst) (b, lo, hi) v"
    unfolding comp_apply fst_conv by (rule seed_is_bucket)
qed

lemma seed_where:
  assumes "(b, lo, hi) \<in> set bucket_seed"
  shows "(\<lambda>v. lo \<le> v \<and> (case hi of None \<Rightarrow> True | Some m \<Rightarrow> v \<le> m) \<and> 0 < v) = bucket_pred b"
  using seed_is_bucket [OF assms] bucket_pred_positive by (auto simp: fun_eq_iff)

text \<open>What the table must hold.\<close>

definition bucket_row :: "db \<Rightarrow> string \<Rightarrow> int \<times> int" where
  "bucket_row d b = (bucket_total (\<lambda>_. 1) b d, bucket_total (\<lambda>v. v) b d)"

lemma bucket_aggregate:
  assumes "in_i64 (positive_total (\<lambda>v. v) d)"
  shows "balance_aggregate (bucket_pred b) d = Inr (bucket_row d b)"
proof -
  have "sum_list (map g (filter (bucket_pred b) (balances d))) = bucket_total g b d" for g
    unfolding aggregate_tsum bucket_total_def in_bucket_def bucket_pred_def ..
  from this [of "\<lambda>_. 1"] this [of "\<lambda>v. v"] show ?thesis
    using balance_aggregate_fits [where P = "bucket_pred b", OF assms bucket_pred_positive]
    by (simp add: bucket_row_def aggregate_length)
qed

lemma rebuild_rows:
  assumes "in_i64 (positive_total (\<lambda>v. v) d)"
  shows "rebuild_buckets d = Inr (map (\<lambda>b. (b, bucket_row d b)) DistributionBucketIDs)"
proof -
  have "rebuild_buckets d = Inr (map (\<lambda>x. (fst x, bucket_row d (fst x))) bucket_seed)"
    unfolding rebuild_buckets_def
    by (rule map_res_Inr) (auto simp: seed_where bucket_aggregate [OF assms])
  also have "map (\<lambda>x. (fst x, bucket_row d (fst x))) bucket_seed
    = map (\<lambda>b. (b, bucket_row d b)) (map fst bucket_seed)" by simp
  finally show ?thesis by (simp only: seed_ids)
qed

lemma cross_check_rows:
  assumes "in_i64 (positive_total (\<lambda>v. v) d)"
  shows "cross_check d = Inr (map (bucket_row d) DistributionBucketIDs,
    positive_total (\<lambda>_. 1) d, positive_total (\<lambda>v. v) d)"
proof -
  have "map_res (\<lambda>P. balance_aggregate P d) cross_check_ranges = Inr (map (bucket_row d) DistributionBucketIDs)"
    unfolding ranges_are_buckets map_res_map
    by (rule map_res_Inr) (simp add: bucket_aggregate [OF assms])
  moreover have "balance_aggregate (\<lambda>v. 0 < v) d = Inr (positive_total (\<lambda>_. 1) d, positive_total (\<lambda>v. v) d)"
    using balance_aggregate_fits [OF assms, of "\<lambda>v. 0 < v"] aggregate_tsum [of "\<lambda>_. 1" "\<lambda>v. 0 < v" d]
      aggregate_tsum [of "\<lambda>v. v" "\<lambda>v. 0 < v" d]
    by (simp add: positive_total_def aggregate_length)
  ultimately show ?thesis by (simp add: cross_check_def)
qed

section \<open>The buckets add up\<close>

lemma one_bucket:
  fixes x :: int
  assumes "distinct bs" "\<forall>b. bucketForBalance v = Some b \<longrightarrow> b \<in> set bs"
  shows "sum_list (map (\<lambda>b. if bucketForBalance v = Some b then x else 0) bs)
    = (if bucketForBalance v = None then 0 else x)"
proof (cases "bucketForBalance v")
  case (Some c)
  have "sum_list (map (\<lambda>b. if c = b then x else 0) bs) = (\<Sum>b \<in> set bs. if c = b then x else 0)"
    using assms(1) by (simp add: sum_list_distinct_conv_sum_set)
  also have "\<dots> = x" using assms(2) Some by (simp add: sum.delta)
  finally show ?thesis using Some by simp
qed simp

lemma bucket_none_iff: "bucketForBalance v = None \<longleftrightarrow> \<not> 0 < v"
  by (auto simp: bucket_tables)

lemma bucket_rows_total: "sum_list (map (\<lambda>b. bucket_total g b d) DistributionBucketIDs) = positive_total g d"
proof -
  have "sum_list (map (\<lambda>b. tsum (in_bucket b g) t) bs)
    = tsum (\<lambda>a r. sum_list (map (\<lambda>b. in_bucket b g a r) bs)) t" for bs t
  proof -
    have "tsum f t + tsum h t = tsum (\<lambda>k v. f k v + h k v) t" "tsum (\<lambda>_ _. 0) t = 0" for f h
      by (induction t) (auto simp: tsum_def)
    then show ?thesis by (induction bs) simp_all
  qed
  moreover have "sum_list (map (\<lambda>b. in_bucket b g a r) DistributionBucketIDs)
    = (if 0 < a_balance r then g (a_balance r) else 0)" for a r
    unfolding in_bucket_def
    by (subst one_bucket [OF bucket_ids_distinct]) (auto simp: bucketForBalance_ids bucket_none_iff)
  ultimately show ?thesis by (simp add: bucket_total_def positive_total_def)
qed

lemma compare_all:
  assumes "\<forall>b \<in> set bs. map_of R b = Some (h b)"
  shows "fold_res (compare_bucket R) (zip bs (map h bs)) (c, v)
    = Inr (if bs = [] then (c, v) else (wrap64 (c + sum_list (map (fst \<circ> h) bs)), wrap64 (v + sum_list (map (snd \<circ> h) bs))))"
  using assms
proof (induction bs arbitrary: c v)
  case (Cons b bs)
  obtain x y where h: "h b = (x, y)" by force
  have "compare_bucket R (b, h b) (c, v) = Inr (add64 c x, add64 v y)"
    using Cons.prems by (simp add: compare_bucket_def h)
  with Cons show ?case by (simp add: h add64_def add.assoc)
qed simp

section \<open>Publishing\<close>

lemma tupdate_same: "twf t \<Longrightarrow> tget t k = Some v \<Longrightarrow> tupdate (\<lambda>k' _. k' = k) (\<lambda>_. v) t = t"
  unfolding tupdate_def by (rule map_idI) (auto simp: in_set_tget)

lemma publish_all:
  assumes "\<forall>b \<in> set bs. map_of R b = Some (h b) \<and> 0 \<le> fst (h b) \<and> 0 \<le> snd (h b)" "twf (distribution d)"
  shows "\<exists>t. fold_res (publish_bucket R) bs d = Inr (d\<lparr>distribution := t\<rparr>) \<and> twf t
    \<and> (\<forall>b. tget t b = (if b \<in> set bs then map_option (\<lambda>_. h b) (tget (distribution d) b)
         else tget (distribution d) b))
    \<and> ((\<forall>b \<in> set bs. tget (distribution d) b = Some (h b)) \<longrightarrow> t = distribution d)"
  using assms
proof (induction bs arbitrary: d)
  case Nil
  then show ?case by (intro exI [of _ "distribution d"]) simp
next
  case (Cons b bs)
  let ?t = "tupdate (\<lambda>k _. k = b) (\<lambda>_. h b) (distribution d)"
  have p: "publish_bucket R b d = Inr (d\<lparr>distribution := ?t\<rparr>)"
    using Cons.prems(1) by (simp add: publish_bucket_def Let_def)
  obtain t where t: "fold_res (publish_bucket R) bs (d\<lparr>distribution := ?t\<rparr>) = Inr (d\<lparr>distribution := t\<rparr>)" "twf t"
    "\<And>c. tget t c = (if c \<in> set bs then map_option (\<lambda>_. h c) (tget ?t c) else tget ?t c)"
    "(\<forall>b \<in> set bs. tget ?t b = Some (h b)) \<longrightarrow> t = ?t"
  proof -
    have "twf (distribution (d\<lparr>distribution := ?t\<rparr>))" using Cons.prems(2) by (simp add: twf_simps)
    moreover have "\<forall>b \<in> set bs. map_of R b = Some (h b) \<and> 0 \<le> fst (h b) \<and> 0 \<le> snd (h b)"
      using Cons.prems(1) by simp
    moreover have "distribution (d\<lparr>distribution := ?t\<rparr>) = ?t"
      "d\<lparr>distribution := ?t\<rparr>\<lparr>distribution := u\<rparr> = d\<lparr>distribution := u\<rparr>" for u by simp_all
    ultimately have "\<exists>t. fold_res (publish_bucket R) bs (d\<lparr>distribution := ?t\<rparr>) = Inr (d\<lparr>distribution := t\<rparr>)
      \<and> twf t \<and> (\<forall>b. tget t b = (if b \<in> set bs then map_option (\<lambda>_. h b) (tget ?t b) else tget ?t b))
      \<and> ((\<forall>b \<in> set bs. tget ?t b = Some (h b)) \<longrightarrow> t = ?t)"
      using Cons.IH [of "d\<lparr>distribution := ?t\<rparr>"] by (simp only: simp_thms)
    then show ?thesis using that by blast
  qed
  have "tget t c = (if c \<in> set (b # bs) then map_option (\<lambda>_. h c) (tget (distribution d) c)
      else tget (distribution d) c)" for c
    unfolding t(3) tget_tupdate
    by (cases "c = b"; cases "tget (distribution d) c") simp_all
  moreover have "t = distribution d" if "\<forall>c \<in> set (b # bs). tget (distribution d) c = Some (h c)"
  proof -
    have "?t = distribution d" using that Cons.prems(2) by (intro tupdate_same) simp_all
    then show ?thesis using t(4) that by simp
  qed
  ultimately show ?case using p t(1,2) by auto
qed

section \<open>The command\<close>

definition free_lock :: "int \<Rightarrow> (string \<Rightarrow> int) \<Rightarrow> session \<Rightarrow> bool" where
  "free_lock namespace hashtext sn \<longleftrightarrow> (\<exists>name. sn_current_schema sn = Some name \<and> name \<noteq> []
    \<and> (namespace, hashtext name) \<notin> set (sn_held sn))"

lemma free_lock_try: "free_lock n f sn \<Longrightarrow> try_advisory_lock n e f sn = Inr ()"
  by (auto simp: free_lock_def try_advisory_lock_def schemaScopedLockKey_def)

lemma bucket_row_nonneg: "twf (addresses d) \<Longrightarrow> 0 \<le> fst (bucket_row d b) \<and> 0 \<le> snd (bucket_row d b)"
  using bucketForBalance_ids
  by (auto simp: bucket_row_def bucket_total_def in_bucket_def less_imp_le intro!: tab.total_nonneg)

lemma bucket_row_bounds:
  assumes "twf (addresses d)" "b \<in> set DistributionBucketIDs" "in_i64 (positive_total (\<lambda>v. v) d)"
  shows "in_i64 (fst (bucket_row d b))" "in_i64 (snd (bucket_row d b))"
  using bucket_aggregate [OF assms(3), of b]
  by (auto simp: balance_aggregate_def Let_def result_simps prod_eq_iff)

lemma BackfillAddressDistribution_core:
  assumes ok: "in_i64 (positive_total (\<lambda>v. v) d)" and wa: "twf (addresses d)" and w: "twf (distribution d)"
    and lock: "free_lock backfillDistributionAdvisoryLockNamespace f sn"
    and anchor: "\<And>t. set_anchor (snd (sync_state d)) (d\<lparr>distribution := t\<rparr>)
      = Inr (d\<lparr>distribution := t, distribution_state := sync_state d\<rparr>)"
  shows "\<exists>t. BackfillAddressDistribution f sn d = Inr
      (\<lparr>TotalPositiveAddresses = positive_total (\<lambda>_. 1) d, TotalBalanceSatoshis = positive_total (\<lambda>v. v) d,
        AnchorHeight = fst (sync_state d),
        AnchorHash = (case snd (sync_state d) of None \<Rightarrow> [] | Some h \<Rightarrow> h)\<rparr>,
       d\<lparr>distribution := t, distribution_state := sync_state d\<rparr>)
    \<and> (\<forall>b. tget t b = (if b \<in> set DistributionBucketIDs
         then map_option (\<lambda>_. bucket_row d b) (tget (distribution d) b) else tget (distribution d) b))
    \<and> ((\<forall>b \<in> set DistributionBucketIDs. tget (distribution d) b = Some (bucket_row d b))
         \<longrightarrow> t = distribution d)"
proof -
  let ?R = "map (\<lambda>b. (b, bucket_row d b)) DistributionBucketIDs"
  let ?T = "(positive_total (\<lambda>_. 1) d, positive_total (\<lambda>v. v) d)"
  have R: "map_of ?R b = Some (bucket_row d b)" if "b \<in> set DistributionBucketIDs" for b
    using that by (simp add: map_of_map_restrict)
  have ne: "DistributionBucketIDs \<noteq> []" by (simp add: bucket_tables)
  have glob: "balance_aggregate (\<lambda>b. 0 < b) d = Inr ?T"
    using cross_check_rows [OF ok] by (auto simp: cross_check_def result_simps)
  then have fits: "in_i64 (fst ?T)" "in_i64 (snd ?T)"
    by (auto simp: balance_aggregate_def Let_def result_simps)
  have "fold_res (compare_bucket ?R) (zip DistributionBucketIDs (map (bucket_row d) DistributionBucketIDs)) (0, 0)
    = Inr (wrap64 (fst ?T), wrap64 (snd ?T))"
    using compare_all [of DistributionBucketIDs ?R "bucket_row d" 0 0] R ne
      bucket_rows_total [of "\<lambda>_. 1" d] bucket_rows_total [of "\<lambda>v. v" d]
    by (simp add: bucket_row_def comp_def)
  then have cmp: "fold_res (compare_bucket ?R)
      (zip DistributionBucketIDs (map (bucket_row d) DistributionBucketIDs)) (0, 0) = Inr ?T"
    using fits by (simp add: wrap64_id)
  obtain t where t: "fold_res (publish_bucket ?R) DistributionBucketIDs d = Inr (d\<lparr>distribution := t\<rparr>)"
    "\<And>b. tget t b = (if b \<in> set DistributionBucketIDs then map_option (\<lambda>_. bucket_row d b) (tget (distribution d) b)
         else tget (distribution d) b)"
    "(\<forall>b \<in> set DistributionBucketIDs. tget (distribution d) b = Some (bucket_row d b)) \<longrightarrow> t = distribution d"
    using publish_all [of DistributionBucketIDs ?R "bucket_row d" d] R bucket_row_nonneg [OF wa] w by blast
  show ?thesis
  proof (intro exI [of _ t] conjI)
    show "BackfillAddressDistribution f sn d = Inr
      (\<lparr>TotalPositiveAddresses = positive_total (\<lambda>_. 1) d, TotalBalanceSatoshis = positive_total (\<lambda>v. v) d,
        AnchorHeight = fst (sync_state d),
        AnchorHash = (case snd (sync_state d) of None \<Rightarrow> [] | Some h \<Rightarrow> h)\<rparr>,
       d\<lparr>distribution := t, distribution_state := sync_state d\<rparr>)"
      unfolding BackfillAddressDistribution_def free_lock_try [OF lock] rbind_simps
        rebuild_rows [OF ok] cross_check_rows [OF ok]
      using cmp glob t(1) anchor [of t] by (simp add: split_beta)
  qed (use t(2,3) in blast)+
qed

text \<open>What the totals are in terms of coins.\<close>

lemma positive_total_meaning:
  assumes "addr_exact d"
  shows "positive_total g d = (\<Sum>a | 0 < unspent_value d a. g (unspent_value d a))"
proof -
  have fin: "finite {a. bucketForBalance (unspent_value d a) = Some b}" for b
    by (rule bucket_total_meaning(1) [OF assms])
  let ?B = "\<lambda>b. {a. bucketForBalance (unspent_value d a) = Some b}"
  have "{a. 0 < unspent_value d a} = (\<Union>b \<in> set DistributionBucketIDs. ?B b)"
    using bucket_none_iff bucketForBalance_ids by fastforce
  then have "(\<Sum>a | 0 < unspent_value d a. g (unspent_value d a))
    = (\<Sum>b \<in> set DistributionBucketIDs. \<Sum>a \<in> ?B b. g (unspent_value d a))"
    using fin by (simp only:) (rule sum.UNION_disjoint; auto)
  also have "\<dots> = (\<Sum>b \<in> set DistributionBucketIDs. bucket_total g b d)"
    using bucket_total_meaning(2) [OF assms] by simp
  also have "\<dots> = positive_total g d"
    by (simp add: bucket_rows_total [symmetric] sum_list_distinct_conv_sum_set bucket_ids_distinct)
  finally show ?thesis by simp
qed

text \<open>The anchor of a database whose checkpoint names a canonical block.\<close>

lemma anchor_sync:
  assumes "chain_inv d" "snd (sync_state d) = None \<Longrightarrow> fst (distribution_state e) = - 1"
    and "blocks e = blocks d"
  shows "set_anchor (snd (sync_state d)) e = Inr (e\<lparr>distribution_state := sync_state d\<rparr>)"
proof (cases "snd (sync_state d)")
  case None
  then have "sync_state d = (- 1, None)" using assms(1) by (auto simp: chain_inv_def prod_eq_iff)
  then show ?thesis using assms(2) by (simp add: set_anchor_def)
next
  case (Some tip)
  then obtain base where "chain_path d base (fst (sync_state d)) tip"
    using assms(1) by (auto simp: chain_inv_def)
  then obtain r where "canonical d tip r" "b_height r = fst (sync_state d)" using chain_pathD(4) by blast
  then have "checkpoint_of e tip = Inr (sync_state d)"
    using Some assms(3) by (simp add: checkpoint_of_def canonical_def prod_eq_iff)
  then show ?thesis by (simp add: set_anchor_def Some setDistributionAnchor_def)
qed

text \<open>
  C25 The distribution backfill and the live deltas agree: take a reachable database whose unspent
  total fits \<open>int64\<close>, damage its distribution table and anchor in any way that keeps the eight rows,
  and run the backfill with the lock free. It succeeds, restores every bucket and the anchor to what
  the live indexer had written, reports the number and the total of the positive addresses, and
  changes nothing else; on the undamaged database it changes nothing at all. The start-up check of
  the distribution then passes.
\<close>

theorem BackfillAddressDistribution_restores:
  assumes "map_order_ok s" "d = run s ops init_db"
    and "in_i64 (\<Sum>a | 0 < unspent_value d a. unspent_value d a)"
    and "free_lock backfillDistributionAdvisoryLockNamespace f sn"
    and "twf t" "set DistributionBucketIDs \<subseteq> dom (tget t)"
    and "snd (sync_state d) = None \<longrightarrow> fst cp = - 1"
  shows "\<exists>t'. BackfillAddressDistribution f sn (d\<lparr>distribution := t, distribution_state := cp\<rparr>) = Inr
      (\<lparr>TotalPositiveAddresses = int (card {a. 0 < unspent_value d a}),
        TotalBalanceSatoshis = (\<Sum>a | 0 < unspent_value d a. unspent_value d a),
        AnchorHeight = fst (Tip d), AnchorHash = (case snd (Tip d) of None \<Rightarrow> [] | Some h \<Rightarrow> h)\<rparr>,
       d\<lparr>distribution := t'\<rparr>)
    \<and> (\<forall>b \<in> set DistributionBucketIDs. tget t' b = tget (distribution d) b)
    \<and> (t = distribution d \<longrightarrow> t' = t)
    \<and> VerifyDistributionCoverage True (d\<lparr>distribution := t'\<rparr>) = Inr ()"
proof -
  have inv: "addr_exact d" "dist_exact d"
    using dist.reachable [of s ops] assms(1,2) by (simp_all add: all_ok_const)
  have anc: "anchored d" using chain.reachable [of s ops] assms(2) by (simp add: all_ok_const)
  have wa: "twf (addresses d)" using inv(1) by (simp add: addr_exact_def refs_ok_twf)
  have ok: "in_i64 (positive_total (\<lambda>v. v) d)"
    using assms(3) positive_total_meaning [OF inv(1)] by simp
  have live: "tget (distribution d) b = Some (bucket_row d b)" if "b \<in> set DistributionBucketIDs" for b
    using inv(2) that bucket_row_bounds [OF wa that ok]
    by (simp add: dist_exact_def bucket_row_def wrap64_id)
  let ?d = "d\<lparr>distribution := t, distribution_state := cp\<rparr>"
  have same: "positive_total g ?d = positive_total g d" "bucket_row ?d b = bucket_row d b" for g b
    by (simp_all add: positive_total_def bucket_row_def bucket_total_def)
  have anchor: "set_anchor (snd (sync_state ?d)) (?d\<lparr>distribution := u\<rparr>)
    = Inr (?d\<lparr>distribution := u, distribution_state := sync_state ?d\<rparr>)" for u
    using anchor_sync [of d "?d\<lparr>distribution := u\<rparr>"] anc assms(7) by (simp add: anchored_def)
  obtain t' where t': "BackfillAddressDistribution f sn ?d = Inr
      (\<lparr>TotalPositiveAddresses = positive_total (\<lambda>_. 1) d, TotalBalanceSatoshis = positive_total (\<lambda>v. v) d,
        AnchorHeight = fst (sync_state d),
        AnchorHash = (case snd (sync_state d) of None \<Rightarrow> [] | Some h \<Rightarrow> h)\<rparr>,
       ?d\<lparr>distribution := t', distribution_state := sync_state d\<rparr>)"
    "\<And>b. tget t' b = (if b \<in> set DistributionBucketIDs
         then map_option (\<lambda>_. bucket_row d b) (tget t b) else tget t b)"
    "(\<forall>b \<in> set DistributionBucketIDs. tget t b = Some (bucket_row d b)) \<longrightarrow> t' = t"
  proof -
    have "in_i64 (positive_total (\<lambda>v. v) ?d)" "twf (addresses ?d)" "twf (distribution ?d)"
      using ok wa assms(5) by (simp_all add: same)
    note core = BackfillAddressDistribution_core [OF this assms(4) anchor]
    have "distribution ?d = t" "sync_state ?d = sync_state d" by simp_all
    with core that show ?thesis unfolding same by (simp only: simp_thms) blast
  qed
  have "?d\<lparr>distribution := t', distribution_state := sync_state d\<rparr> = d\<lparr>distribution := t'\<rparr>"
    using anc by (simp add: anchored_def)
  moreover have "tget t' b = tget (distribution d) b" if "b \<in> set DistributionBucketIDs" for b
    using that assms(6) live [OF that] t'(2) [of b] by (auto simp: dom_def)
  moreover have "VerifyDistributionCoverage True (d\<lparr>distribution := t'\<rparr>) = Inr ()"
    using anc by (simp add: VerifyDistributionCoverage_def anchored_def split_beta)
  ultimately show ?thesis
    using t'(1,3) live positive_total_meaning [OF inv(1)] by (auto simp: Tip_def)
qed

end
