(* ===== verification/StoreOccurrences.thy ===== *)
theory StoreOccurrences
  imports StoreRollup
begin

text \<open>
  What a block leaves in the source tables, position by position: the rows of
  \<open>block_transactions\<close> of one block and the rows of \<open>transaction_outputs\<close> of one transaction are
  the block's transactions and the transaction's outputs in their order, and no later operation
  adds one.
\<close>

section \<open>The rows of one owner\<close>

definition rows_of :: "('h \<times> nat, 'v) table \<Rightarrow> 'h \<Rightarrow> (nat \<times> 'v) list" where
  "rows_of t h = map (\<lambda>(k, v). (snd k, v)) (filter (\<lambda>(k, _). fst k = h) t)"

definition positional :: "('h \<times> nat, 'v) table \<Rightarrow> 'h \<Rightarrow> bool" where
  "positional t h \<longleftrightarrow> map fst (rows_of t h) = [0..<length (rows_of t h)]"

lemma tget_rows_of: "tget t (h, i) = map_of (rows_of t h) i"
  by (induction t) (auto simp: tget_def rows_of_def)

lemma rows_of_tinsert: "rows_of (tinsert (h, i) v t) h' = (if h' = h then rows_of t h @ [(i, v)] else rows_of t h')"
  by (simp add: rows_of_def tinsert_def)

lemma rows_of_length: "int (length (rows_of t h)) = tcount (\<lambda>k _. fst k = h) t"
  by (simp add: rows_of_def tcount_def)

lemma rows_of_concat: "concat (map (\<lambda>(k, r). if fst k = h then f r else []) t)
    = concat (map (\<lambda>(i, r). f r) (rows_of t h))"
  by (induction t) (auto simp: rows_of_def)

lemma upt_first: "[n..<n + Suc m] = n # [Suc n..<Suc n + m]"
  by (simp add: upt_conv_Cons del: upt_Suc)

lemma map_of_positional:
  "map fst g = [n..<n + length g] \<Longrightarrow> i < length g \<Longrightarrow> map_of g (n + i) = Some (snd (g ! i))"
proof (induction g arbitrary: n i)
  case (Cons x g)
  have f: "fst x = n" "map fst g = [Suc n..<Suc n + length g]"
    using Cons.prems(1) by (simp_all only: list.map length_Cons upt_first list.inject)
  show ?case
  proof (cases i)
    case 0
    then show ?thesis using f by (cases x) simp
  next
    case (Suc j)
    then have "map_of g (Suc n + j) = Some (snd (g ! j))"
      using Cons.IH [OF f(2), of j] Cons.prems(2) by simp
    then show ?thesis using f(1) Suc by (cases x) simp
  qed
qed simp

lemma positional_get:
  assumes "positional t h"
  shows "i < length (rows_of t h) \<Longrightarrow> tget t (h, i) = Some (snd (rows_of t h ! i))"
    "i < length (rows_of t h) \<Longrightarrow> fst (rows_of t h ! i) = i"
    "\<not> i < length (rows_of t h) \<Longrightarrow> tget t (h, i) = None"
proof -
  have p: "map fst (rows_of t h) = [0..<length (rows_of t h)]" using assms by (simp add: positional_def)
  show "i < length (rows_of t h) \<Longrightarrow> tget t (h, i) = Some (snd (rows_of t h ! i))"
    using map_of_positional [of "rows_of t h" 0 i] p by (simp add: tget_rows_of)
  have "map fst (rows_of t h) ! i = i" if "i < length (rows_of t h)"
    unfolding p using that by simp
  then show "i < length (rows_of t h) \<Longrightarrow> fst (rows_of t h ! i) = i" by simp
  have "i \<in> fst ` set (rows_of t h) \<longleftrightarrow> i < length (rows_of t h)"
    using arg_cong [OF p, of set] by auto
  then show "\<not> i < length (rows_of t h) \<Longrightarrow> tget t (h, i) = None"
    by (simp add: tget_rows_of map_of_eq_None_iff)
qed

text \<open>\<open>g'\<close> is \<open>g\<close> with the rows \<open>vs\<close> at the positions from \<open>k\<close> on.\<close>

definition filled :: "nat \<Rightarrow> 'v list \<Rightarrow> (nat \<times> 'v) list \<Rightarrow> (nat \<times> 'v) list \<Rightarrow> bool" where
  "filled k vs g g' \<longleftrightarrow> length g' = max (length g) (k + length vs) \<and> take (length g) g' = g
    \<and> (\<forall>j < length vs. g' ! (k + j) = (k + j, vs ! j))"

lemma filled_Nil: "k \<le> length g \<Longrightarrow> filled k [] g g"
  by (simp add: filled_def)

lemma filled_Cons:
  assumes "filled k [v] g g1" "filled (Suc k) vs g1 g2" "k \<le> length g"
  shows "filled k (v # vs) g g2"
proof -
  have l1: "length g1 = max (length g) (Suc k)" and t1: "take (length g) g1 = g" and v: "g1 ! k = (k, v)"
    using assms(1) by (auto simp: filled_def)
  have l2: "length g2 = max (length g1) (Suc k + length vs)" and t2: "take (length g1) g2 = g1"
    and vs: "\<forall>j < length vs. g2 ! (Suc k + j) = (Suc k + j, vs ! j)"
    using assms(2) by (auto simp: filled_def)
  have "take (length g) g2 = take (length g) (take (length g1) g2)" by (simp add: l1)
  also have "\<dots> = g" by (simp only: t2 t1)
  finally have "take (length g) g2 = g" .
  moreover have "g2 ! (k + j) = (k + j, (v # vs) ! j)" if "j < length (v # vs)" for j
  proof (cases j)
    case 0
    have "g2 ! k = take (length g1) g2 ! k" using l1 by simp
    then show ?thesis using 0 t2 v by simp
  next
    case (Suc i)
    then show ?thesis using vs that by simp
  qed
  ultimately show ?thesis using l1 l2 by (simp add: filled_def)
qed

lemma filled_old:
  assumes "filled k vs g g'" "j < length g"
  shows "g' ! j = g ! j"
proof -
  have "take (length g) g' ! j = g ! j" using assms(1) by (simp add: filled_def)
  then show ?thesis using assms(2) by simp
qed

lemma filled_all:
  assumes "filled 0 vs g g'" "g = [] \<or> length g = length vs"
  shows "g' = enumerate 0 vs"
proof (rule nth_equalityI)
  show l: "length g' = length (enumerate 0 vs)" using assms by (auto simp: filled_def)
  fix j assume "j < length g'"
  then show "g' ! j = enumerate 0 vs ! j"
    using assms(1) l by (simp add: filled_def nth_enumerate_eq)
qed

lemma filled_same: "filled 0 vs g g' \<Longrightarrow> length g = length vs \<Longrightarrow> g' = g"
  by (auto simp: filled_def)

lemma put_position:
  assumes "insertOrVerifyIdempotent c f (h, i) v (\<lambda>old. old = v) t = Inr (fresh, t')"
    and "positional t h" "i \<le> length (rows_of t h)"
  shows "filled i [v] (rows_of t h) (rows_of t' h)" "positional t' h" "h' \<noteq> h \<Longrightarrow> rows_of t' h' = rows_of t h'"
  using assms(1)
proof (atomize (full), cases rule: insertOrVerify_Inr)
  case fresh
  then have "\<not> i < length (rows_of t h)" using positional_get(1) [OF assms(2)] by force
  then have i: "i = length (rows_of t h)" using assms(3) by simp
  have g: "rows_of t' x = (if x = h then rows_of t h @ [(i, v)] else rows_of t x)" for x
    by (simp only: fresh(5) rows_of_tinsert)
  have "positional t' h" using assms(2) i by (simp add: positional_def g)
  moreover have "filled i [v] (rows_of t h) (rows_of t' h)" using i by (simp add: filled_def g)
  ultimately show "filled i [v] (rows_of t h) (rows_of t' h) \<and> positional t' h
    \<and> (h' \<noteq> h \<longrightarrow> rows_of t' h' = rows_of t h')" by (simp add: g)
next
  case (existing old)
  then have i: "i < length (rows_of t h)" using positional_get(3) [OF assms(2), of i] by force
  have "snd (rows_of t h ! i) = v" "fst (rows_of t h ! i) = i"
    using positional_get(1,2) [OF assms(2) i] existing by simp_all
  then have "rows_of t h ! i = (i, v)" by (simp add: prod_eq_iff)
  then show "filled i [v] (rows_of t h) (rows_of t' h) \<and> positional t' h
    \<and> (h' \<noteq> h \<longrightarrow> rows_of t' h' = rows_of t h')"
    using existing assms(2) i by (simp add: filled_def)
qed

section \<open>The tables of a transaction\<close>

definition same_source :: "db \<Rightarrow> db \<Rightarrow> bool" where
  "same_source d e \<longleftrightarrow> transactions e = transactions d \<and> block_transactions e = block_transactions d
    \<and> transaction_outputs e = transaction_outputs d"

lemma same_source_refl: "same_source d d"
  by (simp add: same_source_def)

lemma same_source_trans: "same_source d e \<Longrightarrow> same_source e f \<Longrightarrow> same_source d f"
  by (simp add: same_source_def)

lemma same_source_writes:
  "insert_variant txn d = Inr (fresh, e) \<Longrightarrow> same_source d e"
  "insert_input txid inp d = Inr e \<Longrightarrow> same_source d e"
  "apply_witness_item txid wtxid vin item d = Inr e \<Longrightarrow> same_source d e"
  "apply_address op fresh addr d = Inr e \<Longrightarrow> same_source d e"
  "apply_participant op p d = Inr e \<Longrightarrow> same_source d e"
  "create_utxo bh op d = Inr e \<Longrightarrow> same_source d e"
  "markSpent prev txid vin bh d = Inr (addr, e) \<Longrightarrow> same_source d e"
  by ((clarsimp simp: same_source_def insert_variant_def insert_input_def apply_witness_item_def
      apply_address_def apply_participant_def create_utxo_def markSpent_def Let_def result_simps
      split: if_splits prod.splits option.splits); fail)+

lemma same_source_loop:
  "fold_res f xs d = Inr e \<Longrightarrow> (\<And>x d e. f x d = Inr e \<Longrightarrow> same_source d e) \<Longrightarrow> same_source d e"
  by (rule fold_res_relation [of f xs]) (auto intro: same_source_refl same_source_trans)

lemma applyInput_source: "applyInput txid wtxid vf inp d = Inr e \<Longrightarrow> same_source d e"
  unfolding applyInput_def rbind_eq_Inr_iff
  by (elim exE conjE, rule same_source_trans, erule same_source_writes, erule same_source_loop,
      erule same_source_writes)

lemma apply_participants_source: "apply_participants op fresh out d = Inr e \<Longrightarrow> same_source d e"
  by (auto simp: apply_participants_def result_simps same_source_refl split: if_splits
      intro: same_source_loop [where f = "apply_participant op"] same_source_writes)

lemma mark_inputs_source: "mark_inputs bh txid inps (d, T) = Inr (e, T') \<Longrightarrow> same_source d e"
proof -
  assume "mark_inputs bh txid inps (d, T) = Inr (e, T')"
  then have "same_source (fst (d, T)) (fst (e, T'))"
    unfolding mark_inputs_def
    by (rule fold_res_relation [where R = "\<lambda>x y. same_source (fst x) (fst y)"])
      (auto simp: result_simps same_source_refl split: option.splits
        dest: same_source_writes intro: same_source_trans)
  then show ?thesis by simp
qed

lemma applyOutput_source:
  assumes "applyOutput bh txid g out d = Inr (addr, e)"
  obtains fresh d0 where "insert_output txid out d = Inr (fresh, d0)" "same_source d0 e"
  using assms
proof (rule applyOutputE)
  fix fresh d0 d1 d2
  assume i: "insert_output txid out d = Inr (fresh, d0)"
    and a: "apply_address (txid, out_Index out) fresh (out_Address out) d0 = Inr d1"
    and p: "apply_participants (txid, out_Index out) fresh out d1 = Inr d2"
    and u: "(if \<not> g \<and> \<not> IsUnspendable (out_ScriptPubKey out) then create_utxo bh (txid, out_Index out) d2
      else Inr d2) = Inr e"
  have "same_source d2 e" using u same_source_writes(6) same_source_refl by (auto split: if_splits)
  then have "same_source d0 e"
    using same_source_writes(4) [OF a] apply_participants_source [OF p] same_source_trans by blast
  with i show thesis by (rule that)
qed

text \<open>The outputs, in a loop that starts at position \<open>k\<close>.\<close>

lemma apply_outputs_rows:
  assumes "apply_outputs bh x g outs (d, T) = Inr (e, T')"
    and "map out_Index outs = [k..<k + length outs]" "positional (transaction_outputs d) x"
    and "k \<le> length (rows_of (transaction_outputs d) x)"
  shows "filled k (map out_row_of outs) (rows_of (transaction_outputs d) x) (rows_of (transaction_outputs e) x)
    \<and> positional (transaction_outputs e) x
    \<and> (\<forall>y. y \<noteq> x \<longrightarrow> rows_of (transaction_outputs e) y = rows_of (transaction_outputs d) y)
    \<and> transactions e = transactions d \<and> block_transactions e = block_transactions d"
  using assms
proof (induction outs arbitrary: k d T)
  case Nil
  then show ?case by (simp add: apply_outputs_def filled_Nil)
next
  case (Cons out outs)
  obtain addr d1 where o: "applyOutput bh x g out d = Inr (addr, d1)"
    and f: "apply_outputs bh x g outs (d1, touch addr T) = Inr (e, T')"
    using Cons.prems(1) by (auto simp: apply_outputs_def result_simps)
  obtain fresh d0 where i: "insert_output x out d = Inr (fresh, d0)" and s: "same_source d0 d1"
    using o by (rule applyOutput_source)
  have k: "out_Index out = k" "map out_Index outs = [Suc k..<Suc k + length outs]"
    using Cons.prems(2) by (simp_all only: list.map length_Cons upt_first list.inject)
  obtain t where t: "insertOrVerifyIdempotent (output_checks k (out_row_of out)) (tget (transactions d) x \<noteq> None)
      (x, k) (out_row_of out) (\<lambda>old. old = out_row_of out) (transaction_outputs d) = Inr (fresh, t)"
    and d0: "d0 = d\<lparr>transaction_outputs := t\<rparr>"
    using i k(1) by (auto simp: insert_output_def Let_def result_simps)
  note put = put_position [OF t Cons.prems(3,4)]
  have d1: "transaction_outputs d1 = t" "transactions d1 = transactions d"
    "block_transactions d1 = block_transactions d"
    using s by (simp_all add: same_source_def d0)
  have l: "Suc k \<le> length (rows_of (transaction_outputs d1) x)"
    using put(1) by (simp add: d1 filled_def)
  have "positional (transaction_outputs d1) x" using put(2) by (simp add: d1)
  note IH = Cons.IH [OF f k(2) this l]
  have "filled k (out_row_of out # map out_row_of outs) (rows_of (transaction_outputs d) x)
      (rows_of (transaction_outputs e) x)"
    by (rule filled_Cons [OF put(1)]) (use IH Cons.prems(4) in \<open>simp_all add: d1\<close>)
  then show ?case using IH put(3) by (simp add: d1)
qed

section \<open>Source tables\<close>

definition source_ok :: "db \<Rightarrow> bool" where
  "source_ok d \<longleftrightarrow> twf (transactions d)
    \<and> (\<forall>h. positional (block_transactions d) h) \<and> (\<forall>x. positional (transaction_outputs d) x)
    \<and> (\<forall>x. tget (transactions d) x = None \<longrightarrow> rows_of (transaction_outputs d) x = [])
    \<and> (\<forall>h i r. (i, r) \<in> set (rows_of (block_transactions d) h) \<longrightarrow> tget (transactions d) (bt_txid r) \<noteq> None)
    \<and> (\<forall>h. tget (blocks d) h = None \<longrightarrow> rows_of (block_transactions d) h = [])"

lemma source_okD:
  assumes "source_ok d"
  shows "twf (transactions d)" "positional (block_transactions d) h" "positional (transaction_outputs d) x"
    "tget (transactions d) x = None \<Longrightarrow> rows_of (transaction_outputs d) x = []"
    "(i, r) \<in> set (rows_of (block_transactions d) h) \<Longrightarrow> tget (transactions d) (bt_txid r) \<noteq> None"
    "tget (blocks d) h = None \<Longrightarrow> rows_of (block_transactions d) h = []"
  using assms unfolding source_ok_def by blast+

definition tx_row_of :: "transaction \<Rightarrow> int option \<Rightarrow> tx_row" where
  "tx_row_of txn fee = \<lparr>t_version = int (tx_Version txn), t_locktime = int (tx_LockTime txn),
     t_is_coinbase = tx_IsCoinbase txn, t_fee = fee\<rparr>"

definition bt_row_of :: "transaction \<Rightarrow> bt_row" where
  "bt_row_of txn = \<lparr>bt_txid = tx_TxID txn, bt_wtxid = tx_WTxID txn\<rparr>"

text \<open>Blocks keep their rows, transactions theirs and their outputs; only \<open>bh\<close> gains occurrences.\<close>

definition source_kept :: "string \<Rightarrow> db \<Rightarrow> db \<Rightarrow> bool" where
  "source_kept bh d e \<longleftrightarrow> tget (transactions d) \<subseteq>\<^sub>m tget (transactions e)
    \<and> (\<forall>x. tget (transactions d) x \<noteq> None \<longrightarrow> rows_of (transaction_outputs e) x = rows_of (transaction_outputs d) x)
    \<and> (\<forall>h. h \<noteq> bh \<longrightarrow> rows_of (block_transactions e) h = rows_of (block_transactions d) h)"

lemma source_kept_refl: "source_kept bh d d"
  by (simp add: source_kept_def)

lemma source_kept_trans:
  assumes "source_kept bh d e" "source_kept bh e f"
  shows "source_kept bh d f"
proof -
  have sub: "tget (transactions d) \<subseteq>\<^sub>m tget (transactions e)" using assms(1) by (simp add: source_kept_def)
  then have "tget (transactions d) \<subseteq>\<^sub>m tget (transactions f)"
    by (rule map_le_trans) (use assms(2) in \<open>simp add: source_kept_def\<close>)
  moreover have "rows_of (transaction_outputs f) x = rows_of (transaction_outputs d) x"
    if x: "tget (transactions d) x \<noteq> None" for x
  proof -
    have "tget (transactions e) x = tget (transactions d) x"
      using sub x by (auto simp: map_le_def dom_def)
    then have "rows_of (transaction_outputs f) x = rows_of (transaction_outputs e) x"
      using assms(2) x unfolding source_kept_def by simp
    then show ?thesis using assms(1) x unfolding source_kept_def by simp
  qed
  moreover have "rows_of (block_transactions f) h = rows_of (block_transactions d) h" if "h \<noteq> bh" for h
    using assms that unfolding source_kept_def by simp
  ultimately show ?thesis unfolding source_kept_def by blast
qed

lemma outputs_positions:
  assumes "apply_outputs bh x g (tx_Outputs txn) (d, T) = Inr (e, T')" "shape_ok txn"
  shows "map out_Index (tx_Outputs txn) = [0..<length (tx_Outputs txn)]"
proof (rule positional_indices)
  fix i assume "i < length (tx_Outputs txn)"
  then show "out_Index (tx_Outputs txn ! i) = uint32_of i" using assms(2) by (simp add: shape_ok_def)
next
  fix out assume "out \<in> set (tx_Outputs txn)"
  from fold_res_all [OF assms(1) [unfolded apply_outputs_def] this]
  obtain y d0 addr e0 where "applyOutput bh x g out d0 = Inr (addr, e0)"
    by (auto simp: result_simps)
  then show "fits_int4 (out_Index out)" by (rule applyOutput_index)
qed

lemma applyTransaction_rows:
  assumes a: "applyTransaction bh g i txn (d, T) = Inr (fee, e, T')" and ok: "source_ok d"
    and sh: "shape_ok txn" and i: "i \<le> length (rows_of (block_transactions d) bh)"
    and bh: "tget (blocks d) bh \<noteq> None"
  shows "source_ok e" "source_kept bh d e"
    "tget (transactions e) (tx_TxID txn) = Some (tx_row_of txn fee)"
    "filled i [bt_row_of txn] (rows_of (block_transactions d) bh) (rows_of (block_transactions e) bh)"
    "rows_of (transaction_outputs e) (tx_TxID txn) = enumerate 0 (map out_row_of (tx_Outputs txn))"
    "fee = None \<longleftrightarrow> tx_IsCoinbase txn" "fee = Some f \<Longrightarrow> in_i64 f"
proof -
  note okD = source_okD [OF ok]
  let ?x = "tx_TxID txn"
  let ?n = "length (tx_Outputs txn)"
  obtain f1 d1 f2 d2 d3 d4 d5 T5 where
    fee: "transaction_fee txn d = Inr fee"
    and tr: "insert_transaction txn fee d = Inr (f1, d1)"
    and va: "insert_variant txn d1 = Inr (f2, d2)"
    and bt: "insert_block_transaction bh i txn d2 = Inr d3"
    and ch: "(if f1 then Inr () else verify_children txn d3) = Inr ()"
    and ins: "fold_res (applyInput ?x (tx_WTxID txn) f2) (tx_Inputs txn) d3 = Inr d4"
    and os: "apply_outputs bh ?x g (tx_Outputs txn) (d4, T) = Inr (d5, T5)"
    and ms: "(if tx_IsCoinbase txn then Inr (d5, T5)
      else mark_inputs bh ?x (tx_Inputs txn) (d5, T5)) = Inr (e, T')"
    using a by (rule applyTransactionE)
  show "fee = None \<longleftrightarrow> tx_IsCoinbase txn" "fee = Some f \<Longrightarrow> in_i64 f"
    using fee by (auto simp: transaction_fee_def Let_def result_simps sub64_def split: if_splits)
  obtain t1 where t1: "insertOrVerifyIdempotent (tx_checks ?x (tx_row_of txn fee)) True ?x (tx_row_of txn fee)
      (\<lambda>old. old = tx_row_of txn fee) (transactions d) = Inr (f1, t1)" and d1: "d1 = d\<lparr>transactions := t1\<rparr>"
    using tr by (auto simp: insert_transaction_def tx_row_of_def Let_def result_simps)
  have tx: "tget t1 = (tget (transactions d))(?x \<mapsto> tx_row_of txn fee)" "twf t1"
    "f1 \<longleftrightarrow> tget (transactions d) ?x = None"
    "tget (transactions d) ?x = None \<or> tget (transactions d) ?x = Some (tx_row_of txn fee)"
    using t1 by (auto elim!: insertOrVerify_Inr simp: fun_eq_iff tget_tinsert twf_simps okD(1))
  have d2: "same_source d1 d2" by (rule same_source_writes(1) [OF va])
  obtain f3 c f t3 where t3: "insertOrVerifyIdempotent c f (bh, i) (bt_row_of txn) (\<lambda>old. old = bt_row_of txn)
      (block_transactions d2) = Inr (f3, t3)" and d3: "d3 = d2\<lparr>block_transactions := t3\<rparr>"
    using bt by (auto simp: insert_block_transaction_def bt_row_of_def Let_def result_simps)
  have b2: "block_transactions d2 = block_transactions d" "transactions d2 = t1"
    "transaction_outputs d2 = transaction_outputs d"
    using d2 by (simp_all add: same_source_def d1)
  note put = put_position [OF t3 [unfolded b2] okD(2) i]
  have d4: "same_source d3 d4" by (rule same_source_loop [OF ins]) (rule applyInput_source)
  have b4: "block_transactions d4 = t3" "transactions d4 = t1" "transaction_outputs d4 = transaction_outputs d"
    using d4 b2 by (simp_all add: same_source_def d3)
  have "map out_Index (tx_Outputs txn) = [0..<0 + ?n]" using outputs_positions [OF os sh] by simp
  note out = apply_outputs_rows [OF os this, unfolded b4, OF okD(3)]
  have de: "same_source d5 e"
    using ms mark_inputs_source same_source_refl by (auto split: if_splits)
  have be: "block_transactions e = t3" "transactions e = t1" "transaction_outputs e = transaction_outputs d5"
    using de out by (simp_all add: same_source_def)
  have blk: "blocks e = blocks d"
    using block_side_tx.applyTransaction [OF a] by (simp add: block_side_def)
  have n: "length (rows_of (transaction_outputs d) ?x) = ?n" if "tget (transactions d) ?x \<noteq> None"
  proof -
    have "verify_children txn d3 = Inr ()" using ch tx(3) that by simp
    then have "tcount (\<lambda>k _. fst k = ?x) (transaction_outputs d) = int ?n"
      by (auto simp: verify_children_def verifyExactCount_def result_simps d3 b2)
    then show ?thesis by (simp flip: rows_of_length)
  qed
  have fill: "filled 0 (map out_row_of (tx_Outputs txn)) (rows_of (transaction_outputs d) ?x)
      (rows_of (transaction_outputs e) ?x)"
    using out be by simp
  show outs: "rows_of (transaction_outputs e) ?x = enumerate 0 (map out_row_of (tx_Outputs txn))"
    by (rule filled_all [OF fill]) (use n okD(4) in \<open>cases "tget (transactions d) ?x = None"; simp\<close>)
  have same: "rows_of (transaction_outputs e) x = rows_of (transaction_outputs d) x"
    if "x \<noteq> ?x \<or> tget (transactions d) x \<noteq> None" for x
    using that out be filled_same [OF fill] n by (cases "x = ?x") auto
  show "tget (transactions e) ?x = Some (tx_row_of txn fee)" by (simp add: be tx(1))
  show F: "filled i [bt_row_of txn] (rows_of (block_transactions d) bh) (rows_of (block_transactions e) bh)"
    using put(1) by (simp add: be)
  have le: "tget (transactions d) \<subseteq>\<^sub>m tget (transactions e)"
    using tx(4) by (auto simp: map_le_def be tx(1))
  show "source_kept bh d e"
    unfolding source_kept_def
  proof (intro conjI allI impI)
    show "rows_of (transaction_outputs e) x = rows_of (transaction_outputs d) x"
      if "tget (transactions d) x \<noteq> None" for x
      by (rule same) (use that in blast)
    show "rows_of (block_transactions e) h = rows_of (block_transactions d) h" if "h \<noteq> bh" for h
      using put(3) [OF that] by (simp add: be)
  qed (rule le)
  show "source_ok e" unfolding source_ok_def
  proof (intro conjI allI impI)
    show "twf (transactions e)" using tx(2) by (simp add: be)
    show "positional (block_transactions e) h" for h
      using put(2,3) okD(2) by (cases "h = bh") (simp_all add: be positional_def)
    show "positional (transaction_outputs e) x" for x
      using out okD(3) be by (cases "x = ?x") (simp_all add: positional_def)
    show "rows_of (transaction_outputs e) x = []" if "tget (transactions e) x = None" for x
    proof -
      have "x \<noteq> ?x" "tget (transactions d) x = None" using that by (auto simp: be tx(1) split: if_splits)
      then show ?thesis using same okD(4) by simp
    qed
    show "tget (transactions e) (bt_txid r) \<noteq> None" if "(j, r) \<in> set (rows_of (block_transactions e) h)" for h j r
    proof (cases "h = bh \<and> r = bt_row_of txn")
      case True
      then show ?thesis by (simp add: bt_row_of_def be tx(1))
    next
      case False
      have "(j, r) \<in> set (rows_of (block_transactions d) h)"
      proof (cases "h = bh")
        case True
        then obtain k where k: "k < length (rows_of (block_transactions e) bh)"
          "rows_of (block_transactions e) bh ! k = (j, r)" using \<open>(j, r) \<in> _\<close> by (auto simp: in_set_conv_nth)
        have "k < length (rows_of (block_transactions d) bh)"
        proof (rule ccontr)
          assume "\<not> k < length (rows_of (block_transactions d) bh)"
          then have "k = i" using k(1) F i by (auto simp: filled_def)
          then show False using F k(2) False True by (simp add: filled_def)
        qed
        then show ?thesis
          using filled_old [OF F, of k] k(2) nth_mem [of k "rows_of (block_transactions d) bh"] True by simp
      next
        case False
        then show ?thesis using that put(3) by (simp add: be)
      qed
      then have "tget (transactions d) (bt_txid r) \<noteq> None" by (rule okD(5))
      then show ?thesis by (auto simp: be tx(1))
    qed
    show "rows_of (block_transactions e) h = []" if "tget (blocks e) h = None" for h
      using that bh okD(6) put(3) by (cases "h = bh") (simp_all add: be blk)
  qed
qed

section \<open>The transactions of a block\<close>

definition paid_fees :: "int option list \<Rightarrow> int list" where
  "paid_fees fees = concat (map (\<lambda>f. case f of None \<Rightarrow> [] | Some v \<Rightarrow> [v]) fees)"

lemma paid_fees_simps [simp]: "paid_fees [] = []"
  "paid_fees (f # fs) = (case f of None \<Rightarrow> [] | Some v \<Rightarrow> [v]) @ paid_fees fs"
  by (simp_all add: paid_fees_def)

text \<open>What the tables hold of a transaction of the block, with the fee it was given.\<close>

definition tx_stored :: "db \<Rightarrow> transaction \<Rightarrow> int option \<Rightarrow> bool" where
  "tx_stored d txn fee \<longleftrightarrow> tget (transactions d) (tx_TxID txn) = Some (tx_row_of txn fee)
    \<and> (fee = None \<longleftrightarrow> tx_IsCoinbase txn)
    \<and> rows_of (transaction_outputs d) (tx_TxID txn) = enumerate 0 (map out_row_of (tx_Outputs txn))"

lemma tx_stored_kept: "tx_stored d txn fee \<Longrightarrow> source_kept bh d e \<Longrightarrow> tx_stored e txn fee"
  by (auto simp: tx_stored_def source_kept_def map_le_def dom_def)

lemma tx_loop_rows:
  assumes "fold_res (tx_step bh g) (enumerate k txs) (F, d, T) = Inr (F', e, T')"
    and "source_ok d" "tget (blocks d) bh \<noteq> None" "\<forall>txn \<in> set txs. shape_ok txn"
    and "k \<le> length (rows_of (block_transactions d) bh)" "in_i64 F"
  shows "source_ok e \<and> source_kept bh d e
    \<and> filled k (map bt_row_of txs) (rows_of (block_transactions d) bh) (rows_of (block_transactions e) bh)
    \<and> (\<exists>fees. list_all2 (tx_stored e) txs fees \<and> F' = F + sum_list (paid_fees fees) \<and> in_i64 F')"
  using assms
proof (induction txs arbitrary: k F d T)
  case Nil
  then show ?case by (simp add: source_kept_refl filled_Nil)
next
  case (Cons x txs)
  obtain fee d1 T1 F1 where a: "applyTransaction bh g k x (d, T) = Inr (fee, d1, T1)"
    and F1: "F1 = (case fee of None \<Rightarrow> F | Some f \<Rightarrow> the (addChecked F f))"
      "fee = None \<or> addChecked F (the fee) = Some F1"
    and f: "fold_res (tx_step bh g) (enumerate (Suc k) txs) (F1, d1, T1) = Inr (F', e, T')"
    using Cons.prems(1)
    by (auto simp: tx_step_def [of bh g] result_simps of_option_def split: option.splits)
  have "shape_ok x" using Cons.prems(4) by simp
  note t = applyTransaction_rows [OF a Cons.prems(2) this Cons.prems(5,3)]
  have F1': "F1 = F + sum_list (paid_fees [fee]) \<and> in_i64 F1"
  proof (cases fee)
    case None
    then show ?thesis using F1 Cons.prems(6) by simp
  next
    case (Some v)
    then have "addChecked F v = Some F1" using F1(2) by simp
    then show ?thesis using addChecked_SomeD [OF _ Cons.prems(6) t(7) [OF Some]] Some by simp
  qed
  have "blocks d1 = blocks d" using block_side_tx.applyTransaction [OF a] by (simp add: block_side_def)
  then have b1: "tget (blocks d1) bh \<noteq> None" using Cons.prems(3) by simp
  have k1: "Suc k \<le> length (rows_of (block_transactions d1) bh)" using t(4) by (simp add: filled_def)
  have sh: "\<forall>txn \<in> set txs. shape_ok txn" using Cons.prems(4) by simp
  obtain fees where IH: "source_ok e" "source_kept bh d1 e"
    "filled (Suc k) (map bt_row_of txs) (rows_of (block_transactions d1) bh) (rows_of (block_transactions e) bh)"
    "list_all2 (tx_stored e) txs fees" "F' = F1 + sum_list (paid_fees fees)" "in_i64 F'"
    using Cons.IH [OF f t(1) b1 sh k1 conjunct2 [OF F1']] by blast
  have "tx_stored d1 x fee" using t(3,5,6) by (simp add: tx_stored_def)
  then have "list_all2 (tx_stored e) (x # txs) (fee # fees)"
    using IH(2,4) tx_stored_kept by simp
  moreover have "F' = F + sum_list (paid_fees (fee # fees))" using IH(5) F1' by simp
  moreover have "filled k (map bt_row_of (x # txs)) (rows_of (block_transactions d) bh)
      (rows_of (block_transactions e) bh)"
    unfolding list.map by (rule filled_Cons [OF t(4) IH(3) Cons.prems(5)])
  ultimately show ?case using IH(1,6) source_kept_trans [OF t(2) IH(2)] by blast
qed

lemma source_ok_same:
  assumes "source_ok d" "transactions e = transactions d" "block_transactions e = block_transactions d"
    "transaction_outputs e = transaction_outputs d"
    "\<And>h. tget (blocks e) h = None \<Longrightarrow> tget (blocks d) h = None"
  shows "source_ok e"
  using assms(1,5) unfolding source_ok_def assms(2-4) by blast

text \<open>
  The source tables after an applied block: the block's occurrences are its transactions in order,
  each with its outputs and its fee, the fees add up to the total the block was accounted with, and
  what other blocks and known transactions have is unchanged.
\<close>

lemma ApplyBlock_rows:
  assumes ap: "ApplyBlock s b d = Inr e" and ok: "source_ok d" and wb: "twf (blocks d)"
  obtains F fees d3 d4 d5 facts cb txs where "blk_Transactions b = cb # txs" "tx_IsCoinbase cb" "tx_Outputs cb \<noteq> []"
    "source_ok e" "source_kept (blk_Hash b) d e"
    "rows_of (block_transactions e) (blk_Hash b) = enumerate 0 (map bt_row_of (cb # txs))"
    "list_all2 (tx_stored e) (cb # txs) fees" "F = sum_list (paid_fees fees)" "in_i64 F"
    "applyBlockAccounting (accountingSchedule s) b F d3 = Inr (facts, d4)"
    "block_accounting d3 = block_accounting d" "block_accounting e = block_accounting d4"
    "\<forall>h. tget (blocks d) h \<noteq> None \<longrightarrow> rows_of (block_transactions e) h = rows_of (block_transactions d) h"
    "applySupplyRollup b (sync_state d) facts d4 = Inr d5" "blocks d4 = blocks e"
    "block_supply_rollup d4 = block_supply_rollup d" "block_supply_rollup e = block_supply_rollup d5"
proof -
  let ?h = "blk_Hash b"
  obtain f1 d1 F d2 T d3 facts d4 d5 where
    v: "validateBlockShape b = Inr ()"
    and h: "applyBlockHeader b d = Inr (f1, d1)"
    and n: "(if f1 then Inr () else verifyExactCount (tcount (\<lambda>k _. fst k = ?h)
      (block_transactions d1)) (length (blk_Transactions b))) = Inr ()"
    and t: "apply_transactions ?h (blk_Height b = 0) (blk_Transactions b) d1 = Inr (F, d2, T)"
    and u: "update_touched s T ?h d2 = Inr d3"
    and a: "applyBlockAccounting (accountingSchedule s) b F d3 = Inr (facts, d4)"
    and r: "applySupplyRollup b (sync_state d) facts d4 = Inr d5"
    and y: "set_sync_state ?h d5 = Inr e"
    using ap by (rule ApplyBlockE)
  obtain cb txs where txs: "blk_Transactions b = cb # txs" "tx_IsCoinbase cb"
    and others: "\<forall>txn \<in> set txs. \<not> tx_IsCoinbase txn" and sh: "\<forall>txn \<in> set (cb # txs). shape_ok txn"
    using v by (rule validateBlockShape_txs)
  have "for_each check_tx_shape (enumerate 0 (blk_Transactions b)) = Inr ()"
    using v by (auto simp: validateBlockShape_def result_simps)
  from for_each_all [OF this in_enumerate [of 0]] have outs: "tx_Outputs cb \<noteq> []"
    by (auto simp: txs(1) check_tx_shape_def result_simps)
  note hd = applyBlockHeader_effect [OF h wb]
  obtain tb where d1: "d1 = d\<lparr>blocks := tb\<rparr>" using hd(1) by blast
  have b1: "tget (blocks d1) ?h \<noteq> None" using hd(3) by (auto simp: canonical_def)
  have known: "tget (blocks d) k = None" if "tget (blocks d1) k = None" for k
    using that b1 hd(5) [of k] by (cases "k = ?h") auto
  have ok1: "source_ok d1" by (rule source_ok_same [OF ok]) (use known in \<open>simp_all add: d1\<close>)
  have t': "fold_res (tx_step ?h (blk_Height b = 0)) (enumerate 0 (cb # txs)) (0, d1, []) = Inr (F, d2, T)"
    using t unfolding apply_transactions_def tx_step_def txs(1) .
  obtain fees where L: "source_ok d2" "source_kept ?h d1 d2"
    "filled 0 (map bt_row_of (cb # txs)) (rows_of (block_transactions d1) ?h) (rows_of (block_transactions d2) ?h)"
    "list_all2 (tx_stored d2) (cb # txs) fees" "F = sum_list (paid_fees fees)" "in_i64 F"
    using tx_loop_rows [OF t' ok1 b1 sh] by auto
  note src = update_touched_source [OF u]
  obtain ta where d4: "d4 = d3\<lparr>block_accounting := ta\<rparr>" using applyBlockAccounting_source [OF a] by blast
  obtain tr where d5: "d5 = d4\<lparr>block_supply_rollup := tr\<rparr>" using applySupplyRollup_source [OF r] by blast
  obtain cp where e: "e = d5\<lparr>sync_state := cp\<rparr>" using y by (auto simp: set_sync_state_def result_simps)
  have tabs: "transactions e = transactions d2" "block_transactions e = block_transactions d2"
    "transaction_outputs e = transaction_outputs d2" "blocks e = blocks d2"
    using src(1) by (simp_all add: source_side_def e d5 d4)
  have side: "block_accounting d2 = block_accounting d1" "block_supply_rollup d2 = block_supply_rollup d1"
    using apply_transactions_side [OF t] by (simp_all add: block_side_def)
  have full: "length (rows_of (block_transactions d1) ?h) = length (map bt_row_of (cb # txs))"
    if "tget (blocks d) ?h \<noteq> None"
  proof -
    have "\<not> f1" using that hd(7) by simp
    then have "tcount (\<lambda>k _. fst k = ?h) (block_transactions d1) = int (length (cb # txs))"
      using n txs(1) by (simp add: verifyExactCount_def result_simps)
    then have "length (rows_of (block_transactions d1) ?h) = length (cb # txs)"
      unfolding rows_of_length [symmetric] by (simp only: of_nat_eq_iff)
    then show ?thesis by simp
  qed
  then have len: "rows_of (block_transactions d1) ?h = [] \<or> length (rows_of (block_transactions d1) ?h)
      = length (map bt_row_of (cb # txs))"
    using source_okD(6) [OF ok, of ?h] by (cases "tget (blocks d) ?h = None") (auto simp: d1)
  show thesis
  proof
    show "blk_Transactions b = cb # txs" "tx_IsCoinbase cb" "tx_Outputs cb \<noteq> []" by (rule txs outs)+
    show "source_ok e" by (rule source_ok_same [OF L(1)]) (simp_all add: tabs)
    show "source_kept ?h d e" using L(2) by (simp add: source_kept_def tabs d1)
    show "rows_of (block_transactions e) ?h = enumerate 0 (map bt_row_of (cb # txs))"
      using filled_all [OF L(3) len] by (simp only: tabs)
    have "tx_stored e = tx_stored d2" by (simp add: tx_stored_def tabs fun_eq_iff)
    then show "list_all2 (tx_stored e) (cb # txs) fees" using L(4) by simp
    show "F = sum_list (paid_fees fees)" "in_i64 F" by (rule L)+
    show "applyBlockAccounting (accountingSchedule s) b F d3 = Inr (facts, d4)" by (rule a)
    show "block_accounting d3 = block_accounting d" using src(4) side by (simp add: d1)
    have "rows_of (block_transactions e) k = rows_of (block_transactions d) k" if k: "tget (blocks d) k \<noteq> None" for k
    proof (cases "k = ?h")
      case True
      then show ?thesis using filled_same [OF L(3) full] k by (simp add: tabs d1)
    next
      case False
      then show ?thesis using L(2) by (simp add: source_kept_def tabs d1)
    qed
    then show "\<forall>h. tget (blocks d) h \<noteq> None \<longrightarrow> rows_of (block_transactions e) h = rows_of (block_transactions d) h"
      by blast
    show "applySupplyRollup b (sync_state d) facts d4 = Inr d5" by (rule r)
    show "block_accounting e = block_accounting d4" "blocks d4 = blocks e"
      "block_supply_rollup d4 = block_supply_rollup d" "block_supply_rollup e = block_supply_rollup d5"
      using src(1,3) side(2) by (simp_all add: e d5 d4 d1 source_side_def)
  qed
qed

text \<open>A rollback touches none of them.\<close>

lemma RollbackTo_source:
  assumes "RollbackTo s h d = Inr e"
  shows "transactions e = transactions d" "block_transactions e = block_transactions d"
    "transaction_outputs e = transaction_outputs d" "block_accounting e = block_accounting d"
proof -
  obtain a d1 T d2 where "tget (blocks d) h = Some a" "b_canonical a"
    and r: "(if 0 < length (orphan_hashes d (b_height a)) then rollback_utxos (orphan_hashes d (b_height a)) d
      else (d, [])) = (d1, T)"
    and u: "update_touched s T h d1 = Inr d2" and y: "set_sync_state h d2 = Inr e"
    using assms by (rule RollbackToE)
  have "transactions d1 = transactions d \<and> block_transactions d1 = block_transactions d
    \<and> transaction_outputs d1 = transaction_outputs d \<and> block_accounting d1 = block_accounting d"
    using r by (auto simp: rollback_utxos_def Let_def split: if_splits)
  then show "transactions e = transactions d" "block_transactions e = block_transactions d"
    "transaction_outputs e = transaction_outputs d" "block_accounting e = block_accounting d"
    using update_touched_source(1,4) [OF u] y
    by (auto simp: source_side_def set_sync_state_def result_simps)
qed

lemma source_ok_init: "source_ok init_db"
  by (simp add: source_ok_def init_db_def twf_simps positional_def rows_of_def)

end
