(* ===== verification/BackfillFacts.thy ===== *)
theory BackfillFacts
  imports StoreOccurrences BackfillDistribution
begin

text \<open>
  \<open>BackfillAccounting\<close> against the live rows: what it derives from a block's occurrences, its
  coinbase outputs and its fees is the row that \<open>ApplyBlock\<close> wrote, for every block of every
  reachable database.
\<close>

section \<open>What one block's source data says\<close>

definition derives :: "store \<Rightarrow> db \<Rightarrow> string \<Rightarrow> int \<Rightarrow> acc_row \<Rightarrow> bool" where
  "derives s d h height row \<longleftrightarrow> (\<exists>cb fees facts.
    coinbase_occurrence d h = Some (cb, True) \<and> output_values d cb \<noteq> []
    \<and> in_i64 (sum_list (output_values d cb))
    \<and> occurrence_fees d h = map Some fees \<and> in_i64 (sum_list fees)
    \<and> ComputeBlockFacts (accountingSchedule s) h height (sum_list fees) (sum_list (output_values d cb)) = Inr facts
    \<and> acc_checks (acc_row_of facts) \<and> row = acc_row_of facts)"

lemma ComputeBlockFacts_hash: "ComputeBlockFacts sch h ht fees cb = Inr facts \<Longrightarrow> BlockHash facts = h"
  by (auto simp: ComputeBlockFacts_def Let_def result_simps split: if_splits option.splits)

lemma concat_Some: "concat (map (\<lambda>f. case f of None \<Rightarrow> [] | Some v \<Rightarrow> [v]) (map Some xs)) = xs"
  by (induction xs) simp_all

lemma BackfillBlockAccounting_derives:
  assumes "derives s d h (b_height b) row" "tget (blocks d) h = Some b"
  shows "BackfillBlockAccounting s h d =
    (case tget (block_accounting d) h of
       None \<Rightarrow> Inr (True, d\<lparr>block_accounting := tinsert h row (block_accounting d)\<rparr>)
     | Some old \<Rightarrow> if old = row then Inr (False, d) else Inl (BackfillStore ErrImmutableConflict))"
proof -
  obtain cb fees facts where w: "coinbase_occurrence d h = Some (cb, True)" "output_values d cb \<noteq> []"
    "in_i64 (sum_list (output_values d cb))" "occurrence_fees d h = map Some fees" "in_i64 (sum_list fees)"
    "ComputeBlockFacts (accountingSchedule s) h (b_height b) (sum_list fees) (sum_list (output_values d cb)) = Inr facts"
    "acc_checks (acc_row_of facts)" "row = acc_row_of facts"
    using assms(1) unfolding derives_def by blast
  note hash = ComputeBlockFacts_hash [OF w(6)]
  show ?thesis
    unfolding BackfillBlockAccounting_def Let_def w(1,4) assms(2) of_option_simps rbind_simps prod.case
      concat_Some
    using w(2,3,5-8) hash assms(2)
    by (simp add: insertOrVerifyIdempotent_def split: option.split)
qed

lemma output_values_rows: "output_values d x = map (\<lambda>(_, r). o_value r) (rows_of (transaction_outputs d) x)"
  by (simp add: output_values_def rows_of_def split_beta comp_def)

lemma occurrence_fees_rows: "occurrence_fees d h = concat (map (\<lambda>(_, r).
    case tget (transactions d) (bt_txid r) of None \<Rightarrow> [] | Some t \<Rightarrow> if t_is_coinbase t then [] else [t_fee t])
    (rows_of (block_transactions d) h))"
proof -
  have "occurrence_fees d h = concat (map (\<lambda>(k, r). if fst k = h then
      (case tget (transactions d) (bt_txid r) of None \<Rightarrow> [] | Some t \<Rightarrow> if t_is_coinbase t then [] else [t_fee t])
      else []) (block_transactions d))"
    unfolding occurrence_fees_def by (rule arg_cong [where f = concat], rule map_cong) (auto simp: split_beta)
  then show ?thesis by (simp only: rows_of_concat)
qed

lemma derives_tables:
  assumes "transactions e = transactions d" "block_transactions e = block_transactions d"
    "transaction_outputs e = transaction_outputs d"
  shows "derives s e = derives s d"
proof -
  have "coinbase_occurrence e = coinbase_occurrence d" "output_values e = output_values d"
    "occurrence_fees e = occurrence_fees d"
    unfolding fun_eq_iff coinbase_occurrence_def output_values_def occurrence_fees_def assms by blast+
  then show ?thesis by (simp only: derives_def [abs_def])
qed

text \<open>The source data of a stored block does not change.\<close>

lemma derives_kept:
  assumes "derives s d h height row" "source_ok d" "source_kept bh d e" "h \<noteq> bh"
  shows "derives s e h height row"
proof -
  note kept = assms(3) [unfolded source_kept_def] and okD = source_okD [OF assms(2)]
  have bt: "rows_of (block_transactions e) h = rows_of (block_transactions d) h" using kept assms(4) by simp
  have tx: "tget (transactions e) (bt_txid r) = tget (transactions d) (bt_txid r)"
    if "(i, r) \<in> set (rows_of (block_transactions d) h)" for i r
    using okD(5) [OF that] kept by (auto simp: map_le_def dom_def)
  have fees: "occurrence_fees e h = occurrence_fees d h"
    unfolding occurrence_fees_rows bt
    by (rule arg_cong [where f = concat], rule map_cong) (auto simp: tx)
  have coin: "coinbase_occurrence e h = coinbase_occurrence d h"
  proof (cases "tget (block_transactions d) (h, 0)")
    case None
    then show ?thesis by (simp add: coinbase_occurrence_def tget_rows_of bt)
  next
    case (Some r)
    then have "(0, r) \<in> set (rows_of (block_transactions d) h)"
      by (simp add: tget_rows_of map_of_SomeD)
    then show ?thesis using tx Some by (simp add: coinbase_occurrence_def tget_rows_of bt)
  qed
  have "output_values e cb = output_values d cb" if c: "coinbase_occurrence d h = Some (cb, True)" for cb
  proof -
    obtain r t where "tget (block_transactions d) (h, 0) = Some r" "bt_txid r = cb"
      "tget (transactions d) cb = Some t"
      using c by (auto simp: coinbase_occurrence_def split: option.splits)
    then show ?thesis using kept by (simp add: output_values_rows)
  qed
  with assms(1) show ?thesis unfolding derives_def coin fees by metis
qed

text \<open>The applied block's source data gives the facts it was accounted with.\<close>

lemma fees_of_rows:
  assumes "list_all2 (tx_stored e) txs fees"
  shows "concat (map (\<lambda>(_, r). case tget (transactions e) (bt_txid r) of None \<Rightarrow> []
      | Some t \<Rightarrow> if t_is_coinbase t then [] else [t_fee t]) (enumerate n (map bt_row_of txs)))
    = map Some (paid_fees fees)"
  using assms
proof (induction txs fees arbitrary: n rule: list_all2_induct)
  case (Cons x txs f fees)
  have "tget (transactions e) (bt_txid (bt_row_of x)) = Some (tx_row_of x f)" "f = None \<longleftrightarrow> tx_IsCoinbase x"
    using Cons.hyps(1) by (simp_all add: tx_stored_def bt_row_of_def)
  then show ?case using Cons.IH [of "Suc n"] by (cases f) (auto simp: tx_row_of_def)
qed simp

lemma ApplyBlock_derives:
  assumes ap: "ApplyBlock s b d = Inr e" and ok: "source_ok d" and w: "twf (blocks d)" "twf (block_accounting d)"
  obtains facts d4 d5 cb txs fees where "derives s e (blk_Hash b) (blk_Height b) (acc_row_of facts)"
    "twf (block_accounting e)"
    "tget (block_accounting e) = (tget (block_accounting d))(blk_Hash b \<mapsto> acc_row_of facts)"
    "source_ok e" "source_kept (blk_Hash b) d e"
    "\<forall>h. tget (blocks d) h \<noteq> None \<longrightarrow> rows_of (block_transactions e) h = rows_of (block_transactions d) h"
    "applySupplyRollup b (sync_state d) facts d4 = Inr d5" "blocks d4 = blocks e"
    "block_supply_rollup d4 = block_supply_rollup d" "block_supply_rollup e = block_supply_rollup d5"
    "blk_Transactions b = cb # txs" "list_all2 (tx_stored e) (cb # txs) fees"
    "rows_of (block_transactions e) (blk_Hash b) = enumerate 0 (map bt_row_of (cb # txs))"
    "in_i64 (FeeSatoshis facts)" "in_i64 (CoinbaseOutputSatoshis facts)"
    "acc_checks (acc_row_of facts)"
proof -
  let ?h = "blk_Hash b"
  obtain F fees d3 d4 d5 facts cb txs where A: "blk_Transactions b = cb # txs" "tx_IsCoinbase cb" "tx_Outputs cb \<noteq> []"
    "source_ok e" "source_kept ?h d e"
    "rows_of (block_transactions e) ?h = enumerate 0 (map bt_row_of (cb # txs))"
    "list_all2 (tx_stored e) (cb # txs) fees" "F = sum_list (paid_fees fees)" "in_i64 F"
    "applyBlockAccounting (accountingSchedule s) b F d3 = Inr (facts, d4)"
    "block_accounting d3 = block_accounting d" "block_accounting e = block_accounting d4"
    and B: "\<forall>h. tget (blocks d) h \<noteq> None \<longrightarrow> rows_of (block_transactions e) h = rows_of (block_transactions d) h"
    "applySupplyRollup b (sync_state d) facts d4 = Inr d5" "blocks d4 = blocks e"
    "block_supply_rollup d4 = block_supply_rollup d" "block_supply_rollup e = block_supply_rollup d5"
    using ap ok w(1) by (rule ApplyBlock_rows)
  obtain c where c: "sumOutputValues (tx_Outputs cb) = Some c"
    and facts: "ComputeBlockFacts (accountingSchedule s) ?h (blk_Height b) F c = Inr facts"
    and ins: "insert_accounting facts d3 = Inr d4"
    using A(1,10) by (auto simp: applyBlockAccounting_def result_simps of_option_def map_err_def
        split: option.splits sum.splits)
  note hash = ComputeBlockFacts_hash [OF facts]
  have cs: "sum_list (map (\<lambda>out. sint (out_Value out)) (tx_Outputs cb)) = c" "in_i64 c"
    using sumOutputValues_sum [OF c] by blast+
  let ?row = "acc_row_of facts"
  have checks: "acc_checks ?row" and twf: "twf (block_accounting e)"
    and get: "tget (block_accounting e) = (tget (block_accounting d))(?h \<mapsto> ?row)"
  proof -
    obtain f t where i: "insertOrVerifyIdempotent (acc_checks ?row) (tget (blocks d3) ?h \<noteq> None) ?h ?row
        (\<lambda>old. old = ?row) (block_accounting d) = Inr (f, t)" and t: "block_accounting e = t"
      using ins A(11,12) hash by (auto simp: insert_accounting_def result_simps)
    from i show "acc_checks ?row" "twf (block_accounting e)"
      "tget (block_accounting e) = (tget (block_accounting d))(?h \<mapsto> ?row)"
      using w(2) unfolding t
      by (auto elim!: insertOrVerify_Inr simp: fun_eq_iff tget_tinsert twf_simps)
  qed
  obtain fee0 where st: "tx_stored e cb fee0" using A(7) by (cases fees) auto
  have cbo: "coinbase_occurrence e ?h = Some (tx_TxID cb, True)"
  proof -
    have "tget (block_transactions e) (?h, 0) = Some (bt_row_of cb)"
      by (simp add: tget_rows_of A(6))
    then show ?thesis using st A(2)
      by (simp add: coinbase_occurrence_def bt_row_of_def tx_stored_def tx_row_of_def)
  qed
  have vals: "output_values e (tx_TxID cb) = map (\<lambda>out. sint (out_Value out)) (tx_Outputs cb)"
  proof -
    have "map (\<lambda>(_, r). o_value r) (enumerate n (map out_row_of outs)) = map (\<lambda>out. sint (out_Value out)) outs" for n outs
      by (induction outs arbitrary: n) (simp_all add: out_row_of_def)
    then show ?thesis using st by (simp add: output_values_rows tx_stored_def)
  qed
  have "derives s e ?h (blk_Height b) ?row"
    unfolding derives_def
  proof (intro exI conjI)
    show "coinbase_occurrence e ?h = Some (tx_TxID cb, True)" by (rule cbo)
    show "output_values e (tx_TxID cb) \<noteq> []" using A(3) by (simp add: vals)
    show "in_i64 (sum_list (output_values e (tx_TxID cb)))" unfolding vals cs(1) by (rule cs(2))
    show "occurrence_fees e ?h = map Some (paid_fees fees)"
      unfolding occurrence_fees_rows A(6) by (rule fees_of_rows [OF A(7)])
    show "in_i64 (sum_list (paid_fees fees))" using A(8,9) by simp
    show "ComputeBlockFacts (accountingSchedule s) ?h (blk_Height b) (sum_list (paid_fees fees))
        (sum_list (output_values e (tx_TxID cb))) = Inr facts"
      unfolding vals cs(1) A(8) [symmetric] by (rule facts)
    show "acc_checks ?row" by (rule checks)
  qed (rule refl)
  moreover have "in_i64 (FeeSatoshis facts)" "in_i64 (CoinbaseOutputSatoshis facts)"
    using ComputeBlockFacts_fields [OF facts] A(9) cs(2) by simp_all
  ultimately show thesis by (rule that [OF _ twf get A(4,5) B A(1,7,6) _ _ checks])
qed

section \<open>The invariant\<close>

definition accounted :: "store \<Rightarrow> db \<Rightarrow> bool" where
  "accounted s d \<longleftrightarrow> source_ok d \<and> twf (blocks d) \<and> twf (block_accounting d)
    \<and> (\<forall>h b. tget (blocks d) h = Some b \<longrightarrow>
         (\<exists>row. tget (block_accounting d) h = Some row \<and> derives s d h (b_height b) row))
    \<and> (\<forall>h. tget (block_accounting d) h \<noteq> None \<longrightarrow> tget (blocks d) h \<noteq> None)"

lemma accountedD:
  assumes "accounted s d"
  shows "source_ok d" "twf (blocks d)" "twf (block_accounting d)"
    "tget (blocks d) h = Some b \<Longrightarrow> \<exists>row. tget (block_accounting d) h = Some row \<and> derives s d h (b_height b) row"
    "tget (block_accounting d) h \<noteq> None \<Longrightarrow> tget (blocks d) h \<noteq> None"
  using assms unfolding accounted_def by blast+

lemma ApplyBlock_accounted:
  assumes "accounted s d" "ApplyBlock s b d = Inr e"
  shows "accounted s e"
proof -
  note inv = accountedD [OF assms(1)]
  note ch = ApplyBlock_chain [OF assms(2) inv(2)]
  obtain facts where R: "derives s e (blk_Hash b) (blk_Height b) (acc_row_of facts)" "twf (block_accounting e)"
    "tget (block_accounting e) = (tget (block_accounting d))(blk_Hash b \<mapsto> acc_row_of facts)"
    "source_ok e" "source_kept (blk_Hash b) d e"
    using assms(2) inv(1-3) by (rule ApplyBlock_derives)
  obtain r where r: "tget (blocks e) (blk_Hash b) = Some r" "b_height r = blk_Height b"
    using ch(2) same_block_fields by (fastforce simp: canonical_def)
  have other: "tget (blocks e) h = tget (blocks d) h" if "h \<noteq> blk_Hash b" for h using ch(3) that by simp
  show ?thesis unfolding accounted_def
  proof (intro conjI allI impI)
    show "source_ok e" "twf (blocks e)" "twf (block_accounting e)" by (rule R(4) ch(1) R(2))+
    fix h x assume x: "tget (blocks e) h = Some x"
    show "\<exists>row. tget (block_accounting e) h = Some row \<and> derives s e h (b_height x) row"
    proof (cases "h = blk_Hash b")
      case True
      then show ?thesis using x r R(1,3) by simp
    next
      case False
      then obtain row' where "tget (block_accounting d) h = Some row'" "derives s d h (b_height x) row'"
        using inv(4) x other by metis
      then show ?thesis using False R(3) derives_kept [OF _ inv(1) R(5) False] by simp
    qed
  next
    fix h assume "tget (block_accounting e) h \<noteq> None"
    then show "tget (blocks e) h \<noteq> None"
      using R(3) r(1) other inv(5) by (cases "h = blk_Hash b") auto
  qed
qed

lemma RollbackTo_accounted:
  assumes "accounted s d" "RollbackTo s' h d = Inr e"
  shows "accounted s e"
proof -
  note inv = accountedD [OF assms(1)] and src = RollbackTo_source [OF assms(2)]
  obtain a where "canonical d h a" and b: "\<And>k. tget (blocks e) k = map_option (demote_above (b_height a)) (tget (blocks d) k)"
    and w: "twf (blocks e)"
    using RollbackTo_chain [OF assms(2) inv(2)] by metis
  have ht: "b_height (demote_above j r) = b_height r" for j r by (simp add: demote_above_def)
  have der: "derives s e = derives s d" by (rule derives_tables) (rule src)+
  show ?thesis unfolding accounted_def der src(4)
  proof (intro conjI allI impI)
    show "source_ok e" by (rule source_ok_same [OF inv(1)]) (use b in \<open>simp_all add: src\<close>)
    show "twf (blocks e)" "twf (block_accounting d)" by (rule w inv)+
    show "\<exists>row. tget (block_accounting d) k = Some row \<and> derives s d k (b_height x) row"
      if "tget (blocks e) k = Some x" for k x
      using that inv(4) b [of k] ht by (cases "tget (blocks d) k") auto
    show "tget (blocks e) k \<noteq> None" if "tget (block_accounting d) k \<noteq> None" for k
      using inv(5) [OF that] b [of k] by simp
  qed
qed

interpretation accounting: store_invariant s "\<lambda>_ _. True" "accounted s" for s
proof
  show "accounted s init_db"
    unfolding accounted_def by (simp add: source_ok_init) (simp add: init_db_def twf_simps tget_def)
  fix d op e assume i: "accounted s d" "attempt s op d = Inr e"
  then show "accounted s e"
    by (cases op) (auto simp: attempt_def intro: ApplyBlock_accounted RollbackTo_accounted)
qed

section \<open>The command\<close>

lemma backfill_loop_derives:
  assumes "\<forall>h \<in> set hs. \<exists>b. tget (blocks d) h = Some b \<and> derives s d h (b_height b) (A h)"
    and "distinct hs" "twf t" "\<forall>h \<in> set hs. tget t h = None \<or> tget t h = Some (A h)"
  shows "\<exists>t'. backfill_loop s hs res (d\<lparr>block_accounting := t\<rparr>) = (Inr (),
      \<lparr>TotalBlocks = TotalBlocks res + int (length hs),
       Inserted = Inserted res + int (length (filter (\<lambda>h. tget t h = None) hs)),
       Verified = Verified res + int (length (filter (\<lambda>h. tget t h \<noteq> None) hs))\<rparr>,
      d\<lparr>block_accounting := t'\<rparr>)
    \<and> twf t' \<and> (\<forall>h. tget t' h = (if h \<in> set hs then Some (A h) else tget t h))
    \<and> length t' = length t + length (filter (\<lambda>h. tget t h = None) hs)
    \<and> ((\<forall>h \<in> set hs. tget t h \<noteq> None) \<longrightarrow> t' = t)"
  using assms
proof (induction hs arbitrary: t res)
  case Nil
  then show ?case by (intro exI [of _ t]) simp
next
  case (Cons h hs)
  let ?d = "d\<lparr>block_accounting := t\<rparr>"
  obtain b where b: "tget (blocks d) h = Some b" "derives s d h (b_height b) (A h)"
    using Cons.prems(1) by auto
  have der: "derives s ?d = derives s d" by (rule derives_tables) simp_all
  have one: "BackfillBlockAccounting s h ?d = (case tget t h of
       None \<Rightarrow> Inr (True, d\<lparr>block_accounting := tinsert h (A h) t\<rparr>)
     | Some old \<Rightarrow> if old = A h then Inr (False, ?d) else Inl (BackfillStore ErrImmutableConflict))"
    using BackfillBlockAccounting_derives [of s ?d h b "A h"] b
    by (cases "tget t h") (simp_all add: der)
  have hs: "\<forall>h \<in> set hs. \<exists>b. tget (blocks d) h = Some b \<and> derives s d h (b_height b) (A h)" "distinct hs"
    "h \<notin> set hs"
    using Cons.prems(1,2) by simp_all
  show ?case
  proof (cases "tget t h")
    case None
    let ?t = "tinsert h (A h) t"
    have get: "tget ?t k = (if k = h then Some (A h) else tget t k)" for k by (rule tget_tinsert [OF None])
    have w: "twf ?t" by (rule twf_simps(1) [OF Cons.prems(3) None])
    have prem: "\<forall>k \<in> set hs. tget ?t k = None \<or> tget ?t k = Some (A k)"
      using Cons.prems(4) by (simp add: get)
    have fil: "filter (\<lambda>k. tget ?t k = None) hs = filter (\<lambda>k. tget t k = None) hs"
      "filter (\<lambda>k. tget ?t k \<noteq> None) hs = filter (\<lambda>k. tget t k \<noteq> None) hs"
      using hs(3) by (auto simp: get intro!: filter_cong)
    have len: "length ?t = Suc (length t)" by (simp add: tinsert_def)
    obtain t' where t': "backfill_loop s hs (res\<lparr>TotalBlocks := TotalBlocks res + 1, Inserted := Inserted res + 1\<rparr>)
        (d\<lparr>block_accounting := ?t\<rparr>) = (Inr (),
      \<lparr>TotalBlocks = TotalBlocks res + 1 + int (length hs),
       Inserted = Inserted res + 1 + int (length (filter (\<lambda>h. tget t h = None) hs)),
       Verified = Verified res + int (length (filter (\<lambda>h. tget t h \<noteq> None) hs))\<rparr>,
      d\<lparr>block_accounting := t'\<rparr>)" "twf t'" "\<forall>k. tget t' k = (if k \<in> set hs then Some (A k) else tget ?t k)"
      "length t' = length ?t + length (filter (\<lambda>h. tget t h = None) hs)"
      using Cons.IH [OF hs(1,2) w prem, of "res\<lparr>TotalBlocks := TotalBlocks res + 1, Inserted := Inserted res + 1\<rparr>"]
      unfolding fil by auto
    show ?thesis
    proof (intro exI [of _ t'] conjI)
      show "\<forall>k. tget t' k = (if k \<in> set (h # hs) then Some (A k) else tget t k)"
        using t'(3) get by simp
    qed (use t'(1,2,4) None len in \<open>simp_all add: one\<close>)
  next
    case (Some old)
    then have old: "old = A h" using Cons.prems(4) by simp
    obtain t' where t': "backfill_loop s hs (res\<lparr>TotalBlocks := TotalBlocks res + 1, Verified := Verified res + 1\<rparr>)
        (d\<lparr>block_accounting := t\<rparr>) = (Inr (),
      \<lparr>TotalBlocks = TotalBlocks res + 1 + int (length hs),
       Inserted = Inserted res + int (length (filter (\<lambda>h. tget t h = None) hs)),
       Verified = Verified res + 1 + int (length (filter (\<lambda>h. tget t h \<noteq> None) hs))\<rparr>,
      d\<lparr>block_accounting := t'\<rparr>)" "twf t'" "\<forall>k. tget t' k = (if k \<in> set hs then Some (A k) else tget t k)"
      "length t' = length t + length (filter (\<lambda>h. tget t h = None) hs)"
      "(\<forall>h \<in> set hs. tget t h \<noteq> None) \<longrightarrow> t' = t"
      using Cons.IH [OF hs(1,2) Cons.prems(3),
          of "res\<lparr>TotalBlocks := TotalBlocks res + 1, Verified := Verified res + 1\<rparr>"] Cons.prems(4) by auto
    show ?thesis
    proof (intro exI [of _ t'] conjI)
      show "\<forall>k. tget t' k = (if k \<in> set (h # hs) then Some (A k) else tget t k)"
        using t'(3) Some old hs(3) by auto
      show "(\<forall>k \<in> set (h # hs). tget t k \<noteq> None) \<longrightarrow> t' = t" using t'(5) by simp
    qed (use t'(1,2,4) Some old in \<open>simp_all add: one\<close>)
  qed
qed

lemma blocks_in_order_keys:
  assumes "twf (blocks d)"
  shows "set (blocks_in_order d) = dom (tget (blocks d))" "distinct (blocks_in_order d)"
    "length (blocks_in_order d) = length (blocks d)"
proof -
  have "set (blocks_in_order d) = fst ` set (blocks d)" by (simp add: blocks_in_order_def)
  also have "\<dots> = dom (tget (blocks d))" by (simp add: tget_def [abs_def] dom_map_of_conv_image_fst)
  finally show "set (blocks_in_order d) = dom (tget (blocks d))" .
  show "length (blocks_in_order d) = length (blocks d)" by (simp add: blocks_in_order_def)
  have "mset (blocks_in_order d) = mset (map fst (blocks d))" by (simp add: blocks_in_order_def)
  then show "distinct (blocks_in_order d)"
    using assms mset_eq_imp_distinct_iff unfolding twf_def by blast
qed

text \<open>The present rows of a table among the keys that cover it, and the others.\<close>

lemma present_count:
  assumes "twf t" "distinct hs" "dom (tget t) \<subseteq> set hs"
  shows "length (filter (\<lambda>h. tget t h \<noteq> None) hs) = length t"
    and "int (length (filter (\<lambda>h. tget t h = None) hs)) = int (length hs) - int (length t)"
proof -
  have "length (filter (\<lambda>h. tget t h \<noteq> None) hs) = card (dom (tget t))"
    using distinct_card [OF distinct_filter [OF assms(2)], of "\<lambda>h. tget t h \<noteq> None"] assms(3)
    by (simp add: Int_def [symmetric] inf_absorb2 dom_def) (smt (verit) Collect_cong assms(3) domI subsetD)
  also have "card (dom (tget t)) = length t"
    using assms(1) by (simp add: tget_def [abs_def] dom_map_of_conv_image_fst twf_def distinct_card
        flip: set_map)
  finally show "length (filter (\<lambda>h. tget t h \<noteq> None) hs) = length t" .
  then show "int (length (filter (\<lambda>h. tget t h = None) hs)) = int (length hs) - int (length t)"
    using sum_length_filter_compl [of "\<lambda>h. tget t h = None" hs] by simp
qed

lemma CheckAccountingCompleteness_complete:
  assumes "\<And>h r. (h, r) \<in> set (blocks d) \<Longrightarrow> tget t h \<noteq> None" "int (length t) = int (length (blocks d))"
  shows "CheckAccountingCompleteness (d\<lparr>block_accounting := t\<rparr>)
    = \<lparr>BlockCount = int (length (blocks d)), AccountingCount = int (length (blocks d)), MissingCount = 0\<rparr>"
proof -
  have "filter (\<lambda>(h, _). tget t h = None) (blocks d) = []"
    using assms(1) by (force simp: filter_empty_conv)
  then show ?thesis using assms(2) by (simp add: CheckAccountingCompleteness_def tcount_def)
qed

text \<open>
  The accounting backfill reconstructs what live indexing wrote: in a reachable database delete
  any accounting rows and run the backfill with the lock free. It succeeds for every stored block,
  canonical or orphaned, inserts exactly the missing rows, verifies the others, and leaves the
  accounting table with the rows the indexer had written; the completeness report then counts none
  missing. Nothing else changes, and on the undamaged database nothing at all.
\<close>

theorem BackfillAccounting_reconstructs:
  assumes "d = run s ops init_db" "free_lock backfillAccountingAdvisoryLockNamespace f sn"
    and "twf t" "tget t \<subseteq>\<^sub>m tget (block_accounting d)"
  shows "\<exists>t'. BackfillAccounting s f sn (d\<lparr>block_accounting := t\<rparr>) = (Inr (),
      \<lparr>TotalBlocks = int (length (blocks d)), Inserted = int (length (blocks d)) - int (length t),
       Verified = int (length t)\<rparr>, d\<lparr>block_accounting := t'\<rparr>)
    \<and> tget t' = tget (block_accounting d) \<and> (t = block_accounting d \<longrightarrow> t' = t)
    \<and> CheckAccountingCompleteness (d\<lparr>block_accounting := t'\<rparr>)
      = \<lparr>BlockCount = int (length (blocks d)), AccountingCount = int (length (blocks d)), MissingCount = 0\<rparr>"
proof -
  have "accounted s d" using accounting.reachable [of s ops] assms(1) by simp
  note inv = accountedD [OF this]
  let ?A = "\<lambda>h. the (tget (block_accounting d) h)"
  let ?hs = "blocks_in_order d"
  note hs = blocks_in_order_keys [OF inv(2)]
  have row: "\<exists>b. tget (blocks d) h = Some b \<and> derives s d h (b_height b) (?A h)"
    "tget (block_accounting d) h = Some (?A h)" if h: "h \<in> set ?hs" for h
  proof -
    obtain b where "tget (blocks d) h = Some b" using h unfolding hs(1) by blast
    then show "\<exists>b. tget (blocks d) h = Some b \<and> derives s d h (b_height b) (?A h)"
      "tget (block_accounting d) h = Some (?A h)" using inv(4) by fastforce+
  qed
  have sub: "tget t h = None \<or> tget t h = tget (block_accounting d) h" for h
    using assms(4) by (auto simp: map_le_def dom_def)
  have dt: "dom (tget t) \<subseteq> set ?hs"
  proof
    fix h assume "h \<in> dom (tget t)"
    then have "tget (block_accounting d) h \<noteq> None" using sub [of h] by auto
    then have "tget (blocks d) h \<noteq> None" by (rule inv(5))
    then show "h \<in> set ?hs" unfolding hs(1) by blast
  qed
  obtain t' where t': "backfill_loop s ?hs \<lparr>TotalBlocks = 0, Inserted = 0, Verified = 0\<rparr>
      (d\<lparr>block_accounting := t\<rparr>) = (Inr (),
      \<lparr>TotalBlocks = int (length ?hs), Inserted = int (length (filter (\<lambda>h. tget t h = None) ?hs)),
       Verified = int (length (filter (\<lambda>h. tget t h \<noteq> None) ?hs))\<rparr>, d\<lparr>block_accounting := t'\<rparr>)"
    "twf t'" "\<forall>h. tget t' h = (if h \<in> set ?hs then Some (?A h) else tget t h)"
    "length t' = length t + length (filter (\<lambda>h. tget t h = None) ?hs)"
    "(\<forall>h \<in> set ?hs. tget t h \<noteq> None) \<longrightarrow> t' = t"
    using backfill_loop_derives [of ?hs d s ?A t "\<lparr>TotalBlocks = 0, Inserted = 0, Verified = 0\<rparr>"]
      row sub hs(2) assms(3) by auto
  note ver = present_count(1) [OF assms(3) hs(2) dt] and ins = present_count(2) [OF assms(3) hs(2) dt, unfolded hs(3)]
  have get: "tget t' = tget (block_accounting d)"
  proof
    fix h show "tget t' h = tget (block_accounting d) h"
    proof (cases "h \<in> set ?hs")
      case True
      then show ?thesis using t'(3) row(2) [of h] by simp
    next
      case False
      then have "tget (blocks d) h = None" unfolding hs(1) by blast
      then have none: "tget (block_accounting d) h = None" using inv(5) [of h] by fast
      then have "tget t h = None" using sub [of h] by metis
      then show ?thesis using t'(3) False none by simp
    qed
  qed
  have "BackfillAccounting s f sn (d\<lparr>block_accounting := t\<rparr>) = (Inr (),
      \<lparr>TotalBlocks = int (length (blocks d)), Inserted = int (length (blocks d)) - int (length t),
       Verified = int (length t)\<rparr>, d\<lparr>block_accounting := t'\<rparr>)"
    using t'(1) ver ins hs(3)
    by (simp add: BackfillAccounting_def free_lock_try [OF assms(2)] blocks_in_order_def)
  moreover have "t = block_accounting d \<longrightarrow> t' = t" using t'(5) row(2) by auto
  moreover have "CheckAccountingCompleteness (d\<lparr>block_accounting := t'\<rparr>)
      = \<lparr>BlockCount = int (length (blocks d)), AccountingCount = int (length (blocks d)), MissingCount = 0\<rparr>"
  proof (rule CheckAccountingCompleteness_complete)
    fix h r assume "(h, r) \<in> set (blocks d)"
    then have "tget (blocks d) h = Some r" by (simp add: in_set_tget [OF inv(2)])
    then have "h \<in> set ?hs" unfolding hs(1) by blast
    from row(2) [OF this] show "tget t' h \<noteq> None" unfolding get by (metis option.distinct(1))
  next
    show "int (length t') = int (length (blocks d))" using t'(4) ins by simp
  qed
  ultimately show ?thesis using get by blast
qed

end
