(* ===== verification/BackfillRollup.thy ===== *)
theory BackfillRollup
  imports BackfillFacts StoreRollup
begin

text \<open>
  \<open>BackfillSupplyRollup\<close> against the live rows. Each rollup row adds its own block's facts to its
  parent's row; along the canonical chain from genesis these running totals are the window sums of
  the staging query.
\<close>

section \<open>Each row extends its parent's\<close>

definition extend :: "rollup_row \<Rightarrow> acc_row \<Rightarrow> int \<Rightarrow> rollup_row" where
  "extend p a ex =
    \<lparr>r_excluded = ex, r_cum_subsidy = r_cum_subsidy p + c_subsidy a, r_cum_fee = r_cum_fee p + c_fee a,
     r_cum_coinbase = r_cum_coinbase p + c_coinbase a, r_cum_unclaimed = r_cum_unclaimed p + c_unclaimed a,
     r_cum_excluded = r_cum_excluded p + ex,
     r_cum_utxo = (r_cum_coinbase p + c_coinbase a) - (r_cum_fee p + c_fee a) - (r_cum_excluded p + ex)\<rparr>"

definition acc_fits :: "acc_row \<Rightarrow> bool" where
  "acc_fits a \<longleftrightarrow> in_i64 (c_subsidy a) \<and> in_i64 (c_fee a) \<and> in_i64 (c_coinbase a) \<and> in_i64 (c_unclaimed a)"

lemma acc_checks_fits: "acc_checks a \<Longrightarrow> acc_fits a"
  unfolding acc_checks_def acc_fits_def i64_defs by linarith

lemma zero_rollup_fits: "rollup_fits zero_rollup"
  by (simp add: rollup_fits_def zero_rollup_def)

lemma next_rollup_extend:
  assumes "next_rollup p facts ex = Inr r" "rollup_fits p" "acc_fits (acc_row_of facts)" "in_i64 ex"
  shows "r = extend p (acc_row_of facts) ex" "rollup_fits r"
proof -
  obtain cs cf cc cu ce x u where a: "addChecked (r_cum_subsidy p) (SubsidySatoshis facts) = Some cs"
      "addChecked (r_cum_fee p) (FeeSatoshis facts) = Some cf"
      "addChecked (r_cum_coinbase p) (CoinbaseOutputSatoshis facts) = Some cc"
      "addChecked (r_cum_unclaimed p) (UnclaimedRewardSatoshis facts) = Some cu"
      "addChecked (r_cum_excluded p) ex = Some ce"
    and s: "subChecked cc cf = Some x" "subChecked x ce = Some u"
    and r: "r = \<lparr>r_excluded = ex, r_cum_subsidy = cs, r_cum_fee = cf, r_cum_coinbase = cc,
      r_cum_unclaimed = cu, r_cum_excluded = ce, r_cum_utxo = u\<rparr>"
    using assms(1)
    by (auto simp: next_rollup_def Let_def result_simps of_option_def split: option.splits if_splits)
  have p: "in_i64 (r_cum_subsidy p)" "in_i64 (r_cum_fee p)" "in_i64 (r_cum_coinbase p)"
    "in_i64 (r_cum_unclaimed p)" "in_i64 (r_cum_excluded p)"
    using assms(2) by (simp_all add: rollup_fits_def)
  have f: "in_i64 (SubsidySatoshis facts)" "in_i64 (FeeSatoshis facts)"
    "in_i64 (CoinbaseOutputSatoshis facts)" "in_i64 (UnclaimedRewardSatoshis facts)"
    using assms(3) by (simp_all add: acc_fits_def acc_row_of_def)
  note e = addChecked_SomeD [OF a(1) p(1) f(1)] addChecked_SomeD [OF a(2) p(2) f(2)]
    addChecked_SomeD [OF a(3) p(3) f(3)] addChecked_SomeD [OF a(4) p(4) f(4)]
    addChecked_SomeD [OF a(5) p(5) assms(4)]
  note x = subChecked_SomeD [OF s(1) e(6,4)]
  note u = subChecked_SomeD [OF s(2) x(2) e(10)]
  show "rollup_fits r" using e u(2) assms(4) by (simp add: rollup_fits_def r)
  show "r = extend p (acc_row_of facts) ex"
    by (simp add: r extend_def acc_row_of_def e(1,3,5,7,9) u(1) x(1))
qed

section \<open>Excluded outputs of a stored block\<close>

definition excluded_row :: "int \<Rightarrow> out_row \<Rightarrow> int" where
  "excluded_row height o' = (if sql_excluded height (o_script o') then o_value o' else 0)"

lemma excluded_in_block_rows: "excluded_in_block d h height = sum_list (concat (map
    (\<lambda>(_, bt). map (\<lambda>(_, o'). excluded_row height o') (rows_of (transaction_outputs d) (bt_txid bt)))
    (rows_of (block_transactions d) h)))"
proof -
  have "map (\<lambda>(op, o'). if sql_excluded height (o_script o') then o_value o' else 0)
      (filter (\<lambda>(op, _). fst op = x) t) = map (\<lambda>(_, o'). excluded_row height o') (rows_of t x)" for t x
    by (simp add: rows_of_def excluded_row_def split_beta comp_def)
  then have "excluded_in_block d h height = sum_list (concat (map (\<lambda>(k, bt). if fst k = h then
      map (\<lambda>(_, o'). excluded_row height o') (rows_of (transaction_outputs d) (bt_txid bt)) else [])
      (block_transactions d)))"
    unfolding excluded_in_block_def
    by (intro arg_cong [where f = "\<lambda>x. sum_list (concat x)"] map_cong) (auto simp: split_beta)
  then show ?thesis by (simp only: rows_of_concat)
qed

text \<open>The byte test of the query is \<open>script.IsUnspendable\<close>.\<close>

lemma sql_excluded_iff: "sql_excluded height s \<longleftrightarrow> height = 0 \<or> IsUnspendable s"
proof -
  have "unat w = 106 \<longleftrightarrow> w = opReturn" for w :: "8 word"
    by (simp add: word_unat_eq_iff)
  then show ?thesis by (auto simp: sql_excluded_def IsUnspendable_def)
qed

lemma excluded_of_rows:
  assumes "list_all2 (tx_stored e) txs fees"
  shows "sum_list (concat (map (\<lambda>(_, bt). map (\<lambda>(_, o'). excluded_row height o')
      (rows_of (transaction_outputs e) (bt_txid bt))) (enumerate n (map bt_row_of txs))))
    = tx_sum (excluded_value (height = 0)) txs"
  using assms
proof (induction txs fees arbitrary: n rule: list_all2_induct)
  case (Cons x txs f fees)
  have "rows_of (transaction_outputs e) (bt_txid (bt_row_of x)) = enumerate 0 (map out_row_of (tx_Outputs x))"
    using Cons.hyps(1) by (simp add: tx_stored_def bt_row_of_def)
  moreover have "map (\<lambda>(_, o'). excluded_row height o') (enumerate m (map out_row_of outs))
      = map (excluded_value (height = 0)) outs" for m outs
    by (induction outs arbitrary: m)
      (simp_all add: excluded_row_def excluded_value_def output_excluded_def sql_excluded_iff out_row_of_def)
  ultimately show ?case using Cons.IH [of "Suc n"] by simp
qed simp

lemma excluded_in_block_kept:
  assumes "source_ok d" "source_kept bh d e"
    and "rows_of (block_transactions e) h = rows_of (block_transactions d) h"
  shows "excluded_in_block e h height = excluded_in_block d h height"
proof -
  have "rows_of (transaction_outputs e) (bt_txid r) = rows_of (transaction_outputs d) (bt_txid r)"
    if "(i, r) \<in> set (rows_of (block_transactions d) h)" for i r
    using source_okD(5) [OF assms(1) that] assms(2) by (simp add: source_kept_def)
  then show ?thesis
    unfolding excluded_in_block_rows assms(3)
    by (intro arg_cong [where f = "\<lambda>x. sum_list (concat x)"] map_cong) auto
qed

section \<open>The invariant\<close>

definition rollup_parent_row :: "db \<Rightarrow> block_row \<Rightarrow> rollup_row \<Rightarrow> bool" where
  "rollup_parent_row d b p \<longleftrightarrow> (if b_height b = 0 then p = zero_rollup
    else \<exists>k. b_prev b = Some k \<and> tget (block_supply_rollup d) k = Some p)"

definition rollup_derived :: "db \<Rightarrow> string \<Rightarrow> rollup_row \<Rightarrow> bool" where
  "rollup_derived d k row \<longleftrightarrow> k \<noteq> [] \<and> rollup_fits row \<and> rollup_checks row
    \<and> (\<exists>b a p. tget (blocks d) k = Some b \<and> tget (block_accounting d) k = Some a
        \<and> rollup_parent_row d b p \<and> row = extend p a (excluded_in_block d k (b_height b)))"

definition rollup_chained :: "db \<Rightarrow> bool" where
  "rollup_chained d \<longleftrightarrow> (\<forall>k row. tget (block_supply_rollup d) k = Some row \<longrightarrow> rollup_derived d k row)"

lemma rollup_derived_mono:
  assumes "rollup_derived d k row" "excluded_in_block e k = excluded_in_block d k"
    and "\<And>b. tget (blocks d) k = Some b \<Longrightarrow> \<exists>b'. tget (blocks e) k = Some b' \<and> b_height b' = b_height b \<and> b_prev b' = b_prev b"
    and "tget (block_accounting d) \<subseteq>\<^sub>m tget (block_accounting e)"
    and "tget (block_supply_rollup d) \<subseteq>\<^sub>m tget (block_supply_rollup e)"
  shows "rollup_derived e k row"
proof -
  obtain b a p where b: "k \<noteq> []" "rollup_fits row" "rollup_checks row"
    "tget (blocks d) k = Some b" "tget (block_accounting d) k = Some a"
    "rollup_parent_row d b p" "row = extend p a (excluded_in_block d k (b_height b))"
    using assms(1) unfolding rollup_derived_def by blast
  obtain b' where b': "tget (blocks e) k = Some b'" "b_height b' = b_height b" "b_prev b' = b_prev b"
    using assms(3) [OF b(4)] by blast
  have "tget (block_accounting e) k = Some a" using assms(4) b(5) by (auto simp: map_le_def dom_def)
  moreover have "rollup_parent_row e b' p"
    using b(6) assms(5) unfolding rollup_parent_row_def b'(2,3) by (auto simp: map_le_def dom_def split: if_splits)
  ultimately show ?thesis
    unfolding rollup_derived_def assms(2) using b b' by metis
qed

lemma ApplyBlock_rollup_chained:
  assumes ap: "ApplyBlock s b d = Inr e" and acc: "accounted s d" and ch: "rollup_chained d" and wf: "db_wf d"
  shows "rollup_chained e"
proof -
  let ?h = "blk_Hash b"
  note inv = accountedD [OF acc]
  note chain = ApplyBlock_chain [OF ap inv(2)]
  have kept: "rows_kept d e" using immutable.ApplyBlock [OF ap] wf by (simp add: keeps_def)
  obtain facts d4 d5 cb txs fees where R: "derives s e ?h (blk_Height b) (acc_row_of facts)"
    "twf (block_accounting e)"
    "tget (block_accounting e) = (tget (block_accounting d))(?h \<mapsto> acc_row_of facts)"
    "source_ok e" "source_kept ?h d e"
    "\<forall>h. tget (blocks d) h \<noteq> None \<longrightarrow> rows_of (block_transactions e) h = rows_of (block_transactions d) h"
    "applySupplyRollup b (sync_state d) facts d4 = Inr d5" "blocks d4 = blocks e"
    "block_supply_rollup d4 = block_supply_rollup d" "block_supply_rollup e = block_supply_rollup d5"
    "blk_Transactions b = cb # txs" "list_all2 (tx_stored e) (cb # txs) fees"
    "rows_of (block_transactions e) ?h = enumerate 0 (map bt_row_of (cb # txs))"
    "in_i64 (FeeSatoshis facts)" "in_i64 (CoinbaseOutputSatoshis facts)"
    "acc_checks (acc_row_of facts)"
    using ap inv(1-3) by (rule ApplyBlock_derives)
  obtain r where r: "tget (blocks e) ?h = Some r" "b_height r = blk_Height b"
    "b_prev r = (if blk_PreviousHash b \<noteq> [] then Some (blk_PreviousHash b) else None)"
    using chain(2) same_block_fields by (fastforce simp: canonical_def)
  have le: "tget (block_accounting d) \<subseteq>\<^sub>m tget (block_accounting e)"
    "tget (block_supply_rollup d) \<subseteq>\<^sub>m tget (block_supply_rollup e)"
    using kept by (simp_all add: rows_kept_def)
  have old: "rollup_derived e k row" if row: "tget (block_supply_rollup d) k = Some row" for k row
  proof -
    have dr: "rollup_derived d k row" using ch row by (simp add: rollup_chained_def)
    then have k: "tget (blocks d) k \<noteq> None" by (auto simp: rollup_derived_def)
    have "excluded_in_block e k = excluded_in_block d k"
      by (rule ext, rule excluded_in_block_kept [OF inv(1) R(5)]) (use R(6) k in blast)
    moreover have "\<exists>b'. tget (blocks e) k = Some b' \<and> b_height b' = b_height x \<and> b_prev b' = b_prev x"
      if "tget (blocks d) k = Some x" for x
    proof -
      obtain y where y: "tget (blocks e) k = Some y" "same_modulo_canonical x y"
        using kept \<open>tget (blocks d) k = Some x\<close> unfolding rows_kept_def by blast
      have "b_height (y\<lparr>b_canonical := c\<rparr>) = b_height y" "b_prev (y\<lparr>b_canonical := c\<rparr>) = b_prev y" for c
        by simp_all
      then show ?thesis using y unfolding same_modulo_canonical_def by metis
    qed
    ultimately show ?thesis using rollup_derived_mono [OF dr _ _ le] by blast
  qed
  have wr: "twf (block_supply_rollup d4)" using wf R(9) by (simp add: db_wf_def)
  show ?thesis
    using R(7) wr
  proof (cases rule: applySupplyRollup_cases)
    case none
    then show ?thesis using old R(9,10) by (simp add: rollup_chained_def)
  next
    case (row p ex r' t)
    have g: "tget (block_supply_rollup e) = (tget (block_supply_rollup d))(?h \<mapsto> r')"
      using row(4,5) R(9,10) by simp
    have checks: "rollup_checks r'"
    proof -
      obtain f t' where "insertOrVerifyIdempotent (rollup_checks r') (tget (blocks d4) ?h \<noteq> None) ?h r'
        (\<lambda>old. old = r') (block_supply_rollup d4) = Inr (f, t')"
        using R(7) row(1-3) by (auto simp: applySupplyRollup_def result_simps)
      then show ?thesis by (auto elim: insertOrVerify_Inr)
    qed
    have ex: "ex = tx_sum (excluded_value (blk_Height b = 0)) (cb # txs)" "in_i64 ex"
      using localExcluded_sum [OF row(2)] unfolding R(11) by blast+
    have exb: "excluded_in_block e ?h (b_height r) = ex"
      unfolding excluded_in_block_rows R(13) r(2) ex(1) by (rule excluded_of_rows [OF R(12)])
    have par: "rollup_parent_row e r p \<and> rollup_fits p"
    proof (cases "blk_Height b = 0")
      case True
      then show ?thesis using row(1) zero_rollup_fits r(2) by (simp add: rollup_parent_def rollup_parent_row_def)
    next
      case False
      then have p: "tget (block_supply_rollup d) (blk_PreviousHash b) = Some p"
        using row(1) R(9) by (auto simp: rollup_parent_def split: option.splits if_splits)
      then have "rollup_derived d (blk_PreviousHash b) p" using ch by (simp add: rollup_chained_def)
      then have "blk_PreviousHash b \<noteq> []" "rollup_fits p" by (simp_all add: rollup_derived_def)
      moreover have "tget (block_supply_rollup e) (blk_PreviousHash b) = Some p"
        using p le(2) by (auto simp: map_le_def dom_def)
      ultimately show ?thesis using False r(2,3) by (simp add: rollup_parent_row_def)
    qed
    have ext: "r' = extend p (acc_row_of facts) ex" "rollup_fits r'"
      using next_rollup_extend [OF row(3) conjunct2 [OF par] acc_checks_fits [OF R(16)] ex(2)] by simp_all
    have "?h \<noteq> []" using chain(8) by (auto simp: block_checks_def is_hash64_def)
    then have new: "rollup_derived e ?h r'"
      unfolding rollup_derived_def using ext checks r(1) R(3) par exb by auto
    show ?thesis unfolding rollup_chained_def g using new old by simp
  qed
qed

lemma RollbackTo_rollup_chained:
  assumes rb: "RollbackTo s h d = Inr e" and w: "twf (blocks d)" and ch: "rollup_chained d"
  shows "rollup_chained e"
proof -
  note src = RollbackTo_source [OF rb] and roll = RollbackTo_tables(1) [OF rb]
  obtain a where "canonical d h a"
    and b: "\<And>k. tget (blocks e) k = map_option (demote_above (b_height a)) (tget (blocks d) k)"
    using RollbackTo_chain [OF rb w] by metis
  have "excluded_in_block e k = excluded_in_block d k" for k
    by (simp add: fun_eq_iff excluded_in_block_rows src)
  moreover have "\<exists>b'. tget (blocks e) k = Some b' \<and> b_height b' = b_height x \<and> b_prev b' = b_prev x"
    if "tget (blocks d) k = Some x" for k x
    using that b [of k] by (simp add: demote_above_def)
  ultimately have "rollup_derived e k row" if "rollup_derived d k row" for k row
    using rollup_derived_mono [OF that] by (simp add: src roll)
  then show ?thesis using ch by (simp add: rollup_chained_def roll)
qed

definition backfillable :: "store \<Rightarrow> db \<Rightarrow> bool" where
  "backfillable s d \<longleftrightarrow> db_wf d \<and> accounted s d \<and> rollup_chained d"

interpretation chained: store_invariant s "\<lambda>_ _. True" "backfillable s" for s
proof
  have "rollup_chained init_db" by (simp add: rollup_chained_def init_db_def tget_def)
  then show "backfillable s init_db"
    using accounting.start init_db_wf by (simp add: backfillable_def)
  fix d op e assume i: "backfillable s d" "attempt s op d = Inr e"
  then have "db_wf e" using immutable.attempt [OF i(2)] by (simp add: backfillable_def keeps_def)
  moreover have "accounted s e"
    by (rule accounting.step [OF _ TrueI i(2)]) (use i(1) in \<open>simp add: backfillable_def\<close>)
  moreover have "rollup_chained e"
    using i accountedD(2) [of s d]
    by (cases op) (auto simp: backfillable_def attempt_def
        intro: ApplyBlock_rollup_chained RollbackTo_rollup_chained)
  ultimately show "backfillable s e" by (simp add: backfillable_def)
qed

end
