(* ===== verification/BackfillRollupRuns.thy ===== *)
theory BackfillRollupRuns
  imports BackfillRollup
begin

text \<open>
  The window sums of the staging query along a canonical chain from genesis, and the command on a
  reachable database: every check passes and the missing rows come back.
\<close>

section \<open>Lists\<close>

lemma min_option_Min: "xs \<noteq> [] \<Longrightarrow> min_option xs = Some (Min (set xs))"
proof (cases xs)
  case (Cons x ys)
  have "foldl min x ys = fold min ys x"
    by (simp add: foldl_conv_fold min.commute)
  then show ?thesis using Cons Min.set_eq_fold [of x ys] by (simp add: min_option_def)
qed simp

lemma max_option_Max: "xs \<noteq> [] \<Longrightarrow> max_option xs = Some (Max (set xs))"
proof (cases xs)
  case (Cons x ys)
  have "foldl max x ys = fold max ys x"
    by (simp add: foldl_conv_fold max.commute)
  then show ?thesis using Cons Max.set_eq_fold [of x ys] by (simp add: max_option_def)
qed simp

lemma find_unique:
  assumes "x \<in> set xs" "P x" "\<And>y. y \<in> set xs \<Longrightarrow> P y \<Longrightarrow> y = x"
  shows "List.find P xs = Some x"
  using assms
proof (induction xs)
  case (Cons a xs)
  show ?case
  proof (cases "P a")
    case True
    then have "a = x" using Cons.prems(3) [of a] by simp
    then show ?thesis using True by simp
  next
    case False
    then have "x \<in> set xs" using Cons.prems(1,2) by auto
    from Cons.IH [OF this Cons.prems(2) Cons.prems(3) [OF list.set_intros(2)]] False
    show ?thesis by simp
  qed
qed simp

lemma filter_unique:
  assumes "distinct xs" "x \<in> set xs" "\<And>y. y \<in> set xs \<Longrightarrow> P y \<longleftrightarrow> y = x"
  shows "filter P xs = [x]"
  using assms
proof (induction xs)
  case (Cons a xs)
  show ?case
  proof (cases "a = x")
    case True
    then have "\<forall>y \<in> set xs. \<not> P y" using Cons.prems by auto
    then show ?thesis using True Cons.prems(3) [of a] by simp
  next
    case False
    then show ?thesis using Cons by auto
  qed
qed simp

lemma sum_filter_split:
  fixes f :: "'a \<Rightarrow> int"
  assumes "\<And>x. x \<in> set xs \<Longrightarrow> P x \<longleftrightarrow> Q x \<or> R x" "\<And>x. x \<in> set xs \<Longrightarrow> \<not> (Q x \<and> R x)"
  shows "sum_list (map f (filter P xs)) = sum_list (map f (filter Q xs)) + sum_list (map f (filter R xs))"
  using assms by (induction xs) auto

section \<open>The canonical rows of a chain from genesis\<close>

lemma canonical_rows_iff: "twf (blocks d) \<Longrightarrow> (k, r) \<in> set (canonical_rows d) \<longleftrightarrow> canonical d k r"
  by (simp add: canonical_rows_def canonical_def in_set_tget)

lemma canonical_rows_distinct:
  assumes "twf (blocks d)"
  shows "distinct (map fst (canonical_rows d))" "distinct (canonical_rows d)"
proof -
  show "distinct (map fst (canonical_rows d))"
    using assms by (simp add: canonical_rows_def twf_def distinct_map_filter)
  then show "distinct (canonical_rows d)" by (simp add: distinct_map)
qed


lemma canonical_block_heights:
  assumes path: "chain_path d 0 h tip" and w: "twf (blocks d)"
  shows "set (map (\<lambda>(_, r). b_height r) (canonical_rows d)) = {0..h}"
    "distinct (map (\<lambda>(_, r). b_height r) (canonical_rows d))"
    "int (length (canonical_rows d)) = h + 1"
proof -
  note p = chain_pathD [OF path] and iff = canonical_rows_iff [OF w]
  show S: "set (map (\<lambda>(_, r). b_height r) (canonical_rows d)) = {0..h}"
  proof (intro equalityI subsetI)
    fix n assume "n \<in> set (map (\<lambda>(_, r). b_height r) (canonical_rows d))"
    then obtain k r where "canonical d k r" "n = b_height r" using iff by auto
    then show "n \<in> {0..h}" using p(6,7) by simp
  next
    fix n assume "n \<in> {0..h}"
    then obtain k r where "canonical d k r" "b_height r = n" using chain_path_full [OF path, of n] by auto
    then show "n \<in> set (map (\<lambda>(_, r). b_height r) (canonical_rows d))" using iff by force
  qed
  have "inj_on (\<lambda>(_, r). b_height r) (set (canonical_rows d))"
  proof (rule inj_onI)
    fix x y assume a: "x \<in> set (canonical_rows d)" "y \<in> set (canonical_rows d)"
      "(\<lambda>(_, r). b_height r) x = (\<lambda>(_, r). b_height r) y"
    obtain k r k' r' where xy: "x = (k, r)" "y = (k', r')" by force
    then have c: "canonical d k r" "canonical d k' r'" "b_height r = b_height r'" using a iff by auto
    then have "k = k'" using p(8) by blast
    then show "x = y" using c xy by (simp add: canonical_def)
  qed
  then show D: "distinct (map (\<lambda>(_, r). b_height r) (canonical_rows d))"
    using canonical_rows_distinct(2) [OF w] by (simp add: distinct_map)
  have "length (canonical_rows d) = card {0..h}"
    using distinct_card [OF D] unfolding S by simp
  then show "int (length (canonical_rows d)) = h + 1" using p(1,2) by simp
qed

lemma shape_ok_on_chain:
  assumes path: "chain_path d 0 h tip" and w: "twf (blocks d)" and h: "h < max_i64"
  shows "check_shape h d = Inr ()"
proof -
  let ?H = "map (\<lambda>(_, r). b_height r) (canonical_rows d)"
  note H = canonical_block_heights [OF path w] and p = chain_pathD(1-3) [OF path]
  have ne: "?H \<noteq> []" using H(3) p by auto
  have "Min {0..h} = 0" "Max {0..h} = h" using p(2) by (auto intro: Min_eqI Max_eqI)
  then have "min_option ?H = Some 0" "max_option ?H = Some h"
    using min_option_Min [OF ne] max_option_Max [OF ne] unfolding H(1) by simp_all
  moreover have "add64 h 1 = h + 1" using h p by (simp add: add64_def wrap64_id i64_defs)
  ultimately show ?thesis using H(3) by (simp add: check_shape_def Let_def)
qed

lemma ancestry_ok_on_chain:
  assumes path: "chain_path d 0 h tip" and w: "twf (blocks d)"
    and g: "canonical d g q" "b_height q = 0" "b_prev q = None"
  shows "findCanonicalAncestryBreach d = None"
proof -
  note p = chain_pathD [OF path] and iff = canonical_rows_iff [OF w] and H = canonical_block_heights [OF path w]
  let ?C = "sort_key (\<lambda>(_, r). b_height r) (canonical_rows d)"
  let ?ht = "\<lambda>(_, r). b_height r"
  have "mset (map ?ht ?C) = mset (map ?ht (canonical_rows d))" by (simp only: mset_map mset_sort)
  then have dist: "distinct (map ?ht ?C)" using H(2) mset_eq_imp_distinct_iff by blast
  have "map ?ht ?C = map int [0..<length ?C]"
  proof (rule sorted_distinct_set_unique)
    show "sorted (map ?ht ?C)" by (rule sorted_sort_key)
    show "distinct (map ?ht ?C)" by (rule dist)
    show "sorted (map int [0..<length ?C])" by (simp add: sorted_map)
    show "distinct (map int [0..<length ?C])" by (simp add: distinct_map)
    have "set (map ?ht ?C) = {0..h}" using H(1) by simp
    also have "\<dots> = set (map int [0..<length ?C])"
    proof -
      have "int (length ?C) = h + 1" using H(3) by simp
      then show ?thesis by (auto simp: image_iff) (metis nat_0_le zless_nat_conj add1_zle_eq atLeastLessThan_iff
            nat_less_iff zero_le zle_add1_eq_le)
    qed
    finally show "set (map ?ht ?C) = set (map int [0..<length ?C])" .
  qed
  then have ht: "?ht (?C ! j) = int j" if "j < length ?C" for j
    using that arg_cong [of _ _ "\<lambda>xs. xs ! j"] by (metis (no_types, lifting) add_0 diff_zero length_upt nth_map nth_upt)
  have can: "canonical d (fst (?C ! j)) (snd (?C ! j))" if "j < length ?C" for j
    using nth_mem [OF that] iff [of "fst (?C ! j)" "snd (?C ! j)"] by simp
  have ok: "\<not> (b_height r = 0 \<and> b_prev r \<noteq> None \<or> 0 < b_height r \<and> b_prev r \<noteq> x)"
    if m: "((k, r), x) \<in> set (zip ?C (None # map (\<lambda>(h, _). Some h) ?C))" for k r x
  proof -
    obtain j where j: "j < length ?C" "?C ! j = (k, r)" "(None # map (\<lambda>(h, _). Some h) ?C) ! j = x"
      using m by (auto simp: in_set_zip)
    have c: "canonical d k r" "b_height r = int j" using can [OF j(1)] ht [OF j(1)] j(2) by simp_all
    show ?thesis
    proof (cases j)
      case 0
      then have "k = g" using p(8) [OF c(1) g(1)] c(2) g(2) by simp
      then have "r = q" using c(1) g(1) by (simp add: canonical_def)
      then show ?thesis using g(2,3) by simp
    next
      case (Suc i)
      then have i: "i < length ?C" using j(1) by simp
      have "canonical d (fst (?C ! i)) (snd (?C ! i))" "b_height (snd (?C ! i)) = int i"
        using can [OF i] ht [OF i] by (simp_all add: split_beta)
      moreover obtain k' r' where "b_prev r = Some k'" "canonical d k' r'" "b_height r' = int i"
        using p(9) [OF c(1)] c(2) Suc by auto
      ultimately have "b_prev r = Some (fst (?C ! i))" using p(8) by metis
      moreover have "x = Some (fst (?C ! i))" using j(3) Suc i by (simp add: split_beta)
      ultimately show ?thesis using c(2) Suc by simp
    qed
  qed
  then have "List.find (\<lambda>((_, r), x). b_height r = 0 \<and> b_prev r \<noteq> None \<or> 0 < b_height r \<and> b_prev r \<noteq> x)
      (zip ?C (None # map (\<lambda>(h, _). Some h) ?C)) = None"
    by (force simp: find_None_iff)
  then show ?thesis by (simp add: findCanonicalAncestryBreach_def Let_def)
qed

section \<open>Window sums\<close>

definition joined_of :: "db \<Rightarrow> string \<times> block_row \<Rightarrow> joined_row" where
  "joined_of d = (\<lambda>(k, r). \<lparr>j_hash = k, j_height = b_height r, j_acc = the (tget (block_accounting d) k),
     j_excluded = excluded_in_block d k (b_height r)\<rparr>)"

lemma joined_complete:
  assumes "\<And>k r. (k, r) \<in> set (canonical_rows d) \<Longrightarrow> tget (block_accounting d) k \<noteq> None"
  shows "joined d = map (joined_of d) (canonical_rows d)"
proof -
  let ?F = "\<lambda>(k, r). case tget (block_accounting d) k of None \<Rightarrow> []
      | Some a \<Rightarrow> [\<lparr>j_hash = k, j_height = b_height r, j_acc = a, j_excluded = excluded_in_block d k (b_height r)\<rparr>]"
  have "concat (map ?F xs) = map (joined_of d) xs"
    if "\<forall>(k, r) \<in> set xs. tget (block_accounting d) k \<noteq> None" for xs
    using that
  proof (induction xs)
    case (Cons x xs)
    obtain k r where x: "x = (k, r)" by force
    then obtain a where a: "tget (block_accounting d) k = Some a" using Cons.prems by auto
    then have "?F x = [joined_of d x]" by (simp add: x joined_of_def)
    moreover have "concat (map ?F xs) = map (joined_of d) xs" using Cons by simp
    ultimately show ?case by (simp only: list.map concat.simps append.simps)
  qed simp
  moreover have "\<forall>(k, r) \<in> set (canonical_rows d). tget (block_accounting d) k \<noteq> None"
    using assms by blast
  ultimately show ?thesis unfolding joined_def by blast
qed

definition upto_height :: "db \<Rightarrow> (joined_row \<Rightarrow> int) \<Rightarrow> int \<Rightarrow> int" where
  "upto_height d f n = sum_list (map f (filter (\<lambda>y. j_height y \<le> n) (joined d)))"

lemma window_upto: "window_sum (joined d) f x = upto_height d f (j_height x)"
  by (simp add: window_sum_def upto_height_def)

lemma upto_height_step:
  assumes path: "chain_path d 0 h tip" and w: "twf (blocks d)" and J: "joined d = map (joined_of d) (canonical_rows d)"
    and c: "canonical d k r"
  shows "upto_height d f (b_height r) = upto_height d f (b_height r - 1) + f (joined_of d (k, r))"
proof -
  note p = chain_pathD [OF path] and iff = canonical_rows_iff [OF w]
  have ht: "j_height (joined_of d (k', r')) = b_height r'" for k' r' by (simp add: joined_of_def)
  have "filter (\<lambda>x. j_height (joined_of d x) = b_height r) (canonical_rows d) = [(k, r)]"
  proof (rule filter_unique [OF canonical_rows_distinct(2) [OF w]])
    show "(k, r) \<in> set (canonical_rows d)" using iff c by simp
    fix y assume y: "y \<in> set (canonical_rows d)"
    obtain k' r' where y': "y = (k', r')" by force
    then have "canonical d k' r'" using y iff by simp
    then have "b_height r' = b_height r \<longleftrightarrow> k' = k \<and> r' = r"
      using p(8) [OF _ c, of k' r'] c by (auto simp: canonical_def)
    then show "j_height (joined_of d y) = b_height r \<longleftrightarrow> y = (k, r)" by (simp add: y' ht)
  qed
  then have "filter (\<lambda>y. j_height y = b_height r) (joined d) = [joined_of d (k, r)]"
    unfolding J filter_map comp_def by simp
  moreover have "upto_height d f (b_height r) = upto_height d f (b_height r - 1)
      + sum_list (map f (filter (\<lambda>y. j_height y = b_height r) (joined d)))"
    unfolding upto_height_def by (rule sum_filter_split) auto
  ultimately show ?thesis by simp
qed

lemma upto_height_none:
  assumes path: "chain_path d 0 h tip" and w: "twf (blocks d)" and J: "joined d = map (joined_of d) (canonical_rows d)"
  shows "upto_height d f (- 1) = 0"
proof -
  have "0 \<le> j_height y" if "y \<in> set (joined d)" for y
    using that chain_pathD(6) [OF path] canonical_rows_iff [OF w] unfolding J by (auto simp: joined_of_def)
  then have "filter (\<lambda>y. j_height y \<le> - 1) (joined d) = []" by (force simp: filter_empty_conv)
  then show ?thesis by (simp add: upto_height_def)
qed

text \<open>The staged row is the live row.\<close>

lemma staged_is_live:
  assumes path: "chain_path d 0 h tip" and w: "twf (blocks d)" and J: "joined d = map (joined_of d) (canonical_rows d)"
    and ch: "rollup_chained d"
  shows "canonical d k r \<Longrightarrow> b_height r = int n \<Longrightarrow> tget (block_supply_rollup d) k = Some row \<Longrightarrow>
    staged (joined d) (joined_of d (k, r)) = row"
proof (induction n arbitrary: k r row)
  case 0
  then obtain a where a: "tget (block_accounting d) k = Some a"
    and row: "row = extend zero_rollup a (excluded_in_block d k (b_height r))"
    using ch by (fastforce simp: rollup_chained_def rollup_derived_def rollup_parent_row_def canonical_def)
  have W: "upto_height d f 0 = f (joined_of d (k, r))" for f
    using upto_height_step [OF path w J 0(1), of f] upto_height_none [OF path w J, of f] 0(2) by simp
  have ht: "j_height (joined_of d (k, r)) = 0" using 0(2) by (simp add: joined_of_def)
  show ?case unfolding row staged_def Let_def window_upto ht W
    using a by (simp add: extend_def zero_rollup_def joined_of_def comp_def)
next
  case (Suc n)
  obtain a p k' where a: "tget (block_accounting d) k = Some a"
    and row: "row = extend p a (excluded_in_block d k (b_height r))"
    and k': "b_prev r = Some k'" "tget (block_supply_rollup d) k' = Some p"
    using ch Suc.prems by (fastforce simp: rollup_chained_def rollup_derived_def rollup_parent_row_def canonical_def)
  obtain r' where r': "canonical d k' r'" "b_height r' = int n"
    using chain_pathD(9) [OF path Suc.prems(1)] Suc.prems(2) k'(1) by auto
  have IH: "staged (joined d) (joined_of d (k', r')) = p" by (rule Suc.IH [OF r' k'(2)])
  have ht: "j_height (joined_of d (k', r')) = int n" "j_height (joined_of d (k, r)) = int (Suc n)"
    using r'(2) Suc.prems(2) by (simp_all add: joined_of_def)
  have P: "r_cum_subsidy p = upto_height d (c_subsidy \<circ> j_acc) (int n)"
    "r_cum_fee p = upto_height d (c_fee \<circ> j_acc) (int n)"
    "r_cum_coinbase p = upto_height d (c_coinbase \<circ> j_acc) (int n)"
    "r_cum_unclaimed p = upto_height d (c_unclaimed \<circ> j_acc) (int n)"
    "r_cum_excluded p = upto_height d j_excluded (int n)"
    unfolding IH [symmetric] staged_def Let_def window_upto ht(1) by simp_all
  have W: "upto_height d f (int (Suc n)) = upto_height d f (int n) + f (joined_of d (k, r))" for f
    using upto_height_step [OF path w J Suc.prems(1), of f] Suc.prems(2) by simp
  show ?case unfolding row staged_def Let_def window_upto ht(2) W
    using a by (simp add: extend_def joined_of_def P)
qed

section \<open>Inserting the missing rows\<close>

definition staged_map :: "(string \<times> int \<times> rollup_row) list \<Rightarrow> string \<Rightarrow> rollup_row option" where
  "staged_map st = map_of (map (\<lambda>(k, _, r). (k, r)) st)"

lemma insert_staged_all:
  assumes "\<forall>(k, _, r) \<in> set st. rollup_fits r \<and> rollup_checks r \<and> tget (blocks d) k \<noteq> None"
    and "distinct (map fst st)" "twf t"
  shows "\<exists>t'. fold_res insert_staged st (n, d\<lparr>block_supply_rollup := t\<rparr>)
      = Inr (n + int (length (filter (\<lambda>(k, _). tget t k = None) st)), d\<lparr>block_supply_rollup := t'\<rparr>)
    \<and> tget t' = staged_map st ++ tget t \<and> ((\<forall>x \<in> set st. tget t (fst x) \<noteq> None) \<longrightarrow> t' = t)"
  using assms
proof (induction st arbitrary: n t)
  case Nil
  then show ?case by (intro exI [of _ t]) (simp add: staged_map_def)
next
  case (Cons x st)
  obtain k hh r where x: "x = (k, hh, r)" by (cases x) auto
  have ok: "rollup_fits r" "rollup_checks r" "tget (blocks d) k \<noteq> None" "k \<notin> fst ` set st"
    using Cons.prems(1,2) by (auto simp: x)
  have st: "\<forall>(k, _, r) \<in> set st. rollup_fits r \<and> rollup_checks r \<and> tget (blocks d) k \<noteq> None" "distinct (map fst st)"
    using Cons.prems(1,2) by simp_all
  show ?case
  proof (cases "tget t k")
    case (Some old)
    have "insert_staged x (n, d\<lparr>block_supply_rollup := t\<rparr>) = Inr (n, d\<lparr>block_supply_rollup := t\<rparr>)"
      using ok Some by (simp add: insert_staged_def x insertOrVerifyIdempotent_def)
    moreover obtain t' where "fold_res insert_staged st (n, d\<lparr>block_supply_rollup := t\<rparr>)
      = Inr (n + int (length (filter (\<lambda>(k, _). tget t k = None) st)), d\<lparr>block_supply_rollup := t'\<rparr>)"
      "tget t' = staged_map st ++ tget t" "(\<forall>x \<in> set st. tget t (fst x) \<noteq> None) \<longrightarrow> t' = t"
      using Cons.IH [OF st Cons.prems(3), of n] by blast
    moreover have "staged_map (x # st) ++ tget t = staged_map st ++ tget t"
      using Some by (auto simp: staged_map_def x map_add_def fun_eq_iff split: option.split)
    ultimately show ?thesis using Some by (intro exI [of _ t']) (simp add: x)
  next
    case None
    let ?t = "tinsert k r t"
    have get: "tget ?t j = (if j = k then Some r else tget t j)" for j by (rule tget_tinsert [OF None])
    have "insert_staged x (n, d\<lparr>block_supply_rollup := t\<rparr>) = Inr (n + 1, d\<lparr>block_supply_rollup := ?t\<rparr>)"
      using ok None by (simp add: insert_staged_def x insertOrVerifyIdempotent_def)
    moreover obtain t' where "fold_res insert_staged st (n + 1, d\<lparr>block_supply_rollup := ?t\<rparr>)
      = Inr (n + 1 + int (length (filter (\<lambda>(k, _). tget ?t k = None) st)), d\<lparr>block_supply_rollup := t'\<rparr>)"
      "tget t' = staged_map st ++ tget ?t"
      using Cons.IH [OF st twf_simps(1) [OF Cons.prems(3) None], of "n + 1"] by blast
    moreover have "filter (\<lambda>(k, _). tget ?t k = None) st = filter (\<lambda>(k, _). tget t k = None) st"
    proof (rule filter_cong [OF refl])
      fix y assume "y \<in> set st"
      then have "fst y \<noteq> k" using ok(4) by (metis image_eqI)
      then show "(case y of (k, _) \<Rightarrow> tget ?t k = None) = (case y of (k, _) \<Rightarrow> tget t k = None)"
        by (simp add: get split_beta)
    qed
    moreover have "staged_map st ++ tget ?t = staged_map (x # st) ++ tget t"
    proof
      fix j
      have "staged_map st k = None" using ok(4) by (force simp: staged_map_def map_of_eq_None_iff)
      then show "(staged_map st ++ tget ?t) j = (staged_map (x # st) ++ tget t) j"
        using None by (simp add: staged_map_def x map_add_def get split: option.split)
    qed
    ultimately show ?thesis using None by (intro exI [of _ t']) (simp add: x)
  qed
qed

section \<open>The two cross-checks\<close>

lemma direct_utxo_total: "direct_utxo d = unspent_total d"
proof -
  have "sum_list (concat (map (\<lambda>(op, u). if u_spend u \<noteq> None then []
      else case tget (transaction_outputs d) op of None \<Rightarrow> [] | Some o' \<Rightarrow> [o_value o']) t))
    = tsum (\<lambda>op u. if u_spend u = None then out_val d op else 0) t" for t
    by (induction t) (auto simp: tsum_def out_val_def split: option.split)
  then show ?thesis by (simp add: direct_utxo_def unspent_total_def)
qed

lemma direct_accounting_upto:
  assumes path: "chain_path d 0 h tip" and inv: "accounted s d"
    and J: "joined d = map (joined_of d) (canonical_rows d)"
  shows "direct_accounting f d = upto_height d (f \<circ> j_acc) h"
proof -
  note acc = accountedD [OF inv]
  have "direct_accounting f d = tsum (\<lambda>k a. case tget (blocks d) k of None \<Rightarrow> 0
      | Some b \<Rightarrow> if b_canonical b then f a else 0) (block_accounting d)"
  proof -
    have "sum_list (concat (map (\<lambda>(h, a). case tget (blocks d) h of None \<Rightarrow> []
        | Some b \<Rightarrow> if b_canonical b then [f a] else []) t))
      = tsum (\<lambda>k a. case tget (blocks d) k of None \<Rightarrow> 0 | Some b \<Rightarrow> if b_canonical b then f a else 0) t" for t
      by (induction t) (auto simp: tsum_def split: option.split)
    then show ?thesis by (simp add: direct_accounting_def)
  qed
  also have "\<dots> = tsum (\<lambda>k r. if b_canonical r then f (the (tget (block_accounting d) k)) else 0) (blocks d)"
  proof (rule tsum_agree [OF acc(3,2)])
    fix k
    show "(case tget (block_accounting d) k of None \<Rightarrow> 0
        | Some a \<Rightarrow> case tget (blocks d) k of None \<Rightarrow> 0 | Some b \<Rightarrow> if b_canonical b then f a else 0)
      = (case tget (blocks d) k of None \<Rightarrow> 0
        | Some r \<Rightarrow> if b_canonical r then f (the (tget (block_accounting d) k)) else 0)"
      using acc(4) [of k] acc(5) [of k]
      by (cases "tget (blocks d) k"; cases "tget (block_accounting d) k") auto
  qed
  also have "\<dots> = sum_list (map (f \<circ> j_acc) (joined d))"
  proof -
    have "tsum (\<lambda>k r. if b_canonical r then f (the (tget (block_accounting d) k)) else 0) t
      = sum_list (map (f \<circ> j_acc) (map (joined_of d) (filter (\<lambda>(_, r). b_canonical r) t)))" for t
      by (induction t) (auto simp: tsum_def joined_of_def)
    then show ?thesis by (simp only: J canonical_rows_def)
  qed
  also have "\<dots> = upto_height d (f \<circ> j_acc) h"
  proof -
    have "j_height y \<le> h" if "y \<in> set (joined d)" for y
      using that chain_pathD(7) [OF path] canonical_rows_iff [OF acc(2)] unfolding J
      by (auto simp: joined_of_def)
    then have "filter (\<lambda>y. j_height y \<le> h) (joined d) = joined d" by simp
    then show ?thesis by (simp only: upto_height_def)
  qed
  finally show ?thesis .
qed

section \<open>The command\<close>

text \<open>Nothing but the comparison with the rows and their insertion reads the rollup table.\<close>

lemma rollup_not_read:
  "canonical_rows (d\<lparr>block_supply_rollup := t\<rparr>) = canonical_rows d"
  "excluded_in_block (d\<lparr>block_supply_rollup := t\<rparr>) = excluded_in_block d"
  "joined (d\<lparr>block_supply_rollup := t\<rparr>) = joined d"
  "check_shape h (d\<lparr>block_supply_rollup := t\<rparr>) = check_shape h d"
  "findCanonicalAncestryBreach (d\<lparr>block_supply_rollup := t\<rparr>) = findCanonicalAncestryBreach d"
  "missing_accounting (d\<lparr>block_supply_rollup := t\<rparr>) = missing_accounting d"
  "cross_check_tip r (d\<lparr>block_supply_rollup := t\<rparr>) = cross_check_tip r d"
  "supplyRollupStaging (d\<lparr>block_supply_rollup := t\<rparr>) = supplyRollupStaging d"
proof -
  let ?d = "d\<lparr>block_supply_rollup := t\<rparr>"
  have tabs: "blocks ?d = blocks d" "block_accounting ?d = block_accounting d" "utxo_state ?d = utxo_state d"
    "block_transactions ?d = block_transactions d" "transaction_outputs ?d = transaction_outputs d"
    by simp_all
  show rows: "canonical_rows ?d = canonical_rows d" by (simp add: canonical_rows_def)
  show ex: "excluded_in_block ?d = excluded_in_block d"
    unfolding fun_eq_iff excluded_in_block_def tabs by blast
  show jo: "joined ?d = joined d" unfolding joined_def tabs rows ex ..
  show "check_shape h ?d = check_shape h d" unfolding check_shape_def rows ..
  show "findCanonicalAncestryBreach ?d = findCanonicalAncestryBreach d"
    unfolding findCanonicalAncestryBreach_def rows ..
  show "missing_accounting ?d = missing_accounting d" unfolding missing_accounting_def rows tabs ..
  have "direct_utxo ?d = direct_utxo d" unfolding direct_utxo_def tabs ..
  moreover have "direct_accounting f ?d = direct_accounting f d" for f unfolding direct_accounting_def tabs ..
  ultimately show "cross_check_tip r ?d = cross_check_tip r d" unfolding cross_check_tip_def by simp
  show "supplyRollupStaging ?d = supplyRollupStaging d" unfolding supplyRollupStaging_def jo ..
qed

lemma staging_is_live:
  assumes path: "chain_path d 0 h tip" and inv: "accounted s d" and ch: "rollup_chained d"
    and all: "\<forall>k r. canonical d k r \<longrightarrow> tget (block_supply_rollup d) k \<noteq> None"
  shows "supplyRollupStaging d
      = map (\<lambda>(k, r). (k, b_height r, the (tget (block_supply_rollup d) k))) (canonical_rows d)"
    "joined d = map (joined_of d) (canonical_rows d)"
proof -
  note acc = accountedD [OF inv] and iff = canonical_rows_iff [OF accountedD(2) [OF inv]]
  show J: "joined d = map (joined_of d) (canonical_rows d)"
  proof (rule joined_complete)
    fix k r assume "(k, r) \<in> set (canonical_rows d)"
    then have "tget (blocks d) k = Some r" using iff by (simp add: canonical_def)
    then show "tget (block_accounting d) k \<noteq> None" using acc(4) by fastforce
  qed
  have "(j_hash x, j_height x, staged (joined d) x) = (k, b_height r, the (tget (block_supply_rollup d) k))"
    if m: "(k, r) \<in> set (canonical_rows d)" and x: "x = joined_of d (k, r)" for k r x
  proof -
    have c: "canonical d k r" using m iff by simp
    obtain row where row: "tget (block_supply_rollup d) k = Some row" using all c by blast
    have "b_height r = int (nat (b_height r))" using chain_pathD(6) [OF path c] by simp
    from staged_is_live [OF path acc(2) J ch c this row] show ?thesis
      by (simp add: x row) (simp add: joined_of_def)
  qed
  then show "supplyRollupStaging d
      = map (\<lambda>(k, r). (k, b_height r, the (tget (block_supply_rollup d) k))) (canonical_rows d)"
    unfolding supplyRollupStaging_def Let_def J map_map unfolding J [symmetric]
    by (intro map_cong) auto
qed

lemma staged_map_live:
  assumes "twf (blocks d)"
  shows "staged_map (map (\<lambda>(k, r). (k, b_height r, L k)) (canonical_rows d)) k
    = (if \<exists>r. canonical d k r then Some (L k) else None)"
proof -
  let ?m = "map (\<lambda>(k, _, r). (k, r)) (map (\<lambda>(k, r). (k, b_height r, L k)) (canonical_rows d))"
  have m: "?m = map (\<lambda>k. (k, L k)) (map fst (canonical_rows d))" by (simp add: split_beta comp_def)
  have "map_of ?m k = (if k \<in> fst ` set (canonical_rows d) then Some (L k) else None)"
    unfolding m map_of_map_restrict by (simp add: restrict_map_def)
  moreover have "k \<in> fst ` set (canonical_rows d) \<longleftrightarrow> (\<exists>r. canonical d k r)"
    using canonical_rows_iff [OF assms] by force
  ultimately show ?thesis by (simp add: staged_map_def)
qed

lemma BackfillSupplyRollup_core:
  assumes path: "chain_path d 0 h tip" and sync: "sync_state d = (h, Some tip)" and h: "h < max_i64"
    and inv: "accounted s d" and ch: "rollup_chained d"
    and all: "\<forall>k r. canonical d k r \<longrightarrow> tget (block_supply_rollup d) k \<noteq> None"
    and tip: "\<forall>row. tget (block_supply_rollup d) tip = Some row \<longrightarrow> r_cum_utxo row = unspent_total d"
    and g: "canonical d g q" "b_height q = 0" "b_prev q = None"
    and lock: "free_lock backfillSupplyRollupAdvisoryLockNamespace f sn"
    and t: "twf t" "tget t \<subseteq>\<^sub>m tget (block_supply_rollup d)"
  shows "\<exists>t' n. BackfillSupplyRollup f sn (d\<lparr>block_supply_rollup := t\<rparr>) = Inr
      (\<lparr>CanonicalBlocks = h + 1, RollupInserted = n, RollupVerified = h + 1 - n, TipHash = tip, TipHeight = h\<rparr>,
       d\<lparr>block_supply_rollup := t'\<rparr>)
    \<and> n = int (length (filter (\<lambda>(k, _). tget t k = None) (canonical_rows d)))
    \<and> (\<forall>k. tget t' k = (if \<exists>r. canonical d k r then tget (block_supply_rollup d) k else tget t k))
    \<and> (t = block_supply_rollup d \<longrightarrow> t' = t)"
proof -
  let ?d = "d\<lparr>block_supply_rollup := t\<rparr>"
  let ?L = "\<lambda>k. the (tget (block_supply_rollup d) k)"
  let ?st = "map (\<lambda>(k, r). (k, b_height r, ?L k)) (canonical_rows d)"
  note acc = accountedD [OF inv] and p = chain_pathD [OF path]
  note iff = canonical_rows_iff [OF acc(2)] and stage = staging_is_live [OF path inv ch all]
  have sub: "tget t k = None \<or> tget t k = tget (block_supply_rollup d) k" for k
    using t(2) by (auto simp: map_le_def dom_def)
  have live: "tget (block_supply_rollup d) k = Some (?L k)" if "canonical d k r" for k r
    using all that by fastforce
  have der: "rollup_fits (?L k) \<and> rollup_checks (?L k) \<and> tget (blocks d) k \<noteq> None" if "canonical d k r" for k r
    using ch live [OF that] that by (auto simp: rollup_chained_def rollup_derived_def canonical_def)
  have n0: "h \<noteq> - 1" "0 \<le> h" using p(1,2) by simp_all
  have missing: "missing_accounting d = 0"
  proof -
    have "tget (block_accounting d) k \<noteq> None" if m: "(k, r) \<in> set (canonical_rows d)" for k r
    proof -
      have "tget (blocks d) k = Some r" using m iff by (simp add: canonical_def)
      then show ?thesis using acc(4) by fastforce
    qed
    then show ?thesis by (auto simp: missing_accounting_def filter_empty_conv)
  qed
  have contra: "supplyRollupContradictions ?st ?d = 0"
  proof -
    have "(case tget t k of None \<Rightarrow> False | Some old \<Rightarrow> old \<noteq> ?L k) = False" if "(k, r) \<in> set (canonical_rows d)" for k r
      using sub [of k] live [of k r] that iff by (auto split: option.split)
    then show ?thesis by (auto simp: supplyRollupContradictions_def filter_empty_conv)
  qed
  have stok: "\<forall>(k, _, r) \<in> set ?st. rollup_fits r \<and> rollup_checks r \<and> tget (blocks d) k \<noteq> None"
    using der iff by auto
  have "map fst ?st = map fst (canonical_rows d)" by (simp add: split_beta comp_def)
  then have stdist: "distinct (map fst ?st)" using canonical_rows_distinct(1) [OF acc(2)] by (simp only:)
  obtain t' where t': "fold_res insert_staged ?st (0, ?d)
      = Inr (int (length (filter (\<lambda>(k, _). tget t k = None) ?st)), d\<lparr>block_supply_rollup := t'\<rparr>)"
    "tget t' = staged_map ?st ++ tget t" "(\<forall>x \<in> set ?st. tget t (fst x) \<noteq> None) \<longrightarrow> t' = t"
    using insert_staged_all [OF stok stdist t(1), of 0] unfolding add_0 by blast
  let ?n = "int (length (filter (\<lambda>(k, _). tget t k = None) (canonical_rows d)))"
  have cnt: "int (length (filter (\<lambda>(k, _). tget t k = None) ?st)) = ?n"
    by (simp add: filter_map comp_def case_prod_beta')
  obtain a where a: "canonical d tip a" "b_height a = h" using p(4) by blast
  have tipr: "staging_tip ?st = Some (tip, h, ?L tip)"
    unfolding staging_tip_def
  proof (rule find_unique)
    show "(tip, h, ?L tip) \<in> set ?st" using a iff by force
    show "case (tip, h, ?L tip) of (_, hh, _) \<Rightarrow> list_all (\<lambda>(_, h', _). h' \<le> hh) ?st"
      using p(7) iff by (auto simp: list_all_iff)
    fix y assume y: "y \<in> set ?st" "case y of (_, hh, _) \<Rightarrow> list_all (\<lambda>(_, h', _). h' \<le> hh) ?st"
    then obtain k r where k: "canonical d k r" "y = (k, b_height r, ?L k)" using iff by auto
    have "h \<le> b_height r" using y(2) a iff by (force simp: k(2) list_all_iff)
    then have "b_height r = h" using p(7) [OF k(1)] by simp
    then show "y = (tip, h, ?L tip)" using p(8) [OF k(1) a(1)] a(2) by (simp add: k(2))
  qed
  have fit: "rollup_fits (?L tip)" using der [OF a(1)] by blast
  have W: "direct_accounting f d = upto_height d (f \<circ> j_acc) h" for f
    by (rule direct_accounting_upto [OF path inv stage(2)])
  have ls: "staged (joined d) (joined_of d (tip, a)) = ?L tip"
    by (rule staged_is_live [OF path acc(2) stage(2) ch a(1), where n = "nat h"])
      (use a(2) n0(2) live [OF a(1)] in simp_all)
  have jh: "j_height (joined_of d (tip, a)) = h" by (simp add: joined_of_def a(2))
  have sums: "direct_accounting c_subsidy d = r_cum_subsidy (?L tip)" "direct_accounting c_fee d = r_cum_fee (?L tip)"
    "direct_accounting c_coinbase d = r_cum_coinbase (?L tip)"
    "direct_accounting c_unclaimed d = r_cum_unclaimed (?L tip)"
    unfolding W ls [symmetric] staged_def Let_def window_upto jh by simp_all
  have cross: "cross_check_tip (?L tip) d = Inr ()"
    using fit sums tip [rule_format, OF live [OF a(1)]]
    by (simp add: cross_check_tip_def Let_def direct_utxo_total rollup_fits_def)
  have shape: "check_shape h d = Inr ()" by (rule shape_ok_on_chain [OF path acc(2) h])
  have anc: "findCanonicalAncestryBreach d = None" by (rule ancestry_ok_on_chain [OF path acc(2) g])
  have "int (length (canonical_rows d)) = h + 1" by (rule canonical_block_heights(3) [OF path acc(2)])
  moreover have cross': "cross_check_tip (?L tip) (d\<lparr>block_supply_rollup := t'\<rparr>) = Inr ()"
    by (simp only: rollup_not_read cross)
  moreover have sh: "sync_state ?d = (h, Some tip)" using sync by simp
  ultimately have "BackfillSupplyRollup f sn ?d = Inr
      (\<lparr>CanonicalBlocks = h + 1, RollupInserted = ?n, RollupVerified = h + 1 - ?n, TipHash = tip, TipHeight = h\<rparr>,
       d\<lparr>block_supply_rollup := t'\<rparr>)"
    unfolding BackfillSupplyRollup_def free_lock_try [OF lock] rbind_simps Let_def sh fst_conv
      if_not_P [OF n0(1)] rollup_not_read shape anc missing stage(1) contra t'(1) tipr of_option_simps prod.case cnt
    using fit by simp
  moreover have "tget t' k = (if \<exists>r. canonical d k r then tget (block_supply_rollup d) k else tget t k)" for k
    using sub [of k] live [of k] staged_map_live [OF acc(2), of ?L k]
    unfolding t'(2) by (auto simp: map_add_def split: option.split)
  moreover have "t' = t" if "t = block_supply_rollup d"
    using t'(3) that live iff by fastforce
  ultimately show ?thesis by blast
qed


end
