(* ===== verification/BackfillWitness.thy ===== *)
theory BackfillWitness
  imports BackfillRollupRuns StoreWitness
begin

text \<open>The backfills on the example chain with damaged derived tables.\<close>

definition ex_session :: session where
  "ex_session = \<lparr>sn_current_schema = Some ''public'', sn_held = []\<rparr>"

lemma ex_lock: "free_lock n (\<lambda>_. 7) ex_session"
  by (simp add: free_lock_def ex_session_def)

lemma ex_ops: "ex_d2 = run ex_store [Apply ex_b0, Apply ex_b1, Apply ex_b2] init_db"
  by (rule ex_run2 [symmetric])

lemma ex_positive: "(\<Sum>a | 0 < unspent_value ex_d2 a. unspent_value ex_d2 a) = 90"
proof -
  have "addr_exact ex_d2"
    using cache.reachable [of ex_store "[Apply ex_b0, Apply ex_b1, Apply ex_b2]"] ex_map_order
    unfolding ex_ops by (simp add: all_ok_const)
  from positive_total_meaning [OF this, of "\<lambda>v. v"]
  show ?thesis by (simp add: positive_total_def tsum_def) (simp add: ex_d2_def)
qed

definition bad_distribution :: "(string, int \<times> int) table" where
  "bad_distribution = map (\<lambda>b. (b, (7, 7))) DistributionBucketIDs"

theorem BackfillAddressDistribution_restores_witness:
  "\<exists>r e. BackfillAddressDistribution (\<lambda>_. 7) ex_session
      (ex_d2\<lparr>distribution := bad_distribution, distribution_state := (- 1, None)\<rparr>) = Inr (r, e)
    \<and> TotalBalanceSatoshis r = 90 \<and> VerifyDistributionCoverage True e = Inr ()"
proof -
  have sum: "in_i64 (\<Sum>a | 0 < unspent_value ex_d2 a. unspent_value ex_d2 a)"
    unfolding ex_positive by (simp add: i64_defs)
  have wf: "twf bad_distribution"
    by (simp add: bad_distribution_def DistributionBucketIDs_eq twf_def)
  have dom: "set DistributionBucketIDs \<subseteq> dom (tget bad_distribution)"
    unfolding bad_distribution_def tget_def [abs_def] dom_map_of_conv_image_fst
    by (simp add: image_image)
  have cp: "snd (sync_state ex_d2) = None \<longrightarrow> fst (- 1 :: int, None :: string option) = - 1" by simp
  note run = BackfillAddressDistribution_restores [OF ex_map_order ex_ops sum ex_lock wf dom cp]
  obtain u where "BackfillAddressDistribution (\<lambda>_. 7) ex_session
      (ex_d2\<lparr>distribution := bad_distribution, distribution_state := (- 1, None)\<rparr>) = Inr
        (\<lparr>TotalPositiveAddresses = int (card {a. 0 < unspent_value ex_d2 a}), TotalBalanceSatoshis = 90,
          AnchorHeight = fst (Tip ex_d2), AnchorHash = (case snd (Tip ex_d2) of None \<Rightarrow> [] | Some h \<Rightarrow> h)\<rparr>,
         ex_d2\<lparr>distribution := u\<rparr>)"
    "VerifyDistributionCoverage True (ex_d2\<lparr>distribution := u\<rparr>) = Inr ()"
    using run unfolding ex_positive by (elim exE conjE)
  then show ?thesis by (intro exI conjI) (assumption, simp, assumption)
qed

lemma ex_sizes: "length (blocks ex_d2) = 3"
  by (simp add: ex_d2_def)

lemma empty_table: "twf []" "tget [] \<subseteq>\<^sub>m m"
  by (simp_all add: twf_def tget_def [abs_def])

theorem BackfillAccounting_reconstructs_witness:
  "\<exists>t. BackfillAccounting ex_store (\<lambda>_. 7) ex_session (ex_d2\<lparr>block_accounting := []\<rparr>)
      = (Inr (), \<lparr>TotalBlocks = 3, Inserted = 3, Verified = 0\<rparr>, ex_d2\<lparr>block_accounting := t\<rparr>)
    \<and> tget t = tget (block_accounting ex_d2)"
  using BackfillAccounting_reconstructs [OF ex_ops ex_lock empty_table]
  unfolding ex_sizes by (elim exE conjE) (rule exI, rule conjI, simp, assumption)


end
