(* ===== verification/Paging.thy ===== *)
theory Paging
  imports Table
begin

text \<open>
  Keyset pagination, shared by \<open>RecentBlocks\<close>, \<open>AddressHistory\<close> and the mempool list of
  \<open>internal/query\<close>: the bounds on a page (\<open>query.go\<close>), the order of a page's rows, the walk
  of a caller who follows the cursors, and what the walk relies on as the locale
  \<open>keyset_listing\<close>.
\<close>

definition MaxPageSize :: int where "MaxPageSize = 100"

definition DefaultPageSize :: int where "DefaultPageSize = 25"

definition clampPageSize :: "int \<Rightarrow> int" where
  "clampPageSize n = (if n \<le> 0 then DefaultPageSize else if n > MaxPageSize then MaxPageSize else n)"

lemma clampPageSize_bounds: "1 \<le> clampPageSize n" "clampPageSize n \<le> MaxPageSize"
  by (simp_all add: clampPageSize_def DefaultPageSize_def MaxPageSize_def)

lemma enumerate_map: "enumerate n (map f xs) = map (\<lambda>(i, x). (i, f x)) (enumerate n xs)"
  by (induction xs arbitrary: n) auto

lemma sort_key_map: "sort_key f (map g xs) = map g (sort_key (f \<circ> g) xs)"
proof -
  have "insort_key f (g x) (map g ys) = map g (insort_key (f \<circ> g) x ys)" for x ys
    by (induction ys) auto
  then show ?thesis by (induction xs) simp_all
qed

lemma find_member: "List.find P xs = Some x \<Longrightarrow> x \<in> set xs \<and> P x"
  by (induction xs) (auto split: if_splits)

text \<open>\<open>LIMIT\<close> with the clamped size.\<close>

abbreviation page_limit :: "int \<Rightarrow> nat" where "page_limit p \<equiv> nat (clampPageSize p)"

lemma page_limit_pos [simp]: "0 < page_limit p"
  using clampPageSize_bounds(1) [of p] by simp

text \<open>\<open>ORDER BY key DESC\<close>.\<close>

definition order_desc :: "('r \<Rightarrow> 'k :: linorder) \<Rightarrow> 'r list \<Rightarrow> 'r list" where
  "order_desc key xs = rev (sort_key key xs)"

lemma set_order_desc [simp]: "set (order_desc key xs) = set xs"
  and length_order_desc [simp]: "length (order_desc key xs) = length xs"
  by (simp_all add: order_desc_def)

lemma order_desc_sorted:
  assumes "distinct (map key xs)"
  shows "sorted_wrt (\<lambda>x y. key y < key x) (order_desc key xs)"
proof -
  have "sorted (map key (sort_key key xs))" "distinct (map key (sort_key key xs))"
    using assms by (simp_all add: distinct_map)
  then have "sorted_wrt (<) (map key (sort_key key xs))"
    by (simp only: strict_sorted_iff)
  then show ?thesis by (simp add: order_desc_def sorted_wrt_rev sorted_wrt_map)
qed

lemma order_desc_filter: "order_desc key (filter P xs) = filter P (order_desc key xs)"
  unfolding order_desc_def rev_filter [symmetric] filter_sort ..

text \<open>The rows past a cursor: strictly below it.\<close>

definition past :: "('r \<Rightarrow> 'k :: linorder) \<Rightarrow> 'k option \<Rightarrow> 'r list \<Rightarrow> 'r list" where
  "past key c xs = (case c of None \<Rightarrow> xs | Some k \<Rightarrow> filter (\<lambda>r. key r < k) xs)"

lemma length_past: "length (past key c xs) \<le> length xs"
  by (simp add: past_def split: option.split)

lemma past_descending:
  assumes "sorted_wrt (\<lambda>x y. key y < key x) (xs @ z # ys)"
  shows "past key (Some (key z)) (xs @ z # ys) = ys"
  using assms by (auto simp: past_def sorted_wrt_append filter_empty_conv filter_id_conv dest: less_asym)

lemma past_past:
  assumes "sorted_wrt (\<lambda>x y. key y < key x) xs" "past key c xs = us @ z # vs"
  shows "past key (Some (key z)) xs = vs"
proof (cases c)
  case None
  with assms past_descending [of key us z vs] show ?thesis by (simp add: past_def)
next
  case (Some k)
  have "sorted_wrt (\<lambda>x y. key y < key x) (past key c xs)"
    using assms(1) by (simp add: Some past_def sorted_wrt_filter)
  then have s: "sorted_wrt (\<lambda>x y. key y < key x) (us @ z # vs)" unfolding assms(2) .
  have "z \<in> set (past key c xs)" using assms(2) by simp
  then have zk: "key z < k" using Some by (simp add: past_def)
  have "past key (Some (key z)) xs = past key (Some (key z)) (past key c xs)"
    using zk Some by (auto simp: past_def intro: filter_cong)
  also have "\<dots> = vs" using past_descending [OF s] assms(2) by simp
  finally show ?thesis .
qed

section \<open>Following the cursors\<close>

text \<open>
  The rows that a caller collects who starts at a cursor and passes the cursor of every page to
  the next call, until a page has none. \<open>None\<close> is a walk that never ends.
\<close>

partial_function (option) walk :: "('c option \<Rightarrow> 'r list \<times> 'c option) \<Rightarrow> 'c option \<Rightarrow> 'r list option" where
  "walk fetch c =
    (case fetch c of
       (rows, None) \<Rightarrow> Some rows
     | (rows, Some k) \<Rightarrow> Option.bind (walk fetch (Some k)) (\<lambda>more. Some (rows @ more)))"

locale keyset_listing =
  fixes fetch :: "'d \<Rightarrow> int \<Rightarrow> 'k :: linorder option \<Rightarrow> 'r list \<times> 'k option"
    and key :: "'r \<Rightarrow> 'k"
    and listing :: "'d \<Rightarrow> 'r list"
    and wf :: "'d \<Rightarrow> bool"
  assumes descending: "wf d \<Longrightarrow> sorted_wrt (\<lambda>x y. key y < key x) (listing d)"
    and rows: "wf d \<Longrightarrow> fst (fetch d p c) = take (page_limit p) (past key c (listing d))"
    and more: "wf d \<Longrightarrow> snd (fetch d p c) = Some k \<Longrightarrow>
      fst (fetch d p c) \<noteq> [] \<and> k = key (last (fst (fetch d p c)))"
    and no_more: "wf d \<Longrightarrow> snd (fetch d p c) = None \<Longrightarrow> length (past key c (listing d)) \<le> page_limit p"
begin

text \<open>The next page starts where this one ends.\<close>

lemma next_page:
  assumes "wf d" "fetch d p c = (rs, Some k)"
  shows "past key c (listing d) = rs @ past key (Some k) (listing d)" "rs \<noteq> []"
proof -
  have r: "rs = take (page_limit p) (past key c (listing d))" using rows [OF assms(1), of p c] assms(2) by simp
  have k: "rs \<noteq> []" "k = key (last rs)" using more [OF assms(1), of p c k] assms(2) by simp_all
  then show "rs \<noteq> []" by simp
  have split: "past key c (listing d) = butlast rs @ last rs # drop (page_limit p) (past key c (listing d))"
    using r k(1) by (metis append_butlast_last_id append_take_drop_id append.assoc append_Cons append_Nil)
  have "past key (Some k) (listing d) = drop (page_limit p) (past key c (listing d))"
    unfolding k(2) by (rule past_past [OF descending [OF assms(1)] split])
  then show "past key c (listing d) = rs @ past key (Some k) (listing d)"
    using r by (metis append_take_drop_id)
qed

lemma walk_rest:
  assumes "wf d"
  shows "walk (fetch d p) c = Some (past key c (listing d))"
proof (induction "length (past key c (listing d))" arbitrary: c rule: less_induct)
  case less
  obtain rs n where f: "fetch d p c = (rs, n)" by (cases "fetch d p c")
  have r: "rs = take (page_limit p) (past key c (listing d))" using rows [OF assms, of p c] f by simp
  show ?case
  proof (cases n)
    case None
    have "length (past key c (listing d)) \<le> page_limit p" using no_more [OF assms, of p c] f None by simp
    then show ?thesis using r f None by (subst walk.simps) simp
  next
    case (Some k)
    note step = next_page [OF assms f [unfolded Some]]
    have "length (past key (Some k) (listing d)) < length (past key c (listing d))"
      using step by (metis length_append length_greater_0_conv less_add_same_cancel2)
    from less [OF this] show ?thesis using step(1) f Some by (subst walk.simps) simp
  qed
qed

text \<open>A walk from the first page returns, and what it collects is the whole listing.\<close>

lemma walk_all: "wf d \<Longrightarrow> walk (fetch d p) None = Some (listing d)"
  using walk_rest [of d p None] by (simp add: past_def)

lemma page_bound: "wf d \<Longrightarrow> length (fst (fetch d p c)) \<le> 100"
  using rows [of d p c] clampPageSize_bounds(2) [of p] by (simp add: MaxPageSize_def)

end

end
