(* ===== verification/Query.thy ===== *)
theory Query
  imports Paging StoreApply "HOL-Library.List_Lexorder" "HOL-Library.Product_Lexorder" "HOL-Library.Char_ord"
begin

text \<open>
  \<open>internal/query\<close> over the confirmed chain: \<open>status.go\<close>, \<open>blocks.go\<close>,
  \<open>addresses.go\<close>, \<open>richlist.go\<close>, \<open>supply.go\<close>, \<open>transactions.go\<close> and
  \<open>composite.go\<close>. Every public call reads one statement or one read-only repeatable-read
  snapshot, so it is a function of one database. Joins are written as loops over the rows. Text is
  ordered by its bytes: for the hexadecimal identifiers every collation does so, for addresses and
  deployment names the code leaves the order to the collation of the database, except in the rich
  list, which asks for this one.
\<close>

datatype query_error =
    ErrNotFound | ErrSupplyRollupUnavailable | ErrSupplyIntegrity | ErrInconsistentIndex | ErrNoRow
  | ErrMempoolGenerationChanged | ErrDeploymentCacheUninitialized | ErrDeploymentCacheIntegrity

definition qoge :: "int \<Rightarrow> string" where "qoge v = amount_String (word_of_int v)"

section \<open>status.go\<close>

record status =
  IndexedHeight :: int
  IndexedHash :: "string option"

definition statusFrom :: "db \<Rightarrow> status" where
  "statusFrom d = \<lparr>IndexedHeight = fst (sync_state d), IndexedHash = snd (sync_state d)\<rparr>"

definition Status :: "db \<Rightarrow> status" where "Status d = statusFrom d"

section \<open>blocks.go\<close>

record block_summary =
  bs_Hash :: string
  bs_Height :: int
  bs_PreviousHash :: "string option"
  bs_MerkleRoot :: string
  bs_Time :: int
  bs_Bits :: string
  bs_Difficulty :: "64 word"
  bs_Nonce :: "32 word"
  bs_Size :: int
  bs_Weight :: int
  bs_TxCount :: int
  bs_Canonical :: bool

record block_tx_ref =
  ref_Index :: nat
  ref_TxID :: string
  ref_WTxID :: string

record block_page =
  bp_Blocks :: "block_summary list"
  bp_NextBeforeHeight :: "int option"

definition scanBlockSummary :: "string \<times> block_row \<Rightarrow> block_summary" where
  "scanBlockSummary = (\<lambda>(hash, r).
    \<lparr>bs_Hash = hash, bs_Height = b_height r, bs_PreviousHash = b_prev r, bs_MerkleRoot = b_merkle r,
     bs_Time = b_time r, bs_Bits = b_bits r, bs_Difficulty = b_difficulty r, bs_Nonce = word_of_int (b_nonce r),
     bs_Size = b_size r, bs_Weight = b_weight r, bs_TxCount = b_tx_count r, bs_Canonical = b_canonical r\<rparr>)"

definition recentBlocksFrom :: "db \<Rightarrow> int option \<Rightarrow> int \<Rightarrow> block_page" where
  "recentBlocksFrom d beforeHeight pageSize =
    (let n = clampPageSize pageSize;
         rows = take (nat n) (order_desc (\<lambda>(_, r). b_height r)
           (filter (\<lambda>(_, r). b_canonical r \<and> (case beforeHeight of None \<Rightarrow> True | Some b \<Rightarrow> b_height r < b))
             (blocks d)));
         page = map scanBlockSummary rows
     in \<lparr>bp_Blocks = page,
         bp_NextBeforeHeight =
           (if int (length page) = n \<and> bs_Height (last page) > 0 then Some (bs_Height (last page)) else None)\<rparr>)"

definition RecentBlocks :: "db \<Rightarrow> int option \<Rightarrow> int \<Rightarrow> block_page" where
  "RecentBlocks d beforeHeight pageSize = recentBlocksFrom d beforeHeight pageSize"

definition blockTxRefs :: "db \<Rightarrow> string \<Rightarrow> block_tx_ref list" where
  "blockTxRefs d blockHash =
    map (\<lambda>((_, i), r). \<lparr>ref_Index = i, ref_TxID = bt_txid r, ref_WTxID = bt_wtxid r\<rparr>)
      (sort_key (\<lambda>((_, i), _). i) (filter (\<lambda>((bh, _), _). bh = blockHash) (block_transactions d)))"

definition blockDetailFromRow ::
  "db \<Rightarrow> (string \<times> block_row) option \<Rightarrow> query_error + block_summary \<times> block_tx_ref list" where
  "blockDetailFromRow d row =
    rbind (of_option ErrNotFound (map_option scanBlockSummary row)) (\<lambda>summary.
    Inr (summary, blockTxRefs d (bs_Hash summary)))"

definition BlockByHeight :: "db \<Rightarrow> int \<Rightarrow> query_error + block_summary \<times> block_tx_ref list" where
  "BlockByHeight d height =
    blockDetailFromRow d (List.find (\<lambda>(_, r). b_height r = height \<and> b_canonical r) (blocks d))"

definition BlockByHash :: "db \<Rightarrow> string \<Rightarrow> query_error + block_summary \<times> block_tx_ref list" where
  "BlockByHash d hash = blockDetailFromRow d (map_option (Pair hash) (tget (blocks d) hash))"

section \<open>addresses.go\<close>

record address_summary =
  as_Address :: string
  as_BalanceSatoshis :: int
  as_BalanceQOGE :: string
  as_TotalReceivedSatoshis :: int
  as_TotalReceivedQOGE :: string
  as_TotalSentSatoshis :: int
  as_TotalSentQOGE :: string
  as_TxCount :: int
  as_FirstSeenHeight :: "int option"
  as_LastSeenHeight :: "int option"

definition addressSummaryFrom :: "db \<Rightarrow> string \<Rightarrow> address_summary" where
  "addressSummaryFrom d address =
    (case tget (addresses d) address of
       None \<Rightarrow> \<lparr>as_Address = address, as_BalanceSatoshis = 0, as_BalanceQOGE = qoge 0,
         as_TotalReceivedSatoshis = 0, as_TotalReceivedQOGE = qoge 0,
         as_TotalSentSatoshis = 0, as_TotalSentQOGE = qoge 0, as_TxCount = 0,
         as_FirstSeenHeight = None, as_LastSeenHeight = None\<rparr>
     | Some r \<Rightarrow> \<lparr>as_Address = address, as_BalanceSatoshis = a_balance r, as_BalanceQOGE = qoge (a_balance r),
         as_TotalReceivedSatoshis = a_received r, as_TotalReceivedQOGE = qoge (a_received r),
         as_TotalSentSatoshis = a_sent r, as_TotalSentQOGE = qoge (a_sent r), as_TxCount = a_tx_count r,
         as_FirstSeenHeight = a_first_seen r, as_LastSeenHeight = a_last_seen r\<rparr>)"

definition AddressSummary :: "db \<Rightarrow> string \<Rightarrow> address_summary" where
  "AddressSummary d address = addressSummaryFrom d address"

record history_entry =
  he_TxID :: string
  he_BlockHash :: string
  he_BlockHeight :: int

record history_page =
  hp_Transactions :: "history_entry list"
  hp_NextBeforeHeight :: "int option"
  hp_NextBeforeTxID :: "string option"

text \<open>
  The join of \<open>block_transactions\<close> with the canonical blocks. Its column \<open>block_height\<close> is
  written by a trigger from the block's own height.
\<close>

definition canonical_occurrence :: "db \<Rightarrow> string \<Rightarrow> (string \<times> nat) \<times> bt_row \<Rightarrow> history_entry list" where
  "canonical_occurrence d txid = (\<lambda>((bh, _), r).
     if bt_txid r = txid then
       (case tget (blocks d) bh of
          None \<Rightarrow> []
        | Some b \<Rightarrow> if b_canonical b then [\<lparr>he_TxID = txid, he_BlockHash = bh, he_BlockHeight = b_height b\<rparr>] else [])
     else [])"

definition canonical_occurrences :: "db \<Rightarrow> string \<Rightarrow> history_entry list" where
  "canonical_occurrences d txid = concat (map (canonical_occurrence d txid) (block_transactions d))"

definition received :: "db \<Rightarrow> string \<Rightarrow> history_entry list" where
  "received d address = concat (map (\<lambda>(op, a).
     if a = address \<and> tget (transaction_outputs d) op \<noteq> None then canonical_occurrences d (fst op) else [])
     (output_addresses d))"

definition spending :: "db \<Rightarrow> outpoint \<Rightarrow> history_entry list" where
  "spending d op = concat (map (\<lambda>((txid, _), ti).
     if i_prev ti = Some op then canonical_occurrences d txid else []) (transaction_inputs d))"

definition spent :: "db \<Rightarrow> string \<Rightarrow> history_entry list" where
  "spent d address = concat (map (\<lambda>(op, a). if a = address then spending d op else []) (output_addresses d))"

definition touches :: "db \<Rightarrow> string \<Rightarrow> history_entry list" where
  "touches d address = remdups (received d address @ spent d address)"

definition history_key :: "history_entry \<Rightarrow> int \<times> string" where
  "history_key e = (he_BlockHeight e, he_TxID e)"

text \<open>A comparison with a null \<open>beforeTxID\<close> is not true.\<close>

definition history_before :: "int option \<Rightarrow> string option \<Rightarrow> history_entry \<Rightarrow> bool" where
  "history_before beforeHeight beforeTxID e =
    (case beforeHeight of
       None \<Rightarrow> True
     | Some h \<Rightarrow> he_BlockHeight e < h
         \<or> he_BlockHeight e = h \<and> (case beforeTxID of None \<Rightarrow> False | Some t \<Rightarrow> he_TxID e < t))"

definition addressHistoryFrom ::
  "db \<Rightarrow> string \<Rightarrow> int option \<Rightarrow> string option \<Rightarrow> int \<Rightarrow> history_page" where
  "addressHistoryFrom d address beforeHeight beforeTxID pageSize =
    (let n = clampPageSize pageSize;
         page = take (nat n) (order_desc history_key
           (remdups (filter (history_before beforeHeight beforeTxID) (touches d address))))
     in if int (length page) = n then
          \<lparr>hp_Transactions = page, hp_NextBeforeHeight = Some (he_BlockHeight (last page)),
           hp_NextBeforeTxID = Some (he_TxID (last page))\<rparr>
        else \<lparr>hp_Transactions = page, hp_NextBeforeHeight = None, hp_NextBeforeTxID = None\<rparr>)"

definition AddressHistory ::
  "db \<Rightarrow> string \<Rightarrow> int option \<Rightarrow> string option \<Rightarrow> int \<Rightarrow> history_page" where
  "AddressHistory d address beforeHeight beforeTxID pageSize =
    addressHistoryFrom d address beforeHeight beforeTxID pageSize"

section \<open>richlist.go\<close>

definition RichListLimit :: nat where "RichListLimit = 100"

record rich_entry =
  re_Rank :: nat
  re_Address :: string
  re_BalanceSatoshis :: int
  re_BalanceQOGE :: string

text \<open>
  Ascending in the negated balance and then the address, which \<open>COLLATE "C"\<close> compares by bytes.
\<close>

definition richlist_rows :: "db \<Rightarrow> (string \<times> int) list" where
  "richlist_rows d =
    take RichListLimit (sort_key (\<lambda>(a, b). (- b, a))
      (filter (\<lambda>(_, b). b > 0) (map (\<lambda>(a, r). (a, a_balance r)) (addresses d))))"

definition richListEntriesFrom :: "db \<Rightarrow> rich_entry list" where
  "richListEntriesFrom d =
    foldl (\<lambda>entries (address, balance). entries @
      [\<lparr>re_Rank = length entries + 1, re_Address = address, re_BalanceSatoshis = balance,
        re_BalanceQOGE = qoge balance\<rparr>]) [] (richlist_rows d)"

definition RichListOverview :: "db \<Rightarrow> status \<times> rich_entry list" where
  "RichListOverview d = (let st = statusFrom d in (st, richListEntriesFrom d))"

section \<open>supply.go\<close>

record supply_overview =
  so_IndexedHeight :: int
  so_IndexedHash :: "string option"
  so_ScheduledSubsidySatoshis :: int
  so_ScheduledSubsidyQOGE :: string
  so_TransactionFeesSatoshis :: int
  so_TransactionFeesQOGE :: string
  so_CoinbaseOutputsSatoshis :: int
  so_CoinbaseOutputsQOGE :: string
  so_UnclaimedRewardSatoshis :: int
  so_UnclaimedRewardQOGE :: string
  so_UTXOSetValueSatoshis :: int
  so_UTXOSetValueQOGE :: string

text \<open>Whether migration 0005 has created the table is an argument (\<open>pgUndefinedTable\<close>).\<close>

definition supplyRollupValuesFrom :: "bool \<Rightarrow> db \<Rightarrow> string \<Rightarrow> query_error + rollup_row" where
  "supplyRollupValuesFrom tableExists d blockHash =
    (if \<not> tableExists then Inl ErrSupplyRollupUnavailable
     else of_option ErrSupplyRollupUnavailable (tget (block_supply_rollup d) blockHash))"

definition checkedAddInt64 :: "int \<Rightarrow> int \<Rightarrow> int option" where
  "checkedAddInt64 a b =
    (let sum = add64 a b in if b > 0 \<and> sum < a \<or> b < 0 \<and> sum > a then None else Some sum)"

definition checkSupplyRollupIdentities :: "rollup_row \<Rightarrow> query_error + unit" where
  "checkSupplyRollupIdentities v =
    rbind (of_option ErrSupplyIntegrity (checkedAddInt64 (r_cum_coinbase v) (r_cum_unclaimed v))) (\<lambda>rewardLHS.
    rbind (of_option ErrSupplyIntegrity (checkedAddInt64 (r_cum_subsidy v) (r_cum_fee v))) (\<lambda>rewardRHS.
    rbind (guard (rewardLHS = rewardRHS) ErrSupplyIntegrity) (\<lambda>_.
    rbind (of_option ErrSupplyIntegrity (checkedAddInt64 (r_cum_utxo v) (r_cum_fee v))) (\<lambda>utxoLHS1.
    rbind (of_option ErrSupplyIntegrity (checkedAddInt64 utxoLHS1 (r_cum_excluded v))) (\<lambda>utxoLHS.
    guard (utxoLHS = r_cum_coinbase v) ErrSupplyIntegrity)))))"

definition supply_overview_of :: "status \<Rightarrow> rollup_row \<Rightarrow> supply_overview" where
  "supply_overview_of st v =
    \<lparr>so_IndexedHeight = IndexedHeight st, so_IndexedHash = IndexedHash st,
     so_ScheduledSubsidySatoshis = r_cum_subsidy v, so_ScheduledSubsidyQOGE = qoge (r_cum_subsidy v),
     so_TransactionFeesSatoshis = r_cum_fee v, so_TransactionFeesQOGE = qoge (r_cum_fee v),
     so_CoinbaseOutputsSatoshis = r_cum_coinbase v, so_CoinbaseOutputsQOGE = qoge (r_cum_coinbase v),
     so_UnclaimedRewardSatoshis = r_cum_unclaimed v, so_UnclaimedRewardQOGE = qoge (r_cum_unclaimed v),
     so_UTXOSetValueSatoshis = r_cum_utxo v, so_UTXOSetValueQOGE = qoge (r_cum_utxo v)\<rparr>"

definition zeroSupplyOverview :: "status \<Rightarrow> supply_overview" where
  "zeroSupplyOverview st = supply_overview_of st
    \<lparr>r_excluded = 0, r_cum_subsidy = 0, r_cum_fee = 0, r_cum_coinbase = 0, r_cum_unclaimed = 0,
     r_cum_excluded = 0, r_cum_utxo = 0\<rparr>"

definition SupplyOverview :: "bool \<Rightarrow> db \<Rightarrow> query_error + supply_overview" where
  "SupplyOverview tableExists d =
    (let st = statusFrom d in
     if IndexedHeight st = - 1 then Inr (zeroSupplyOverview st)
     else case IndexedHash st of
       None \<Rightarrow> Inl ErrSupplyIntegrity
     | Some hash \<Rightarrow>
         rbind (supplyRollupValuesFrom tableExists d hash) (\<lambda>v.
         rbind (checkSupplyRollupIdentities v) (\<lambda>_.
         Inr (supply_overview_of st v))))"

section \<open>composite.go\<close>

definition ExplorerOverview :: "db \<Rightarrow> int \<Rightarrow> status \<times> block_page" where
  "ExplorerOverview d recentBlocksPageSize =
    (let st = statusFrom d in (st, recentBlocksFrom d None recentBlocksPageSize))"

definition AddressDetail ::
  "db \<Rightarrow> string \<Rightarrow> int option \<Rightarrow> string option \<Rightarrow> int \<Rightarrow> address_summary \<times> history_page" where
  "AddressDetail d address beforeHeight beforeTxID pageSize =
    (let summary = addressSummaryFrom d address in
     (summary, addressHistoryFrom d address beforeHeight beforeTxID pageSize))"

end
