(* ===== verification/QueryBlocks.thy ===== *)
theory QueryBlocks
  imports Query BackfillFacts StoreWitness
begin

text \<open>
  The block queries on reachable databases: \<open>RecentBlocks\<close> as a listing that is walked by its
  cursors, and \<open>BlockByHash\<close> as the inverse of \<open>ApplyBlock\<close>.
\<close>

section \<open>The listing of canonical blocks\<close>

definition newest_first :: "db \<Rightarrow> (string \<times> block_row) list" where
  "newest_first d = order_desc (\<lambda>(_, r). b_height r) (filter (\<lambda>(_, r). b_canonical r) (blocks d))"

definition heights_ok :: "db \<Rightarrow> bool" where
  "heights_ok d \<longleftrightarrow> (\<forall>(_, r) \<in> set (newest_first d). 0 \<le> b_height r)
    \<and> distinct (map (\<lambda>(_, r). b_height r) (filter (\<lambda>(_, r). b_canonical r) (blocks d)))"

definition block_pages :: "db \<Rightarrow> int \<Rightarrow> int option \<Rightarrow> block_summary list \<times> int option" where
  "block_pages d p c = (let pg = RecentBlocks d c p in (bp_Blocks pg, bp_NextBeforeHeight pg))"

lemma scan_height [simp]: "bs_Height (scanBlockSummary x) = b_height (snd x)"
  "bs_Hash (scanBlockSummary x) = fst x"
  by (simp_all add: scanBlockSummary_def split: prod.split)

lemma recent_rows:
  "bp_Blocks (RecentBlocks d c p)
    = take (page_limit p) (past bs_Height c (map scanBlockSummary (newest_first d)))"
proof -
  have "order_desc (\<lambda>(_, r). b_height r)
      (filter (\<lambda>(_, r). b_canonical r \<and> (case c of None \<Rightarrow> True | Some b \<Rightarrow> b_height r < b)) (blocks d))
    = filter (\<lambda>x. case c of None \<Rightarrow> True | Some b \<Rightarrow> b_height (snd x) < b) (newest_first d)"
    unfolding newest_first_def order_desc_filter [symmetric] filter_filter
    by (rule arg_cong [where f = "order_desc _"]) (rule filter_cong; auto split: option.splits)
  then show ?thesis
    by (simp add: RecentBlocks_def recentBlocksFrom_def Let_def take_map [symmetric] past_def filter_map o_def
        split: option.split)
qed

lemma newest_first_desc:
  assumes "heights_ok d"
  shows "sorted_wrt (\<lambda>x y. bs_Height y < bs_Height x) (map scanBlockSummary (newest_first d))"
proof -
  have "sorted_wrt (\<lambda>x y. (case y of (_, r) \<Rightarrow> b_height r) < (case x of (_, r) \<Rightarrow> b_height r)) (newest_first d)"
    unfolding newest_first_def by (rule order_desc_sorted) (use assms in \<open>simp add: heights_ok_def\<close>)
  then show ?thesis by (simp add: sorted_wrt_map case_prod_beta)
qed

interpretation block_list: keyset_listing block_pages bs_Height
  "\<lambda>d. map scanBlockSummary (newest_first d)" heights_ok
proof
  fix d p c k
  assume ok: "heights_ok d"
  let ?all = "map scanBlockSummary (newest_first d)"
  let ?rows = "bp_Blocks (RecentBlocks d c p)"
  show desc: "sorted_wrt (\<lambda>x y. bs_Height y < bs_Height x) ?all" by (rule newest_first_desc [OF ok])
  show "fst (block_pages d p c) = take (page_limit p) (past bs_Height c ?all)"
    by (simp add: block_pages_def Let_def recent_rows)
  have cur: "snd (block_pages d p c) = (if int (length ?rows) = clampPageSize p \<and> bs_Height (last ?rows) > 0
      then Some (bs_Height (last ?rows)) else None)"
    by (simp add: block_pages_def RecentBlocks_def recentBlocksFrom_def Let_def)
  show "fst (block_pages d p c) \<noteq> [] \<and> k = bs_Height (last (fst (block_pages d p c)))"
    if "snd (block_pages d p c) = Some k"
    using that clampPageSize_bounds(1) [of p] unfolding cur
    by (auto simp: block_pages_def Let_def split: if_splits)
  show "length (past bs_Height c ?all) \<le> page_limit p" if "snd (block_pages d p c) = None"
  proof (rule ccontr)
    assume long: "\<not> ?thesis"
    let ?xs = "past bs_Height c ?all"
    have r: "?rows = take (page_limit p) ?xs" by (rule recent_rows)
    with long have full: "length ?rows = page_limit p" by simp
    then have n: "int (length ?rows) = clampPageSize p" "?rows \<noteq> []"
      using clampPageSize_bounds(1) [of p] by auto
    obtain z zs where z: "drop (page_limit p) ?xs = z # zs" using long by (cases "drop (page_limit p) ?xs") auto
    have "sorted_wrt (\<lambda>x y. bs_Height y < bs_Height x) ?xs"
      using desc by (simp add: past_def sorted_wrt_filter split: option.split)
    then have "sorted_wrt (\<lambda>x y. bs_Height y < bs_Height x) (?rows @ z # zs)"
      unfolding r z [symmetric] by simp
    then have "bs_Height z < bs_Height (last ?rows)" using n(2) by (simp add: sorted_wrt_append)
    moreover have "z \<in> set ?all"
      using z set_drop_subset [of "page_limit p" ?xs] by (auto simp: past_def split: option.splits)
    then have "0 \<le> bs_Height z" using ok by (auto simp: heights_ok_def)
    ultimately show False using that n(1) unfolding cur by simp
  qed
qed

section \<open>The walk on reachable databases\<close>

lemma canonical_in_table: "twf (blocks d) \<Longrightarrow>
  (k, r) \<in> set (filter (\<lambda>(_, r). b_canonical r) (blocks d)) \<longleftrightarrow> canonical d k r"
  by (auto simp: canonical_def tget_in_set in_set_tget)

lemma chain_heights:
  assumes "chain_path d base h tip" "twf (blocks d)"
  shows "heights_ok d" "map (\<lambda>x. b_height (snd x)) (newest_first d) = rev [base..h]"
proof -
  let ?cs = "filter (\<lambda>(_, r). b_canonical r) (blocks d)"
  note iff = canonical_in_table [OF assms(2)]
  note path = chain_pathD [OF assms(1)]
  have dist: "distinct (map fst ?cs)"
    using assms(2) unfolding twf_def by (rule distinct_map_filter)
  have inj: "inj_on (\<lambda>(_, r). b_height r) (set ?cs)"
  proof (rule inj_onI)
    fix x y
    assume x: "x \<in> set ?cs" "y \<in> set ?cs" and same: "(case x of (_, r) \<Rightarrow> b_height r) = (case y of (_, r) \<Rightarrow> b_height r)"
    obtain k r k' r' where e: "x = (k, r)" "y = (k', r')" by (cases x; cases y)
    have c: "canonical d k r" "canonical d k' r'" using x iff unfolding e by blast+
    with path(8) [OF c] same e show "x = y" by (simp add: canonical_def)
  qed
  have d: "distinct (map (\<lambda>(_, r). b_height r) ?cs)"
    using dist inj by (simp add: distinct_map)
  have "0 \<le> b_height r" if "(k, r) \<in> set ?cs" for k r
    using path(1) path(6) [of k r] iff that by force
  then show ok: "heights_ok d" using d by (auto simp: heights_ok_def newest_first_def)
  have "sorted_wrt (\<lambda>x y. b_height (snd y) < b_height (snd x)) (newest_first d)"
    using block_list.descending [OF ok] by (simp add: sorted_wrt_map)
  then have "sorted_wrt (<) (rev (map (\<lambda>x. b_height (snd x)) (newest_first d)))"
    by (simp add: sorted_wrt_rev sorted_wrt_map)
  moreover have "set (rev (map (\<lambda>x. b_height (snd x)) (newest_first d))) = set [base..h]"
  proof -
    have "set (newest_first d) = {(k, r). canonical d k r}"
      using iff by (auto simp: newest_first_def)
    then have "set (rev (map (\<lambda>x. b_height (snd x)) (newest_first d))) = {b_height r |k r. canonical d k r}"
      by (auto simp: image_def)
    also have "\<dots> = {base..h}"
    proof (intro equalityI subsetI)
      fix k assume "k \<in> {base..h}"
      then have "\<exists>c r. canonical d c r \<and> b_height r = k" using chain_path_full [OF assms(1)] by simp
      then show "k \<in> {b_height r |k r. canonical d k r}" by blast
    qed (use path(6,7) in auto)
    finally show ?thesis by simp
  qed
  ultimately have "rev (map (\<lambda>x. b_height (snd x)) (newest_first d)) = [base..h]"
    by (intro sorted_distinct_set_unique) (auto simp: strict_sorted_iff)
  then show "map (\<lambda>x. b_height (snd x)) (newest_first d) = rev [base..h]" by (metis rev_rev_ident)
qed

lemma empty_chain:
  assumes "\<forall>k r. \<not> canonical d k r" "twf (blocks d)"
  shows "newest_first d = []" "heights_ok d"
proof -
  have "filter (\<lambda>(_, r). b_canonical r) (blocks d) = []"
    using assms(1) canonical_in_table [OF assms(2)] by (auto simp: filter_empty_conv)
  then show "newest_first d = []" "heights_ok d" by (simp_all add: heights_ok_def newest_first_def order_desc_def)
qed

lemma canonical_listed:
  assumes "CanonicalBlockHash d h = Some k"
  shows "\<exists>x \<in> set (newest_first d). b_height (snd x) = h \<and> fst x = k"
proof -
  obtain r where "List.find (\<lambda>(_, r). b_height r = h \<and> b_canonical r) (blocks d) = Some (k, r)"
    using assms by (auto simp: CanonicalBlockHash_def)
  from find_member [OF this] have "(k, r) \<in> set (newest_first d)" "b_height r = h"
    by (auto simp: newest_first_def)
  then show ?thesis by force
qed

lemma reachable_listing:
  assumes "d = run s ops init_db"
  obtains base where "heights_ok d" "map (\<lambda>x. b_height (snd x)) (newest_first d) = rev [base..fst (Tip d)]"
    "\<forall>x \<in> set (newest_first d). CanonicalBlockHash d (b_height (snd x)) = Some (fst x)"
proof -
  have inv: "chain_inv d" "twf (blocks d)"
    using anchored_chain chain.reachable [of s ops] assms by (auto simp: all_ok_const)
  show thesis
  proof (cases "snd (sync_state d)")
    case None
    then have "newest_first d = []" "heights_ok d" "[0..fst (Tip d)] = []"
      using inv empty_chain by (auto simp: chain_inv_def Tip_def)
    then show ?thesis using that [of 0] by simp
  next
    case (Some tip)
    then obtain base where path: "chain_path d base (fst (Tip d)) tip"
      using inv(1) by (auto simp: chain_inv_def Tip_def)
    have "CanonicalBlockHash d (b_height (snd x)) = Some (fst x)" if "x \<in> set (newest_first d)" for x
      using that canonical_in_table [OF inv(2), of "fst x" "snd x"] CanonicalBlockHash_Some [OF path inv(2)]
      by (auto simp: newest_first_def)
    then show ?thesis using chain_heights [OF path inv(2)] that by blast
  qed
qed

lemma recent_complete:
  assumes "d = run s ops init_db"
  shows "(\<exists>base bs. walk (block_pages d p) None = Some bs
      \<and> map bs_Height bs = rev [base..fst (Tip d)]
      \<and> (\<forall>h k. CanonicalBlockHash d h = Some k \<longleftrightarrow> (h, k) \<in> (\<lambda>b. (bs_Height b, bs_Hash b)) ` set bs))
    \<and> length (bp_Blocks (RecentBlocks d c p)) \<le> 100"
proof
  obtain base where ok: "heights_ok d" and hs: "map (\<lambda>x. b_height (snd x)) (newest_first d) = rev [base..fst (Tip d)]"
    and hash: "\<forall>x \<in> set (newest_first d). CanonicalBlockHash d (b_height (snd x)) = Some (fst x)"
    by (rule reachable_listing [OF assms])
  define bs where "bs = map scanBlockSummary (newest_first d)"
  have "walk (block_pages d p) None = Some bs"
    unfolding bs_def using block_list.walk_all [OF ok, of p] by simp
  moreover have "map bs_Height bs = rev [base..fst (Tip d)]"
    using hs by (simp add: bs_def o_def)
  moreover have "CanonicalBlockHash d h = Some k \<longleftrightarrow> (h, k) \<in> (\<lambda>b. (bs_Height b, bs_Hash b)) ` set bs" for h k
  proof
    assume "CanonicalBlockHash d h = Some k"
    from canonical_listed [OF this] show "(h, k) \<in> (\<lambda>b. (bs_Height b, bs_Hash b)) ` set bs"
      by (force simp: bs_def)
  qed (use hash in \<open>auto simp: bs_def\<close>)
  ultimately show "\<exists>base bs. walk (block_pages d p) None = Some bs
      \<and> map bs_Height bs = rev [base..fst (Tip d)]
      \<and> (\<forall>h k. CanonicalBlockHash d h = Some k \<longleftrightarrow> (h, k) \<in> (\<lambda>b. (bs_Height b, bs_Hash b)) ` set bs)"
    by blast
  show "length (bp_Blocks (RecentBlocks d c p)) \<le> 100"
    using clampPageSize_bounds(2) [of p] by (simp add: recent_rows MaxPageSize_def)
qed

text \<open>
  Following \<open>NextBeforeHeight\<close> from the first page of \<open>RecentBlocks\<close> ends on every reachable
  database, whatever the page size, and collects exactly the canonical chain, newest block first:
  the canonical block of every height that has one, from the tip down without a gap. No page has
  more than 100 blocks.
\<close>

theorem RecentBlocks_walk:
  assumes "d = run s ops init_db"
  shows "(\<exists>base bs. walk (block_pages d p) None = Some bs
      \<and> map bs_Height bs = rev [base..fst (Tip d)]
      \<and> (\<forall>h k. CanonicalBlockHash d h = Some k \<longleftrightarrow> (h, k) \<in> (\<lambda>b. (bs_Height b, bs_Hash b)) ` set bs))
    \<and> length (bp_Blocks (RecentBlocks d c p)) \<le> 100"
  using recent_complete [OF assms] .

section \<open>One block\<close>

lemma blockTxRefs_rows:
  assumes "positional (block_transactions d) h"
  shows "blockTxRefs d h
    = map (\<lambda>(i, r). \<lparr>ref_Index = i, ref_TxID = bt_txid r, ref_WTxID = bt_wtxid r\<rparr>) (rows_of (block_transactions d) h)"
proof -
  let ?rows = "filter (\<lambda>((bh, _), _). bh = h) (block_transactions d)"
  have shape: "(\<lambda>((bh, _), _). bh = h) = (\<lambda>(k, _ :: bt_row). fst k = h)"
    "(\<lambda>((_, i), _). i) = (\<lambda>x :: (string \<times> nat) \<times> bt_row. snd (fst x))" by auto
  have "map (\<lambda>((_, i), _). i) ?rows = [0..<length ?rows]"
    using assms unfolding positional_def rows_of_def shape by (simp add: o_def case_prod_beta)
  then have "sorted (map (\<lambda>((_, i), _). i) ?rows)" by simp
  then have "sort_key (\<lambda>((_, i), _). i) ?rows = ?rows" by (rule sort_key_id_if_sorted)
  then show ?thesis unfolding blockTxRefs_def rows_of_def shape by (simp add: o_def case_prod_beta)
qed

lemma occurrences_fixed:
  assumes "accounted s d" "db_wf d" "tget (blocks d) h \<noteq> None"
  shows "rows_of (block_transactions (run s ops d)) h = rows_of (block_transactions d) h"
  using assms
proof (induction ops arbitrary: d)
  case (Cons op ops)
  show ?case
  proof (cases "attempt s op d")
    case (Inr e)
    have "accounted s e" using accounting.step Cons.prems(1) Inr by blast
    moreover have kept: "db_wf e" "rows_kept d e"
      using immutable.attempt [OF Inr] Cons.prems(2) by (simp_all add: keeps_def)
    then have "tget (blocks e) h \<noteq> None" using Cons.prems(3) unfolding rows_kept_def by blast
    moreover have "rows_of (block_transactions e) h = rows_of (block_transactions d) h"
    proof (cases op)
      case (Apply b)
      then have "ApplyBlock s b d = Inr e" using Inr by (simp add: attempt_def)
      from ApplyBlock_rows [OF this accountedD(1,2) [OF Cons.prems(1)]] Cons.prems(3) show ?thesis by metis
    next
      case (Rollback k)
      then show ?thesis using Inr RollbackTo_source(2) [of s k d e] by (simp add: attempt_def)
    qed
    ultimately show ?thesis using Cons.IH [of e] kept(1) Inr by (simp add: run_step_def)
  qed (use Cons in \<open>simp add: run_step_def\<close>)
qed simp

text \<open>The canonical flag of a stored block against the lookup by height.\<close>

lemma canonical_lookup:
  assumes "chain_inv f" "twf (blocks f)" "tget (blocks f) k = Some r"
  shows "b_canonical r \<longleftrightarrow> CanonicalBlockHash f (b_height r) = Some k"
    "b_canonical r \<Longrightarrow>
      List.find (\<lambda>(_, q). b_height q = b_height r \<and> b_canonical q) (blocks f) = Some (k, r)"
proof -
  let ?find = "List.find (\<lambda>(_, q). b_height q = b_height r \<and> b_canonical q) (blocks f)"
  have row: "q = r \<and> b_canonical r" if "?find = Some (k, q)" for q
    using find_member [OF that] assms(3) in_set_tget [OF assms(2)] by simp
  have hash: "CanonicalBlockHash f (b_height r) = Some k" if c: "b_canonical r"
  proof -
    have "canonical f k r" using c assms(3) by (simp add: canonical_def)
    moreover from this obtain tip base where "chain_path f base (fst (sync_state f)) tip"
      using assms(1) by (auto simp: chain_inv_def split: option.splits)
    ultimately show ?thesis using CanonicalBlockHash_Some [OF _ assms(2)] by blast
  qed
  then show "b_canonical r \<longleftrightarrow> CanonicalBlockHash f (b_height r) = Some k"
    using row by (auto simp: CanonicalBlockHash_def)
  show "?find = Some (k, r)" if "b_canonical r"
    using hash [OF that] row by (auto simp: CanonicalBlockHash_def)
qed

lemma block_served:
  assumes "d = run s ops init_db" "ApplyBlock s b d = Inr e" "f = run s later e"
  shows "\<exists>r. BlockByHash f (blk_Hash b) = Inr (scanBlockSummary (blk_Hash b, r),
        map (\<lambda>(i, txn). \<lparr>ref_Index = i, ref_TxID = tx_TxID txn, ref_WTxID = tx_WTxID txn\<rparr>)
          (enumerate 0 (blk_Transactions b)))
    \<and> same_block (block_row_of b) r
    \<and> (b_canonical r \<longleftrightarrow> CanonicalBlockHash f (blk_Height b) = Some (blk_Hash b))
    \<and> (b_canonical r \<longrightarrow> BlockByHeight f (blk_Height b) = BlockByHash f (blk_Hash b))"
proof -
  have acc: "accounted s d" using accounting.reachable [of s ops] assms(1) by simp
  have wf: "db_wf d" using immutable.run [of init_db s ops] init_db_wf assms(1) by (simp add: keeps_def)
  have step: "attempt s (Apply b) d = Inr e" using assms(2) by (simp add: attempt_def)
  have e: "accounted s e" "db_wf e"
    using accounting.step acc step immutable.attempt [OF step] wf by (auto simp: keeps_def)
  have f: "accounted s f" "rows_kept e f" "db_wf f"
    using accounting.run_inv e(1) immutable.run [of e s later] e(2) assms(3) by (simp_all add: keeps_def)
  obtain r0 where r0: "canonical e (blk_Hash b) r0" "same_block (block_row_of b) r0"
    using ApplyBlock_chain(2) [OF assms(2) accountedD(2) [OF acc]] by blast
  then obtain r where r: "tget (blocks f) (blk_Hash b) = Some r" "same_modulo_canonical r0 r"
    using f(2) unfolding rows_kept_def canonical_def by blast
  have same: "same_block (block_row_of b) r"
    using r0(2) r(2) by (cases r0; cases r) (simp add: same_block_def same_modulo_canonical_def)
  obtain cb txs where "rows_of (block_transactions e) (blk_Hash b) = enumerate 0 (map bt_row_of (cb # txs))"
    "blk_Transactions b = cb # txs"
    by (rule ApplyBlock_rows [OF assms(2) accountedD(1,2) [OF acc]])
  then have rows: "rows_of (block_transactions f) (blk_Hash b) = enumerate 0 (map bt_row_of (blk_Transactions b))"
    using occurrences_fixed [OF e, of "blk_Hash b" later] r0(1) assms(3) by (simp add: canonical_def)
  have refs: "blockTxRefs f (blk_Hash b)
    = map (\<lambda>(i, txn). \<lparr>ref_Index = i, ref_TxID = tx_TxID txn, ref_WTxID = tx_WTxID txn\<rparr>)
        (enumerate 0 (blk_Transactions b))"
    unfolding blockTxRefs_rows [OF source_okD(2) [OF accountedD(1) [OF f(1)]]] rows
    by (simp add: enumerate_map bt_row_of_def o_def case_prod_beta)
  have fr: "f = run s (ops @ Apply b # later) init_db"
    using assms step by (simp add: run_append run_step_def)
  have inv: "chain_inv f" "twf (blocks f)"
    using anchored_chain chain.reachable [of s "ops @ Apply b # later"] fr by (auto simp: all_ok_const)
  have h: "b_height r = blk_Height b" using same by (simp add: same_block_fields)
  have byhash: "BlockByHash f (blk_Hash b) = Inr (scanBlockSummary (blk_Hash b, r), blockTxRefs f (blk_Hash b))"
    by (simp add: BlockByHash_def blockDetailFromRow_def r(1))
  note canon = canonical_lookup [OF inv r(1)]
  have "BlockByHeight f (blk_Height b) = BlockByHash f (blk_Hash b)" if "b_canonical r"
    using canon(2) [OF that] unfolding h byhash by (simp add: BlockByHeight_def blockDetailFromRow_def)
  moreover note canon(1)
  ultimately show ?thesis using byhash same unfolding refs h by blast
qed

text \<open>
  A block can be read back as it was applied: after a successful \<open>ApplyBlock\<close> on a reachable
  database, and after any later operations, \<open>BlockByHash\<close> finds the block with its header fields
  and its transactions in the order of the block, and reports it as canonical exactly while it is
  the canonical block of its height; \<open>BlockByHeight\<close> then returns the same answer.
\<close>

theorem BlockByHash_reads_back:
  assumes "d = run s ops init_db" "ApplyBlock s b d = Inr e" "f = run s later e"
  shows "\<exists>r. BlockByHash f (blk_Hash b) = Inr (scanBlockSummary (blk_Hash b, r),
        map (\<lambda>(i, txn). \<lparr>ref_Index = i, ref_TxID = tx_TxID txn, ref_WTxID = tx_WTxID txn\<rparr>)
          (enumerate 0 (blk_Transactions b)))
    \<and> same_block (block_row_of b) r
    \<and> (b_canonical r \<longleftrightarrow> CanonicalBlockHash f (blk_Height b) = Some (blk_Hash b))
    \<and> (b_canonical r \<longrightarrow> BlockByHeight f (blk_Height b) = BlockByHash f (blk_Hash b))"
  using block_served [OF assms] .

end
