(* ===== verification/QueryMoney.thy ===== *)
theory QueryMoney
  imports Query BackfillRollup BackfillDistribution
begin

text \<open>
  The monetary queries on reachable databases: the rich list is the ranking of the exact balances,
  and the supply overview reports the value of the coins.
\<close>

section \<open>The rich list\<close>

definition positive_balances :: "db \<Rightarrow> (string \<times> int) list" where
  "positive_balances d = filter (\<lambda>(_, b). b > 0) (map (\<lambda>(a, r). (a, a_balance r)) (addresses d))"

definition ranking :: "string \<times> int \<Rightarrow> int \<times> string" where
  "ranking = (\<lambda>(a, b). (- b, a))"

lemma ranking_inj: "ranking x = ranking y \<longleftrightarrow> x = y"
  by (cases x; cases y) (auto simp: ranking_def)

lemma richlist_rows_eq: "richlist_rows d = take 100 (sort_key ranking (positive_balances d))"
  by (simp add: richlist_rows_def RichListLimit_def ranking_def positive_balances_def)

text \<open>The loop numbers the rows in order.\<close>

lemma number_rows:
  "foldl (\<lambda>entries (address, balance). entries @
      [\<lparr>re_Rank = length entries + 1, re_Address = address, re_BalanceSatoshis = balance,
        re_BalanceQOGE = qoge balance\<rparr>]) acc rows
    = acc @ map (\<lambda>(i, a, b). \<lparr>re_Rank = i + 1, re_Address = a, re_BalanceSatoshis = b, re_BalanceQOGE = qoge b\<rparr>)
        (enumerate (length acc) rows)"
  by (induction rows arbitrary: acc) auto

lemma entries_rows: "richListEntriesFrom d
    = map (\<lambda>(i, a, b). \<lparr>re_Rank = i + 1, re_Address = a, re_BalanceSatoshis = b, re_BalanceQOGE = qoge b\<rparr>)
        (enumerate 0 (richlist_rows d))"
  unfolding richListEntriesFrom_def number_rows by simp

lemma positive_balances_exact:
  assumes "addr_exact d"
  shows "distinct (map fst (positive_balances d))"
    "set (positive_balances d) = {(a, unspent_value d a) |a. 0 < unspent_value d a}"
proof -
  have wf: "twf (addresses d)" using assms refs_ok_twf by (simp add: addr_exact_def)
  have "map fst (map (\<lambda>(a, r). (a, a_balance r)) (addresses d)) = map fst (addresses d)"
    by (simp add: case_prod_beta)
  then show "distinct (map fst (positive_balances d))"
    unfolding positive_balances_def using wf by (metis distinct_map_filter twf_def)
  show "set (positive_balances d) = {(a, unspent_value d a) |a. 0 < unspent_value d a}"
  proof (intro equalityI subsetI)
    fix x assume "x \<in> set (positive_balances d)"
    then obtain a r where r: "(a, r) \<in> set (addresses d)" "0 < a_balance r" "x = (a, a_balance r)"
      by (auto simp: positive_balances_def)
    then have "tget (addresses d) a = Some r" using in_set_tget [OF wf] by simp
    then have "a_balance r = unspent_value d a"
      using cached_balance [OF assms, of a] by (simp add: currentAddressBalance_def)
    with r show "x \<in> {(a, unspent_value d a) |a. 0 < unspent_value d a}" by simp
  next
    fix x assume "x \<in> {(a, unspent_value d a) |a. 0 < unspent_value d a}"
    then obtain a where a: "x = (a, unspent_value d a)" "0 < unspent_value d a" by blast
    with cached_balance [OF assms, of a] obtain r where "tget (addresses d) a = Some r" "a_balance r = unspent_value d a"
      by (auto simp: currentAddressBalance_def split: option.splits)
    with a show "x \<in> set (positive_balances d)"
      using tget_in_set by (force simp: positive_balances_def)
  qed
qed

lemma ranked_rows:
  assumes "addr_exact d"
  shows "sorted_wrt (\<lambda>x y. ranking x < ranking y) (sort_key ranking (positive_balances d))"
proof -
  have "distinct (positive_balances d)" using positive_balances_exact(1) [OF assms] by (simp add: distinct_map)
  then have "distinct (map ranking (sort_key ranking (positive_balances d)))"
    by (simp add: distinct_map inj_on_def ranking_inj)
  then have "sorted_wrt (<) (map ranking (sort_key ranking (positive_balances d)))"
    by (simp only: strict_sorted_iff sorted_sort_key)
  then show ?thesis by (simp add: sorted_wrt_map)
qed

lemma left_out:
  assumes "sorted_wrt R xs" "x \<in> set xs" "x \<notin> set (take n xs)"
  shows "length (take n xs) = n \<and> (\<forall>y \<in> set (take n xs). R y x)"
proof -
  have out: "x \<in> set (drop n xs)" using assms(2,3) by (metis Un_iff append_take_drop_id set_append)
  have "sorted_wrt R (take n xs @ drop n xs)" using assms(1) by simp
  then show ?thesis using out unfolding sorted_wrt_append by (cases "n \<le> length xs") auto
qed

text \<open>
  C19 On every reachable database the rich list is the ranking of the exact unspent balances: ranks
  count from 1, there are as many entries as positive balances but at most 100, each entry shows
  the sum of the address's unspent outputs, larger balances come first and equal ones in ascending
  byte order of the address, no address occurs twice, and an address left out ranks after all
  entries of a full list.
\<close>

theorem RichListOverview_ranks_balances:
  assumes "map_order_ok s" "d = run s ops init_db" "RichListOverview d = (st, es)"
  shows "map re_Rank es = [1..<length es + 1]
    \<and> length es = min 100 (card {a. 0 < unspent_value d a})
    \<and> sorted_wrt (\<lambda>x y. (- re_BalanceSatoshis x, re_Address x) < (- re_BalanceSatoshis y, re_Address y)) es
    \<and> (\<forall>e \<in> set es. 0 < re_BalanceSatoshis e \<and> re_BalanceSatoshis e = unspent_value d (re_Address e))
    \<and> (\<forall>a. 0 < unspent_value d a \<longrightarrow> a \<notin> re_Address ` set es \<longrightarrow>
         length es = 100 \<and> (\<forall>e \<in> set es. (- re_BalanceSatoshis e, re_Address e) < (- unspent_value d a, a)))"
proof -
  have inv: "addr_exact d"
    using dist.reachable [of s ops] assms(1,2) by (simp_all add: all_ok_const)
  note bal = positive_balances_exact [OF inv] and ord = ranked_rows [OF inv]
  let ?all = "sort_key ranking (positive_balances d)"
  have es: "es = map (\<lambda>(i, a, b). \<lparr>re_Rank = i + 1, re_Address = a, re_BalanceSatoshis = b, re_BalanceQOGE = qoge b\<rparr>)
      (enumerate 0 (take 100 ?all))"
    using assms(3) by (simp add: RichListOverview_def Let_def entries_rows richlist_rows_eq)
  have key: "map (\<lambda>e. (re_Address e, re_BalanceSatoshis e)) es = take 100 ?all"
    unfolding es by (simp add: o_def case_prod_beta)
  have rank: "map re_Rank es = [1..<length es + 1]"
    by (rule nth_equalityI) (auto simp: es nth_enumerate_eq simp del: upt_Suc split: prod.split)
  have "card {a. 0 < unspent_value d a} = length (positive_balances d)"
  proof -
    have "fst ` set (positive_balances d) = {a. 0 < unspent_value d a}" unfolding bal(2) by force
    then show ?thesis using bal(1) by (metis distinct_card length_map set_map)
  qed
  then have len: "length es = min 100 (card {a. 0 < unspent_value d a})" unfolding es by simp
  have ranked: "sorted_wrt (\<lambda>x y. ranking x < ranking y) (map (\<lambda>e. (re_Address e, re_BalanceSatoshis e)) es)"
    unfolding key using ord by (rule sorted_wrt_take)
  have sub: "(re_Address e, re_BalanceSatoshis e) \<in> set (positive_balances d)" if "e \<in> set es" for e
  proof -
    have "(re_Address e, re_BalanceSatoshis e) \<in> set (take 100 ?all)" unfolding key [symmetric] using that by simp
    then show ?thesis using set_take_subset [of 100 ?all] by auto
  qed
  have rest: "length es = 100 \<and> (\<forall>e \<in> set es. (- re_BalanceSatoshis e, re_Address e) < (- unspent_value d a, a))"
    if a: "0 < unspent_value d a" "a \<notin> re_Address ` set es" for a
  proof -
    have "(a, unspent_value d a) \<in> set ?all" using a(1) bal(2) by auto
    moreover have "(a, unspent_value d a) \<notin> set (take 100 ?all)"
      unfolding key [symmetric] using a(2) by auto
    ultimately have "length (take 100 ?all) = 100 \<and> (\<forall>x \<in> set (take 100 ?all). ranking x < ranking (a, unspent_value d a))"
      by (rule left_out [OF ord])
    then show ?thesis unfolding key [symmetric] by (simp add: ranking_def)
  qed
  show ?thesis
    using rank len ranked sub rest unfolding bal(2) by (auto simp: sorted_wrt_map ranking_def)
qed

section \<open>The supply overview\<close>

lemma checkedAddInt64_exact: "in_i64 a \<Longrightarrow> in_i64 b \<Longrightarrow>
    checkedAddInt64 a b = (if in_i64 (a + b) then Some (a + b) else None)"
  using addChecked_exact [of a b] by (simp add: checkedAddInt64_def addChecked_def)

lemma identities_hold:
  assumes "rollup_checks v" "rollup_fits v"
  shows "checkSupplyRollupIdentities v = Inr ()"
  using assms by (simp add: checkSupplyRollupIdentities_def rollup_checks_def rollup_fits_def checkedAddInt64_exact)

lemma no_tip_no_coins:
  assumes "utxo_canon d" "snd (sync_state d) = None"
  shows "unspent_total d = 0"
proof -
  have none: "\<forall>k r. \<not> canonical d k r"
    using assms anchored_chain by (fastforce simp: utxo_canon_def chain_inv_def)
  have "tget (utxo_state d) op = None" for op
    using utxo_canonD [OF assms(1), of op] none by (cases "tget (utxo_state d) op") (auto simp: coin_ok_def block_at_def)
  then have "tget (utxo_state d) = Map.empty" by (simp add: fun_eq_iff)
  then have "utxo_state d = []" by (simp add: tget_def [abs_def] map_of_eq_empty_iff)
  then show ?thesis by (simp add: unspent_total_def tsum_def)
qed

text \<open>
  C18 The supply overview on reachable databases that hold every block and transaction only once:
  it never reports an integrity failure; it answers unless the chain does not start at height 0,
  and then with the checkpoint, the exact sum of the unspent outputs as UTXO set value, and totals
  that satisfy the reward identity.
\<close>

theorem SupplyOverview_exact:
  assumes "all_ok fresh_block s ops init_db" "d = run s ops init_db"
  shows "case SupplyOverview True d of
      Inl e \<Rightarrow> e = ErrSupplyRollupUnavailable \<and> snd (Tip d) \<noteq> None \<and> CanonicalBlockHash d 0 = None
    | Inr v \<Rightarrow> (so_IndexedHeight v, so_IndexedHash v) = Tip d
        \<and> so_UTXOSetValueSatoshis v = unspent_total d
        \<and> so_CoinbaseOutputsSatoshis v + so_UnclaimedRewardSatoshis v
          = so_ScheduledSubsidySatoshis v + so_TransactionFeesSatoshis v"
proof -
  have inv: "supply_inv d" using rollup.reachable assms by simp
  have "rollup_chained d" using chained.reachable [of s ops] assms(2) by (simp add: backfillable_def)
  then have row: "checkSupplyRollupIdentities v = Inr ()" "r_cum_coinbase v + r_cum_unclaimed v = r_cum_subsidy v + r_cum_fee v"
    if "tget (block_supply_rollup d) k = Some v" for k v
    using that identities_hold by (auto simp: rollup_chained_def rollup_derived_def rollup_checks_def)
  have ci: "chain_inv d" using supply_inv_wf [OF inv] anchored_chain by blast
  show ?thesis
  proof (cases "snd (sync_state d)")
    case None
    then have "fst (sync_state d) = - 1" using ci by (simp add: chain_inv_def)
    then show ?thesis
      using no_tip_no_coins [of d] None inv
      by (cases "sync_state d") (simp add: SupplyOverview_def Let_def statusFrom_def zeroSupplyOverview_def
          supply_overview_of_def Tip_def supply_inv_def)
  next
    case (Some t)
    then obtain h where sd: "sync_state d = (h, Some t)" by (cases "sync_state d") simp
    then have h: "h \<noteq> - 1" using ci by (auto simp: chain_inv_def chain_path_def)
    note tip = tip_rollup [OF inv sd]
    show ?thesis
    proof (cases "tget (block_supply_rollup d) t")
      case None
      then have "CanonicalBlockHash d 0 = None" using tip(2,3) by blast
      then show ?thesis using sd h None
        by (simp add: SupplyOverview_def Let_def statusFrom_def supplyRollupValuesFrom_def Tip_def)
    next
      case (Some v)
      then show ?thesis using sd h row [OF Some] tip(1) [OF Some]
        by (simp add: SupplyOverview_def Let_def statusFrom_def supplyRollupValuesFrom_def Tip_def supply_overview_of_def)
    qed
  qed
qed

end
