(* ===== verification/QueryHistory.thy ===== *)
theory QueryHistory
  imports QueryBlocks StoreUtxo
begin

text \<open>
  \<open>AddressHistory\<close> on reachable databases: the pages walk the canonical transactions that pay to
  the address or spend what it received.
\<close>

definition history_pages ::
  "db \<times> string \<Rightarrow> int \<Rightarrow> (int \<times> string) option \<Rightarrow> history_entry list \<times> (int \<times> string) option" where
  "history_pages x p c =
    (let pg = AddressHistory (fst x) (snd x) (map_option fst c) (map_option snd c) p
     in (hp_Transactions pg,
         case (hp_NextBeforeHeight pg, hp_NextBeforeTxID pg) of
           (Some h, Some t) \<Rightarrow> Some (h, t) | _ \<Rightarrow> None))"

definition history :: "db \<times> string \<Rightarrow> history_entry list" where
  "history x = order_desc history_key (touches (fst x) (snd x))"

definition history_ok :: "db \<times> string \<Rightarrow> bool" where
  "history_ok x \<longleftrightarrow> inj_on history_key (set (touches (fst x) (snd x)))"

lemma before_key: "history_before (map_option fst c) (map_option snd c) e
    \<longleftrightarrow> (case c of None \<Rightarrow> True | Some k \<Rightarrow> history_key e < k)"
  by (cases c) (auto simp: history_before_def history_key_def less_prod_def)

lemma remdups_touches: "remdups (filter P (touches d a)) = filter P (touches d a)" "remdups (touches d a) = touches d a"
  by (simp_all add: touches_def distinct_remdups_id)

lemma history_rows:
  "hp_Transactions (AddressHistory d a (map_option fst c) (map_option snd c) p)
    = take (page_limit p) (past history_key c (history (d, a)))"
  by (simp add: AddressHistory_def addressHistoryFrom_def Let_def remdups_touches order_desc_filter history_def past_def
      before_key [abs_def] split: option.split)

lemma history_cursor: "snd (history_pages x p c) =
    (let rs = fst (history_pages x p c) in
     if int (length rs) = clampPageSize p then Some (history_key (last rs)) else None)"
  by (simp add: history_pages_def AddressHistory_def addressHistoryFrom_def Let_def history_key_def)

interpretation history_list: keyset_listing history_pages history_key history history_ok
proof
  fix x :: "db \<times> string" and p c k
  assume ok: "history_ok x"
  show "sorted_wrt (\<lambda>a b. history_key b < history_key a) (history x)"
    unfolding history_def using ok
    by (intro order_desc_sorted) (simp add: distinct_map history_ok_def touches_def)
  show rows: "fst (history_pages x p c) = take (page_limit p) (past history_key c (history x))"
    by (cases x) (simp add: history_pages_def Let_def history_rows)
  have pos: "1 \<le> clampPageSize p" by (rule clampPageSize_bounds)
  show "fst (history_pages x p c) \<noteq> [] \<and> k = history_key (last (fst (history_pages x p c)))"
    if "snd (history_pages x p c) = Some k"
    using that pos unfolding history_cursor Let_def by (auto split: if_splits)
  show "length (past history_key c (history x)) \<le> page_limit p" if "snd (history_pages x p c) = None"
    using that pos unfolding history_cursor Let_def rows by (auto split: if_splits)
qed

section \<open>What the listing contains\<close>

text \<open>An occurrence of a transaction in a canonical block, and the transactions of an address.\<close>

definition occurs :: "db \<Rightarrow> history_entry \<Rightarrow> bool" where
  "occurs d e \<longleftrightarrow> (\<exists>i r b. tget (block_transactions d) (he_BlockHash e, i) = Some r \<and> bt_txid r = he_TxID e
    \<and> canonical d (he_BlockHash e) b \<and> he_BlockHeight e = b_height b)"

definition touched_by :: "db \<Rightarrow> string \<Rightarrow> string \<Rightarrow> bool" where
  "touched_by d a txid \<longleftrightarrow> (\<exists>op. tget (output_addresses d) op = Some a
    \<and> (fst op = txid \<or> (\<exists>vin inp. tget (transaction_inputs d) (txid, vin) = Some inp \<and> i_prev inp = Some op)))"

lemma in_concat_map: "y \<in> set (concat (map f xs)) \<longleftrightarrow> (\<exists>x \<in> set xs. y \<in> set (f x))"
  by simp

lemma canonical_occurrence_None:
  "tget (blocks d) bh = None \<Longrightarrow> canonical_occurrence d txid ((bh, i), r) = []"
  by (simp add: canonical_occurrence_def)

lemma canonical_occurrence_Some:
  "tget (blocks d) bh = Some q \<Longrightarrow> canonical_occurrence d txid ((bh, i), r) = (if bt_txid r = txid \<and> b_canonical q
     then [\<lparr>he_TxID = txid, he_BlockHash = bh, he_BlockHeight = b_height q\<rparr>] else [])"
  by (simp add: canonical_occurrence_def)

lemma canonical_occurrence_iff: "e \<in> set (canonical_occurrence d txid ((bh, i), r)) \<longleftrightarrow>
    bt_txid r = txid \<and> he_TxID e = txid \<and> he_BlockHash e = bh
    \<and> (\<exists>b. canonical d bh b \<and> he_BlockHeight e = b_height b)"
proof (cases "tget (blocks d) bh")
  case None
  then have "\<not> canonical d bh b" for b by (simp add: canonical_def)
  with canonical_occurrence_None [OF None] show ?thesis by (simp only: list.set empty_iff) blast
next
  case (Some q)
  then have "canonical d bh b \<longleftrightarrow> b = q \<and> b_canonical q" for b by (auto simp: canonical_def)
  moreover have "e \<in> set (canonical_occurrence d txid ((bh, i), r)) \<longleftrightarrow> bt_txid r = txid \<and> b_canonical q
      \<and> he_TxID e = txid \<and> he_BlockHash e = bh \<and> he_BlockHeight e = b_height q"
    unfolding canonical_occurrence_Some [OF Some] by (cases e) auto
  ultimately show ?thesis by metis
qed

lemma canonical_occurrences_iff:
  assumes "db_wf d"
  shows "e \<in> set (canonical_occurrences d txid) \<longleftrightarrow> occurs d e \<and> he_TxID e = txid"
proof -
  have wf: "twf (block_transactions d)" using assms by (simp add: db_wf_def)
  have "e \<in> set (canonical_occurrences d txid) \<longleftrightarrow> (\<exists>bh i r. ((bh, i), r) \<in> set (block_transactions d)
    \<and> e \<in> set (canonical_occurrence d txid ((bh, i), r)))"
    unfolding canonical_occurrences_def in_concat_map by (metis surj_pair)
  then show ?thesis unfolding canonical_occurrence_iff in_set_tget [OF wf] occurs_def by metis
qed

lemma received_iff:
  assumes "refs_ok d" "twf (output_addresses d)"
  shows "e \<in> set (received d a) \<longleftrightarrow>
    (\<exists>op. tget (output_addresses d) op = Some a \<and> e \<in> set (canonical_occurrences d (fst op)))"
proof -
  have "e \<in> set (received d a) \<longleftrightarrow> (\<exists>op a'. (op, a') \<in> set (output_addresses d) \<and> a' = a
    \<and> tget (transaction_outputs d) op \<noteq> None \<and> e \<in> set (canonical_occurrences d (fst op)))"
    unfolding received_def in_concat_map by (rule iffI; clarsimp split: if_splits; blast)
  moreover have "tget (output_addresses d) op = Some a \<Longrightarrow> tget (transaction_outputs d) op \<noteq> None" for op
    by (rule conjunct2 [OF refs_okD(1) [OF assms(1)]])
  ultimately show ?thesis unfolding in_set_tget [OF assms(2)] by (metis (no_types, lifting))
qed

lemma spent_iff:
  assumes "twf (output_addresses d)" "twf (transaction_inputs d)"
  shows "e \<in> set (spent d a) \<longleftrightarrow> (\<exists>op txid vin inp. tget (output_addresses d) op = Some a
    \<and> tget (transaction_inputs d) (txid, vin) = Some inp \<and> i_prev inp = Some op
    \<and> e \<in> set (canonical_occurrences d txid))"
proof -
  have "e \<in> set (spending d op) \<longleftrightarrow> (\<exists>txid vin inp. ((txid, vin), inp) \<in> set (transaction_inputs d)
      \<and> i_prev inp = Some op \<and> e \<in> set (canonical_occurrences d txid))" for op
    unfolding spending_def in_concat_map by (rule iffI; clarsimp split: if_splits; blast)
  moreover have "e \<in> set (spent d a) \<longleftrightarrow> (\<exists>op a'. (op, a') \<in> set (output_addresses d) \<and> a' = a \<and> e \<in> set (spending d op))"
    unfolding spent_def in_concat_map by (rule iffI; clarsimp split: if_splits; blast)
  ultimately show ?thesis unfolding in_set_tget [OF assms(1)] in_set_tget [OF assms(2)] by blast
qed

lemma touches_iff:
  assumes "refs_ok d"
  shows "e \<in> set (touches d a) \<longleftrightarrow> occurs d e \<and> touched_by d a (he_TxID e)"
proof -
  have wf: "db_wf d" "twf (output_addresses d)" "twf (transaction_inputs d)"
    using assms refs_ok_db_wf by (simp_all add: db_wf_def refs_ok_def)
  show ?thesis
    unfolding touches_def touched_by_def set_remdups set_append Un_iff received_iff [OF assms wf(2)]
      spent_iff [OF wf(2,3)] canonical_occurrences_iff [OF wf(1)] by (rule iffI; clarsimp; metis)
qed

lemma history_ok_reachable:
  assumes "refs_ok d" "chain_inv d"
  shows "history_ok (d, a)"
  unfolding history_ok_def
proof (rule inj_onI, unfold fst_conv snd_conv)
  fix e e' assume "e \<in> set (touches d a)" "e' \<in> set (touches d a)" and k: "history_key e = history_key e'"
  then have "occurs d e" "occurs d e'" using touches_iff [OF assms(1)] by auto
  then obtain b b' where c: "canonical d (he_BlockHash e) b" "he_BlockHeight e = b_height b"
    "canonical d (he_BlockHash e') b'" "he_BlockHeight e' = b_height b'" by (auto simp: occurs_def)
  then obtain base h tip where "chain_path d base h tip"
    using assms(2) by (auto simp: chain_inv_def split: option.splits)
  from chain_pathD(8) [OF this c(1,3)] show "e = e'" using k c(2,4) by (simp add: history_key_def)
qed

text \<open>
  C17 Following the cursors of \<open>AddressHistory\<close> ends on every reachable database and collects each
  canonical occurrence of a transaction that pays to the address or spends an output paid to it,
  exactly once and nothing else, by descending height and transaction id. Outputs outside the coin
  set (genesis, unspendable) count too.
\<close>

theorem AddressHistory_walk:
  assumes "d = run s ops init_db"
  shows "\<exists>es. walk (history_pages (d, a) p) None = Some es \<and> distinct es
    \<and> set es = {e. occurs d e \<and> touched_by d a (he_TxID e)}
    \<and> sorted_wrt (\<lambda>x y. he_BlockHeight y < he_BlockHeight x
        \<or> he_BlockHeight y = he_BlockHeight x \<and> he_TxID y < he_TxID x) es"
proof -
  have "utxo_canon d" using coins.reachable [of s ops] assms by simp
  then have inv: "refs_ok d" "chain_inv d" using anchored_chain by (auto simp: utxo_canon_def)
  note ok = history_ok_reachable [OF inv, of a]
  have "sorted_wrt (\<lambda>x y. he_BlockHeight y < he_BlockHeight x
      \<or> he_BlockHeight y = he_BlockHeight x \<and> he_TxID y < he_TxID x) (history (d, a))"
    using history_list.descending [OF ok] by (rule sorted_wrt_mono_rel [rotated]) (auto simp: history_key_def less_prod_def)
  moreover have "distinct (history (d, a))" by (simp add: history_def order_desc_def touches_def)
  moreover have "set (history (d, a)) = {e. occurs d e \<and> touched_by d a (he_TxID e)}"
    using touches_iff [OF inv(1)] by (auto simp: history_def)
  ultimately show ?thesis using history_list.walk_all [OF ok] by blast
qed

end
