(* ===== verification/QueryTx.thy ===== *)
theory QueryTx
  imports Query
begin

text \<open>
  \<open>internal/query/transactions.go\<close>: a transaction with its block occurrences, the witness
  variant that represents it, and its inputs and outputs as the tables hold them.
\<close>

record tx_occurrence =
  oc_BlockHash :: string
  oc_BlockHeight :: int
  oc_TxIndex :: nat
  oc_WTxID :: string
  oc_Canonical :: bool

record witness_item =
  wi_ItemIndex :: nat
  wi_SizeBytes :: nat
  wi_DataHex :: "string option"

record input_detail =
  id_VinIndex :: nat
  id_CoinbaseHex :: "string option"
  id_PrevTxID :: "string option"
  id_PrevVoutIndex :: "nat option"
  id_ScriptSigHex :: string
  id_Sequence :: "32 word"
  id_Witness :: "witness_item list"

record output_detail =
  od_VoutIndex :: nat
  od_ValueSatoshis :: int
  od_ValueQOGE :: string
  od_ScriptPubKeyHex :: string
  od_ScriptType :: script_type
  od_Address :: "string option"
  od_WitnessVersion :: "nat option"
  od_WitnessProgram :: "string option"
  od_Participants :: "string list"
  od_Spent :: "bool option"

record tx_detail =
  td_TxID :: string
  td_WTxID :: string
  td_Version :: "32 word"
  td_LockTime :: "32 word"
  td_Size :: int
  td_VSize :: int
  td_Weight :: int
  td_IsCoinbase :: bool
  td_FeeSatoshis :: "int option"
  td_FeeQOGE :: "string option"
  td_Inputs :: "input_detail list"
  td_Outputs :: "output_detail list"
  td_Occurrences :: "tx_occurrence list"

section \<open>Occurrences and the representative variant\<close>

text \<open>
  The join with \<open>blocks\<close>; the column \<open>block_height\<close> is the block's own height. Rows that tie in
  the statement's order come in some fixed order here.
\<close>

definition tx_occurrence_of :: "db \<Rightarrow> string \<Rightarrow> (string \<times> nat) \<times> bt_row \<Rightarrow> tx_occurrence list" where
  "tx_occurrence_of d txid = (\<lambda>((bh, i), r).
     if bt_txid r = txid then
       (case tget (blocks d) bh of
          None \<Rightarrow> []
        | Some b \<Rightarrow> [\<lparr>oc_BlockHash = bh, oc_BlockHeight = b_height b, oc_TxIndex = i, oc_WTxID = bt_wtxid r,
            oc_Canonical = b_canonical b\<rparr>])
     else [])"

definition txOccurrences :: "db \<Rightarrow> string \<Rightarrow> tx_occurrence list" where
  "txOccurrences d txid =
    order_desc (\<lambda>o'. (oc_Canonical o', oc_BlockHeight o'))
      (concat (map (tx_occurrence_of d txid) (block_transactions d)))"

definition better_occurrence :: "tx_occurrence \<Rightarrow> tx_occurrence \<Rightarrow> tx_occurrence" where
  "better_occurrence best occ =
    (if oc_Canonical occ \<and> \<not> oc_Canonical best then occ
     else if oc_Canonical occ = oc_Canonical best \<and> oc_BlockHeight occ > oc_BlockHeight best then occ
     else best)"

definition pickRepresentativeWTxID :: "tx_occurrence list \<Rightarrow> string option \<Rightarrow> query_error + string" where
  "pickRepresentativeWTxID occurrences preferred =
    (case preferred of
       Some w \<Rightarrow> Inr w
     | None \<Rightarrow>
         (case occurrences of
            [] \<Rightarrow> Inl ErrInconsistentIndex
          | occ # occs \<Rightarrow> Inr (oc_WTxID (foldl better_occurrence occ occs))))"

section \<open>Witness, inputs and outputs\<close>

definition witness_item_of :: "bool \<Rightarrow> nat \<Rightarrow> bytes \<Rightarrow> witness_item" where
  "witness_item_of includeRaw itemIndex data =
    \<lparr>wi_ItemIndex = itemIndex, wi_SizeBytes = length data,
     wi_DataHex = (if includeRaw then Some (hex_EncodeToString data) else None)\<rparr>"

definition witnessByVin :: "db \<Rightarrow> string \<Rightarrow> bool \<Rightarrow> nat \<Rightarrow> witness_item list" where
  "witnessByVin d wtxid includeRaw =
    foldl (\<lambda>result ((_, vin, itemIndex), row).
        result(vin := result vin @ [witness_item_of includeRaw itemIndex (w_data row)]))
      (\<lambda>_. [])
      (sort_key (\<lambda>((_, vin, itemIndex), _). (vin, itemIndex))
        (filter (\<lambda>((w, _, _), _). w = wtxid) (transaction_input_witness d)))"

definition input_detail_of :: "(nat \<Rightarrow> witness_item list) \<Rightarrow> nat \<Rightarrow> in_row \<Rightarrow> input_detail" where
  "input_detail_of witness vin r =
    \<lparr>id_VinIndex = vin, id_CoinbaseHex = map_option hex_EncodeToString (i_coinbase r),
     id_PrevTxID = map_option fst (i_prev r), id_PrevVoutIndex = map_option snd (i_prev r),
     id_ScriptSigHex = hex_EncodeToString (case i_script_sig r of None \<Rightarrow> [] | Some b \<Rightarrow> b),
     id_Sequence = word_of_int (i_sequence r), id_Witness = witness vin\<rparr>"

definition txInputs :: "db \<Rightarrow> string \<Rightarrow> (nat \<Rightarrow> witness_item list) \<Rightarrow> input_detail list" where
  "txInputs d txid witness =
    map (\<lambda>((_, vin), r). input_detail_of witness vin r)
      (sort_key (\<lambda>((_, vin), _). vin) (filter (\<lambda>((x, _), _). x = txid) (transaction_inputs d)))"

definition output_detail_of :: "db \<Rightarrow> outpoint \<Rightarrow> out_row \<Rightarrow> output_detail" where
  "output_detail_of d op r =
    \<lparr>od_VoutIndex = snd op, od_ValueSatoshis = o_value r, od_ValueQOGE = qoge (o_value r),
     od_ScriptPubKeyHex = hex_EncodeToString (o_script r), od_ScriptType = o_type r,
     od_Address = tget (output_addresses d) op, od_WitnessVersion = o_wver r,
     od_WitnessProgram = map_option hex_EncodeToString (o_wprog r), od_Participants = [],
     od_Spent = map_option (\<lambda>u. u_spend u \<noteq> None) (tget (utxo_state d) op)\<rparr>"

definition attachParticipants :: "db \<Rightarrow> string \<Rightarrow> output_detail list \<Rightarrow> output_detail list" where
  "attachParticipants d txid outputs =
    (if \<not> list_ex (\<lambda>out. od_ScriptType out = TypeMultisig) outputs then outputs
     else foldl (\<lambda>outs (((_, voutIndex), addr), _).
         map (\<lambda>out. if od_ScriptType out = TypeMultisig \<and> od_VoutIndex out = voutIndex
                then out\<lparr>od_Participants := od_Participants out @ [addr]\<rparr> else out) outs)
       outputs
       (sort_key (\<lambda>(((_, voutIndex), addr), _). (voutIndex, addr))
         (filter (\<lambda>(((x, _), _), _). x = txid) (output_participants d))))"

definition txOutputs :: "db \<Rightarrow> string \<Rightarrow> output_detail list" where
  "txOutputs d txid =
    attachParticipants d txid
      (map (\<lambda>(op, r). output_detail_of d op r)
        (sort_key (\<lambda>((_, vout), _). vout) (filter (\<lambda>((x, _), _). x = txid) (transaction_outputs d))))"

section \<open>transactionDetail\<close>

definition transactionDetail :: "db \<Rightarrow> string \<Rightarrow> string option \<Rightarrow> bool \<Rightarrow> query_error + tx_detail" where
  "transactionDetail d txid preferredWTxID includeRawWitness =
    rbind (of_option ErrNotFound (tget (transactions d) txid)) (\<lambda>r.
    let occurrences = txOccurrences d txid in
    rbind (pickRepresentativeWTxID occurrences preferredWTxID) (\<lambda>wtxid.
    rbind (of_option ErrNoRow (tget (transaction_variants d) wtxid)) (\<lambda>v.
    Inr \<lparr>td_TxID = txid, td_WTxID = wtxid, td_Version = word_of_int (t_version r),
      td_LockTime = word_of_int (t_locktime r), td_Size = v_size v, td_VSize = v_vsize v, td_Weight = v_weight v,
      td_IsCoinbase = t_is_coinbase r, td_FeeSatoshis = t_fee r, td_FeeQOGE = map_option qoge (t_fee r),
      td_Inputs = txInputs d txid (witnessByVin d wtxid includeRawWitness), td_Outputs = txOutputs d txid,
      td_Occurrences = occurrences\<rparr>)))"

definition TransactionByTxID :: "db \<Rightarrow> string \<Rightarrow> bool \<Rightarrow> query_error + tx_detail" where
  "TransactionByTxID d txid includeRawWitness = transactionDetail d txid None includeRawWitness"

definition TransactionByWTxID :: "db \<Rightarrow> string \<Rightarrow> bool \<Rightarrow> query_error + tx_detail" where
  "TransactionByWTxID d wtxid includeRawWitness =
    rbind (of_option ErrNotFound (tget (transaction_variants d) wtxid)) (\<lambda>v.
    transactionDetail d (v_txid v) (Some wtxid) includeRawWitness)"

end
