(* ===== verification/QueryTransactions.thy ===== *)
theory QueryTransactions
  imports QueryTx BackfillFacts
begin

text \<open>
  The transaction queries on reachable databases. What a block application leaves in the tables
  that \<open>transactionDetail\<close> joins: the variant of every transaction, its inputs position by position,
  at least one occurrence, and for every occurrence the variant it names.
\<close>

section \<open>The writes of one transaction\<close>

definition same_heads :: "db \<Rightarrow> db \<Rightarrow> bool" where
  "same_heads d e \<longleftrightarrow> transactions e = transactions d \<and> block_transactions e = block_transactions d
    \<and> transaction_variants e = transaction_variants d"

definition same_inputs :: "db \<Rightarrow> db \<Rightarrow> bool" where
  "same_inputs d e \<longleftrightarrow> same_heads d e \<and> transaction_inputs e = transaction_inputs d"

lemma same_inputs_refl: "same_inputs d d" and same_heads_refl: "same_heads d d"
  by (simp_all add: same_inputs_def same_heads_def)

lemma same_inputs_trans: "same_inputs d e \<Longrightarrow> same_inputs e f \<Longrightarrow> same_inputs d f"
  and same_heads_trans: "same_heads d e \<Longrightarrow> same_heads e f \<Longrightarrow> same_heads d f"
  by (simp_all add: same_inputs_def same_heads_def)

lemma same_inputs_writes:
  "apply_witness_item txid wtxid vin item d = Inr e \<Longrightarrow> same_inputs d e"
  "insert_output txid out d = Inr (fresh, e) \<Longrightarrow> same_inputs d e"
  "apply_address op fresh addr d = Inr e \<Longrightarrow> same_inputs d e"
  "apply_participant op p d = Inr e \<Longrightarrow> same_inputs d e"
  "create_utxo bh op d = Inr e \<Longrightarrow> same_inputs d e"
  "markSpent prev txid vin bh d = Inr (addr, e) \<Longrightarrow> same_inputs d e"
  by ((clarsimp simp: same_inputs_def same_heads_def insert_output_def apply_witness_item_def
      apply_address_def apply_participant_def create_utxo_def markSpent_def Let_def result_simps
      split: if_splits prod.splits option.splits); fail)+

lemma same_inputs_loop:
  "fold_res f xs d = Inr e \<Longrightarrow> (\<And>x d e. f x d = Inr e \<Longrightarrow> same_inputs d e) \<Longrightarrow> same_inputs d e"
  by (rule fold_res_relation [of f xs]) (auto intro: same_inputs_refl same_inputs_trans)

lemma applyOutput_inputs: "applyOutput bh txid g out d = Inr (addr, e) \<Longrightarrow> same_inputs d e"
proof (erule applyOutputE)
  fix fresh d0 d1 d2
  assume i: "insert_output txid out d = Inr (fresh, d0)"
    and a: "apply_address (txid, out_Index out) fresh (out_Address out) d0 = Inr d1"
    and p: "apply_participants (txid, out_Index out) fresh out d1 = Inr d2"
    and u: "(if \<not> g \<and> \<not> IsUnspendable (out_ScriptPubKey out) then create_utxo bh (txid, out_Index out) d2
      else Inr d2) = Inr e"
  have "same_inputs d1 d2"
    using p by (auto simp: apply_participants_def result_simps same_inputs_refl split: if_splits
        intro: same_inputs_loop [where f = "apply_participant (txid, out_Index out)"] same_inputs_writes)
  moreover have "same_inputs d2 e" using u same_inputs_writes(5) same_inputs_refl by (auto split: if_splits)
  ultimately show ?thesis using same_inputs_writes(2) [OF i] same_inputs_writes(3) [OF a] same_inputs_trans by metis
qed

lemma apply_outputs_inputs: "apply_outputs bh txid g outs (d, T) = Inr (e, T') \<Longrightarrow> same_inputs d e"
proof -
  assume "apply_outputs bh txid g outs (d, T) = Inr (e, T')"
  then have "same_inputs (fst (d, T)) (fst (e, T'))"
    unfolding apply_outputs_def
    by (rule fold_res_relation [where R = "\<lambda>x y. same_inputs (fst x) (fst y)"])
      (auto simp: result_simps same_inputs_refl dest: applyOutput_inputs intro: same_inputs_trans)
  then show ?thesis by simp
qed

lemma mark_inputs_inputs: "mark_inputs bh txid inps (d, T) = Inr (e, T') \<Longrightarrow> same_inputs d e"
proof -
  assume "mark_inputs bh txid inps (d, T) = Inr (e, T')"
  then have "same_inputs (fst (d, T)) (fst (e, T'))"
    unfolding mark_inputs_def
    by (rule fold_res_relation [where R = "\<lambda>x y. same_inputs (fst x) (fst y)"])
      (auto simp: result_simps same_inputs_refl split: option.splits
        dest: same_inputs_writes intro: same_inputs_trans)
  then show ?thesis by simp
qed

text \<open>The inputs, in a loop that starts at position \<open>k\<close>.\<close>

lemma apply_inputs_rows:
  assumes "fold_res (applyInput x w vf) inps d = Inr e"
    and "map in_Index inps = [k..<k + length inps]" "positional (transaction_inputs d) x"
    and "k \<le> length (rows_of (transaction_inputs d) x)"
  shows "filled k (map in_row_of inps) (rows_of (transaction_inputs d) x) (rows_of (transaction_inputs e) x)
    \<and> positional (transaction_inputs e) x
    \<and> (\<forall>y. y \<noteq> x \<longrightarrow> rows_of (transaction_inputs e) y = rows_of (transaction_inputs d) y)
    \<and> same_heads d e"
  using assms
proof (induction inps arbitrary: k d)
  case Nil
  then show ?case by (simp add: filled_Nil same_heads_refl)
next
  case (Cons inp inps)
  obtain d1 where o: "applyInput x w vf inp d = Inr d1" and f: "fold_res (applyInput x w vf) inps d1 = Inr e"
    using Cons.prems(1) by (auto simp: result_simps)
  obtain d0 where i: "insert_input x inp d = Inr d0"
    and l: "fold_res (apply_witness_item x w (in_Index inp)) (enumerate 0 (in_Witness inp)) d0 = Inr d1"
    using o by (auto simp: applyInput_def result_simps)
  have s: "same_inputs d0 d1" using l by (rule same_inputs_loop) (rule same_inputs_writes(1))
  have k: "in_Index inp = k" "map in_Index inps = [Suc k..<Suc k + length inps]"
    using Cons.prems(2) by (simp_all only: list.map length_Cons upt_first list.inject)
  obtain fresh t where t: "insertOrVerifyIdempotent (input_checks k (in_row_of inp)) (tget (transactions d) x \<noteq> None)
      (x, k) (in_row_of inp) (\<lambda>old. old = in_row_of inp) (transaction_inputs d) = Inr (fresh, t)"
    and d0: "d0 = d\<lparr>transaction_inputs := t\<rparr>"
    using i k(1) by (auto simp: insert_input_def Let_def result_simps)
  note put = put_position [OF t Cons.prems(3,4)]
  have d1: "transaction_inputs d1 = t" "same_heads d d1"
    using s by (simp_all add: same_inputs_def same_heads_def d0)
  have l: "Suc k \<le> length (rows_of (transaction_inputs d1) x)"
    using put(1) by (simp add: d1 filled_def)
  have "positional (transaction_inputs d1) x" using put(2) by (simp add: d1)
  note IH = Cons.IH [OF f k(2) this l]
  have "filled k (in_row_of inp # map in_row_of inps) (rows_of (transaction_inputs d) x)
      (rows_of (transaction_inputs e) x)"
    by (rule filled_Cons [OF put(1)]) (use IH Cons.prems(4) in \<open>simp_all add: d1\<close>)
  then show ?case using IH put(3) same_heads_trans [OF d1(2)] by (simp add: d1(1))
qed

lemma inputs_positions:
  assumes "fold_res (applyInput x w vf) (tx_Inputs txn) d = Inr e" "shape_ok txn"
  shows "map in_Index (tx_Inputs txn) = [0..<length (tx_Inputs txn)]"
proof (rule positional_indices)
  fix i assume "i < length (tx_Inputs txn)"
  then show "in_Index (tx_Inputs txn ! i) = uint32_of i" using assms(2) by (simp add: shape_ok_def)
next
  fix inp assume "inp \<in> set (tx_Inputs txn)"
  from fold_res_all [OF assms(1) this] obtain d0 d1 where "applyInput x w vf inp d0 = Inr d1" by blast
  then show "fits_int4 (in_Index inp)"
    by (auto simp: applyInput_def insert_input_def insertOrVerifyIdempotent_def input_checks_def Let_def result_simps
        split: if_splits)
qed

section \<open>What a transaction leaves\<close>

definition indexed :: "db \<Rightarrow> bool" where
  "indexed d \<longleftrightarrow> (\<forall>x. positional (transaction_inputs d) x)
    \<and> (\<forall>x. tget (transactions d) x = None \<longrightarrow> rows_of (transaction_inputs d) x = [])
    \<and> (\<forall>x. tget (transactions d) x \<noteq> None \<longrightarrow> (\<exists>k r. tget (block_transactions d) k = Some r \<and> bt_txid r = x))
    \<and> (\<forall>k r. tget (block_transactions d) k = Some r \<longrightarrow>
         (\<exists>v. tget (transaction_variants d) (bt_wtxid r) = Some v \<and> v_txid v = bt_txid r))"

lemma indexedD:
  assumes "indexed d"
  shows "positional (transaction_inputs d) x"
    "tget (transactions d) x = None \<Longrightarrow> rows_of (transaction_inputs d) x = []"
    "tget (transactions d) x \<noteq> None \<Longrightarrow> \<exists>k r. tget (block_transactions d) k = Some r \<and> bt_txid r = x"
    "tget (block_transactions d) k = Some r \<Longrightarrow>
      \<exists>v. tget (transaction_variants d) (bt_wtxid r) = Some v \<and> v_txid v = bt_txid r"
  using assms unfolding indexed_def by blast+

definition inputs_kept :: "db \<Rightarrow> db \<Rightarrow> bool" where
  "inputs_kept d e \<longleftrightarrow> tget (transactions d) \<subseteq>\<^sub>m tget (transactions e)
    \<and> tget (transaction_variants d) \<subseteq>\<^sub>m tget (transaction_variants e)
    \<and> (\<forall>x. tget (transactions d) x \<noteq> None \<longrightarrow> rows_of (transaction_inputs e) x = rows_of (transaction_inputs d) x)"

lemma inputs_kept_refl: "inputs_kept d d"
  by (simp add: inputs_kept_def)

lemma inputs_kept_trans:
  assumes "inputs_kept d e" "inputs_kept e f"
  shows "inputs_kept d f"
proof -
  have "tget (transactions e) x \<noteq> None" if "tget (transactions d) x \<noteq> None" for x
  proof -
    have "tget (transactions d) x = tget (transactions e) x"
      using assms(1) that by (auto simp: inputs_kept_def map_le_def)
    then show ?thesis using that by simp
  qed
  then show ?thesis using assms unfolding inputs_kept_def by (metis map_le_trans)
qed

definition variant_row_of :: "transaction \<Rightarrow> variant_row" where
  "variant_row_of txn = \<lparr>v_txid = tx_TxID txn, v_size = tx_Size txn, v_vsize = tx_VSize txn,
     v_weight = tx_Weight txn\<rparr>"

definition readable :: "db \<Rightarrow> transaction \<Rightarrow> bool" where
  "readable d txn \<longleftrightarrow> tget (transactions d) (tx_TxID txn) \<noteq> None
    \<and> tget (transaction_variants d) (tx_WTxID txn) = Some (variant_row_of txn)
    \<and> rows_of (transaction_inputs d) (tx_TxID txn) = enumerate 0 (map in_row_of (tx_Inputs txn))"

lemma readable_kept:
  assumes "readable d txn" "inputs_kept d e"
  shows "readable e txn"
proof -
  have "tget (transaction_variants e) (tx_WTxID txn) = tget (transaction_variants d) (tx_WTxID txn)"
    "tget (transactions e) (tx_TxID txn) = tget (transactions d) (tx_TxID txn)"
    using assms by (auto simp: readable_def inputs_kept_def map_le_def dom_def)
  then show ?thesis using assms by (simp add: readable_def inputs_kept_def)
qed

lemma put_any:
  assumes "insertOrVerifyIdempotent c f k v (\<lambda>old. old = v) t = Inr (fresh, t')"
  shows "tget t' = (tget t)(k \<mapsto> v)" "fresh \<longleftrightarrow> tget t k = None" "tget t k = None \<or> tget t k = Some v"
  using assms by (auto elim!: insertOrVerify_Inr simp: fun_eq_iff tget_tinsert)

lemma applyTransaction_tables:
  assumes a: "applyTransaction bh g i txn (d, T) = Inr (fee, e, T')" and ok: "indexed d" and sh: "shape_ok txn"
  shows "tget (transactions e) = (tget (transactions d))(tx_TxID txn \<mapsto> tx_row_of txn fee)"
    "tget (transactions d) (tx_TxID txn) = None \<or> tget (transactions d) (tx_TxID txn) = Some (tx_row_of txn fee)"
    "tget (transaction_variants e) = (tget (transaction_variants d))(tx_WTxID txn \<mapsto> variant_row_of txn)"
    "tget (transaction_variants d) (tx_WTxID txn) = None
      \<or> tget (transaction_variants d) (tx_WTxID txn) = Some (variant_row_of txn)"
    "tget (block_transactions e) = (tget (block_transactions d))((bh, i) \<mapsto> bt_row_of txn)"
    "tget (block_transactions d) (bh, i) = None \<or> tget (block_transactions d) (bh, i) = Some (bt_row_of txn)"
    "positional (transaction_inputs e) x"
    "rows_of (transaction_inputs e) (tx_TxID txn) = enumerate 0 (map in_row_of (tx_Inputs txn))"
    "x \<noteq> tx_TxID txn \<or> tget (transactions d) x \<noteq> None \<Longrightarrow>
      rows_of (transaction_inputs e) x = rows_of (transaction_inputs d) x"
proof -
  note okD = indexedD [OF ok]
  let ?x = "tx_TxID txn" and ?w = "tx_WTxID txn"
  let ?n = "length (tx_Inputs txn)"
  obtain f1 d1 f2 d2 d3 d4 d5 T5 where
    tr: "insert_transaction txn fee d = Inr (f1, d1)"
    and va: "insert_variant txn d1 = Inr (f2, d2)"
    and bt: "insert_block_transaction bh i txn d2 = Inr d3"
    and ch: "(if f1 then Inr () else verify_children txn d3) = Inr ()"
    and ins: "fold_res (applyInput ?x ?w f2) (tx_Inputs txn) d3 = Inr d4"
    and os: "apply_outputs bh ?x g (tx_Outputs txn) (d4, T) = Inr (d5, T5)"
    and ms: "(if tx_IsCoinbase txn then Inr (d5, T5)
      else mark_inputs bh ?x (tx_Inputs txn) (d5, T5)) = Inr (e, T')"
    using a by (rule applyTransactionE)
  obtain t1 where t1: "insertOrVerifyIdempotent (tx_checks ?x (tx_row_of txn fee)) True ?x (tx_row_of txn fee)
      (\<lambda>old. old = tx_row_of txn fee) (transactions d) = Inr (f1, t1)" and d1: "d1 = d\<lparr>transactions := t1\<rparr>"
    using tr by (auto simp: insert_transaction_def tx_row_of_def Let_def result_simps)
  obtain c2 g2 t2 where t2: "insertOrVerifyIdempotent c2 g2 ?w (variant_row_of txn) (\<lambda>old. old = variant_row_of txn)
      (transaction_variants d) = Inr (f2, t2)" and d2: "d2 = d1\<lparr>transaction_variants := t2\<rparr>"
    using va by (auto simp: insert_variant_def variant_row_of_def Let_def result_simps d1)
  obtain f3 c3 g3 t3 where t3: "insertOrVerifyIdempotent c3 g3 (bh, i) (bt_row_of txn) (\<lambda>old. old = bt_row_of txn)
      (block_transactions d) = Inr (f3, t3)" and d3: "d3 = d2\<lparr>block_transactions := t3\<rparr>"
    using bt by (auto simp: insert_block_transaction_def bt_row_of_def Let_def result_simps d1 d2)
  have in3: "transaction_inputs d3 = transaction_inputs d" by (simp add: d3 d2 d1)
  have "map in_Index (tx_Inputs txn) = [0..<0 + ?n]" using inputs_positions [OF ins sh] by simp
  note rows = apply_inputs_rows [OF ins this, unfolded in3, OF okD(1)]
  have "same_inputs d4 e"
    using ms mark_inputs_inputs same_inputs_refl apply_outputs_inputs [OF os] same_inputs_trans
    by (auto split: if_splits)
  then have be: "transactions e = t1" "transaction_variants e = t2" "block_transactions e = t3"
    "transaction_inputs e = transaction_inputs d4"
    using rows by (simp_all add: same_inputs_def same_heads_def d3 d2 d1)
  show "tget (transactions e) = (tget (transactions d))(?x \<mapsto> tx_row_of txn fee)"
    "tget (transaction_variants e) = (tget (transaction_variants d))(?w \<mapsto> variant_row_of txn)"
    "tget (block_transactions e) = (tget (block_transactions d))((bh, i) \<mapsto> bt_row_of txn)"
    unfolding be by (rule put_any(1) [OF t1] put_any(1) [OF t2] put_any(1) [OF t3])+
  show "tget (transactions d) ?x = None \<or> tget (transactions d) ?x = Some (tx_row_of txn fee)"
    "tget (transaction_variants d) ?w = None \<or> tget (transaction_variants d) ?w = Some (variant_row_of txn)"
    "tget (block_transactions d) (bh, i) = None \<or> tget (block_transactions d) (bh, i) = Some (bt_row_of txn)"
    by (rule put_any(3) [OF t1] put_any(3) [OF t2] put_any(3) [OF t3])+
  have n: "length (rows_of (transaction_inputs d) ?x) = ?n" if "tget (transactions d) ?x \<noteq> None"
  proof -
    have "verify_children txn d3 = Inr ()" using ch put_any(2) [OF t1] that by simp
    then have "tcount (\<lambda>k _. fst k = ?x) (transaction_inputs d) = int ?n"
      by (auto simp: verify_children_def verifyExactCount_def result_simps in3)
    then show ?thesis by (simp flip: rows_of_length)
  qed
  have fill: "filled 0 (map in_row_of (tx_Inputs txn)) (rows_of (transaction_inputs d) ?x)
      (rows_of (transaction_inputs e) ?x)"
    using rows be by simp
  show "rows_of (transaction_inputs e) ?x = enumerate 0 (map in_row_of (tx_Inputs txn))"
    by (rule filled_all [OF fill]) (use n okD(2) in \<open>cases "tget (transactions d) ?x = None"; simp\<close>)
  show "rows_of (transaction_inputs e) x = rows_of (transaction_inputs d) x"
    if "x \<noteq> ?x \<or> tget (transactions d) x \<noteq> None"
    using that rows be filled_same [OF fill] n by (cases "x = ?x") auto
  show "positional (transaction_inputs e) x"
    using rows okD(1) be by (cases "x = ?x") (simp_all add: positional_def)
qed

lemma applyTransaction_indexed:
  assumes "applyTransaction bh g i txn (d, T) = Inr (fee, e, T')" and ok: "indexed d" and "shape_ok txn"
  shows "indexed e" "inputs_kept d e" "readable e txn"
proof -
  note okD = indexedD [OF ok] and tab = applyTransaction_tables [OF assms]
  show "readable e txn" using tab(8) by (simp add: readable_def tab(1,3))
  show "inputs_kept d e" unfolding inputs_kept_def
    by (intro conjI allI impI, use tab(2) in \<open>force simp: map_le_def tab(1)\<close>,
        use tab(4) in \<open>force simp: map_le_def tab(3)\<close>, rule tab(9)) blast
  show "indexed e" unfolding indexed_def
  proof (intro conjI allI impI)
    show "positional (transaction_inputs e) x" for x by (rule tab(7))
    show "rows_of (transaction_inputs e) x = []" if "tget (transactions e) x = None" for x
      using that tab(9) [of x] okD(2) [of x] by (simp add: tab(1) split: if_splits)
    show "\<exists>k r. tget (block_transactions e) k = Some r \<and> bt_txid r = x" if "tget (transactions e) x \<noteq> None" for x
    proof (cases "x = tx_TxID txn")
      case True
      then show ?thesis by (intro exI [of _ "(bh, i)"]) (simp add: tab(5) bt_row_of_def)
    next
      case False
      then have "tget (transactions d) x \<noteq> None" using that by (simp add: tab(1))
      from okD(3) [OF this] obtain k r where k: "tget (block_transactions d) k = Some r" "bt_txid r = x"
        by blast
      then have "tget (block_transactions e) k = Some r" using tab(6) by (auto simp: tab(5))
      then show ?thesis using k(2) by blast
    qed
    show "\<exists>v. tget (transaction_variants e) (bt_wtxid r) = Some v \<and> v_txid v = bt_txid r"
      if "tget (block_transactions e) k = Some r" for k r
    proof (cases "k = (bh, i)")
      case True
      then show ?thesis using that by (auto simp: tab(3,5) bt_row_of_def variant_row_of_def)
    next
      case False
      then have "tget (block_transactions d) k = Some r" using that by (simp add: tab(5))
      from okD(4) [OF this] obtain v where "tget (transaction_variants d) (bt_wtxid r) = Some v"
        "v_txid v = bt_txid r" by blast
      then show ?thesis using tab(4) by (auto simp: tab(3))
    qed
  qed
qed

section \<open>What a block leaves\<close>

lemma tx_loop_indexed:
  assumes "fold_res (tx_step bh g) (enumerate k txs) (F, d, T) = Inr (F', e, T')"
    and "indexed d" "\<forall>txn \<in> set txs. shape_ok txn"
  shows "indexed e \<and> inputs_kept d e \<and> (\<forall>txn \<in> set txs. readable e txn)"
  using assms
proof (induction txs arbitrary: k F d T)
  case Nil
  then show ?case by (simp add: inputs_kept_refl)
next
  case (Cons x txs)
  obtain fee d1 T1 F1 where a: "applyTransaction bh g k x (d, T) = Inr (fee, d1, T1)"
    and f: "fold_res (tx_step bh g) (enumerate (Suc k) txs) (F1, d1, T1) = Inr (F', e, T')"
    using Cons.prems(1)
    by (auto simp: tx_step_def [of bh g] result_simps of_option_def split: option.splits)
  have "shape_ok x" using Cons.prems(3) by simp
  note t = applyTransaction_indexed [OF a Cons.prems(2) this]
  have IH: "indexed e \<and> inputs_kept d1 e \<and> (\<forall>txn \<in> set txs. readable e txn)"
    using Cons.IH [OF f t(1)] Cons.prems(3) by simp
  then show ?case using inputs_kept_trans [OF t(2)] readable_kept [OF t(3)] by simp
qed

lemma indexed_same:
  "indexed d \<Longrightarrow> same_inputs d e \<Longrightarrow> indexed e"
  "same_inputs d e \<Longrightarrow> inputs_kept d e"
  by (simp_all add: indexed_def inputs_kept_def same_inputs_def same_heads_def)

lemma update_touched_inputs:
  assumes "update_touched s T h d = Inr e"
  shows "same_inputs d e"
  using update_touched_source(1) [OF assms]
  by (simp add: source_side_def same_inputs_def same_heads_def)

lemma ApplyBlock_indexed:
  assumes ap: "ApplyBlock s b d = Inr e" and ok: "indexed d"
  shows "indexed e" "inputs_kept d e" "\<forall>txn \<in> set (blk_Transactions b). readable e txn"
proof -
  let ?h = "blk_Hash b"
  obtain f1 d1 F d2 T d3 facts d4 d5 where
    v: "validateBlockShape b = Inr ()"
    and h: "applyBlockHeader b d = Inr (f1, d1)"
    and t: "apply_transactions ?h (blk_Height b = 0) (blk_Transactions b) d1 = Inr (F, d2, T)"
    and u: "update_touched s T ?h d2 = Inr d3"
    and a: "applyBlockAccounting (accountingSchedule s) b F d3 = Inr (facts, d4)"
    and r: "applySupplyRollup b (sync_state d) facts d4 = Inr d5"
    and y: "set_sync_state ?h d5 = Inr e"
    using ap by (rule ApplyBlockE)
  have sh: "\<forall>txn \<in> set (blk_Transactions b). shape_ok txn"
    using validateBlockShape_txs [OF v] by metis
  have d1: "same_inputs d d1"
    using h by (auto simp: applyBlockHeader_def same_inputs_def same_heads_def Let_def result_simps
        split: if_splits option.splits)
  have "fold_res (tx_step ?h (blk_Height b = 0)) (enumerate 0 (blk_Transactions b)) (0, d1, []) = Inr (F, d2, T)"
    using t unfolding apply_transactions_def tx_step_def .
  note L = tx_loop_indexed [OF this indexed_same(1) [OF ok d1] sh]
  obtain ta where d4: "d4 = d3\<lparr>block_accounting := ta\<rparr>" using applyBlockAccounting_source [OF a] by blast
  obtain tr where d5: "d5 = d4\<lparr>block_supply_rollup := tr\<rparr>" using applySupplyRollup_source [OF r] by blast
  obtain cp where e: "e = d5\<lparr>sync_state := cp\<rparr>" using y by (auto simp: set_sync_state_def result_simps)
  have se: "same_inputs d2 e"
    using update_touched_inputs [OF u] by (simp add: same_inputs_def same_heads_def e d5 d4)
  show "indexed e" using indexed_same(1) [OF _ se] L by blast
  show "inputs_kept d e"
    using inputs_kept_trans [OF indexed_same(2) [OF d1]] inputs_kept_trans [OF _ indexed_same(2) [OF se]] L by blast
  show "\<forall>txn \<in> set (blk_Transactions b). readable e txn"
    using L readable_kept [OF _ indexed_same(2) [OF se]] by blast
qed

lemma RollbackTo_inputs:
  assumes "RollbackTo s h d = Inr e"
  shows "same_inputs d e"
proof -
  obtain a d1 T d2 where "tget (blocks d) h = Some a" "b_canonical a"
    and r: "(if 0 < length (orphan_hashes d (b_height a)) then rollback_utxos (orphan_hashes d (b_height a)) d
      else (d, [])) = (d1, T)"
    and u: "update_touched s T h d1 = Inr d2" and y: "set_sync_state h d2 = Inr e"
    using assms by (rule RollbackToE)
  have "same_inputs d d1"
    using r by (auto simp: rollback_utxos_def same_inputs_def same_heads_def Let_def split: if_splits)
  moreover have "same_inputs d2 e"
    using y by (auto simp: set_sync_state_def same_inputs_def same_heads_def result_simps)
  ultimately show ?thesis using update_touched_inputs [OF u] same_inputs_trans by metis
qed

lemma attempt_indexed:
  "attempt s op d = Inr e \<Longrightarrow> indexed d \<Longrightarrow> indexed e \<and> inputs_kept d e"
  by (cases op) (auto simp: attempt_def dest: ApplyBlock_indexed RollbackTo_inputs intro: indexed_same)

interpretation indexing: store_invariant s "\<lambda>_ _. True" indexed for s
proof
  show "indexed init_db"
    by (simp add: indexed_def init_db_def positional_def rows_of_def tget_def)
qed (use attempt_indexed in blast)

lemma run_inputs_kept: "indexed d \<Longrightarrow> inputs_kept d (run s ops d)"
proof (induction ops arbitrary: d)
  case (Cons op ops)
  then show ?case
    using attempt_indexed [of s op d] inputs_kept_trans
    by (cases "attempt s op d") (auto simp: run_step_def)
qed (simp add: inputs_kept_refl)

section \<open>The occurrences of a transaction\<close>

definition occurs_in :: "db \<Rightarrow> string \<Rightarrow> tx_occurrence \<Rightarrow> bool" where
  "occurs_in d x o' \<longleftrightarrow> (\<exists>r b. tget (block_transactions d) (oc_BlockHash o', oc_TxIndex o') = Some r
    \<and> bt_txid r = x \<and> bt_wtxid r = oc_WTxID o' \<and> tget (blocks d) (oc_BlockHash o') = Some b
    \<and> oc_BlockHeight o' = b_height b \<and> oc_Canonical o' = b_canonical b)"

lemma tx_occurrence_of_iff: "o' \<in> set (tx_occurrence_of d x ((bh, i), r)) \<longleftrightarrow>
    bt_txid r = x \<and> oc_BlockHash o' = bh \<and> oc_TxIndex o' = i \<and> oc_WTxID o' = bt_wtxid r
    \<and> (\<exists>b. tget (blocks d) bh = Some b \<and> oc_BlockHeight o' = b_height b \<and> oc_Canonical o' = b_canonical b)"
proof (cases "tget (blocks d) bh")
  case (Some b)
  then have "tx_occurrence_of d x ((bh, i), r) = (if bt_txid r = x then
      [\<lparr>oc_BlockHash = bh, oc_BlockHeight = b_height b, oc_TxIndex = i, oc_WTxID = bt_wtxid r,
        oc_Canonical = b_canonical b\<rparr>] else [])"
    by (simp add: tx_occurrence_of_def)
  moreover have "(\<exists>b. tget (blocks d) bh = Some b \<and> oc_BlockHeight o' = b_height b \<and> oc_Canonical o' = b_canonical b)
      \<longleftrightarrow> oc_BlockHeight o' = b_height b \<and> oc_Canonical o' = b_canonical b"
    using Some by (metis option.inject)
  ultimately show ?thesis by (cases o') auto
next
  case None
  then have "tx_occurrence_of d x ((bh, i), r) = []" by (simp add: tx_occurrence_of_def)
  with None show ?thesis by (metis empty_iff list.set(1) option.distinct(1))
qed

lemma set_txOccurrences:
  assumes "twf (block_transactions d)"
  shows "set (txOccurrences d x) = {o'. occurs_in d x o'}"
proof -
  have "o' \<in> set (txOccurrences d x) \<longleftrightarrow> (\<exists>bh i r. tget (block_transactions d) (bh, i) = Some r
    \<and> o' \<in> set (tx_occurrence_of d x ((bh, i), r)))" for o'
    unfolding txOccurrences_def set_order_desc in_set_tget [OF assms, symmetric] by force
  then show ?thesis unfolding tx_occurrence_of_iff occurs_in_def set_eq_iff mem_Collect_eq by metis
qed

text \<open>Later in the order of canonical flag and height: what \<open>pickRepresentativeWTxID\<close> prefers.\<close>

abbreviation rank :: "tx_occurrence \<Rightarrow> bool \<times> int" where
  "rank o' \<equiv> (oc_Canonical o', oc_BlockHeight o')"

lemma better_occurrence_rank: "better_occurrence a b = (if rank a < rank b then b else a)"
  by (auto simp: better_occurrence_def less_prod_def)

lemma picked:
  "foldl better_occurrence a os \<in> set (a # os)
    \<and> (\<forall>o' \<in> set (a # os). rank o' \<le> rank (foldl better_occurrence a os))"
proof (induction os arbitrary: a)
  case (Cons b os)
  show ?case
    using Cons.IH [of "better_occurrence a b"] unfolding foldl.simps better_occurrence_rank
    by (auto simp del: less_eq_prod_simp less_prod_simp split: if_splits)
qed simp

lemma indexed_run: "d = run s ops init_db \<Longrightarrow> indexed d"
  using indexing.reachable [of s ops] by simp

lemma run_db_wf: "d = run s ops init_db \<Longrightarrow> db_wf d"
  using immutable.run [of init_db s ops] init_db_wf by (simp add: keeps_def)

lemma lookup_txid:
  assumes "d = run s ops init_db"
  shows "case tget (transactions d) x of
      None \<Rightarrow> TransactionByTxID d x raw = Inl ErrNotFound
    | Some r \<Rightarrow> \<exists>t o'. TransactionByTxID d x raw = Inr t \<and> td_TxID t = x \<and> td_FeeSatoshis t = t_fee r
        \<and> set (td_Occurrences t) = {o'. occurs_in d x o'}
        \<and> o' \<in> set (td_Occurrences t) \<and> td_WTxID t = oc_WTxID o'
        \<and> (\<forall>p \<in> set (td_Occurrences t). (oc_Canonical p \<longrightarrow> oc_Canonical o')
             \<and> (oc_Canonical p = oc_Canonical o' \<longrightarrow> oc_BlockHeight p \<le> oc_BlockHeight o'))"
proof (cases "tget (transactions d) x")
  case None
  then show ?thesis by (simp add: TransactionByTxID_def transactionDetail_def)
next
  case (Some r)
  have ix: "indexed d" and wf: "twf (block_transactions d)"
    using indexed_run [OF assms] run_db_wf [OF assms] by (simp_all add: db_wf_def)
  have src: "source_ok d" using accounting.reachable [of s ops] assms by (simp add: accounted_def)
  note occ = set_txOccurrences [OF wf, of x]
  obtain k q where k: "tget (block_transactions d) k = Some q" "bt_txid q = x"
    using indexedD(3) [OF ix, of x] Some by blast
  obtain h i where hi: "k = (h, i)" by (cases k)
  then have "(i, q) \<in> set (rows_of (block_transactions d) h)"
    using k(1) by (auto simp: tget_rows_of dest: map_of_SomeD)
  then obtain b where b: "tget (blocks d) h = Some b" using source_okD(6) [OF src, of h] by fastforce
  have "occurs_in d x \<lparr>oc_BlockHash = h, oc_BlockHeight = b_height b, oc_TxIndex = i, oc_WTxID = bt_wtxid q,
      oc_Canonical = b_canonical b\<rparr>"
    using k b hi by (simp add: occurs_in_def)
  then obtain a os where os: "txOccurrences d x = a # os"
    using occ by (cases "txOccurrences d x") auto
  define o' where "o' = foldl better_occurrence a os"
  have p: "o' \<in> set (txOccurrences d x)" "\<forall>p \<in> set (txOccurrences d x). rank p \<le> rank o'"
    unfolding os o'_def using picked by blast+
  have "occurs_in d x o'" using p(1) occ by blast
  then obtain v where v: "tget (transaction_variants d) (oc_WTxID o') = Some v"
    using indexedD(4) [OF ix] by (metis occurs_in_def)
  have "pickRepresentativeWTxID (txOccurrences d x) None = Inr (oc_WTxID o')"
    by (simp add: pickRepresentativeWTxID_def os o'_def)
  then obtain t where t: "TransactionByTxID d x raw = Inr t" "td_TxID t = x" "td_FeeSatoshis t = t_fee r"
    "td_Occurrences t = txOccurrences d x" "td_WTxID t = oc_WTxID o'"
    using Some v by (simp add: TransactionByTxID_def transactionDetail_def Let_def)
  have "\<forall>p \<in> set (td_Occurrences t). (oc_Canonical p \<longrightarrow> oc_Canonical o')
      \<and> (oc_Canonical p = oc_Canonical o' \<longrightarrow> oc_BlockHeight p \<le> oc_BlockHeight o')"
    using p(2) unfolding t(4) by (fastforce simp: less_eq_prod_simp)
  then show ?thesis using Some t p(1) occ by auto
qed

text \<open>
  C14 Looking a transaction up by its id on a reachable database never fails internally: an id that is
  not stored is not found, and a stored one answers with its fee, exactly its occurrences, and the
  witness variant of an occurrence that no other one precedes: a canonical one if there is one, and
  among equals one of the greatest height.
\<close>

theorem TransactionByTxID_answers:
  assumes "d = run s ops init_db"
  shows "case tget (transactions d) x of
      None \<Rightarrow> TransactionByTxID d x raw = Inl ErrNotFound
    | Some r \<Rightarrow> \<exists>t o'. TransactionByTxID d x raw = Inr t \<and> td_TxID t = x \<and> td_FeeSatoshis t = t_fee r
        \<and> set (td_Occurrences t) = {o'. occurs_in d x o'}
        \<and> o' \<in> set (td_Occurrences t) \<and> td_WTxID t = oc_WTxID o'
        \<and> (\<forall>p \<in> set (td_Occurrences t). (oc_Canonical p \<longrightarrow> oc_Canonical o')
             \<and> (oc_Canonical p = oc_Canonical o' \<longrightarrow> oc_BlockHeight p \<le> oc_BlockHeight o'))"
  using lookup_txid [OF assms] .

section \<open>Reading a transaction back\<close>

lemma sorted_rows:
  assumes "positional t h"
  shows "sort_key (\<lambda>((_, i), _). i) (filter (\<lambda>((x, _), _). x = h) t) = map (\<lambda>(i, r). ((h, i), r)) (rows_of t h)"
proof -
  have rows: "filter (\<lambda>((x, _), _). x = h) t = map (\<lambda>(i, r). ((h, i), r)) (rows_of t h)"
    by (induction t) (auto simp: rows_of_def)
  have "sorted (map fst (rows_of t h))" using assms by (simp add: positional_def)
  then have "sorted (map (\<lambda>((_, i), _). i) (map (\<lambda>(i, r). ((h, i), r)) (rows_of t h)))"
    by (simp add: o_def case_prod_beta)
  then show ?thesis unfolding rows by (rule sort_key_id_if_sorted)
qed

lemma attachParticipants_map:
  assumes "\<And>out ps. g (out\<lparr>od_Participants := ps\<rparr>) = g out"
  shows "map g (attachParticipants d x outs) = map g outs"
proof -

  have "map g (foldl (\<lambda>outs (((_, voutIndex), addr), _). map (\<lambda>out.
      if od_ScriptType out = TypeMultisig \<and> od_VoutIndex out = voutIndex
      then out\<lparr>od_Participants := od_Participants out @ [addr]\<rparr> else out) outs) outs rows) = map g outs"
    for rows :: "((outpoint \<times> string) \<times> bytes) list"
  proof (induction rows arbitrary: outs)
    case (Cons row rows)
    then show ?case using assms by (cases row) auto
  qed simp
  then show ?thesis by (simp add: attachParticipants_def)
qed

lemma tx_stored_run:
  assumes "accounted s d" "tx_stored d txn fee"
  shows "tx_stored (run s ops d) txn fee"
  using assms
proof (induction ops arbitrary: d)
  case (Cons op ops)
  show ?case
  proof (cases "attempt s op d")
    case (Inr e)
    have "accounted s e" using accounting.step Cons.prems(1) Inr by blast
    moreover have "tx_stored e txn fee"
    proof (cases op)
      case (Apply b)
      then have "ApplyBlock s b d = Inr e" using Inr by (simp add: attempt_def)
      from ApplyBlock_rows [OF this accountedD(1,2) [OF Cons.prems(1)]] show ?thesis
        using tx_stored_kept [OF Cons.prems(2)] by metis
    next
      case (Rollback k)
      then show ?thesis using Inr RollbackTo_source(1,3) [of s k d e] Cons.prems(2)
        by (simp add: attempt_def tx_stored_def)
    qed
    ultimately show ?thesis using Cons.IH [of e] Inr by (simp add: run_step_def)
  qed (use Cons in \<open>simp add: run_step_def\<close>)
qed simp

lemma lookup_wtxid:
  assumes "d = run s ops init_db" "ApplyBlock s b d = Inr e" "f = run s later e"
    and "txn \<in> set (blk_Transactions b)"
  shows "\<exists>t. TransactionByWTxID f (tx_WTxID txn) raw = Inr t
    \<and> td_TxID t = tx_TxID txn \<and> td_WTxID t = tx_WTxID txn
    \<and> td_Version t = of_nat (tx_Version txn) \<and> td_LockTime t = of_nat (tx_LockTime txn)
    \<and> (td_Size t, td_VSize t, td_Weight t) = (tx_Size txn, tx_VSize txn, tx_Weight txn)
    \<and> td_IsCoinbase t = tx_IsCoinbase txn \<and> (td_FeeSatoshis t = None \<longleftrightarrow> tx_IsCoinbase txn)
    \<and> td_Inputs t = map (\<lambda>(i, inp). input_detail_of (witnessByVin f (tx_WTxID txn) raw) i (in_row_of inp))
        (enumerate 0 (tx_Inputs txn))
    \<and> map (\<lambda>o'. (od_VoutIndex o', od_ValueSatoshis o', od_ScriptPubKeyHex o', od_ScriptType o')) (td_Outputs t)
      = map (\<lambda>(i, out). (i, sint (out_Value out), ScriptPubKeyHex out, out_ScriptType out))
        (enumerate 0 (tx_Outputs txn))"
proof -
  let ?x = "tx_TxID txn" and ?w = "tx_WTxID txn"
  have acc: "accounted s d" using accounting.reachable [of s ops] assms(1) by simp
  have ix: "indexed d" by (rule indexed_run [OF assms(1)])
  have step: "attempt s (Apply b) d = Inr e" using assms(2) by (simp add: attempt_def)
  have acc_e: "accounted s e" using accounting.step acc step by blast
  then have acc_f: "accounted s f" using accounting.run_inv assms(3) by simp
  obtain fees where "list_all2 (tx_stored e) (blk_Transactions b) fees"
    using ApplyBlock_rows [OF assms(2) accountedD(1,2) [OF acc]] by metis
  then have "\<exists>fee. tx_stored e txn fee" using assms(4) unfolding list_all2_conv_all_nth by (metis in_set_conv_nth)
  then obtain fee where "tx_stored e txn fee" ..
  then have stored: "tx_stored f txn fee" using tx_stored_run [OF acc_e] assms(3) by simp
  have ixe: "indexed e" "readable e txn" using ApplyBlock_indexed [OF assms(2) ix] assms(4) by blast+
  have ixf: "indexed f" using indexing.run_inv [OF ixe(1)] assms(3) by simp
  have rd: "readable f txn" using readable_kept [OF ixe(2) run_inputs_kept [OF ixe(1)]] assms(3) by simp
  have tx: "tget (transactions f) ?x = Some (tx_row_of txn fee)" "fee = None \<longleftrightarrow> tx_IsCoinbase txn"
    using stored by (simp_all add: tx_stored_def)
  have va: "tget (transaction_variants f) ?w = Some (variant_row_of txn)" using rd by (simp add: readable_def)
  have ins: "txInputs f ?x w = map (\<lambda>(i, inp). input_detail_of w i (in_row_of inp)) (enumerate 0 (tx_Inputs txn))" for w
    using rd unfolding txInputs_def sorted_rows [OF indexedD(1) [OF ixf]]
    by (simp add: readable_def enumerate_map o_def case_prod_beta)
  have outs: "map (\<lambda>o'. (od_VoutIndex o', od_ValueSatoshis o', od_ScriptPubKeyHex o', od_ScriptType o')) (txOutputs f ?x)
      = map (\<lambda>(i, out). (i, sint (out_Value out), ScriptPubKeyHex out, out_ScriptType out)) (enumerate 0 (tx_Outputs txn))"
  proof -
    have rows: "rows_of (transaction_outputs f) ?x = enumerate 0 (map out_row_of (tx_Outputs txn))"
      using stored by (simp add: tx_stored_def)
    show ?thesis
      unfolding txOutputs_def sorted_rows [OF source_okD(3) [OF accountedD(1) [OF acc_f]]] rows
      by (subst attachParticipants_map)
        (simp_all add: enumerate_map o_def case_prod_beta output_detail_of_def out_row_of_def ScriptPubKeyHex_def)
  qed
  show ?thesis
    using tx va ins [of "witnessByVin f ?w raw"] outs
    by (simp add: TransactionByWTxID_def transactionDetail_def pickRepresentativeWTxID_def Let_def
        variant_row_of_def tx_row_of_def)
qed

text \<open>
  C13 A transaction can be read back as it was applied: after a successful \<open>ApplyBlock\<close> on a reachable
  database and any later operations, \<open>TransactionByWTxID\<close> finds every transaction of the block with
  its identities, version, lock time and sizes, its inputs and its outputs in their order and nothing
  else, and no fee exactly for the coinbase.
\<close>

theorem TransactionByWTxID_reads_back:
  assumes "d = run s ops init_db" "ApplyBlock s b d = Inr e" "f = run s later e"
    and "txn \<in> set (blk_Transactions b)"
  shows "\<exists>t. TransactionByWTxID f (tx_WTxID txn) raw = Inr t
    \<and> td_TxID t = tx_TxID txn \<and> td_WTxID t = tx_WTxID txn
    \<and> td_Version t = of_nat (tx_Version txn) \<and> td_LockTime t = of_nat (tx_LockTime txn)
    \<and> (td_Size t, td_VSize t, td_Weight t) = (tx_Size txn, tx_VSize txn, tx_Weight txn)
    \<and> td_IsCoinbase t = tx_IsCoinbase txn \<and> (td_FeeSatoshis t = None \<longleftrightarrow> tx_IsCoinbase txn)
    \<and> td_Inputs t = map (\<lambda>(i, inp). input_detail_of (witnessByVin f (tx_WTxID txn) raw) i (in_row_of inp))
        (enumerate 0 (tx_Inputs txn))
    \<and> map (\<lambda>o'. (od_VoutIndex o', od_ValueSatoshis o', od_ScriptPubKeyHex o', od_ScriptType o')) (td_Outputs t)
      = map (\<lambda>(i, out). (i, sint (out_Value out), ScriptPubKeyHex out, out_ScriptType out))
        (enumerate 0 (tx_Outputs txn))"
  using lookup_wtxid [OF assms] .

end
