(* ===== verification/QueryMempool.thy ===== *)
theory QueryMempool
  imports QueryTx Mempool
begin

text \<open>
  \<open>internal/query/mempool.go\<close>: the state of the mempool cache compared with the confirmed
  checkpoint, the list of cached transactions page by page under a cursor that names its
  generation, and one cached transaction. A call reads one snapshot of both databases;
  \<open>observed_at\<close> is not modelled.
\<close>

section \<open>The state of the cache\<close>

record mempool_view =
  mv_Initialized :: bool
  mv_Generation :: int
  mv_CoreTipHeight :: "int option"
  mv_CoreTipHash :: "string option"
  mv_TxCount :: int
  mv_TotalVSize :: int
  mv_TotalFeeSatoshis :: int
  mv_TotalFeeQOGE :: string
  mv_ConfirmedIndexedHeight :: int
  mv_ConfirmedIndexedHash :: "string option"
  mv_Status :: string
  mv_Stale :: bool

definition mempoolStateFrom :: "db \<Rightarrow> mempool_db \<Rightarrow> mempool_view" where
  "mempoolStateFrom d m =
    (let st = mstate m; confirmed = statusFrom d;
         (label, stale) =
           (if \<not> ms_Initialized st then (''uninitialized'', False)
            else if ms_CoreTipHeight st \<noteq> None \<and> ms_CoreTipHash st \<noteq> None \<and> IndexedHash confirmed \<noteq> None
              \<and> the (ms_CoreTipHeight st) = IndexedHeight confirmed
              \<and> the (ms_CoreTipHash st) = the (IndexedHash confirmed) then (''fresh'', False)
            else (''stale'', True))
     in \<lparr>mv_Initialized = ms_Initialized st, mv_Generation = ms_Generation st,
         mv_CoreTipHeight = ms_CoreTipHeight st, mv_CoreTipHash = ms_CoreTipHash st,
         mv_TxCount = ms_TxCount st, mv_TotalVSize = ms_TotalVSize st,
         mv_TotalFeeSatoshis = ms_TotalFeeSatoshis st, mv_TotalFeeQOGE = qoge (ms_TotalFeeSatoshis st),
         mv_ConfirmedIndexedHeight = IndexedHeight confirmed, mv_ConfirmedIndexedHash = IndexedHash confirmed,
         mv_Status = label, mv_Stale = stale\<rparr>)"

definition MempoolState :: "db \<Rightarrow> mempool_db \<Rightarrow> mempool_view" where
  "MempoolState d m = mempoolStateFrom d m"

section \<open>The list\<close>

record mempool_cursor =
  mc_Generation :: int
  mc_EntryTime :: int
  mc_TxID :: string

record mempool_summary =
  mts_TxID :: string
  mts_WTxID :: string
  mts_Version :: "32 word"
  mts_Size :: int
  mts_VSize :: int
  mts_Weight :: int
  mts_FeeSatoshis :: int
  mts_FeeQOGE :: string
  mts_EntryTime :: int
  mts_EntryHeight :: "int option"
  mts_Replaceable :: "bool option"

record mempool_page =
  mp_Transactions :: "mempool_summary list"
  mp_Generation :: int
  mp_NextCursor :: "mempool_cursor option"

definition mempool_summary_of :: "string \<times> mtx_row \<Rightarrow> mempool_summary" where
  "mempool_summary_of = (\<lambda>(txid, r).
    \<lparr>mts_TxID = txid, mts_WTxID = m_wtxid r, mts_Version = word_of_int (m_version r), mts_Size = m_size r,
     mts_VSize = m_vsize r, mts_Weight = m_weight r, mts_FeeSatoshis = m_fee r, mts_FeeQOGE = qoge (m_fee r),
     mts_EntryTime = m_entry_time r, mts_EntryHeight = m_entry_height r, mts_Replaceable = m_replaceable r\<rparr>)"

definition mempoolTxPageFrom :: "mempool_db \<Rightarrow> int \<Rightarrow> mempool_cursor option \<Rightarrow> int \<Rightarrow> mempool_page" where
  "mempoolTxPageFrom m generation cursor pageSize =
    (let n = clampPageSize pageSize;
         rows = take (nat n) (order_desc (\<lambda>(txid, r). (m_entry_time r, txid))
           (filter (\<lambda>(txid, r). case cursor of
                None \<Rightarrow> True
              | Some c \<Rightarrow> m_entry_time r < mc_EntryTime c
                  \<or> m_entry_time r = mc_EntryTime c \<and> txid < mc_TxID c)
             (mtxs m)));
         txs = map mempool_summary_of rows
     in \<lparr>mp_Transactions = txs, mp_Generation = generation,
         mp_NextCursor =
           (if int (length txs) = n then
              Some \<lparr>mc_Generation = generation, mc_EntryTime = mts_EntryTime (last txs), mc_TxID = mts_TxID (last txs)\<rparr>
            else None)\<rparr>)"

definition MempoolOverview ::
  "db \<Rightarrow> mempool_db \<Rightarrow> mempool_cursor option \<Rightarrow> int \<Rightarrow> query_error + mempool_view \<times> mempool_page" where
  "MempoolOverview d m cursor pageSize =
    (let state = mempoolStateFrom d m in
     if (case cursor of None \<Rightarrow> False | Some c \<Rightarrow> mc_Generation c \<noteq> mv_Generation state)
     then Inl ErrMempoolGenerationChanged
     else Inr (state, mempoolTxPageFrom m (mv_Generation state) cursor pageSize))"

section \<open>One transaction\<close>

record mempool_input =
  mi_VinIndex :: nat
  mi_PrevTxID :: string
  mi_PrevVoutIndex :: nat
  mi_ScriptSigHex :: string
  mi_Sequence :: "32 word"
  mi_Witness :: "witness_item list"

record mempool_output =
  mo_VoutIndex :: nat
  mo_ValueSatoshis :: int
  mo_ValueQOGE :: string
  mo_ScriptPubKeyHex :: string
  mo_ScriptType :: script_type
  mo_Address :: "string option"
  mo_WitnessVersion :: "nat option"
  mo_WitnessProgram :: "string option"
  mo_Participants :: "string list"

record mempool_detail =
  md_TxID :: string
  md_WTxID :: string
  md_Version :: "32 word"
  md_LockTime :: "32 word"
  md_Size :: int
  md_VSize :: int
  md_Weight :: int
  md_FeeSatoshis :: int
  md_FeeQOGE :: string
  md_EntryTime :: int
  md_EntryHeight :: "int option"
  md_Replaceable :: "bool option"
  md_Depends :: "string list"
  md_Inputs :: "mempool_input list"
  md_Outputs :: "mempool_output list"
  md_Snapshot :: mempool_view

definition mempoolDependencies :: "mempool_db \<Rightarrow> string \<Rightarrow> string list" where
  "mempoolDependencies m txid =
    sort (map (\<lambda>((_, dep), _). dep) (filter (\<lambda>((x, _), _). x = txid) (mdeps m)))"

definition mempoolWitnessByVin :: "mempool_db \<Rightarrow> string \<Rightarrow> bool \<Rightarrow> nat \<Rightarrow> witness_item list" where
  "mempoolWitnessByVin m txid includeRaw =
    foldl (\<lambda>result ((_, vin, itemIndex), data).
        result(vin := result vin @ [witness_item_of includeRaw itemIndex data]))
      (\<lambda>_. [])
      (sort_key (\<lambda>((_, vin, itemIndex), _). (vin, itemIndex))
        (filter (\<lambda>((x, _, _), _). x = txid) (mwitness m)))"

definition mempool_input_of :: "(nat \<Rightarrow> witness_item list) \<Rightarrow> nat \<Rightarrow> min_row \<Rightarrow> mempool_input" where
  "mempool_input_of witness vin r =
    \<lparr>mi_VinIndex = vin, mi_PrevTxID = fst (n_prev r), mi_PrevVoutIndex = snd (n_prev r),
     mi_ScriptSigHex = hex_EncodeToString (case n_script_sig r of None \<Rightarrow> [] | Some b \<Rightarrow> b),
     mi_Sequence = word_of_int (n_sequence r), mi_Witness = witness vin\<rparr>"

definition mempoolInputs :: "mempool_db \<Rightarrow> string \<Rightarrow> (nat \<Rightarrow> witness_item list) \<Rightarrow> mempool_input list" where
  "mempoolInputs m txid witness =
    map (\<lambda>((_, vin), r). mempool_input_of witness vin r)
      (sort_key (\<lambda>((_, vin), _). vin) (filter (\<lambda>((x, _), _). x = txid) (minputs m)))"

definition mempool_output_of :: "mempool_db \<Rightarrow> outpoint \<Rightarrow> out_row \<Rightarrow> mempool_output" where
  "mempool_output_of m op r =
    \<lparr>mo_VoutIndex = snd op, mo_ValueSatoshis = o_value r, mo_ValueQOGE = qoge (o_value r),
     mo_ScriptPubKeyHex = hex_EncodeToString (o_script r), mo_ScriptType = o_type r,
     mo_Address = tget (maddresses m) op, mo_WitnessVersion = o_wver r,
     mo_WitnessProgram = map_option hex_EncodeToString (o_wprog r), mo_Participants = []\<rparr>"

definition attachMempoolParticipants :: "mempool_db \<Rightarrow> string \<Rightarrow> mempool_output list \<Rightarrow> mempool_output list" where
  "attachMempoolParticipants m txid outputs =
    (if \<not> list_ex (\<lambda>out. mo_ScriptType out = TypeMultisig) outputs then outputs
     else foldl (\<lambda>outs (((_, voutIndex), addr), _).
         map (\<lambda>out. if mo_ScriptType out = TypeMultisig \<and> mo_VoutIndex out = voutIndex
                then out\<lparr>mo_Participants := mo_Participants out @ [addr]\<rparr> else out) outs)
       outputs
       (sort_key (\<lambda>(((_, voutIndex), addr), _). (voutIndex, addr))
         (filter (\<lambda>(((x, _), _), _). x = txid) (mparticipants m))))"

definition mempoolOutputs :: "mempool_db \<Rightarrow> string \<Rightarrow> mempool_output list" where
  "mempoolOutputs m txid =
    attachMempoolParticipants m txid
      (map (\<lambda>(op, r). mempool_output_of m op r)
        (sort_key (\<lambda>((_, vout), _). vout) (filter (\<lambda>((x, _), _). x = txid) (moutputs m))))"

definition mempoolTransactionDetail ::
  "db \<Rightarrow> mempool_db \<Rightarrow> string \<Rightarrow> bool \<Rightarrow> query_error + mempool_detail" where
  "mempoolTransactionDetail d m txid includeRawWitness =
    rbind (of_option ErrNotFound (tget (mtxs m) txid)) (\<lambda>r.
    Inr \<lparr>md_TxID = txid, md_WTxID = m_wtxid r, md_Version = word_of_int (m_version r),
      md_LockTime = word_of_int (m_locktime r), md_Size = m_size r, md_VSize = m_vsize r, md_Weight = m_weight r,
      md_FeeSatoshis = m_fee r, md_FeeQOGE = qoge (m_fee r), md_EntryTime = m_entry_time r,
      md_EntryHeight = m_entry_height r, md_Replaceable = m_replaceable r,
      md_Depends = mempoolDependencies m txid,
      md_Inputs = mempoolInputs m txid (mempoolWitnessByVin m txid includeRawWitness),
      md_Outputs = mempoolOutputs m txid, md_Snapshot = mempoolStateFrom d m\<rparr>)"

definition MempoolTransactionByTxID :: "db \<Rightarrow> mempool_db \<Rightarrow> string \<Rightarrow> bool \<Rightarrow> query_error + mempool_detail" where
  "MempoolTransactionByTxID d m txid includeRawWitness = mempoolTransactionDetail d m txid includeRawWitness"

definition MempoolTransactionByWTxID :: "db \<Rightarrow> mempool_db \<Rightarrow> string \<Rightarrow> bool \<Rightarrow> query_error + mempool_detail" where
  "MempoolTransactionByWTxID d m wtxid includeRawWitness =
    rbind (of_option ErrNotFound (List.find (\<lambda>(_, r). m_wtxid r = wtxid) (mtxs m))) (\<lambda>(txid, _).
    mempoolTransactionDetail d m txid includeRawWitness)"

end
