(* ===== verification/QueryPool.thy ===== *)
theory QueryPool
  imports QueryMempool MempoolStore
begin

text \<open>
  The mempool queries over a cache that is replaced while a caller reads: a listing never mixes two
  snapshots, and one transaction reads back as the candidate that was published.
\<close>

section \<open>The listing of one snapshot\<close>

definition pool_key :: "mempool_summary \<Rightarrow> int \<times> string" where
  "pool_key t = (mts_EntryTime t, mts_TxID t)"

definition pool_listing :: "mempool_db \<Rightarrow> mempool_summary list" where
  "pool_listing m = map mempool_summary_of (order_desc (\<lambda>(txid, r). (m_entry_time r, txid)) (mtxs m))"

definition pool_cursor :: "int \<Rightarrow> int \<times> string \<Rightarrow> mempool_cursor" where
  "pool_cursor g k = \<lparr>mc_Generation = g, mc_EntryTime = fst k, mc_TxID = snd k\<rparr>"

definition pool_pages :: "mempool_db \<Rightarrow> int \<Rightarrow> (int \<times> string) option \<Rightarrow> mempool_summary list \<times> (int \<times> string) option" where
  "pool_pages m p c =
    (let g = ms_Generation (mstate m); pg = mempoolTxPageFrom m g (map_option (pool_cursor g) c) p
     in (mp_Transactions pg, map_option (\<lambda>n. (mc_EntryTime n, mc_TxID n)) (mp_NextCursor pg)))"

lemma summary_key [simp]: "pool_key (mempool_summary_of (txid, r)) = (m_entry_time r, txid)"
  by (simp add: pool_key_def mempool_summary_of_def)

lemma pool_rows: "mp_Transactions (mempoolTxPageFrom m g (map_option (pool_cursor g) c) p)
    = take (page_limit p) (past pool_key c (pool_listing m))"
proof -
  have "filter (\<lambda>(txid, r). case map_option (pool_cursor g) c of None \<Rightarrow> True
      | Some c \<Rightarrow> m_entry_time r < mc_EntryTime c \<or> m_entry_time r = mc_EntryTime c \<and> txid < mc_TxID c) (mtxs m)
    = filter (\<lambda>x. case c of None \<Rightarrow> True | Some k \<Rightarrow> pool_key (mempool_summary_of x) < k) (mtxs m)"
    by (rule filter_cong) (auto simp: pool_cursor_def less_prod_def split: option.splits)
  then show ?thesis
    by (simp add: mempoolTxPageFrom_def Let_def pool_listing_def order_desc_filter take_map [symmetric] past_def
        filter_map o_def split: option.split)
qed

lemma pool_cursors: "snd (pool_pages m p c) = (let rs = fst (pool_pages m p c) in
    if int (length rs) = clampPageSize p then Some (pool_key (last rs)) else None)"
  by (simp add: pool_pages_def mempoolTxPageFrom_def Let_def pool_key_def)

interpretation pool_list: keyset_listing pool_pages pool_key pool_listing "\<lambda>m. twf (mtxs m)"
proof
  fix m :: mempool_db and p c k
  assume ok: "twf (mtxs m)"
  have "distinct (map (\<lambda>(txid, r). (m_entry_time r, txid)) (mtxs m))"
  proof (rule distinct_map [THEN iffD2], rule conjI)
    show "distinct (mtxs m)" using ok by (simp add: twf_def distinct_map)
    show "inj_on (\<lambda>(txid, r). (m_entry_time r, txid)) (set (mtxs m))"
      using ok by (auto simp: inj_on_def in_set_tget)
  qed
  then show "sorted_wrt (\<lambda>x y. pool_key y < pool_key x) (pool_listing m)"
    using order_desc_sorted by (fastforce simp: pool_listing_def sorted_wrt_map case_prod_beta pool_key_def
        mempool_summary_of_def)
  show rows: "fst (pool_pages m p c) = take (page_limit p) (past pool_key c (pool_listing m))"
    by (simp add: pool_pages_def Let_def pool_rows)
  have pos: "1 \<le> clampPageSize p" by (rule clampPageSize_bounds)
  show "fst (pool_pages m p c) \<noteq> [] \<and> k = pool_key (last (fst (pool_pages m p c)))"
    if "snd (pool_pages m p c) = Some k"
    using that pos unfolding pool_cursors Let_def by (auto split: if_splits)
  show "length (past pool_key c (pool_listing m)) \<le> page_limit p" if "snd (pool_pages m p c) = None"
    using that pos unfolding pool_cursors Let_def rows by (auto split: if_splits)
qed

section \<open>Paging while snapshots are published\<close>

definition publish :: "mempool_db \<Rightarrow> candidate \<Rightarrow> mempool_db" where
  "publish m c = (case ReplaceSnapshot c m of Inl _ \<Rightarrow> m | Inr (_, m') \<Rightarrow> m')"

definition published :: "candidate list \<Rightarrow> mempool_db" where
  "published cs = foldl publish initial_mempool cs"

text \<open>
  A caller of \<open>MempoolOverview\<close> who follows the cursors. Each call comes with the confirmed database
  it reads and the candidates that were published since the previous call; the answer says whether
  the last page was reached.
\<close>

fun live_walk :: "(db \<times> candidate list) list \<Rightarrow> int \<Rightarrow> candidate list \<Rightarrow> mempool_cursor option \<Rightarrow>
    query_error + mempool_summary list \<times> bool" where
  "live_walk [] p cs c = Inr ([], False)"
| "live_walk ((d, new) # calls) p cs c =
    rbind (MempoolOverview d (published (cs @ new)) c p) (\<lambda>(st, page).
    case mp_NextCursor page of
      None \<Rightarrow> Inr (mp_Transactions page, True)
    | Some n \<Rightarrow>
        rbind (live_walk calls p (cs @ new) (Some n)) (\<lambda>(rows, complete).
        Inr (mp_Transactions page @ rows, complete)))"

lemma published_append: "published (cs @ new) = foldl publish (published cs) new"
  by (simp add: published_def)

lemma publish_generation:
  "publish m c = m \<or> ms_Generation (mstate (publish m c)) = ms_Generation (mstate m) + 1"
  using ReplaceSnapshot_core [of c m]
  by (auto simp: publish_def snapshot_def Let_def split: sum.splits)

lemma publish_all_generation:
  "foldl publish m cs = m \<or> ms_Generation (mstate m) < ms_Generation (mstate (foldl publish m cs))"
proof (induction cs arbitrary: m)
  case (Cons c cs)
  show ?case using publish_generation [of m c]
  proof
    assume "publish m c = m"
    then show ?thesis using Cons.IH [of m] by simp
  next
    assume "ms_Generation (mstate (publish m c)) = ms_Generation (mstate m) + 1"
    then show ?thesis using Cons.IH [of "publish m c"] by auto
  qed
qed simp

lemma publish_wf: "twf (mtxs m) \<Longrightarrow> twf (mtxs (publish m c))"
proof (cases "ReplaceSnapshot c m")
  case (Inr x)
  then obtain g m' where "ReplaceSnapshot c m = Inr (g, m')" by (cases x) auto
  then have "distinct (map ct_TxID (cd_Transactions c))" "publish m c = snapshot c g"
    using ReplaceSnapshot_core [of c m g m'] by (auto simp: storable_def valid_candidate_def publish_def)
  then show ?thesis by (simp add: snapshot_def twf_def o_def Let_def)
qed (simp add: publish_def)

lemma published_wf: "twf (mtxs (published cs))"
proof -
  have "twf (mtxs m) \<Longrightarrow> twf (mtxs (foldl publish m cs))" for m
    by (induction cs arbitrary: m) (simp_all add: publish_wf)
  then show ?thesis by (simp add: published_def initial_mempool_def twf_simps)
qed

lemma overview_same:
  assumes "g = ms_Generation (mstate m)"
  shows "MempoolOverview d m (map_option (pool_cursor g) c) p
    = Inr (mempoolStateFrom d m, mempoolTxPageFrom m g (map_option (pool_cursor g) c) p)"
    "mp_Transactions (mempoolTxPageFrom m g (map_option (pool_cursor g) c) p) = fst (pool_pages m p c)"
    "mp_NextCursor (mempoolTxPageFrom m g (map_option (pool_cursor g) c) p)
      = map_option (pool_cursor g) (snd (pool_pages m p c))"
proof -
  have g: "mv_Generation (mempoolStateFrom d m) = g"
    using assms by (simp add: mempoolStateFrom_def Let_def split: prod.split)
  show "MempoolOverview d m (map_option (pool_cursor g) c) p
    = Inr (mempoolStateFrom d m, mempoolTxPageFrom m g (map_option (pool_cursor g) c) p)"
    by (cases c) (simp_all add: MempoolOverview_def Let_def g, simp add: pool_cursor_def)
  show "mp_Transactions (mempoolTxPageFrom m g (map_option (pool_cursor g) c) p) = fst (pool_pages m p c)"
    by (simp add: pool_pages_def Let_def assms)
  show "mp_NextCursor (mempoolTxPageFrom m g (map_option (pool_cursor g) c) p)
      = map_option (pool_cursor g) (snd (pool_pages m p c))"
    unfolding pool_cursors
    by (simp add: pool_pages_def Let_def assms [symmetric])
      (simp add: mempoolTxPageFrom_def Let_def pool_cursor_def pool_key_def)
qed

lemma overview_moved:
  "ms_Generation (mstate m) \<noteq> g \<Longrightarrow> MempoolOverview d m (Some (pool_cursor g k)) p = Inl ErrMempoolGenerationChanged"
  by (simp add: MempoolOverview_def Let_def pool_cursor_def mempoolStateFrom_def split: prod.split)

definition walked :: "mempool_summary list \<Rightarrow> mempool_summary list \<times> bool \<Rightarrow> bool" where
  "walked all r \<longleftrightarrow> fst r = (if snd r then all else take (length (fst r)) all)"

lemma walked_prepend: "walked all r \<Longrightarrow> walked (rs @ all) (rs @ fst r, snd r)"
  by (simp add: walked_def split: if_splits)

lemma live_walk_from:
  assumes "c = None \<and> calls \<noteq> [] \<and> snd (hd calls) = [] \<or> (\<exists>k. c = Some k)"
  shows "case live_walk calls p cs (map_option (pool_cursor (ms_Generation (mstate (published cs)))) c) of
      Inl e \<Rightarrow> e = ErrMempoolGenerationChanged \<and> published (cs @ concat (map snd calls)) \<noteq> published cs
    | Inr r \<Rightarrow> walked (past pool_key c (pool_listing (published cs))) r"
  using assms
proof (induction calls arbitrary: cs c)
  case Nil
  then show ?case by (simp add: walked_def)
next
  case (Cons call calls)
  obtain d new where call: "call = (d, new)" by force
  let ?m = "published cs" and ?m' = "published (cs @ new)"
  let ?g = "ms_Generation (mstate ?m)"
  have all: "published (cs @ new @ concat (map snd calls)) = foldl publish ?m' (concat (map snd calls))"
    by (simp add: published_def)
  consider (same) "?m' = ?m" | (moved) k where "?g < ms_Generation (mstate ?m')" "c = Some k"
    using Cons.prems publish_all_generation [of ?m new] call by (auto simp: published_append published_def)
  then show ?case
  proof cases
    case moved
    then have "MempoolOverview d ?m' (map_option (pool_cursor ?g) c) p = Inl ErrMempoolGenerationChanged"
      using overview_moved [of ?m' ?g] by simp
    moreover have "published (cs @ new @ concat (map snd calls)) \<noteq> ?m"
      using moved(1) publish_all_generation [of ?m' "concat (map snd calls)"] unfolding all by auto
    ultimately show ?thesis by (simp add: call)
  next
    case same
    note page = overview_same [where m = ?m and g = ?g and c = c and p = p, OF refl]
    note wf = published_wf [of cs]
    show ?thesis
    proof (cases "snd (pool_pages ?m p c)")
      case None
      then have "fst (pool_pages ?m p c) = past pool_key c (pool_listing ?m)"
        using pool_list.rows [OF wf, of p c] pool_list.no_more [OF wf, of p c] by simp
      then show ?thesis using None page by (simp add: call same walked_def)
    next
      case (Some k)
      have rest: "past pool_key c (pool_listing ?m) = fst (pool_pages ?m p c) @ past pool_key (Some k) (pool_listing ?m)"
        using pool_list.next_page(1) [OF wf, of p c _ k] Some by (metis prod.collapse)
      have IH: "case live_walk calls p (cs @ new) (Some (pool_cursor ?g k)) of
          Inl e \<Rightarrow> e = ErrMempoolGenerationChanged \<and> published (cs @ new @ concat (map snd calls)) \<noteq> ?m
        | Inr r \<Rightarrow> walked (past pool_key (Some k) (pool_listing ?m)) r"
        using Cons.IH [of "Some k" "cs @ new"] unfolding same append_assoc by simp
      show ?thesis
        using IH page Some walked_prepend unfolding rest
        by (auto simp: call same split: sum.splits prod.splits)
    qed
  qed
qed

text \<open>
  C20 Paging through the mempool list while snapshots are replaced never mixes two of them: a caller
  who follows the cursors collects a beginning of the list that the first call saw, and the whole list
  once a page comes without a cursor; the only error is that the generation changed, and then a
  snapshot was published after the first call.
\<close>

theorem MempoolOverview_never_mixes:
  "case live_walk ((d, new) # calls) p cs None of
      Inl e \<Rightarrow> e = ErrMempoolGenerationChanged
        \<and> published (cs @ new @ concat (map snd calls)) \<noteq> published (cs @ new)
    | Inr (rows, complete) \<Rightarrow>
        rows = (if complete then pool_listing (published (cs @ new))
          else take (length rows) (pool_listing (published (cs @ new))))"
proof -
  have "live_walk ((d, new) # calls) p cs None = live_walk ((d, []) # calls) p (cs @ new) None"
    by (simp only: live_walk.simps append_Nil2)
  then show ?thesis
    using live_walk_from [where c = None and calls = "(d, []) # calls" and p = p and cs = "cs @ new"]
    by (auto simp: walked_def past_def split: sum.splits prod.splits)
qed

end
