(* ===== verification/QueryPoolTx.thy ===== *)
theory QueryPoolTx
  imports QueryPool
begin

text \<open>One transaction of a published snapshot, read back table by table.\<close>

section \<open>The rows of one transaction\<close>

text \<open>Rows that are listed owner by owner: those of one owner are its own block of the list.\<close>

lemma filter_owner:
  assumes "distinct (map ident ts)" "t \<in> set ts"
    and "\<And>u r. u \<in> set ts \<Longrightarrow> r \<in> set (rows u) \<Longrightarrow> P r \<longleftrightarrow> ident u = ident t"
  shows "filter P (concat (map rows ts)) = rows t"
  using assms
proof (induction ts)
  case (Cons u ts)
  have mine: "filter P (rows u) = (if ident u = ident t then rows u else [])"
    using Cons.prems(3) [of u] by (auto simp: filter_id_conv filter_empty_conv)
  show ?case
  proof (cases "u = t")
    case True
    have "ident v \<noteq> ident t" if "v \<in> set ts" for v using Cons.prems(1) that True by (auto simp: image_iff)
    then have "filter P (concat (map rows ts)) = []"
      using Cons.prems(3) by (auto simp: filter_empty_conv)
    then show ?thesis using mine True by simp
  next
    case False
    then have "t \<in> set ts" using Cons.prems(2) by simp
    moreover from this have "ident u \<noteq> ident t" using Cons.prems(1) by (auto simp: image_iff)
    ultimately show ?thesis using Cons.IH Cons.prems mine by simp
  qed
qed simp

lemma foldl_group:
  "foldl (\<lambda>result x. result(k x := result (k x) @ [f x])) g xs v = g v @ map f (filter (\<lambda>x. k x = v) xs)"
  by (induction xs arbitrary: g) auto

lemma tget_owner: "tget t k = map_of (filter (\<lambda>(k', _). k' = k) t) k"
  by (induction t) (auto simp: tget_def)

section \<open>Reading a snapshot\<close>

text \<open>What the queries show of an input and an output of a candidate.\<close>

definition shown_witness :: "bool \<Rightarrow> bytes list \<Rightarrow> witness_item list" where
  "shown_witness raw items = map (\<lambda>(i, item). witness_item_of raw i item) (enumerate 0 items)"

definition shown_input :: "bool \<Rightarrow> tx_input \<Rightarrow> mempool_input" where
  "shown_input raw inp =
    mempool_input_of (\<lambda>_. shown_witness raw (in_Witness inp)) (in_Index inp) (min_row_of (the (in_PreviousOut inp)) inp)"

definition shown_output :: "tx_output \<Rightarrow> mempool_output" where
  "shown_output out =
    \<lparr>mo_VoutIndex = out_Index out, mo_ValueSatoshis = sint (out_Value out), mo_ValueQOGE = qoge (sint (out_Value out)),
     mo_ScriptPubKeyHex = ScriptPubKeyHex out, mo_ScriptType = out_ScriptType out,
     mo_Address = (if out_ScriptType out \<noteq> TypeMultisig \<and> out_Address out \<noteq> [] then Some (out_Address out) else None),
     mo_WitnessVersion = out_WitnessVersion out, mo_WitnessProgram = map_option hex_EncodeToString (out_WitnessProgram out),
     mo_Participants = (if out_ScriptType out = TypeMultisig then sort (out_ParticipantAddresses out) else [])\<rparr>"

lemma snapshot_tables:
  assumes "distinct (map ct_TxID (cd_Transactions c))" "t \<in> set (cd_Transactions c)"
  shows "tget (mtxs (snapshot c g)) (ct_TxID t) = Some (mtx_row_of t)"
    "filter (\<lambda>((x, _), _). x = ct_TxID t) (minputs (snapshot c g))
      = map (input_row (ct_TxID t)) (tx_Inputs (ct_Transaction t))"
    "filter (\<lambda>((x, _, _), _). x = ct_TxID t) (mwitness (snapshot c g))
      = concat (map (witness_rows (ct_TxID t)) (tx_Inputs (ct_Transaction t)))"
    "filter (\<lambda>((x, _), _). x = ct_TxID t) (moutputs (snapshot c g))
      = map (output_row (ct_TxID t)) (tx_Outputs (ct_Transaction t))"
    "filter (\<lambda>((x, _), _). x = ct_TxID t) (maddresses (snapshot c g))
      = concat (map (address_rows (ct_TxID t)) (tx_Outputs (ct_Transaction t)))"
    "filter (\<lambda>(((x, _), _), _). x = ct_TxID t) (mparticipants (snapshot c g))
      = concat (map (participant_rows (ct_TxID t)) (tx_Outputs (ct_Transaction t)))"
    "filter (\<lambda>((x, _), _). x = ct_TxID t) (mdeps (snapshot c g)) = dependency_rows t"
proof -
  have "map_of (map (\<lambda>t. (ct_TxID t, mtx_row_of t)) (cd_Transactions c)) (ct_TxID t) = Some (mtx_row_of t)"
    using assms by (intro map_of_is_SomeI) (auto simp: o_def)
  then show "tget (mtxs (snapshot c g)) (ct_TxID t) = Some (mtx_row_of t)"
    by (simp add: tget_def snapshot_def Let_def)
  note own = filter_owner [OF assms]
  show "filter (\<lambda>((x, _), _). x = ct_TxID t) (minputs (snapshot c g))
      = map (input_row (ct_TxID t)) (tx_Inputs (ct_Transaction t))"
    by (simp add: snapshot_def Let_def) (rule own; auto simp: input_row_def)
  show "filter (\<lambda>((x, _, _), _). x = ct_TxID t) (mwitness (snapshot c g))
      = concat (map (witness_rows (ct_TxID t)) (tx_Inputs (ct_Transaction t)))"
    by (simp add: snapshot_def Let_def) (rule own; auto simp: witness_rows_def)
  show "filter (\<lambda>((x, _), _). x = ct_TxID t) (moutputs (snapshot c g))
      = map (output_row (ct_TxID t)) (tx_Outputs (ct_Transaction t))"
    by (simp add: snapshot_def Let_def) (rule own; auto simp: output_row_def)
  show "filter (\<lambda>((x, _), _). x = ct_TxID t) (maddresses (snapshot c g))
      = concat (map (address_rows (ct_TxID t)) (tx_Outputs (ct_Transaction t)))"
    by (simp add: snapshot_def Let_def) (rule own; auto simp: address_rows_def split: if_splits)
  show "filter (\<lambda>(((x, _), _), _). x = ct_TxID t) (mparticipants (snapshot c g))
      = concat (map (participant_rows (ct_TxID t)) (tx_Outputs (ct_Transaction t)))"
    by (simp add: snapshot_def Let_def) (rule own; auto simp: participant_rows_def split: if_splits)
  show "filter (\<lambda>((x, _), _). x = ct_TxID t) (mdeps (snapshot c g)) = dependency_rows t"
    by (simp add: snapshot_def Let_def) (rule own; auto simp: dependency_rows_def)
qed

lemma in_step: "(\<lambda>result ((w, vin, i), data). result(vin := result vin @ [f i data]))
    = (\<lambda>result x. result(fst (snd (fst x)) := result (fst (snd (fst x))) @ [f (snd (snd (fst x))) (snd x)]))"
  by (simp add: fun_eq_iff split: prod.split)

lemma snapshot_witness:
  assumes "distinct (map ct_TxID (cd_Transactions c))" "t \<in> set (cd_Transactions c)"
    "distinct (map in_Index (tx_Inputs (ct_Transaction t)))" "inp \<in> set (tx_Inputs (ct_Transaction t))"
  shows "mempoolWitnessByVin (snapshot c g) (ct_TxID t) raw (in_Index inp) = shown_witness raw (in_Witness inp)"
proof -
  let ?key = "\<lambda>((_, vin, itemIndex), _). (vin, itemIndex) :: nat \<times> nat"
  let ?rows = "concat (map (witness_rows (ct_TxID t)) (tx_Inputs (ct_Transaction t)))"
  have own: "filter (\<lambda>x. fst (snd (fst x)) = in_Index inp) ?rows = witness_rows (ct_TxID t) inp"
    by (rule filter_owner [OF assms(3,4)]) (auto simp: witness_rows_def)
  have "sorted (map ?key (witness_rows (ct_TxID t) inp))"
    by (simp add: witness_rows_def o_def case_prod_beta sorted_map)
      (auto simp: sorted_wrt_iff_nth_less nth_enumerate_eq)
  then have "filter (\<lambda>x. fst (snd (fst x)) = in_Index inp) (sort_key ?key ?rows) = witness_rows (ct_TxID t) inp"
    unfolding filter_sort own by (rule sort_key_id_if_sorted)
  then show ?thesis
    unfolding mempoolWitnessByVin_def snapshot_tables(3) [OF assms(1,2)] in_step foldl_group
    by (simp add: witness_rows_def shown_witness_def o_def case_prod_beta)
qed

lemma snapshot_inputs:
  assumes "distinct (map ct_TxID (cd_Transactions c))" "t \<in> set (cd_Transactions c)"
    "distinct (map in_Index (tx_Inputs (ct_Transaction t)))"
  shows "mempoolInputs (snapshot c g) (ct_TxID t) (mempoolWitnessByVin (snapshot c g) (ct_TxID t) raw)
    = map (shown_input raw) (sort_key in_Index (tx_Inputs (ct_Transaction t)))"
proof -
  have "(\<lambda>((_, vin), _). vin) \<circ> input_row (ct_TxID t) = in_Index"
    by (simp add: fun_eq_iff input_row_def)
  then show ?thesis
    unfolding mempoolInputs_def snapshot_tables(2) [OF assms(1,2)] sort_key_map
    using snapshot_witness [OF assms]
    by (simp add: input_row_def shown_input_def mempool_input_of_def)
qed

lemma snapshot_address:
  assumes "distinct (map ct_TxID (cd_Transactions c))" "t \<in> set (cd_Transactions c)"
    "distinct (map out_Index (tx_Outputs (ct_Transaction t)))" "out \<in> set (tx_Outputs (ct_Transaction t))"
  shows "tget (maddresses (snapshot c g)) (ct_TxID t, out_Index out)
    = (if out_ScriptType out \<noteq> TypeMultisig \<and> out_Address out \<noteq> [] then Some (out_Address out) else None)"
proof -
  have split: "filter (\<lambda>(k, _). k = (x, i)) tab = filter (\<lambda>(k, _). snd k = i) (filter (\<lambda>((y, _), _). y = x) tab)"
    for x i and tab :: "(outpoint \<times> string) list" by (induction tab) auto
  have "filter (\<lambda>(k, _). snd k = out_Index out) (concat (map (address_rows (ct_TxID t)) (tx_Outputs (ct_Transaction t))))
      = address_rows (ct_TxID t) out"
    by (rule filter_owner [OF assms(3,4)]) (auto simp: address_rows_def split: if_splits)
  then show ?thesis
    unfolding tget_owner split snapshot_tables(5) [OF assms(1,2)] by (simp add: address_rows_def)
qed

lemma attach_groups:
  "attachMempoolParticipants m txid outs = map (\<lambda>out. if mo_ScriptType out = TypeMultisig
     then out\<lparr>mo_Participants := mo_Participants out @
       map (\<lambda>x. snd (fst x)) (filter (\<lambda>x. snd (fst (fst x)) = mo_VoutIndex out)
         (sort_key (\<lambda>(((_, voutIndex), addr), _). (voutIndex, addr))
           (filter (\<lambda>(((x, _), _), _). x = txid) (mparticipants m))))\<rparr>
     else out) outs"
proof -
  have loop: "foldl (\<lambda>outs (((_, voutIndex), addr), _). map (\<lambda>out. if mo_ScriptType out = TypeMultisig
        \<and> mo_VoutIndex out = voutIndex then out\<lparr>mo_Participants := mo_Participants out @ [addr]\<rparr> else out) outs) outs rows
      = map (\<lambda>out. if mo_ScriptType out = TypeMultisig then out\<lparr>mo_Participants := mo_Participants out @
          map (\<lambda>x. snd (fst x)) (filter (\<lambda>x. snd (fst (fst x)) = mo_VoutIndex out) rows)\<rparr> else out) outs"
    for rows :: "((outpoint \<times> string) \<times> bytes) list"
  proof (induction rows arbitrary: outs)
    case Nil
    have "map (\<lambda>out. if mo_ScriptType out = TypeMultisig then out\<lparr>mo_Participants := mo_Participants out @ []\<rparr>
        else out) outs = outs" by (rule map_idI) simp
    then show ?case by (simp only: foldl.simps filter.simps list.map)
  next
    case (Cons row rows)
    show ?case by (cases row) (simp add: Cons.IH split: prod.split)
  qed
  show ?thesis
  proof (cases "list_ex (\<lambda>out. mo_ScriptType out = TypeMultisig) outs")
    case False
    then have "mo_ScriptType out \<noteq> TypeMultisig" if "out \<in> set outs" for out
      using that by (auto simp: list_ex_iff)
    then show ?thesis using False by (auto simp: attachMempoolParticipants_def intro: map_idI [symmetric])
  qed (simp add: attachMempoolParticipants_def loop)
qed

lemma snapshot_participants:
  assumes "distinct (map ct_TxID (cd_Transactions c))" "t \<in> set (cd_Transactions c)"
    "distinct (map out_Index (tx_Outputs (ct_Transaction t)))" "out \<in> set (tx_Outputs (ct_Transaction t))"
    "out_ScriptType out = TypeMultisig"
  shows "map (\<lambda>x. snd (fst x)) (filter (\<lambda>x. snd (fst (fst x)) = out_Index out)
      (sort_key (\<lambda>(((_, voutIndex), addr), _). (voutIndex, addr))
        (filter (\<lambda>(((x, _), _), _). x = ct_TxID t) (mparticipants (snapshot c g)))))
    = sort (out_ParticipantAddresses out)"
proof -
  let ?key = "\<lambda>(((_, voutIndex), addr), _). (voutIndex, addr) :: nat \<times> string"
  let ?own = "participant_rows (ct_TxID t) out"
  have own: "filter (\<lambda>x. snd (fst (fst x)) = out_Index out)
      (concat (map (participant_rows (ct_TxID t)) (tx_Outputs (ct_Transaction t)))) = ?own"
    by (rule filter_owner [OF assms(3,4)]) (auto simp: participant_rows_def split: if_splits)
  have rows: "map (\<lambda>x. snd (fst x)) ?own = out_ParticipantAddresses out" "\<And>x. x \<in> set ?own \<Longrightarrow> snd (fst (fst x)) = out_Index out"
    using assms(5) by (auto simp: participant_rows_def o_def case_prod_beta map_snd_enumerate [unfolded comp_def])
  have "sorted (map ?key (sort_key ?key ?own))" by simp
  then have "sorted (map (\<lambda>x. snd (fst x)) (sort_key ?key ?own))"
    unfolding sorted_map
    by (rule sorted_wrt_mono_rel [rotated]) (auto simp: less_eq_prod_def dest!: rows(2))
  moreover have "mset (map (\<lambda>x. snd (fst x)) (sort_key ?key ?own)) = mset (out_ParticipantAddresses out)"
    by (simp add: rows(1) [symmetric])
  ultimately have "sort (out_ParticipantAddresses out) = map (\<lambda>x. snd (fst x)) (sort_key ?key ?own)"
    by (intro properties_for_sort) simp_all
  then show ?thesis unfolding snapshot_tables(6) [OF assms(1,2)] filter_sort own by simp
qed

lemma snapshot_outputs:
  assumes "distinct (map ct_TxID (cd_Transactions c))" "t \<in> set (cd_Transactions c)"
    "distinct (map out_Index (tx_Outputs (ct_Transaction t)))"
  shows "mempoolOutputs (snapshot c g) (ct_TxID t) = map shown_output (sort_key out_Index (tx_Outputs (ct_Transaction t)))"
proof -
  have "(\<lambda>((_, vout), _). vout) \<circ> output_row (ct_TxID t) = out_Index"
    by (simp add: fun_eq_iff output_row_def)
  then show ?thesis
    unfolding mempoolOutputs_def snapshot_tables(4) [OF assms(1,2)] sort_key_map attach_groups
    using snapshot_address [OF assms] snapshot_participants [OF assms]
    by (auto simp: output_row_def shown_output_def mempool_output_of_def out_row_of_def ScriptPubKeyHex_def)
qed

text \<open>
  C21 A cached transaction reads back as it was published: after \<open>ReplaceSnapshot\<close> succeeded on a
  candidate, each of its transactions is found by both identities, with the fee Core reported, its
  dependencies in lexicographic order, and its inputs with their witness stacks and outputs with their
  destinations by ascending index.
\<close>

theorem MempoolTransaction_reads_back:
  assumes "ReplaceSnapshot c m = Inr (g, m')" "t \<in> set (cd_Transactions c)"
  shows "\<exists>q. MempoolTransactionByTxID d m' (ct_TxID t) raw = Inr q
    \<and> MempoolTransactionByWTxID d m' (ct_WTxID t) raw = Inr q
    \<and> (md_TxID q, md_WTxID q) = (ct_TxID t, ct_WTxID t) \<and> md_FeeSatoshis q = ct_FeeSatoshis t
    \<and> (md_EntryTime q, md_EntryHeight q, md_Replaceable q) = (ct_EntryTime t, ct_EntryHeight t, ct_Replaceable t)
    \<and> md_Depends q = sort (ct_Depends t)
    \<and> md_Inputs q = map (shown_input raw) (sort_key in_Index (tx_Inputs (ct_Transaction t)))
    \<and> md_Outputs q = map shown_output (sort_key out_Index (tx_Outputs (ct_Transaction t)))"
proof -
  have s: "storable c" "m' = snapshot c g" using assms(1) ReplaceSnapshot_core [of c m g m'] by auto
  then have dist: "distinct (map ct_TxID (cd_Transactions c))" "distinct (map ct_WTxID (cd_Transactions c))"
    and t: "distinct (map in_Index (tx_Inputs (ct_Transaction t)))" "distinct (map out_Index (tx_Outputs (ct_Transaction t)))"
    using assms(2) by (auto simp: storable_def valid_candidate_def tx_storable_def)
  note tab = snapshot_tables [OF dist(1) assms(2), where g = g]
  have deps: "mempoolDependencies (snapshot c g) (ct_TxID t) = sort (ct_Depends t)"
    unfolding mempoolDependencies_def tab(7) by (simp add: dependency_rows_def o_def)
  have "List.find (\<lambda>(_, r). m_wtxid r = ct_WTxID t) (mtxs (snapshot c g)) = Some (ct_TxID t, mtx_row_of t)"
  proof -
    have "List.find (\<lambda>(_, r). m_wtxid r = ct_WTxID t) (map (\<lambda>t. (ct_TxID t, mtx_row_of t)) ts) = Some (ct_TxID t, mtx_row_of t)"
      if "distinct (map ct_WTxID ts)" "t \<in> set ts" for ts
      using that by (induction ts) (auto simp: mtx_row_of_def Let_def image_iff)
    then show ?thesis using dist(2) assms(2) by (simp add: snapshot_def Let_def)
  qed
  then show ?thesis
    using tab(1) deps snapshot_inputs [OF dist(1) assms(2) t(1), of g raw] snapshot_outputs [OF dist(1) assms(2) t(2), of g]
    by (simp add: s(2) MempoolTransactionByTxID_def MempoolTransactionByWTxID_def mempoolTransactionDetail_def)
      (simp add: mtx_row_of_def Let_def)
qed

end
