(* ===== verification/QueryDeployments.thy ===== *)
theory QueryDeployments
  imports Query DeploymentsSync
begin

text \<open>
  \<open>internal/query/deployments.go\<close>: the state of the deployment cache, the decoding of a cached row
  with its integrity checks, the list and the lookup by name. \<open>json.Unmarshal\<close> of a stored document
  into the query's own record, whose missing numbers are zero, is a parameter \<open>decode\<close>.
\<close>

section \<open>The query's record of a document\<close>

record stats_json =
  sj_Period :: int
  sj_Threshold :: "int option"
  sj_Elapsed :: int
  sj_Count :: int
  sj_Possible :: "bool option"

record bip9_json =
  bj_Bit :: "int option"
  bj_StartTime :: int
  bj_Timeout :: int
  bj_MinActivationHeight :: int
  bj_Status :: string
  bj_StatusNext :: string
  bj_Since :: int
  bj_Statistics :: "stats_json option"
  bj_Signalling :: "string option"

record deployment_json =
  dj_Type :: string
  dj_Active :: bool
  dj_Height :: "int option"
  dj_BIP9 :: "bip9_json option"

record deployment =
  de_Name :: string
  de_Type :: string
  de_Active :: bool
  de_ActivationHeight :: "int option"
  de_Status :: string
  de_StatusNext :: string
  de_Since :: int
  de_Bit :: "int option"
  de_StartTime :: int
  de_Timeout :: int
  de_MinActivationHeight :: int
  de_Statistics :: "stats_json option"
  de_Signalling :: "string option"
  de_CheckedAt :: int
  de_Raw :: string

record deployment_view =
  dv_Initialized :: bool
  dv_Generation :: int
  dv_CoreTipHeight :: "int option"
  dv_CoreTipHash :: "string option"
  dv_DeploymentCount :: int
  dv_ObservedAt :: "int option"
  dv_ConfirmedIndexedHeight :: int
  dv_ConfirmedIndexedHash :: "string option"
  dv_Status :: string
  dv_Stale :: bool

section \<open>Reading the cache\<close>

definition deploymentStateFrom :: "db \<Rightarrow> dep_db \<Rightarrow> deployment_view" where
  "deploymentStateFrom d m =
    (let st = deployment_state m; confirmed = statusFrom d;
         (label, stale) =
           (if \<not> ds_Initialized st then (''uninitialized'', False)
            else if ds_CoreTipHeight st \<noteq> None \<and> ds_CoreTipHash st \<noteq> None \<and> IndexedHash confirmed \<noteq> None
              \<and> the (ds_CoreTipHeight st) = IndexedHeight confirmed
              \<and> the (ds_CoreTipHash st) = the (IndexedHash confirmed) then (''fresh'', False)
            else (''stale'', True))
     in \<lparr>dv_Initialized = ds_Initialized st, dv_Generation = ds_Generation st,
         dv_CoreTipHeight = ds_CoreTipHeight st, dv_CoreTipHash = ds_CoreTipHash st,
         dv_DeploymentCount = ds_DeploymentCount st, dv_ObservedAt = ds_ObservedAt st,
         dv_ConfirmedIndexedHeight = IndexedHeight confirmed, dv_ConfirmedIndexedHash = IndexedHash confirmed,
         dv_Status = label, dv_Stale = stale\<rparr>)"

definition decodeDeploymentRow ::
  "(string \<Rightarrow> deployment_json option) \<Rightarrow> string \<Rightarrow> string \<Rightarrow> int option \<Rightarrow> string \<Rightarrow> int \<Rightarrow> int option
    \<Rightarrow> query_error + deployment" where
  "decodeDeploymentRow decode name rowStatus sinceHeight rawJSON checkedAt observedAt =
    rbind (of_option ErrDeploymentCacheIntegrity (decode rawJSON)) (\<lambda>raw.
    rbind (guard (dj_Type raw = ''bip9'') ErrDeploymentCacheIntegrity) (\<lambda>_.
    rbind (of_option ErrDeploymentCacheIntegrity (dj_BIP9 raw)) (\<lambda>b.
    rbind (guard (bj_Status b = rowStatus) ErrDeploymentCacheIntegrity) (\<lambda>_.
    rbind (of_option ErrDeploymentCacheIntegrity sinceHeight) (\<lambda>since.
    rbind (guard (since = bj_Since b) ErrDeploymentCacheIntegrity) (\<lambda>_.
    rbind (guard (observedAt = Some checkedAt) ErrDeploymentCacheIntegrity) (\<lambda>_.
    Inr \<lparr>de_Name = name, de_Type = dj_Type raw, de_Active = dj_Active raw, de_ActivationHeight = dj_Height raw,
      de_Status = bj_Status b, de_StatusNext = bj_StatusNext b, de_Since = bj_Since b, de_Bit = bj_Bit b,
      de_StartTime = bj_StartTime b, de_Timeout = bj_Timeout b,
      de_MinActivationHeight = bj_MinActivationHeight b, de_Statistics = bj_Statistics b,
      de_Signalling = bj_Signalling b, de_CheckedAt = checkedAt, de_Raw = rawJSON\<rparr>)))))))"

definition decode_row ::
  "(string \<Rightarrow> deployment_json option) \<Rightarrow> deployment_view \<Rightarrow> string \<times> dep_row \<Rightarrow> query_error + deployment" where
  "decode_row decode state = (\<lambda>(name, r).
    decodeDeploymentRow decode name (cr_status r) (Some (cr_since r)) (cr_raw_json r) (cr_checked_at r)
      (dv_ObservedAt state))"

definition DeploymentOverview ::
  "(string \<Rightarrow> deployment_json option) \<Rightarrow> db \<Rightarrow> dep_db \<Rightarrow> query_error + deployment_view \<times> deployment list" where
  "DeploymentOverview decode d m =
    (let state = deploymentStateFrom d m in
     if \<not> dv_Initialized state then Inr (state, [])
     else
       rbind (map_res (decode_row decode state) (sort_key fst (chain_deployments m))) (\<lambda>deployments.
       rbind (guard (int (length deployments) = dv_DeploymentCount state) ErrDeploymentCacheIntegrity) (\<lambda>_.
       Inr (state, deployments))))"

definition DeploymentByName ::
  "(string \<Rightarrow> deployment_json option) \<Rightarrow> db \<Rightarrow> dep_db \<Rightarrow> string \<Rightarrow> query_error + deployment_view \<times> deployment" where
  "DeploymentByName decode d m name =
    (let state = deploymentStateFrom d m in
     if \<not> dv_Initialized state then Inl ErrDeploymentCacheUninitialized
     else
       rbind (of_option ErrNotFound (tget (chain_deployments m) name)) (\<lambda>r.
       rbind (decode_row decode state (name, r)) (\<lambda>dep.
       Inr (state, dep))))"

section \<open>A published response reads back\<close>

text \<open>
  The same document decoded into the query's record, whose fields are values where the writer's are
  pointers.
\<close>

definition stats_values :: "raw_statistics \<Rightarrow> stats_json" where
  "stats_values s = (let num = (\<lambda>p. case p of None \<Rightarrow> 0 | Some x \<Rightarrow> x) in
    \<lparr>sj_Period = num (st_Period s), sj_Threshold = st_Threshold s, sj_Elapsed = num (st_Elapsed s),
     sj_Count = num (st_Count s), sj_Possible = st_Possible s\<rparr>)"

definition bip9_values :: "raw_bip9 \<Rightarrow> bip9_json" where
  "bip9_values b = (let num = (\<lambda>p. case p of None \<Rightarrow> 0 | Some x \<Rightarrow> x) in
    \<lparr>bj_Bit = b9_Bit b, bj_StartTime = num (b9_StartTime b), bj_Timeout = num (b9_Timeout b),
     bj_MinActivationHeight = num (b9_MinActivationHeight b), bj_Status = b9_Status b,
     bj_StatusNext = b9_StatusNext b, bj_Since = num (b9_Since b),
     bj_Statistics = map_option stats_values (b9_Statistics b), bj_Signalling = b9_Signalling b\<rparr>)"

definition document_values :: "raw_deployment \<Rightarrow> deployment_json" where
  "document_values r =
    \<lparr>dj_Type = rd_Type r, dj_Active = (rd_Active r = Some True), dj_Height = rd_Height r,
     dj_BIP9 = map_option bip9_values (rd_BIP9 r)\<rparr>"

definition shown_deployment ::
  "(string \<Rightarrow> raw_deployment option) \<Rightarrow> (string \<Rightarrow> string option) \<Rightarrow> int \<Rightarrow> cand_dep \<Rightarrow> deployment" where
  "shown_deployment unmarshal jsonb t c =
    (let r = the (unmarshal (dp_RawJSON c)); b = bip9_values (the (rd_BIP9 r)) in
     \<lparr>de_Name = dp_Name c, de_Type = ''bip9'', de_Active = (rd_Active r = Some True), de_ActivationHeight = rd_Height r,
      de_Status = dp_Status c, de_StatusNext = bj_StatusNext b, de_Since = dp_SinceHeight c, de_Bit = bj_Bit b,
      de_StartTime = bj_StartTime b, de_Timeout = bj_Timeout b,
      de_MinActivationHeight = bj_MinActivationHeight b, de_Statistics = bj_Statistics b,
      de_Signalling = bj_Signalling b, de_CheckedAt = t, de_Raw = the (jsonb (dp_RawJSON c))\<rparr>)"

lemma decoded_entry:
  assumes "\<forall>t. mset (iter t) = mset t" "DecodeDeploymentInfo iter unmarshal info = Inr r"
    and "c \<in> set (dr_Deployments r)"
  obtains dd b where "unmarshal (dp_RawJSON c) = Some dd" "rd_Type dd = ''bip9''" "rd_BIP9 dd = Some b"
    "b9_Status b = dp_Status c" "b9_Since b = Some (dp_SinceHeight c)"
proof -
  have ok: "response_ok unmarshal info"
    and eq: "r = \<lparr>dr_Hash = ri_Hash info, dr_Height = the (ri_Height info),
           dr_Deployments = map (dep_of unmarshal) (filter (is_bip9 unmarshal) (iter (the (ri_Deployments info))))\<rparr>"
    using assms(2) unfolding DecodeDeploymentInfo_core [OF spec [OF assms(1)]] by blast+
  obtain deps where deps: "ri_Deployments info = Some deps" "\<forall>e \<in> set deps. entry_ok unmarshal e"
    using ok by (auto simp: response_ok_def)
  have "set (iter deps) = set deps" using assms(1) set_mset_mset by metis
  then obtain e where e: "e \<in> set deps" "is_bip9 unmarshal e" "c = dep_of unmarshal e"
    using assms(3) by (auto simp: eq deps(1))
  then obtain dd b where b: "unmarshal (snd e) = Some dd" "rd_Type dd = ''bip9''" "rd_BIP9 dd = Some b" "bip9_ok dd b"
    using deps(2) by (force simp: entry_ok_def is_bip9_def)
  moreover have "b9_Since b \<noteq> None" using b(4) unfolding bip9_ok_def by blast
  ultimately show thesis using e(3) by (intro that [of dd b]) (auto simp: dep_of_def Let_def)
qed

lemma decode_published:
  assumes "\<forall>t. mset (iter t) = mset t" "DecodeDeploymentInfo iter unmarshal info = Inr r"
    and "c \<in> set (dr_Deployments r)" "jsonb (dp_RawJSON c) = Some j" "dv_ObservedAt state = Some t"
    and document: "\<And>dd. unmarshal (dp_RawJSON c) = Some dd \<Longrightarrow> decode j = Some (document_values dd)"
  shows "decode_row decode state (dp_Name c, dep_row_of t c j) = Inr (shown_deployment unmarshal jsonb t c)"
proof (rule decoded_entry [OF assms(1-3)])
  fix dd b
  assume *: "unmarshal (dp_RawJSON c) = Some dd" "rd_Type dd = ''bip9''" "rd_BIP9 dd = Some b"
    "b9_Status b = dp_Status c" "b9_Since b = Some (dp_SinceHeight c)"
  then show ?thesis using assms(4,5) document [OF *(1)]
    by (simp add: decode_row_def decodeDeploymentRow_def dep_row_of_def document_values_def bip9_values_def
        shown_deployment_def Let_def)
qed

lemma map_of_find: "map_of (map (\<lambda>x. (k x, f x)) xs) n = map_option f (List.find (\<lambda>x. k x = n) xs)"
  by (induction xs) auto

lemma find_key: "distinct (map k xs) \<Longrightarrow> x \<in> set xs \<Longrightarrow> List.find (\<lambda>y. k y = k x) xs = Some x"
  by (induction xs) (auto simp: image_iff)

lemma find_sorted:
  assumes "distinct (map k xs)"
  shows "List.find (\<lambda>x. k x = n) (sort_key k xs) = List.find (\<lambda>x. k x = n) xs"
proof (cases "\<exists>x \<in> set xs. k x = n")
  case True
  then obtain x where x: "x \<in> set xs" "k x = n" by blast
  have "distinct (map k (sort_key k xs))" using assms by (simp add: distinct_map)
  from find_key [OF this, of x] find_key [OF assms x(1)] show ?thesis using x by simp
next
  case False
  then have "List.find (\<lambda>x. k x = n) ys = None" if "set ys = set xs" for ys
    using that by (auto simp: find_None_iff)
  then show ?thesis by simp
qed

text \<open>A cache whose rows all decode is listed in the order of the names and found by name.\<close>

lemma decoded_cache:
  fixes d m row f decode
  defines "st \<equiv> deploymentStateFrom d m"
  assumes "dv_Initialized st" "chain_deployments m = map (\<lambda>c. (dp_Name c, row c)) cs" "distinct (map dp_Name cs)"
    and "\<And>c. c \<in> set cs \<Longrightarrow> decode_row decode st (dp_Name c, row c) = Inr (f c)" "\<And>c. de_Name (f c) = dp_Name c"
  shows "dv_DeploymentCount st = int (length cs) \<Longrightarrow> DeploymentOverview decode d m = Inr (st, map f (sort_key dp_Name cs))"
    and "DeploymentByName decode d m name =
      (case List.find (\<lambda>x. de_Name x = name) (map f (sort_key dp_Name cs)) of
         None \<Rightarrow> Inl ErrNotFound | Some x \<Rightarrow> Inr (st, x))"
proof -
  have "sort_key fst (chain_deployments m) = map (\<lambda>c. (dp_Name c, row c)) (sort_key dp_Name cs)"
    unfolding assms(3) sort_key_map by (simp add: o_def)
  moreover have "map_res (decode_row decode st) (map (\<lambda>c. (dp_Name c, row c)) (sort_key dp_Name cs))
      = Inr (map f (sort_key dp_Name cs))"
    unfolding map_res_map by (rule map_res_Inr) (simp add: assms(5))
  ultimately show "DeploymentOverview decode d m = Inr (st, map f (sort_key dp_Name cs))"
    if "dv_DeploymentCount st = int (length cs)"
    using that assms(2) by (simp add: DeploymentOverview_def Let_def st_def [symmetric])
  have find_map: "List.find (\<lambda>x. de_Name x = name) (map f xs) = map_option f (List.find (\<lambda>x. dp_Name x = name) xs)"
    for xs using assms(6) by (induction xs) auto
  have shown: "List.find (\<lambda>x. de_Name x = name) (map f (sort_key dp_Name cs))
      = map_option f (List.find (\<lambda>c. dp_Name c = name) cs)"
    unfolding find_map find_sorted [OF assms(4)] ..
  have row: "tget (chain_deployments m) name = map_option row (List.find (\<lambda>c. dp_Name c = name) cs)"
    unfolding assms(3) tget_def by (rule map_of_find)
  have byname: "DeploymentByName decode d m name =
      rbind (of_option ErrNotFound (tget (chain_deployments m) name)) (\<lambda>r.
      rbind (decode_row decode st (name, r)) (\<lambda>dep. Inr (st, dep)))"
    using assms(2) by (simp add: DeploymentByName_def Let_def st_def [symmetric])
  show "DeploymentByName decode d m name =
      (case List.find (\<lambda>x. de_Name x = name) (map f (sort_key dp_Name cs)) of
         None \<Rightarrow> Inl ErrNotFound | Some x \<Rightarrow> Inr (st, x))"
  proof (cases "List.find (\<lambda>c. dp_Name c = name) cs")
    case None
    then show ?thesis unfolding byname row shown by simp
  next
    case (Some c)
    have "c \<in> set cs" "dp_Name c = name" using find_member [OF Some] by simp_all
    then show ?thesis using assms(5) [of c] unfolding byname row shown Some by simp
  qed
qed


end
