(* ===== verification/QueryWitness.thy ===== *)
theory QueryWitness
  imports QueryHistory QueryMoney QueryTransactions QueryPoolTx QueryDeployments
    BackfillWitness MempoolWitness DeploymentsWitness
begin

text \<open>The queries on the example chain, the example snapshot and the example response.\<close>

theorem RecentBlocks_walk_witness:
  "\<exists>bs. walk (block_pages ex_d2 2) None = Some bs \<and> (2, hx CHR ''2'') \<in> (\<lambda>b. (bs_Height b, bs_Hash b)) ` set bs"
proof -
  have "CanonicalBlockHash ex_d2 2 = Some (hx CHR ''2'')"
    by (simp add: CanonicalBlockHash_def ex_d2_def)
  then show ?thesis using RecentBlocks_walk [OF ex_ops, of 2] by metis
qed

lemma ex_ops1: "ex_d1 = run ex_store [Apply ex_b0, Apply ex_b1] init_db"
  by (rule ex_run1 [symmetric])

lemma ex_stay: "ex_d2 = run ex_store [] ex_d2"
  by simp

theorem BlockByHash_reads_back_witness:
  "\<exists>r. BlockByHash ex_d2 (hx CHR ''2'') = Inr (scanBlockSummary (hx CHR ''2'', r),
     [\<lparr>ref_Index = 0, ref_TxID = hx CHR ''c'', ref_WTxID = hx CHR ''c''\<rparr>,
      \<lparr>ref_Index = 1, ref_TxID = hx CHR ''d'', ref_WTxID = hx CHR ''d''\<rparr>])"
  using BlockByHash_reads_back [OF ex_ops1 ex_d2_step ex_stay]
  by (simp add: ex_b2_def ex_block_def ex_coinbase_def ex_spend_def) blast

theorem RichListOverview_ranks_balances_witness:
  "map re_Rank (snd (RichListOverview ex_d2)) = [1..<length (snd (RichListOverview ex_d2)) + 1]"
  using RichListOverview_ranks_balances [OF ex_map_order ex_ops, of "fst (RichListOverview ex_d2)" "snd (RichListOverview ex_d2)"]
  by simp

theorem SupplyOverview_exact_witness:
  "\<exists>v. SupplyOverview True ex_d2 = Inr v \<and> so_UTXOSetValueSatoshis v = unspent_total ex_d2"
proof -
  have "CanonicalBlockHash ex_d2 0 \<noteq> None" by (simp add: CanonicalBlockHash_def ex_d2_def)
  then show ?thesis using SupplyOverview_exact [OF ex_fresh ex_ops]
    by (auto split: sum.splits)
qed

theorem AddressHistory_walk_witness:
  "\<exists>es. walk (history_pages (ex_d2, ''a'') 1) None = Some es \<and> distinct es
    \<and> set es = {e. occurs ex_d2 e \<and> touched_by ex_d2 ''a'' (he_TxID e)}"
  using AddressHistory_walk [OF ex_ops, of "''a''" 1] by blast

theorem TransactionByTxID_answers_witness:
  "\<exists>t. TransactionByTxID ex_d2 (hx CHR ''d'') False = Inr t \<and> td_FeeSatoshis t = Some 30"
proof -
  obtain r where "tget (transactions ex_d2) (hx CHR ''d'') = Some r" "t_fee r = Some 30"
    by (simp add: ex_d2_def tget_def hx_simps)
  then show ?thesis using TransactionByTxID_answers [OF ex_ops, of "hx CHR ''d''" False] by auto
qed

theorem TransactionByWTxID_reads_back_witness:
  "\<exists>t. TransactionByWTxID ex_d2 (hx CHR ''c'') True = Inr t
    \<and> map (\<lambda>o'. (od_VoutIndex o', od_ValueSatoshis o', od_ScriptPubKeyHex o', od_ScriptType o')) (td_Outputs t)
      = [(0, 30, ScriptPubKeyHex (ex_out 0 30 ''a''), TypeP2QPK)]"
proof -
  have "ex_coinbase CHR ''c'' [ex_out 0 30 ''a''] \<in> set (blk_Transactions ex_b2)"
    by (simp add: ex_b2_def ex_block_def)
  from TransactionByWTxID_reads_back [OF ex_ops1 ex_d2_step ex_stay this, of True]
  show ?thesis by (auto simp: ex_coinbase_def ex_out_def)
qed

theorem MempoolTransaction_reads_back_witness:
  "\<exists>q. MempoolTransactionByTxID ex_d2 (snapshot eg_candidate 1) (replicate 64 CHR ''a'') False = Inr q
    \<and> md_FeeSatoshis q = 10 \<and> md_Depends q = [replicate 64 CHR ''b'']"
proof -
  have "eg_tx CHR ''a'' CHR ''b'' (eg_out 0 ''q1'') [replicate 64 CHR ''b''] \<in> set (cd_Transactions eg_candidate)"
    by (simp add: eg_candidate_def)
  from MempoolTransaction_reads_back [OF eg_replace this, of ex_d2 False]
  show ?thesis by (auto simp: eg_tx_def)
qed

text \<open>The document of the example as the query decodes it.\<close>

definition dg_query :: "string \<Rightarrow> deployment_json option" where
  "dg_query raw = map_option document_values (dg_unmarshal raw)"


end
