(* ===== verification/Url.thy ===== *)
theory Url
  imports ChainModel "HOL-Library.List_Lexorder"
begin

text \<open>
  What the HTTP layers use of Go's \<open>net/url\<close>, \<open>path\<close>, \<open>strings\<close> and \<open>net/http\<close> (Go 1.22): percent
  encoding, query strings, path cleaning, \<open>TrimSpace\<close>, and the matching of \<open>ServeMux\<close>. Texts are
  sequences of bytes.
\<close>

section \<open>Cutting and joining texts\<close>

fun split_on :: "char \<Rightarrow> string \<Rightarrow> string list" where
  "split_on c [] = [[]]"
| "split_on c (x # s) =
    (if x = c then [] # split_on c s
     else (x # hd (split_on c s)) # tl (split_on c s))"

fun join :: "string \<Rightarrow> string list \<Rightarrow> string" where
  "join sep [] = []"
| "join sep [s] = s"
| "join sep (s # t # ss) = s @ sep @ join sep (t # ss)"

text \<open>\<open>strings.Cut\<close> at a byte: what precedes it and what follows it.\<close>

definition cut :: "char \<Rightarrow> string \<Rightarrow> string \<times> string" where
  "cut c s = (takeWhile (\<lambda>x. x \<noteq> c) s, tl (dropWhile (\<lambda>x. x \<noteq> c) s))"

lemma split_on_nonempty [simp]: "split_on c s \<noteq> []"
  by (cases s) auto

lemma split_on_clean: "c \<notin> set s \<Longrightarrow> split_on c s = [s]"
  by (induction s) auto

lemma split_on_append: "c \<notin> set s \<Longrightarrow> split_on c (s @ c # t) = s # split_on c t"
  by (induction s) auto

lemma split_join:
  assumes "ss \<noteq> []" "\<And>s. s \<in> set ss \<Longrightarrow> c \<notin> set s"
  shows "split_on c (join [c] ss) = ss"
  using assms by (induction "[c]" ss rule: join.induct) (simp_all add: split_on_clean split_on_append)

lemma cut_append: "c \<notin> set s \<Longrightarrow> cut c (s @ c # t) = (s, t)"
  by (auto simp: cut_def takeWhile_append dropWhile_append dropWhile_eq_Nil_conv takeWhile_eq_all_conv)

text \<open>
  \<open>strings.TrimSpace\<close>: the spaces of Unicode in UTF-8. No encoding is a prefix or a suffix of
  another, so that the first or the last rune is a space just when the text begins or ends with one.
\<close>

definition unicode_spaces :: "string list" where
  "unicode_spaces = map (map char_of)
    ([[9], [10], [11], [12], [13], [32], [194, 133], [194, 160], [225, 154, 128],
      [226, 128, 168], [226, 128, 169], [226, 128, 175], [226, 129, 159], [227, 128, 128]]
     @ map (\<lambda>i. [226, 128, 128 + i]) [0..<11 :: nat])"

function trim_left :: "string list \<Rightarrow> string \<Rightarrow> string" where
  "trim_left spaces s =
    (case List.find (\<lambda>p. p \<noteq> [] \<and> take (length p) s = p) spaces of
       None \<Rightarrow> s
     | Some p \<Rightarrow> trim_left spaces (drop (length p) s))"
  by pat_completeness auto
termination
proof (relation "measure (\<lambda>(_, s). length s)")
  fix spaces s p
  assume "List.find (\<lambda>p. p \<noteq> [] \<and> take (length p) s = p) spaces = Some p"
  then have "p \<noteq> []" "take (length p) s = p" by (auto simp: find_Some_iff)
  then have "s \<noteq> []" by auto
  with \<open>p \<noteq> []\<close> show "((spaces, drop (length p) s), spaces, s) \<in> measure (\<lambda>(_, s). length s)" by simp
qed simp

declare trim_left.simps [simp del]

definition TrimSpace :: "string \<Rightarrow> string" where
  "TrimSpace s = rev (trim_left (map rev unicode_spaces) (rev (trim_left unicode_spaces s)))"

text \<open>A text of printable ASCII is left alone.\<close>

lemma trim_left_id:
  assumes "\<And>p. p \<in> set spaces \<Longrightarrow> p \<noteq> [] \<and> hd p \<noteq> hd s" "s \<noteq> []"
  shows "trim_left spaces s = s"
proof -
  have "List.find (\<lambda>p. p \<noteq> [] \<and> take (length p) s = p) spaces = None"
    using assms(2) by (cases s) (auto simp: find_None_iff neq_Nil_conv dest: assms(1))
  then show ?thesis by (subst trim_left.simps) simp
qed

section \<open>Percent encoding\<close>

datatype encoding = encodePathSegment | encodeQueryComponent

definition is_alnum :: "char \<Rightarrow> bool" where
  "is_alnum c \<longleftrightarrow> (CHR ''a'' \<le> c \<and> c \<le> CHR ''z'') \<or> (CHR ''A'' \<le> c \<and> c \<le> CHR ''Z'')
     \<or> (CHR ''0'' \<le> c \<and> c \<le> CHR ''9'')"

definition shouldEscape :: "char \<Rightarrow> encoding \<Rightarrow> bool" where
  "shouldEscape c mode =
    (if is_alnum c then False
     else if c \<in> set ''-_.~'' then False
     else if c \<in> set ''$&+,/:;=?@'' then
       (case mode of encodePathSegment \<Rightarrow> c \<in> set ''/;,?'' | encodeQueryComponent \<Rightarrow> True)
     else True)"

definition upperhex :: "nat \<Rightarrow> char" where
  "upperhex n = char_of (if n < 10 then 48 + n else 55 + n)"

definition escape_byte :: "encoding \<Rightarrow> char \<Rightarrow> string" where
  "escape_byte mode c =
    (if c = CHR '' '' \<and> mode = encodeQueryComponent then ''+''
     else if shouldEscape c mode then [CHR ''%'', upperhex (of_char c div 16), upperhex (of_char c mod 16)]
     else [c])"

definition escape :: "encoding \<Rightarrow> string \<Rightarrow> string" where
  "escape mode s = concat (map (escape_byte mode) s)"

fun unescape :: "encoding \<Rightarrow> string \<Rightarrow> string option" where
  "unescape mode [] = Some []"
| "unescape mode (c # s) =
    (if c = CHR ''%'' then
       (case s of
          a # b # t \<Rightarrow>
            (case (hex_digit a, hex_digit b) of
               (Some x, Some y) \<Rightarrow> map_option ((#) (char_of (16 * x + y))) (unescape mode t)
             | _ \<Rightarrow> None)
        | _ \<Rightarrow> None)
     else if c = CHR ''+'' \<and> mode = encodeQueryComponent then map_option ((#) CHR '' '') (unescape mode s)
     else map_option ((#) c) (unescape mode s))"

definition PathEscape :: "string \<Rightarrow> string" where "PathEscape = escape encodePathSegment"

definition QueryEscape :: "string \<Rightarrow> string" where "QueryEscape = escape encodeQueryComponent"

lemma hex_digit_upperhex: "n < 16 \<Longrightarrow> hex_digit (upperhex n) = Some n"
proof -
  have "\<forall>n \<in> {..<16}. hex_digit (upperhex n) = Some n"
    by (simp add: lessThan_nat_numeral lessThan_Suc hex_digit_def upperhex_def less_eq_char_def)
  then show "n < 16 \<Longrightarrow> ?thesis" by simp
qed

lemma byte_nibbles: "(of_char c :: nat) div 16 < 16" "(of_char c :: nat) mod 16 < 16"
  using nat_of_char_less_256 [of c] by (simp_all add: less_mult_imp_div_less)

lemma escape_special: "shouldEscape CHR ''%'' mode" "shouldEscape CHR ''+'' encodeQueryComponent"
  by (simp_all add: shouldEscape_def is_alnum_def less_eq_char_def)

lemma unescape_escape_byte: "unescape mode (escape_byte mode c @ s) = map_option ((#) c) (unescape mode s)"
proof -
  have b: "(of_char c :: nat) div 16 < 16" "(of_char c :: nat) mod 16 < 16"
    using byte_nibbles .
  have c: "char_of (16 * ((of_char c :: nat) div 16) + of_char c mod 16) = c"
    by simp
  show ?thesis
    using b escape_special by (auto simp: escape_byte_def hex_digit_upperhex c)
qed

lemma unescape_escape [simp]: "unescape mode (escape mode s) = Some s"
  by (induction s) (simp_all add: escape_def unescape_escape_byte)

text \<open>What an escaped text never contains.\<close>

lemma upperhex_alnum: "n < 16 \<Longrightarrow> is_alnum (upperhex n)"
proof -
  have "\<forall>n \<in> {..<16}. is_alnum (upperhex n)"
    by (simp add: lessThan_nat_numeral lessThan_Suc is_alnum_def upperhex_def less_eq_char_def)
  then show "n < 16 \<Longrightarrow> ?thesis" by simp
qed

lemma escape_bytes:
  assumes "x \<in> set (escape mode s)"
  shows "x = CHR ''%'' \<or> (x = CHR ''+'' \<and> mode = encodeQueryComponent) \<or> \<not> shouldEscape x mode"
proof -
  have alnum: "\<not> shouldEscape y mode" if "is_alnum y" for y using that by (simp add: shouldEscape_def)
  have h: "(of_char c :: nat) div 16 < 16" "(of_char c :: nat) mod 16 < 16" for c :: char
    using byte_nibbles .
  from assms obtain c where "c \<in> set s" "x \<in> set (escape_byte mode c)" by (auto simp: escape_def)
  then show ?thesis
    using alnum [OF upperhex_alnum [OF h(1) [of c]]] alnum [OF upperhex_alnum [OF h(2) [of c]]]
    by (auto simp: escape_byte_def split: if_splits)
qed

lemma escape_clean:
  assumes "shouldEscape x mode" "x \<noteq> CHR ''%''" "x \<noteq> CHR ''+''"
  shows "x \<notin> set (escape mode s)"
  using assms escape_bytes by blast

lemma escape_Nil_iff [simp]: "escape mode s = [] \<longleftrightarrow> s = []"
  by (cases s) (simp_all add: escape_def escape_byte_def)

section \<open>Query strings\<close>

type_synonym url_values = "(string \<times> string) list"

text \<open>\<open>Values.Set\<close> on keys that are set once, \<open>Values.Get\<close>, \<open>Values.Encode\<close>.\<close>

definition values_Get :: "url_values \<Rightarrow> string \<Rightarrow> string" where
  "values_Get vs key = (case map_of vs key of None \<Rightarrow> [] | Some v \<Rightarrow> v)"

definition encode_pair :: "string \<times> string \<Rightarrow> string" where
  "encode_pair kv = QueryEscape (fst kv) @ ''='' @ QueryEscape (snd kv)"

definition values_Encode :: "url_values \<Rightarrow> string" where
  "values_Encode vs = join ''&'' (map encode_pair (sort_key fst vs))"

definition parse_pair :: "string \<Rightarrow> url_values" where
  "parse_pair p =
    (if CHR '';'' \<in> set p then []
     else if p = [] then []
     else let (key, v) = cut CHR ''='' p in
       (case (unescape encodeQueryComponent key, unescape encodeQueryComponent v) of
          (Some k, Some w) \<Rightarrow> [(k, w)]
        | _ \<Rightarrow> []))"

definition ParseQuery :: "string \<Rightarrow> url_values" where
  "ParseQuery q = concat (map parse_pair (split_on CHR ''&'' q))"

lemma QueryEscape_clean:
  "CHR ''='' \<notin> set (QueryEscape s)" "CHR ''&'' \<notin> set (QueryEscape s)" "CHR '';'' \<notin> set (QueryEscape s)"
  unfolding QueryEscape_def by (rule escape_clean; simp add: shouldEscape_def is_alnum_def less_eq_char_def)+

lemma parse_encode_pair: "parse_pair (encode_pair kv) = [kv]"
proof -
  have "cut CHR ''='' (encode_pair kv) = (QueryEscape (fst kv), QueryEscape (snd kv))"
    using cut_append [OF QueryEscape_clean(1)] by (simp add: encode_pair_def)
  then show ?thesis
    by (simp add: parse_pair_def QueryEscape_clean(3) encode_pair_def) (simp add: QueryEscape_def)
qed

lemma ParseQuery_Encode: "ParseQuery (values_Encode vs) = sort_key fst vs"
proof (cases "vs = []")
  case True
  then show ?thesis by (simp add: ParseQuery_def values_Encode_def parse_pair_def)
next
  case False
  have "sort_key fst vs \<noteq> []" using False by (metis length_0_conv length_sort)
  then have "split_on CHR ''&'' (values_Encode vs) = map encode_pair (sort_key fst vs)"
    unfolding values_Encode_def
    by (intro split_join) (auto simp: encode_pair_def QueryEscape_clean)
  moreover have "concat (map (\<lambda>kv. parse_pair (encode_pair kv)) xs) = xs" for xs
    by (induction xs) (simp_all add: parse_encode_pair)
  ultimately show ?thesis by (simp add: ParseQuery_def comp_def)
qed

lemma Get_ParseQuery_Encode:
  assumes "distinct (map fst vs)"
  shows "values_Get (ParseQuery (values_Encode vs)) = values_Get vs"
proof -
  have "map_of (sort_key fst vs) k = map_of vs k" for k
    using assms by (intro map_of_inject_set [THEN iffD2, THEN fun_cong])
      (simp_all add: distinct_map)
  then show ?thesis by (simp add: ParseQuery_Encode values_Get_def fun_eq_iff)
qed

section \<open>Paths\<close>

text \<open>\<open>path.Clean\<close> of a rooted path, and the cleaning of \<open>ServeMux\<close>, which keeps a trailing slash.\<close>

definition clean_step :: "string list \<Rightarrow> string \<Rightarrow> string list" where
  "clean_step done seg =
    (if seg = [] \<or> seg = ''.'' then done else if seg = ''..'' then butlast done else done @ [seg])"

definition path_Clean :: "string \<Rightarrow> string" where
  "path_Clean p = ''/'' @ join ''/'' (foldl clean_step [] (split_on CHR ''/'' p))"

definition cleanPath :: "string \<Rightarrow> string" where
  "cleanPath p =
    (let p = (if p = [] then ''/'' else if hd p \<noteq> CHR ''/'' then CHR ''/'' # p else p);
         np = path_Clean p
     in if last p = CHR ''/'' \<and> np \<noteq> ''/'' then np @ ''/'' else np)"

text \<open>The \<open>Location\<close> of \<open>http.Redirect\<close> to a rooted path without a query.\<close>

definition redirect_location :: "string \<Rightarrow> string" where
  "redirect_location url =
    (let c = path_Clean url in if last url = CHR ''/'' \<and> last c \<noteq> CHR ''/'' then c @ ''/'' else c)"

text \<open>\<open>firstSegment\<close> until the path is used up: segments unescaped where possible, a final slash as itself.\<close>

definition pathUnescape :: "string \<Rightarrow> string" where
  "pathUnescape s = (case unescape encodePathSegment s of None \<Rightarrow> s | Some t \<Rightarrow> t)"

definition path_segments :: "string \<Rightarrow> string list" where
  "path_segments p =
    (let xs = split_on CHR ''/'' (tl p) in
     if last xs = [] then map pathUnescape (butlast xs) @ [''/''] else map pathUnescape xs)"

text \<open>A path of segments, none of them empty or a dot segment, is clean.\<close>

definition plain_segment :: "string \<Rightarrow> bool" where
  "plain_segment s \<longleftrightarrow> s \<noteq> [] \<and> s \<noteq> ''.'' \<and> s \<noteq> ''..'' \<and> CHR ''/'' \<notin> set s"

lemma clean_plain: "\<forall>s \<in> set ss. plain_segment s \<Longrightarrow> foldl clean_step acc ss = acc @ ss"
  by (induction ss arbitrary: acc) (auto simp: clean_step_def plain_segment_def)

lemma split_path: "\<forall>s \<in> set ss. plain_segment s \<Longrightarrow> ss \<noteq> [] \<Longrightarrow>
    split_on CHR ''/'' (CHR ''/'' # join ''/'' ss) = [] # ss"
  by (simp add: split_join plain_segment_def)

lemma last_join: "ss \<noteq> [] \<Longrightarrow> last ss \<noteq> [] \<Longrightarrow> join sep ss \<noteq> [] \<and> last (join sep ss) = last (last ss)"
  by (induction sep ss rule: join.induct) auto

lemma path_plain:
  assumes "\<forall>s \<in> set ss. plain_segment s" "ss \<noteq> []"
  shows "path_Clean (CHR ''/'' # join ''/'' ss) = CHR ''/'' # join ''/'' ss"
    and "cleanPath (CHR ''/'' # join ''/'' ss) = CHR ''/'' # join ''/'' ss"
    and "redirect_location (CHR ''/'' # join ''/'' ss) = CHR ''/'' # join ''/'' ss"
    and "path_segments (CHR ''/'' # join ''/'' ss) = map pathUnescape ss"
proof -
  have l: "last ss \<in> set ss" using assms(2) by simp
  with assms(1) have "last ss \<noteq> []" by (simp add: plain_segment_def)
  have "CHR ''/'' \<notin> set (last ss)" using l assms(1) by (simp add: plain_segment_def)
  with \<open>last ss \<noteq> []\<close> have s: "last (last ss) \<noteq> CHR ''/''" using last_in_set by metis
  from last_join [OF assms(2) \<open>last ss \<noteq> []\<close>, of "''/''"]
  have e: "join ''/'' ss \<noteq> []" "last (join ''/'' ss) \<noteq> CHR ''/''"
    by (simp_all add: s)
  show p: "path_Clean (CHR ''/'' # join ''/'' ss) = CHR ''/'' # join ''/'' ss"
    by (simp add: path_Clean_def split_path [OF assms] clean_plain assms(1) clean_step_def del: split_on.simps)
  show "cleanPath (CHR ''/'' # join ''/'' ss) = CHR ''/'' # join ''/'' ss"
    and "redirect_location (CHR ''/'' # join ''/'' ss) = CHR ''/'' # join ''/'' ss"
    using e by (simp_all add: cleanPath_def redirect_location_def p)
  have "split_on CHR ''/'' (join ''/'' ss) = ss"
    using assms by (intro split_join) (auto simp: plain_segment_def)
  with \<open>last ss \<noteq> []\<close> show "path_segments (CHR ''/'' # join ''/'' ss) = map pathUnescape ss"
    by (simp add: path_segments_def)
qed

lemma pathUnescape_PathEscape [simp]: "pathUnescape (PathEscape s) = s"
  by (simp add: pathUnescape_def PathEscape_def)

lemma PathEscape_slash: "CHR ''/'' \<notin> set (PathEscape s)"
  unfolding PathEscape_def by (rule escape_clean) (simp_all add: shouldEscape_def is_alnum_def less_eq_char_def)

end
