(* ===== verification/Mux.thy ===== *)
theory Mux
  imports Url
begin

text \<open>
  \<open>http.ServeMux\<close> (Go 1.22) as the servers use it: patterns with an optional method, literal
  segments, single wildcards and a final multi wildcard (a trailing slash). The most specific
  pattern wins, and a path that is not clean is answered with a redirect. \<open>{$}\<close> is the literal
  segment of a final slash. \<open>CONNECT\<close> requests and hosts in patterns are left out.
\<close>

datatype pseg = Lit string | Wild | Rest

type_synonym 'h routes = "(pseg list \<times> pseg list \<times> 'h) list"

type_synonym 'h mux = "(string option \<times> pseg list \<times> 'h) list"

text \<open>The children of a node of the routing tree: each route carries what is left of its pattern.\<close>

definition children :: "(pseg \<Rightarrow> bool) \<Rightarrow> 'h routes \<Rightarrow> 'h routes" where
  "children P rs = concat (map (\<lambda>(p, pat, h). case p of [] \<Rightarrow> [] | x # q \<Rightarrow> if P x then [(q, pat, h)] else []) rs)"

definition leaf :: "'h routes \<Rightarrow> (pseg list \<times> 'h) option" where
  "leaf rs = map_option snd (List.find (\<lambda>(p, _). p = []) rs)"

fun matchPath :: "'h routes \<Rightarrow> string list \<Rightarrow> string list \<Rightarrow> (pseg list \<times> 'h \<times> string list) option" where
  "matchPath rs [] ms = map_option (\<lambda>(pat, h). (pat, h, ms)) (leaf rs)"
| "matchPath rs (s # rest) ms =
    (case (if children (\<lambda>x. x = Lit s) rs = [] then None else matchPath (children (\<lambda>x. x = Lit s) rs) rest ms) of
       Some r \<Rightarrow> Some r
     | None \<Rightarrow>
       (case (if s = ''/'' \<or> children (\<lambda>x. x = Wild) rs = [] then None
              else matchPath (children (\<lambda>x. x = Wild) rs) rest (ms @ [s])) of
          Some r \<Rightarrow> Some r
        | None \<Rightarrow> map_option (\<lambda>(pat, h). (pat, h, ms)) (leaf (children (\<lambda>x. x = Rest) rs))))"

lemma matchPath_no_routes [simp]: "matchPath [] segs ms = None"
  by (cases segs) (simp_all add: leaf_def children_def)

definition method_routes :: "string option \<Rightarrow> 'h mux \<Rightarrow> 'h routes" where
  "method_routes m mux = map (\<lambda>(_, pat, h). (pat, pat, h)) (filter (\<lambda>r. fst r = m) mux)"

definition mux_match :: "'h mux \<Rightarrow> string \<Rightarrow> string \<Rightarrow> (pseg list \<times> 'h \<times> string list) option" where
  "mux_match mux method path =
    (let segs = path_segments path in
     case matchPath (method_routes (Some method) mux) segs [] of
       Some r \<Rightarrow> Some r
     | None \<Rightarrow>
       (case (if method = ''HEAD'' then matchPath (method_routes (Some ''GET'') mux) segs [] else None) of
          Some r \<Rightarrow> Some r
        | None \<Rightarrow> matchPath (method_routes None mux) segs []))"

definition exactMatch :: "(pseg list \<times> 'h \<times> string list) option \<Rightarrow> string \<Rightarrow> bool" where
  "exactMatch n path =
    (case n of
       None \<Rightarrow> False
     | Some (pat, _) \<Rightarrow>
         if last pat \<noteq> Rest then True
         else if path \<noteq> [] \<and> last path \<noteq> CHR ''/'' then False
         else length pat = count_list path CHR ''/'')"

datatype 'h dispatch = Found 'h "string list" | Moved | Unmatched

definition findHandler :: "'h mux \<Rightarrow> string \<Rightarrow> string \<Rightarrow> 'h dispatch" where
  "findHandler mux method escapedPath =
    (let path = cleanPath escapedPath; n = mux_match mux method path in
     if \<not> exactMatch n path \<and> last path \<noteq> CHR ''/''
        \<and> exactMatch (mux_match mux method (path @ ''/'')) (path @ ''/'') then Moved
     else if path \<noteq> escapedPath then Moved
     else case n of None \<Rightarrow> Unmatched | Some (_, h, ms) \<Rightarrow> Found h ms)"

text \<open>A clean path whose segments match a pattern without a trailing slash goes to its handler.\<close>

lemma findHandler_exact:
  assumes "\<forall>s \<in> set ss. plain_segment s" "ss \<noteq> []"
    and "mux_match mux method (CHR ''/'' # join ''/'' ss) = Some (pat, h, ms)" "last pat \<noteq> Rest"
  shows "findHandler mux method (CHR ''/'' # join ''/'' ss) = Found h ms"
  using assms by (simp add: findHandler_def path_plain exactMatch_def)

lemma mux_match_plain:
  assumes "\<forall>s \<in> set ss. plain_segment s" "ss \<noteq> []"
    and "matchPath (method_routes (Some method) mux) (map pathUnescape ss) [] = Some r"
  shows "mux_match mux method (CHR ''/'' # join ''/'' ss) = Some r"
  using assms by (simp add: mux_match_def path_plain)

end
