(* ===== verification/Requests.thy ===== *)
theory Requests
  imports Url Decode
begin

text \<open>
  \<open>internal/api/validate.go\<close>, \<open>pagination.go\<close> and \<open>parseIncludeWitness\<close>: the shapes of the
  identifiers and query parameters a request may carry. A \<open>value, ok\<close> result is an option.
\<close>

record http_request =
  rq_Method :: string
  rq_Path :: string
  rq_RawQuery :: string

text \<open>\<open>r.URL.Query().Get(name)\<close>.\<close>

definition query_Get :: "http_request \<Rightarrow> string \<Rightarrow> string" where
  "query_Get r name = values_Get (ParseQuery (rq_RawQuery r)) name"

definition isHash64 :: "string \<Rightarrow> bool" where
  "isHash64 s \<longleftrightarrow> length s = 64 \<and> list_all is_lower_hex s"

definition maxAddressLength :: nat where "maxAddressLength = 128"

definition isValidAddressShape :: "string \<Rightarrow> bool" where
  "isValidAddressShape s =
    (if s = [] \<or> length s > maxAddressLength then False
     else list_all (\<lambda>r. \<not> (of_char r < (0x21 :: nat) \<or> of_char r > (0x7e :: nat))) s)"

definition parseHeight :: "string \<Rightarrow> int option" where
  "parseHeight s =
    (if s = [] then None
     else if \<not> list_all (\<lambda>r. \<not> (r < CHR ''0'' \<or> r > CHR ''9'')) s then None
     else ParseInt64 s)"

definition api_maxDeploymentNameLength :: nat where "api_maxDeploymentNameLength = 128"

definition isValidDeploymentNameShape :: "string \<Rightarrow> bool" where
  "isValidDeploymentNameShape s \<longleftrightarrow> s \<noteq> [] \<and> length s \<le> api_maxDeploymentNameLength"

text \<open>Height, whether it is one, whether the identifier is a hash.\<close>

definition blockIdentifierKind :: "string \<Rightarrow> int \<times> bool \<times> bool" where
  "blockIdentifierKind id' =
    (if isHash64 id' then (0, False, True)
     else case parseHeight id' of
       Some h \<Rightarrow> (h, True, False)
     | None \<Rightarrow> (0, False, False))"

text \<open>Value, whether the parameter is present, whether it is well formed.\<close>

definition queryParamInt :: "http_request \<Rightarrow> string \<Rightarrow> int \<times> bool \<times> bool" where
  "queryParamInt r name =
    (let raw = query_Get r name in
     if raw = [] then (0, False, True)
     else case parseHeight raw of
       None \<Rightarrow> (0, True, False)
     | Some n \<Rightarrow> (n, True, True))"

definition parsePageSize :: "http_request \<Rightarrow> int option" where
  "parsePageSize r =
    (case queryParamInt r ''limit'' of (n, present, valid) \<Rightarrow>
       if \<not> present then Some 0 else if \<not> valid then None else Some n)"

definition parseBeforeHeight :: "http_request \<Rightarrow> int option option" where
  "parseBeforeHeight r =
    (case queryParamInt r ''before'' of (n, present, valid) \<Rightarrow>
       if \<not> present then Some None else if \<not> valid then None else Some (Some n))"

text \<open>\<open>strconv.ParseBool\<close>.\<close>

definition ParseBool :: "string \<Rightarrow> bool option" where
  "ParseBool s =
    (if s \<in> {''1'', ''t'', ''T'', ''true'', ''TRUE'', ''True''} then Some True
     else if s \<in> {''0'', ''f'', ''F'', ''false'', ''FALSE'', ''False''} then Some False
     else None)"

definition parseIncludeWitness :: "http_request \<Rightarrow> bool option" where
  "parseIncludeWitness r =
    (let raw = query_Get r ''include_witness'' in if raw = [] then Some False else ParseBool raw)"

section \<open>Decimal heights\<close>

lemma digit_range: "\<not> (c < CHR ''0'' \<or> c > CHR ''9'') \<longleftrightarrow> is_digit c"
  by (auto simp: is_digit_def not_less)

lemma parseHeight_iff:
  "parseHeight s = Some n \<longleftrightarrow> s \<noteq> [] \<and> list_all is_digit s \<and> n = int (read_nat s) \<and> n \<le> max_i64"
  unfolding parseHeight_def digit_range by (auto simp: ParseInt64_def)

lemma parseHeight_show: "parseHeight (show_nat n) = (if int n \<le> max_i64 then Some (int n) else None)"
  unfolding parseHeight_def digit_range by (simp add: show_nat_digits ParseInt64_def)

lemma parseHeight_nonneg: "parseHeight s = Some n \<Longrightarrow> 0 \<le> n"
  by (auto simp: parseHeight_iff)

text \<open>\<open>strconv.FormatInt\<close> and \<open>strconv.Itoa\<close> in base 10.\<close>

definition FormatInt :: "int \<Rightarrow> string" where
  "FormatInt n = (if n < 0 then CHR ''-'' # show_nat (nat (- n)) else show_nat (nat n))"

lemma parseHeight_FormatInt: "parseHeight (FormatInt n) = (if 0 \<le> n \<and> n \<le> max_i64 then Some n else None)"
proof (cases "n < 0")
  case True
  then show ?thesis by (simp add: parseHeight_def FormatInt_def less_char_def)
next
  case False
  then show ?thesis
    by (simp add: FormatInt_def parseHeight_show)
qed

lemma FormatInt_nonempty [simp]: "FormatInt n \<noteq> []"
  by (simp add: FormatInt_def)

text \<open>A hash is 64 bytes long; the largest height has 19 digits, but leading zeros are accepted.\<close>

lemma isHash64_nonempty: "isHash64 s \<Longrightarrow> s \<noteq> []"
  by (auto simp: isHash64_def)

lemma blockIdentifierKind_hash: "isHash64 s \<Longrightarrow> blockIdentifierKind s = (0, False, True)"
  by (simp add: blockIdentifierKind_def)

lemma queryParamInt_cases:
  "queryParamInt r name =
    (if query_Get r name = [] then (0, False, True)
     else case parseHeight (query_Get r name) of None \<Rightarrow> (0, True, False) | Some n \<Rightarrow> (n, True, True))"
  by (simp add: queryParamInt_def Let_def)

end
