(* ===== verification/Api.thy ===== *)
theory Api
  imports Mux Requests QueryTx QueryMempool QueryDeployments
begin

text \<open>
  \<open>internal/api\<close>: the handlers of the JSON API and the server that routes to them. A handler is a
  function of the request and of the databases its queries see: the \<open>i\<close>-th read-only transaction
  of a request sees \<open>snaps i\<close>, or fails (\<open>None\<close>). A body is the value that \<open>encoding/json\<close>
  writes; logging and the timeout of \<open>readyz\<close>, a failure of the read, are left out. \<open>decode\<close> is
  \<open>json.Unmarshal\<close> on a stored deployment document.
\<close>

section \<open>Reading\<close>

record snapshot =
  sn_db :: db
  sn_mempool :: mempool_db
  sn_deployments :: dep_db
  sn_supplyTable :: bool

type_synonym snaps = "nat \<Rightarrow> snapshot option"

datatype call_error = Unavailable | Failed query_error

definition ask :: "snaps \<Rightarrow> nat \<Rightarrow> (snapshot \<Rightarrow> query_error + 'a) \<Rightarrow> call_error + 'a" where
  "ask snaps i q = (case snaps i of None \<Rightarrow> Inl Unavailable | Some sn \<Rightarrow> map_err Failed (q sn))"

lemma ask_simps [simp]: "snaps i = None \<Longrightarrow> ask snaps i q = Inl Unavailable"
  "snaps i = Some sn \<Longrightarrow> ask snaps i q = map_err Failed (q sn)"
  by (simp_all add: ask_def)

section \<open>errors.go\<close>

datatype api_body =
    ErrorEnvelope string string
  | StatusMessage string
  | StatusBody status
  | BlocksBody block_page
  | BlockBody "block_summary \<times> block_tx_ref list"
  | TransactionBody tx_detail
  | AddressBody address_summary
  | HistoryBody history_page
  | MempoolBody "mempool_view \<times> mempool_page"
  | MempoolTransactionBody mempool_detail
  | DeploymentsBody "deployment_view \<times> deployment list"
  | DeploymentBody "deployment_view \<times> deployment"
  | SupplyBody supply_overview
  | RichListBody "status \<times> rich_entry list"

record api_response =
  ar_Header :: "(string \<times> string) list"
  ar_Status :: nat
  ar_Body :: api_body

definition writeError :: "nat \<Rightarrow> string \<Rightarrow> string \<Rightarrow> api_response" where
  "writeError st code message =
    \<lparr>ar_Header = [(''Content-Type'', ''application/json'')], ar_Status = st, ar_Body = ErrorEnvelope code message\<rparr>"

definition writeBadRequest :: "string \<Rightarrow> api_response" where
  "writeBadRequest message = writeError 400 ''bad_request'' message"

definition writeNotFound :: "string \<Rightarrow> api_response" where
  "writeNotFound message = writeError 404 ''not_found'' message"

definition writeMethodNotAllowed :: "string \<Rightarrow> api_response" where
  "writeMethodNotAllowed allow =
    (let r = writeError 405 ''method_not_allowed'' ''method not allowed'' in
     r\<lparr>ar_Header := (''Allow'', allow) # ar_Header r\<rparr>)"

definition writeInternalError :: api_response where
  "writeInternalError = writeError 500 ''internal_error'' ''internal error''"

definition writeJSON :: "api_body \<Rightarrow> api_response" where
  "writeJSON v = \<lparr>ar_Header = [(''Content-Type'', ''application/json'')], ar_Status = 200, ar_Body = v\<rparr>"

section \<open>Blocks\<close>

definition badBefore :: string where
  "badBefore = ''malformed \"before\" query parameter: must be a non-negative decimal integer''"

definition badLimit :: string where
  "badLimit = ''malformed \"limit\" query parameter: must be a non-negative decimal integer''"

definition handleBlocks :: "snaps \<Rightarrow> http_request \<Rightarrow> api_response" where
  "handleBlocks snaps r =
    (case parseBeforeHeight r of
       None \<Rightarrow> writeBadRequest badBefore
     | Some before \<Rightarrow>
     (case parsePageSize r of
        None \<Rightarrow> writeBadRequest badLimit
      | Some limit \<Rightarrow>
      (case ask snaps 0 (\<lambda>sn. Inr (RecentBlocks (sn_db sn) before limit)) of
         Inl _ \<Rightarrow> writeInternalError
       | Inr page \<Rightarrow> writeJSON (BlocksBody page))))"

definition handleBlock :: "snaps \<Rightarrow> string \<Rightarrow> api_response" where
  "handleBlock snaps id' =
    (let (height, isHeight, isHash) = blockIdentifierKind id' in
     if \<not> isHeight \<and> \<not> isHash then
       writeBadRequest ''malformed block identifier: must be a 64-char lowercase hex hash or a non-negative decimal height''
     else case (if isHash then ask snaps 0 (\<lambda>sn. BlockByHash (sn_db sn) id')
                else ask snaps 0 (\<lambda>sn. BlockByHeight (sn_db sn) height)) of
       Inl err \<Rightarrow> if err = Failed ErrNotFound then writeNotFound ''block not found'' else writeInternalError
     | Inr block \<Rightarrow> writeJSON (BlockBody block))"

section \<open>Transactions\<close>

definition badTransactionID :: string where
  "badTransactionID = ''malformed transaction identifier: must be exactly 64 lowercase hex characters''"

definition badIncludeWitness :: string where
  "badIncludeWitness = ''malformed \"include_witness\" query parameter: must be \"true\" or \"false\"''"

definition handleTransaction :: "snaps \<Rightarrow> http_request \<Rightarrow> string \<Rightarrow> api_response" where
  "handleTransaction snaps r id' =
    (if \<not> isHash64 id' then writeBadRequest badTransactionID
     else case parseIncludeWitness r of
       None \<Rightarrow> writeBadRequest badIncludeWitness
     | Some includeWitness \<Rightarrow>
       (let first = ask snaps 0 (\<lambda>sn. TransactionByTxID (sn_db sn) id' includeWitness);
            res = (if first = Inl (Failed ErrNotFound)
                   then ask snaps 1 (\<lambda>sn. TransactionByWTxID (sn_db sn) id' includeWitness) else first)
        in case res of
             Inl err \<Rightarrow> if err = Failed ErrNotFound then writeNotFound ''transaction not found'' else writeInternalError
           | Inr tx \<Rightarrow> writeJSON (TransactionBody tx)))"

section \<open>Addresses\<close>

definition handleAddress :: "snaps \<Rightarrow> string \<Rightarrow> api_response" where
  "handleAddress snaps address =
    (if \<not> isValidAddressShape address then writeBadRequest ''malformed address''
     else case ask snaps 0 (\<lambda>sn. Inr (AddressSummary (sn_db sn) address)) of
       Inl _ \<Rightarrow> writeInternalError
     | Inr summary \<Rightarrow> writeJSON (AddressBody summary))"

definition badBeforeTxID :: string where
  "badBeforeTxID = ''malformed \"before_txid\" query parameter: must be exactly 64 lowercase hex characters''"

definition handleAddressHistory :: "snaps \<Rightarrow> http_request \<Rightarrow> string \<Rightarrow> api_response" where
  "handleAddressHistory snaps r address =
    (if \<not> isValidAddressShape address then writeBadRequest ''malformed address''
     else case parseBeforeHeight r of
       None \<Rightarrow> writeBadRequest badBefore
     | Some beforeHeight \<Rightarrow>
       (let beforeTxID = query_Get r ''before_txid'' in
        if beforeTxID \<noteq> [] \<and> \<not> isHash64 beforeTxID then writeBadRequest badBeforeTxID
        else if (beforeHeight \<noteq> None) \<noteq> (beforeTxID \<noteq> []) then
          writeBadRequest ''\"before\" and \"before_txid\" must both be supplied together, or both omitted''
        else let beforeTxIDPtr = (if beforeTxID \<noteq> [] then Some beforeTxID else None) in
          case parsePageSize r of
            None \<Rightarrow> writeBadRequest badLimit
          | Some limit \<Rightarrow>
            (case ask snaps 0 (\<lambda>sn. Inr (AddressHistory (sn_db sn) address beforeHeight beforeTxIDPtr limit)) of
               Inl _ \<Rightarrow> writeInternalError
             | Inr page \<Rightarrow> writeJSON (HistoryBody page))))"

section \<open>The mempool\<close>

definition handleMempool :: "snaps \<Rightarrow> http_request \<Rightarrow> api_response" where
  "handleMempool snaps r =
    (let (generation, genPresent, ok) = queryParamInt r ''generation'' in
     if \<not> ok then writeBadRequest ''malformed \"generation\" query parameter: must be a non-negative decimal integer''
     else let (beforeEntryTime, timePresent, ok) = queryParamInt r ''before_entry_time'' in
     if \<not> ok then writeBadRequest ''malformed \"before_entry_time\" query parameter: must be a non-negative decimal integer''
     else let beforeTxID = query_Get r ''before_txid'' in
     if beforeTxID \<noteq> [] \<and> \<not> isHash64 beforeTxID then writeBadRequest badBeforeTxID
     else if genPresent \<noteq> timePresent \<or> genPresent \<noteq> (beforeTxID \<noteq> []) then
       writeBadRequest ''\"generation\", \"before_entry_time\", and \"before_txid\" must all be supplied together, or all omitted''
     else let cursor = (if genPresent
         then Some \<lparr>mc_Generation = generation, mc_EntryTime = beforeEntryTime, mc_TxID = beforeTxID\<rparr> else None) in
     case parsePageSize r of
       None \<Rightarrow> writeBadRequest badLimit
     | Some limit \<Rightarrow>
       (case ask snaps 0 (\<lambda>sn. MempoolOverview (sn_db sn) (sn_mempool sn) cursor limit) of
          Inl err \<Rightarrow>
            if err = Failed ErrMempoolGenerationChanged then
              writeError 409 ''mempool_generation_changed''
                ''the mempool snapshot changed since this pagination cursor was issued; restart from the first page''
            else writeInternalError
        | Inr overview \<Rightarrow> writeJSON (MempoolBody overview)))"

definition handleMempoolTransaction :: "snaps \<Rightarrow> http_request \<Rightarrow> string \<Rightarrow> api_response" where
  "handleMempoolTransaction snaps r id' =
    (if \<not> isHash64 id' then writeBadRequest badTransactionID
     else case parseIncludeWitness r of
       None \<Rightarrow> writeBadRequest badIncludeWitness
     | Some includeWitness \<Rightarrow>
       (let first = ask snaps 0 (\<lambda>sn. MempoolTransactionByTxID (sn_db sn) (sn_mempool sn) id' includeWitness);
            res = (if first = Inl (Failed ErrNotFound)
                   then ask snaps 1 (\<lambda>sn. MempoolTransactionByWTxID (sn_db sn) (sn_mempool sn) id' includeWitness)
                   else first)
        in case res of
             Inl err \<Rightarrow> if err = Failed ErrNotFound then writeNotFound ''mempool transaction not found''
                         else writeInternalError
           | Inr tx \<Rightarrow> writeJSON (MempoolTransactionBody tx)))"

section \<open>Deployments\<close>

definition handleDeployments :: "(string \<Rightarrow> deployment_json option) \<Rightarrow> snaps \<Rightarrow> api_response" where
  "handleDeployments decode snaps =
    (case ask snaps 0 (\<lambda>sn. DeploymentOverview decode (sn_db sn) (sn_deployments sn)) of
       Inl _ \<Rightarrow> writeInternalError
     | Inr overview \<Rightarrow> writeJSON (DeploymentsBody overview))"

definition handleDeployment :: "(string \<Rightarrow> deployment_json option) \<Rightarrow> snaps \<Rightarrow> string \<Rightarrow> api_response" where
  "handleDeployment decode snaps name =
    (if \<not> isValidDeploymentNameShape name then writeBadRequest ''malformed deployment name''
     else case ask snaps 0 (\<lambda>sn. DeploymentByName decode (sn_db sn) (sn_deployments sn) name) of
       Inl err \<Rightarrow>
         if err = Failed ErrDeploymentCacheUninitialized then
           writeError 503 ''deployment_cache_uninitialized'' ''the deployment cache has not synchronized yet''
         else if err = Failed ErrNotFound then
           writeError 404 ''deployment_not_found_in_snapshot'' ''no deployment with this name in the cached snapshot''
         else writeInternalError
     | Inr detail \<Rightarrow> writeJSON (DeploymentBody detail))"

section \<open>Status, supply and rich list\<close>

definition handleStatus :: "snaps \<Rightarrow> api_response" where
  "handleStatus snaps =
    (case ask snaps 0 (\<lambda>sn. Inr (Status (sn_db sn))) of
       Inl _ \<Rightarrow> writeInternalError
     | Inr st \<Rightarrow> writeJSON (StatusBody st))"

definition handleSupply :: "snaps \<Rightarrow> api_response" where
  "handleSupply snaps =
    (case ask snaps 0 (\<lambda>sn. SupplyOverview (sn_supplyTable sn) (sn_db sn)) of
       Inl err \<Rightarrow>
         if err = Failed ErrSupplyRollupUnavailable then
           writeError 503 ''supply_rollup_unavailable'' ''supply rollup is unavailable for the indexed tip''
         else writeInternalError
     | Inr overview \<Rightarrow> writeJSON (SupplyBody overview))"

definition handleRichList :: "snaps \<Rightarrow> api_response" where
  "handleRichList snaps =
    (case ask snaps 0 (\<lambda>sn. Inr (RichListOverview (sn_db sn))) of
       Inl _ \<Rightarrow> writeInternalError
     | Inr overview \<Rightarrow> writeJSON (RichListBody overview))"

section \<open>server.go\<close>

definition handleHealthz :: api_response where
  "handleHealthz = writeJSON (StatusMessage ''ok'')"

definition handleReadyz :: "snaps \<Rightarrow> api_response" where
  "handleReadyz snaps =
    (case ask snaps 0 (\<lambda>sn. Inr (Status (sn_db sn))) of
       Inl _ \<Rightarrow> writeError 503 ''not_ready'' ''database not reachable''
     | Inr _ \<Rightarrow> writeJSON (StatusMessage ''ready''))"

datatype api_handler =
    Healthz | Readyz | ApiStatus | ApiBlocks | ApiBlock | ApiTransaction | ApiAddress | ApiAddressHistory
  | ApiMempool | ApiMempoolTransaction | ApiDeployments | ApiDeployment | ApiSupply | ApiRichList
  | ApiMethodNotAllowed | ApiNoRoute

definition api_v1 :: "pseg list \<Rightarrow> pseg list" where
  "api_v1 p = [Lit ''api'', Lit ''v1''] @ p"

text \<open>\<open>knownGETRoutes\<close> with the handler that \<open>routes\<close> registers for \<open>GET\<close>.\<close>

definition api_knownGETRoutes :: "(pseg list \<times> api_handler) list" where
  "api_knownGETRoutes =
    [([Lit ''healthz''], Healthz),
     ([Lit ''readyz''], Readyz),
     (api_v1 [Lit ''status''], ApiStatus),
     (api_v1 [Lit ''blocks''], ApiBlocks),
     (api_v1 [Lit ''block'', Wild], ApiBlock),
     (api_v1 [Lit ''tx'', Wild], ApiTransaction),
     (api_v1 [Lit ''address'', Wild], ApiAddress),
     (api_v1 [Lit ''address'', Wild, Lit ''transactions''], ApiAddressHistory),
     (api_v1 [Lit ''mempool''], ApiMempool),
     (api_v1 [Lit ''mempool'', Lit ''tx'', Wild], ApiMempoolTransaction),
     (api_v1 [Lit ''deployments''], ApiDeployments),
     (api_v1 [Lit ''deployments'', Wild], ApiDeployment),
     (api_v1 [Lit ''supply''], ApiSupply),
     (api_v1 [Lit ''richlist''], ApiRichList)]"

definition api_routes :: "api_handler mux" where
  "api_routes =
    map (\<lambda>(p, h). (Some ''GET'', p, h)) api_knownGETRoutes
    @ map (\<lambda>(p, _). (None, p, ApiMethodNotAllowed)) api_knownGETRoutes
    @ [(None, [Rest], ApiNoRoute)]"

definition api_handle ::
  "(string \<Rightarrow> deployment_json option) \<Rightarrow> snaps \<Rightarrow> http_request \<Rightarrow> api_handler \<Rightarrow> string \<Rightarrow> api_response" where
  "api_handle decode snaps r h v =
    (case h of
       Healthz \<Rightarrow> handleHealthz
     | Readyz \<Rightarrow> handleReadyz snaps
     | ApiStatus \<Rightarrow> handleStatus snaps
     | ApiBlocks \<Rightarrow> handleBlocks snaps r
     | ApiBlock \<Rightarrow> handleBlock snaps v
     | ApiTransaction \<Rightarrow> handleTransaction snaps r v
     | ApiAddress \<Rightarrow> handleAddress snaps v
     | ApiAddressHistory \<Rightarrow> handleAddressHistory snaps r v
     | ApiMempool \<Rightarrow> handleMempool snaps r
     | ApiMempoolTransaction \<Rightarrow> handleMempoolTransaction snaps r v
     | ApiDeployments \<Rightarrow> handleDeployments decode snaps
     | ApiDeployment \<Rightarrow> handleDeployment decode snaps v
     | ApiSupply \<Rightarrow> handleSupply snaps
     | ApiRichList \<Rightarrow> handleRichList snaps
     | ApiMethodNotAllowed \<Rightarrow> writeMethodNotAllowed ''GET''
     | ApiNoRoute \<Rightarrow> writeNotFound ''no such route'')"

text \<open>
  An answer of a handler, or what \<open>ServeMux\<close> answers itself: a redirect to the clean path, or its
  plain 404, which the pattern \<open>/\<close> makes unreachable.
\<close>

datatype 'r served = Answer 'r | MovedPermanently | NoPattern

definition api_ServeHTTP ::
  "(string \<Rightarrow> deployment_json option) \<Rightarrow> snaps \<Rightarrow> http_request \<Rightarrow> api_response served" where
  "api_ServeHTTP decode snaps r =
    (case findHandler api_routes (rq_Method r) (rq_Path r) of
       Found h ms \<Rightarrow> Answer (api_handle decode snaps r h (case ms of [] \<Rightarrow> [] | v # _ \<Rightarrow> v))
     | Moved \<Rightarrow> MovedPermanently
     | Unmatched \<Rightarrow> NoPattern)"

end
