(* ===== verification/Web.thy ===== *)
theory Web
  imports Api
begin

text \<open>
  \<open>internal/web\<close>: the handlers of the HTML pages, with their own copies of the request checks, the
  links of the pagination, the search, and the server. A page is the template it is rendered with
  and the data it gets; executing the templates is left out, and the embedded file server behind
  \<open>/static/\<close> is an argument.
\<close>

section \<open>validate.go\<close>

definition web_isHash64 :: "string \<Rightarrow> bool" where
  "web_isHash64 s \<longleftrightarrow> length s = 64 \<and> list_all is_lower_hex s"

definition web_maxAddressLength :: nat where "web_maxAddressLength = 128"

definition web_isValidAddressShape :: "string \<Rightarrow> bool" where
  "web_isValidAddressShape s =
    (if s = [] \<or> length s > web_maxAddressLength then False
     else list_all (\<lambda>r. \<not> (of_char r < (0x21 :: nat) \<or> of_char r > (0x7e :: nat))) s)"

definition web_parseHeight :: "string \<Rightarrow> int option" where
  "web_parseHeight s =
    (if s = [] then None
     else if \<not> list_all (\<lambda>r. \<not> (r < CHR ''0'' \<or> r > CHR ''9'')) s then None
     else ParseInt64 s)"

definition web_blockIdentifierKind :: "string \<Rightarrow> int \<times> bool \<times> bool" where
  "web_blockIdentifierKind id' =
    (if web_isHash64 id' then (0, False, True)
     else case web_parseHeight id' of
       Some h \<Rightarrow> (h, True, False)
     | None \<Rightarrow> (0, False, False))"

definition web_queryParamInt :: "http_request \<Rightarrow> string \<Rightarrow> int \<times> bool \<times> bool" where
  "web_queryParamInt r name =
    (let raw = query_Get r name in
     if raw = [] then (0, False, True)
     else case web_parseHeight raw of
       None \<Rightarrow> (0, True, False)
     | Some n \<Rightarrow> (n, True, True))"

definition web_parsePageSize :: "http_request \<Rightarrow> int option" where
  "web_parsePageSize r =
    (case web_queryParamInt r ''limit'' of (n, present, valid) \<Rightarrow>
       if \<not> present then Some 0 else if \<not> valid then None else Some n)"

definition web_parseBeforeHeight :: "http_request \<Rightarrow> int option option" where
  "web_parseBeforeHeight r =
    (case web_queryParamInt r ''before'' of (n, present, valid) \<Rightarrow>
       if \<not> present then Some None else if \<not> valid then None else Some (Some n))"

definition web_maxDeploymentNameLength :: nat where "web_maxDeploymentNameLength = 128"

definition web_isValidDeploymentNameShape :: "string \<Rightarrow> bool" where
  "web_isValidDeploymentNameShape s \<longleftrightarrow> s \<noteq> [] \<and> length s \<le> web_maxDeploymentNameLength"

definition maxSearchLength :: nat where "maxSearchLength = 128"

definition web_parseIncludeWitness :: "http_request \<Rightarrow> bool option" where
  "web_parseIncludeWitness r =
    (let raw = query_Get r ''include_witness'' in if raw = [] then Some False else ParseBool raw)"

text \<open>The copies agree with those of the API.\<close>

lemma web_validate_mirrors:
  "web_isHash64 = isHash64" "web_isValidAddressShape = isValidAddressShape" "web_parseHeight = parseHeight"
  "web_blockIdentifierKind = blockIdentifierKind" "web_queryParamInt = queryParamInt"
  "web_parsePageSize = parsePageSize" "web_parseBeforeHeight = parseBeforeHeight"
  "web_isValidDeploymentNameShape = isValidDeploymentNameShape" "web_parseIncludeWitness = parseIncludeWitness"
proof -
  show h: "web_isHash64 = isHash64" by (simp add: fun_eq_iff web_isHash64_def isHash64_def)
  show "web_isValidAddressShape = isValidAddressShape"
    by (simp add: fun_eq_iff web_isValidAddressShape_def isValidAddressShape_def web_maxAddressLength_def maxAddressLength_def)
  show p: "web_parseHeight = parseHeight" by (simp add: fun_eq_iff web_parseHeight_def parseHeight_def)
  show "web_blockIdentifierKind = blockIdentifierKind"
    by (simp add: fun_eq_iff web_blockIdentifierKind_def blockIdentifierKind_def h p)
  show q: "web_queryParamInt = queryParamInt"
    by (simp add: fun_eq_iff web_queryParamInt_def queryParamInt_def p Let_def)
  show "web_parsePageSize = parsePageSize" "web_parseBeforeHeight = parseBeforeHeight"
    by (simp_all add: fun_eq_iff web_parsePageSize_def parsePageSize_def web_parseBeforeHeight_def
        parseBeforeHeight_def q)
  show "web_isValidDeploymentNameShape = isValidDeploymentNameShape"
    by (simp add: fun_eq_iff web_isValidDeploymentNameShape_def isValidDeploymentNameShape_def
        web_maxDeploymentNameLength_def api_maxDeploymentNameLength_def)
  show "web_parseIncludeWitness = parseIncludeWitness"
    by (simp add: fun_eq_iff web_parseIncludeWitness_def parseIncludeWitness_def Let_def)
qed

section \<open>helpers.go\<close>

definition spentLabel :: "bool option \<Rightarrow> string" where
  "spentLabel isSpent =
    (case isSpent of
       None \<Rightarrow> ''not tracked (unspendable or genesis)''
     | Some b \<Rightarrow> if b then ''spent'' else ''unspent'')"

definition yesNo :: "bool \<Rightarrow> string" where
  "yesNo b = (if b then ''yes'' else ''no'')"

definition optionalYesNo :: "bool option \<Rightarrow> string" where
  "optionalYesNo b = (case b of None \<Rightarrow> ''unknown'' | Some x \<Rightarrow> yesNo x)"

definition replaceableLabel :: "bool option \<Rightarrow> string" where
  "replaceableLabel b = optionalYesNo b"

definition prevOutLink :: "string \<Rightarrow> string list \<Rightarrow> string" where
  "prevOutLink prevTxid depends =
    (if prevTxid \<in> set depends then ''/mempool/tx/'' @ prevTxid else ''/tx/'' @ prevTxid)"

definition dots_encoded :: "string \<Rightarrow> string" where
  "dots_encoded s = concat (map (\<lambda>c. if c = CHR ''.'' then ''%2E'' else [c]) s)"

definition deploymentPath :: "string \<Rightarrow> string" where
  "deploymentPath name =
    (let escaped = PathEscape name; escaped = dots_encoded escaped in ''/deployments/'' @ escaped)"

section \<open>viewmodels.go\<close>

record pagination =
  HasNext :: bool
  NextURL :: string

definition no_pagination :: pagination where
  "no_pagination = \<lparr>HasNext = False, NextURL = []\<rparr>"

definition limit_value :: "int \<Rightarrow> url_values" where
  "limit_value limit = (if limit > 0 then [(''limit'', FormatInt limit)] else [])"

definition blocksPagination :: "int \<Rightarrow> int option \<Rightarrow> pagination" where
  "blocksPagination limit next' =
    (case next' of
       None \<Rightarrow> no_pagination
     | Some n \<Rightarrow>
         let v = [(''before'', FormatInt n)] @ limit_value limit in
         \<lparr>HasNext = True, NextURL = ''/blocks?'' @ values_Encode v\<rparr>)"

definition addressPagination :: "string \<Rightarrow> int \<Rightarrow> int option \<Rightarrow> string option \<Rightarrow> pagination" where
  "addressPagination address limit nextHeight nextTxID =
    (case (nextHeight, nextTxID) of
       (Some h, Some t) \<Rightarrow>
         let v = [(''before'', FormatInt h), (''before_txid'', t)] @ limit_value limit in
         \<lparr>HasNext = True, NextURL = ''/address/'' @ PathEscape address @ ''?'' @ values_Encode v\<rparr>
     | _ \<Rightarrow> no_pagination)"

definition mempoolPagination :: "int \<Rightarrow> mempool_cursor option \<Rightarrow> pagination" where
  "mempoolPagination limit next' =
    (case next' of
       None \<Rightarrow> no_pagination
     | Some c \<Rightarrow>
         let v = [(''generation'', FormatInt (mc_Generation c)), (''before_entry_time'', FormatInt (mc_EntryTime c)),
                  (''before_txid'', mc_TxID c)] @ limit_value limit in
         \<lparr>HasNext = True, NextURL = ''/mempool?'' @ values_Encode v\<rparr>)"

section \<open>errors.go\<close>

datatype web_page =
    ErrorPage nat string string
  | HomePage status "block_summary list"
  | BlocksPage "block_summary list" pagination bool
  | BlockPage "block_summary \<times> block_tx_ref list"
  | TxPage tx_detail bool
  | AddressPage address_summary "history_entry list" pagination
  | SearchPage string
  | MempoolPage "mempool_view \<times> mempool_page" pagination bool
  | MempoolTxPage mempool_detail bool
  | DeploymentsPage deployment_view "deployment list"
  | DeploymentPage deployment_view deployment string
  | SupplyPage supply_overview
  | RichListPage "status \<times> rich_entry list"
  | RedirectPage string
  | StaticFile string

record web_response =
  wr_Header :: "(string \<times> string) list"
  wr_Status :: nat
  wr_Page :: web_page

definition render :: "nat \<Rightarrow> web_page \<Rightarrow> web_response" where
  "render st page =
    \<lparr>wr_Header = [(''Content-Type'', ''text/html; charset=utf-8'')], wr_Status = st, wr_Page = page\<rparr>"

definition renderError :: "nat \<Rightarrow> string \<Rightarrow> string \<Rightarrow> web_response" where
  "renderError st title message = render st (ErrorPage st title message)"

definition renderBadRequest :: "string \<Rightarrow> web_response" where
  "renderBadRequest message = renderError 400 ''Bad Request'' message"

definition renderNotFound :: "string \<Rightarrow> web_response" where
  "renderNotFound message = renderError 404 ''Not Found'' message"

definition renderInternalError :: web_response where
  "renderInternalError =
    renderError 500 ''Internal Server Error'' ''Something went wrong. Please try again later.''"

text \<open>\<open>http.Redirect\<close> with \<open>StatusFound\<close>, to a rooted path.\<close>

definition redirect_found :: "string \<Rightarrow> web_response" where
  "redirect_found url =
    \<lparr>wr_Header = [(''Location'', redirect_location url)], wr_Status = 302,
     wr_Page = RedirectPage (redirect_location url)\<rparr>"

end
