(* ===== verification/WebServer.thy ===== *)
theory WebServer
  imports Web
begin

text \<open>
  The page handlers of \<open>internal/web\<close>, its routes, and \<open>newRootHandler\<close> of \<open>cmd/qoge-explorer\<close>,
  which puts the API and the pages behind one server.
\<close>

section \<open>Home, blocks and transactions\<close>

definition handleHome :: "snaps \<Rightarrow> web_response" where
  "handleHome snaps =
    (case ask snaps 0 (\<lambda>sn. Inr (ExplorerOverview (sn_db sn) 10)) of
       Inl _ \<Rightarrow> renderInternalError
     | Inr overview \<Rightarrow> render 200 (HomePage (fst overview) (bp_Blocks (snd overview))))"

definition web_badBefore :: string where
  "web_badBefore = ''Malformed \"before\" query parameter: must be a non-negative decimal integer.''"

definition web_badLimit :: string where
  "web_badLimit = ''Malformed \"limit\" query parameter: must be a non-negative decimal integer.''"

definition web_handleBlocks :: "snaps \<Rightarrow> http_request \<Rightarrow> web_response" where
  "web_handleBlocks snaps r =
    (case web_parseBeforeHeight r of
       None \<Rightarrow> renderBadRequest web_badBefore
     | Some before \<Rightarrow>
     (case web_parsePageSize r of
        None \<Rightarrow> renderBadRequest web_badLimit
      | Some limit \<Rightarrow>
      (case ask snaps 0 (\<lambda>sn. Inr (RecentBlocks (sn_db sn) before limit)) of
         Inl _ \<Rightarrow> renderInternalError
       | Inr page \<Rightarrow>
           render 200 (BlocksPage (bp_Blocks page) (blocksPagination limit (bp_NextBeforeHeight page)) (before = None)))))"

definition web_handleBlock :: "snaps \<Rightarrow> string \<Rightarrow> web_response" where
  "web_handleBlock snaps id' =
    (let (height, isHeight, isHash) = web_blockIdentifierKind id' in
     if \<not> isHeight \<and> \<not> isHash then
       renderBadRequest ''Malformed block identifier: must be a 64-char lowercase hex hash or a non-negative decimal height.''
     else case (if isHash then ask snaps 0 (\<lambda>sn. BlockByHash (sn_db sn) id')
                else ask snaps 0 (\<lambda>sn. BlockByHeight (sn_db sn) height)) of
       Inl err \<Rightarrow> if err = Failed ErrNotFound then renderNotFound ''Block not found.'' else renderInternalError
     | Inr block \<Rightarrow> render 200 (BlockPage block))"

definition web_badTransactionID :: string where
  "web_badTransactionID = ''Malformed transaction identifier: must be exactly 64 lowercase hex characters.''"

definition web_badIncludeWitness :: string where
  "web_badIncludeWitness = ''Malformed \"include_witness\" query parameter: must be \"true\" or \"false\".''"

definition web_handleTx :: "snaps \<Rightarrow> http_request \<Rightarrow> string \<Rightarrow> web_response" where
  "web_handleTx snaps r id' =
    (if \<not> web_isHash64 id' then renderBadRequest web_badTransactionID
     else case web_parseIncludeWitness r of
       None \<Rightarrow> renderBadRequest web_badIncludeWitness
     | Some includeWitness \<Rightarrow>
       (let first = ask snaps 0 (\<lambda>sn. TransactionByTxID (sn_db sn) id' includeWitness);
            res = (if first = Inl (Failed ErrNotFound)
                   then ask snaps 1 (\<lambda>sn. TransactionByWTxID (sn_db sn) id' includeWitness) else first)
        in case res of
             Inl err \<Rightarrow> if err = Failed ErrNotFound then renderNotFound ''Transaction not found.'' else renderInternalError
           | Inr tx \<Rightarrow> render 200 (TxPage tx includeWitness)))"

section \<open>Addresses\<close>

definition web_badBeforeTxID :: string where
  "web_badBeforeTxID = ''Malformed \"before_txid\" query parameter: must be exactly 64 lowercase hex characters.''"

definition web_handleAddress :: "snaps \<Rightarrow> http_request \<Rightarrow> string \<Rightarrow> web_response" where
  "web_handleAddress snaps r address =
    (if \<not> web_isValidAddressShape address then renderBadRequest ''Malformed address.''
     else case web_parseBeforeHeight r of
       None \<Rightarrow> renderBadRequest web_badBefore
     | Some beforeHeight \<Rightarrow>
       (let beforeTxID = query_Get r ''before_txid'' in
        if beforeTxID \<noteq> [] \<and> \<not> web_isHash64 beforeTxID then renderBadRequest web_badBeforeTxID
        else if (beforeHeight \<noteq> None) \<noteq> (beforeTxID \<noteq> []) then
          renderBadRequest ''\"before\" and \"before_txid\" must both be supplied together, or both omitted.''
        else let beforeTxIDPtr = (if beforeTxID \<noteq> [] then Some beforeTxID else None) in
          case web_parsePageSize r of
            None \<Rightarrow> renderBadRequest web_badLimit
          | Some limit \<Rightarrow>
            (case ask snaps 0 (\<lambda>sn. Inr (AddressDetail (sn_db sn) address beforeHeight beforeTxIDPtr limit)) of
               Inl _ \<Rightarrow> renderInternalError
             | Inr (summary, history) \<Rightarrow>
                 render 200 (AddressPage summary (hp_Transactions history)
                   (addressPagination address limit (hp_NextBeforeHeight history) (hp_NextBeforeTxID history))))))"

section \<open>The mempool\<close>

definition web_handleMempool :: "snaps \<Rightarrow> http_request \<Rightarrow> web_response" where
  "web_handleMempool snaps r =
    (let (generation, genPresent, ok) = web_queryParamInt r ''generation'' in
     if \<not> ok then renderBadRequest ''Malformed \"generation\" query parameter: must be a non-negative decimal integer.''
     else let (beforeEntryTime, timePresent, ok) = web_queryParamInt r ''before_entry_time'' in
     if \<not> ok then renderBadRequest ''Malformed \"before_entry_time\" query parameter: must be a non-negative decimal integer.''
     else let beforeTxID = query_Get r ''before_txid'' in
     if beforeTxID \<noteq> [] \<and> \<not> web_isHash64 beforeTxID then renderBadRequest web_badBeforeTxID
     else if genPresent \<noteq> timePresent \<or> genPresent \<noteq> (beforeTxID \<noteq> []) then
       renderBadRequest ''\"generation\", \"before_entry_time\", and \"before_txid\" must all be supplied together, or all omitted.''
     else let cursor = (if genPresent
         then Some \<lparr>mc_Generation = generation, mc_EntryTime = beforeEntryTime, mc_TxID = beforeTxID\<rparr> else None) in
     case web_parsePageSize r of
       None \<Rightarrow> renderBadRequest web_badLimit
     | Some limit \<Rightarrow>
       (case ask snaps 0 (\<lambda>sn. MempoolOverview (sn_db sn) (sn_mempool sn) cursor limit) of
          Inl err \<Rightarrow>
            if err = Failed ErrMempoolGenerationChanged then redirect_found ''/mempool'' else renderInternalError
        | Inr overview \<Rightarrow>
            render 200 (MempoolPage overview (mempoolPagination limit (mp_NextCursor (snd overview))) (cursor = None))))"

definition web_handleMempoolTx :: "snaps \<Rightarrow> http_request \<Rightarrow> string \<Rightarrow> web_response" where
  "web_handleMempoolTx snaps r id' =
    (if \<not> web_isHash64 id' then renderBadRequest web_badTransactionID
     else case web_parseIncludeWitness r of
       None \<Rightarrow> renderBadRequest web_badIncludeWitness
     | Some includeWitness \<Rightarrow>
       (let first = ask snaps 0 (\<lambda>sn. MempoolTransactionByTxID (sn_db sn) (sn_mempool sn) id' includeWitness);
            res = (if first = Inl (Failed ErrNotFound)
                   then ask snaps 1 (\<lambda>sn. MempoolTransactionByWTxID (sn_db sn) (sn_mempool sn) id' includeWitness)
                   else first)
        in case res of
             Inl err \<Rightarrow> if err = Failed ErrNotFound then renderNotFound ''Mempool transaction not found.''
                         else renderInternalError
           | Inr tx \<Rightarrow> render 200 (MempoolTxPage tx includeWitness)))"

section \<open>Deployments, supply and rich list\<close>

definition web_handleDeployments :: "(string \<Rightarrow> deployment_json option) \<Rightarrow> snaps \<Rightarrow> web_response" where
  "web_handleDeployments decode snaps =
    (case ask snaps 0 (\<lambda>sn. DeploymentOverview decode (sn_db sn) (sn_deployments sn)) of
       Inl _ \<Rightarrow> renderInternalError
     | Inr (state, deployments) \<Rightarrow> render 200 (DeploymentsPage state deployments))"

definition web_handleDeployment :: "(string \<Rightarrow> deployment_json option) \<Rightarrow> snaps \<Rightarrow> string \<Rightarrow> web_response" where
  "web_handleDeployment decode snaps name =
    (if \<not> web_isValidDeploymentNameShape name then renderBadRequest ''Malformed deployment name.''
     else case ask snaps 0 (\<lambda>sn. DeploymentByName decode (sn_db sn) (sn_deployments sn) name) of
       Inl err \<Rightarrow>
         if err = Failed ErrDeploymentCacheUninitialized then
           renderError 503 ''Service Unavailable'' ''The deployment cache has not synchronized yet.''
         else if err = Failed ErrNotFound then renderNotFound ''No deployment with this name in the cached snapshot.''
         else renderInternalError
     | Inr (state, dep) \<Rightarrow> render 200 (DeploymentPage state dep (de_Raw dep)))"

definition web_handleSupply :: "snaps \<Rightarrow> web_response" where
  "web_handleSupply snaps =
    (case ask snaps 0 (\<lambda>sn. SupplyOverview (sn_supplyTable sn) (sn_db sn)) of
       Inl err \<Rightarrow>
         if err = Failed ErrSupplyRollupUnavailable then
           renderError 503 ''Service Unavailable''
             ''Monetary rollup data is not available for the indexed tip. Ensure the database migrations are current and run \"qoge-explorer backfill-supply-rollup\". If block accounting has not yet been backfilled, run \"qoge-explorer backfill-accounting\" first.''
         else renderInternalError
     | Inr overview \<Rightarrow> render 200 (SupplyPage overview))"

definition web_handleRichList :: "snaps \<Rightarrow> web_response" where
  "web_handleRichList snaps =
    (case ask snaps 0 (\<lambda>sn. Inr (RichListOverview (sn_db sn))) of
       Inl _ \<Rightarrow> renderInternalError
     | Inr overview \<Rightarrow> render 200 (RichListPage overview))"

section \<open>handlers_search.go\<close>

text \<open>
  One lookup of the search: its target when it succeeds, the next lookup when it does not find
  the hash, an internal error otherwise.
\<close>

definition search_step :: "call_error + 'a \<Rightarrow> string \<Rightarrow> web_response \<Rightarrow> web_response" where
  "search_step lookup target next' =
    (case lookup of
       Inr _ \<Rightarrow> redirect_found target
     | Inl err \<Rightarrow> if err \<noteq> Failed ErrNotFound then renderInternalError else next')"

definition handleSearch :: "snaps \<Rightarrow> http_request \<Rightarrow> web_response" where
  "handleSearch snaps r =
    (let raw = query_Get r ''q'' in
     if length raw > maxSearchLength then renderBadRequest ''Search query too long.''
     else let q = TrimSpace raw in
     if q = [] then renderBadRequest ''Missing search query.''
     else case web_parseHeight q of
       Some height \<Rightarrow> redirect_found (''/block/'' @ FormatInt height)
     | None \<Rightarrow>
       if web_isHash64 q then
         search_step (ask snaps 0 (\<lambda>sn. BlockByHash (sn_db sn) q)) (''/block/'' @ q)
         (search_step (ask snaps 1 (\<lambda>sn. TransactionByTxID (sn_db sn) q False)) (''/tx/'' @ q)
         (search_step (ask snaps 2 (\<lambda>sn. TransactionByWTxID (sn_db sn) q False)) (''/tx/'' @ q)
         (search_step (ask snaps 3 (\<lambda>sn. MempoolTransactionByTxID (sn_db sn) (sn_mempool sn) q False)) (''/mempool/tx/'' @ q)
         (search_step (ask snaps 4 (\<lambda>sn. MempoolTransactionByWTxID (sn_db sn) (sn_mempool sn) q False)) (''/mempool/tx/'' @ q)
         (render 200 (SearchPage q))))))
       else if \<not> web_isValidAddressShape q then renderBadRequest ''Unrecognized search input.''
       else redirect_found (''/address/'' @ PathEscape q))"

section \<open>web.go\<close>

datatype web_handler =
    WebHome | WebBlocks | WebBlock | WebTx | WebAddress | WebSearch | WebMempool | WebMempoolTx
  | WebDeployments | WebDeployment | WebSupply | WebRichList | WebStatic | WebMethodNotAllowed | WebNoRoute

definition web_knownGETRoutes :: "(pseg list \<times> web_handler) list" where
  "web_knownGETRoutes =
    [([Lit ''/''], WebHome),
     ([Lit ''blocks''], WebBlocks),
     ([Lit ''block'', Wild], WebBlock),
     ([Lit ''tx'', Wild], WebTx),
     ([Lit ''address'', Wild], WebAddress),
     ([Lit ''search''], WebSearch),
     ([Lit ''mempool''], WebMempool),
     ([Lit ''mempool'', Lit ''tx'', Wild], WebMempoolTx),
     ([Lit ''deployments''], WebDeployments),
     ([Lit ''deployments'', Wild], WebDeployment),
     ([Lit ''supply''], WebSupply),
     ([Lit ''richlist''], WebRichList),
     ([Lit ''static'', Rest], WebStatic)]"

definition web_routes :: "web_handler mux" where
  "web_routes =
    map (\<lambda>(p, h). (Some ''GET'', p, h)) web_knownGETRoutes
    @ map (\<lambda>(p, _). (None, p, WebMethodNotAllowed)) web_knownGETRoutes
    @ [(None, [Rest], WebNoRoute)]"

definition web_handle ::
  "(http_request \<Rightarrow> web_response) \<Rightarrow> (string \<Rightarrow> deployment_json option) \<Rightarrow> snaps \<Rightarrow> http_request
    \<Rightarrow> web_handler \<Rightarrow> string \<Rightarrow> web_response" where
  "web_handle static decode snaps r h v =
    (case h of
       WebHome \<Rightarrow> handleHome snaps
     | WebBlocks \<Rightarrow> web_handleBlocks snaps r
     | WebBlock \<Rightarrow> web_handleBlock snaps v
     | WebTx \<Rightarrow> web_handleTx snaps r v
     | WebAddress \<Rightarrow> web_handleAddress snaps r v
     | WebSearch \<Rightarrow> handleSearch snaps r
     | WebMempool \<Rightarrow> web_handleMempool snaps r
     | WebMempoolTx \<Rightarrow> web_handleMempoolTx snaps r v
     | WebDeployments \<Rightarrow> web_handleDeployments decode snaps
     | WebDeployment \<Rightarrow> web_handleDeployment decode snaps v
     | WebSupply \<Rightarrow> web_handleSupply snaps
     | WebRichList \<Rightarrow> web_handleRichList snaps
     | WebStatic \<Rightarrow> static r
     | WebMethodNotAllowed \<Rightarrow>
         (let e = renderError 405 ''Method Not Allowed'' ''This page only supports GET.'' in
          e\<lparr>wr_Header := (''Allow'', ''GET'') # wr_Header e\<rparr>)
     | WebNoRoute \<Rightarrow> renderError 404 ''Not Found'' ''There is nothing at this address.'')"

definition security_headers :: "(string \<times> string) list" where
  "security_headers =
    [(''X-Content-Type-Options'', ''nosniff''),
     (''Referrer-Policy'', ''no-referrer''),
     (''Content-Security-Policy'',
      (let self = CHR 0x27 # ''self'' @ [CHR 0x27] in
       ''default-src '' @ self @ ''; script-src '' @ self @ ''; style-src '' @ self @ ''; img-src '' @ self))]"

definition web_ServeHTTP ::
  "(http_request \<Rightarrow> web_response) \<Rightarrow> (string \<Rightarrow> deployment_json option) \<Rightarrow> snaps \<Rightarrow> http_request
    \<Rightarrow> web_response served" where
  "web_ServeHTTP static decode snaps r =
    (case findHandler web_routes (rq_Method r) (rq_Path r) of
       Found h ms \<Rightarrow>
         (let w = web_handle static decode snaps r h (case ms of [] \<Rightarrow> [] | v # _ \<Rightarrow> v) in
          Answer (w\<lparr>wr_Header := security_headers @ wr_Header w\<rparr>))
     | Moved \<Rightarrow> MovedPermanently
     | Unmatched \<Rightarrow> NoPattern)"

section \<open>newRootHandler\<close>

datatype root_handler = RootApi | RootWeb

definition root_routes :: "root_handler mux" where
  "root_routes =
    [(None, [Lit ''api'', Rest], RootApi),
     (None, [Lit ''healthz''], RootApi),
     (None, [Lit ''readyz''], RootApi),
     (None, [Rest], RootWeb)]"

datatype root_response = FromApi "api_response served" | FromWeb "web_response served" | RootMoved | RootNoPattern

definition newRootHandler ::
  "(http_request \<Rightarrow> web_response) \<Rightarrow> (string \<Rightarrow> deployment_json option) \<Rightarrow> snaps \<Rightarrow> http_request
    \<Rightarrow> root_response" where
  "newRootHandler static decode snaps r =
    (case findHandler root_routes (rq_Method r) (rq_Path r) of
       Found RootApi _ \<Rightarrow> FromApi (api_ServeHTTP decode snaps r)
     | Found RootWeb _ \<Rightarrow> FromWeb (web_ServeHTTP static decode snaps r)
     | Moved \<Rightarrow> RootMoved
     | Unmatched \<Rightarrow> RootNoPattern)"

end
