(* ===== verification/Serve.thy ===== *)
theory Serve
  imports WebServer QueryTransactions QueryBlocks
begin

text \<open>
  Requests end to end: which handler a URL reaches through the root server, its cleaning and its
  routing tables.
\<close>

section \<open>From a URL to a handler\<close>

text \<open>The request of a client that follows a URL.\<close>

definition get_url :: "string \<Rightarrow> http_request" where
  "get_url url = \<lparr>rq_Method = ''GET'', rq_Path = fst (cut CHR ''?'' url), rq_RawQuery = snd (cut CHR ''?'' url)\<rparr>"

definition path_of :: "string list \<Rightarrow> string" where
  "path_of ss = CHR ''/'' # join ''/'' ss"

lemma path_of_simps [simp]:
  "path_of [s] = ''/'' @ s" "path_of [s, t] = ''/'' @ s @ ''/'' @ t" 
  "path_of [s, t, u] = ''/'' @ s @ ''/'' @ t @ ''/'' @ u"
  "path_of [s, t, u, v] = ''/'' @ s @ ''/'' @ t @ ''/'' @ u @ ''/'' @ v"
  by (simp_all add: path_of_def)

lemma count_path:
  assumes "\<forall>s \<in> set ss. plain_segment s" "ss \<noteq> []"
  shows "count_list (path_of ss) CHR ''/'' = length ss"
proof -
  have "count_list (join ''/'' ts) CHR ''/'' = length ts - 1"
    if "\<forall>s \<in> set ts. CHR ''/'' \<notin> set s" for ts
    using that by (induction "''/''" ts rule: join.induct) (simp_all add: count_list_append count_notin)
  with assms show ?thesis by (simp add: path_of_def plain_segment_def)
qed

lemma join_snoc: "ss \<noteq> [] \<Longrightarrow> join sep (ss @ [t]) = join sep ss @ sep @ t"
  by (induction sep ss rule: join.induct) auto

lemma path_segments_slash:
  assumes "\<forall>s \<in> set ss. plain_segment s" "ss \<noteq> []"
  shows "path_segments (path_of ss @ ''/'') = map pathUnescape ss @ [''/'']"
proof -
  have j: "join ''/'' ss @ ''/'' = join ''/'' (ss @ [[]])" using assms(2) by (simp add: join_snoc)
  have "CHR ''/'' \<notin> set t" if "t \<in> set (ss @ [[]])" for t
  proof (cases "t = []")
    case False
    with that have "t \<in> set ss" by simp
    with assms(1) have "plain_segment t" by blast
    then show ?thesis by (simp add: plain_segment_def)
  qed simp
  with split_join [of "ss @ [[]]" "CHR ''/''"]
  have "split_on CHR ''/'' (join ''/'' (ss @ [[]])) = ss @ [[]]" by blast
  then show ?thesis by (simp add: path_segments_def path_of_def j)
qed

lemma found_exact:
  assumes "\<forall>s \<in> set ss. plain_segment s" "ss \<noteq> []"
    and "matchPath (method_routes (Some method) mux) (map pathUnescape ss) [] = Some (pat, h, ms)" "last pat \<noteq> Rest"
  shows "findHandler mux method (path_of ss) = Found h ms"
  unfolding path_of_def by (rule findHandler_exact [OF assms(1,2) mux_match_plain [OF assms(1-3)] assms(4)])

lemma found_subtree:
  assumes "\<forall>s \<in> set ss. plain_segment s" "ss \<noteq> []"
    and "mux_match mux method (path_of ss) = Some (pat, h, ms)" "last pat = Rest"
    and "mux_match mux method (path_of ss @ ''/'') = Some (pat', h', ms')" "last pat' = Rest" "length pat' < Suc (length ss)"
  shows "findHandler mux method (path_of ss) = Found h ms"
proof -
  have clean: "cleanPath (path_of ss) = path_of ss" using path_plain(2) [OF assms(1,2)] by (simp add: path_of_def)
  have "last ss \<in> set ss" using assms(2) by simp
  then have l: "last ss \<noteq> []" "CHR ''/'' \<notin> set (last ss)" using assms(1) by (auto simp: plain_segment_def)
  then have "last (last ss) \<noteq> CHR ''/''" by (metis last_in_set)
  then have end': "last (path_of ss) \<noteq> CHR ''/''" "path_of ss \<noteq> []"
    using last_join [OF assms(2) l(1), of "''/''"] by (simp_all add: path_of_def)
  have "count_list (path_of ss @ ''/'') CHR ''/'' = Suc (length ss)"
    using count_path [OF assms(1,2)] by (simp add: count_list_append)
  then have "\<not> exactMatch (mux_match mux method (path_of ss @ ''/'')) (path_of ss @ ''/'')"
    "\<not> exactMatch (mux_match mux method (path_of ss)) (path_of ss)"
    using assms(3-7) end' by (simp_all add: exactMatch_def)
  then show ?thesis using clean assms(3) by (simp add: findHandler_def Let_def)
qed

lemmas route_simps = Let_def children_def leaf_def method_routes_def path_segments_slash

lemma root_web:
  assumes "\<forall>s \<in> set (s # ss). plain_segment s" "pathUnescape s \<notin> {''api'', ''healthz'', ''readyz''}"
  shows "findHandler root_routes method (path_of (s # ss)) = Found RootWeb []"
proof (rule found_subtree [OF assms(1)])
  have ne: "''api'' \<noteq> pathUnescape s" "''healthz'' \<noteq> pathUnescape s" "''readyz'' \<noteq> pathUnescape s"
    using assms(2) by force+
  have seg: "path_segments (path_of (s # ss)) = map pathUnescape (s # ss)"
    using path_plain(4) [OF assms(1)] by (simp add: path_of_def)
  show "mux_match root_routes method (path_of (s # ss)) = Some ([Rest], RootWeb, [])"
    using ne by (simp add: mux_match_def root_routes_def route_simps seg)
  show "mux_match root_routes method (path_of (s # ss) @ ''/'') = Some ([Rest], RootWeb, [])"
    using ne assms(1) by (simp add: mux_match_def root_routes_def route_simps)
qed simp_all

lemma root_api:
  assumes "\<forall>s \<in> set (''api'' # ss). plain_segment s" "ss \<noteq> []"
  shows "findHandler root_routes method (path_of (''api'' # ss)) = Found RootApi []"
proof (rule found_subtree [OF assms(1)])
  have p: "pathUnescape ''api'' = ''api''" by (simp add: pathUnescape_def)
  have seg: "path_segments (path_of (''api'' # ss)) = map pathUnescape (''api'' # ss)"
    using path_plain(4) [OF assms(1)] by (simp add: path_of_def)
  show "mux_match root_routes method (path_of (''api'' # ss)) = Some ([Lit ''api'', Rest], RootApi, [])"
    using assms(2) by (cases "map pathUnescape ss") (simp_all add: mux_match_def root_routes_def route_simps seg p)
  show "mux_match root_routes method (path_of (''api'' # ss) @ ''/'') = Some ([Lit ''api'', Rest], RootApi, [])"
    unfolding mux_match_def path_segments_slash [OF assms(1) list.distinct(2)] using assms(2)
    by (cases "map pathUnescape ss") (simp_all add: root_routes_def route_simps p)
qed (use assms(2) in \<open>simp_all add: Suc_le_eq\<close>)

lemma web_request:
  assumes "\<forall>s \<in> set (s # ss). plain_segment s" "pathUnescape s \<notin> {''api'', ''healthz'', ''readyz''}"
    and "matchPath (method_routes (Some ''GET'') web_routes) (map pathUnescape (s # ss)) [] = Some (pat, h, ms)"
    and "last pat \<noteq> Rest" "rq_Method r = ''GET''" "rq_Path r = path_of (s # ss)"
  shows "newRootHandler static decode snaps r = FromWeb (Answer
    (let w = web_handle static decode snaps r h (case ms of [] \<Rightarrow> [] | v # _ \<Rightarrow> v) in
     w\<lparr>wr_Header := security_headers @ wr_Header w\<rparr>))"
  using found_exact [OF assms(1) _ assms(3,4)] root_web [OF assms(1,2)] assms(5,6)
  by (simp add: newRootHandler_def web_ServeHTTP_def Let_def)

lemma api_request:
  assumes "\<forall>s \<in> set (''api'' # ss). plain_segment s" "ss \<noteq> []"
    and "matchPath (method_routes (Some ''GET'') api_routes) (map pathUnescape (''api'' # ss)) [] = Some (pat, h, ms)"
    and "last pat \<noteq> Rest" "rq_Method r = ''GET''" "rq_Path r = path_of (''api'' # ss)"
  shows "newRootHandler static decode snaps r
    = FromApi (Answer (api_handle decode snaps r h (case ms of [] \<Rightarrow> [] | v # _ \<Rightarrow> v)))"
  using found_exact [OF assms(1) _ assms(3,4)] root_api [OF assms(1,2)] assms(5,6)
  by (simp add: newRootHandler_def api_ServeHTTP_def)

end
