(* ===== verification/ServeFacts.thy ===== *)
theory ServeFacts
  imports Serve
begin

text \<open>What the served pages and the API guarantee, end to end.\<close>

section \<open>Links to deployments\<close>

lemma dots_encoded_append: "dots_encoded (s @ t) = dots_encoded s @ dots_encoded t"
  by (simp add: dots_encoded_def)

lemma dots_encoded_id: "CHR ''.'' \<notin> set s \<Longrightarrow> dots_encoded s = s"
  by (induction s) (auto simp: dots_encoded_def)

lemma nibbles_no_dot:
  "upperhex ((of_char c :: nat) div 16) \<noteq> CHR ''.''" "upperhex ((of_char c :: nat) mod 16) \<noteq> CHR ''.''"
  using upperhex_alnum [OF byte_nibbles(1) [of c]] upperhex_alnum [OF byte_nibbles(2) [of c]]
  by (auto simp: is_alnum_def less_eq_char_def)

lemma of_char_Char_dot: "of_char CHR ''.'' = (46 :: nat)"
  by simp

lemma unescape_dots_byte:
  "unescape encodePathSegment (dots_encoded (escape_byte encodePathSegment c) @ s)
    = map_option ((#) c) (unescape encodePathSegment s)"
proof (cases "c = CHR ''.''")
  case True
  have "char_of (46 :: nat) = CHR ''.''" by (metis char_of_char of_char_Char_dot)
  with True show ?thesis
    by (simp add: escape_byte_def shouldEscape_def dots_encoded_def hex_digit_def less_eq_char_def)
next
  case False
  then have "dots_encoded (escape_byte encodePathSegment c) = escape_byte encodePathSegment c"
    using nibbles_no_dot [of c] by (intro dots_encoded_id) (auto simp: escape_byte_def)
  then show ?thesis by (simp add: unescape_escape_byte)
qed

lemma pathUnescape_dots: "pathUnescape (dots_encoded (PathEscape name)) = name"
proof -
  have "unescape encodePathSegment (dots_encoded (escape encodePathSegment name)) = Some name"
  proof (induction name)
    case (Cons c s)
    have "dots_encoded (escape encodePathSegment (c # s))
      = dots_encoded (escape_byte encodePathSegment c) @ dots_encoded (escape encodePathSegment s)"
      by (simp add: escape_def dots_encoded_append)
    with Cons show ?case by (simp add: unescape_dots_byte)
  qed (simp add: escape_def dots_encoded_def)
  then show ?thesis by (simp add: pathUnescape_def PathEscape_def)
qed

lemma set_dots_encoded: "x \<in> set (dots_encoded s) \<Longrightarrow> x \<noteq> CHR ''.'' \<and> (x \<in> set s \<or> is_alnum x \<or> x = CHR ''%'')"
  by (auto simp: dots_encoded_def is_alnum_def less_eq_char_def split: if_splits)

lemma PathEscape_bytes: "CHR ''?'' \<notin> set (PathEscape s)" "CHR ''/'' \<notin> set (PathEscape s)"
  unfolding PathEscape_def by (rule escape_clean; simp add: shouldEscape_def is_alnum_def less_eq_char_def)+

lemma deployment_segment:
  assumes "name \<noteq> []"
  shows "plain_segment (dots_encoded (PathEscape name))" "CHR ''?'' \<notin> set (dots_encoded (PathEscape name))"
proof -
  let ?s = "dots_encoded (PathEscape name)"
  have n: "\<not> is_alnum CHR ''/''" "\<not> is_alnum CHR ''?''" by (simp_all add: is_alnum_def less_eq_char_def)
  have dot: "CHR ''.'' \<notin> set ?s" using set_dots_encoded by blast
  have "CHR ''/'' \<notin> set ?s" using set_dots_encoded [of "CHR ''/''"] PathEscape_bytes(2) n by blast
  moreover have "?s \<noteq> []"
    using assms pathUnescape_dots [of name] by (auto simp: pathUnescape_def)
  moreover have "?s \<noteq> ''.''" "?s \<noteq> ''..''" using dot by auto
  ultimately show "plain_segment ?s" by (simp add: plain_segment_def)
  show "CHR ''?'' \<notin> set ?s" using set_dots_encoded [of "CHR ''?''"] PathEscape_bytes(1) n by blast
qed

lemma get_url_path: "CHR ''?'' \<notin> set p \<Longrightarrow> get_url p = \<lparr>rq_Method = ''GET'', rq_Path = p, rq_RawQuery = []\<rparr>"
  by (induction p) (auto simp: get_url_def cut_def)

lemma plain_literal: "plain_segment ''deployments''" "pathUnescape ''deployments'' = ''deployments''"
  "plain_segment ''tx''" "pathUnescape ''tx'' = ''tx''" "plain_segment ''api''" "pathUnescape ''api'' = ''api''"
  "plain_segment ''v1''" "pathUnescape ''v1'' = ''v1''" "plain_segment ''blocks''" "pathUnescape ''blocks'' = ''blocks''"
  by (simp_all add: plain_segment_def pathUnescape_def)

lemmas web_route_simps = web_routes_def web_knownGETRoutes_def route_simps

lemmas api_route_simps = api_routes_def api_knownGETRoutes_def api_v1_def route_simps

abbreviation answered :: "web_response \<Rightarrow> root_response" where
  "answered w \<equiv> FromWeb (Answer (w\<lparr>wr_Header := security_headers @ wr_Header w\<rparr>))"

text \<open>
  C30 The link that the deployments page shows for a deployment leads back to exactly that name: for
  every non-empty name, whatever bytes it has, the root server hands the name itself to the page of
  the deployment. The one exception is the name made of a single slash, whose link no route matches,
  so that its page cannot be reached.
\<close>

theorem deployment_link_opens:
  assumes "name \<noteq> []"
  shows "newRootHandler static decode snaps (get_url (deploymentPath name)) =
    answered (if name = ''/'' then renderError 404 ''Not Found'' ''There is nothing at this address.''
              else web_handleDeployment decode snaps name)"
proof -
  let ?seg = "dots_encoded (PathEscape name)"
  let ?r = "\<lparr>rq_Method = ''GET'', rq_Path = path_of [''deployments'', ?seg], rq_RawQuery = []\<rparr>"
  have r: "get_url (deploymentPath name) = ?r"
    using deployment_segment(2) [OF assms] by (subst get_url_path) (simp_all add: deploymentPath_def Let_def)
  have plain: "\<forall>s \<in> set [''deployments'', ?seg]. plain_segment s"
    using deployment_segment(1) [OF assms] by (simp add: plain_literal)
  have segs: "map pathUnescape [''deployments'', ?seg] = [''deployments'', name]"
    by (simp add: plain_literal pathUnescape_dots)
  show ?thesis
  proof (cases "name = ''/''")
    case False
    have "matchPath (method_routes (Some ''GET'') web_routes) (map pathUnescape [''deployments'', ?seg]) []
        = Some ([Lit ''deployments'', Wild], WebDeployment, [name])"
      unfolding segs using False by (simp add: web_route_simps)
    from web_request [OF plain _ this _ , of ?r static decode snaps] False show ?thesis
      unfolding r by (simp add: plain_literal web_handle_def Let_def)
  next
    case True
    have n: "mux_match web_routes ''GET'' (path_of [''deployments'', ?seg]) = Some ([Rest], WebNoRoute, [])"
      "mux_match web_routes ''GET'' (path_of [''deployments'', ?seg] @ ''/'') = Some ([Rest], WebNoRoute, [])"
      unfolding mux_match_def path_segments_slash [OF plain list.distinct(2)] segs
        path_plain(4) [OF plain list.distinct(2), folded path_of_def]
      using True by (simp_all add: web_route_simps)
    have "findHandler web_routes ''GET'' (path_of [''deployments'', ?seg]) = Found WebNoRoute []"
      by (rule found_subtree [OF plain _ n(1) _ n(2)]) simp_all
    moreover have "findHandler root_routes ''GET'' (path_of [''deployments'', ?seg]) = Found RootWeb []"
      by (rule root_web [OF plain]) (simp add: plain_literal)
    ultimately show ?thesis
      unfolding r using True by (simp add: newRootHandler_def web_ServeHTTP_def web_handle_def Let_def)
  qed
qed

section \<open>Stored transactions\<close>

lemma lower_hex_alnum: "is_lower_hex c \<Longrightarrow> is_alnum c"
  by (auto simp: is_lower_hex_def is_alnum_def intro: order_trans)

lemma isHash64_bytes: "isHash64 s \<Longrightarrow> c \<in> set s \<Longrightarrow> is_alnum c"
  by (auto simp: isHash64_def list_all_iff lower_hex_alnum)

lemma isHash64_segment:
  assumes "isHash64 s"
  shows "plain_segment s" "CHR ''?'' \<notin> set s" "pathUnescape s = s"
proof -
  have n: "\<not> is_alnum CHR ''/''" "\<not> is_alnum CHR ''?''" "\<not> is_alnum CHR ''.''" "\<not> is_alnum CHR ''%''"
    by (simp_all add: is_alnum_def less_eq_char_def)
  have c: "CHR ''/'' \<notin> set s" "CHR ''?'' \<notin> set s" "CHR ''.'' \<notin> set s" "CHR ''%'' \<notin> set s"
    using isHash64_bytes [OF assms] n by blast+
  then show "plain_segment s" "CHR ''?'' \<notin> set s"
    using isHash64_nonempty [OF assms] by (auto simp: plain_segment_def)
  have "unescape encodePathSegment t = Some t" if "CHR ''%'' \<notin> set t" for t
    using that by (induction t) auto
  then show "pathUnescape s = s" using c(4) by (simp add: pathUnescape_def)
qed

lemma slash_not_hash: "isHash64 s \<Longrightarrow> s \<noteq> ''/''"
  by (auto simp: isHash64_def)

lemma api_transaction_request:
  assumes "isHash64 x"
  shows "newRootHandler static decode snaps (get_url (''/api/v1/tx/'' @ x)) =
    FromApi (Answer (handleTransaction snaps (get_url (''/api/v1/tx/'' @ x)) x))"
proof -
  let ?r = "\<lparr>rq_Method = ''GET'', rq_Path = path_of [''api'', ''v1'', ''tx'', x], rq_RawQuery = []\<rparr>"
  have r: "get_url (''/api/v1/tx/'' @ x) = ?r"
    using isHash64_segment(2) [OF assms] by (subst get_url_path) simp_all
  have plain: "\<forall>s \<in> set [''api'', ''v1'', ''tx'', x]. plain_segment s"
    using isHash64_segment(1) [OF assms] by (simp add: plain_literal)
  have "matchPath (method_routes (Some ''GET'') api_routes) (map pathUnescape [''api'', ''v1'', ''tx'', x]) []
      = Some (api_v1 [Lit ''tx'', Wild], ApiTransaction, [x])"
    using slash_not_hash [OF assms] isHash64_segment(3) [OF assms] by (simp add: plain_literal api_route_simps)
  from api_request [OF plain _ this, of ?r static decode snaps] show ?thesis
    unfolding r by (simp add: api_handle_def api_v1_def)
qed

lemma web_transaction_request:
  assumes "isHash64 x"
  shows "newRootHandler static decode snaps (get_url (''/tx/'' @ x)) =
    answered (web_handleTx snaps (get_url (''/tx/'' @ x)) x)"
proof -
  let ?r = "\<lparr>rq_Method = ''GET'', rq_Path = path_of [''tx'', x], rq_RawQuery = []\<rparr>"
  have r: "get_url (''/tx/'' @ x) = ?r"
    using isHash64_segment(2) [OF assms] by (subst get_url_path) simp_all
  have plain: "\<forall>s \<in> set [''tx'', x]. plain_segment s"
    using isHash64_segment(1) [OF assms] by (simp add: plain_literal)
  have "matchPath (method_routes (Some ''GET'') web_routes) (map pathUnescape [''tx'', x]) []
      = Some ([Lit ''tx'', Wild], WebTx, [x])"
    using slash_not_hash [OF assms] isHash64_segment(3) [OF assms] by (simp add: plain_literal web_route_simps)
  from web_request [OF plain _ this, of ?r static decode snaps] show ?thesis
    unfolding r by (simp add: web_handle_def plain_literal Let_def)
qed

lemma no_query [simp]: "parseIncludeWitness \<lparr>rq_Method = m, rq_Path = p, rq_RawQuery = []\<rparr> = Some False"
  by (simp add: parseIncludeWitness_def query_Get_def ParseQuery_def parse_pair_def values_Get_def Let_def)

text \<open>
  The two lookups of a transaction page on two later states of the database: the first one answers,
  or it does not find the id, which then is the \<open>wtxid\<close> and the second one answers.
\<close>

lemma wtxid_row: "TransactionByWTxID f w raw = Inr t \<Longrightarrow> tget (transactions f) (td_TxID t) \<noteq> None"
  by (auto simp: TransactionByWTxID_def transactionDetail_def Let_def result_simps)

lemma two_lookups:
  assumes "d = run s ops init_db" "ApplyBlock s b d = Inr e" "txn \<in> set (blk_Transactions b)"
    and "x = tx_TxID txn \<or> x = tx_WTxID txn"
  shows "(\<exists>t. TransactionByTxID (run s later e) x raw = Inr t \<and> td_TxID t = x)
    \<or> TransactionByTxID (run s later e) x raw = Inl ErrNotFound
      \<and> (\<exists>t. TransactionByWTxID (run s later' e) x raw = Inr t \<and> td_WTxID t = x)"
proof -
  have f: "run s later e = run s (ops @ Apply b # later) init_db"
    using assms(1,2) by (simp add: run_append run_step_def attempt_def)
  show ?thesis
  proof (cases "tget (transactions (run s later e)) x")
    case None
    obtain t where "TransactionByWTxID (run s later e) (tx_WTxID txn) raw = Inr t" "td_TxID t = tx_TxID txn"
      using lookup_wtxid [OF assms(1,2) refl assms(3)] by blast
    from wtxid_row [OF this(1)] this(2) None assms(4) have x: "x = tx_WTxID txn" by auto
    have "TransactionByTxID (run s later e) x raw = Inl ErrNotFound"
      using lookup_txid [OF f, of x raw] None by simp
    moreover have "\<exists>t. TransactionByWTxID (run s later' e) x raw = Inr t \<and> td_WTxID t = x"
      unfolding x using lookup_wtxid [OF assms(1,2) refl assms(3)] by blast
    ultimately show ?thesis by blast
  next
    case (Some r)
    with lookup_txid [OF f, of x raw] show ?thesis by auto
  qed
qed

text \<open>
  C15 A stored transaction is always served: once a block has been applied, whatever the store does
  afterwards and also when it changes between the two lookups of one request, asking for the txid or
  the wtxid of a transaction of the block answers, in the API and on its page, with status 200 and a
  transaction that has this id.
\<close>

theorem stored_transaction_served:
  assumes "d = run s ops init_db" "ApplyBlock s b d = Inr e" "txn \<in> set (blk_Transactions b)"
    and "x = tx_TxID txn \<or> x = tx_WTxID txn" "isHash64 x"
    and "\<forall>i. \<exists>later sn. snaps i = Some sn \<and> sn_db sn = run s later e"
  shows "\<exists>t. newRootHandler static decode snaps (get_url (''/api/v1/tx/'' @ x))
        = FromApi (Answer (writeJSON (TransactionBody t)))
      \<and> newRootHandler static decode snaps (get_url (''/tx/'' @ x)) = answered (render 200 (TxPage t False))
      \<and> (td_TxID t = x \<or> td_WTxID t = x)"
proof -
  obtain l0 sn0 l1 sn1 where sn: "snaps 0 = Some sn0" "sn_db sn0 = run s l0 e" "snaps 1 = Some sn1" "sn_db sn1 = run s l1 e"
    using assms(6) by metis
  note q = isHash64_segment(2) [OF assms(5)]
  have pw: "parseIncludeWitness (get_url (''/api/v1/tx/'' @ x)) = Some False"
    "parseIncludeWitness (get_url (''/tx/'' @ x)) = Some False"
    using q by (simp_all add: get_url_path)
  note defs = handleTransaction_def web_handleTx_def web_validate_mirrors Let_def
  have "\<exists>t. handleTransaction snaps (get_url (''/api/v1/tx/'' @ x)) x = writeJSON (TransactionBody t)
      \<and> web_handleTx snaps (get_url (''/tx/'' @ x)) x = render 200 (TxPage t False)
      \<and> (td_TxID t = x \<or> td_WTxID t = x)"
    using two_lookups [OF assms(1-4), of l0 False l1]
  proof (elim disjE exE conjE)
    fix t assume "TransactionByTxID (run s l0 e) x False = Inr t" "td_TxID t = x"
    then show ?thesis unfolding defs pw using assms(5) sn by (intro exI [of _ t]) simp
  next
    fix t assume "TransactionByTxID (run s l0 e) x False = Inl ErrNotFound"
      "TransactionByWTxID (run s l1 e) x False = Inr t" "td_WTxID t = x"
    then show ?thesis unfolding defs pw using assms(5) sn by (intro exI [of _ t]) simp
  qed
  then show ?thesis
    unfolding api_transaction_request [OF assms(5)] web_transaction_request [OF assms(5)] by metis
qed

end
