(* ===== verification/SearchFacts.thy ===== *)
theory SearchFacts
  imports ServeFacts
begin

text \<open>The search: what a hash or an address typed into it leads to.\<close>

section \<open>The request of the search form\<close>

definition search_url :: "string \<Rightarrow> string" where
  "search_url raw = ''/search?'' @ values_Encode [(''q'', raw)]"

lemma search_url_request:
  "get_url (search_url raw) = \<lparr>rq_Method = ''GET'', rq_Path = ''/search'', rq_RawQuery = values_Encode [(''q'', raw)]\<rparr>"
  using cut_append [of "CHR ''?''" "''/search''" "values_Encode [(''q'', raw)]"]
  by (simp add: get_url_def search_url_def)

lemma search_query: "query_Get (get_url (search_url raw)) ''q'' = raw"
  unfolding query_Get_def search_url_request
  using Get_ParseQuery_Encode [of "[(''q'', raw)]"] by (simp add: values_Get_def)

lemma search_request:
  "newRootHandler static decode snaps (get_url (search_url raw)) = answered (handleSearch snaps (get_url (search_url raw)))"
proof -
  have plain: "\<forall>s \<in> set [''search'']. plain_segment s" by (simp add: plain_segment_def)
  have p: "pathUnescape ''search'' = ''search''" by (simp add: pathUnescape_def)
  have "matchPath (method_routes (Some ''GET'') web_routes) (map pathUnescape [''search'']) []
      = Some ([Lit ''search''], WebSearch, [])"
    by (simp add: p web_route_simps)
  from web_request [OF plain _ this, of "get_url (search_url raw)" static decode snaps] show ?thesis
    by (simp add: p search_url_request web_handle_def Let_def)
qed

section \<open>\<open>TrimSpace\<close> on printable ASCII\<close>

definition printable :: "char \<Rightarrow> bool" where
  "printable c \<longleftrightarrow> 33 \<le> (of_char c :: nat) \<and> (of_char c :: nat) \<le> 126"

lemma space_ends:
  "\<forall>p \<in> set unicode_spaces. p \<noteq> [] \<and> \<not> printable (hd p) \<and> \<not> printable (last p)"
proof -
  have b: "\<not> printable (char_of n)" if "n \<le> 32 \<or> 127 \<le> n" "n < 256" for n :: nat
    using that by (auto simp: printable_def)
  show ?thesis
    unfolding unicode_spaces_def by (auto simp: b)
qed

lemma TrimSpace_printable:
  assumes "list_all printable s" "s \<noteq> []"
  shows "TrimSpace s = s"
proof -
  have hl: "printable (hd s)" "printable (last s)" using assms by (auto simp: list_all_iff)
  have "trim_left unicode_spaces s = s"
    using space_ends hl(1) assms(2) by (intro trim_left_id) metis
  moreover have "trim_left (map rev unicode_spaces) (rev s) = rev s"
    using space_ends hl(2) assms(2) by (intro trim_left_id) (auto simp: hd_rev)
  ultimately show ?thesis by (simp add: TrimSpace_def)
qed

lemma address_printable: "isValidAddressShape s \<Longrightarrow> list_all printable s \<and> s \<noteq> [] \<and> length s \<le> 128"
  by (auto simp: isValidAddressShape_def maxAddressLength_def list_all_iff printable_def split: if_splits)

lemma alnum_printable: "is_alnum c \<Longrightarrow> printable c"
  by (auto simp: is_alnum_def printable_def less_eq_char_def)

lemma isHash64_printable: "isHash64 s \<Longrightarrow> list_all printable s \<and> s \<noteq> [] \<and> length s = 64"
  using isHash64_bytes alnum_printable isHash64_nonempty by (auto simp: list_all_iff isHash64_def)

section \<open>Hashes\<close>

lemma BlockByHash_stored: "BlockByHash d x = (case tget (blocks d) x of
    None \<Rightarrow> Inl ErrNotFound | Some r \<Rightarrow> Inr (scanBlockSummary (x, r), blockTxRefs d x))"
  by (simp add: BlockByHash_def blockDetailFromRow_def scanBlockSummary_def split: option.split)

text \<open>
  C29 Searching for a stored hash leads to the page that shows it: once a block has been applied, the
  search for its hash redirects to its page, and the search for the txid or the wtxid of one of its
  transactions redirects to the page of the transaction, unless the hash is also that of a block,
  which has priority. This holds whatever the store does meanwhile, also between the lookups of one
  search; the hash must not be a decimal number that fits a height, which the search prefers.
\<close>

theorem search_resolves_hashes:
  assumes "d = run s ops init_db" "ApplyBlock s b d = Inr e" "isHash64 x" "parseHeight x = None"
    and "x = blk_Hash b \<or> (\<exists>txn \<in> set (blk_Transactions b). x = tx_TxID txn \<or> x = tx_WTxID txn)"
    and "\<forall>i. \<exists>later sn. snaps i = Some sn \<and> sn_db sn = run s later e"
  shows "newRootHandler static decode snaps (get_url (search_url x)) = answered (redirect_found
      ((if tget (blocks (sn_db (the (snaps 0)))) x = None then ''/tx/'' else ''/block/'') @ x))
    \<and> (x = blk_Hash b \<longrightarrow> tget (blocks (sn_db (the (snaps 0)))) x \<noteq> None)"
proof -
  obtain l0 sn0 l1 sn1 l2 sn2 where sn: "snaps 0 = Some sn0" "sn_db sn0 = run s l0 e"
    "snaps 1 = Some sn1" "sn_db sn1 = run s l1 e" "snaps 2 = Some sn2" "sn_db sn2 = run s l2 e"
    using assms(6) by metis
  have block: "tget (blocks (run s l0 e)) x \<noteq> None" if "x = blk_Hash b"
    using block_served [OF assms(1,2) refl, of l0] that by (auto simp: BlockByHash_stored split: option.splits)
  let ?steps = "search_step (ask snaps 0 (\<lambda>sn. BlockByHash (sn_db sn) x)) (''/block/'' @ x)
    (search_step (ask snaps 1 (\<lambda>sn. TransactionByTxID (sn_db sn) x False)) (''/tx/'' @ x)
    (search_step (ask snaps 2 (\<lambda>sn. TransactionByWTxID (sn_db sn) x False)) (''/tx/'' @ x)
    (search_step (ask snaps 3 (\<lambda>sn. MempoolTransactionByTxID (sn_db sn) (sn_mempool sn) x False)) (''/mempool/tx/'' @ x)
    (search_step (ask snaps 4 (\<lambda>sn. MempoolTransactionByWTxID (sn_db sn) (sn_mempool sn) x False)) (''/mempool/tx/'' @ x)
    (render 200 (SearchPage x))))))"
  have "handleSearch snaps (get_url (search_url x)) = ?steps"
    using isHash64_printable [OF assms(3)] assms(3,4)
    by (simp add: handleSearch_def search_query web_validate_mirrors maxSearchLength_def TrimSpace_printable Let_def)
  also have "\<dots> = redirect_found ((if tget (blocks (run s l0 e)) x = None then ''/tx/'' else ''/block/'') @ x)"
  proof (cases "tget (blocks (run s l0 e)) x")
    case None
    with block assms(5) obtain txn where txn: "txn \<in> set (blk_Transactions b)" "x = tx_TxID txn \<or> x = tx_WTxID txn"
      by auto
    show ?thesis
      using two_lookups [OF assms(1,2) txn, of l1 False l2]
    proof (elim disjE exE conjE)
      fix t assume "TransactionByTxID (run s l1 e) x False = Inr t"
      then show ?thesis using None sn by (simp add: search_step_def BlockByHash_stored)
    next
      fix t assume "TransactionByTxID (run s l1 e) x False = Inl ErrNotFound" "TransactionByWTxID (run s l2 e) x False = Inr t"
      then show ?thesis using None sn by (simp add: search_step_def BlockByHash_stored)
    qed
  next
    case (Some r)
    then show ?thesis by (simp add: search_step_def BlockByHash_stored sn)
  qed
  finally show ?thesis unfolding search_request using sn(1,2) block by simp
qed

section \<open>Addresses\<close>

lemma PathEscape_dots:
  assumes "PathEscape q = ''.'' \<or> PathEscape q = ''..''"
  shows "q = ''.'' \<or> q = ''..''"
proof -
  have "pathUnescape ''.'' = ''.''" "pathUnescape ''..'' = ''..''" by (simp_all add: pathUnescape_def)
  with assms show ?thesis by (metis pathUnescape_PathEscape)
qed

text \<open>
  Searching for an address opens exactly that address: whatever printable bytes it is made of, the
  text is escaped into the redirect, and the request for its target reaches the address page with
  the same text. Left out are a text that is a height or a hash, which the search resolves
  otherwise, and the three texts (a dot, two dots, a slash) that are no path segment.
\<close>

theorem search_opens_address:
  assumes "isValidAddressShape q" "parseHeight q = None" "\<not> isHash64 q" "q \<notin> {''.'', ''..'', ''/''}"
  shows "newRootHandler static decode snaps (get_url (search_url q)) = answered (redirect_found (''/address/'' @ PathEscape q))
    \<and> newRootHandler static decode snaps' (get_url (redirect_location (''/address/'' @ PathEscape q)))
      = answered (web_handleAddress snaps' (get_url (redirect_location (''/address/'' @ PathEscape q))) q)"
proof
  note q = address_printable [OF assms(1)]
  show "newRootHandler static decode snaps (get_url (search_url q)) = answered (redirect_found (''/address/'' @ PathEscape q))"
    unfolding search_request using q assms(1-3)
    by (simp add: handleSearch_def search_query web_validate_mirrors maxSearchLength_def TrimSpace_printable Let_def)
  let ?ss = "[''address'', PathEscape q]"
  let ?r = "\<lparr>rq_Method = ''GET'', rq_Path = path_of ?ss, rq_RawQuery = []\<rparr>"
  have "PathEscape q \<noteq> []" using q by (simp add: PathEscape_def)
  then have "plain_segment (PathEscape q)"
    using PathEscape_dots [of q] PathEscape_slash [of q] assms(4) by (auto simp: plain_segment_def)
  then have plain: "\<forall>s \<in> set ?ss. plain_segment s" by (simp add: plain_segment_def)
  have loc: "redirect_location (''/address/'' @ PathEscape q) = path_of ?ss"
    using path_plain(3) [OF plain] by (simp add: path_of_def)
  have r: "get_url (path_of ?ss) = ?r"
    using PathEscape_bytes(1) [of q] by (subst get_url_path) simp_all
  have a: "pathUnescape ''address'' = ''address''" by (simp add: pathUnescape_def)
  have "matchPath (method_routes (Some ''GET'') web_routes) (map pathUnescape ?ss) []
      = Some ([Lit ''address'', Wild], WebAddress, [q])"
    using assms(4) by (simp add: a web_route_simps)
  from web_request [OF plain _ this, of ?r static decode snaps']
  show "newRootHandler static decode snaps' (get_url (redirect_location (''/address/'' @ PathEscape q)))
      = answered (web_handleAddress snaps' (get_url (redirect_location (''/address/'' @ PathEscape q))) q)"
    unfolding loc r by (simp add: a web_handle_def Let_def)
qed

end
