(* ===== verification/LinkFacts.thy ===== *)
theory LinkFacts
  imports ServeFacts
begin

text \<open>Following the links of the list of blocks.\<close>

section \<open>Following links is following cursors\<close>

text \<open>
  A walk over the same pages under other names of the cursors collects the same rows. The cursors
  that occur satisfy \<open>P\<close>.
\<close>

lemma walk_renamed:
  assumes "\<And>c. P c \<Longrightarrow> fetch' (map_option g c) = (fst (fetch c), map_option g (snd (fetch c)))"
    and "\<And>c k. P c \<Longrightarrow> snd (fetch c) = Some k \<Longrightarrow> P (Some k)"
    and "walk fetch c = Some rows" "P c"
  shows "walk fetch' (map_option g c) = Some rows"
proof -
  let ?ok = "\<lambda>f. (\<forall>c. P c \<longrightarrow> fetch' (map_option g c) = (fst (f c), map_option g (snd (f c))))
      \<and> (\<forall>c k. P c \<longrightarrow> snd (f c) = Some k \<longrightarrow> P (Some k))"
  have "?ok f \<longrightarrow> P c \<longrightarrow> walk fetch' (map_option g c) = Some rows" if "walk f c = Some rows" for f c rows
  proof (rule walk.raw_induct [where P = "\<lambda>f c rows. ?ok f \<longrightarrow> P c \<longrightarrow> walk fetch' (map_option g c) = Some rows",
        OF _ that], intro impI)
    fix w f c rows
    assume IH: "\<And>f c rows. w f c = Some rows \<Longrightarrow> ?ok f \<longrightarrow> P c \<longrightarrow> walk fetch' (map_option g c) = Some rows"
      and step: "(case f c of (rows, None) \<Rightarrow> Some rows
        | (rows, Some k) \<Rightarrow> Option.bind (w f (Some k)) (\<lambda>more. Some (rows @ more))) = Some rows"
      and ok: "?ok f" and c: "P c"
    obtain rs n where f: "f c = (rs, n)" by (cases "f c")
    have f': "fetch' (map_option g c) = (rs, map_option g n)" using ok c f by simp
    show "walk fetch' (map_option g c) = Some rows"
    proof (cases n)
      case None
      then show ?thesis using step f f' by (subst walk.simps) simp
    next
      case (Some k)
      with f step obtain more where m: "w f (Some k) = Some more" "rows = rs @ more"
        by (auto simp: bind_eq_Some_conv)
      have "snd (f c) = Some k" using f Some by simp
      then have "P (Some k)" using ok c by blast
      with IH [OF m(1)] ok have "walk fetch' (map_option g (Some k)) = Some more" by blast
      then show ?thesis using f' Some m(2) by (subst walk.simps) simp
    qed
  qed
  with assms show ?thesis by blast
qed

section \<open>The list of blocks\<close>

text \<open>The URL of a page: of the first one, and of the one that starts below a height.\<close>

definition blocks_url :: "int \<Rightarrow> string" where
  "blocks_url limit = (if limit > 0 then ''/blocks?'' @ values_Encode (limit_value limit) else ''/blocks'')"

definition next_url :: "int \<Rightarrow> int \<Rightarrow> string" where
  "next_url limit k = NextURL (blocksPagination limit (Some k))"

text \<open>The rows of a page of blocks and the link to the next one.\<close>

definition page_links ::
  "(http_request \<Rightarrow> root_response) \<Rightarrow> string \<Rightarrow> string option \<Rightarrow> block_summary list \<times> string option" where
  "page_links serve first u =
    (case serve (get_url (case u of None \<Rightarrow> first | Some v \<Rightarrow> v)) of
       FromWeb (Answer w) \<Rightarrow>
         (case wr_Page w of
            BlocksPage bs pg _ \<Rightarrow> (bs, if HasNext pg then Some (NextURL pg) else None)
          | _ \<Rightarrow> ([], None))
     | _ \<Rightarrow> ([], None))"

lemma blocks_request:
  assumes "rq_Method r = ''GET''" "rq_Path r = ''/blocks''"
  shows "newRootHandler static decode snaps r = answered (web_handleBlocks snaps r)"
proof -
  have plain: "\<forall>s \<in> set [''blocks'']. plain_segment s" by (simp add: plain_literal)
  have "matchPath (method_routes (Some ''GET'') web_routes) (map pathUnescape [''blocks'']) []
      = Some ([Lit ''blocks''], WebBlocks, [])"
    by (simp add: plain_literal web_route_simps)
  from web_request [OF plain _ this, of r static decode snaps] assms show ?thesis
    by (simp add: plain_literal web_handle_def Let_def)
qed

lemma link_request:
  assumes "CHR ''?'' \<notin> set p"
  shows "get_url (p @ ''?'' @ q) = \<lparr>rq_Method = ''GET'', rq_Path = p, rq_RawQuery = q\<rparr>"
  using cut_append [OF assms, of q] by (simp add: get_url_def)

lemma encoded_query:
  assumes "distinct (map fst vs)" "rq_RawQuery r = values_Encode vs"
  shows "query_Get r name = (case map_of vs name of None \<Rightarrow> [] | Some v \<Rightarrow> v)"
  unfolding query_Get_def assms(2) Get_ParseQuery_Encode [OF assms(1)] by (simp add: values_Get_def)

lemma page_parameters:
  assumes "0 \<le> p" "p \<le> max_i64"
  shows "parseBeforeHeight (get_url (blocks_url p)) = Some None" "parsePageSize (get_url (blocks_url p)) = Some p"
    and "0 \<le> k \<Longrightarrow> k \<le> max_i64 \<Longrightarrow> parseBeforeHeight (get_url (next_url p k)) = Some (Some k)"
    and "parsePageSize (get_url (next_url p k)) = Some p"
    and "rq_Method (get_url (blocks_url p)) = ''GET''" "rq_Path (get_url (blocks_url p)) = ''/blocks''"
    and "rq_Method (get_url (next_url p k)) = ''GET''" "rq_Path (get_url (next_url p k)) = ''/blocks''"
proof -
  have next': "get_url (next_url p k) = \<lparr>rq_Method = ''GET'', rq_Path = ''/blocks'',
      rq_RawQuery = values_Encode ([(''before'', FormatInt k)] @ limit_value p)\<rparr>"
    using link_request [of "''/blocks''"] by (simp add: next_url_def blocksPagination_def Let_def)
  have first: "get_url (blocks_url p) = \<lparr>rq_Method = ''GET'', rq_Path = ''/blocks'',
      rq_RawQuery = values_Encode (limit_value p)\<rparr>"
    using link_request [of "''/blocks''" "values_Encode (limit_value p)"] get_url_path [of "''/blocks''"]
    by (cases "p > 0") (simp_all add: blocks_url_def limit_value_def values_Encode_def)
  have q: "query_Get (get_url (next_url p k)) name =
      (if name = ''before'' then FormatInt k else if name = ''limit'' \<and> p > 0 then FormatInt p else [])" for name
    by (subst encoded_query [where vs = "[(''before'', FormatInt k)] @ limit_value p"])
      (auto simp: next' limit_value_def)
  have f: "query_Get (get_url (blocks_url p)) name = (if name = ''limit'' \<and> p > 0 then FormatInt p else [])" for name
    by (subst encoded_query [where vs = "limit_value p"]) (auto simp: first limit_value_def)
  note simps = parseBeforeHeight_def parsePageSize_def queryParamInt_cases q f parseHeight_FormatInt
  show "parseBeforeHeight (get_url (blocks_url p)) = Some None" "parsePageSize (get_url (blocks_url p)) = Some p"
    "parsePageSize (get_url (next_url p k)) = Some p"
    using assms by (simp_all add: simps)
  show "parseBeforeHeight (get_url (next_url p k)) = Some (Some k)" if "0 \<le> k" "k \<le> max_i64"
    using that by (simp add: simps)
  show "rq_Method (get_url (blocks_url p)) = ''GET''" "rq_Path (get_url (blocks_url p)) = ''/blocks''"
    "rq_Method (get_url (next_url p k)) = ''GET''" "rq_Path (get_url (next_url p k)) = ''/blocks''"
    by (simp_all add: first next')
qed

lemma page_links_pages:
  assumes "snaps 0 = Some sn" "0 \<le> p" "p \<le> max_i64" "c = None \<or> (\<exists>k. c = Some k \<and> 0 \<le> k \<and> k \<le> max_i64)"
  shows "page_links (newRootHandler static decode snaps) (blocks_url p) (map_option (next_url p) c)
    = (fst (block_pages (sn_db sn) p c), map_option (next_url p) (snd (block_pages (sn_db sn) p c)))"
proof -
  define r where "r = get_url (case map_option (next_url p) c of None \<Rightarrow> blocks_url p | Some v \<Rightarrow> v)"
  have r: "rq_Method r = ''GET''" "rq_Path r = ''/blocks''" "parseBeforeHeight r = Some c" "parsePageSize r = Some p"
    using assms(4) page_parameters [OF assms(2,3)] by (auto simp: r_def)
  have "web_handleBlocks snaps r = render 200 (BlocksPage (bp_Blocks (RecentBlocks (sn_db sn) c p))
      (blocksPagination p (bp_NextBeforeHeight (RecentBlocks (sn_db sn) c p))) (c = None))"
    using r(3,4) assms(1) by (simp add: web_handleBlocks_def web_validate_mirrors)
  then show ?thesis
    unfolding page_links_def r_def [symmetric] blocks_request [OF r(1,2)]
    by (simp add: render_def block_pages_def Let_def next_url_def blocksPagination_def no_pagination_def
        split: option.split)
qed

text \<open>
  C16 Following the \<open>Older\<close> links from the first page of the list of blocks shows the whole canonical
  chain: with any page size in the first request, the links keep it and lead from page to page until
  there is none, and the pages list the canonical blocks from the tip down without a gap, each once.
\<close>

theorem blocks_links_walk:
  assumes "sn_db sn = run s ops init_db" "snaps 0 = Some sn" "fst (Tip (sn_db sn)) \<le> max_i64"
    and "0 \<le> p" "p \<le> max_i64"
  shows "\<exists>base bs. walk (page_links (newRootHandler static decode snaps) (blocks_url p)) None = Some bs
    \<and> map bs_Height bs = rev [base..fst (Tip (sn_db sn))]
    \<and> (\<forall>h k. CanonicalBlockHash (sn_db sn) h = Some k \<longleftrightarrow> (h, k) \<in> (\<lambda>b. (bs_Height b, bs_Hash b)) ` set bs)"
proof -
  let ?d = "sn_db sn"
  let ?P = "\<lambda>c. c = None \<or> (\<exists>k. c = Some k \<and> 0 \<le> k \<and> k \<le> max_i64)"
  obtain base where ok: "heights_ok ?d" and hs: "map (\<lambda>x. b_height (snd x)) (newest_first ?d) = rev [base..fst (Tip ?d)]"
    by (rule reachable_listing [OF assms(1)])
  have bounds: "0 \<le> k \<and> k \<le> max_i64" if n: "snd (block_pages ?d p c) = Some k" for c k
  proof -
    have rows: "fst (block_pages ?d p c) \<noteq> [] \<and> k = bs_Height (last (fst (block_pages ?d p c)))"
      by (rule block_list.more [OF ok n])
    moreover have "set (fst (block_pages ?d p c)) \<subseteq> set (map scanBlockSummary (newest_first ?d))"
      unfolding block_list.rows [OF ok] by (auto simp: past_def dest: in_set_takeD split: option.splits)
    ultimately obtain x where x: "x \<in> set (newest_first ?d)" "k = b_height (snd x)"
      using last_in_set by (smt (verit) image_iff list.set_map scan_height(1) subset_iff)
    then have "k \<in> set (map (\<lambda>x. b_height (snd x)) (newest_first ?d))" by auto
    then have "k \<le> fst (Tip ?d)" unfolding hs by simp
    moreover have "0 \<le> k" using ok x by (auto simp: heights_ok_def)
    ultimately show ?thesis using assms(3) by simp
  qed
  have pages: "page_links (newRootHandler static decode snaps) (blocks_url p) (map_option (next_url p) c)
      = (fst (block_pages ?d p c), map_option (next_url p) (snd (block_pages ?d p c)))" if "?P c" for c
    by (rule page_links_pages [where snaps = snaps and sn = sn and p = p and c = c, OF _ _ _ that])
      (use assms in simp_all)
  have "walk (page_links (newRootHandler static decode snaps) (blocks_url p)) (map_option (next_url p) None) = Some bs"
    if "walk (block_pages ?d p) None = Some bs" for bs
    by (rule walk_renamed [where P = ?P and fetch = "block_pages ?d p"]) (use bounds pages that in auto)
  then show ?thesis using recent_complete [OF assms(1), of p] by fastforce
qed

end
