(* ===== verification/Config.thy ===== *)
theory Config
  imports Requests
begin

text \<open>
  \<open>internal/config\<close>: the configuration from the environment. The environment is a map from names to
  values, \<open>os.LookupEnv\<close>.
\<close>

record rpc_config =
  rc_Host :: string
  rc_Port :: int
  rc_User :: string
  rc_Password :: string
  rc_UseTLS :: bool
  rc_Timeout :: int

record config =
  cfg_RPC :: rpc_config
  cfg_DatabaseURL :: string
  cfg_HTTPAddr :: string
  cfg_LogLevel :: string
  cfg_LogJSON :: bool
  cfg_Network :: string
  cfg_IndexPollSeconds :: int

type_synonym environment = "string \<rightharpoonup> string"

text \<open>\<open>strconv.Atoi\<close>: an optional sign and decimal digits, in the range of \<open>int\<close>.\<close>

definition Atoi :: "string \<Rightarrow> int option" where
  "Atoi s =
    (if s = [] then None
     else let neg = (hd s = CHR ''-''); body = (if hd s = CHR ''-'' \<or> hd s = CHR ''+'' then tl s else s) in
       if body = [] \<or> \<not> list_all is_digit body then None
       else let n = (if neg then - int (read_nat body) else int (read_nat body)) in
         if in_i64 n then Some n else None)"

definition getEnv :: "environment \<Rightarrow> string \<Rightarrow> string \<Rightarrow> string" where
  "getEnv os key def = (case os key of Some v \<Rightarrow> if v \<noteq> [] then v else def | None \<Rightarrow> def)"

definition getEnvInt :: "environment \<Rightarrow> string \<Rightarrow> int \<Rightarrow> int" where
  "getEnvInt os key def =
    (case os key of
       Some v \<Rightarrow> if v \<noteq> [] then (case Atoi v of Some n \<Rightarrow> n | None \<Rightarrow> def) else def
     | None \<Rightarrow> def)"

definition getEnvBool :: "environment \<Rightarrow> string \<Rightarrow> bool \<Rightarrow> bool" where
  "getEnvBool os key def =
    (case os key of
       Some v \<Rightarrow> if v \<noteq> [] then (case ParseBool v of Some b \<Rightarrow> b | None \<Rightarrow> def) else def
     | None \<Rightarrow> def)"

definition Load :: "environment \<Rightarrow> config" where
  "Load os =
    \<lparr>cfg_RPC =
       \<lparr>rc_Host = getEnv os ''QOGE_RPC_HOST'' ''127.0.0.1'',
        rc_Port = getEnvInt os ''QOGE_RPC_PORT'' 8332,
        rc_User = getEnv os ''QOGE_RPC_USER'' [],
        rc_Password = getEnv os ''QOGE_RPC_PASSWORD'' [],
        rc_UseTLS = getEnvBool os ''QOGE_RPC_TLS'' False,
        rc_Timeout = getEnvInt os ''QOGE_RPC_TIMEOUT_SECONDS'' 30\<rparr>,
     cfg_DatabaseURL = getEnv os ''QOGE_DATABASE_URL'' [],
     cfg_HTTPAddr = getEnv os ''QOGE_HTTP_ADDR'' ''127.0.0.1:8532'',
     cfg_LogLevel = getEnv os ''QOGE_LOG_LEVEL'' ''info'',
     cfg_LogJSON = getEnvBool os ''QOGE_LOG_JSON'' False,
     cfg_Network = getEnv os ''QOGE_NETWORK'' [],
     cfg_IndexPollSeconds = getEnvInt os ''QOGE_INDEX_POLL_SECONDS'' 10\<rparr>"

datatype config_error = RPCUserNotSet | RPCPasswordNotSet

definition Validate :: "rpc_config \<Rightarrow> config_error + unit" where
  "Validate r =
    (if rc_User r = [] then Inl RPCUserNotSet
     else if rc_Password r = [] then Inl RPCPasswordNotSet
     else Inr ())"

definition Redacted :: "rpc_config \<Rightarrow> string" where
  "Redacted r =
    (let passState = (if rc_Password r \<noteq> [] then ''set'' else ''unset'') in
     ''host='' @ rc_Host r @ '' port='' @ FormatInt (rc_Port r) @ '' user='' @ rc_User r
     @ '' password='' @ passState @ '' tls='' @ (if rc_UseTLS r then ''true'' else ''false'')
     @ '' timeout='' @ FormatInt (rc_Timeout r) @ ''s'')"

text \<open>The redacted text tells whether a password is set and nothing else about it.\<close>

lemma Redacted_password: "p \<noteq> [] \<Longrightarrow> q \<noteq> [] \<Longrightarrow> Redacted (r\<lparr>rc_Password := p\<rparr>) = Redacted (r\<lparr>rc_Password := q\<rparr>)"
  by (simp add: Redacted_def)

text \<open>A variable that is set to the decimal text of an integer is read back.\<close>

lemma Atoi_FormatInt: "in_i64 n \<Longrightarrow> Atoi (FormatInt n) = Some n"
proof -
  assume n: "in_i64 n"
  have d: "hd (show_nat k) \<noteq> CHR ''-'' \<and> hd (show_nat k) \<noteq> CHR ''+''" for k
  proof -
    have "is_digit (hd (show_nat k))" using show_nat_digits [of k] by (cases "show_nat k") auto
    then show ?thesis by auto
  qed
  show ?thesis using n d [of "nat n"] by (auto simp: Atoi_def FormatInt_def show_nat_digits Let_def)
qed

end
