(* ===== verification/RpcClient.thy ===== *)
theory RpcClient
  imports Config Indexer MempoolSync Deployments
begin

text \<open>
  \<open>internal/rpc\<close>: the client of Core's JSON-RPC interface, with the texts of its errors, and the
  interfaces of the other packages that it implements. Outside are \<open>net/http\<close> (\<open>http_transport\<close>:
  whether a request can be built for a URL, and what posting it gives) and \<open>encoding/json\<close>
  (\<open>unmarshal\<close>, whose failures are texts); encoding a request never fails for the parameters the
  methods pass. The context and the timeout belong to the transport.
\<close>

section \<open>client.go\<close>

record client =
  cl_endpoint :: string
  cl_user :: string
  cl_password :: string
  cl_timeout :: int

definition New :: "rpc_config \<Rightarrow> client" where
  "New cfg =
    (let scheme = (if rc_UseTLS cfg then ''https'' else ''http'') in
     \<lparr>cl_endpoint = scheme @ ''://'' @ rc_Host cfg @ '':'' @ FormatInt (rc_Port cfg) @ ''/'',
      cl_user = rc_User cfg, cl_password = rc_Password cfg, cl_timeout = rc_Timeout cfg\<rparr>)"

datatype rpc_param = ParamString string | ParamInt int | ParamBool bool

record rpc_request =
  JSONRPC :: string
  ID :: string
  Method :: string
  Params :: "rpc_param list"

record rpc_error =
  err_Code :: int
  err_Message :: string

definition Error :: "rpc_error \<Rightarrow> string" where
  "Error e = ''rpc error '' @ FormatInt (err_Code e) @ '': '' @ err_Message e"

text \<open>\<open>json.RawMessage\<close> is the text of the value; the field \<open>id\<close> is never read.\<close>

record rpc_response =
  resp_Result :: string
  resp_Error :: "rpc_error option"

record http_post =
  hp_URL :: string
  hp_Header :: "(string \<times> string) list"
  hp_BasicAuth :: "string \<times> string"
  hp_Body :: rpc_request
  hp_Timeout :: int

record http_reply =
  hr_StatusCode :: int
  hr_Body :: "string + string"

record 'w http_transport =
  NewRequest :: "string \<Rightarrow> string + unit"
  Do :: "http_post \<Rightarrow> ('w, string, http_reply) call"

definition Call ::
  "'w http_transport \<Rightarrow> (string \<Rightarrow> string + rpc_response) \<Rightarrow> client \<Rightarrow> string \<Rightarrow> rpc_param list
    \<Rightarrow> ('w, string, string) call" where
  "Call tr unmarshal c method params = (\<lambda>w.
    let reqBody = \<lparr>JSONRPC = ''1.0'', ID = ''qoge-explorer'', Method = method, Params = params\<rparr> in
    case NewRequest tr (cl_endpoint c) of
      Inl err \<Rightarrow> (Inl (''build rpc request: '' @ err), w)
    | Inr _ \<Rightarrow>
      (case Do tr \<lparr>hp_URL = cl_endpoint c, hp_Header = [(''Content-Type'', ''application/json'')],
             hp_BasicAuth = (cl_user c, cl_password c), hp_Body = reqBody, hp_Timeout = cl_timeout c\<rparr> w of
         (Inl err, w') \<Rightarrow> (Inl (''rpc call '' @ method @ '': '' @ err), w')
       | (Inr httpResp, w') \<Rightarrow>
         (case hr_Body httpResp of
            Inl err \<Rightarrow> (Inl (''read rpc response for '' @ method @ '': '' @ err), w')
          | Inr body \<Rightarrow>
            if hr_StatusCode httpResp = 401 then
              (Inl (''rpc call '' @ method @ '': authentication rejected by node (check RPC user/password)''), w')
            else (case unmarshal body of
                Inl err \<Rightarrow> (Inl (''decode rpc response for '' @ method @ '' (http '' @
                  FormatInt (hr_StatusCode httpResp) @ ''): '' @ err), w')
              | Inr parsed \<Rightarrow>
                (case resp_Error parsed of
                   Some e \<Rightarrow> (Inl (''rpc call '' @ method @ '' failed: '' @ Error e), w')
                 | None \<Rightarrow> (Inr (resp_Result parsed), w'))))))"

definition CallInto ::
  "'w http_transport \<Rightarrow> (string \<Rightarrow> string + rpc_response) \<Rightarrow> client \<Rightarrow> (string \<Rightarrow> string + 'a) \<Rightarrow> string
    \<Rightarrow> rpc_param list \<Rightarrow> ('w, string, 'a) call" where
  "CallInto tr unmarshal c out method params = (\<lambda>w.
    case Call tr unmarshal c method params w of
      (Inl err, w') \<Rightarrow> (Inl err, w')
    | (Inr raw, w') \<Rightarrow>
      (case out raw of
         Inl err \<Rightarrow> (Inl (''decode result of '' @ method @ '': '' @ err), w')
       | Inr a \<Rightarrow> (Inr a, w')))"

text \<open>\<open>fmt.Errorf(.. %w, err)\<close> around a call.\<close>

definition wrap :: "string \<Rightarrow> ('w, string, 'a) call \<Rightarrow> ('w, string, 'a) call" where
  "wrap what m = (\<lambda>w. case m w of (r, w') \<Rightarrow> (map_err (\<lambda>err. what @ '': '' @ err) r, w'))"

section \<open>The methods\<close>

text \<open>\<open>out\<close> is \<open>json.Unmarshal\<close> into the result type of the method.\<close>

definition GetBestBlockHash :: "'w http_transport \<Rightarrow> (string \<Rightarrow> string + rpc_response) \<Rightarrow> client
    \<Rightarrow> (string \<Rightarrow> string + string) \<Rightarrow> ('w, string, string) call" where
  "GetBestBlockHash tr u c out = CallInto tr u c out ''getbestblockhash'' []"

definition GetBlockCount :: "'w http_transport \<Rightarrow> (string \<Rightarrow> string + rpc_response) \<Rightarrow> client
    \<Rightarrow> (string \<Rightarrow> string + int) \<Rightarrow> ('w, string, int) call" where
  "GetBlockCount tr u c out = CallInto tr u c out ''getblockcount'' []"

definition GetBlockchainInfo :: "'w http_transport \<Rightarrow> (string \<Rightarrow> string + rpc_response) \<Rightarrow> client
    \<Rightarrow> (string \<Rightarrow> string + 'i) \<Rightarrow> ('w, string, 'i) call" where
  "GetBlockchainInfo tr u c out = CallInto tr u c out ''getblockchaininfo'' []"

definition GetNetworkInfo :: "'w http_transport \<Rightarrow> (string \<Rightarrow> string + rpc_response) \<Rightarrow> client
    \<Rightarrow> (string \<Rightarrow> string + 'i) \<Rightarrow> ('w, string, 'i) call" where
  "GetNetworkInfo tr u c out = CallInto tr u c out ''getnetworkinfo'' []"

definition GetIndexInfo :: "'w http_transport \<Rightarrow> (string \<Rightarrow> string + rpc_response) \<Rightarrow> client
    \<Rightarrow> (string \<Rightarrow> string + 'i) \<Rightarrow> ('w, string, 'i) call" where
  "GetIndexInfo tr u c out = CallInto tr u c out ''getindexinfo'' [ParamString ''txindex'']"

definition GetBlockHash :: "'w http_transport \<Rightarrow> (string \<Rightarrow> string + rpc_response) \<Rightarrow> client
    \<Rightarrow> (string \<Rightarrow> string + string) \<Rightarrow> int \<Rightarrow> ('w, string, string) call" where
  "GetBlockHash tr u c out height =
    wrap (''getblockhash '' @ FormatInt height) (CallInto tr u c out ''getblockhash'' [ParamInt height])"

definition GetBlockVerbose2 :: "'w http_transport \<Rightarrow> (string \<Rightarrow> string + rpc_response) \<Rightarrow> client
    \<Rightarrow> (string \<Rightarrow> string + raw_block) \<Rightarrow> string \<Rightarrow> ('w, string, raw_block) call" where
  "GetBlockVerbose2 tr u c out hash =
    wrap (''getblock '' @ hash @ '' 2'') (CallInto tr u c out ''getblock'' [ParamString hash, ParamInt 2])"

definition GetRawTransactionVerbose :: "'w http_transport \<Rightarrow> (string \<Rightarrow> string + rpc_response) \<Rightarrow> client
    \<Rightarrow> (string \<Rightarrow> string + raw_tx) \<Rightarrow> string \<Rightarrow> ('w, string, raw_tx) call" where
  "GetRawTransactionVerbose tr u c out txid =
    wrap (''getrawtransaction '' @ txid @ '' true'')
      (CallInto tr u c out ''getrawtransaction'' [ParamString txid, ParamBool True])"

definition rpc_GetDescriptorInfo :: "'w http_transport \<Rightarrow> (string \<Rightarrow> string + rpc_response) \<Rightarrow> client
    \<Rightarrow> (string \<Rightarrow> string + string) \<Rightarrow> string \<Rightarrow> ('w, string, string) call" where
  "rpc_GetDescriptorInfo tr u c out descriptor =
    wrap ''getdescriptorinfo'' (CallInto tr u c out ''getdescriptorinfo'' [ParamString descriptor])"

definition rpc_DeriveAddresses :: "'w http_transport \<Rightarrow> (string \<Rightarrow> string + rpc_response) \<Rightarrow> client
    \<Rightarrow> (string \<Rightarrow> string + string list) \<Rightarrow> string \<Rightarrow> ('w, string, string list) call" where
  "rpc_DeriveAddresses tr u c out canonicalDescriptor =
    wrap ''deriveaddresses'' (CallInto tr u c out ''deriveaddresses'' [ParamString canonicalDescriptor])"

definition GetRawMempoolVerbose :: "'w http_transport \<Rightarrow> (string \<Rightarrow> string + rpc_response) \<Rightarrow> client
    \<Rightarrow> (string \<Rightarrow> string + (string, raw_entry) table) \<Rightarrow> ('w, string, (string, raw_entry) table) call" where
  "GetRawMempoolVerbose tr u c out =
    wrap ''getrawmempool true'' (CallInto tr u c out ''getrawmempool'' [ParamBool True])"

definition GetDeploymentInfo :: "'w http_transport \<Rightarrow> (string \<Rightarrow> string + rpc_response) \<Rightarrow> client
    \<Rightarrow> (string \<Rightarrow> string + raw_info) \<Rightarrow> string \<Rightarrow> ('w, string, raw_info) call" where
  "GetDeploymentInfo tr u c out blockHash =
    wrap (''getdeploymentinfo '' @ blockHash) (CallInto tr u c out ''getdeploymentinfo'' [ParamString blockHash])"

section \<open>When a call succeeds\<close>

text \<open>
  A result comes back exactly when the node was reached, accepted the credentials and answered with a
  decodable response without an error, whatever the status otherwise is.
\<close>

lemma Call_Inr_iff:
  "Call tr u c method params w = (Inr raw, w') \<longleftrightarrow>
    (\<exists>reply body. NewRequest tr (cl_endpoint c) = Inr ()
      \<and> Do tr \<lparr>hp_URL = cl_endpoint c, hp_Header = [(''Content-Type'', ''application/json'')],
          hp_BasicAuth = (cl_user c, cl_password c),
          hp_Body = \<lparr>JSONRPC = ''1.0'', ID = ''qoge-explorer'', Method = method, Params = params\<rparr>,
          hp_Timeout = cl_timeout c\<rparr> w = (Inr reply, w')
      \<and> hr_StatusCode reply \<noteq> 401 \<and> hr_Body reply = Inr body
      \<and> u body = Inr \<lparr>resp_Result = raw, resp_Error = None\<rparr>)"
proof -
  have resp: "u b = Inr r \<Longrightarrow> resp_Error r = None \<Longrightarrow> u b = Inr \<lparr>resp_Result = resp_Result r, resp_Error = None\<rparr>"
    for b r by (cases r) simp
  show ?thesis
    by (auto simp: Call_def Let_def dest: resp split: sum.splits prod.splits option.splits if_splits)
qed

lemma CallInto_Inr_iff:
  "CallInto tr u c out method params w = (Inr a, w') \<longleftrightarrow>
    (\<exists>raw. Call tr u c method params w = (Inr raw, w') \<and> out raw = Inr a)"
  by (auto simp: CallInto_def split: sum.splits prod.splits)

lemma wrap_Inr_iff [simp]: "wrap what m w = (Inr a, w') \<longleftrightarrow> m w = (Inr a, w')"
  by (cases "m w") (auto simp: wrap_def map_err_def split: sum.splits)

end
