(* ===== verification/Commands.thy ===== *)
theory Commands
  imports Config Migrate IndexerSafety BackfillFacts Backfill
begin

text \<open>
  \<open>cmd/qoge-explorer/main.go\<close> and \<open>store.Connect\<close>: the commands, as their exit code and what they
  leave in the database. What they print and log is left out. \<open>dial\<close> is the outcome of opening and
  pinging a PostgreSQL pool; \<open>None\<close> in a result of \<open>runIndex\<close> is a run that never ends.
\<close>

definition Connect :: "(string \<Rightarrow> bool) \<Rightarrow> string \<Rightarrow> bool" where
  "Connect dial databaseURL = (if databaseURL = [] then False else dial databaseURL)"

section \<open>check-rpc\<close>

definition runCheckRPC ::
  "('w, string, 'n) call \<Rightarrow> ('w, string, blockchain_info) call \<Rightarrow> ('w, string, 'i) call \<Rightarrow> config \<Rightarrow> 'w \<Rightarrow> int \<times> 'w" where
  "runCheckRPC getNetworkInfo getBlockchainInfo getIndexInfo cfg w =
    (case Validate (cfg_RPC cfg) of
       Inl _ \<Rightarrow> (1, w)
     | Inr _ \<Rightarrow>
       (case getNetworkInfo w of
          (Inl _, w1) \<Rightarrow> (1, w1)
        | (Inr netInfo, w1) \<Rightarrow>
          (case getBlockchainInfo w1 of
             (Inl _, w2) \<Rightarrow> (1, w2)
           | (Inr chainInfo, w2) \<Rightarrow>
             (case getIndexInfo w2 of
                (Inl _, w3) \<Rightarrow> (1, w3)
              | (Inr idxInfo, w3) \<Rightarrow> (0, w3)))))"

section \<open>serve\<close>

text \<open>What ends the server: \<open>ListenAndServe\<close> returns, with an error or closed, or a signal and \<open>Shutdown\<close>.\<close>

datatype serve_end = ListenFailed | ListenClosed | ShutdownDone | ShutdownFailed

definition runServe :: "(string \<Rightarrow> bool) \<Rightarrow> serve_end \<Rightarrow> config \<Rightarrow> int" where
  "runServe dial fin cfg =
    (if cfg_DatabaseURL cfg = [] then 1
     else if \<not> Connect dial (cfg_DatabaseURL cfg) then 1
     else case fin of ListenFailed \<Rightarrow> 1 | ListenClosed \<Rightarrow> 0 | ShutdownDone \<Rightarrow> 0 | ShutdownFailed \<Rightarrow> 1)"

section \<open>migrate\<close>

definition runMigrate ::
  "(string \<Rightarrow> bool) \<Rightarrow> ('d \<Rightarrow> string \<Rightarrow> string + 'd) \<Rightarrow> (int list \<Rightarrow> int list) \<Rightarrow> (string \<Rightarrow> dir_entry list)
    \<Rightarrow> environment \<Rightarrow> config \<Rightarrow> string list \<Rightarrow> 'd pg \<Rightarrow> int \<times> 'd pg" where
  "runMigrate dial exec iter dirFS os cfg args x =
    (if cfg_DatabaseURL cfg = [] then (1, x)
     else case args of
       [] \<Rightarrow> (2, x)
     | arg # params \<Rightarrow>
       (let migrationsDir = (case os ''QOGE_MIGRATIONS_DIR'' of
              Some v \<Rightarrow> if v = [] then ''migrations'' else v | None \<Rightarrow> ''migrations'') in
        if \<not> Connect dial (cfg_DatabaseURL cfg) then (1, x)
        else case LoadMigrations iter (dirFS migrationsDir) of
          Inl _ \<Rightarrow> (1, x)
        | Inr migrations \<Rightarrow>
          if arg = ''up'' then
            (case Up exec iter migrations x of
               (applied, Some _, y) \<Rightarrow> (1, y)
             | (applied, None, y) \<Rightarrow> (0, y))
          else if arg = ''down'' then
            (case (case params of [] \<Rightarrow> Some 1
                   | n # _ \<Rightarrow> (case Atoi n of None \<Rightarrow> None | Some k \<Rightarrow> if k \<le> 0 then None else Some k)) of
               None \<Rightarrow> (2, x)
             | Some steps \<Rightarrow>
               (case Down exec iter migrations steps x of
                  (rolledBack, Some _, y) \<Rightarrow> (1, y)
                | (rolledBack, None, y) \<Rightarrow> (0, y)))
          else if arg = ''version'' then (0, x)
          else (2, x)))"

section \<open>The backfills\<close>

text \<open>They run while no other process writes, as their documentation demands.\<close>

definition runBackfillAccounting ::
  "(string \<Rightarrow> bool) \<Rightarrow> (string list \<Rightarrow> string list) \<Rightarrow> (string \<Rightarrow> int) \<Rightarrow> session \<Rightarrow> config \<Rightarrow> db \<Rightarrow> int \<times> db" where
  "runBackfillAccounting dial ord hashtext sn cfg d =
    (if cfg_DatabaseURL cfg = [] then (1, d)
     else if cfg_Network cfg = [] then (1, d)
     else if \<not> Connect dial (cfg_DatabaseURL cfg) then (1, d)
     else case VerifyNetworkIdentity (cfg_Network cfg) d of
       Inl _ \<Rightarrow> (1, d)
     | Inr _ \<Rightarrow>
       (case NewForNetwork ord (cfg_Network cfg) of
          Inl _ \<Rightarrow> (1, d)
        | Inr st \<Rightarrow>
          (let before = CheckAccountingCompleteness d in
           case BackfillAccounting st hashtext sn d of
             (Inl _, result, d') \<Rightarrow> (1, d')
           | (Inr _, result, d') \<Rightarrow>
             (let after = CheckAccountingCompleteness d' in
              if MissingCount after \<noteq> 0 then (1, d') else (0, d')))))"

definition runBackfillSupplyRollup ::
  "(string \<Rightarrow> bool) \<Rightarrow> (string \<Rightarrow> int) \<Rightarrow> session \<Rightarrow> config \<Rightarrow> db \<Rightarrow> int \<times> db" where
  "runBackfillSupplyRollup dial hashtext sn cfg d =
    (if cfg_DatabaseURL cfg = [] then (1, d)
     else if cfg_Network cfg = [] then (1, d)
     else if \<not> Connect dial (cfg_DatabaseURL cfg) then (1, d)
     else case VerifyNetworkIdentity (cfg_Network cfg) d of
       Inl _ \<Rightarrow> (1, d)
     | Inr _ \<Rightarrow>
       (case BackfillSupplyRollup hashtext sn d of
          Inl _ \<Rightarrow> (1, d)
        | Inr (result, d') \<Rightarrow> (0, d')))"

definition runBackfillAddressDistribution ::
  "(string \<Rightarrow> bool) \<Rightarrow> (string \<Rightarrow> int) \<Rightarrow> session \<Rightarrow> config \<Rightarrow> db \<Rightarrow> int \<times> db" where
  "runBackfillAddressDistribution dial hashtext sn cfg d =
    (if cfg_DatabaseURL cfg = [] then (1, d)
     else if \<not> Connect dial (cfg_DatabaseURL cfg) then (1, d)
     else case BackfillAddressDistribution hashtext sn d of
       Inl _ \<Rightarrow> (1, d)
     | Inr (result, d') \<Rightarrow> (0, d'))"

section \<open>index\<close>

text \<open>
  The preflights and the indexer, on the confirmed database. The mempool synchronizer and the
  deployment observer that run beside it write other tables. \<open>tableExists\<close> tells whether the
  tables of migrations 0005 and 0007 exist; a preflight that reads a nil hash panics (exit code 2).
\<close>

definition index_preflights ::
  "store \<Rightarrow> 'w env \<Rightarrow> bool \<times> bool \<Rightarrow> 'w sys \<Rightarrow> int option \<times> 'w sys" where
  "index_preflights st env tableExists x =
    (case store_read st env (VerifySupplyRollupCoverage (fst tableExists)) x of
       (Inl _, y) \<Rightarrow> (Some 1, y)
     | (Inr None, y) \<Rightarrow> (Some 2, y)
     | (Inr (Some (Inl _)), y) \<Rightarrow> (Some 1, y)
     | (Inr (Some (Inr _)), y) \<Rightarrow>
       (case store_read st env (VerifyDistributionCoverage (snd tableExists)) y of
          (Inl _, z) \<Rightarrow> (Some 1, z)
        | (Inr (Inl _), z) \<Rightarrow> (Some 1, z)
        | (Inr (Inr _), z) \<Rightarrow> (None, z)))"

definition runIndex ::
  "(string \<Rightarrow> bool) \<Rightarrow> (string list \<Rightarrow> string list) \<Rightarrow> ('w, string, blockchain_info) call \<Rightarrow> store \<Rightarrow> 'w env
    \<Rightarrow> bool \<times> bool \<Rightarrow> config \<Rightarrow> 'w sys \<Rightarrow> (int \<times> 'w sys) option" where
  "runIndex dial ord getBlockchainInfo others env tableExists cfg x =
    (case Validate (cfg_RPC cfg) of
       Inl _ \<Rightarrow> Some (1, x)
     | Inr _ \<Rightarrow>
     if cfg_DatabaseURL cfg = [] then Some (1, x)
     else if cfg_Network cfg = [] then Some (1, x)
     else case getBlockchainInfo (snd x) of
       (Inl _, w) \<Rightarrow> Some (1, (fst x, w))
     | (Inr chainInfo, w) \<Rightarrow>
       (case ValidateStartup chainInfo (cfg_Network cfg) of
          Inl _ \<Rightarrow> Some (1, (fst x, w))
        | Inr _ \<Rightarrow>
          if \<not> Connect dial (cfg_DatabaseURL cfg) then Some (1, (fst x, w))
          else case index_preflights others env tableExists (fst x, w) of
            (Some code, y) \<Rightarrow> Some (code, y)
          | (None, y) \<Rightarrow>
            (case NewForNetwork ord (cfg_Network cfg) of
               Inl _ \<Rightarrow> Some (1, y)
             | Inr st \<Rightarrow>
               (case Run st env y of
                  None \<Rightarrow> None
                | Some (Inl _, z) \<Rightarrow> Some (1, z)
                | Some (Inr _, z) \<Rightarrow> Some (0, z)))))"

section \<open>main\<close>

datatype invocation =
    Usage int | CheckRPC | Serve | MigrateWith "string list" | Index
  | BackfillAccountingCmd | BackfillSupplyRollupCmd | BackfillAddressDistributionCmd

text \<open>The command that \<open>os.Args\<close> selects; \<open>Usage\<close> carries the exit code.\<close>

definition main :: "string list \<Rightarrow> invocation" where
  "main args =
    (if length args < 2 then Usage 2
     else let cmd = args ! 1 in
       if cmd = ''check-rpc'' then CheckRPC
       else if cmd = ''serve'' then Serve
       else if cmd = ''migrate'' then MigrateWith (drop 2 args)
       else if cmd = ''index'' then Index
       else if cmd = ''backfill-accounting'' then BackfillAccountingCmd
       else if cmd = ''backfill-supply-rollup'' then BackfillSupplyRollupCmd
       else if cmd = ''backfill-address-distribution'' then BackfillAddressDistributionCmd
       else if cmd = ''-h'' \<or> cmd = ''--help'' \<or> cmd = ''help'' then Usage 0
       else Usage 2)"

end
