(* ===== verification/CommandFacts.thy ===== *)
theory CommandFacts
  imports Commands BackfillWitness IndexerWitness
begin

text \<open>What the commands guarantee about the database they are pointed at.\<close>

section \<open>backfill-accounting\<close>

lemma VerifyNetworkIdentity_iff: "VerifyNetworkIdentity network d = Inr () \<longleftrightarrow>
    (\<exists>g. ExpectedGenesisHash network = Inr g \<and> CanonicalBlockHash d 0 = Some g)"
  by (auto simp: VerifyNetworkIdentity_def result_simps guard_def split: option.splits)

lemma canonical_tables [simp]: "CanonicalBlockHash (d\<lparr>block_accounting := t\<rparr>) h = CanonicalBlockHash d h"
  by (simp add: CanonicalBlockHash_def)

text \<open>
  C24 \<open>backfill-accounting\<close> repairs a database for its own network and touches it for no other: in a
  database that was indexed for a network and whose canonical genesis is that network's, delete any
  accounting rows. With the network configured and the lock free the command exits 0 and leaves
  exactly the rows that indexing had written, nothing else changed; with any other network it exits
  1 and the database is as it was.
\<close>

theorem runBackfillAccounting_repairs:
  assumes "NewForNetwork ord network = Inr s" "ExpectedGenesisHash network = Inr g"
    and "d = run s ops init_db" "CanonicalBlockHash d 0 = Some g"
    and "free_lock backfillAccountingAdvisoryLockNamespace f sn"
    and "twf t" "tget t \<subseteq>\<^sub>m tget (block_accounting d)"
    and "cfg_DatabaseURL cfg \<noteq> []" "dial (cfg_DatabaseURL cfg)"
  shows "if cfg_Network cfg = network
    then \<exists>t'. runBackfillAccounting dial ord f sn cfg (d\<lparr>block_accounting := t\<rparr>) = (0, d\<lparr>block_accounting := t'\<rparr>)
      \<and> tget t' = tget (block_accounting d)
    else runBackfillAccounting dial ord f sn cfg (d\<lparr>block_accounting := t\<rparr>) = (1, d\<lparr>block_accounting := t\<rparr>)"
proof (cases "cfg_Network cfg = network")
  case True
  obtain t' res where t': "BackfillAccounting s f sn (d\<lparr>block_accounting := t\<rparr>) = (Inr (), res, d\<lparr>block_accounting := t'\<rparr>)"
    "tget t' = tget (block_accounting d)" "MissingCount (CheckAccountingCompleteness (d\<lparr>block_accounting := t'\<rparr>)) = 0"
    using BackfillAccounting_reconstructs [OF assms(3,5-7)]
    by (elim exE conjE) (rule that, assumption, assumption, simp)
  have ident: "VerifyNetworkIdentity network (d\<lparr>block_accounting := t\<rparr>) = Inr ()"
    using assms(2,4) by (simp add: VerifyNetworkIdentity_iff)
  have "network \<noteq> []" using assms(2) by (auto simp: ExpectedGenesisHash_def)
  then have "runBackfillAccounting dial ord f sn cfg (d\<lparr>block_accounting := t\<rparr>) = (0, d\<lparr>block_accounting := t'\<rparr>)"
    unfolding runBackfillAccounting_def Let_def True ident assms(1) sum.case t'(1) prod.case
    using assms(8,9) t'(3) by (simp add: Connect_def)
  with t'(2) have "\<exists>t'. runBackfillAccounting dial ord f sn cfg (d\<lparr>block_accounting := t\<rparr>) = (0, d\<lparr>block_accounting := t'\<rparr>)
      \<and> tget t' = tget (block_accounting d)" by (intro exI [of _ t'] conjI)
  then show ?thesis unfolding if_P [OF True] .
next
  case False
  have "VerifyNetworkIdentity (cfg_Network cfg) (d\<lparr>block_accounting := t\<rparr>) \<noteq> Inr ()"
    using assms(2,4) False ExpectedGenesisHash_inject unfolding VerifyNetworkIdentity_iff by fastforce
  then obtain e where "VerifyNetworkIdentity (cfg_Network cfg) (d\<lparr>block_accounting := t\<rparr>) = Inl e"
    by (cases "VerifyNetworkIdentity (cfg_Network cfg) (d\<lparr>block_accounting := t\<rparr>)") auto
  then show ?thesis using False by (simp add: runBackfillAccounting_def)
qed

section \<open>index\<close>

lemma Run_advances: "Run s env x = Some (r, y) \<Longrightarrow> advances s x y"
proof -
  have "advances s x z" if "Run s env x = Some (r, z)" for s :: store and env :: "'w env" and x r z
  proof (rule Run.raw_induct [of "\<lambda>s env x y. advances s x (snd y)" "((s, env), x)" "(r, z)",
        unfolded prod.case snd_conv, OF _ that])
    fix f and s :: store and env :: "'w env" and x y
    assume IH: "\<And>s env x y. f s env x = Some y \<Longrightarrow> advances s x (snd y)"
      and eq: "(case ctx_check env x of
         (Inl _, y) \<Rightarrow> Some (Inr (), y)
       | (Inr _, y) \<Rightarrow>
         Option.bind (SyncToTip s env False y) (\<lambda>(r, z).
         case r of
           Inl e \<Rightarrow> Some (if is_cancellation env e then Inr () else Inl e, z)
         | Inr _ \<Rightarrow>
           (case ctx_check env z of
              (Inl _, u) \<Rightarrow> Some (Inr (), u)
            | (Inr _, u) \<Rightarrow> f s env u))) = Some y"
    have tr: "advances s a c" if "advances s a b" "advances s b c" for a b c :: "'w sys"
      using that by (rule ops.trans)
    obtain c u where c: "ctx_check env x = (c, u)" by (cases "ctx_check env x")
    then have xu: "advances s x u" using ops.stepsD [OF ops.ctx_check] by blast
    show "advances s x (snd y)"
    proof (cases c)
      case Inl
      then show ?thesis using eq c xu by auto
    next
      case (Inr a)
      then obtain q v where q: "SyncToTip s env False u = Some (q, v)"
        using eq c by (auto simp: bind_eq_Some_conv)
      have uv: "advances s u v" by (rule ops.SyncToTip [OF q])
      obtain c' u' where c': "ctx_check env v = (c', u')" by (cases "ctx_check env v")
      then have vu: "advances s v u'" using ops.stepsD [OF ops.ctx_check] by blast
      show ?thesis
      proof (cases q)
        case (Inl e)
        then show ?thesis using eq c Inr q tr [OF xu uv] by auto
      next
        case (Inr b)
        show ?thesis
        proof (cases c')
          case (Inl e)
          then show ?thesis using eq c \<open>c = Inr a\<close> q Inr c' tr [OF tr [OF xu uv] vu] by auto
        next
          case (Inr b')
          then have "f s env u' = Some y" using eq c \<open>c = Inr a\<close> q \<open>q = Inr b\<close> c' by simp
          then show ?thesis using IH tr [OF tr [OF xu uv] vu] tr by blast
        qed
      qed
    qed
  qed
  then show "Run s env x = Some (r, y) \<Longrightarrow> advances s x y" .
qed

lemma quiet_read:
  assumes "\<forall>w. \<exists>w'. Writers env w = (Inr [], w')"
  obtains w' where "store_read st env q (d, w) = (Inr (q d), (d, w'))"
proof -
  obtain w' where "Writers env w = (Inr [], w')" using assms by blast
  then have "store_read st env q (d, w) = (Inr (q d), (d, w'))" by (simp add: store_read_def)
  then show thesis by (rule that)
qed

lemma index_preflights_quiet:
  assumes "\<forall>w. \<exists>w'. Writers env w = (Inr [], w')"
  obtains w' where "index_preflights st env ex (d, w) = ((case VerifySupplyRollupCoverage (fst ex) d of
      None \<Rightarrow> Some 2
    | Some (Inl _) \<Rightarrow> Some 1
    | Some (Inr _) \<Rightarrow> (case VerifyDistributionCoverage (snd ex) d of Inl _ \<Rightarrow> Some 1 | Inr _ \<Rightarrow> None)), (d, w'))"
proof -
  obtain w1 where r1: "store_read st env (VerifySupplyRollupCoverage (fst ex)) (d, w)
      = (Inr (VerifySupplyRollupCoverage (fst ex) d), (d, w1))"
    using quiet_read [OF assms] by metis
  obtain w2 where r2: "store_read st env (VerifyDistributionCoverage (snd ex)) (d, w1)
      = (Inr (VerifyDistributionCoverage (snd ex) d), (d, w2))"
    using quiet_read [OF assms] by metis
  show thesis
    by (rule that [of "case VerifySupplyRollupCoverage (fst ex) d of Some (Inr _) \<Rightarrow> w2 | _ \<Rightarrow> w1"])
      (simp add: index_preflights_def r1 r2 split: option.split sum.split)
qed

lemma runIndex_checked:
  assumes "Validate (cfg_RPC cfg) = Inr ()" "cfg_DatabaseURL cfg \<noteq> []" "cfg_Network cfg \<noteq> []"
    "Connect dial (cfg_DatabaseURL cfg)"
    and "getBlockchainInfo w = (Inr info, w1)" "ValidateStartup info (cfg_Network cfg) = Inr ()"
  shows "runIndex dial ord getBlockchainInfo others env tableExists cfg (d, w) =
    (case index_preflights others env tableExists (d, w1) of
       (Some code, y) \<Rightarrow> Some (code, y)
     | (None, y) \<Rightarrow>
       (case NewForNetwork ord (cfg_Network cfg) of
          Inl _ \<Rightarrow> Some (1, y)
        | Inr st \<Rightarrow>
          (case Run st env y of
             None \<Rightarrow> None
           | Some (Inl _, z) \<Rightarrow> Some (1, z)
           | Some (Inr _, z) \<Rightarrow> Some (0, z))))"
  using assms by (simp add: runIndex_def)

text \<open>
  \<open>index\<close> writes nothing before its safety checks have passed: when no other process writes, a run
  that returns has either left the database as it was and exited with an error, or Core reported
  exactly the configured network, is neither pruned nor in initial block download, the supply
  rollup and the address distribution cover the indexed tip, and all it did to the database are
  operations of the store bound to that network.
\<close>

theorem runIndex_guarded:
  assumes "runIndex dial ord getBlockchainInfo others env tableExists cfg (d, w) = Some (code, (d', w'))"
    and "\<forall>w. \<exists>w'. Writers env w = (Inr [], w')"
  shows "d' = d \<and> code \<noteq> 0
    \<or> (\<exists>info w1 st ops. getBlockchainInfo w = (Inr info, w1) \<and> bi_Chain info = cfg_Network cfg
        \<and> \<not> bi_Pruned info \<and> \<not> bi_InitialBlockDownload info
        \<and> VerifySupplyRollupCoverage (fst tableExists) d = Some (Inr ())
        \<and> VerifyDistributionCoverage (snd tableExists) d = Inr ()
        \<and> NewForNetwork ord (cfg_Network cfg) = Inr st \<and> d' = run st ops d)"
proof (cases "Validate (cfg_RPC cfg) = Inr () \<and> cfg_DatabaseURL cfg \<noteq> [] \<and> cfg_Network cfg \<noteq> []
    \<and> (\<exists>info w1. getBlockchainInfo w = (Inr info, w1) \<and> ValidateStartup info (cfg_Network cfg) = Inr ())
    \<and> Connect dial (cfg_DatabaseURL cfg)")
  case False
  then have "d' = d \<and> code \<noteq> 0"
    using assms(1) by (auto simp: runIndex_def split: sum.splits prod.splits if_splits)
  then show ?thesis ..
next
  case True
  then obtain info w1 where info: "getBlockchainInfo w = (Inr info, w1)" "ValidateStartup info (cfg_Network cfg) = Inr ()"
    by blast
  then have startup: "bi_Chain info = cfg_Network cfg" "\<not> bi_Pruned info" "\<not> bi_InitialBlockDownload info"
    by (auto simp: ValidateStartup_def split: if_splits)
  obtain w2 where pre: "index_preflights others env tableExists (d, w1)
    = ((case VerifySupplyRollupCoverage (fst tableExists) d of
      None \<Rightarrow> Some 2
    | Some (Inl _) \<Rightarrow> Some 1
    | Some (Inr _) \<Rightarrow> (case VerifyDistributionCoverage (snd tableExists) d of Inl _ \<Rightarrow> Some 1 | Inr _ \<Rightarrow> None)), (d, w2))"
    by (rule index_preflights_quiet [OF assms(2)])
  from True have passed: "Validate (cfg_RPC cfg) = Inr ()" "cfg_DatabaseURL cfg \<noteq> []" "cfg_Network cfg \<noteq> []"
    "Connect dial (cfg_DatabaseURL cfg)" by simp_all
  note start = runIndex_checked [where w = w and getBlockchainInfo = getBlockchainInfo, OF passed info]
  show ?thesis
  proof (cases "VerifySupplyRollupCoverage (fst tableExists) d = Some (Inr ())
      \<and> VerifyDistributionCoverage (snd tableExists) d = Inr () \<and> (\<exists>st. NewForNetwork ord (cfg_Network cfg) = Inr st)")
    case False
    then have "d' = d \<and> code \<noteq> 0"
      using assms(1) unfolding start pre by (auto split: option.splits sum.splits)
    then show ?thesis ..
  next
    case True
    then obtain st where st: "NewForNetwork ord (cfg_Network cfg) = Inr st" by blast
    obtain q where "Run st env (d, w2) = Some (q, (d', w'))"
      using assms(1) True st unfolding start pre by (auto split: option.splits sum.splits prod.splits)
    then obtain ops where "d' = run st ops d" using Run_advances by (fastforce simp: advances_def)
    then show ?thesis using info startup True st by blast
  qed
qed

end
