(* ===== verification/ServeWitness.thy ===== *)
theory ServeWitness
  imports SearchFacts LinkFacts CommandFacts QueryWitness
begin

text \<open>The requests and the commands on the example chain.\<close>

section \<open>Requests\<close>

definition eg_static :: "http_request \<Rightarrow> web_response" where
  "eg_static r = renderNotFound ''Not found''"

definition eg_snapshot :: "db \<Rightarrow> Api.snapshot" where
  "eg_snapshot d = \<lparr>sn_db = d, sn_mempool = initial_mempool, sn_deployments = initial_deployments, sn_supplyTable = True\<rparr>"

abbreviation eg_root :: "db \<Rightarrow> http_request \<Rightarrow> root_response" where
  "eg_root d \<equiv> newRootHandler eg_static (\<lambda>_. None) (\<lambda>_. Some (eg_snapshot d))"

theorem deployment_link_opens_witness:
  "eg_root ex_d2 (get_url (deploymentPath ''a/b.c'')) = answered (web_handleDeployment (\<lambda>_. None) (\<lambda>_. Some (eg_snapshot ex_d2)) ''a/b.c'')
    \<and> eg_root ex_d2 (get_url (deploymentPath ''/'')) = answered (renderError 404 ''Not Found'' ''There is nothing at this address.'')"
  using deployment_link_opens [of "''a/b.c''"] deployment_link_opens [of "''/''"] by simp

lemma hx_hash64: "is_lower_hex c \<Longrightarrow> isHash64 (hx c)"
  by (simp add: isHash64_def hx_def list_all_iff)

lemma eg_later: "\<forall>i. \<exists>later sn. Some (eg_snapshot ex_d2) = Some sn \<and> sn_db sn = run ex_store later ex_d2"
  by (intro allI exI [of _ "[]"] exI [of _ "eg_snapshot ex_d2"]) (simp add: eg_snapshot_def)

lemma eg_txn: "ex_spend CHR ''d'' (hx CHR ''b'', 0) [ex_out 0 60 ''b'', ex_burn 1 10] \<in> set (blk_Transactions ex_b2)"
  by (simp add: ex_b2_def ex_block_def)

theorem stored_transaction_served_witness:
  "\<exists>t. eg_root ex_d2 (get_url (''/api/v1/tx/'' @ hx CHR ''d'')) = FromApi (Answer (writeJSON (TransactionBody t)))
    \<and> (td_TxID t = hx CHR ''d'' \<or> td_WTxID t = hx CHR ''d'')"
proof -
  have id': "hx CHR ''d'' = tx_TxID (ex_spend CHR ''d'' (hx CHR ''b'', 0) [ex_out 0 60 ''b'', ex_burn 1 10])"
    by (simp add: ex_spend_def)
  have "isHash64 (hx CHR ''d'')" by (rule hx_hash64) (rule is_lower_hex_chars)
  from stored_transaction_served [OF ex_ops1 ex_d2_step eg_txn disjI1 [OF id'] this eg_later] show ?thesis by metis
qed

lemma hx_letter: "\<not> is_digit c \<Longrightarrow> parseHeight (hx c) = None"
  unfolding parseHeight_def digit_range by (simp add: hx_def list_all_iff)

theorem search_resolves_hashes_witness:
  "eg_root ex_d2 (get_url (search_url (hx CHR ''d''))) = answered (redirect_found (''/tx/'' @ hx CHR ''d''))"
proof -
  have h: "isHash64 (hx CHR ''d'')" by (rule hx_hash64) (rule is_lower_hex_chars)
  have n: "parseHeight (hx CHR ''d'') = None" by (rule hx_letter) (simp add: is_digit_def less_eq_char_def)
  have t: "hx CHR ''d'' = blk_Hash ex_b2 \<or> (\<exists>txn \<in> set (blk_Transactions ex_b2). hx CHR ''d'' = tx_TxID txn \<or> hx CHR ''d'' = tx_WTxID txn)"
    by (intro disjI2 bexI [OF _ eg_txn]) (simp add: ex_spend_def)
  have "tget (blocks ex_d2) (hx CHR ''d'') = None" by (simp add: ex_d2_def tget_def hx_simps)
  then show ?thesis
    using search_resolves_hashes [OF ex_ops1 ex_d2_step h n t eg_later, of eg_static "\<lambda>_. None"]
    by (simp add: eg_snapshot_def)
qed

theorem search_opens_address_witness:
  "eg_root ex_d2 (get_url (redirect_location (''/address/'' @ PathEscape ''q1a/b'')))
    = answered (web_handleAddress (\<lambda>_. Some (eg_snapshot ex_d2)) (get_url (redirect_location (''/address/'' @ PathEscape ''q1a/b''))) ''q1a/b'')"
proof -
  have "isValidAddressShape ''q1a/b''" by (simp add: isValidAddressShape_def maxAddressLength_def)
  moreover have "parseHeight ''q1a/b'' = None" by (simp add: parseHeight_def less_char_def)
  moreover have "\<not> isHash64 ''q1a/b''" by (simp add: isHash64_def)
  ultimately show ?thesis using search_opens_address [of "''q1a/b''"] by blast
qed

theorem blocks_links_walk_witness:
  "\<exists>base bs. walk (page_links (eg_root ex_d2) (blocks_url 2)) None = Some bs
    \<and> map bs_Height bs = rev [base..2] \<and> (2, hx CHR ''2'') \<in> (\<lambda>b. (bs_Height b, bs_Hash b)) ` set bs"
proof -
  have sn: "sn_db (eg_snapshot ex_d2) = run ex_store [Apply ex_b0, Apply ex_b1, Apply ex_b2] init_db"
    using ex_ops by (simp add: eg_snapshot_def)
  have tip: "fst (Tip (sn_db (eg_snapshot ex_d2))) = 2" by (simp add: eg_snapshot_def Tip_def ex_d2_def)
  have le: "fst (Tip (sn_db (eg_snapshot ex_d2))) \<le> max_i64" "(0 :: int) \<le> 2" "(2 :: int) \<le> max_i64"
    by (simp_all add: tip max_i64_def)
  have c: "CanonicalBlockHash (sn_db (eg_snapshot ex_d2)) 2 = Some (hx CHR ''2'')"
    by (simp add: eg_snapshot_def CanonicalBlockHash_def ex_d2_def)
  show ?thesis using blocks_links_walk [OF sn refl le, of eg_static "\<lambda>_. None"] c unfolding tip by metis
qed

section \<open>Commands\<close>

definition eg_config :: "string \<Rightarrow> config" where
  "eg_config network = Load [''QOGE_RPC_USER'' \<mapsto> ''u'', ''QOGE_RPC_PASSWORD'' \<mapsto> ''p'', ''QOGE_DATABASE_URL'' \<mapsto> ''postgres://db'',
     ''QOGE_NETWORK'' \<mapsto> network]"

text \<open>A chain whose genesis is that of the main network.\<close>

definition eg_genesis :: block where
  "eg_genesis = ex_b0\<lparr>blk_Hash := mainGenesisHash\<rparr>"

lemma eg_genesis_step: "\<exists>e. ApplyBlock ex_store eg_genesis init_db = Inr e"
proof -
  have g: "is_hash64 mainGenesisHash" "mainGenesisHash \<noteq> []" "[] \<noteq> mainGenesisHash"
    using genesis_hashes_wellformed(1) by (simp_all add: mainGenesisHash_def)
  show ?thesis
    by (simp add: eval_store eg_genesis_def g cong: rbind_lazy let_weak_cong)
qed

lemma eg_network: "NewForNetwork (\<lambda>xs. xs) ''main'' = Inr ex_store" "ExpectedGenesisHash ''main'' = Inr mainGenesisHash"
  by (simp_all add: NewForNetwork_def ScheduleForNetwork_def ex_store_def New_def ExpectedGenesisHash_def)

lemma eg_config_simps [simp]: "cfg_DatabaseURL (eg_config n) = ''postgres://db''"
  "n \<noteq> [] \<Longrightarrow> cfg_Network (eg_config n) = n" "Validate (cfg_RPC (eg_config n)) = Inr ()"
  by (simp_all add: eg_config_def Load_def getEnv_def Validate_def)

theorem runBackfillAccounting_repairs_witness:
  "\<exists>d t. (\<exists>e. ApplyBlock ex_store eg_genesis init_db = Inr e \<and> d = e)
    \<and> runBackfillAccounting (\<lambda>_. True) (\<lambda>xs. xs) (\<lambda>_. 7) ex_session (eg_config ''main'') (d\<lparr>block_accounting := []\<rparr>)
        = (0, d\<lparr>block_accounting := t\<rparr>)
    \<and> tget t mainGenesisHash \<noteq> None
    \<and> runBackfillAccounting (\<lambda>_. True) (\<lambda>xs. xs) (\<lambda>_. 7) ex_session (eg_config ''test'') (d\<lparr>block_accounting := []\<rparr>)
        = (1, d\<lparr>block_accounting := []\<rparr>)"
proof -
  obtain d where step: "ApplyBlock ex_store eg_genesis init_db = Inr d" using eg_genesis_step ..
  have d: "d = run ex_store [Apply eg_genesis] init_db" using step by (simp add: run_step_def attempt_def)
  have b: "blk_Hash eg_genesis = mainGenesisHash" "blk_Height eg_genesis = 0"
    by (simp_all add: eg_genesis_def ex_b0_def ex_block_def)
  have inv: "accounted ex_store d" "chain_inv d" "twf (blocks d)"
    using accounting.reachable [of ex_store "[Apply eg_genesis]"] anchored_chain
      chain.reachable [of ex_store "[Apply eg_genesis]"] d by (auto simp: all_ok_const)
  obtain r where r: "canonical d mainGenesisHash r" "b_height r = 0"
    using ApplyBlock_chain(2) [OF step] init_db_wf b
    by (auto simp: db_wf_def same_block_fields init_db_def twf_def)
  then have row: "tget (blocks d) mainGenesisHash = Some r" "b_canonical r" by (simp_all add: canonical_def)
  have canon: "CanonicalBlockHash d 0 = Some mainGenesisHash"
    using canonical_lookup(1) [OF inv(2,3) row(1)] row(2) r(2) by simp
  have acc: "tget (block_accounting d) mainGenesisHash \<noteq> None"
    using accountedD(4) [OF inv(1)] row(1) by fastforce
  note run = runBackfillAccounting_repairs [OF eg_network d canon ex_lock empty_table]
  show ?thesis
    using run [of "eg_config ''main''" "\<lambda>_. True"] run [of "eg_config ''test''" "\<lambda>_. True"] step acc by auto
qed

text \<open>An index run that is cancelled after its checks.\<close>

definition eg_cancelled :: "unit env" where
  "eg_cancelled = sy_env\<lparr>CtxErr := \<lambda>w. (Some ''context canceled'', w)\<rparr>"

definition eg_info :: blockchain_info where
  "eg_info = \<lparr>bi_Chain = ''main'', bi_InitialBlockDownload = False, bi_Pruned = False\<rparr>"

theorem runIndex_guarded_witness:
  "runIndex (\<lambda>_. True) (\<lambda>xs. xs) (\<lambda>w. (Inr eg_info, w)) ex_store eg_cancelled (True, True) (eg_config ''main'') (init_db, ())
      = Some (0, (init_db, ()))
    \<and> VerifySupplyRollupCoverage True init_db = Some (Inr ())"
proof -
  have quiet: "\<forall>w. \<exists>w'. Writers eg_cancelled w = (Inr [], w')" by (simp add: eg_cancelled_def sy_env_def)
  have init: "VerifySupplyRollupCoverage True init_db = Some (Inr ())" "VerifyDistributionCoverage True init_db = Inr ()"
    by (simp_all add: VerifySupplyRollupCoverage_def VerifyDistributionCoverage_def init_db_def)
  have stop: "Run ex_store eg_cancelled (init_db, ()) = Some (Inr (), (init_db, ()))"
    by (subst Run.simps) (simp add: ctx_check_def eg_cancelled_def sy_env_def)
  have res: "runIndex (\<lambda>_. True) (\<lambda>xs. xs) (\<lambda>w. (Inr eg_info, w)) ex_store eg_cancelled (True, True) (eg_config ''main'') (init_db, ())
      = Some (0, (init_db, ()))"
    by (simp add: runIndex_def ValidateStartup_def eg_info_def Connect_def index_preflights_def store_read_def
        eg_cancelled_def sy_env_def init eg_network Let_def)
      (use stop in \<open>simp add: eg_cancelled_def sy_env_def\<close>)
  show ?thesis using runIndex_guarded [OF res quiet] res by auto
qed

end
