(* ===== verification/Spec2Isabelle.thy ===== *)
theory Spec2Isabelle
  imports Prelude Int64 Chain Script Accounting ChainModel Decode StoreSchema StoreApply DecodeShape Distribution
    StoreBlock StoreSteps StoreImmutable StoreChain StoreExample StoreAddresses
    StoreDistribution StoreUtxo StoreRoundTrip StoreSupply StoreRollup StoreWitness StoreReplay
    Indexer IndexerSafety IndexerSync IndexerWitness Sha256 Migrate MigrateRuns SnapshotCalls
    Mempool MempoolStore MempoolSync MempoolWitness Deployments DeploymentsSync DeploymentsWitness
    Backfill BackfillDistribution StoreOccurrences BackfillFacts BackfillRollup BackfillRollupRuns BackfillWitness
    Paging Query QueryBlocks QueryMoney QueryHistory QueryTx QueryTransactions QueryMempool QueryPool QueryPoolTx
    QueryDeployments QueryWitness Url Mux Requests Api Web WebServer Serve ServeFacts
    SearchFacts LinkFacts Config RpcClient Commands CommandFacts ServeWitness
begin

text \<open>
  QOGE Explorer: the block indexer, its PostgreSQL store, the snapshots of mempool and deployments,
  the queries, and the HTTP servers over them.

  \<^bold>\<open>The program.\<close> The command \<open>index\<close> (\<open>cmd/qoge-explorer/main.go\<close>) checks Core and the database and
  runs the indexer (\<open>internal/indexer\<close>), which asks a Qogecoin Core node for its blocks
  (\<open>internal/rpc\<close>), decodes each one (\<open>internal/decode\<close>, with \<open>internal/script\<close> classifying every
  output) into the types of \<open>internal/chain\<close> and applies it to the store (\<open>internal/store\<close>), where
  \<open>internal/accounting\<close> supplies the subsidy. When Core has reorganized, the store is rolled back to
  the common ancestor first. Beside it two synchronizers publish whole snapshots of the mempool
  (\<open>internal/mempool\<close>) and of the BIP9 deployments (\<open>internal/deployments\<close>), each anchored at the
  confirmed tip. Operator commands migrate the schema and recompute the derived tables (the
  backfills). The command \<open>serve\<close> answers requests from read-only snapshots: \<open>internal/query\<close> reads
  them, \<open>internal/api\<close> and \<open>internal/web\<close> present them as JSON and as pages.

  \<^bold>\<open>Shared vocabulary.\<close>
  \<^item> \<open>Prelude\<close>: results as sums (\<open>Inl\<close> is a non-nil error), the loops of the code (\<open>fold_res\<close>),
    slices, hexadecimal and decimal texts, calls that read and change a state of the outside.
  \<^item> \<open>Int64\<close>: Go's \<open>int64\<close> arithmetic with its wrap-around, and the checked additions.
  \<^item> \<open>Table\<close>: tables as lists of keyed rows, with the locale \<open>keyed_table\<close> of what the SQL statements
    promise and its interpretation.

  \<^bold>\<open>Blocks.\<close>
  \<^item> \<open>Chain\<close>, \<open>ChainModel\<close>: \<open>internal/chain\<close>, amounts, genesis hashes and the parsed block.
  \<^item> \<open>Script\<close>: \<open>internal/script\<close>. Classification is exact against the encodings of the script forms, in
    whichever order they are tried.
  \<^item> \<open>Accounting\<close>: \<open>internal/accounting\<close>. The scheduled total, computed era by era, is the sum of the
    subsidies.
  \<^item> \<open>Decode\<close>: \<open>internal/decode\<close> on the records of \<open>internal/rpc/block.go\<close>. Amounts are exact; what
    \<open>DecodeBlock\<close> returns is well formed. \<open>DecodeShape\<close>: the store accepts its shape, but for the place
    of the coinbase.

  \<^bold>\<open>The store.\<close>
  \<^item> \<open>StoreSchema\<close>, \<open>StoreApply\<close>, \<open>Distribution\<close>, \<open>StoreBlock\<close>: the tables of \<open>migrations/\<close> with their
    constraints, and \<open>ApplyBlock\<close> and \<open>RollbackTo\<close> statement by statement (\<open>apply.go\<close>,
    \<open>distribution.go\<close>, \<open>accounting.go\<close>, \<open>supply_rollup.go\<close>, \<open>reorg.go\<close>, \<open>store.go\<close>).
  \<^item> \<open>StoreSteps\<close>: the locales \<open>tx_steps\<close>, \<open>store_steps\<close> and \<open>store_invariant\<close>: what every statement
    keeps every operation keeps, and what every operation keeps holds of every reachable database.
  \<^item> Their interpretations: \<open>StoreImmutable\<close> (immutable history), \<open>StoreChain\<close> (the canonical chain is
    linked by its parents up to the checkpoint), \<open>StoreUtxo\<close> (coins are created and spent by canonical
    blocks), \<open>StoreAddresses\<close> and \<open>StoreDistribution\<close> (the cached totals of an address and the buckets
    equal a recomputation), \<open>StoreSupply\<close> and \<open>StoreRollup\<close> (the supply rollup equals the coins),
    \<open>StoreRoundTrip\<close> (rolling back undoes appending), \<open>StoreOccurrences\<close> (what a block leaves behind).
  \<^item> \<open>StoreReplay\<close>: the accepted repetition of a transaction that breaks the supply identity.
  \<^item> \<open>Sha256\<close>, \<open>Migrate\<close>, \<open>MigrateRuns\<close>: \<open>migrate.go\<close> with its checksums; \<open>Up\<close> applies a prefix of
    what is pending, \<open>Down\<close> inverts it.
  \<^item> \<open>Backfill\<close>, \<open>BackfillFacts\<close>, \<open>BackfillRollup\<close>, \<open>BackfillRollupRuns\<close>, \<open>BackfillDistribution\<close>: the
    three backfills, the coverage checks and the network check; each backfill restores exactly what
    the live operations had written.

  \<^bold>\<open>Following Core.\<close>
  \<^item> \<open>Indexer\<close>: \<open>SyncToTip\<close>, the reorganization, the race checks and \<open>Run\<close>. \<open>IndexerSafety\<close>: whatever
    Core and other writers do, the database changes by operations of the store only, and success means
    the tip was caught up. \<open>IndexerSync\<close>: with a Core that answers, the synchronization ends at its tip
    and reconciliation finds the fork point.
  \<^item> \<open>SnapshotCalls\<close>: what the two synchronizers share, with the locale \<open>publisher\<close>.
  \<^item> \<open>Mempool\<close>, \<open>MempoolStore\<close>, \<open>MempoolSync\<close> and \<open>Deployments\<close>, \<open>DeploymentsSync\<close>: validation, the
    replacement of a snapshot and the polling cycles. Exactly the valid candidates are stored, what is
    published was anchored at one tip, and the cache is always one whole snapshot.

  \<^bold>\<open>Reading.\<close>
  \<^item> \<open>Paging\<close>: keyset pagination with the locale \<open>keyset_listing\<close>, interpreted by the list of blocks, the
    history of an address and the mempool list.
  \<^item> \<open>Query\<close>, \<open>QueryTx\<close>, \<open>QueryMempool\<close>, \<open>QueryDeployments\<close>: every public query of \<open>internal/query\<close> as
    a function of the snapshot it reads, with its integrity checks.
  \<^item> \<open>QueryBlocks\<close>, \<open>QueryMoney\<close>, \<open>QueryHistory\<close>, \<open>QueryTransactions\<close>, \<open>QueryPool\<close>, \<open>QueryPoolTx\<close>: what
    was stored is what is read, page by page and transaction by transaction.
  \<^item> \<open>Url\<close>, \<open>Mux\<close>: what the servers use of Go's \<open>net/url\<close>, \<open>path\<close>, \<open>strings\<close> and \<open>net/http\<close> (1.22).
  \<^item> \<open>Requests\<close>, \<open>Api\<close>: validation of requests, handlers and routes of \<open>internal/api\<close>.
  \<^item> \<open>Web\<close>, \<open>WebServer\<close>: the same of \<open>internal/web\<close>, with its links, the search and the security
    headers, and \<open>newRootHandler\<close>, which composes the two servers.
  \<^item> \<open>Serve\<close>, \<open>ServeFacts\<close>, \<open>SearchFacts\<close>, \<open>LinkFacts\<close>: from a URL to the answer. A stored transaction is
    always served, links and redirects reach the page they name, and following the links of the block
    list shows the whole canonical chain.

  \<^bold>\<open>Commands.\<close> \<open>Config\<close> is \<open>internal/config\<close>, \<open>RpcClient\<close> is \<open>internal/rpc\<close> over \<open>net/http\<close>, whose
  methods are the calls that the indexer and the synchronizers take as parameters, \<open>Commands\<close> the
  commands of \<open>main.go\<close> as exit code and effect on the database. \<open>CommandFacts\<close>: nothing is written before the checks have passed.

  \<^bold>\<open>Examples.\<close> \<open>StoreExample\<close> is a chain of three blocks, evaluated step by step; \<open>StoreWitness\<close>,
  \<open>IndexerWitness\<close>, \<open>MempoolWitness\<close>, \<open>DeploymentsWitness\<close>, \<open>BackfillWitness\<close>, \<open>QueryWitness\<close> and
  \<open>ServeWitness\<close> apply the theorems to it.

  \<^bold>\<open>Conventions.\<close> A database transaction is a function from the database to an error or a new database;
  an error leaves the database as it was (\<open>run_step\<close>). A constraint of the schema that a statement
  violates is \<open>ErrDatabase\<close>. Columns of type \<open>BIGINT\<close> and Go's \<open>int64\<close> are integers with an explicit
  range. The row lock on \<open>sync_state\<close> serializes the operations, so a run is a list of operations
  (\<open>run\<close>), and the reachable databases are the runs from \<open>init_db\<close>. Go iterates over maps in an order of
  its choice; a store carries this choice (\<open>mapOrder\<close>). Text is ordered by its bytes, as the C collation
  does. There is no fuel: a recursion has a termination proof, or, where a loop of the code need not
  end, is a \<open>partial_function\<close> whose \<open>None\<close> means that it never returns; that it does return is then
  a conclusion of the theorems.

  \<^bold>\<open>Parameters\<close> stand for what is not in the repository: Core and its address descriptors (\<open>env\<close>,
  \<open>core_rpc\<close>), PostgreSQL on the text of a migration (\<open>exec\<close>), on \<open>JSONB\<close> (\<open>jsonb\<close>), \<open>hashtext\<close> and the
  locks of other sessions (\<open>session\<close>), the connection (\<open>dial\<close>), \<open>encoding/json\<close> (\<open>unmarshal\<close>, \<open>decode\<close>),
  the map order of the migrations (\<open>iter\<close>), the static files (\<open>static\<close>), and the databases that the
  successive transactions of a request see (\<open>snaps\<close>).

  \<^bold>\<open>Not modelled:\<close> the HTTP transport to Core, the construction of the logger and all logging, the
  text of JSON answers and of the HTML templates, time formats, timeouts and waiting, timestamps that
  the database assigns, and what the commands print.

  \<^bold>\<open>Findings.\<close> The supply identity fails for a transaction without spendable outputs that returns in a
  later block (evaluated in \<open>StoreReplay\<close>). A bare multisig that lists a key twice freezes the mempool
  snapshot (\<open>MempoolStore\<close>). The page of a deployment named by a single slash cannot be reached
  (\<open>ServeFacts\<close>). Amounts such as \<open>5.\<close> are accepted against the comment (\<open>Decode\<close>).
\<close>

end
